(* ===== verification/Prelude.thy ===== *)
theory Prelude
  imports Main "HOL-Library.Word" "HOL-Library.List_Lexorder" "HOL-Library.Char_ord"
    "HOL-Library.Product_Lexorder"
begin

text \<open>
  Shared vocabulary of the development: results of fallible Rust functions, machine integers with
  Rust's saturating operations, ordered maps and sets (\<open>BTreeMap\<close>, \<open>BTreeSet\<close>), UTF-8 strings and
  the sequencing combinators that stand for the \<open>?\<close> operator and for loops that may return early.
\<close>

section \<open>Results\<close>

text \<open>
  \<open>Result<A, E>\<close> is the sum \<open>'e + 'a\<close>: \<open>Inl\<close> carries the error and \<open>Inr\<close> the value.
  \<open>and_then r k\<close> is \<open>let x = r?; k(x)\<close>.
\<close>

type_synonym ('e, 'a) result = "'e + 'a"

fun and_then :: "'e + 'a \<Rightarrow> ('a \<Rightarrow> 'e + 'b) \<Rightarrow> 'e + 'b" where
  "and_then (Inl e) k = Inl e"
| "and_then (Inr x) k = k x"

fun map_err :: "('e \<Rightarrow> 'f) \<Rightarrow> 'e + 'a \<Rightarrow> 'f + 'a" where
  "map_err f (Inl e) = Inl (f e)"
| "map_err f (Inr x) = Inr x"

definition ok_or :: "'a option \<Rightarrow> 'e \<Rightarrow> 'e + 'a" where
  "ok_or x e = (case x of None \<Rightarrow> Inl e | Some y \<Rightarrow> Inr y)"

definition is_ok :: "'e + 'a \<Rightarrow> bool" where
  "is_ok r = (case r of Inl _ \<Rightarrow> False | Inr _ \<Rightarrow> True)"

text \<open>\<open>for x in xs { f(x)?; }\<close>\<close>

fun try_each :: "('a \<Rightarrow> 'e + unit) \<Rightarrow> 'a list \<Rightarrow> 'e + unit" where
  "try_each f [] = Inr ()"
| "try_each f (x # xs) = and_then (f x) (\<lambda>_. try_each f xs)"

text \<open>\<open>for x in xs { acc = f(acc, x)?; }\<close>\<close>

fun try_fold :: "('s \<Rightarrow> 'a \<Rightarrow> 'e + 's) \<Rightarrow> 's \<Rightarrow> 'a list \<Rightarrow> 'e + 's" where
  "try_fold f s [] = Inr s"
| "try_fold f s (x # xs) = and_then (f s x) (\<lambda>s'. try_fold f s' xs)"

named_theorems result_simps \<open>characterisations of successful results\<close>

lemma and_then_Inr_iff [result_simps]:
  "and_then r k = Inr y \<longleftrightarrow> (\<exists>x. r = Inr x \<and> k x = Inr y)"
  by (cases r) auto

lemma and_then_Inl_iff:
  "and_then r k = Inl e \<longleftrightarrow> r = Inl e \<or> (\<exists>x. r = Inr x \<and> k x = Inl e)"
  by (cases r) auto

lemma and_then_cong [fundef_cong]:
  "r = r' \<Longrightarrow> (\<And>x. r' = Inr x \<Longrightarrow> k x = k' x) \<Longrightarrow> and_then r k = and_then r' k'"
  by (cases r') auto

lemma map_err_Inr_iff [result_simps]: "map_err f r = Inr y \<longleftrightarrow> r = Inr y"
  by (cases r) auto

lemma ok_or_Inr_iff [result_simps]: "ok_or x e = Inr y \<longleftrightarrow> x = Some y"
  by (auto simp: ok_or_def split: option.splits)

lemma ok_or_simps [simp]: "ok_or None e = Inl e" "ok_or (Some y) e = Inr y"
  by (simp_all add: ok_or_def)

lemma is_ok_iff: "is_ok r \<longleftrightarrow> (\<exists>x. r = Inr x)"
  by (cases r) (auto simp: is_ok_def)

lemma is_ok_simps [simp]: "is_ok (Inl e) = False" "is_ok (Inr x) = True"
  by (simp_all add: is_ok_def)

lemma guard_Inr_iff [result_simps]:
  "(if c then Inl e else r) = Inr y \<longleftrightarrow> \<not> c \<and> r = Inr y"
  by auto

lemma try_each_Inr_iff [result_simps]:
  "try_each f xs = Inr () \<longleftrightarrow> (\<forall>x \<in> set xs. f x = Inr ())"
  by (induction xs) (auto simp: and_then_Inr_iff)

lemma try_each_InlD: "try_each f xs = Inl e \<Longrightarrow> \<exists>x \<in> set xs. f x = Inl e"
  by (induction xs) (auto simp: and_then_Inl_iff)

lemma try_fold_append:
  "try_fold f s (xs @ ys) = and_then (try_fold f s xs) (\<lambda>s'. try_fold f s' ys)"
proof (induction xs arbitrary: s)
  case Nil
  then show ?case by simp
next
  case (Cons x xs)
  then show ?case by (cases "f s x") auto
qed

text \<open>An invariant kept by every step of a fold that does not fail holds of its result.\<close>

lemma try_fold_invariant:
  assumes "try_fold f s xs = Inr t" and "P s"
    and "\<And>s x s'. P s \<Longrightarrow> x \<in> set xs \<Longrightarrow> f s x = Inr s' \<Longrightarrow> P s'"
  shows "P t"
  using assms(1,2,3)
proof (induction xs arbitrary: s)
  case Nil
  then show ?case by simp
next
  case (Cons x xs)
  from Cons.prems(1) obtain s' where step: "f s x = Inr s'" and rest: "try_fold f s' xs = Inr t"
    by (auto simp: and_then_Inr_iff)
  have "P s'"
    by (rule Cons.prems(3) [OF Cons.prems(2) _ step]) simp
  note rest this
  moreover have "P u \<Longrightarrow> y \<in> set xs \<Longrightarrow> f u y = Inr u' \<Longrightarrow> P u'" for u y u'
    by (rule Cons.prems(3)) auto
  ultimately show ?case
    by (rule Cons.IH)
qed

section \<open>Machine integers\<close>

type_synonym u8 = "8 word"
type_synonym u32 = "32 word"
type_synonym u64 = "64 word"

definition saturating_add :: "'a::len word \<Rightarrow> 'a word \<Rightarrow> 'a word" where
  "saturating_add a b = (if unat a + unat b < 2 ^ LENGTH('a) then a + b else - 1)"

definition saturating_sub :: "'a::len word \<Rightarrow> 'a word \<Rightarrow> 'a word" where
  "saturating_sub a b = (if b \<le> a then a - b else 0)"

definition checked_add :: "'a::len word \<Rightarrow> 'a word \<Rightarrow> 'a word option" where
  "checked_add a b = (if unat a + unat b < 2 ^ LENGTH('a) then Some (a + b) else None)"

lemma unat_minus_one_word_max: "unat (- 1 :: 'a::len word) = 2 ^ LENGTH('a) - 1"
  by (simp add: unsigned_minus_1_eq_mask mask_eq_exp_minus_1)

lemma unat_saturating_add:
  fixes a b :: "'a::len word"
  shows "unat (saturating_add a b) = min (unat a + unat b) (2 ^ LENGTH('a) - 1)"
proof (cases "unat a + unat b < 2 ^ LENGTH('a)")
  case True
  then have "unat (a + b) = unat a + unat b"
    by (simp add: unat_word_ariths)
  with True show ?thesis by (simp add: saturating_add_def)
next
  case False
  then show ?thesis
    by (simp add: saturating_add_def unat_minus_one_word_max)
qed

lemma unat_saturating_sub: "unat (saturating_sub a b) = unat a - unat b"
  by (auto simp: saturating_sub_def unat_sub word_le_nat_alt)

lemma saturating_add_mono: "a \<le> saturating_add a b"
proof -
  have "unat a \<le> 2 ^ LENGTH('a) - 1"
    using unsigned_less [of a, where 'a = nat] by linarith
  then show ?thesis
    by (simp add: word_le_nat_alt unat_saturating_add)
qed

lemma checked_add_Some: "checked_add a b = Some c \<Longrightarrow> unat c = unat a + unat b"
  by (auto simp: checked_add_def unat_word_ariths split: if_splits)

lemma unat_plus_one:
  fixes a :: "'a::len word"
  assumes "unat a + 1 < 2 ^ LENGTH('a)"
  shows "unat (a + 1) = unat a + 1"
  using assms by (simp add: unat_word_ariths)

section \<open>Ordered maps and sets\<close>

text \<open>
  A \<open>BTreeMap\<close> is the list of its entries in key order, a \<open>BTreeSet\<close> the list of its elements in
  order, so that iteration is list traversal. The order is the invariant \<open>bt_ok\<close>.
\<close>

type_synonym ('k, 'v) btreemap = "('k \<times> 'v) list"
type_synonym 'k btreeset = "'k list"

definition bt_get :: "('k, 'v) btreemap \<Rightarrow> 'k \<Rightarrow> 'v option" where
  "bt_get m k = map_of m k"

definition bt_contains :: "('k, 'v) btreemap \<Rightarrow> 'k \<Rightarrow> bool" where
  "bt_contains m k = (bt_get m k \<noteq> None)"

fun bt_insert :: "'k::linorder \<Rightarrow> 'v \<Rightarrow> ('k, 'v) btreemap \<Rightarrow> ('k, 'v) btreemap" where
  "bt_insert k v [] = [(k, v)]"
| "bt_insert k v ((k', v') # m) =
     (if k < k' then (k, v) # (k', v') # m
      else if k = k' then (k, v) # m
      else (k', v') # bt_insert k v m)"

definition bt_remove :: "'k \<Rightarrow> ('k, 'v) btreemap \<Rightarrow> ('k, 'v) btreemap" where
  "bt_remove k m = filter (\<lambda>kv. fst kv \<noteq> k) m"

text \<open>\<open>if let Some(v) = m.get_mut(k) { f(v) }\<close>\<close>

definition bt_adjust :: "'k \<Rightarrow> ('v \<Rightarrow> 'v) \<Rightarrow> ('k, 'v) btreemap \<Rightarrow> ('k, 'v) btreemap" where
  "bt_adjust k f m = map (\<lambda>kv. if fst kv = k then (fst kv, f (snd kv)) else kv) m"

text \<open>\<open>for v in m.values_mut() { f(v) }\<close>\<close>

definition bt_map_values :: "('v \<Rightarrow> 'w) \<Rightarrow> ('k, 'v) btreemap \<Rightarrow> ('k, 'w) btreemap" where
  "bt_map_values f m = map (\<lambda>kv. (fst kv, f (snd kv))) m"

definition bt_retain :: "('k \<Rightarrow> 'v \<Rightarrow> bool) \<Rightarrow> ('k, 'v) btreemap \<Rightarrow> ('k, 'v) btreemap" where
  "bt_retain p m = filter (\<lambda>kv. p (fst kv) (snd kv)) m"

definition bt_keys :: "('k, 'v) btreemap \<Rightarrow> 'k list" where
  "bt_keys m = map fst m"

definition bt_values :: "('k, 'v) btreemap \<Rightarrow> 'v list" where
  "bt_values m = map snd m"

definition bt_ok :: "('k::linorder, 'v) btreemap \<Rightarrow> bool" where
  "bt_ok m = sorted_wrt (<) (map fst m)"

definition bs_insert :: "'k::linorder \<Rightarrow> 'k btreeset \<Rightarrow> 'k btreeset" where
  "bs_insert x s = (if x \<in> set s then s else insort x s)"

definition bs_remove :: "'k \<Rightarrow> 'k btreeset \<Rightarrow> 'k btreeset" where
  "bs_remove x s = filter (\<lambda>y. y \<noteq> x) s"

definition bs_ok :: "'k::linorder btreeset \<Rightarrow> bool" where
  "bs_ok s = sorted_wrt (<) s"

subsection \<open>The map contract\<close>

text \<open>What a client of \<open>BTreeMap\<close> relies on, stated over any map representation.\<close>

locale keyed_map =
  fixes get :: "'m \<Rightarrow> 'k \<Rightarrow> 'v option"
    and put :: "'k \<Rightarrow> 'v \<Rightarrow> 'm \<Rightarrow> 'm"
    and del :: "'k \<Rightarrow> 'm \<Rightarrow> 'm"
    and adjust :: "'k \<Rightarrow> ('v \<Rightarrow> 'v) \<Rightarrow> 'm \<Rightarrow> 'm"
    and ok :: "'m \<Rightarrow> bool"
  assumes get_put: "get (put k v m) k' = (if k' = k then Some v else get m k')"
    and get_del: "get (del k m) k' = (if k' = k then None else get m k')"
    and get_adjust: "get (adjust k f m) k' = (if k' = k then map_option f (get m k') else get m k')"
    and ok_put: "ok m \<Longrightarrow> ok (put k v m)"
    and ok_del: "ok m \<Longrightarrow> ok (del k m)"
    and ok_adjust: "ok m \<Longrightarrow> ok (adjust k f m)"
begin

lemma get_put_same: "get (put k v m) k = Some v"
  by (simp add: get_put)

lemma get_put_overwrites: "get (put k v (put k w m)) k' = get (put k v m) k'"
  by (simp add: get_put)

lemma get_put_commute: "k \<noteq> l \<Longrightarrow> get (put k v (put l w m)) k' = get (put l w (put k v m)) k'"
  by (simp add: get_put)

lemma get_adjust_dom: "get (adjust k f m) k' = None \<longleftrightarrow> get m k' = None"
  by (simp add: get_adjust)

end

lemma bt_get_insert: "bt_get (bt_insert k v m) k' = (if k' = k then Some v else bt_get m k')"
  unfolding bt_get_def by (induction m) auto

lemma bt_get_remove: "bt_get (bt_remove k m) k' = (if k' = k then None else bt_get m k')"
  unfolding bt_get_def bt_remove_def by (induction m) auto

lemma bt_get_adjust:
  "bt_get (bt_adjust k f m) k' = (if k' = k then map_option f (bt_get m k') else bt_get m k')"
  unfolding bt_get_def bt_adjust_def by (induction m) auto

lemma bt_get_map_values: "bt_get (bt_map_values f m) k = map_option f (bt_get m k)"
  unfolding bt_get_def bt_map_values_def by (induction m) auto

lemma set_fst_bt_insert: "fst ` set (bt_insert k v m) = insert k (fst ` set m)"
  by (induction k v m rule: bt_insert.induct) (simp_all add: insert_commute)

lemma bt_ok_insert: "bt_ok m \<Longrightarrow> bt_ok (bt_insert k v m)"
  unfolding bt_ok_def
proof (induction m)
  case Nil
  then show ?case by simp
next
  case (Cons kv m)
  then show ?case
    using set_fst_bt_insert [of k v m]
    by (cases kv) (auto simp: image_iff intro: less_trans)
qed

lemma bt_ok_remove: "bt_ok m \<Longrightarrow> bt_ok (bt_remove k m)"
  unfolding bt_ok_def bt_remove_def by (induction m) auto

lemma bt_ok_retain: "bt_ok m \<Longrightarrow> bt_ok (bt_retain p m)"
  unfolding bt_ok_def bt_retain_def by (induction m) auto

lemma map_fst_bt_adjust: "map fst (bt_adjust k f m) = map fst m"
  by (induction m) (auto simp: bt_adjust_def)

lemma map_fst_bt_map_values: "map fst (bt_map_values f m) = map fst m"
  by (induction m) (auto simp: bt_map_values_def)

lemma bt_ok_adjust: "bt_ok m \<Longrightarrow> bt_ok (bt_adjust k f m)"
  by (simp add: bt_ok_def map_fst_bt_adjust)

lemma bt_ok_map_values: "bt_ok m \<Longrightarrow> bt_ok (bt_map_values f m)"
  by (simp add: bt_ok_def map_fst_bt_map_values)

lemma bt_ok_Nil [simp]: "bt_ok []"
  by (simp add: bt_ok_def)

lemma bt_get_Nil [simp]: "bt_get [] k = None"
  by (simp add: bt_get_def)

interpretation bt: keyed_map bt_get "bt_insert :: 'k::linorder \<Rightarrow> 'v \<Rightarrow> _" bt_remove bt_adjust bt_ok
  by unfold_locales
    (simp_all add: bt_get_insert bt_get_remove bt_get_adjust bt_ok_insert bt_ok_remove bt_ok_adjust)

lemma bt_ok_distinct: "bt_ok m \<Longrightarrow> distinct (map fst m)"
  unfolding bt_ok_def by (induction m) auto

lemma bt_get_in_set: "bt_get m k = Some v \<Longrightarrow> (k, v) \<in> set m"
  by (auto simp: bt_get_def dest: map_of_SomeD)

lemma bt_get_iff_in_set: "bt_ok m \<Longrightarrow> bt_get m k = Some v \<longleftrightarrow> (k, v) \<in> set m"
  by (simp add: bt_get_def bt_ok_distinct map_of_eq_Some_iff)

lemma bt_get_value: "bt_get m k = Some v \<Longrightarrow> v \<in> set (bt_values m)"
  by (force simp: bt_values_def dest: bt_get_in_set)

lemma bt_value_get: "bt_ok m \<Longrightarrow> v \<in> set (bt_values m) \<Longrightarrow> \<exists>k. bt_get m k = Some v"
  by (auto simp: bt_values_def bt_get_iff_in_set)

lemma bt_contains_iff: "bt_contains m k \<longleftrightarrow> k \<in> set (map fst m)"
  by (auto simp: bt_contains_def bt_get_def map_of_eq_None_iff)

lemma set_bs_insert [simp]: "set (bs_insert x s) = insert x (set s)"
  by (auto simp: bs_insert_def set_insort_key)

lemma bs_ok_iff: "bs_ok s \<longleftrightarrow> sorted s \<and> distinct s"
  by (simp add: bs_ok_def strict_sorted_iff)

lemma bs_ok_insert: "bs_ok s \<Longrightarrow> bs_ok (bs_insert x s)"
  by (auto simp: bs_ok_iff bs_insert_def sorted_insort distinct_insort)

lemma bs_ok_Nil [simp]: "bs_ok []"
  by (simp add: bs_ok_def)

lemma bs_ok_distinct: "bs_ok s \<Longrightarrow> distinct s"
  by (simp add: bs_ok_iff)

lemma length_bs_insert: "length (bs_insert x s) = (if x \<in> set s then length s else Suc (length s))"
  by (simp add: bs_insert_def)

lemma bs_ok_length: "bs_ok s \<Longrightarrow> length s = card (set s)"
  by (simp add: bs_ok_distinct distinct_card)

lemma set_bs_remove [simp]: "set (bs_remove x s) = set s - {x}"
  by (auto simp: bs_remove_def)

text \<open>\<open>iter.collect::<BTreeSet<_>>()\<close>\<close>

definition bs_collect :: "'k::linorder list \<Rightarrow> 'k btreeset" where
  "bs_collect xs = foldl (\<lambda>s x. bs_insert x s) [] xs"

lemma foldl_bs_insert:
  "set (foldl (\<lambda>s x. bs_insert x s) s xs) = set s \<union> set xs \<and>
   (bs_ok s \<longrightarrow> bs_ok (foldl (\<lambda>s x. bs_insert x s) s xs))"
  by (induction xs arbitrary: s) (auto simp: bs_ok_insert)

lemma set_bs_collect [simp]: "set (bs_collect xs) = set xs"
  by (simp add: bs_collect_def foldl_bs_insert)

lemma bs_ok_collect: "bs_ok (bs_collect xs)"
  using foldl_bs_insert [of "[]" xs] by (simp add: bs_collect_def)

text \<open>Ordered maps and sets are determined by their lookups and elements.\<close>

lemma bs_eqI: "bs_ok s \<Longrightarrow> bs_ok t \<Longrightarrow> set s = set t \<Longrightarrow> s = t"
  by (simp add: bs_ok_iff sorted_distinct_set_unique)

lemma set_keys_bt: "set (map fst m) = {k. bt_get m k \<noteq> None}"
  using bt_contains_iff [of m] by (auto simp: bt_contains_def)

lemma bt_reconstruct: "bt_ok m \<Longrightarrow> map (\<lambda>k. (k, the (bt_get m k))) (map fst m) = m"
  unfolding map_map comp_def by (rule map_idI) (auto simp: bt_get_iff_in_set [THEN iffD2])

lemma bt_eqI:
  assumes "bt_ok m" and "bt_ok n" and "\<And>k. bt_get m k = bt_get n k"
  shows "m = n"
proof -
  have "map fst m = map fst n"
    using assms set_keys_bt [of m] set_keys_bt [of n]
    by (intro bs_eqI) (simp_all add: bt_ok_def bs_ok_def)
  then show ?thesis
    using bt_reconstruct [OF assms(1)] bt_reconstruct [OF assms(2)] assms(3) by simp
qed

section \<open>Strings\<close>

text \<open>
  A Rust \<open>String\<close> is the list of its UTF-8 bytes, so \<open>length\<close> is \<open>str::len\<close> and \<open>prefix\<close> and
  equality are those of \<open>str\<close>. \<open>blank s\<close> is \<open>s.trim().is_empty()\<close>: every character has the
  Unicode property White\_Space, here by the UTF-8 encodings of those characters.
\<close>

definition byte_of :: "char \<Rightarrow> nat" where
  "byte_of c = of_char c"

definition ws1 :: "char \<Rightarrow> bool" where
  "ws1 a = (9 \<le> byte_of a \<and> byte_of a \<le> 13 \<or> byte_of a = 32)"

definition ws2 :: "char \<Rightarrow> char \<Rightarrow> bool" where
  "ws2 a b = (byte_of a = 194 \<and> (byte_of b = 133 \<or> byte_of b = 160))"

definition ws3 :: "char \<Rightarrow> char \<Rightarrow> char \<Rightarrow> bool" where
  "ws3 a b c =
     (byte_of a = 225 \<and> byte_of b = 154 \<and> byte_of c = 128 \<or>
      byte_of a = 226 \<and> byte_of b = 128 \<and>
        (128 \<le> byte_of c \<and> byte_of c \<le> 138 \<or> byte_of c = 168 \<or> byte_of c = 169 \<or> byte_of c = 175) \<or>
      byte_of a = 226 \<and> byte_of b = 129 \<and> byte_of c = 159 \<or>
      byte_of a = 227 \<and> byte_of b = 128 \<and> byte_of c = 128)"

fun blank :: "string \<Rightarrow> bool" where
  "blank [] = True"
| "blank [a] = ws1 a"
| "blank [a, b] = (if ws1 a then blank [b] else ws2 a b)"
| "blank (a # b # c # s) =
     (if ws1 a then blank (b # c # s)
      else if ws2 a b then blank (c # s)
      else ws3 a b c \<and> blank s)"

definition is_ascii_digit :: "char \<Rightarrow> bool" where
  "is_ascii_digit c = (48 \<le> byte_of c \<and> byte_of c \<le> 57)"

definition is_ascii_alphanumeric :: "char \<Rightarrow> bool" where
  "is_ascii_alphanumeric c =
     (is_ascii_digit c \<or> 65 \<le> byte_of c \<and> byte_of c \<le> 90 \<or> 97 \<le> byte_of c \<and> byte_of c \<le> 122)"

definition is_ascii_hexdigit :: "char \<Rightarrow> bool" where
  "is_ascii_hexdigit c =
     (is_ascii_digit c \<or> 65 \<le> byte_of c \<and> byte_of c \<le> 70 \<or> 97 \<le> byte_of c \<and> byte_of c \<le> 102)"

fun starts_with :: "string \<Rightarrow> string \<Rightarrow> bool" where
  "starts_with s [] = True"
| "starts_with [] (p # ps) = False"
| "starts_with (c # s) (p # ps) = (c = p \<and> starts_with s ps)"

lemma starts_with_iff: "starts_with s p \<longleftrightarrow> (\<exists>r. s = p @ r)"
  by (induction s p rule: starts_with.induct) auto

lemma starts_with_append [simp]: "starts_with (p @ r) p"
  by (simp add: starts_with_iff)

lemma not_blank_nonempty: "\<not> blank s \<Longrightarrow> s \<noteq> []"
  by auto

section \<open>Lists\<close>

lemma last_filter_in: "filter p xs \<noteq> [] \<Longrightarrow> last (filter p xs) \<in> set xs \<and> p (last (filter p xs))"
  using last_in_set [of "filter p xs"] by auto

end
