(* ===== verification/Digests.thy ===== *)
theory Digests
  imports Prelude
begin

text \<open>
  Content addresses and identifiers: \<open>Digest\<close> with its textual form (\<^verbatim>\<open>digest.rs\<close>), and the
  UUID newtypes that name tasks and sessions. SHA-256 and JSON encoding are external code; the
  definitions that hash take them as arguments.
\<close>

section \<open>Digest\<close>

datatype digest = Digest (digest_bytes: "u8 list")

text \<open>The Rust type is \<open>[u8; 32]\<close>; the width is the invariant \<open>digest_ok\<close>.\<close>

definition digest_ok :: "digest \<Rightarrow> bool" where
  "digest_ok d = (length (digest_bytes d) = 32)"

instantiation digest :: linorder
begin

definition less_eq_digest :: "digest \<Rightarrow> digest \<Rightarrow> bool" where
  "less_eq_digest a b = (digest_bytes a \<le> digest_bytes b)"

definition less_digest :: "digest \<Rightarrow> digest \<Rightarrow> bool" where
  "less_digest a b = (digest_bytes a < digest_bytes b)"

instance
  by standard
    (auto simp: less_eq_digest_def less_digest_def less_le_not_le intro: digest.expand order.trans)

end

definition hex_char :: "nat \<Rightarrow> char" where
  "hex_char n = (if n < 10 then char_of (48 + n) else char_of (87 + n))"

definition hex_byte :: "u8 \<Rightarrow> string" where
  "hex_byte b = [hex_char (unat b div 16), hex_char (unat b mod 16)]"

definition digest_to_string :: "digest \<Rightarrow> string" where
  "digest_to_string d = concat (map hex_byte (digest_bytes d))"

definition hex_value :: "char \<Rightarrow> nat" where
  "hex_value c =
     (if is_ascii_digit c then byte_of c - 48
      else if byte_of c \<le> 70 then byte_of c - 55
      else byte_of c - 87)"

text \<open>\<open>u8::from_str_radix(.., 16)\<close> on a slice of two bytes.\<close>

definition u8_from_hex :: "char \<Rightarrow> char \<Rightarrow> u8 option" where
  "u8_from_hex a b =
     (if is_ascii_hexdigit a \<and> is_ascii_hexdigit b
      then Some (of_nat (16 * hex_value a + hex_value b)) else None)"

definition digest_from_str :: "string \<Rightarrow> string + digest" where
  "digest_from_str value =
     (if length value \<noteq> 64 \<or> \<not> list_all is_ascii_hexdigit value
      then Inl ''digest must contain 64 hexadecimal characters''
      else map_err (\<lambda>_. ''invalid digest'')
        (and_then
          (try_fold (\<lambda>bytes i.
             and_then (ok_or (u8_from_hex (value ! (2 * i)) (value ! (2 * i + 1))) ''invalid digest'')
               (\<lambda>b. Inr (bytes @ [b]))) [] [0..<32])
          (\<lambda>bytes. Inr (Digest bytes))))"

text \<open>\<open>Digest::of_value\<close>: the digest of the JSON encoding, when the value can be encoded.\<close>

definition of_value :: "('a \<Rightarrow> string + 'b) \<Rightarrow> ('b \<Rightarrow> digest) \<Rightarrow> 'a \<Rightarrow> string + digest" where
  "of_value to_vec sha v = and_then (to_vec v) (\<lambda>bytes. Inr (sha bytes))"

section \<open>Identifiers\<close>

datatype uuid = Uuid (uuid_bits: "128 word")

instantiation uuid :: linorder
begin

definition less_eq_uuid :: "uuid \<Rightarrow> uuid \<Rightarrow> bool" where
  "less_eq_uuid a b = (uuid_bits a \<le> uuid_bits b)"

definition less_uuid :: "uuid \<Rightarrow> uuid \<Rightarrow> bool" where
  "less_uuid a b = (uuid_bits a < uuid_bits b)"

instance
  by standard
    (auto simp: less_eq_uuid_def less_uuid_def less_le_not_le intro: uuid.expand order.trans)

end

datatype TaskId = TaskId (task_uuid: uuid)
datatype SessionId = SessionId (session_uuid: uuid)

lemmas order_defs [simp] = less_eq_digest_def less_digest_def less_eq_uuid_def less_uuid_def

section \<open>The textual form\<close>

lemma hex_char_props:
  assumes "n < 16"
  shows "is_ascii_hexdigit (hex_char n)" and "hex_value (hex_char n) = n"
proof -
  from assms have b: "byte_of (hex_char n) = (if n < 10 then 48 + n else 87 + n)"
    by (simp add: hex_char_def byte_of_def)
  show "is_ascii_hexdigit (hex_char n)"
    using assms b by (auto simp: is_ascii_hexdigit_def is_ascii_digit_def)
  show "hex_value (hex_char n) = n"
    using assms b by (auto simp: hex_value_def is_ascii_digit_def)
qed

lemma u8_from_hex_byte: "u8_from_hex (hex_byte b ! 0) (hex_byte b ! 1) = Some b"
proof -
  have "unat b < 256"
    using unsigned_less [of b, where 'a = nat] by simp
  then have "unat b div 16 < 16" and "unat b mod 16 < 16"
    by simp_all
  then show ?thesis
    by (simp add: u8_from_hex_def hex_byte_def hex_char_props)
qed

lemma length_hex_byte [simp]: "length (hex_byte b) = 2"
  by (simp add: hex_byte_def)

lemma length_digest_to_string: "length (digest_to_string d) = 2 * length (digest_bytes d)"
  by (simp add: digest_to_string_def length_concat comp_def sum_list_triv)

lemma concat_hex_byte_nth:
  assumes "i < length bs" and "j < 2"
  shows "concat (map hex_byte bs) ! (2 * i + j) = hex_byte (bs ! i) ! j"
  using assms
proof (induction bs arbitrary: i)
  case Nil
  then show ?case by simp
next
  case (Cons b bs)
  then show ?case
    by (cases i) (auto simp: nth_append)
qed

lemma list_all_digest_to_string: "list_all is_ascii_hexdigit (digest_to_string d)"
proof -
  have "list_all is_ascii_hexdigit (hex_byte b)" for b
  proof -
    have "unat b < 256"
      using unsigned_less [of b, where 'a = nat] by simp
    then show ?thesis
      by (simp add: hex_byte_def hex_char_props)
  qed
  then show ?thesis
    by (auto simp: digest_to_string_def list_all_iff)
qed

lemma collect_bytes:
  assumes "\<And>i. i < n \<Longrightarrow> f i = Some (bs ! i)" and "n \<le> length bs"
  shows "try_fold (\<lambda>bytes i. and_then (ok_or (f i) e) (\<lambda>b. Inr (bytes @ [b]))) [] [0..<n]
           = Inr (take n bs)"
  using assms
  by (induction n) (simp_all add: try_fold_append take_Suc_conv_app_nth)

lemma digest_from_to_string:
  assumes "digest_ok d"
  shows "digest_from_str (digest_to_string d) = Inr d"
proof -
  let ?s = "digest_to_string d"
  have len: "length (digest_bytes d) = 32"
    using assms by (simp add: digest_ok_def)
  have "u8_from_hex (?s ! (2 * i)) (?s ! (2 * i + 1)) = Some (digest_bytes d ! i)" if "i < 32" for i
    using that len concat_hex_byte_nth [of i "digest_bytes d" 0]
      concat_hex_byte_nth [of i "digest_bytes d" 1] u8_from_hex_byte [of "digest_bytes d ! i"]
    by (simp add: digest_to_string_def)
  then have "try_fold (\<lambda>bytes i.
      and_then (ok_or (u8_from_hex (?s ! (2 * i)) (?s ! (2 * i + 1))) ''invalid digest'')
        (\<lambda>b. Inr (bytes @ [b]))) [] [0..<32] = Inr (take 32 (digest_bytes d))"
    by (rule collect_bytes) (simp_all add: len)
  then show ?thesis
    using len by (simp add: digest_from_str_def length_digest_to_string list_all_digest_to_string)
qed

lemma digest_to_string_inj:
  "digest_ok d \<Longrightarrow> digest_ok e \<Longrightarrow> digest_to_string d = digest_to_string e \<longleftrightarrow> d = e"
  using digest_from_to_string by (metis sum.inject(2))

section \<open>Properties\<close>

text \<open>
  The textual form of a digest is 64 hexadecimal characters, parsing it gives the digest back, and
  two digests have the same textual form only when they are equal.
\<close>

theorem digest_text_round_trip:
  assumes "digest_ok d" and "digest_ok e"
  shows "length (digest_to_string d) = 64 \<and> list_all is_ascii_hexdigit (digest_to_string d) \<and>
    digest_from_str (digest_to_string d) = Inr d \<and>
    (digest_to_string d = digest_to_string e \<longleftrightarrow> d = e)"
  using assms digest_from_to_string [of d] digest_to_string_inj [of d e]
  by (simp add: length_digest_to_string list_all_digest_to_string digest_ok_def)

theorem digest_text_round_trip_witness:
  "digest_from_str (digest_to_string (Digest (replicate 32 171))) = Inr (Digest (replicate 32 171)) \<and>
   digest_to_string (Digest (replicate 32 171)) \<noteq> digest_to_string (Digest (replicate 32 7))"
  using digest_text_round_trip [of "Digest (replicate 32 171)" "Digest (replicate 32 7)"]
  by (simp add: digest_ok_def)

end
