(* ===== verification/Contracts.thy ===== *)
theory Contracts
  imports Digests
begin

text \<open>
  Task contracts (\<^verbatim>\<open>contract.rs\<close>): requirements, acceptance checks and limits, and the validator
  that admits a contract. The validator's dependency loop is related to acyclicity of the
  requirement graph.
\<close>

section \<open>Data\<close>

datatype Origin = User string | Repository string | Inferred string

record Requirement =
  r_id :: string
  r_behavior :: string
  r_origin :: Origin
  r_checks :: "string list"
  r_depends_on :: "string list"

datatype CheckKind =
  Behavior | Build | Static | Integration | Interface | Migration | Performance | Review

datatype ControlRequirement = ControlNone | BaselineFailure | NegativeControl

datatype BaselinePolicy = MustPass | NoNewFailure digest string

datatype FlakePolicy = RejectAnyFailure | Retry u32

datatype DeliveryKind = Patch | Source | Package | Deployment | Report

record CheckDefinition =
  d_purpose :: string
  d_kind :: CheckKind
  d_verifier :: digest
  d_command :: "string list"
  d_timeout_ms :: u64
  d_minimum_assertions :: u64
  d_control :: ControlRequirement
  d_control_source :: "digest option"
  d_baseline :: BaselinePolicy
  d_flake :: FlakePolicy

record Limits =
  l_model_calls :: u32
  l_tokens :: u64
  l_elapsed_ms :: u64
  l_concurrent_jobs :: u32
  l_artifact_bytes :: u64

definition Limits_default :: Limits where
  "Limits_default = \<lparr>l_model_calls = 100, l_tokens = 1000000, l_elapsed_ms = 7200000,
     l_concurrent_jobs = 4, l_artifact_bytes = 256 * 1024 * 1024\<rparr>"

record Contract =
  c_request :: string
  c_outcome :: string
  c_scope :: string
  c_requirements :: "Requirement list"
  c_checks :: "(string, CheckDefinition) btreemap"
  c_protected_behavior :: "string list"
  c_assumptions :: "string list"
  c_open_questions :: "string list"
  c_delivery :: DeliveryKind
  c_limits :: Limits

datatype ContractError =
    Empty string
  | RequirementId string
  | NoChecks string
  | MissingReference string string string
  | Cycle
  | Check string string
  | LimitsError

definition MAX_EXECUTION_TIMEOUT_MS :: u64 where
  "MAX_EXECUTION_TIMEOUT_MS = 3600000"

section \<open>Validation\<close>

definition limits_validate :: "Limits \<Rightarrow> ContractError + unit" where
  "limits_validate l =
     (if l_model_calls l = 0 \<or> l_tokens l = 0 \<or> l_elapsed_ms l = 0
         \<or> l_concurrent_jobs l = 0 \<or> l_artifact_bytes l = 0
      then Inl LimitsError else Inr ())"

definition valid_id :: "string \<Rightarrow> bool" where
  "valid_id i =
     (i \<noteq> [] \<and> length i \<le> 128 \<and>
      list_all (\<lambda>b. is_ascii_alphanumeric b \<or> b \<in> set ''-_.'') i)"

fun origin_basis :: "Origin \<Rightarrow> string" where
  "origin_basis (User basis) = basis"
| "origin_basis (Repository basis) = basis"
| "origin_basis (Inferred basis) = basis"

text \<open>The first loop over the requirements; it collects the set of identifiers.\<close>

definition check_requirement ::
    "string btreeset \<Rightarrow> Requirement \<Rightarrow> ContractError + string btreeset" where
  "check_requirement ids r =
     (if \<not> valid_id (r_id r) \<or> r_id r \<in> set ids then Inl (RequirementId (r_id r))
      else if blank (r_behavior r) then Inl (Empty ''observable behavior'')
      else if blank (origin_basis (r_origin r)) then Inl (Empty ''requirement provenance'')
      else if r_checks r = [] then Inl (NoChecks (r_id r))
      else Inr (bs_insert (r_id r) ids))"

text \<open>The second loop: every referenced check and requirement exists.\<close>

definition check_references ::
    "Contract \<Rightarrow> string btreeset \<Rightarrow> Requirement \<Rightarrow> ContractError + unit" where
  "check_references c ids r =
     and_then
       (try_each (\<lambda>k. if bt_contains (c_checks c) k then Inr ()
                      else Inl (MissingReference (r_id r) ''check'' k)) (r_checks r))
       (\<lambda>_. try_each (\<lambda>d. if d \<in> set ids then Inr ()
                          else Inl (MissingReference (r_id r) ''requirement'' d)) (r_depends_on r))"

text \<open>One sweep of the dependency loop: requirements whose dependencies are visited are visited.\<close>

definition visit :: "string btreeset \<Rightarrow> Requirement \<Rightarrow> string btreeset" where
  "visit visited r =
     (if list_all (\<lambda>d. d \<in> set visited) (r_depends_on r) then bs_insert (r_id r) visited else visited)"

definition sweep :: "Requirement list \<Rightarrow> string btreeset \<Rightarrow> string btreeset" where
  "sweep reqs visited = foldl visit visited reqs"

lemma visit_mono: "set v \<subseteq> set (visit v r)"
  by (auto simp: visit_def)

lemma foldl_visit_mono: "set v \<subseteq> set (foldl visit v reqs)"
proof (induction reqs arbitrary: v)
  case Nil
  then show ?case by simp
next
  case (Cons r reqs)
  then show ?case using visit_mono [of v r] by fastforce
qed

lemma sweep_mono: "set v \<subseteq> set (sweep reqs v)"
  by (simp add: sweep_def foldl_visit_mono)

lemma sweep_bound: "set (sweep reqs v) \<subseteq> set v \<union> r_id ` set reqs"
  unfolding sweep_def
proof (induction reqs arbitrary: v)
  case Nil
  then show ?case by simp
next
  case (Cons r reqs)
  have "set (visit v r) \<subseteq> insert (r_id r) (set v)"
    by (auto simp: visit_def)
  then show ?case using Cons [of "visit v r"] by fastforce
qed

lemma sweep_length:
  "length v \<le> length (sweep reqs v) \<and> (length (sweep reqs v) = length v \<longleftrightarrow> set (sweep reqs v) = set v)"
  unfolding sweep_def
proof (induction reqs arbitrary: v)
  case Nil
  then show ?case by simp
next
  case (Cons r reqs)
  show ?case
  proof (cases "visit v r = v")
    case True
    with Cons show ?thesis by simp
  next
    case False
    then have new: "length (visit v r) = Suc (length v)" "r_id r \<in> set (visit v r)" "r_id r \<notin> set v"
      by (auto simp: visit_def length_bs_insert bs_insert_def set_insort_key split: if_splits)
    then show ?thesis
      using Cons [of "visit v r"] foldl_visit_mono [of "visit v r" reqs] by auto
  qed
qed

lemma bs_ok_foldl_visit: "bs_ok v \<Longrightarrow> bs_ok (foldl visit v reqs)"
  by (induction reqs arbitrary: v) (auto simp: visit_def bs_ok_insert)

text \<open>The loop ends because a sweep that neither completes nor stalls visits a new requirement.\<close>

function dependency_loop ::
    "Requirement list \<Rightarrow> nat \<Rightarrow> string btreeset \<Rightarrow> ContractError + unit" where
  "dependency_loop reqs n visited =
     (let after = sweep reqs visited in
      if length after = n then Inr ()
      else if length after = length visited then Inl Cycle
      else dependency_loop reqs n after)"
  by pat_completeness auto
termination
proof (relation "measure (\<lambda>(reqs, n, visited). card (r_id ` set reqs - set visited))", goal_cases)
  case 1
  then show ?case by simp
next
  case (2 reqs n visited after)
  then have "set (sweep reqs visited) \<noteq> set visited"
    using sweep_length [of visited reqs] by auto
  then have "r_id ` set reqs - set (sweep reqs visited) \<subset> r_id ` set reqs - set visited"
    using sweep_mono [of visited reqs] sweep_bound [of reqs visited] by blast
  then show ?case
    using 2 by (simp add: psubset_card_mono)
qed

declare dependency_loop.simps [simp del]

definition check_reason :: "Contract \<Rightarrow> string \<Rightarrow> CheckDefinition \<Rightarrow> string option" where
  "check_reason c i check =
     (if \<not> list_ex (\<lambda>r. i \<in> set (r_checks r)) (c_requirements c)
        then Some ''check must belong to a required outcome''
      else if \<not> valid_id i \<or> blank (d_purpose check)
        then Some ''an ID and purpose are required''
      else if d_command check = [] \<or> hd (d_command check) = [] \<or> d_timeout_ms check = 0
          \<or> d_timeout_ms check > MAX_EXECUTION_TIMEOUT_MS
        then Some ''a command and bounded positive timeout are required''
      else if \<not> (d_kind check = Build \<or> d_kind check = Static) \<and> d_minimum_assertions check = 0
        then Some ''behavioral checks require at least one assertion''
      else if d_flake check = Retry 0
        then Some ''retry bound must be positive''
      else if d_control check = NegativeControl \<and> d_control_source check = None
        then Some ''negative control requires an immutable source identity''
      else (case d_baseline check of
          NoNewFailure _ reason \<Rightarrow>
            (if blank reason then Some ''baseline allowance requires a reason'' else None)
        | MustPass \<Rightarrow> None))"

definition check_checks :: "Contract \<Rightarrow> ContractError + unit" where
  "check_checks c =
     try_each (\<lambda>(i, check). case check_reason c i check of
         Some reason \<Rightarrow> Inl (Check i reason)
       | None \<Rightarrow> Inr ()) (c_checks c)"

definition contract_validate :: "Contract \<Rightarrow> ContractError + unit" where
  "contract_validate c =
     and_then
       (try_each (\<lambda>(name, text). if blank text then Inl (Empty name) else Inr ())
          [(''request'', c_request c), (''outcome'', c_outcome c), (''scope'', c_scope c)])
     (\<lambda>_. if c_requirements c = [] then Inl (Empty ''requirements'') else
     and_then (try_fold check_requirement [] (c_requirements c))
     (\<lambda>ids. and_then (try_each (check_references c ids) (c_requirements c))
     (\<lambda>_. and_then (dependency_loop (c_requirements c) (length ids) [])
     (\<lambda>_. and_then (check_checks c)
     (\<lambda>_. limits_validate (c_limits c))))))"

section \<open>What validation establishes\<close>

text \<open>The dependency graph: an edge from each dependency to the requirement that names it.\<close>

definition dependency_edges :: "Requirement list \<Rightarrow> (string \<times> string) set" where
  "dependency_edges reqs = {(d, r_id r) | d r. r \<in> set reqs \<and> d \<in> set (r_depends_on r)}"

lemma finite_dependency_edges: "finite (dependency_edges reqs)"
proof -
  have "dependency_edges reqs \<subseteq> (\<Union>r \<in> set reqs. set (r_depends_on r) \<times> {r_id r})"
    by (auto simp: dependency_edges_def)
  then show ?thesis
    by (rule finite_subset) simp
qed

lemma check_requirement_Inr_iff:
  "check_requirement ids r = Inr ids' \<longleftrightarrow>
     valid_id (r_id r) \<and> r_id r \<notin> set ids \<and> \<not> blank (r_behavior r) \<and>
     \<not> blank (origin_basis (r_origin r)) \<and> r_checks r \<noteq> [] \<and> ids' = bs_insert (r_id r) ids"
  by (auto simp: check_requirement_def)

lemma collect_ids:
  assumes "try_fold check_requirement ids reqs = Inr ids'" and "bs_ok ids"
  shows "bs_ok ids' \<and> set ids' = set ids \<union> r_id ` set reqs \<and> distinct (map r_id reqs) \<and>
    set ids \<inter> r_id ` set reqs = {} \<and>
    (\<forall>r \<in> set reqs. valid_id (r_id r) \<and> \<not> blank (r_behavior r) \<and>
       \<not> blank (origin_basis (r_origin r)) \<and> r_checks r \<noteq> [])"
  using assms
proof (induction reqs arbitrary: ids)
  case Nil
  then show ?case by simp
next
  case (Cons r reqs)
  then obtain ids1 where step: "check_requirement ids r = Inr ids1"
    and rest: "try_fold check_requirement ids1 reqs = Inr ids'"
    by (auto simp: and_then_Inr_iff)
  from step have ids1: "ids1 = bs_insert (r_id r) ids" and "bs_ok ids1"
    using Cons.prems(2) by (auto simp: check_requirement_Inr_iff bs_ok_insert)
  with Cons.IH [OF rest] step show ?case
    by (auto simp: check_requirement_Inr_iff)
qed

text \<open>
  Visited requirements are well-founded: everything below them in the graph has been visited.
\<close>

lemma visit_accessible:
  assumes "distinct (map r_id reqs)" and "r \<in> set reqs"
    and "set v \<subseteq> Wellfounded.acc (dependency_edges reqs)"
  shows "set (visit v r) \<subseteq> Wellfounded.acc (dependency_edges reqs)"
proof (cases "list_all (\<lambda>d. d \<in> set v) (r_depends_on r)")
  case True
  have "r_id r \<in> Wellfounded.acc (dependency_edges reqs)"
  proof (rule accI)
    fix y
    assume "(y, r_id r) \<in> dependency_edges reqs"
    then obtain r' where "r' \<in> set reqs" "r_id r' = r_id r" "y \<in> set (r_depends_on r')"
      by (auto simp: dependency_edges_def)
    with assms(1,2) have "y \<in> set (r_depends_on r)"
      by (auto simp: distinct_map inj_on_def)
    with True assms(3) show "y \<in> Wellfounded.acc (dependency_edges reqs)"
      by (auto simp: list_all_iff)
  qed
  with assms(3) show ?thesis by (auto simp: visit_def)
next
  case False
  with assms(3) show ?thesis by (auto simp: visit_def)
qed

lemma sweep_accessible:
  assumes "distinct (map r_id reqs)" and "set v \<subseteq> Wellfounded.acc (dependency_edges reqs)"
  shows "set (sweep reqs v) \<subseteq> Wellfounded.acc (dependency_edges reqs)"
proof -
  have "set rs \<subseteq> set reqs \<Longrightarrow> set v \<subseteq> Wellfounded.acc (dependency_edges reqs) \<Longrightarrow>
      set (foldl visit v rs) \<subseteq> Wellfounded.acc (dependency_edges reqs)" for rs v
  proof (induction rs arbitrary: v)
    case Nil
    then show ?case by simp
  next
    case (Cons r rs)
    then have "set (visit v r) \<subseteq> Wellfounded.acc (dependency_edges reqs)"
      using assms(1) by (intro visit_accessible) auto
    with Cons show ?case by simp
  qed
  then show ?thesis using assms(2) by (simp add: sweep_def)
qed

lemma dependency_loop_sound:
  assumes "dependency_loop reqs n v = Inr ()" and "distinct (map r_id reqs)"
    and "set v \<subseteq> Wellfounded.acc (dependency_edges reqs)" and "bs_ok v"
    and "n = card (r_id ` set reqs)" and "set v \<subseteq> r_id ` set reqs"
  shows "r_id ` set reqs \<subseteq> Wellfounded.acc (dependency_edges reqs)"
  using assms
proof (induction reqs n v rule: dependency_loop.induct)
  case (1 reqs n v)
  let ?after = "sweep reqs v"
  have acc: "set ?after \<subseteq> Wellfounded.acc (dependency_edges reqs)"
    by (rule sweep_accessible [OF "1.prems"(2,3)])
  have sub: "set ?after \<subseteq> r_id ` set reqs"
    using "1.prems"(6) sweep_bound [of reqs v] by blast
  have ok: "bs_ok ?after"
    unfolding sweep_def using "1.prems"(4) by (simp add: bs_ok_foldl_visit)
  show ?case
  proof (cases "length ?after = n")
    case True
    with ok "1.prems"(5) have "card (set ?after) = card (r_id ` set reqs)"
      by (simp add: bs_ok_length)
    with sub have "set ?after = r_id ` set reqs"
      by (simp add: card_subset_eq)
    with acc show ?thesis by simp
  next
    case False
    with "1.prems"(1) have "length ?after \<noteq> length v" "dependency_loop reqs n ?after = Inr ()"
      by (auto simp: dependency_loop.simps [of reqs n v] Let_def split: if_splits)
    with False acc sub ok "1.prems" show ?thesis
      by (intro "1.IH") auto
  qed
qed

text \<open>A sweep that visits nothing new has visited every requirement whose dependencies it knows.\<close>

lemma foldl_visit_complete:
  assumes "r \<in> set reqs" and "set (r_depends_on r) \<subseteq> set v"
  shows "r_id r \<in> set (foldl visit v reqs)"
  using assms
proof (induction reqs arbitrary: v)
  case Nil
  then show ?case by simp
next
  case (Cons r' reqs)
  show ?case
  proof (cases "r = r'")
    case True
    with Cons.prems have "r_id r \<in> set (visit v r')"
      by (auto simp: visit_def list_all_iff)
    then show ?thesis using foldl_visit_mono [of "visit v r'" reqs] by auto
  next
    case False
    moreover have "set (r_depends_on r) \<subseteq> set (visit v r')"
      using Cons.prems(2) visit_mono [of v r'] by blast
    ultimately show ?thesis using Cons by simp
  qed
qed

lemma stalled_sweep_cyclic:
  assumes "set (sweep reqs v) = set v" and "\<not> r_id ` set reqs \<subseteq> set v"
    and "\<forall>r \<in> set reqs. set (r_depends_on r) \<subseteq> r_id ` set reqs"
  shows "\<not> acyclic (dependency_edges reqs)"
proof
  assume "acyclic (dependency_edges reqs)"
  then have "wf (dependency_edges reqs)"
    by (simp add: finite_acyclic_wf finite_dependency_edges)
  moreover have "r_id ` set reqs - set v \<noteq> {}"
    using assms(2) by blast
  ultimately obtain x where x: "x \<in> r_id ` set reqs - set v"
    and minimal: "\<And>y. (y, x) \<in> dependency_edges reqs \<Longrightarrow> y \<notin> r_id ` set reqs - set v"
    by (metis wfE_min')
  then obtain r where r: "r \<in> set reqs" "x = r_id r"
    by auto
  have "set (r_depends_on r) \<subseteq> set v"
  proof
    fix d
    assume d: "d \<in> set (r_depends_on r)"
    with r have "(d, x) \<in> dependency_edges reqs"
      by (auto simp: dependency_edges_def)
    from minimal [OF this] d r assms(3) show "d \<in> set v"
      by blast
  qed
  with r have "x \<in> set (sweep reqs v)"
    by (simp add: sweep_def foldl_visit_complete)
  with assms(1) x show False by simp
qed

lemma dependency_loop_complete:
  assumes "acyclic (dependency_edges reqs)" and "bs_ok v"
    and "n = card (r_id ` set reqs)" and "set v \<subseteq> r_id ` set reqs"
    and "\<forall>r \<in> set reqs. set (r_depends_on r) \<subseteq> r_id ` set reqs"
  shows "dependency_loop reqs n v = Inr ()"
  using assms
proof (induction reqs n v rule: dependency_loop.induct)
  case (1 reqs n v)
  let ?after = "sweep reqs v"
  have sub: "set ?after \<subseteq> r_id ` set reqs"
    using "1.prems"(4) sweep_bound [of reqs v] by blast
  have ok: "bs_ok ?after"
    unfolding sweep_def using "1.prems"(2) by (simp add: bs_ok_foldl_visit)
  show ?case
  proof (cases "length ?after = n")
    case True
    then show ?thesis by (simp add: dependency_loop.simps [of reqs n v] Let_def)
  next
    case False
    have "length ?after \<noteq> length v"
    proof
      assume "length ?after = length v"
      then have stalled: "set ?after = set v"
        using sweep_length [of v reqs] by simp
      have "\<not> r_id ` set reqs \<subseteq> set v"
      proof
        assume "r_id ` set reqs \<subseteq> set v"
        with "1.prems"(4) have "set v = r_id ` set reqs" by blast
        with False stalled ok "1.prems"(3) show False by (simp add: bs_ok_length)
      qed
      with stalled "1.prems"(1,5) show False
        using stalled_sweep_cyclic [of reqs v] by simp
    qed
    moreover from this have "dependency_loop reqs n ?after = Inr ()"
      using False sub ok 1 by (intro "1.IH") auto
    ultimately show ?thesis
      using False by (simp add: dependency_loop.simps [of reqs n v] Let_def)
  qed
qed

lemma dependency_loop_iff_acyclic:
  assumes "distinct (map r_id reqs)"
    and "\<forall>r \<in> set reqs. set (r_depends_on r) \<subseteq> r_id ` set reqs"
  shows "dependency_loop reqs (card (r_id ` set reqs)) [] = Inr () \<longleftrightarrow> acyclic (dependency_edges reqs)"
proof
  assume "dependency_loop reqs (card (r_id ` set reqs)) [] = Inr ()"
  then have acc: "r_id ` set reqs \<subseteq> Wellfounded.acc (dependency_edges reqs)"
    using assms(1) by (rule dependency_loop_sound) auto
  have "x \<in> Wellfounded.acc (dependency_edges reqs)" for x
  proof (cases "x \<in> r_id ` set reqs")
    case True
    with acc show ?thesis by blast
  next
    case False
    then show ?thesis by (auto simp: dependency_edges_def intro: accI)
  qed
  then have "wf (dependency_edges reqs)"
    by (simp add: acc_wfI)
  then show "acyclic (dependency_edges reqs)"
    by (rule wf_acyclic)
next
  assume "acyclic (dependency_edges reqs)"
  then show "dependency_loop reqs (card (r_id ` set reqs)) [] = Inr ()"
    using assms(2) by (intro dependency_loop_complete) auto
qed

subsection \<open>The declarative contract specification\<close>

definition limits_positive :: "Limits \<Rightarrow> bool" where
  "limits_positive l \<longleftrightarrow> 0 < l_model_calls l \<and> 0 < l_tokens l \<and> 0 < l_elapsed_ms l \<and>
     0 < l_concurrent_jobs l \<and> 0 < l_artifact_bytes l"

definition requirement_wf :: "Contract \<Rightarrow> Requirement \<Rightarrow> bool" where
  "requirement_wf c r \<longleftrightarrow>
     valid_id (r_id r) \<and> \<not> blank (r_behavior r) \<and> \<not> blank (origin_basis (r_origin r)) \<and>
     r_checks r \<noteq> [] \<and> set (r_checks r) \<subseteq> set (bt_keys (c_checks c)) \<and>
     set (r_depends_on r) \<subseteq> r_id ` set (c_requirements c)"

definition check_wf :: "Contract \<Rightarrow> string \<Rightarrow> CheckDefinition \<Rightarrow> bool" where
  "check_wf c i d \<longleftrightarrow>
     (\<exists>r \<in> set (c_requirements c). i \<in> set (r_checks r)) \<and> valid_id i \<and> \<not> blank (d_purpose d) \<and>
     d_command d \<noteq> [] \<and> hd (d_command d) \<noteq> [] \<and>
     0 < d_timeout_ms d \<and> d_timeout_ms d \<le> MAX_EXECUTION_TIMEOUT_MS \<and>
     (d_kind d \<in> {Build, Static} \<or> 0 < d_minimum_assertions d) \<and>
     d_flake d \<noteq> Retry 0 \<and>
     (d_control d = NegativeControl \<longrightarrow> d_control_source d \<noteq> None) \<and>
     (\<forall>report reason. d_baseline d = NoNewFailure report reason \<longrightarrow> \<not> blank reason)"

definition contract_wf :: "Contract \<Rightarrow> bool" where
  "contract_wf c \<longleftrightarrow>
     \<not> blank (c_request c) \<and> \<not> blank (c_outcome c) \<and> \<not> blank (c_scope c) \<and>
     c_requirements c \<noteq> [] \<and> distinct (map r_id (c_requirements c)) \<and>
     (\<forall>r \<in> set (c_requirements c). requirement_wf c r) \<and>
     acyclic (dependency_edges (c_requirements c)) \<and>
     (\<forall>(i, d) \<in> set (c_checks c). check_wf c i d) \<and>
     limits_positive (c_limits c)"

lemma limits_validate_iff: "limits_validate l = Inr () \<longleftrightarrow> limits_positive l"
  by (auto simp: limits_validate_def limits_positive_def word_neq_0_conv)

lemma check_reason_iff: "check_reason c i d = None \<longleftrightarrow> check_wf c i d"
  by (auto simp: check_reason_def check_wf_def list_ex_iff word_neq_0_conv split: BaselinePolicy.splits)

lemma check_checks_iff: "check_checks c = Inr () \<longleftrightarrow> (\<forall>(i, d) \<in> set (c_checks c). check_wf c i d)"
  by (auto simp: check_checks_def try_each_Inr_iff check_reason_iff [symmetric] split: option.splits)

lemma check_references_iff:
  "check_references c ids r = Inr () \<longleftrightarrow>
     set (r_checks r) \<subseteq> set (bt_keys (c_checks c)) \<and> set (r_depends_on r) \<subseteq> set ids"
  by (auto simp: check_references_def result_simps bt_contains_iff bt_keys_def split: if_splits)

lemma collect_ids_total:
  assumes "distinct (map r_id reqs)" and "set ids \<inter> r_id ` set reqs = {}"
    and "\<forall>r \<in> set reqs. valid_id (r_id r) \<and> \<not> blank (r_behavior r) \<and>
       \<not> blank (origin_basis (r_origin r)) \<and> r_checks r \<noteq> []"
  shows "\<exists>ids'. try_fold check_requirement ids reqs = Inr ids'"
  using assms
proof (induction reqs arbitrary: ids)
  case Nil
  then show ?case by simp
next
  case (Cons r reqs)
  then have "check_requirement ids r = Inr (bs_insert (r_id r) ids)"
    by (auto simp: check_requirement_Inr_iff)
  moreover have "\<exists>ids'. try_fold check_requirement (bs_insert (r_id r) ids) reqs = Inr ids'"
    using Cons.prems by (intro Cons.IH) auto
  ultimately show ?case by simp
qed

lemma contract_validate_iff: "contract_validate c = Inr () \<longleftrightarrow> contract_wf c"
proof
  assume "contract_validate c = Inr ()"
  then obtain ids where texts: "\<not> blank (c_request c)" "\<not> blank (c_outcome c)" "\<not> blank (c_scope c)"
    and some: "c_requirements c \<noteq> []"
    and ids: "try_fold check_requirement [] (c_requirements c) = Inr ids"
    and refs: "\<forall>r \<in> set (c_requirements c). check_references c ids r = Inr ()"
    and loop: "dependency_loop (c_requirements c) (length ids) [] = Inr ()"
    and checks: "check_checks c = Inr ()" and lims: "limits_validate (c_limits c) = Inr ()"
    by (auto simp: contract_validate_def result_simps)
  note collected = collect_ids [OF ids bs_ok_Nil]
  then have len: "length ids = card (r_id ` set (c_requirements c))"
    by (simp add: bs_ok_length)
  have deps: "\<forall>r \<in> set (c_requirements c). set (r_depends_on r) \<subseteq> r_id ` set (c_requirements c)"
    using refs collected by (simp add: check_references_iff)
  have "acyclic (dependency_edges (c_requirements c))"
    using loop collected deps by (simp add: len dependency_loop_iff_acyclic)
  with texts some collected refs checks lims deps show "contract_wf c"
    by (simp add: contract_wf_def requirement_wf_def check_references_iff check_checks_iff
        limits_validate_iff)
next
  assume wf: "contract_wf c"
  then have reqs: "\<forall>r \<in> set (c_requirements c). requirement_wf c r"
    and dist: "distinct (map r_id (c_requirements c))"
    and acyclic: "acyclic (dependency_edges (c_requirements c))"
    by (simp_all add: contract_wf_def)
  then obtain ids where ids: "try_fold check_requirement [] (c_requirements c) = Inr ids"
    using collect_ids_total [of "c_requirements c" "[]"] by (auto simp: requirement_wf_def)
  note collected = collect_ids [OF ids bs_ok_Nil]
  then have len: "length ids = card (r_id ` set (c_requirements c))"
    by (simp add: bs_ok_length)
  have "dependency_loop (c_requirements c) (length ids) [] = Inr ()"
    using dist acyclic reqs by (simp add: len dependency_loop_iff_acyclic requirement_wf_def)
  moreover have "try_each (check_references c ids) (c_requirements c) = Inr ()"
    using reqs collected by (simp add: try_each_Inr_iff check_references_iff requirement_wf_def)
  ultimately show "contract_validate c = Inr ()"
    using wf ids
    by (auto simp: contract_validate_def contract_wf_def result_simps check_checks_iff limits_validate_iff)
qed

section \<open>Properties\<close>

text \<open>
  C37: the validator admits exactly the well-formed contracts: texts are present, requirement
  identifiers are valid and distinct, every reference resolves, the dependency graph is acyclic, every
  check belongs to a requirement and is executable within its bounds, and every limit is positive.
\<close>

theorem validate_admits_well_formed: "contract_validate c = Inr () \<longleftrightarrow> contract_wf c"
  by (rule contract_validate_iff)

text \<open>
  C38: on requirements with distinct identifiers whose references resolve, the sweeping loop ends and
  reports a cycle exactly when the dependency graph has one.
\<close>

theorem dependency_loop_decides_cycles:
  assumes "distinct (map r_id reqs)"
    and "\<forall>r \<in> set reqs. set (r_depends_on r) \<subseteq> r_id ` set reqs"
  shows "dependency_loop reqs (length reqs) [] =
    (if acyclic (dependency_edges reqs) then Inr () else Inl Cycle)"
proof -
  have "card (r_id ` set reqs) = length reqs"
    using assms(1) by (simp flip: set_map add: distinct_card)
  moreover have "dependency_loop reqs n v = Inr () \<or> dependency_loop reqs n v = Inl Cycle" for n v
    by (induction reqs n v rule: dependency_loop.induct)
      (subst (1 2) dependency_loop.simps, auto simp: Let_def)
  ultimately show ?thesis
    using dependency_loop_iff_acyclic [OF assms] by (metis sum.distinct(1))
qed

definition sample_requirement :: "string \<Rightarrow> string list \<Rightarrow> Requirement" where
  "sample_requirement i deps = \<lparr>r_id = i, r_behavior = ''works'', r_origin = User ''asked'',
     r_checks = [''unit''], r_depends_on = deps\<rparr>"

theorem dependency_loop_decides_cycles_witness:
  "dependency_loop [sample_requirement ''a'' [''b''], sample_requirement ''b'' [''a'']] 2 [] = Inl Cycle \<and>
   \<not> acyclic (dependency_edges [sample_requirement ''a'' [''b''], sample_requirement ''b'' [''a'']])"
proof -
  let ?reqs = "[sample_requirement ''a'' [''b''], sample_requirement ''b'' [''a'']]"
  have "dependency_loop ?reqs 2 [] = Inl Cycle"
    by (subst dependency_loop.simps) (simp add: sample_requirement_def sweep_def visit_def)
  then show ?thesis
    using dependency_loop_decides_cycles [of ?reqs]
    by (simp add: sample_requirement_def numeral_2_eq_2 split: if_splits)
qed

end
