(* ===== verification/Task_State.thy ===== *)
theory Task_State
  imports Contracts
begin

text \<open>
  The task aggregate (\<^verbatim>\<open>state.rs\<close>): its materialised state, the journal events and the transition
  function \<open>TaskState::apply\<close> that folds an event into the state.
\<close>

section \<open>Data\<close>

datatype Phase = Understand | Baseline | Implement | Challenge | Verify | Deliver

datatype RequestKind = Conversation | TaskRequest | AuxiliaryRequest

datatype Outcome =
    Complete
  | DeliveredWithExceptions
  | Blocked
  | BudgetExhausted
  | OutcomeCancelled
  | OutcomeFailed
  | FinishedUnverified

fun exit_code :: "Outcome \<Rightarrow> u8" where
  "exit_code Complete = 0"
| "exit_code FinishedUnverified = 0"
| "exit_code OutcomeFailed = 1"
| "exit_code Blocked = 20"
| "exit_code BudgetExhausted = 21"
| "exit_code DeliveredWithExceptions = 22"
| "exit_code OutcomeCancelled = 130"

record Candidate =
  cand_source :: digest
  cand_environment :: digest
  cand_artifact :: digest
  cand_frozen :: bool
  cand_provenance :: "digest option"

datatype CheckStatus = CheckPassed | CheckFailed | Inconclusive | CheckCancelled

record EvidenceIdentity =
  ei_contract :: digest
  ei_source :: digest
  ei_environment :: digest
  ei_artifact :: digest
  ei_check_definition :: digest
  ei_verifier :: digest

record ControlObservation =
  co_kind :: ControlRequirement
  co_source :: digest
  co_rejected :: bool
  co_intended_reason :: bool
  co_report :: digest

record Observation =
  ob_status :: CheckStatus
  ob_report :: digest
  ob_assertions :: u64
  ob_discovered :: "u64 option"
  ob_skipped :: u64
  ob_exit_code :: "int option"
  ob_signal :: "int option"
  ob_control :: "ControlObservation option"
  ob_baseline_unchanged :: bool
  ob_limitations :: "string list"
  ob_unreconciled_jobs :: "uuid list"

record Evidence =
  ev_job_id :: uuid
  ev_generation :: u64
  ev_check :: string
  ev_identity :: EvidenceIdentity
  ev_started_ms :: u64
  ev_finished_ms :: u64
  ev_observation :: Observation

datatype JobStatus = Running | JobSucceeded | JobFailed | JobCancelled | JobUnknown | Fenced

definition unresolved :: "JobStatus \<Rightarrow> bool" where
  "unresolved st = (st = Running \<or> st = JobUnknown)"

record JobInvocation =
  ji_session :: SessionId
  ji_request :: uuid
  ji_call_id :: "string option"
  ji_capability :: string
  ji_input :: digest
  ji_environment :: digest

record Job =
  j_id :: uuid
  j_generation :: u64
  j_status :: JobStatus
  j_mutates_candidate :: bool
  j_check :: "string option"
  j_identity :: "EvidenceIdentity option"
  j_started_ms :: u64
  j_deadline_ms :: u64
  j_invocation :: "JobInvocation option"
  j_fence_receipt :: "digest option"
  j_execution_receipt :: "digest option"

datatype EffectStatus = Intended | EffectUnknown | EffectSucceeded | EffectFailed | Reconciled

record Effect =
  eff_operation_id :: uuid
  eff_description :: string
  eff_status :: EffectStatus
  eff_idempotent :: bool

record Finding =
  f_id :: string
  f_description :: string
  f_blocking :: bool
  f_resolved :: bool
  f_resolution :: "string option"

record Delivery =
  dl_kind :: DeliveryKind
  dl_source :: digest
  dl_artifact :: digest
  dl_receipt :: digest

record Certificate =
  cert_task :: TaskId
  cert_contract :: digest
  cert_source :: digest
  cert_artifact :: digest
  cert_environment :: digest
  cert_generation :: u64
  cert_evaluated_revision :: u64
  cert_evidence :: "(string, uuid) btreemap"
  cert_delivery_receipt :: digest

record Usage =
  us_model_calls :: u32
  us_tokens :: u64

datatype ModelCallStatus = CallCompleted | CallFailed | CallCancelled | CallUnknown

record ModelCallReceipt =
  mc_status :: ModelCallStatus
  mc_tokens :: "u64 option"
  mc_report :: digest

record TaskState =
  t_workspace_origin :: "digest option"
  t_workspace_override :: "digest option"
  t_origin :: "digest option"
  t_id :: TaskId
  t_revision :: u64
  t_generation :: u64
  t_scope_revision :: u64
  t_admitted_scope_revision :: u64
  t_directive_scopes :: "(uuid, u64) btreemap"
  t_directives :: "(uuid \<times> digest) list"
  t_amendment_pending :: bool
  t_started_ms :: u64
  t_request :: string
  t_initial_limits :: Limits
  t_intake :: "digest option"
  t_input :: "digest option"
  t_contract :: "Contract option"
  t_contract_admission :: "digest option"
  t_contract_history :: "(digest \<times> string) list"
  t_phase :: Phase
  t_outcome :: "Outcome option"
  t_cancellation_requested :: bool
  t_disposition_reason :: "string option"
  t_candidate :: "Candidate option"
  t_baseline :: "Candidate option"
  t_evidence :: "Evidence list"
  t_jobs :: "(uuid, Job) btreemap"
  t_effects :: "(uuid, Effect) btreemap"
  t_findings :: "(string, Finding) btreemap"
  t_usage :: Usage
  t_model_reservations :: "uuid btreeset"
  t_model_receipts :: "(uuid, ModelCallReceipt) btreemap"
  t_usage_receipts :: "(uuid, Usage) btreemap"
  t_delivery :: "Delivery option"
  t_certificates :: "Certificate list"

datatype TaskEvent =
    ManualStarted Job
  | ManualWorkspace Candidate digest
  | WorkspaceRestored digest
  | OriginCaptured digest
  | DirectiveReplaced uuid digest
  | DirectiveReceived uuid digest
  | AdditiveContractAccepted Contract digest u64
  | Requested string Limits digest "digest option" u64
  | ContractAdmitted Contract string digest
  | Created Contract u64
  | ContractAmended Contract string
  | CandidateSelected Candidate
  | WorkspaceChanged string
  | EvidenceInvalidated string
  | CancellationRequested
  | BaselineEstablished Candidate
  | PhaseChanged Phase
  | JobStarted Job
  | JobSettled uuid JobStatus "digest option"
  | JobFenced uuid digest
  | Observed Evidence
  | EffectRecorded Effect
  | FindingRecorded Finding
  | ModelCallReserved uuid
  | ModelCallRecorded uuid ModelCallReceipt
  | UsageCharged uuid Usage
  | Delivered Delivery
  | Completed Certificate
  | Stopped Outcome string
  | Reopened string
  | Interrupted string

text \<open>The error of \<open>apply\<close>: JSON encoding of a contract failed, or the \<open>unreachable!\<close> arm.\<close>

datatype ApplyError = ApplyJson string | ApplyUnreachable

section \<open>Creation\<close>

definition requested ::
    "TaskId \<Rightarrow> string \<Rightarrow> Limits \<Rightarrow> u64 \<Rightarrow> digest option \<Rightarrow> digest option \<Rightarrow> TaskState" where
  "requested i request limits started_ms intake input =
     \<lparr>t_workspace_origin = None, t_workspace_override = None, t_origin = None,
      t_id = i, t_revision = 1, t_generation = 1, t_scope_revision = 0,
      t_admitted_scope_revision = 0, t_directive_scopes = [], t_directives = [],
      t_amendment_pending = False, t_started_ms = started_ms, t_request = request,
      t_initial_limits = limits, t_intake = intake, t_input = input, t_contract = None,
      t_contract_admission = None, t_contract_history = [], t_phase = Understand,
      t_outcome = None, t_cancellation_requested = False, t_disposition_reason = None,
      t_candidate = None, t_baseline = None, t_evidence = [], t_jobs = [], t_effects = [],
      t_findings = [], t_usage = \<lparr>us_model_calls = 0, us_tokens = 0\<rparr>,
      t_model_reservations = [], t_model_receipts = [], t_usage_receipts = [],
      t_delivery = None, t_certificates = []\<rparr>"

definition created :: "TaskId \<Rightarrow> Contract \<Rightarrow> u64 \<Rightarrow> TaskState" where
  "created i contract started_ms =
     (requested i (c_request contract) (c_limits contract) started_ms None None)
       \<lparr>t_contract := Some contract\<rparr>"

definition limits :: "TaskState \<Rightarrow> Limits" where
  "limits s = (case t_contract s of None \<Rightarrow> t_initial_limits s | Some c \<Rightarrow> c_limits c)"

section \<open>The transition function\<close>

definition invalidate :: "TaskState \<Rightarrow> TaskState" where
  "invalidate s = s\<lparr>t_generation := t_generation s + 1, t_delivery := None\<rparr>"

fun replace_directive :: "uuid \<Rightarrow> digest \<Rightarrow> (uuid \<times> digest) list \<Rightarrow> (uuid \<times> digest) list" where
  "replace_directive request input [] = []"
| "replace_directive request input ((i, d) # ds) =
     (if i = request then (i, input) # ds else (i, d) # replace_directive request input ds)"

text \<open>The common tail of the two directive events.\<close>

definition note_directive :: "uuid \<Rightarrow> TaskState \<Rightarrow> TaskState" where
  "note_directive request s =
     (let s1 = s\<lparr>t_scope_revision := t_scope_revision s + 1\<rparr>;
          s2 = s1\<lparr>t_directive_scopes := bt_insert request (t_scope_revision s1) (t_directive_scopes s1),
                  t_amendment_pending := True\<rparr>
      in (invalidate s2)\<lparr>t_outcome := None, t_disposition_reason := None\<rparr>)"

text \<open>\<open>if let Some(previous) = &self.contract { self.contract_history.push((previous.digest()?, ..)) }\<close>\<close>

definition push_history ::
    "(Contract \<Rightarrow> string + digest) \<Rightarrow> string \<Rightarrow> TaskState \<Rightarrow> ApplyError + TaskState" where
  "push_history contract_digest reason s =
     (case t_contract s of
        None \<Rightarrow> Inr s
      | Some previous \<Rightarrow>
          and_then (map_err ApplyJson (contract_digest previous))
            (\<lambda>d. Inr (s\<lparr>t_contract_history := t_contract_history s @ [(d, reason)]\<rparr>)))"

definition observed_job_status :: "Observation \<Rightarrow> JobStatus" where
  "observed_job_status ob =
     (if ob_unreconciled_jobs ob \<noteq> [] then JobUnknown
      else if ob_status ob = CheckPassed then JobSucceeded
      else JobFailed)"

definition apply_observed :: "Evidence \<Rightarrow> TaskState \<Rightarrow> TaskState" where
  "apply_observed e s =
     s\<lparr>t_jobs := bt_adjust (ev_job_id e)
          (\<lambda>job. job\<lparr>j_status := observed_job_status (ev_observation e)\<rparr>) (t_jobs s),
       t_evidence := t_evidence s @ [e]\<rparr>"

definition exhaust :: "string \<Rightarrow> TaskState \<Rightarrow> TaskState" where
  "exhaust reason s =
     (invalidate s)\<lparr>t_outcome := Some BudgetExhausted, t_disposition_reason := Some reason\<rparr>"

definition receipt_tokens :: "ModelCallReceipt \<Rightarrow> u64" where
  "receipt_tokens r = (case mc_tokens r of None \<Rightarrow> 0 | Some n \<Rightarrow> n)"

definition apply_model_call_recorded :: "uuid \<Rightarrow> ModelCallReceipt \<Rightarrow> TaskState \<Rightarrow> TaskState" where
  "apply_model_call_recorded operation receipt s =
     (let previous = (case bt_get (t_model_receipts s) operation of
                        None \<Rightarrow> 0 | Some r \<Rightarrow> receipt_tokens r);
          s1 = s\<lparr>t_usage := (t_usage s)\<lparr>us_tokens :=
                   saturating_add (us_tokens (t_usage s))
                     (saturating_sub (receipt_tokens receipt) previous)\<rparr>,
                 t_model_receipts := bt_insert operation receipt (t_model_receipts s)\<rparr>
      in if t_outcome s1 = Some Complete \<and> us_tokens (t_usage s1) > l_tokens (limits s1)
         then exhaust ''late provider accounting exceeded the task budget'' s1
         else s1)"

definition apply_usage_charged :: "uuid \<Rightarrow> Usage \<Rightarrow> TaskState \<Rightarrow> TaskState" where
  "apply_usage_charged operation usage s =
     (let s1 = s\<lparr>t_usage_receipts := bt_insert operation usage (t_usage_receipts s),
                 t_usage := (t_usage s)
                   \<lparr>us_model_calls := saturating_add (us_model_calls (t_usage s)) (us_model_calls usage),
                    us_tokens := saturating_add (us_tokens (t_usage s)) (us_tokens usage)\<rparr>\<rparr>
      in if t_outcome s1 = Some Complete \<and>
            (us_model_calls (t_usage s1) > l_model_calls (limits s1) \<or>
             us_tokens (t_usage s1) > l_tokens (limits s1))
         then exhaust ''late accounting exceeded the task budget; the earlier certificate remains historical'' s1
         else s1)"

definition apply_interrupted :: "string \<Rightarrow> TaskState \<Rightarrow> TaskState" where
  "apply_interrupted reason s =
     (let s1 = (invalidate s)
            \<lparr>t_outcome := Some (if t_cancellation_requested s then OutcomeCancelled else Blocked),
             t_disposition_reason := Some reason\<rparr>
      in s1\<lparr>t_jobs := bt_map_values
              (\<lambda>job. if j_status job = Running then job\<lparr>j_status := JobUnknown\<rparr> else job) (t_jobs s1),
            t_effects := bt_map_values
              (\<lambda>effect. if eff_status effect = Intended then effect\<lparr>eff_status := EffectUnknown\<rparr>
                        else effect) (t_effects s1)\<rparr>)"

fun apply_event ::
    "(Contract \<Rightarrow> string + digest) \<Rightarrow> TaskState \<Rightarrow> TaskEvent \<Rightarrow> ApplyError + TaskState" where
  "apply_event cd s (ManualStarted job) =
     Inr (let s1 = invalidate s in
          s1\<lparr>t_scope_revision := t_scope_revision s1 + 1, t_outcome := None,
             t_cancellation_requested := False, t_jobs := bt_insert (j_id job) job (t_jobs s1)\<rparr>)"
| "apply_event cd s (ManualWorkspace candidate origin) =
     Inr (s\<lparr>t_workspace_override := Some (cand_source candidate), t_workspace_origin := Some origin,
            t_candidate := Some candidate\<rparr>)"
| "apply_event cd s (WorkspaceRestored source) = Inr (s\<lparr>t_workspace_override := None\<rparr>)"
| "apply_event cd s (OriginCaptured source) =
     Inr (s\<lparr>t_origin := Some source, t_workspace_origin := Some source\<rparr>)"
| "apply_event cd s (DirectiveReplaced request input) =
     Inr (note_directive request
       (s\<lparr>t_directives := replace_directive request input (t_directives s)\<rparr>))"
| "apply_event cd s (DirectiveReceived request input) =
     Inr (note_directive request (s\<lparr>t_directives := t_directives s @ [(request, input)]\<rparr>))"
| "apply_event cd s (AdditiveContractAccepted contract receipt scope_revision) =
     and_then (push_history cd (''user follow-up admission '' @ digest_to_string receipt) s)
       (\<lambda>s1. Inr (invalidate (s1\<lparr>t_contract := Some contract, t_contract_admission := Some receipt,
          t_amendment_pending := False, t_admitted_scope_revision := t_scope_revision s1\<rparr>)))"
| "apply_event cd s (Requested request lims intake input at_ms) = Inl ApplyUnreachable"
| "apply_event cd s (Created contract at_ms) = Inl ApplyUnreachable"
| "apply_event cd s (ContractAdmitted contract basis receipt) =
     Inr (invalidate (s\<lparr>t_contract := Some contract, t_contract_admission := Some receipt\<rparr>))"
| "apply_event cd s (ContractAmended contract reason) =
     and_then (push_history cd reason s) (\<lambda>s1. Inr (invalidate (s1\<lparr>t_contract := Some contract\<rparr>)))"
| "apply_event cd s (CandidateSelected candidate) =
     Inr ((invalidate s)\<lparr>t_candidate := Some candidate\<rparr>)"
| "apply_event cd s (WorkspaceChanged reason) = Inr ((invalidate s)\<lparr>t_candidate := None\<rparr>)"
| "apply_event cd s (EvidenceInvalidated reason) =
     Inr ((invalidate s)\<lparr>t_outcome := Some Blocked, t_disposition_reason := Some reason\<rparr>)"
| "apply_event cd s CancellationRequested = Inr (s\<lparr>t_cancellation_requested := True\<rparr>)"
| "apply_event cd s (BaselineEstablished candidate) = Inr (s\<lparr>t_baseline := Some candidate\<rparr>)"
| "apply_event cd s (PhaseChanged phase) = Inr (s\<lparr>t_phase := phase\<rparr>)"
| "apply_event cd s (JobStarted job) = Inr (s\<lparr>t_jobs := bt_insert (j_id job) job (t_jobs s)\<rparr>)"
| "apply_event cd s (JobSettled i status receipt) =
     Inr (s\<lparr>t_jobs := bt_adjust i
       (\<lambda>job. job\<lparr>j_status := status, j_execution_receipt := receipt\<rparr>) (t_jobs s)\<rparr>)"
| "apply_event cd s (JobFenced i receipt) =
     Inr (s\<lparr>t_jobs := bt_adjust i
       (\<lambda>job. job\<lparr>j_status := Fenced, j_fence_receipt := Some receipt\<rparr>) (t_jobs s)\<rparr>)"
| "apply_event cd s (Observed evidence) = Inr (apply_observed evidence s)"
| "apply_event cd s (EffectRecorded effect) =
     Inr (s\<lparr>t_effects := bt_insert (eff_operation_id effect) effect (t_effects s)\<rparr>)"
| "apply_event cd s (FindingRecorded finding) =
     Inr (s\<lparr>t_findings := bt_insert (f_id finding) finding (t_findings s)\<rparr>)"
| "apply_event cd s (ModelCallReserved operation) =
     Inr (s\<lparr>t_model_reservations := bs_insert operation (t_model_reservations s),
            t_usage := (t_usage s)\<lparr>us_model_calls := saturating_add (us_model_calls (t_usage s)) 1\<rparr>\<rparr>)"
| "apply_event cd s (ModelCallRecorded operation receipt) =
     Inr (apply_model_call_recorded operation receipt s)"
| "apply_event cd s (UsageCharged operation usage) = Inr (apply_usage_charged operation usage s)"
| "apply_event cd s (Delivered delivery) = Inr (s\<lparr>t_delivery := Some delivery\<rparr>)"
| "apply_event cd s (Completed certificate) =
     Inr (s\<lparr>t_certificates := t_certificates s @ [certificate], t_outcome := Some Complete\<rparr>)"
| "apply_event cd s (Stopped outcome reason) =
     Inr (s\<lparr>t_outcome := Some outcome, t_disposition_reason := Some reason\<rparr>)"
| "apply_event cd s (Reopened reason) =
     Inr ((invalidate s)\<lparr>t_outcome := None, t_disposition_reason := None,
            t_cancellation_requested := False\<rparr>)"
| "apply_event cd s (Interrupted reason) = Inr (apply_interrupted reason s)"

definition task_apply ::
    "(Contract \<Rightarrow> string + digest) \<Rightarrow> TaskState \<Rightarrow> TaskEvent \<Rightarrow> ApplyError + TaskState" where
  "task_apply cd s e =
     and_then (apply_event cd s e) (\<lambda>s1. Inr (s1\<lparr>t_revision := t_revision s1 + 1\<rparr>))"

section \<open>Replaying a journal\<close>

definition replay ::
    "(Contract \<Rightarrow> string + digest) \<Rightarrow> TaskState \<Rightarrow> TaskEvent list \<Rightarrow> ApplyError + TaskState" where
  "replay cd = try_fold (task_apply cd)"

lemma replay_Nil [simp]: "replay cd s [] = Inr s"
  by (simp add: replay_def)

lemma replay_Cons [simp]:
  "replay cd s (e # es) = and_then (task_apply cd s e) (\<lambda>s'. replay cd s' es)"
  by (simp add: replay_def)

lemma replay_append:
  "replay cd s (es @ fs) = and_then (replay cd s es) (\<lambda>s'. replay cd s' fs)"
  by (simp add: replay_def try_fold_append)

lemma invalidate_simps [simp]:
  "t_generation (invalidate s) = t_generation s + 1" "t_delivery (invalidate s) = None"
  "t_revision (invalidate s) = t_revision s" "t_id (invalidate s) = t_id s"
  "t_outcome (invalidate s) = t_outcome s" "t_contract (invalidate s) = t_contract s"
  "t_candidate (invalidate s) = t_candidate s" "t_evidence (invalidate s) = t_evidence s"
  "t_certificates (invalidate s) = t_certificates s" "t_usage (invalidate s) = t_usage s"
  "t_contract_history (invalidate s) = t_contract_history s" "t_jobs (invalidate s) = t_jobs s"
  "t_effects (invalidate s) = t_effects s" "t_findings (invalidate s) = t_findings s"
  "t_model_reservations (invalidate s) = t_model_reservations s"
  "t_model_receipts (invalidate s) = t_model_receipts s"
  "t_usage_receipts (invalidate s) = t_usage_receipts s"
  "t_directive_scopes (invalidate s) = t_directive_scopes s"
  "t_directives (invalidate s) = t_directives s"
  "t_request (invalidate s) = t_request s" "t_started_ms (invalidate s) = t_started_ms s"
  "t_initial_limits (invalidate s) = t_initial_limits s"
  "t_scope_revision (invalidate s) = t_scope_revision s"
  "t_admitted_scope_revision (invalidate s) = t_admitted_scope_revision s"
  "t_amendment_pending (invalidate s) = t_amendment_pending s"
  "t_cancellation_requested (invalidate s) = t_cancellation_requested s"
  by (simp_all add: invalidate_def)

lemma push_history_frame:
  "push_history cd reason s = Inr s' \<Longrightarrow>
     \<exists>h. s' = s\<lparr>t_contract_history := t_contract_history s @ h\<rparr>"
  by (auto simp: push_history_def result_simps split: option.splits intro: exI [of _ "[]"])

lemmas event_arm_defs =
  note_directive_def apply_observed_def apply_model_call_recorded_def apply_usage_charged_def
  apply_interrupted_def exhaust_def Let_def and_then_Inr_iff

lemma apply_event_revision: "apply_event cd s e = Inr s' \<Longrightarrow> t_revision s' = t_revision s"
  by (cases e) (auto simp: event_arm_defs dest!: push_history_frame split: if_splits)

lemma task_apply_revision: "task_apply cd s e = Inr s' \<Longrightarrow> t_revision s' = t_revision s + 1"
  by (auto simp: task_apply_def result_simps dest: apply_event_revision)

text \<open>A journal that fits the revision counter numbers its events consecutively.\<close>

lemma replay_revision_nat:
  assumes "replay cd s es = Inr s'" and "unat (t_revision s) + length es < 2 ^ 64"
  shows "unat (t_revision s') = unat (t_revision s) + length es"
  using assms
proof (induction es arbitrary: s)
  case Nil
  then show ?case by simp
next
  case (Cons e es)
  then obtain s1 where s1: "task_apply cd s e = Inr s1" "replay cd s1 es = Inr s'"
    by (auto simp: result_simps)
  then have "unat (t_revision s1) = unat (t_revision s) + 1"
    using Cons.prems(2) unat_plus_one [of "t_revision s"] by (simp add: task_apply_revision)
  with Cons.IH [OF s1(2)] Cons.prems(2) show ?case by simp
qed

subsection \<open>What no event can undo\<close>

text \<open>Fields fixed at creation, logs that only grow and counters that only increase.\<close>

definition extends_state :: "TaskState \<Rightarrow> TaskState \<Rightarrow> bool" where
  "extends_state s s' \<longleftrightarrow>
     t_id s' = t_id s \<and> t_request s' = t_request s \<and> t_started_ms s' = t_started_ms s \<and>
     t_intake s' = t_intake s \<and> t_input s' = t_input s \<and>
     (\<exists>xs. t_evidence s' = t_evidence s @ xs) \<and>
     (\<exists>xs. t_certificates s' = t_certificates s @ xs) \<and>
     (\<exists>xs. t_contract_history s' = t_contract_history s @ xs) \<and>
     us_tokens (t_usage s) \<le> us_tokens (t_usage s') \<and>
     us_model_calls (t_usage s) \<le> us_model_calls (t_usage s')"

lemma extends_state_refl: "extends_state s s"
  by (simp add: extends_state_def)

lemma extends_state_trans: "extends_state s t \<Longrightarrow> extends_state t u \<Longrightarrow> extends_state s u"
  unfolding extends_state_def by auto

lemma apply_event_extends: "apply_event cd s e = Inr s' \<Longrightarrow> extends_state s s'"
  by (cases e)
    (auto simp: event_arm_defs extends_state_def invalidate_def saturating_add_mono
      dest!: push_history_frame split: if_splits)

lemma task_apply_extends: "task_apply cd s e = Inr s' \<Longrightarrow> extends_state s s'"
  by (auto simp: task_apply_def result_simps extends_state_def dest!: apply_event_extends)

lemma replay_extends_state: "replay cd s es = Inr s' \<Longrightarrow> extends_state s s'"
  unfolding replay_def
  by (erule try_fold_invariant [where P = "extends_state s"])
    (auto intro: extends_state_refl extends_state_trans task_apply_extends)

subsection \<open>Well-formed states\<close>

definition task_maps_ok :: "TaskState \<Rightarrow> bool" where
  "task_maps_ok s \<longleftrightarrow>
     bt_ok (t_directive_scopes s) \<and> bt_ok (t_jobs s) \<and> bt_ok (t_effects s) \<and> bt_ok (t_findings s) \<and>
     bs_ok (t_model_reservations s) \<and> bt_ok (t_model_receipts s) \<and> bt_ok (t_usage_receipts s)"

lemmas bt_ok_intros = bt_ok_insert bt_ok_remove bt_ok_adjust bt_ok_map_values bs_ok_insert

lemma apply_event_maps_ok: "apply_event cd s e = Inr s' \<Longrightarrow> task_maps_ok s \<Longrightarrow> task_maps_ok s'"
  by (cases e)
    (auto simp: event_arm_defs task_maps_ok_def bt_ok_intros dest!: push_history_frame split: if_splits)

lemma task_apply_maps_ok: "task_apply cd s e = Inr s' \<Longrightarrow> task_maps_ok s \<Longrightarrow> task_maps_ok s'"
  by (auto simp: task_apply_def result_simps task_maps_ok_def dest!: apply_event_maps_ok)

lemma requested_maps_ok: "task_maps_ok (requested i request lims at_ms intake input)"
  by (simp add: task_maps_ok_def requested_def)

lemma created_maps_ok: "task_maps_ok (created i contract at_ms)"
  by (simp add: task_maps_ok_def created_def requested_def)

text \<open>Every job, effect and finding is stored under its own identifier.\<close>

definition keyed :: "('v \<Rightarrow> 'k) \<Rightarrow> ('k, 'v) btreemap \<Rightarrow> bool" where
  "keyed f m \<longleftrightarrow> (\<forall>k v. bt_get m k = Some v \<longrightarrow> f v = k)"

lemma keyed_Nil [simp]: "keyed f []"
  by (simp add: keyed_def)

lemma keyed_insert: "keyed f m \<Longrightarrow> f v = k \<Longrightarrow> keyed f (bt_insert k v m)"
  by (auto simp: keyed_def bt_get_insert)

lemma keyed_adjust: "keyed f m \<Longrightarrow> (\<And>v. f (g v) = f v) \<Longrightarrow> keyed f (bt_adjust k g m)"
  by (auto simp: keyed_def bt_get_adjust split: if_splits)

lemma keyed_map_values: "keyed f m \<Longrightarrow> (\<And>v. f (g v) = f v) \<Longrightarrow> keyed f (bt_map_values g m)"
  by (auto simp: keyed_def bt_get_map_values)

definition keyed_by_id :: "TaskState \<Rightarrow> bool" where
  "keyed_by_id s \<longleftrightarrow>
     keyed j_id (t_jobs s) \<and> keyed eff_operation_id (t_effects s) \<and> keyed f_id (t_findings s)"

lemma apply_event_keyed: "apply_event cd s e = Inr s' \<Longrightarrow> keyed_by_id s \<Longrightarrow> keyed_by_id s'"
  by (cases e)
    (auto simp: event_arm_defs keyed_by_id_def keyed_insert keyed_adjust keyed_map_values
      dest!: push_history_frame split: if_splits)

lemma task_apply_keyed: "task_apply cd s e = Inr s' \<Longrightarrow> keyed_by_id s \<Longrightarrow> keyed_by_id s'"
  by (auto simp: task_apply_def result_simps keyed_by_id_def dest!: apply_event_keyed)

lemma keyedD: "keyed f m \<Longrightarrow> bt_get m k = Some v \<Longrightarrow> f v = k"
  by (simp add: keyed_def)

subsection \<open>Stale evidence\<close>

text \<open>
  Evidence counts only for the generation it was collected in. Whatever replaces the contract or the
  candidate starts a new generation and drops the delivery, except the workspace override of a manual
  command, whose start event did so already.
\<close>

definition manual_workspace :: "TaskEvent \<Rightarrow> bool" where
  "manual_workspace e = (case e of ManualWorkspace _ _ \<Rightarrow> True | _ \<Rightarrow> False)"

lemma apply_event_new_generation:
  assumes "apply_event cd s e = Inr s'" and "\<not> manual_workspace e"
    and "t_contract s' \<noteq> t_contract s \<or> t_candidate s' \<noteq> t_candidate s"
  shows "t_generation s' = t_generation s + 1 \<and> t_delivery s' = None"
  using assms
  by (cases e)
    (auto simp: event_arm_defs manual_workspace_def dest!: push_history_frame split: if_splits)

lemma apply_event_generation_step:
  assumes "apply_event cd s e = Inr s'"
  shows "t_generation s' = t_generation s \<or>
    t_generation s' = t_generation s + 1 \<and> t_delivery s' = None"
  using assms by (cases e) (auto simp: event_arm_defs dest!: push_history_frame split: if_splits)

subsection \<open>Completion\<close>

definition completes :: "TaskEvent \<Rightarrow> bool" where
  "completes e =
     (case e of Completed _ \<Rightarrow> True | Stopped outcome _ \<Rightarrow> outcome = Complete | _ \<Rightarrow> False)"

lemma apply_event_complete:
  "apply_event cd s e = Inr s' \<Longrightarrow> t_outcome s' = Some Complete \<Longrightarrow>
     t_outcome s = Some Complete \<or> completes e"
  by (cases e)
    (auto simp: event_arm_defs completes_def dest!: push_history_frame split: if_splits)

lemma task_apply_complete:
  "task_apply cd s e = Inr s' \<Longrightarrow> t_outcome s' = Some Complete \<Longrightarrow>
     t_outcome s = Some Complete \<or> completes e"
  by (auto simp: task_apply_def result_simps dest: apply_event_complete)

lemma replay_complete:
  "replay cd s es = Inr s' \<Longrightarrow> t_outcome s' = Some Complete \<Longrightarrow>
     t_outcome s = Some Complete \<or> list_ex completes es"
proof (induction es arbitrary: s)
  case Nil
  then show ?case by simp
next
  case (Cons e es)
  then obtain s1 where "task_apply cd s e = Inr s1" "replay cd s1 es = Inr s'"
    by (auto simp: result_simps)
  with Cons.IH [of s1] Cons.prems(2) task_apply_complete [of cd s e s1] show ?case
    by auto
qed

subsection \<open>Failures\<close>

lemma push_history_fails:
  "push_history cd reason s = Inl err \<longleftrightarrow>
     (\<exists>c m. t_contract s = Some c \<and> cd c = Inl m \<and> err = ApplyJson m)"
  by (cases "t_contract s"; cases "cd (the (t_contract s))") (auto simp: push_history_def)

definition creation_event :: "TaskEvent \<Rightarrow> bool" where
  "creation_event e = (case e of Requested _ _ _ _ _ \<Rightarrow> True | Created _ _ \<Rightarrow> True | _ \<Rightarrow> False)"

definition replaces_contract :: "TaskEvent \<Rightarrow> bool" where
  "replaces_contract e =
     (case e of AdditiveContractAccepted _ _ _ \<Rightarrow> True | ContractAmended _ _ \<Rightarrow> True | _ \<Rightarrow> False)"

lemma apply_event_fails:
  "apply_event cd s e = Inl err \<longleftrightarrow>
     creation_event e \<and> err = ApplyUnreachable \<or>
     replaces_contract e \<and> (\<exists>c m. t_contract s = Some c \<and> cd c = Inl m \<and> err = ApplyJson m)"
  by (cases e)
    (auto simp: creation_event_def replaces_contract_def and_then_Inl_iff push_history_fails)

section \<open>Properties\<close>

text \<open>
  Replaying a journal numbers its events consecutively while the revision counter lasts, keeps
  what creation fixed, only appends to the evidence, certificate and contract logs and never lowers
  the usage counters.
\<close>

theorem replay_preserves_history:
  assumes "replay cd s es = Inr s'" and "unat (t_revision s) + length es < 2 ^ 64"
  shows "unat (t_revision s') = unat (t_revision s) + length es \<and> extends_state s s'"
  using assms by (simp add: replay_revision_nat replay_extends_state)

text \<open>
  Applying an event keeps every map of the state ordered by key and every job, effect and finding
  under its own identifier.
\<close>

theorem apply_preserves_indexing:
  assumes "task_apply cd s e = Inr s'" and "task_maps_ok s" and "keyed_by_id s"
  shows "task_maps_ok s' \<and> keyed_by_id s'"
  using assms by (blast intro: task_apply_maps_ok task_apply_keyed)

text \<open>
  An event that replaces the contract or the candidate starts a new generation and drops the
  delivery, so evidence and delivery of the old work no longer count; a manual workspace override is
  the one exception.
\<close>

theorem replacement_invalidates_evidence:
  assumes "task_apply cd s e = Inr s'" and "\<not> manual_workspace e"
    and "t_contract s' \<noteq> t_contract s \<or> t_candidate s' \<noteq> t_candidate s"
  shows "t_generation s' = t_generation s + 1 \<and> t_delivery s' = None"
  using assms by (auto simp: task_apply_def result_simps dest: apply_event_new_generation)

text \<open>
  A replayed task is complete only if it was complete before or the journal holds a completion.
\<close>

theorem complete_only_by_completion:
  assumes "replay cd s es = Inr s'" and "t_outcome s' = Some Complete"
    and "t_outcome s \<noteq> Some Complete"
  shows "\<exists>e \<in> set es. (\<exists>cert. e = Completed cert) \<or> (\<exists>reason. e = Stopped Complete reason)"
proof -
  have "completes e \<Longrightarrow> (\<exists>cert. e = Completed cert) \<or> (\<exists>reason. e = Stopped Complete reason)" for e
    by (cases e) (auto simp: completes_def)
  then show ?thesis
    using replay_complete [OF assms(1,2)] assms(3) unfolding list_ex_iff by blast
qed

text \<open>
  applying an event fails only on a creation event or when the replaced contract cannot be encoded.
\<close>

theorem apply_failures:
  "task_apply cd s e = Inl err \<longleftrightarrow>
     creation_event e \<and> err = ApplyUnreachable \<or>
     replaces_contract e \<and> (\<exists>c m. t_contract s = Some c \<and> cd c = Inl m \<and> err = ApplyJson m)"
  by (simp add: task_apply_def and_then_Inl_iff apply_event_fails)

subsection \<open>Witnesses\<close>

definition sample_task :: TaskState where
  "sample_task = requested (TaskId (Uuid 1)) ''fix it'' Limits_default 1000 None None"

definition sample_candidate :: Candidate where
  "sample_candidate = \<lparr>cand_source = Digest [1], cand_environment = Digest [2],
     cand_artifact = Digest [3], cand_frozen = True, cand_provenance = None\<rparr>"

definition sample_certificate :: Certificate where
  "sample_certificate = \<lparr>cert_task = TaskId (Uuid 1), cert_contract = Digest [4],
     cert_source = Digest [1], cert_artifact = Digest [3], cert_environment = Digest [2],
     cert_generation = 2, cert_evaluated_revision = 2, cert_evidence = [],
     cert_delivery_receipt = Digest [5]\<rparr>"

lemmas sample_task_simps = sample_task_def requested_def

theorem replay_preserves_history_witness:
  "\<exists>s'. replay (\<lambda>c. Inl []) sample_task [CandidateSelected sample_candidate, CancellationRequested] = Inr s' \<and>
     unat (t_revision s') = 3 \<and> extends_state sample_task s'"
proof -
  let ?s' = "(invalidate sample_task)\<lparr>t_candidate := Some sample_candidate, t_revision := 3,
    t_cancellation_requested := True\<rparr>"
  have r: "replay (\<lambda>c. Inl []) sample_task [CandidateSelected sample_candidate, CancellationRequested] = Inr ?s'"
    by (simp add: task_apply_def invalidate_def sample_task_simps)
  from replay_preserves_history [OF r] r show ?thesis
    by (simp add: sample_task_simps)
qed

theorem apply_preserves_indexing_witness:
  "\<exists>s'. task_apply (\<lambda>c. Inl []) sample_task CancellationRequested = Inr s' \<and>
     task_maps_ok s' \<and> keyed_by_id s'"
proof -
  have "task_maps_ok sample_task" "keyed_by_id sample_task"
    by (simp_all add: sample_task_def requested_maps_ok) (simp add: keyed_by_id_def requested_def)
  then show ?thesis
    using apply_preserves_indexing [of "\<lambda>c. Inl []" sample_task CancellationRequested]
    by (simp add: task_apply_def)
qed

theorem replacement_invalidates_evidence_witness:
  "\<exists>s'. task_apply (\<lambda>c. Inl []) sample_task (CandidateSelected sample_candidate) = Inr s' \<and>
     t_generation s' = 2 \<and> t_delivery s' = None"
  using replacement_invalidates_evidence
      [of "\<lambda>c. Inl []" sample_task "CandidateSelected sample_candidate"]
  by (simp add: task_apply_def manual_workspace_def sample_task_simps)

theorem complete_only_by_completion_witness:
  "\<exists>s'. replay (\<lambda>c. Inl []) sample_task [Completed sample_certificate] = Inr s' \<and>
     t_outcome s' = Some Complete \<and>
     (\<exists>e \<in> set [Completed sample_certificate].
        (\<exists>cert. e = Completed cert) \<or> (\<exists>reason. e = Stopped Complete reason))"
  using complete_only_by_completion [of "\<lambda>c. Inl []" sample_task "[Completed sample_certificate]"]
  by (simp add: task_apply_def sample_task_simps)

end
