(* ===== verification/Completion.thy ===== *)
theory Completion
  imports Task_State
begin

text \<open>
  The completion evaluator (\<^verbatim>\<open>completion.rs\<close>): the only code that issues a completion certificate.
  It is related to a declarative description of a completable task.
\<close>

section \<open>The evaluator\<close>

record Rejection =
  rej_obligation :: "string option"
  rej_reason :: string

definition reject :: "string option \<Rightarrow> string \<Rightarrow> Rejection" where
  "reject obligation reason = \<lparr>rej_obligation = obligation, rej_reason = reason\<rparr>"

definition effect_open :: "Effect \<Rightarrow> bool" where
  "effect_open e = (eff_status e = Intended \<or> eff_status e = EffectUnknown)"

definition call_settled :: "TaskState \<Rightarrow> uuid \<Rightarrow> bool" where
  "call_settled s operation =
     (case bt_get (t_model_receipts s) operation of
        None \<Rightarrow> False
      | Some receipt \<Rightarrow> mc_tokens receipt \<noteq> None \<and> mc_status receipt \<noteq> CallUnknown)"

definition over_budget :: "Limits \<Rightarrow> TaskState \<Rightarrow> u64 \<Rightarrow> bool" where
  "over_budget l s at_ms =
     (us_tokens (t_usage s) > l_tokens l \<or> us_model_calls (t_usage s) > l_model_calls l \<or>
      saturating_sub at_ms (t_started_ms s) \<ge> l_elapsed_ms l)"

definition rejections_if :: "bool \<Rightarrow> string \<Rightarrow> Rejection list" where
  "rejections_if c reason = (if c then [reject None reason] else [])"

text \<open>The rejections that do not depend on a candidate, in the order they are recorded.\<close>

definition task_rejections :: "Contract \<Rightarrow> TaskState \<Rightarrow> u64 \<Rightarrow> Rejection list" where
  "task_rejections contract s at_ms =
     rejections_if (\<not> is_ok (contract_validate contract)) ''invalid contract'' @
     rejections_if (t_outcome s \<noteq> None) ''task already has a terminal outcome'' @
     rejections_if (t_cancellation_requested s) ''cancellation has been requested'' @
     rejections_if (t_amendment_pending s)
       ''user follow-up has not been admitted into the task contract'' @
     rejections_if (c_open_questions contract \<noteq> []) ''required product decisions remain open'' @
     map (\<lambda>f. reject (Some (f_id f)) (f_description f))
       (filter (\<lambda>f. f_blocking f \<and> \<not> f_resolved f) (bt_values (t_findings s))) @
     rejections_if (list_ex (\<lambda>job. unresolved (j_status job)) (bt_values (t_jobs s)))
       ''jobs remain running or have unknown outcomes'' @
     rejections_if (list_ex (\<lambda>job. j_status job = Fenced \<and> j_fence_receipt job = None)
         (bt_values (t_jobs s)))
       ''a fenced job has no termination receipt'' @
     rejections_if (list_ex (\<lambda>operation. \<not> call_settled s operation) (t_model_reservations s))
       ''provider attempts have unknown outcomes or billing'' @
     rejections_if (list_ex effect_open (bt_values (t_effects s)))
       ''external effects require reconciliation'' @
     rejections_if (over_budget (c_limits contract) s at_ms) ''execution budget exceeded''"

definition evidence_identity ::
    "digest \<Rightarrow> Candidate \<Rightarrow> digest \<Rightarrow> CheckDefinition \<Rightarrow> EvidenceIdentity" where
  "evidence_identity contract_digest candidate definition_digest check =
     \<lparr>ei_contract = contract_digest, ei_source = cand_source candidate,
      ei_environment = cand_environment candidate, ei_artifact = cand_artifact candidate,
      ei_check_definition = definition_digest, ei_verifier = d_verifier check\<rparr>"

definition attempts_of :: "TaskState \<Rightarrow> string \<Rightarrow> EvidenceIdentity \<Rightarrow> Evidence list" where
  "attempts_of s check_id identity =
     filter (\<lambda>e. ev_check e = check_id \<and> ev_identity e = identity) (t_evidence s)"

definition control_valid :: "TaskState \<Rightarrow> CheckDefinition \<Rightarrow> Observation \<Rightarrow> bool" where
  "control_valid s check result =
     (case ob_control result of
        None \<Rightarrow> False
      | Some control \<Rightarrow>
          co_rejected control \<and> co_intended_reason control \<and> co_kind control = d_control check \<and>
          Some (co_source control) =
            (case d_control check of
               BaselineFailure \<Rightarrow> map_option cand_source (t_baseline s)
             | NegativeControl \<Rightarrow> d_control_source check
             | ControlNone \<Rightarrow> None))"

text \<open>The verdict on one check: why its evidence is not accepted, or the accepted job.\<close>

definition check_verdict ::
    "TaskState \<Rightarrow> string \<Rightarrow> CheckDefinition \<Rightarrow> EvidenceIdentity \<Rightarrow> string + uuid" where
  "check_verdict s check_id check identity =
     (let attempts = attempts_of s check_id identity;
          prefix = ''check '' @ check_id
      in if attempts = [] \<or> ev_generation (last attempts) \<noteq> t_generation s
         then Inl (prefix @ '' has no current evidence'') else
      let final = last attempts; result = ev_observation final in
      if ob_limitations result \<noteq> [] \<or> ob_unreconciled_jobs result \<noteq> []
      then Inl (prefix @ '' has unresolved evidence limitations'') else
      let passed = (ob_status result = CheckPassed \<and> ob_exit_code result = Some 0
                    \<and> ob_signal result = None);
          baseline = ((case d_baseline check of NoNewFailure _ _ \<Rightarrow> True | MustPass \<Rightarrow> False)
                    \<and> ob_status result = CheckFailed \<and> ob_baseline_unchanged result
                    \<and> ob_signal result = None)
      in if \<not> passed \<and> \<not> baseline
      then Inl (prefix @ '' did not satisfy its acceptance policy'')
      else if ob_assertions result < d_minimum_assertions check \<or> ob_discovered result = Some 0
          \<or> (case ob_discovered result of None \<Rightarrow> False | Some n \<Rightarrow> n \<le> ob_skipped result)
      then Inl (prefix @ '' did not exercise its required assertions'')
      else if d_control check \<noteq> ControlNone \<and> \<not> control_valid s check result
      then Inl (prefix @ '' has no valid negative control'')
      else if d_flake check = RejectAnyFailure \<and>
            list_ex (\<lambda>e. ob_status (ev_observation e) = CheckFailed) (butlast attempts)
          \<or> (case d_flake check of Retry max_attempts \<Rightarrow> length attempts > unat max_attempts
             | RejectAnyFailure \<Rightarrow> False)
      then Inl (prefix @ '' violates its declared retry policy'')
      else Inr (ev_job_id final))"

type_synonym judgement = "(string, uuid) btreemap \<times> Rejection list"

definition judge_check ::
    "(CheckDefinition \<Rightarrow> string + digest) \<Rightarrow> TaskState \<Rightarrow> Contract \<Rightarrow> Candidate \<Rightarrow> digest \<Rightarrow>
     Requirement \<Rightarrow> judgement \<Rightarrow> string \<Rightarrow> Rejection list + judgement" where
  "judge_check kd s contract candidate contract_digest requirement j check_id =
     (if bt_contains (fst j) check_id then Inr j
      else case bt_get (c_checks contract) check_id of
        None \<Rightarrow> Inr (fst j, snd j @ [reject (Some (r_id requirement)) ''acceptance definition is missing''])
      | Some check \<Rightarrow>
          and_then (map_err (\<lambda>e. [reject None e]) (kd check)) (\<lambda>definition_digest.
            case check_verdict s check_id check
                (evidence_identity contract_digest candidate definition_digest check) of
              Inl reason \<Rightarrow> Inr (fst j, snd j @ [reject (Some (r_id requirement)) reason])
            | Inr job \<Rightarrow> Inr (bt_insert check_id job (fst j), snd j)))"

definition judge_requirement ::
    "(CheckDefinition \<Rightarrow> string + digest) \<Rightarrow> TaskState \<Rightarrow> Contract \<Rightarrow> Candidate \<Rightarrow> digest \<Rightarrow>
     judgement \<Rightarrow> Requirement \<Rightarrow> Rejection list + judgement" where
  "judge_requirement kd s contract candidate contract_digest j requirement =
     try_fold (judge_check kd s contract candidate contract_digest requirement) j
       (r_checks requirement)"

definition evaluate ::
    "(Contract \<Rightarrow> string + digest) \<Rightarrow> (CheckDefinition \<Rightarrow> string + digest) \<Rightarrow> TaskState \<Rightarrow> u64 \<Rightarrow>
     Rejection list + Certificate" where
  "evaluate cd kd s at_ms =
     (case t_contract s of
        None \<Rightarrow> Inl [reject None ''task has no accepted executable contract'']
      | Some contract \<Rightarrow>
          (case t_candidate s of
             None \<Rightarrow> Inl (task_rejections contract s at_ms @ [reject None ''no frozen candidate''])
           | Some candidate \<Rightarrow>
               and_then (map_err (\<lambda>e. [reject None e]) (cd contract)) (\<lambda>contract_digest.
               and_then
                 (try_fold (judge_requirement kd s contract candidate contract_digest)
                    ([], task_rejections contract s at_ms
                         @ rejections_if (\<not> cand_frozen candidate) ''candidate is still writable'')
                    (c_requirements contract)) (\<lambda>(accepted, reasons).
               case t_delivery s of
                 None \<Rightarrow> Inl (reasons @ [reject None ''requested delivery has not been verified''])
               | Some delivery \<Rightarrow>
                   let reasons1 = reasons @ rejections_if
                         (dl_kind delivery \<noteq> c_delivery contract
                          \<or> dl_source delivery \<noteq> cand_source candidate
                          \<or> dl_artifact delivery \<noteq> cand_artifact candidate)
                         ''delivery does not match the candidate and requested stage''
                   in if reasons1 \<noteq> [] then Inl reasons1
                      else Inr \<lparr>cert_task = t_id s, cert_contract = contract_digest,
                             cert_source = cand_source candidate, cert_artifact = cand_artifact candidate,
                             cert_environment = cand_environment candidate,
                             cert_generation = t_generation s, cert_evaluated_revision = t_revision s,
                             cert_evidence = accepted, cert_delivery_receipt = dl_receipt delivery\<rparr>))))"

section \<open>A declarative specification\<close>

text \<open>What evidence satisfies a check: the newest attempt, for the current identity and generation.\<close>

definition observation_acceptable :: "TaskState \<Rightarrow> CheckDefinition \<Rightarrow> Observation \<Rightarrow> bool" where
  "observation_acceptable s d ob \<longleftrightarrow>
     ob_limitations ob = [] \<and> ob_unreconciled_jobs ob = [] \<and> ob_signal ob = None \<and>
     (ob_status ob = CheckPassed \<and> ob_exit_code ob = Some 0 \<or>
      (\<exists>report reason. d_baseline d = NoNewFailure report reason) \<and>
        ob_status ob = CheckFailed \<and> ob_baseline_unchanged ob) \<and>
     d_minimum_assertions d \<le> ob_assertions ob \<and>
     (\<forall>n. ob_discovered ob = Some n \<longrightarrow> 0 < n \<and> ob_skipped ob < n) \<and>
     (d_control d = ControlNone \<or> control_valid s d ob)"

definition retry_respected :: "CheckDefinition \<Rightarrow> Evidence list \<Rightarrow> bool" where
  "retry_respected d attempts \<longleftrightarrow>
     (d_flake d = RejectAnyFailure \<longrightarrow>
        (\<forall>e \<in> set (butlast attempts). ob_status (ev_observation e) \<noteq> CheckFailed)) \<and>
     (\<forall>n. d_flake d = Retry n \<longrightarrow> length attempts \<le> unat n)"

definition check_satisfied ::
    "TaskState \<Rightarrow> string \<Rightarrow> CheckDefinition \<Rightarrow> EvidenceIdentity \<Rightarrow> uuid \<Rightarrow> bool" where
  "check_satisfied s i d identity job \<longleftrightarrow>
     (let attempts = attempts_of s i identity in
      attempts \<noteq> [] \<and> ev_generation (last attempts) = t_generation s \<and>
      observation_acceptable s d (ev_observation (last attempts)) \<and>
      retry_respected d attempts \<and> job = ev_job_id (last attempts))"

definition obligations_settled :: "TaskState \<Rightarrow> bool" where
  "obligations_settled s \<longleftrightarrow>
     (\<forall>f \<in> set (bt_values (t_findings s)). f_blocking f \<longrightarrow> f_resolved f) \<and>
     (\<forall>job \<in> set (bt_values (t_jobs s)). \<not> unresolved (j_status job) \<and>
        (j_status job = Fenced \<longrightarrow> j_fence_receipt job \<noteq> None)) \<and>
     (\<forall>operation \<in> set (t_model_reservations s). call_settled s operation) \<and>
     (\<forall>e \<in> set (bt_values (t_effects s)). \<not> effect_open e)"

definition check_accepted ::
    "(CheckDefinition \<Rightarrow> string + digest) \<Rightarrow> TaskState \<Rightarrow> Contract \<Rightarrow> Candidate \<Rightarrow> digest \<Rightarrow>
     string \<Rightarrow> uuid \<Rightarrow> bool" where
  "check_accepted kd s c cand d i job \<longleftrightarrow>
     (\<exists>check kdig. bt_get (c_checks c) i = Some check \<and> kd check = Inr kdig \<and>
        check_satisfied s i check (evidence_identity d cand kdig check) job)"

definition completable ::
    "(Contract \<Rightarrow> string + digest) \<Rightarrow> (CheckDefinition \<Rightarrow> string + digest) \<Rightarrow> TaskState \<Rightarrow> u64 \<Rightarrow>
     Contract \<Rightarrow> Candidate \<Rightarrow> Delivery \<Rightarrow> digest \<Rightarrow> bool" where
  "completable cd kd s at_ms c cand dl d \<longleftrightarrow>
     t_contract s = Some c \<and> t_candidate s = Some cand \<and> t_delivery s = Some dl \<and> cd c = Inr d \<and>
     contract_wf c \<and> t_outcome s = None \<and> \<not> t_cancellation_requested s \<and>
     \<not> t_amendment_pending s \<and> c_open_questions c = [] \<and> obligations_settled s \<and>
     \<not> over_budget (c_limits c) s at_ms \<and> cand_frozen cand \<and>
     (\<forall>r \<in> set (c_requirements c). \<forall>i \<in> set (r_checks r).
        \<exists>job. check_accepted kd s c cand d i job) \<and>
     dl_kind dl = c_delivery c \<and> dl_source dl = cand_source cand \<and> dl_artifact dl = cand_artifact cand"

section \<open>Correctness of the evaluator\<close>

lemma rejections_if_Nil [simp]: "rejections_if c reason = [] \<longleftrightarrow> \<not> c"
  by (simp add: rejections_if_def)

lemma task_rejections_Nil:
  "task_rejections c s at_ms = [] \<longleftrightarrow>
     contract_wf c \<and> t_outcome s = None \<and> \<not> t_cancellation_requested s \<and> \<not> t_amendment_pending s \<and>
     c_open_questions c = [] \<and> obligations_settled s \<and> \<not> over_budget (c_limits c) s at_ms"
proof -
  have "is_ok (contract_validate c) \<longleftrightarrow> contract_wf c"
    by (simp add: is_ok_iff contract_validate_iff [symmetric])
  then show ?thesis
    by (auto simp: task_rejections_def obligations_settled_def filter_empty_conv list_ex_iff)
qed

lemma check_verdict_iff: "check_verdict s i d ident = Inr job \<longleftrightarrow> check_satisfied s i d ident job"
proof -
  let ?attempts = "attempts_of s i ident"
  let ?ob = "ev_observation (last ?attempts)"
  have disc: "\<not> (ob_discovered ?ob = Some 0 \<or>
      (case ob_discovered ?ob of None \<Rightarrow> False | Some n \<Rightarrow> n \<le> ob_skipped ?ob)) \<longleftrightarrow>
      (\<forall>n. ob_discovered ?ob = Some n \<longrightarrow> 0 < n \<and> ob_skipped ?ob < n)"
    by (auto simp: word_neq_0_conv not_le split: option.splits)
  have base: "(case d_baseline d of NoNewFailure _ _ \<Rightarrow> True | MustPass \<Rightarrow> False) \<longleftrightarrow>
      (\<exists>report reason. d_baseline d = NoNewFailure report reason)"
    by (cases "d_baseline d") auto
  have retry: "\<not> (d_flake d = RejectAnyFailure \<and>
        list_ex (\<lambda>e. ob_status (ev_observation e) = CheckFailed) (butlast ?attempts)
      \<or> (case d_flake d of Retry n \<Rightarrow> length ?attempts > unat n | RejectAnyFailure \<Rightarrow> False)) \<longleftrightarrow>
      retry_respected d ?attempts"
    by (cases "d_flake d") (auto simp: retry_respected_def list_ex_iff not_less)
  show ?thesis
    unfolding check_verdict_def check_satisfied_def observation_acceptable_def Let_def
      guard_Inr_iff base retry
    using disc by (auto simp: not_less)
qed

lemma check_accepted_unique:
  "check_accepted kd s c cand d i job \<Longrightarrow> check_accepted kd s c cand d i job' \<Longrightarrow> job' = job"
  by (auto simp: check_accepted_def check_satisfied_def Let_def)

text \<open>One check: it is already judged, or it adds a rejection, or it is accepted.\<close>

lemma judge_check_cases:
  assumes "judge_check kd s c cand d r j i = Inr j'"
  obtains (known) "bt_contains (fst j) i" "j' = j"
    | (rejected) reason where "\<not> bt_contains (fst j) i" "j' = (fst j, snd j @ [reason])"
    | (accepted) job where "\<not> bt_contains (fst j) i" "check_accepted kd s c cand d i job"
        "j' = (bt_insert i job (fst j), snd j)"
proof (cases "bt_contains (fst j) i")
  case True
  with assms show ?thesis by (intro known) (simp_all add: judge_check_def)
next
  case new: False
  show ?thesis
  proof (cases "bt_get (c_checks c) i")
    case None
    with new assms show ?thesis by (intro rejected) (auto simp: judge_check_def)
  next
    case (Some check)
    with new assms obtain kdig where kdig: "kd check = Inr kdig"
      by (auto simp: judge_check_def result_simps)
    show ?thesis
    proof (cases "check_verdict s i check (evidence_identity d cand kdig check)")
      case (Inl reason)
      with new Some kdig assms show ?thesis by (intro rejected) (auto simp: judge_check_def)
    next
      case (Inr job)
      with Some kdig have "check_accepted kd s c cand d i job"
        by (auto simp: check_accepted_def check_verdict_iff)
      with new Some kdig Inr assms show ?thesis by (intro accepted) (auto simp: judge_check_def)
    qed
  qed
qed

lemma judge_check_rejections:
  "judge_check kd s c cand d r j i = Inr j' \<Longrightarrow> snd j' = [] \<Longrightarrow> snd j = []"
  by (erule judge_check_cases) auto

lemma judge_fold_rejections:
  assumes "try_fold (judge_check kd s c cand d r) j is = Inr j'" and "snd j' = []"
  shows "snd j = []"
  using assms
  by (induction "is" arbitrary: j) (auto simp: and_then_Inr_iff dest: judge_check_rejections)

definition accepted_for ::
    "(CheckDefinition \<Rightarrow> string + digest) \<Rightarrow> TaskState \<Rightarrow> Contract \<Rightarrow> Candidate \<Rightarrow> digest \<Rightarrow>
     string set \<Rightarrow> (string, uuid) btreemap \<Rightarrow> bool" where
  "accepted_for kd s c cand d I m \<longleftrightarrow>
     (\<forall>k job. bt_get m k = Some job \<longleftrightarrow> k \<in> I \<and> check_accepted kd s c cand d k job) \<and>
     (\<forall>k \<in> I. \<exists>job. check_accepted kd s c cand d k job)"

lemma judge_check_sound:
  assumes "judge_check kd s c cand d r j i = Inr j'" and "snd j' = []"
    and "accepted_for kd s c cand d I (fst j)"
  shows "accepted_for kd s c cand d (insert i I) (fst j')"
  using assms(1)
proof (cases rule: judge_check_cases)
  case known
  then have "i \<in> I"
    using assms(3) by (auto simp: accepted_for_def bt_contains_def)
  with known assms(3) show ?thesis by (simp add: insert_absorb)
next
  case (rejected reason)
  with assms(2) show ?thesis by simp
next
  case (accepted job)
  with assms(3) show ?thesis
    by (auto simp: accepted_for_def bt.get_put dest: check_accepted_unique)
qed

lemma judge_checks_sound:
  assumes "try_fold (judge_check kd s c cand d r) j is = Inr j'" and "snd j' = []"
    and "accepted_for kd s c cand d I (fst j)"
  shows "accepted_for kd s c cand d (I \<union> set is) (fst j')"
  using assms
proof (induction "is" arbitrary: j I)
  case Nil
  then show ?case by simp
next
  case (Cons i "is")
  from Cons.prems(1) obtain j1 where step: "judge_check kd s c cand d r j i = Inr j1"
    and rest: "try_fold (judge_check kd s c cand d r) j1 is = Inr j'"
    by (auto simp: and_then_Inr_iff)
  have "snd j1 = []"
    using rest Cons.prems(2) by (rule judge_fold_rejections)
  with step Cons.prems(3) have "accepted_for kd s c cand d (insert i I) (fst j1)"
    by (intro judge_check_sound)
  from Cons.IH [OF rest Cons.prems(2) this] show ?case by simp
qed

lemma judge_requirements_rejections:
  assumes "try_fold (judge_requirement kd s c cand d) j rs = Inr j'" and "snd j' = []"
  shows "snd j = []"
  using assms
proof (induction rs arbitrary: j)
  case Nil
  then show ?case by simp
next
  case (Cons r rs)
  then obtain j1 where "judge_requirement kd s c cand d j r = Inr j1" "snd j1 = []"
    by (auto simp: and_then_Inr_iff)
  then show ?case
    unfolding judge_requirement_def by (rule judge_fold_rejections)
qed

lemma judge_requirements_sound:
  assumes "try_fold (judge_requirement kd s c cand d) j rs = Inr j'" and "snd j' = []"
    and "accepted_for kd s c cand d I (fst j)"
  shows "accepted_for kd s c cand d (I \<union> (\<Union>r \<in> set rs. set (r_checks r))) (fst j')"
  using assms
proof (induction rs arbitrary: j I)
  case Nil
  then show ?case by simp
next
  case (Cons r rs)
  from Cons.prems(1) obtain j1 where step: "judge_requirement kd s c cand d j r = Inr j1"
    and rest: "try_fold (judge_requirement kd s c cand d) j1 rs = Inr j'"
    by (auto simp: and_then_Inr_iff)
  have "snd j1 = []"
    using rest Cons.prems(2) by (rule judge_requirements_rejections)
  with step Cons.prems(3) have "accepted_for kd s c cand d (I \<union> set (r_checks r)) (fst j1)"
    unfolding judge_requirement_def by (intro judge_checks_sound)
  from Cons.IH [OF rest Cons.prems(2) this] show ?case by (simp add: Un_assoc)
qed

text \<open>Conversely, when every required check has accepted evidence the loops add no rejection.\<close>

lemma judge_check_total:
  assumes "check_accepted kd s c cand d i job" and "snd j = []"
  shows "\<exists>j'. judge_check kd s c cand d r j i = Inr j' \<and> snd j' = []"
proof (cases "bt_contains (fst j) i")
  case True
  with assms show ?thesis by (simp add: judge_check_def)
next
  case False
  from assms(1) obtain check kdig where "bt_get (c_checks c) i = Some check" "kd check = Inr kdig"
    and "check_verdict s i check (evidence_identity d cand kdig check) = Inr job"
    by (auto simp: check_accepted_def check_verdict_iff)
  with False assms(2) show ?thesis by (simp add: judge_check_def)
qed

lemma judge_checks_total:
  assumes "\<forall>i \<in> set is. \<exists>job. check_accepted kd s c cand d i job" and "snd j = []"
  shows "\<exists>j'. try_fold (judge_check kd s c cand d r) j is = Inr j' \<and> snd j' = []"
  using assms
proof (induction "is" arbitrary: j)
  case Nil
  then show ?case by simp
next
  case (Cons i "is")
  then obtain j1 where "judge_check kd s c cand d r j i = Inr j1" "snd j1 = []"
    using judge_check_total [of kd s c cand d i] by (metis list.set_intros(1))
  with Cons show ?case by simp
qed

lemma judge_requirements_total:
  assumes "\<forall>r \<in> set rs. \<forall>i \<in> set (r_checks r). \<exists>job. check_accepted kd s c cand d i job"
    and "snd j = []"
  shows "\<exists>j'. try_fold (judge_requirement kd s c cand d) j rs = Inr j' \<and> snd j' = []"
  using assms
proof (induction rs arbitrary: j)
  case Nil
  then show ?case by simp
next
  case (Cons r rs)
  then obtain j1 where "judge_requirement kd s c cand d j r = Inr j1" "snd j1 = []"
    using judge_checks_total [of "r_checks r" kd s c cand d j r]
    by (auto simp: judge_requirement_def)
  with Cons show ?case by simp
qed

definition certificate_of ::
    "TaskState \<Rightarrow> Candidate \<Rightarrow> Delivery \<Rightarrow> digest \<Rightarrow> (string, uuid) btreemap \<Rightarrow> Certificate" where
  "certificate_of s cand dl d accepted =
     \<lparr>cert_task = t_id s, cert_contract = d, cert_source = cand_source cand,
      cert_artifact = cand_artifact cand, cert_environment = cand_environment cand,
      cert_generation = t_generation s, cert_evaluated_revision = t_revision s,
      cert_evidence = accepted, cert_delivery_receipt = dl_receipt dl\<rparr>"

lemma evaluate_sound:
  assumes "evaluate cd kd s at_ms = Inr cert"
  obtains c cand dl d where "completable cd kd s at_ms c cand dl d"
    and "cert = certificate_of s cand dl d (cert_evidence cert)"
    and "accepted_for kd s c cand d (\<Union>r \<in> set (c_requirements c). set (r_checks r)) (cert_evidence cert)"
proof -
  from assms obtain c cand dl d j where c: "t_contract s = Some c" and cand: "t_candidate s = Some cand"
    and d: "cd c = Inr d" and dl: "t_delivery s = Some dl"
    and fold: "try_fold (judge_requirement kd s c cand d)
        ([], task_rejections c s at_ms @ rejections_if (\<not> cand_frozen cand) ''candidate is still writable'')
        (c_requirements c) = Inr j"
    and none: "snd j = []"
    and deliv: "dl_kind dl = c_delivery c" "dl_source dl = cand_source cand"
      "dl_artifact dl = cand_artifact cand"
    and cert: "cert = certificate_of s cand dl d (fst j)"
    by (auto simp: evaluate_def result_simps Let_def certificate_of_def split: option.splits prod.splits)
  have "task_rejections c s at_ms = []" and "cand_frozen cand"
    using judge_requirements_rejections [OF fold none] by auto
  moreover have acc: "accepted_for kd s c cand d (\<Union>r \<in> set (c_requirements c). set (r_checks r)) (fst j)"
    using judge_requirements_sound [OF fold none, of "{}"] by (simp add: accepted_for_def)
  ultimately have "completable cd kd s at_ms c cand dl d"
    using c cand d dl deliv by (auto simp: completable_def task_rejections_Nil accepted_for_def)
  then show thesis
    using that cert acc by (simp add: certificate_of_def)
qed

lemma evaluate_complete:
  assumes "completable cd kd s at_ms c cand dl d"
  shows "\<exists>cert. evaluate cd kd s at_ms = Inr cert"
proof -
  from assms have none: "task_rejections c s at_ms = []" "cand_frozen cand"
    by (simp_all add: completable_def task_rejections_Nil)
  with assms obtain j where "try_fold (judge_requirement kd s c cand d) ([], []) (c_requirements c) = Inr j"
    and "snd j = []"
    using judge_requirements_total [of "c_requirements c" kd s c cand d "([], [])"]
    by (auto simp: completable_def)
  with assms none show ?thesis
    by (cases j) (simp add: evaluate_def completable_def rejections_if_def)
qed

section \<open>Properties\<close>

text \<open>
  C3: a certificate is issued exactly when the task is completable: its accepted contract is
  well-formed and has no open question, nothing is pending, running or unsettled, the budget holds,
  the candidate is frozen, every check of every requirement has acceptable current evidence and the
  delivery is the one the contract asks for, of this candidate.
\<close>

theorem certificate_iff_completable:
  "(\<exists>cert. evaluate cd kd s at_ms = Inr cert) \<longleftrightarrow>
     (\<exists>c cand dl d. completable cd kd s at_ms c cand dl d)"
  by (meson evaluate_sound evaluate_complete)

text \<open>
  C4: an issued certificate names the task, contract, candidate, generation and revision it was
  evaluated on, and maps exactly the checks of the contract's requirements to jobs whose evidence
  satisfies them.
\<close>

theorem certificate_contents:
  assumes "evaluate cd kd s at_ms = Inr cert"
  shows "\<exists>c cand dl d. completable cd kd s at_ms c cand dl d \<and>
    cert = certificate_of s cand dl d (cert_evidence cert) \<and>
    (\<forall>i job. bt_get (cert_evidence cert) i = Some job \<longleftrightarrow>
       (\<exists>r \<in> set (c_requirements c). i \<in> set (r_checks r)) \<and> check_accepted kd s c cand d i job) \<and>
    (\<forall>r \<in> set (c_requirements c). \<forall>i \<in> set (r_checks r). bt_contains (cert_evidence cert) i)"
proof -
  from assms obtain c cand dl d where comp: "completable cd kd s at_ms c cand dl d"
    and cert: "cert = certificate_of s cand dl d (cert_evidence cert)"
    and acc: "accepted_for kd s c cand d (\<Union>r \<in> set (c_requirements c). set (r_checks r)) (cert_evidence cert)"
    by (rule evaluate_sound)
  from acc have "\<forall>i job. bt_get (cert_evidence cert) i = Some job \<longleftrightarrow>
      (\<exists>r \<in> set (c_requirements c). i \<in> set (r_checks r)) \<and> check_accepted kd s c cand d i job"
    by (simp add: accepted_for_def)
  moreover from acc have "\<forall>r \<in> set (c_requirements c). \<forall>i \<in> set (r_checks r).
      bt_contains (cert_evidence cert) i"
    unfolding accepted_for_def bt_contains_def by blast
  ultimately show ?thesis
    using comp cert by (intro exI conjI)
qed


subsection \<open>Witnesses\<close>

definition sample_check :: CheckDefinition where
  "sample_check = \<lparr>d_purpose = ''unit tests'', d_kind = Behavior, d_verifier = Digest [6],
     d_command = [''make''], d_timeout_ms = 1000, d_minimum_assertions = 1, d_control = ControlNone,
     d_control_source = None, d_baseline = MustPass, d_flake = RejectAnyFailure\<rparr>"

definition sample_contract :: Contract where
  "sample_contract = \<lparr>c_request = ''fix it'', c_outcome = ''fixed'', c_scope = ''all'',
     c_requirements = [sample_requirement ''a'' []], c_checks = [(''unit'', sample_check)],
     c_protected_behavior = [], c_assumptions = [], c_open_questions = [], c_delivery = Patch,
     c_limits = Limits_default\<rparr>"

definition sample_evidence :: Evidence where
  "sample_evidence = \<lparr>ev_job_id = Uuid 7, ev_generation = 1, ev_check = ''unit'',
     ev_identity = evidence_identity (Digest [4]) sample_candidate (Digest [8]) sample_check,
     ev_started_ms = 1001, ev_finished_ms = 1002,
     ev_observation = \<lparr>ob_status = CheckPassed, ob_report = Digest [9], ob_assertions = 3,
       ob_discovered = Some 3, ob_skipped = 0, ob_exit_code = Some 0, ob_signal = None,
       ob_control = None, ob_baseline_unchanged = False, ob_limitations = [],
       ob_unreconciled_jobs = []\<rparr>\<rparr>"

definition sample_done :: TaskState where
  "sample_done = (created (TaskId (Uuid 1)) sample_contract 1000)
     \<lparr>t_candidate := Some sample_candidate, t_evidence := [sample_evidence],
      t_delivery := Some \<lparr>dl_kind = Patch, dl_source = Digest [1], dl_artifact = Digest [3],
        dl_receipt = Digest [5]\<rparr>\<rparr>"

definition sample_failed :: TaskState where
  "sample_failed = sample_done\<lparr>t_evidence :=
     [sample_evidence\<lparr>ev_observation := (ev_observation sample_evidence)\<lparr>ob_status := CheckFailed\<rparr>\<rparr>,
      sample_evidence]\<rparr>"

definition sample_cd :: "Contract \<Rightarrow> string + digest" where
  "sample_cd c = Inr (Digest [4])"

definition sample_kd :: "CheckDefinition \<Rightarrow> string + digest" where
  "sample_kd d = Inr (Digest [8])"

theorem certificate_contents_witness:
  "\<exists>cert. evaluate sample_cd sample_kd sample_done 2000 = Inr cert \<and>
     bt_get (cert_evidence cert) ''unit'' = Some (Uuid 7) \<and>
     (\<exists>c cand dl d. completable sample_cd sample_kd sample_done 2000 c cand dl d \<and>
        cert = certificate_of sample_done cand dl d (cert_evidence cert))"
proof -
  have e: "evaluate sample_cd sample_kd sample_done 2000 = Inr (sample_certificate
      \<lparr>cert_generation := 1, cert_evaluated_revision := 1, cert_evidence := [(''unit'', Uuid 7)]\<rparr>)"
    by code_simp
  from certificate_contents [OF e] e show ?thesis
    by (auto simp: bt_get_def)
qed


end
