(* ===== verification/Artifacts.thy ===== *)
theory Artifacts
  imports Digests
begin

text \<open>
  The content-addressed artifact store (\<^verbatim>\<open>artifacts.rs\<close>): files named by the digest of their content
  in one directory. The type \<open>'b\<close> of byte strings, the hash and the length are parameters; disk faults
  are outside the model, so the only I/O error is that of a missing file.
\<close>

section \<open>The store\<close>

record 'b hashing =
  sha :: "'b \<Rightarrow> digest"
  blen :: "'b \<Rightarrow> nat"

datatype 'b node = RegularFile 'b | OtherFile

datatype ArtifactError =
    ArtifactIo
  | ArtifactLimit u64
  | ArtifactIntegrity digest
  | ArtifactUnsafePath string
  | ArtifactLock

record 'b ArtifactStore =
  as_files :: "string \<Rightarrow> 'b node option"
  as_max :: u64

definition artifact_path :: "digest \<Rightarrow> string" where
  "artifact_path d = digest_to_string d"

definition try_exists :: "'b ArtifactStore \<Rightarrow> digest \<Rightarrow> bool" where
  "try_exists st d = (as_files st (artifact_path d) \<noteq> None)"

definition read_artifact ::
    "('b, 'z) hashing_scheme \<Rightarrow> 'b ArtifactStore \<Rightarrow> digest \<Rightarrow> ArtifactError + 'b" where
  "read_artifact h st d =
     (case as_files st (artifact_path d) of
        None \<Rightarrow> Inl ArtifactIo
      | Some OtherFile \<Rightarrow> Inl (ArtifactUnsafePath (artifact_path d))
      | Some (RegularFile bytes) \<Rightarrow>
          if blen h bytes > unat (as_max st) then Inl (ArtifactLimit (as_max st))
          else if sha h bytes \<noteq> d then Inl (ArtifactIntegrity d)
          else Inr bytes)"

definition put_unchecked ::
    "('b, 'z) hashing_scheme \<Rightarrow> 'b ArtifactStore \<Rightarrow> digest \<Rightarrow> 'b \<Rightarrow> ArtifactError + 'b ArtifactStore" where
  "put_unchecked h st d bytes =
     (if sha h bytes \<noteq> d then Inl (ArtifactIntegrity d)
      else if try_exists st d then and_then (read_artifact h st d) (\<lambda>_. Inr st)
      else Inr (st\<lparr>as_files := (as_files st)(artifact_path d \<mapsto> RegularFile bytes)\<rparr>))"

text \<open>
  \<open>put\<close> between two moments: \<open>st\<close> is the directory at the first existence test and \<open>st'\<close> the
  directory once the lock is held, where another writer may have added files.
\<close>

definition put_racing ::
    "('b, 'z) hashing_scheme \<Rightarrow> 'b ArtifactStore \<Rightarrow> 'b ArtifactStore \<Rightarrow> 'b \<Rightarrow>
     ArtifactError + digest \<times> 'b ArtifactStore" where
  "put_racing h st st' bytes =
     (if blen h bytes > unat (as_max st) then Inl (ArtifactLimit (as_max st)) else
      let d = sha h bytes in
      if try_exists st d then and_then (read_artifact h st d) (\<lambda>_. Inr (d, st))
      else if try_exists st' d then and_then (read_artifact h st' d) (\<lambda>_. Inr (d, st'))
      else and_then (put_unchecked h st' d bytes) (\<lambda>st''. Inr (d, st'')))"

definition put_artifact ::
    "('b, 'z) hashing_scheme \<Rightarrow> 'b ArtifactStore \<Rightarrow> 'b \<Rightarrow> ArtifactError + digest \<times> 'b ArtifactStore" where
  "put_artifact h st bytes = put_racing h st st bytes"

datatype PublicArtifactRef = PublicArtifactRef (public_digest: digest)

definition write_public ::
    "('b, 'z) hashing_scheme \<Rightarrow> 'b ArtifactStore \<Rightarrow> 'b \<Rightarrow>
     ArtifactError + PublicArtifactRef \<times> 'b ArtifactStore" where
  "write_public h st bytes =
     and_then (put_artifact h st bytes) (\<lambda>(d, st'). Inr (PublicArtifactRef d, st'))"

definition resolve_public ::
    "('b, 'z) hashing_scheme \<Rightarrow> 'b ArtifactStore \<Rightarrow> PublicArtifactRef \<Rightarrow> ArtifactError + 'b" where
  "resolve_public h st r = read_artifact h st (public_digest r)"

text \<open>The download cache holds one verified artifact; a miss evicts it before the read.\<close>

type_synonym 'b DownloadCache = "(digest \<times> 'b) option"

definition cache_read ::
    "('b, 'z) hashing_scheme \<Rightarrow> 'b DownloadCache \<Rightarrow> 'b ArtifactStore \<Rightarrow> digest \<Rightarrow>
     (ArtifactError + 'b) \<times> 'b DownloadCache" where
  "cache_read h cache st d =
     (case cache of
        Some (cached, bytes) \<Rightarrow>
          if cached = d then (Inr bytes, cache)
          else (case read_artifact h st d of
                  Inl e \<Rightarrow> (Inl e, None) | Inr b \<Rightarrow> (Inr b, Some (d, b)))
      | None \<Rightarrow> (case read_artifact h st d of
                  Inl e \<Rightarrow> (Inl e, None) | Inr b \<Rightarrow> (Inr b, Some (d, b))))"

section \<open>The content-store contract\<close>

text \<open>What the journal and the snapshot code rely on.\<close>

locale content_store =
  fixes hash :: "'b \<Rightarrow> digest"
    and fetch :: "'s \<Rightarrow> digest \<Rightarrow> 'e + 'b"
    and keep :: "'s \<Rightarrow> 'b \<Rightarrow> 'e + digest \<times> 's"
  assumes fetch_hash: "fetch s d = Inr b \<Longrightarrow> hash b = d"
    and keep_digest: "keep s b = Inr (d, s') \<Longrightarrow> d = hash b"
    and keep_fetch: "keep s b = Inr (d, s') \<Longrightarrow> \<exists>c. fetch s' d = Inr c"
    and keep_keeps: "keep s b = Inr (d, s') \<Longrightarrow> fetch s e = Inr c \<Longrightarrow> fetch s' e = Inr c"
begin

definition keep_all :: "'s \<Rightarrow> 'b list \<Rightarrow> 'e + 's" where
  "keep_all = try_fold (\<lambda>s b. and_then (keep s b) (\<lambda>(_, s'). Inr s'))"

lemma keep_all_keeps: "keep_all s bs = Inr s' \<Longrightarrow> fetch s d = Inr c \<Longrightarrow> fetch s' d = Inr c"
  unfolding keep_all_def
  by (erule try_fold_invariant [where P = "\<lambda>s. fetch s d = Inr c"])
    (auto simp: result_simps intro: keep_keeps)

lemma keep_all_fetch:
  "keep_all s bs = Inr s' \<Longrightarrow> b \<in> set bs \<Longrightarrow> \<exists>c. fetch s' (hash b) = Inr c \<and> hash c = hash b"
proof (induction bs arbitrary: s)
  case Nil
  then show ?case by simp
next
  case (Cons a bs)
  then obtain d s1 where keep: "keep s a = Inr (d, s1)" and rest: "keep_all s1 bs = Inr s'"
    by (auto simp: keep_all_def result_simps)
  show ?case
  proof (cases "b = a")
    case True
    with keep_fetch [OF keep] keep_digest [OF keep] rest show ?thesis
      by (metis keep_all_keeps fetch_hash)
  next
    case False
    with Cons.IH [OF rest] Cons.prems(2) show ?thesis by simp
  qed
qed

text \<open>Where the stored bytes do not collide with the new ones, what is read is what was written.\<close>

lemma keep_round_trip:
  assumes "keep s b = Inr (d, s')" and "\<And>c. hash c = hash b \<Longrightarrow> c = b"
  shows "fetch s' d = Inr b"
  using keep_fetch [OF assms(1)] keep_digest [OF assms(1)] fetch_hash assms(2) by metis

end

section \<open>The store satisfies the contract\<close>

lemma read_artifact_Inr:
  "read_artifact h st d = Inr b \<longleftrightarrow>
     as_files st (artifact_path d) = Some (RegularFile b) \<and> blen h b \<le> unat (as_max st) \<and> sha h b = d"
  by (auto simp: read_artifact_def split: option.splits node.splits)

lemma put_racing_Inr:
  assumes "put_racing h st st' b = Inr (d, st'')" and "as_max st' = as_max st"
  shows "d = sha h b" and "blen h b \<le> unat (as_max st)" and "\<exists>c. read_artifact h st'' d = Inr c"
    and "as_max st'' = as_max st"
    and "st'' = st \<or> st'' = st' \<or>
      as_files st' (artifact_path d) = None \<and>
      st'' = st'\<lparr>as_files := (as_files st')(artifact_path d \<mapsto> RegularFile b)\<rparr>"
  using assms
  by (auto simp: put_racing_def put_unchecked_def try_exists_def Let_def result_simps read_artifact_Inr
      split: if_splits)

lemma put_artifact_Inr:
  assumes "put_artifact h st b = Inr (d, st')"
  shows "d = sha h b" and "blen h b \<le> unat (as_max st)" and "\<exists>c. read_artifact h st' d = Inr c"
    and "as_max st' = as_max st"
    and "st' = st \<or> as_files st (artifact_path d) = None \<and>
      st' = st\<lparr>as_files := (as_files st)(artifact_path d \<mapsto> RegularFile b)\<rparr>"
  using put_racing_Inr [of h st st b d st'] assms by (auto simp: put_artifact_def)

lemma put_artifact_keeps:
  assumes "put_artifact h st b = Inr (d, st')" and "read_artifact h st e = Inr c"
  shows "read_artifact h st' e = Inr c"
proof -
  from put_artifact_Inr(5) [OF assms(1)] assms(2) show ?thesis
    by (auto simp: read_artifact_Inr)
qed

interpretation artifacts: content_store "sha h" "read_artifact h" "put_artifact h"
proof
  fix s :: "'a ArtifactStore" and d b
  assume "read_artifact h s d = Inr b"
  then show "sha h b = d"
    by (simp add: read_artifact_Inr)
next
  fix s b d and s' :: "'a ArtifactStore"
  assume put: "put_artifact h s b = Inr (d, s')"
  show "d = sha h b" and "\<exists>c. read_artifact h s' d = Inr c"
    by (rule put_artifact_Inr [OF put])+
  show "read_artifact h s e = Inr c \<Longrightarrow> read_artifact h s' e = Inr c" for e c
    by (rule put_artifact_keeps [OF put])
qed

text \<open>A put whose digest names no file, or a readable one, succeeds.\<close>

lemma put_artifact_total:
  assumes "blen h b \<le> unat (as_max st)"
    and "as_files st (artifact_path (sha h b)) = None \<or> (\<exists>c. read_artifact h st (sha h b) = Inr c)"
  shows "\<exists>st'. put_artifact h st b = Inr (sha h b, st')"
  using assms
  by (auto simp: put_artifact_def put_racing_def put_unchecked_def try_exists_def Let_def not_less)

lemma cache_read_sound:
  assumes "cache_read h cache st d = (r, cache')"
    and "\<And>e b. cache = Some (e, b) \<Longrightarrow> sha h b = e"
  shows "cache' = Some (e, b) \<Longrightarrow> sha h b = e"
    and "r = Inr b \<Longrightarrow> sha h b = d \<and> cache' = Some (d, b)"
  using assms by (auto simp: cache_read_def read_artifact_Inr split: option.splits if_splits sum.splits)

section \<open>Properties\<close>

text \<open>
  Storing bytes succeeds when they fit and their file is absent or intact; the store then returns
  bytes of the same digest, the bytes themselves unless the hash collides, and everything readable
  before stays readable with the same content.
\<close>

theorem artifact_put_read:
  assumes "blen h b \<le> unat (as_max st)"
    and "as_files st (artifact_path (sha h b)) = None \<or> (\<exists>c. read_artifact h st (sha h b) = Inr c)"
  shows "\<exists>st'. put_artifact h st b = Inr (sha h b, st') \<and>
    (\<exists>c. read_artifact h st' (sha h b) = Inr c \<and> sha h c = sha h b) \<and>
    ((\<forall>c. sha h c = sha h b \<longrightarrow> c = b) \<longrightarrow> read_artifact h st' (sha h b) = Inr b) \<and>
    (\<forall>e c. read_artifact h st e = Inr c \<longrightarrow> read_artifact h st' e = Inr c)"
proof -
  from put_artifact_total [OF assms] obtain st' where put: "put_artifact h st b = Inr (sha h b, st')"
    by blast
  moreover have "\<exists>c. read_artifact h st' (sha h b) = Inr c \<and> sha h c = sha h b"
    using artifacts.keep_fetch [OF put] by (auto simp: read_artifact_Inr)
  moreover have "(\<forall>c. sha h c = sha h b \<longrightarrow> c = b) \<longrightarrow> read_artifact h st' (sha h b) = Inr b"
    using artifacts.keep_round_trip [OF put] by blast
  moreover have "\<forall>e c. read_artifact h st e = Inr c \<longrightarrow> read_artifact h st' e = Inr c"
    using artifacts.keep_keeps [OF put] by blast
  ultimately show ?thesis
    by blast
qed

text \<open>
  Whatever happened to the files, bytes that a read returns, directly or through the download
  cache, have the requested digest, and a failed read leaves the cache empty.
\<close>

theorem artifact_reads_are_verified:
  assumes "\<And>e b. cache = Some (e, b) \<Longrightarrow> sha h b = e"
    and "cache_read h cache st d = (r, cache')"
  shows "(\<forall>b. read_artifact h st d = Inr b \<longrightarrow> sha h b = d) \<and>
    (\<forall>b. r = Inr b \<longrightarrow> sha h b = d \<and> cache' = Some (d, b)) \<and>
    (\<forall>e. r = Inl e \<longrightarrow> cache' = None \<and> read_artifact h st d = Inl e) \<and>
    (\<forall>e b. cache' = Some (e, b) \<longrightarrow> sha h b = e)"
  using assms
  by (auto simp: cache_read_def read_artifact_Inr split: option.splits if_splits sum.splits)

subsection \<open>Witnesses\<close>

definition sample_hashing :: "string hashing" where
  "sample_hashing = \<lparr>sha = (\<lambda>s. Digest (map (of_nat \<circ> byte_of) s)), blen = length\<rparr>"

definition sample_store :: "string ArtifactStore" where
  "sample_store = \<lparr>as_files = (\<lambda>_. None), as_max = 16\<rparr>"

theorem artifact_put_read_witness:
  "\<exists>st'. put_artifact sample_hashing sample_store ''ab'' = Inr (Digest [97, 98], st') \<and>
     (\<exists>c. read_artifact sample_hashing st' (Digest [97, 98]) = Inr c)"
  using artifact_put_read [of sample_hashing "''ab''" sample_store]
  by (auto simp: sample_hashing_def sample_store_def byte_of_def)

theorem artifact_reads_are_verified_witness:
  "fst (cache_read sample_hashing None
     (sample_store\<lparr>as_files := [''6162'' \<mapsto> RegularFile ''ab'']\<rparr>) (Digest [97, 98])) = Inr ''ab'' \<and>
   sha sample_hashing ''ab'' = Digest [97, 98]"
proof -
  let ?st = "sample_store\<lparr>as_files := [''6162'' \<mapsto> RegularFile ''ab'']\<rparr>"
  have "cache_read sample_hashing None ?st (Digest [97, 98]) =
      (Inr ''ab'', Some (Digest [97, 98], ''ab''))"
    by code_simp
  from artifact_reads_are_verified [OF _ this] this show ?thesis
    by simp
qed

end
