(* ===== verification/Paths.thy ===== *)
theory Paths
  imports Prelude
begin

text \<open>
  The part of \<open>std::path\<close> the workspace code uses, on Unix, over UTF-8 strings: splitting a path
  into components, its parent and its proper ancestors, and joining normal components.
  Parents are needed for relative paths only.
\<close>

fun split_on :: "char \<Rightarrow> string \<Rightarrow> string list" where
  "split_on c [] = [[]]"
| "split_on c (x # s) =
     (if x = c then [] # split_on c s
      else (case split_on c s of [] \<Rightarrow> [[x]] | p # ps \<Rightarrow> (x # p) # ps))"

fun join_with :: "char \<Rightarrow> string list \<Rightarrow> string" where
  "join_with c [] = []"
| "join_with c [p] = p"
| "join_with c (p # q # ps) = p @ c # join_with c (q # ps)"

datatype Component = RootDir | CurDir | ParentDir | Normal string

abbreviation slash :: char where
  "slash \<equiv> CHR 0x2F"

definition segments :: "string \<Rightarrow> string list" where
  "segments s = split_on slash s"

definition has_root :: "string \<Rightarrow> bool" where
  "has_root s = (case s of [] \<Rightarrow> False | c # _ \<Rightarrow> c = slash)"

text \<open>Segments after the first: empty segments and \<open>.\<close> are skipped.\<close>

definition later_component :: "string \<Rightarrow> Component list" where
  "later_component p =
     (if p = [] \<or> p = ''.'' then [] else if p = ''..'' then [ParentDir] else [Normal p])"

definition first_component :: "string \<Rightarrow> Component list" where
  "first_component p =
     (if p = [] then [] else if p = ''.'' then [CurDir] else if p = ''..'' then [ParentDir] else [Normal p])"

definition components :: "string \<Rightarrow> Component list" where
  "components s =
     (if has_root s then [RootDir] else []) @
     (case segments s of [] \<Rightarrow> [] | p # ps \<Rightarrow> first_component p @ concat (map later_component ps))"

fun component_str :: "Component \<Rightarrow> string" where
  "component_str RootDir = ''/''"
| "component_str CurDir = ''.''"
| "component_str ParentDir = ''..''"
| "component_str (Normal p) = p"

definition is_normal :: "Component \<Rightarrow> bool" where
  "is_normal p = (case p of Normal _ \<Rightarrow> True | _ \<Rightarrow> False)"

text \<open>
  \<open>Path::parent\<close> of a relative path: drop the last component, then the separators and the
  \<open>.\<close> segments that end what is left.
\<close>

definition skipped :: "string \<Rightarrow> bool" where
  "skipped p = (p = [] \<or> p = ''.'')"

fun trim_segments :: "string list \<Rightarrow> string list" where
  "trim_segments [] = []"
| "trim_segments (p # ps) = p # rev (dropWhile skipped (rev ps))"

definition path_parent :: "string \<Rightarrow> string option" where
  "path_parent s =
     (if components s = [] then None
      else Some (join_with slash (trim_segments (butlast (trim_segments (segments s))))))"

text \<open>\<open>path.ancestors().skip(1)\<close>; the length of the path bounds their number.\<close>

fun ancestors_from :: "nat \<Rightarrow> string \<Rightarrow> string list" where
  "ancestors_from 0 s = []"
| "ancestors_from (Suc n) s =
     (case path_parent s of None \<Rightarrow> [] | Some p \<Rightarrow> p # ancestors_from n p)"

definition proper_ancestors :: "string \<Rightarrow> string list" where
  "proper_ancestors s = filter (\<lambda>p. p \<noteq> []) (ancestors_from (length s) s)"

definition safe_relative :: "string \<Rightarrow> bool" where
  "safe_relative s = (s \<noteq> [] \<and> list_all is_normal (components s))"

section \<open>Splitting and joining\<close>

lemma split_on_nonempty [simp]: "split_on c s \<noteq> []"
  by (induction s) (auto split: list.splits)

lemma join_split: "join_with c (split_on c s) = s"
proof (induction s)
  case Nil
  then show ?case by simp
next
  case (Cons x s)
  obtain p ps where "split_on c s = p # ps"
    using split_on_nonempty by (metis list.exhaust)
  with Cons show ?case
    by (cases ps) auto
qed

lemma split_on_no_sep: "c \<notin> set p \<Longrightarrow> split_on c p = [p]"
  by (induction p) auto

lemma split_on_segments: "p \<in> set (split_on c s) \<Longrightarrow> c \<notin> set p"
proof (induction s arbitrary: p)
  case Nil
  then show ?case by simp
next
  case (Cons x s)
  obtain q qs where q: "split_on c s = q # qs"
    using split_on_nonempty by (metis list.exhaust)
  with Cons show ?case
    by (auto split: if_splits)
qed

lemma split_on_append:
  "c \<notin> set p \<Longrightarrow> split_on c (p @ c # s) = p # split_on c s"
  by (induction p) auto

lemma split_join:
  assumes "ps \<noteq> []" and "\<And>p. p \<in> set ps \<Longrightarrow> c \<notin> set p"
  shows "split_on c (join_with c ps) = ps"
  using assms
proof (induction c ps rule: join_with.induct)
  case (1 c)
  then show ?case by simp
next
  case (2 c p)
  then show ?case by (simp add: split_on_no_sep)
next
  case (3 c p q ps)
  then show ?case by (simp add: split_on_append)
qed

lemma length_join_butlast_less:
  "ps \<noteq> [] \<Longrightarrow> ps \<noteq> [[]] \<Longrightarrow> length (join_with c (butlast ps)) < length (join_with c ps)"
proof (induction c ps rule: join_with.induct)
  case (3 c p q ps)
  then show ?case
    by (cases ps) auto
qed auto

section \<open>Parents and ancestors\<close>

lemma dropWhile_rev_prefix: "\<exists>ys. ps = rev (dropWhile P (rev ps)) @ ys"
proof -
  have "rev ps = takeWhile P (rev ps) @ dropWhile P (rev ps)"
    by simp
  then have "ps = rev (dropWhile P (rev ps)) @ rev (takeWhile P (rev ps))"
    by (metis rev_append rev_rev_ident)
  then show ?thesis by blast
qed

lemma trim_segments_prefix: "\<exists>ys. ss = trim_segments ss @ ys"
proof (cases ss)
  case (Cons p ps)
  then show ?thesis using dropWhile_rev_prefix [of ps skipped] by simp
qed simp

lemma length_join_append: "length (join_with c xs) \<le> length (join_with c (xs @ ys))"
proof (induction c xs rule: join_with.induct)
  case (2 c p)
  then show ?case by (cases ys) auto
qed auto

lemma length_join_trim: "length (join_with c (trim_segments ss)) \<le> length (join_with c ss)"
  using trim_segments_prefix [of ss] length_join_append by metis

text \<open>A parent is shorter, so the length of a path bounds the number of its ancestors.\<close>

lemma path_parent_shorter:
  assumes "path_parent s = Some p"
  shows "length p < length s"
proof -
  let ?ts = "trim_segments (segments s)"
  have s: "join_with slash (segments s) = s"
    by (simp add: segments_def join_split)
  from assms have "s \<noteq> []"
    by (auto simp: path_parent_def components_def segments_def has_root_def first_component_def)
  have "length (join_with slash (butlast ?ts)) < length s"
  proof (cases "?ts = [] \<or> ?ts = [[]]")
    case True
    then show ?thesis using \<open>s \<noteq> []\<close> by auto
  next
    case False
    then have "length (join_with slash (butlast ?ts)) < length (join_with slash ?ts)"
      by (intro length_join_butlast_less) auto
    also have "\<dots> \<le> length s"
      using length_join_trim [of slash "segments s"] by (simp add: s)
    finally show ?thesis .
  qed
  moreover have "p = join_with slash (trim_segments (butlast ?ts))"
    using assms by (auto simp: path_parent_def split: if_splits)
  ultimately show ?thesis
    using length_join_trim [of slash "butlast ?ts"] by simp
qed

lemma ancestors_enough_fuel: "length s \<le> n \<Longrightarrow> ancestors_from n s = ancestors_from (length s) s"
proof (induction s arbitrary: n rule: length_induct)
  case (1 s)
  show ?case
  proof (cases "path_parent s")
    case None
    then show ?thesis by (cases n; cases "length s") auto
  next
    case (Some p)
    then have "length p < length s"
      by (rule path_parent_shorter)
    moreover from this 1(2) obtain m k where "n = Suc m" "length s = Suc k"
      by (metis Suc_le_D less_imp_Suc_add)
    moreover from calculation 1(2) have "length p \<le> m" "length p \<le> k"
      by simp_all
    ultimately show ?thesis
      using Some 1(1) by (metis ancestors_from.simps(2) option.simps(5))
  qed
qed

section \<open>Normal components\<close>

definition normal_name :: "string \<Rightarrow> bool" where
  "normal_name p \<longleftrightarrow> p \<noteq> [] \<and> slash \<notin> set p \<and> p \<noteq> ''.'' \<and> p \<noteq> ''..''"

lemma Normal_first: "Normal p \<in> set (first_component q) \<Longrightarrow> p = q \<and> q \<notin> {[], ''.'', ''..''}"
  by (auto simp: first_component_def split: if_splits)

lemma Normal_later: "Normal p \<in> set (later_component q) \<Longrightarrow> p = q \<and> q \<notin> {[], ''.'', ''..''}"
  by (auto simp: later_component_def split: if_splits)

lemma component_normal_name:
  assumes "Normal p \<in> set (components s)"
  shows "normal_name p"
proof -
  obtain q qs where seg: "segments s = q # qs"
    using split_on_nonempty unfolding segments_def by (metis list.exhaust)
  with assms have "Normal p \<in> set (first_component q) \<or> (\<exists>x \<in> set qs. Normal p \<in> set (later_component x))"
    by (auto simp: components_def split: if_splits)
  then have "p \<in> set (segments s) \<and> p \<notin> {[], ''.'', ''..''}"
    using seg Normal_first Normal_later by fastforce
  then show ?thesis
    using split_on_segments [of p slash s] by (simp add: normal_name_def segments_def)
qed

lemma first_component_normal: "normal_name p \<Longrightarrow> first_component p = [Normal p]"
  by (simp add: first_component_def normal_name_def)

lemma later_component_normal: "normal_name p \<Longrightarrow> later_component p = [Normal p]"
  by (simp add: later_component_def normal_name_def)

lemma components_join:
  assumes "\<And>p. p \<in> set ps \<Longrightarrow> normal_name p"
  shows "components (join_with slash ps) = map Normal ps"
proof (cases ps)
  case Nil
  then show ?thesis
    by (simp add: components_def segments_def has_root_def first_component_def)
next
  case (Cons q qs)
  have "segments (join_with slash ps) = ps"
    unfolding segments_def using Cons assms by (intro split_join) (auto simp: normal_name_def)
  moreover have "\<not> has_root (join_with slash ps)"
    using assms [of q] Cons
    by (cases qs; cases q) (auto simp: has_root_def normal_name_def)
  moreover have "concat (map later_component qs) = map Normal qs"
    using assms Cons by (induction qs arbitrary: ps) (auto simp: later_component_normal)
  ultimately show ?thesis
    using Cons assms [of q] by (simp add: components_def first_component_normal)
qed

lemma join_nonempty: "ps \<noteq> [] \<Longrightarrow> hd ps \<noteq> [] \<Longrightarrow> join_with c ps \<noteq> []"
  by (cases "(c, ps)" rule: join_with.cases) auto

lemma safe_relative_join:
  assumes "ps \<noteq> []" and "\<And>p. p \<in> set ps \<Longrightarrow> normal_name p"
  shows "safe_relative (join_with slash ps)"
proof -
  have "join_with slash ps \<noteq> []"
    using assms by (intro join_nonempty) (auto simp: normal_name_def)
  then show ?thesis
    using assms(2) by (auto simp: safe_relative_def components_join list_all_iff is_normal_def)
qed

text \<open>The parent of a path whose components are normal has normal components only.\<close>

lemma components_Cons:
  assumes "p \<noteq> []" and "\<And>q. q \<in> set (p # ps) \<Longrightarrow> slash \<notin> set q"
  shows "components (join_with slash (p # ps)) = first_component p @ concat (map later_component ps)"
proof -
  have "segments (join_with slash (p # ps)) = p # ps"
    unfolding segments_def using assms(2) by (intro split_join) auto
  moreover have "\<not> has_root (join_with slash (p # ps))"
    using assms(1) assms(2) [of p] by (cases ps; cases p) (auto simp: has_root_def)
  ultimately show ?thesis
    by (simp add: components_def)
qed

lemma safe_relative_segments:
  assumes "safe_relative s"
  obtains p ps where "segments s = p # ps" and "p \<noteq> []" and "list_all is_normal (first_component p)"
    and "\<And>q. q \<in> set ps \<Longrightarrow> list_all is_normal (later_component q)"
    and "\<And>q. q \<in> set (p # ps) \<Longrightarrow> slash \<notin> set q"
proof -
  obtain p ps where seg: "segments s = p # ps"
    using split_on_nonempty unfolding segments_def by (metis list.exhaust)
  from assms have "s \<noteq> []" and "\<not> has_root s"
    and comps: "list_all is_normal (first_component p @ concat (map later_component ps))"
    by (auto simp: safe_relative_def components_def seg is_normal_def split: if_splits)
  have "p \<noteq> []"
  proof
    assume "p = []"
    with seg \<open>s \<noteq> []\<close> \<open>\<not> has_root s\<close> show False
      by (cases s) (auto simp: segments_def has_root_def split: list.splits if_splits)
  qed
  moreover have "list_all is_normal (first_component p)"
    and "\<And>q. q \<in> set ps \<Longrightarrow> list_all is_normal (later_component q)"
    using comps by (auto simp: list_all_iff)
  moreover have "\<And>q. q \<in> set (p # ps) \<Longrightarrow> slash \<notin> set q"
    using split_on_segments [of _ slash s] seg by (simp add: segments_def)
  ultimately show thesis
    using that seg by blast
qed

lemma set_trim_segments: "set (trim_segments ss) \<subseteq> set ss"
  using trim_segments_prefix [of ss] by (metis le_sup_iff set_append subset_refl)

lemma parent_components_normal:
  assumes "safe_relative s" and "path_parent s = Some q"
  shows "list_all is_normal (components q)"
proof -
  from assms(1) obtain p ps where seg: "segments s = p # ps" and p: "p \<noteq> []"
    "list_all is_normal (first_component p)"
    and ps: "\<And>x. x \<in> set ps \<Longrightarrow> list_all is_normal (later_component x)"
    and sl: "\<And>x. x \<in> set (p # ps) \<Longrightarrow> slash \<notin> set x"
    by (rule safe_relative_segments) blast
  define us where "us = rev (dropWhile skipped (rev ps))"
  define rs where "rs = rev (dropWhile skipped (rev (butlast us)))"
  have us: "set us \<subseteq> set ps"
    unfolding us_def by (auto dest: set_dropWhileD)
  have rs: "set rs \<subseteq> set ps"
    using us unfolding rs_def by (auto dest!: set_dropWhileD in_set_butlastD)
  have q: "q = join_with slash (trim_segments (butlast (p # us)))"
    using assms(2) unfolding path_parent_def seg us_def trim_segments.simps
    by (metis option.distinct(1) option.inject)
  show ?thesis
  proof (cases "us = []")
    case True
    with q show ?thesis
      by (simp add: components_def segments_def has_root_def first_component_def)
  next
    case False
    with q have "q = join_with slash (p # rs)"
      by (simp add: rs_def)
    moreover have "components (join_with slash (p # rs)) = first_component p @ concat (map later_component rs)"
      using p sl rs by (intro components_Cons) auto
    ultimately show ?thesis
      using p ps rs by (auto simp: list_all_iff)
  qed
qed

lemma normal_components_str:
  assumes "list_all is_normal (components s)" and "x \<in> set (components s)"
  shows "normal_name (component_str x)"
  using assms component_normal_name [of _ s] by (cases x) (auto simp: list_all_iff is_normal_def)

end
