(* ===== verification/Workspaces.thy ===== *)
theory Workspaces
  imports Artifacts Paths
begin

text \<open>
  Workspace snapshots (\<^verbatim>\<open>workspace.rs\<close>): validation, symbolic links, publication in the artifact
  store; and the three-way merge of snapshots (\<^verbatim>\<open>workspace/reconcile.rs\<close>). Reading and writing real
  directories is outside the model.
\<close>

section \<open>Data\<close>

record SnapshotPolicy =
  sp_excluded_roots :: "string list"
  sp_max_files :: u64
  sp_max_bytes :: u64

definition SnapshotPolicy_default :: SnapshotPolicy where
  "SnapshotPolicy_default =
     \<lparr>sp_excluded_roots = [''.git'', ''.orvek'', ''.Trash'', ''target'', ''node_modules'', ''.venv'',
        ''.terraform'', ''.env''],
      sp_max_files = 100000, sp_max_bytes = 256 * 1024 * 1024\<rparr>"

datatype Entry = File digest u32 | Directory u32 | Symlink string

record Snapshot =
  sn_version :: u32
  sn_policy :: SnapshotPolicy
  sn_entries :: "(string, Entry) btreemap"

datatype WorkspaceError =
    ReconcilePolicy
  | ReconcileConflict "string list" bool
  | WorkspaceArtifact ArtifactError
  | WorkspaceJson string
  | UnsafePath string
  | WorkspaceLimit
  | ConcurrentChange
  | Destination string
  | WorkspaceVersion

section \<open>Links and validation\<close>

text \<open>\<open>PathBuf::push\<close>, the step of collecting components into a path.\<close>

definition path_push :: "string \<Rightarrow> string \<Rightarrow> string" where
  "path_push buf p =
     (if has_root p then p
      else if buf = [] \<or> last buf = slash then buf @ p
      else buf @ slash # p)"

fun follow :: "string \<Rightarrow> string list \<Rightarrow> Component list \<Rightarrow> WorkspaceError + string list" where
  "follow path parts [] = Inr parts"
| "follow path parts (Normal name # ps) = follow path (parts @ [name]) ps"
| "follow path parts (ParentDir # ps) =
     (if parts \<noteq> [] then follow path (butlast parts) ps else Inl (UnsafePath path))"
| "follow path parts (CurDir # ps) = follow path parts ps"
| "follow path parts (RootDir # ps) = Inl (UnsafePath path)"

definition resolve_link :: "string \<Rightarrow> string \<Rightarrow> WorkspaceError + string" where
  "resolve_link path target =
     (let parent = (case path_parent path of None \<Rightarrow> [] | Some p \<Rightarrow> p) in
      and_then (follow path (map component_str (components parent)) (components target))
        (\<lambda>parts. let resolved = foldl path_push [] parts in
           if resolved = [] then Inl (UnsafePath path) else Inr resolved))"

definition is_directory :: "(string, Entry) btreemap \<Rightarrow> string \<Rightarrow> bool" where
  "is_directory entries p =
     (case bt_get entries p of Some (Directory _) \<Rightarrow> True | _ \<Rightarrow> False)"

definition link_target_ok :: "(string, Entry) btreemap \<Rightarrow> string \<Rightarrow> bool" where
  "link_target_ok entries p =
     (case bt_get entries p of Some (File _ _) \<Rightarrow> True | Some (Directory _) \<Rightarrow> True | _ \<Rightarrow> False)"

definition validate_entry ::
    "(string, Entry) btreemap \<Rightarrow> string \<times> Entry \<Rightarrow> WorkspaceError + unit" where
  "validate_entry entries ne =
     (let name = fst ne in
      if \<not> safe_relative name then Inl (UnsafePath name)
      else if \<not> list_all (is_directory entries) (proper_ancestors name) then Inl (UnsafePath name)
      else (case snd ne of
          Symlink target \<Rightarrow>
            and_then (resolve_link name target) (\<lambda>resolved.
              if \<not> link_target_ok entries resolved
                 \<or> list_ex (\<lambda>p. \<not> is_directory entries p) (proper_ancestors resolved)
              then Inl (UnsafePath name) else Inr ())
        | _ \<Rightarrow> Inr ()))"

definition snapshot_validate :: "Snapshot \<Rightarrow> WorkspaceError + unit" where
  "snapshot_validate s =
     (if sn_version s \<noteq> 1 then Inl WorkspaceVersion
      else if sp_max_files (sn_policy s) = 0 \<or> sp_max_bytes (sn_policy s) = 0
          \<or> length (sn_entries s) > unat (sp_max_files (sn_policy s))
      then Inl WorkspaceLimit
      else try_each (validate_entry (sn_entries s)) (sn_entries s))"

section \<open>Artifacts of a snapshot\<close>

definition add_entry_bytes ::
    "('b, 'z) hashing_scheme \<Rightarrow> 'b ArtifactStore \<Rightarrow> u64 \<Rightarrow> u64 \<Rightarrow> Entry \<Rightarrow> WorkspaceError + u64" where
  "add_entry_bytes h st max_bytes acc entry =
     (case entry of
        File content _ \<Rightarrow>
          and_then (map_err WorkspaceArtifact (read_artifact h st content)) (\<lambda>bytes.
            let acc' = saturating_add acc (of_nat (blen h bytes)) in
            if acc' > max_bytes then Inl WorkspaceLimit else Inr acc')
      | _ \<Rightarrow> Inr acc)"

definition verify_artifacts ::
    "('b, 'z) hashing_scheme \<Rightarrow> 'b ArtifactStore \<Rightarrow> Snapshot \<Rightarrow> WorkspaceError + unit" where
  "verify_artifacts h st s =
     and_then (snapshot_validate s) (\<lambda>_.
     and_then (try_fold (add_entry_bytes h st (sp_max_bytes (sn_policy s))) 0 (bt_values (sn_entries s)))
       (\<lambda>_. Inr ()))"

definition snapshot_publish ::
    "('b, 'z) hashing_scheme \<Rightarrow> (Snapshot \<Rightarrow> string + 'b) \<Rightarrow> 'b ArtifactStore \<Rightarrow> Snapshot \<Rightarrow>
     WorkspaceError + digest \<times> 'b ArtifactStore" where
  "snapshot_publish h to_vec st s =
     and_then (snapshot_validate s) (\<lambda>_.
     and_then (map_err WorkspaceJson (to_vec s)) (\<lambda>bytes.
     map_err WorkspaceArtifact (put_artifact h st bytes)))"

definition snapshot_load ::
    "('b, 'z) hashing_scheme \<Rightarrow> ('b \<Rightarrow> string + Snapshot) \<Rightarrow> 'b ArtifactStore \<Rightarrow> digest \<Rightarrow>
     WorkspaceError + Snapshot" where
  "snapshot_load h from_slice st d =
     and_then (map_err WorkspaceArtifact (read_artifact h st d)) (\<lambda>bytes.
     and_then (map_err WorkspaceJson (from_slice bytes)) (\<lambda>s.
     and_then (snapshot_validate s) (\<lambda>_. Inr s)))"

definition changed_paths :: "Snapshot \<Rightarrow> Snapshot \<Rightarrow> string list" where
  "changed_paths a b =
     filter (\<lambda>p. bt_get (sn_entries a) p \<noteq> bt_get (sn_entries b) p)
       (remdups_adj (sort (bt_keys (sn_entries a) @ bt_keys (sn_entries b))))"

section \<open>Three-way merge\<close>

definition MAX_CONFLICT_PATHS :: nat where
  "MAX_CONFLICT_PATHS = 64"

definition merge_value :: "'t \<Rightarrow> 't \<Rightarrow> 't \<Rightarrow> unit + 't" where
  "merge_value base left right =
     (if left = right \<or> right = base then Inr left
      else if left = base then Inr right
      else Inl ())"

definition merge_entry :: "Entry option \<Rightarrow> Entry option \<Rightarrow> Entry option \<Rightarrow> unit + Entry option" where
  "merge_entry base left right =
     (if left = right then Inr left
      else if left = base then Inr right
      else if right = base then Inr left
      else case (base, left, right) of
        (Some (File bc bm), Some (File lc lm), Some (File rc rm)) \<Rightarrow>
          and_then (merge_value bc lc rc) (\<lambda>c. and_then (merge_value bm lm rm) (\<lambda>m. Inr (Some (File c m))))
      | _ \<Rightarrow> Inl ())"

record Conflicts =
  cf_paths :: "string btreeset"
  cf_truncated :: bool

definition no_conflicts :: Conflicts where
  "no_conflicts = \<lparr>cf_paths = [], cf_truncated = False\<rparr>"

definition add_conflict :: "string \<Rightarrow> Conflicts \<Rightarrow> Conflicts" where
  "add_conflict path c =
     (if length (cf_paths c) < MAX_CONFLICT_PATHS then c\<lparr>cf_paths := bs_insert path (cf_paths c)\<rparr>
      else if path \<notin> set (cf_paths c) then c\<lparr>cf_truncated := True\<rparr>
      else c)"

definition finish_conflicts :: "Conflicts \<Rightarrow> WorkspaceError + unit" where
  "finish_conflicts c =
     (if cf_paths c = [] then Inr () else Inl (ReconcileConflict (cf_paths c) (cf_truncated c)))"

definition reconcile_validate_entry :: "string \<times> Entry \<Rightarrow> WorkspaceError + unit" where
  "reconcile_validate_entry ne =
     (let path = fst ne in
      if length path > 4096 \<or> CHR 0x00 \<in> set path
         \<or> list_ex (\<lambda>part. part = [] \<or> part = ''.'' \<or> part = ''..'') (segments path)
      then Inl (UnsafePath path)
      else (case snd ne of
          File _ mode \<Rightarrow> if mode > 4095 then Inl (UnsafePath path) else Inr ()
        | Directory mode \<Rightarrow> if mode > 4095 then Inl (UnsafePath path) else Inr ()
        | Symlink target \<Rightarrow>
            if target = [] \<or> length target > 4096 \<or> CHR 0x00 \<in> set target
            then Inl (UnsafePath path) else Inr ()))"

definition reconcile_validate :: "Snapshot \<Rightarrow> WorkspaceError + unit" where
  "reconcile_validate s =
     (if sp_max_files (sn_policy s) = 0 \<or> sp_max_bytes (sn_policy s) = 0 then Inl WorkspaceLimit else
      and_then (try_each (\<lambda>excluded.
          if length excluded > 4096 \<or> length (components excluded) \<noteq> 1 \<or> \<not> safe_relative excluded
          then Inl (UnsafePath excluded) else Inr ()) (sp_excluded_roots (sn_policy s))) (\<lambda>_.
      and_then (try_each reconcile_validate_entry (sn_entries s)) (\<lambda>_.
      snapshot_validate s)))"

definition merge_path ::
    "Snapshot \<Rightarrow> Snapshot \<Rightarrow> Snapshot \<Rightarrow> (string, Entry) btreemap \<times> Conflicts \<Rightarrow> string \<Rightarrow>
     (string, Entry) btreemap \<times> Conflicts" where
  "merge_path origin private user ec path =
     (case merge_entry (bt_get (sn_entries origin) path) (bt_get (sn_entries private) path)
             (bt_get (sn_entries user) path) of
        Inr (Some entry) \<Rightarrow> (bt_insert path entry (fst ec), snd ec)
      | Inr None \<Rightarrow> ec
      | Inl _ \<Rightarrow> (fst ec, add_conflict path (snd ec)))"

definition structure_conflicts ::
    "(string, Entry) btreemap \<Rightarrow> Conflicts \<Rightarrow> string \<times> Entry \<Rightarrow> WorkspaceError + Conflicts" where
  "structure_conflicts entries c pe =
     (let path = fst pe;
          c1 = foldl (\<lambda>c parent. if is_directory entries parent then c
                 else add_conflict parent (add_conflict path c)) c (proper_ancestors path)
      in case snd pe of
           Symlink target \<Rightarrow>
             and_then (resolve_link path target) (\<lambda>resolved.
               if link_target_ok entries resolved then Inr c1
               else Inr (add_conflict resolved (add_conflict path c1)))
         | _ \<Rightarrow> Inr c1)"

definition merge_paths :: "Snapshot \<Rightarrow> Snapshot \<Rightarrow> Snapshot \<Rightarrow> string btreeset" where
  "merge_paths origin private user =
     bs_collect (bt_keys (sn_entries origin) @ bt_keys (sn_entries private) @ bt_keys (sn_entries user))"

definition reconcile :: "Snapshot \<Rightarrow> Snapshot \<Rightarrow> Snapshot \<Rightarrow> WorkspaceError + Snapshot" where
  "reconcile origin private user =
     and_then (try_each reconcile_validate [origin, private, user]) (\<lambda>_.
     if sn_policy origin \<noteq> sn_policy private \<or> sn_policy origin \<noteq> sn_policy user
     then Inl ReconcilePolicy else
     let (entries, conflicts) =
           foldl (merge_path origin private user) ([], no_conflicts) (merge_paths origin private user)
     in and_then (finish_conflicts conflicts) (\<lambda>_.
        if length entries > unat (sp_max_files (sn_policy origin)) then Inl WorkspaceLimit else
        and_then (try_fold (structure_conflicts entries) no_conflicts entries) (\<lambda>conflicts2.
        and_then (finish_conflicts conflicts2) (\<lambda>_.
        let result = \<lparr>sn_version = sn_version origin, sn_policy = sn_policy origin, sn_entries = entries\<rparr>
        in and_then (snapshot_validate result) (\<lambda>_. Inr result)))))"

section \<open>Merging entries\<close>

lemma merge_value_sym: "merge_value b l r = merge_value b r l"
  by (auto simp: merge_value_def)

lemma merge_value_cases:
  "merge_value b l r = Inr v \<longleftrightarrow> (l = r \<and> v = l) \<or> (r = b \<and> v = l) \<or> (l = b \<and> v = r)"
  by (auto simp: merge_value_def)

lemma merge_entry_sym: "merge_entry b l r = merge_entry b r l"
  by (auto simp: merge_entry_def merge_value_sym split: option.splits Entry.splits)

lemma merge_entry_same [simp]: "merge_entry b l l = Inr l"
  by (simp add: merge_entry_def)

lemma merge_entry_base [simp]: "merge_entry b b r = Inr r" "merge_entry b l b = Inr l"
  by (simp_all add: merge_entry_def)

lemma merge_path_sym: "merge_path b l r = merge_path b r l"
  by (simp add: merge_path_def merge_entry_sym fun_eq_iff)

lemma merge_paths_sym: "merge_paths b l r = merge_paths b r l"
  by (rule bs_eqI) (auto simp: merge_paths_def bs_ok_collect)

subsection \<open>Conflict sets\<close>

text \<open>
  Whatever paths are reported, at most sixty-four of them are kept, none is invented, an empty report
  means that nothing was added, and the flag says exactly whether a path was left out.
\<close>

definition conflicts_of :: "string set \<Rightarrow> Conflicts \<Rightarrow> bool" where
  "conflicts_of P c \<longleftrightarrow>
     finite P \<and> bs_ok (cf_paths c) \<and> set (cf_paths c) \<subseteq> P \<and> length (cf_paths c) \<le> MAX_CONFLICT_PATHS \<and>
     (cf_truncated c \<longleftrightarrow> MAX_CONFLICT_PATHS < card P) \<and>
     (card P \<le> MAX_CONFLICT_PATHS \<longrightarrow> set (cf_paths c) = P) \<and>
     (MAX_CONFLICT_PATHS < card P \<longrightarrow> length (cf_paths c) = MAX_CONFLICT_PATHS)"

lemma conflicts_of_none: "conflicts_of {} no_conflicts"
  by (simp add: conflicts_of_def no_conflicts_def)

lemma conflicts_of_add:
  assumes "conflicts_of P c"
  shows "conflicts_of (insert p P) (add_conflict p c)"
proof -
  from assms have fin: "finite P" and ok: "bs_ok (cf_paths c)" and sub: "set (cf_paths c) \<subseteq> P"
    and tr: "cf_truncated c \<longleftrightarrow> MAX_CONFLICT_PATHS < card P"
    and small: "card P \<le> MAX_CONFLICT_PATHS \<Longrightarrow> set (cf_paths c) = P"
    and large: "MAX_CONFLICT_PATHS < card P \<Longrightarrow> length (cf_paths c) = MAX_CONFLICT_PATHS"
    and bound: "length (cf_paths c) \<le> MAX_CONFLICT_PATHS"
    by (auto simp: conflicts_of_def)
  have len: "length (cf_paths c) = card (set (cf_paths c))"
    by (rule bs_ok_length [OF ok])
  show ?thesis
  proof (cases "length (cf_paths c) < MAX_CONFLICT_PATHS")
    case True
    with large have "card P \<le> MAX_CONFLICT_PATHS" by fastforce
    with small have eq: "set (cf_paths c) = P" by simp
    with True len fin ok tr show ?thesis
      by (auto simp: conflicts_of_def add_conflict_def bs_ok_insert length_bs_insert card_insert_if)
  next
    case False
    with bound have full: "length (cf_paths c) = MAX_CONFLICT_PATHS" by simp
    have "card P \<ge> MAX_CONFLICT_PATHS"
      using full len card_mono [OF fin sub] by simp
    with full fin ok sub tr small len show ?thesis
      by (auto simp: conflicts_of_def add_conflict_def card_insert_if)
  qed
qed

lemma conflicts_of_empty: "conflicts_of P c \<Longrightarrow> cf_paths c = [] \<longleftrightarrow> P = {}"
  by (auto simp: conflicts_of_def MAX_CONFLICT_PATHS_def)

subsection \<open>The merge loop\<close>

definition merged_at :: "Snapshot \<Rightarrow> Snapshot \<Rightarrow> Snapshot \<Rightarrow> string \<Rightarrow> unit + Entry option" where
  "merged_at origin private user k =
     merge_entry (bt_get (sn_entries origin) k) (bt_get (sn_entries private) k)
       (bt_get (sn_entries user) k)"

definition conflicting :: "Snapshot \<Rightarrow> Snapshot \<Rightarrow> Snapshot \<Rightarrow> string set" where
  "conflicting origin private user = {k. merged_at origin private user k = Inl ()}"

lemma merge_path_conflicts:
  assumes "conflicts_of P (snd ec)"
  shows "conflicts_of (P \<union> (if merged_at b l r k = Inl () then {k} else {})) (snd (merge_path b l r ec k))"
  using assms conflicts_of_add [OF assms, of k]
  by (auto simp: merge_path_def merged_at_def split: sum.splits option.splits)

lemma merge_path_entries:
  "bt_get (fst (merge_path b l r ec k)) j =
     (case merged_at b l r k of Inr (Some e) \<Rightarrow> if j = k then Some e else bt_get (fst ec) j
      | _ \<Rightarrow> bt_get (fst ec) j)"
  "bt_ok (fst ec) \<Longrightarrow> bt_ok (fst (merge_path b l r ec k))"
  by (auto simp: merge_path_def merged_at_def bt_get_insert bt_ok_insert split: sum.splits option.splits)

lemma merge_loop_conflicts:
  "conflicts_of P (snd ec) \<Longrightarrow>
     conflicts_of (P \<union> (set ks \<inter> conflicting b l r)) (snd (foldl (merge_path b l r) ec ks))"
proof (induction ks arbitrary: P ec)
  case Nil
  then show ?case by simp
next
  case (Cons k ks)
  let ?P = "P \<union> (if merged_at b l r k = Inl () then {k} else {})"
  have "?P \<union> (set ks \<inter> conflicting b l r) = P \<union> (set (k # ks) \<inter> conflicting b l r)"
    by (auto simp: conflicting_def)
  then show ?case
    using Cons.IH [OF merge_path_conflicts [OF Cons.prems, where b = b and l = l and r = r and k = k]]
    by simp
qed

lemma merge_loop_ok: "bt_ok (fst ec) \<Longrightarrow> bt_ok (fst (foldl (merge_path b l r) ec ks))"
  by (induction ks arbitrary: ec) (simp_all add: merge_path_entries)

lemma merge_loop_entries:
  "bt_get (fst (foldl (merge_path b l r) ec ks)) j =
     (case merged_at b l r j of
        Inr (Some e) \<Rightarrow> if j \<in> set ks then Some e else bt_get (fst ec) j
      | _ \<Rightarrow> bt_get (fst ec) j)"
proof (induction ks arbitrary: ec)
  case Nil
  then show ?case by (auto split: sum.splits option.splits)
next
  case (Cons k ks)
  show ?case
    unfolding foldl.simps Cons.IH merge_path_entries
    by (cases "merged_at b l r j"; cases "merged_at b l r k") (auto split: option.splits)
qed

definition merge_result ::
    "Snapshot \<Rightarrow> Snapshot \<Rightarrow> Snapshot \<Rightarrow> (string, Entry) btreemap \<times> Conflicts" where
  "merge_result b l r = foldl (merge_path b l r) ([], no_conflicts) (merge_paths b l r)"

lemma conflicting_in_paths: "conflicting b l r \<subseteq> set (merge_paths b l r)"
proof
  fix k
  assume "k \<in> conflicting b l r"
  then have "bt_get (sn_entries b) k \<noteq> None \<or> bt_get (sn_entries l) k \<noteq> None \<or> bt_get (sn_entries r) k \<noteq> None"
    by (auto simp: conflicting_def merged_at_def)
  then show "k \<in> set (merge_paths b l r)"
    using set_keys_bt [of "sn_entries b"] set_keys_bt [of "sn_entries l"] set_keys_bt [of "sn_entries r"]
    by (auto simp: merge_paths_def bt_keys_def)
qed

lemma merge_result_conflicts: "conflicts_of (conflicting b l r) (snd (merge_result b l r))"
  using merge_loop_conflicts [of "{}" "([], no_conflicts)" "merge_paths b l r" b l r]
    conflicting_in_paths [of b l r] conflicts_of_none
  by (simp add: merge_result_def Int_absorb1)

lemma merge_result_ok: "bt_ok (fst (merge_result b l r))"
  by (simp add: merge_result_def merge_loop_ok)

lemma merge_result_get:
  assumes "conflicting b l r = {}"
  shows "merged_at b l r k = Inr (bt_get (fst (merge_result b l r)) k)"
proof (cases "k \<in> set (merge_paths b l r)")
  case True
  from assms obtain x where "merged_at b l r k = Inr x"
    by (cases "merged_at b l r k") (auto simp: conflicting_def)
  with True show ?thesis
    by (cases x) (simp_all add: merge_result_def merge_loop_entries)
next
  case False
  then have "bt_get (sn_entries b) k = None" "bt_get (sn_entries l) k = None" "bt_get (sn_entries r) k = None"
    using set_keys_bt [of "sn_entries b"] set_keys_bt [of "sn_entries l"] set_keys_bt [of "sn_entries r"]
    by (auto simp: merge_paths_def bt_keys_def)
  then have "merged_at b l r k = Inr None"
    by (simp add: merged_at_def)
  then show ?thesis
    by (simp add: merge_result_def merge_loop_entries)
qed

lemma merge_result_sym: "merge_result b l r = merge_result b r l"
  by (simp add: merge_result_def merge_path_sym [of b l r] merge_paths_sym [of b l r])

lemma reconcile_unfold:
  "reconcile b l r =
     and_then (try_each reconcile_validate [b, l, r]) (\<lambda>_.
     if sn_policy b \<noteq> sn_policy l \<or> sn_policy b \<noteq> sn_policy r then Inl ReconcilePolicy else
     let entries = fst (merge_result b l r) in
     and_then (finish_conflicts (snd (merge_result b l r))) (\<lambda>_.
     if length entries > unat (sp_max_files (sn_policy b)) then Inl WorkspaceLimit else
     and_then (try_fold (structure_conflicts entries) no_conflicts entries) (\<lambda>conflicts2.
     and_then (finish_conflicts conflicts2) (\<lambda>_.
     let result = \<lparr>sn_version = sn_version b, sn_policy = sn_policy b, sn_entries = entries\<rparr>
     in and_then (snapshot_validate result) (\<lambda>_. Inr result)))))"
  by (simp add: reconcile_def merge_result_def Let_def case_prod_beta)

lemma finish_conflicts_Inr:
  "conflicts_of P c \<Longrightarrow> finish_conflicts c = Inr () \<longleftrightarrow> P = {}"
  by (simp add: finish_conflicts_def conflicts_of_empty)

text \<open>A valid tree raises no structural conflict.\<close>

lemma structure_conflicts_valid:
  assumes "validate_entry entries pe = Inr ()"
  shows "structure_conflicts entries c pe = Inr c"
proof -
  have "foldl (\<lambda>c parent. if is_directory entries parent then c
          else add_conflict parent (add_conflict (fst pe) c)) c ps = c"
    if "list_all (is_directory entries) ps" for ps c
    using that by (induction ps) auto
  with assms show ?thesis
    by (auto simp: structure_conflicts_def validate_entry_def Let_def result_simps
        split: Entry.splits if_splits)
qed

lemma structure_fold_valid:
  "\<forall>pe \<in> set es. validate_entry entries pe = Inr () \<Longrightarrow>
     try_fold (structure_conflicts entries) c es = Inr c"
  by (induction es) (simp_all add: structure_conflicts_valid)

lemma snapshot_validate_entries:
  "snapshot_validate s = Inr () \<Longrightarrow> sn_version s = 1 \<and>
     length (sn_entries s) \<le> unat (sp_max_files (sn_policy s)) \<and>
     (\<forall>pe \<in> set (sn_entries s). validate_entry (sn_entries s) pe = Inr ())"
  by (auto simp: snapshot_validate_def try_each_Inr_iff split: if_splits)

lemma reconcile_validate_snapshot: "reconcile_validate s = Inr () \<Longrightarrow> snapshot_validate s = Inr ()"
  by (auto simp: reconcile_validate_def result_simps split: if_splits)

lemma merge_result_snapshot:
  assumes "bt_ok (sn_entries s)" and "\<And>k. merged_at b l r k = Inr (bt_get (sn_entries s) k)"
  shows "merge_result b l r = (sn_entries s, no_conflicts)"
proof -
  have none: "conflicting b l r = {}"
    using assms(2) by (simp add: conflicting_def)
  have "fst (merge_result b l r) = sn_entries s"
    using assms merge_result_get [OF none] by (intro bt_eqI) (simp_all add: merge_result_ok)
  moreover have "snd (merge_result b l r) = no_conflicts"
    using merge_result_conflicts [of b l r] none
    by (auto simp: conflicts_of_def no_conflicts_def)
  ultimately show ?thesis
    by (metis prod.collapse)
qed

lemma reconcile_to:
  assumes "\<forall>s \<in> {b, l, r, t}. reconcile_validate s = Inr ()"
    and "sn_policy l = sn_policy b" and "sn_policy r = sn_policy b" and "sn_policy t = sn_policy b"
    and "bt_ok (sn_entries t)" and "\<And>k. merged_at b l r k = Inr (bt_get (sn_entries t) k)"
  shows "reconcile b l r = Inr t"
proof -
  have t: "snapshot_validate t = Inr ()" and "snapshot_validate b = Inr ()"
    using assms(1) by (simp_all add: reconcile_validate_snapshot)
  then have "sn_version b = sn_version t"
    by (simp add: snapshot_validate_entries)
  then have "t = \<lparr>sn_version = sn_version b, sn_policy = sn_policy b, sn_entries = sn_entries t\<rparr>"
    using assms(4) by simp
  then show ?thesis
    using assms(1-4) t snapshot_validate_entries [OF t]
    by (simp add: reconcile_unfold merge_result_snapshot [OF assms(5,6)] structure_fold_valid
        finish_conflicts_def no_conflicts_def)
qed

section \<open>Links stay inside the workspace\<close>

lemma follow_normal:
  "follow path parts ps = Inr parts' \<Longrightarrow> (\<forall>p \<in> set parts. normal_name p) \<Longrightarrow>
     (\<forall>p. Normal p \<in> set ps \<longrightarrow> normal_name p) \<Longrightarrow> (\<forall>p \<in> set parts'. normal_name p)"
  by (induction path parts ps rule: follow.induct) (auto split: if_splits dest: in_set_butlastD)

lemma foldl_path_push:
  "(\<forall>p \<in> set ps. normal_name p) \<Longrightarrow> qs \<noteq> [] \<Longrightarrow> (\<forall>p \<in> set qs. normal_name p) \<Longrightarrow>
     foldl path_push (join_with slash qs) ps = join_with slash (qs @ ps)"
proof (induction ps arbitrary: qs)
  case Nil
  then show ?case by simp
next
  case (Cons p ps)
  have last: "join_with slash xs \<noteq> [] \<and> last (join_with slash xs) \<noteq> slash"
    if "xs \<noteq> []" "\<forall>p \<in> set xs. normal_name p" for xs
    using that
  proof (induction slash xs rule: join_with.induct)
    case (2 p)
    then show ?case
      by (metis join_with.simps(2) last_in_set list.set_intros(1) normal_name_def)
  qed auto
  have "\<not> has_root p"
    using Cons.prems(1) by (cases p) (auto simp: has_root_def normal_name_def)
  then have "path_push (join_with slash qs) p = join_with slash qs @ slash # p"
    using last [of qs] Cons.prems by (simp add: path_push_def)
  also have "\<dots> = join_with slash (qs @ [p])"
    using Cons.prems(2) by (induction slash qs rule: join_with.induct) auto
  finally show ?case
    using Cons.IH [of "qs @ [p]"] Cons.prems by simp
qed

lemma collect_parts:
  assumes "\<forall>p \<in> set ps. normal_name p"
  shows "foldl path_push [] ps = join_with slash ps"
proof (cases ps)
  case (Cons q qs)
  moreover from this assms have "path_push [] q = join_with slash [q]"
    by (simp add: path_push_def)
  ultimately show ?thesis
    using foldl_path_push [of qs "[q]"] assms by simp
qed simp

lemma resolve_link_safe:
  assumes "safe_relative path" and "resolve_link path target = Inr resolved"
  shows "safe_relative resolved"
proof -
  let ?parent = "case path_parent path of None \<Rightarrow> [] | Some p \<Rightarrow> p"
  from assms(2) obtain parts where f: "follow path (map component_str (components ?parent)) (components target) = Inr parts"
    and r: "resolved = foldl path_push [] parts" "resolved \<noteq> []"
    by (auto simp: resolve_link_def Let_def result_simps split: if_splits)
  have "list_all is_normal (components ?parent)"
    using parent_components_normal [OF assms(1)]
    by (cases "path_parent path")
      (simp_all add: components_def segments_def has_root_def first_component_def)
  then have "\<forall>p \<in> set (map component_str (components ?parent)). normal_name p"
    by (auto dest: normal_components_str)
  then have normal: "\<forall>p \<in> set parts. normal_name p"
    using follow_normal [OF f] component_normal_name by blast
  then show ?thesis
    using r collect_parts [OF normal] safe_relative_join [of parts] by (cases parts) auto
qed

section \<open>Properties\<close>

text \<open>
  C39: the merge of an accepted reconciliation is a valid snapshot under the same policy in which every
  path carries the three-way merge of its entries, so a change made on one side only is kept.
\<close>

theorem reconcile_keeps_changes:
  assumes "reconcile origin private user = Inr result"
  shows "snapshot_validate result = Inr () \<and> sn_policy result = sn_policy origin \<and>
    (\<forall>path. merge_entry (bt_get (sn_entries origin) path) (bt_get (sn_entries private) path)
       (bt_get (sn_entries user) path) = Inr (bt_get (sn_entries result) path)) \<and>
    (\<forall>path. bt_get (sn_entries user) path = bt_get (sn_entries origin) path \<longrightarrow>
       bt_get (sn_entries result) path = bt_get (sn_entries private) path) \<and>
    (\<forall>path. bt_get (sn_entries private) path = bt_get (sn_entries origin) path \<longrightarrow>
       bt_get (sn_entries result) path = bt_get (sn_entries user) path)"
proof -
  from assms have fin: "finish_conflicts (snd (merge_result origin private user)) = Inr ()"
    and v: "snapshot_validate result = Inr ()" and p: "sn_policy result = sn_policy origin"
    and e: "sn_entries result = fst (merge_result origin private user)"
    by (auto simp: reconcile_unfold Let_def result_simps split: if_splits)
  from fin have none: "conflicting origin private user = {}"
    using finish_conflicts_Inr [OF merge_result_conflicts] by blast
  then have all: "merge_entry (bt_get (sn_entries origin) path) (bt_get (sn_entries private) path)
      (bt_get (sn_entries user) path) = Inr (bt_get (sn_entries result) path)" for path
    using merge_result_get [OF none, of path] by (simp add: e merged_at_def)
  from v p all show ?thesis
    by (metis merge_entry_base Inr_inject)
qed

text \<open>
  Among valid snapshots the merge does not depend on which side is called private and which is the
  user's.
\<close>

theorem reconcile_symmetric:
  assumes "reconcile_validate private = Inr ()" and "reconcile_validate user = Inr ()"
  shows "reconcile origin private user = reconcile origin user private"
proof -
  have "try_each reconcile_validate [origin, private, user] = try_each reconcile_validate [origin, user, private]"
    using assms by simp
  then show ?thesis
    unfolding reconcile_unfold merge_result_sym [of origin "private" user] by auto
qed

text \<open>
  when one side made no change, or both made the same changes, the merge succeeds and returns the
  other side's snapshot unchanged.
\<close>

theorem reconcile_fast_forward:
  assumes "reconcile_validate origin = Inr ()" and "reconcile_validate s = Inr ()"
    and "sn_policy s = sn_policy origin" and "bt_ok (sn_entries s)"
  shows "reconcile origin origin s = Inr s \<and> reconcile origin s origin = Inr s \<and>
    reconcile origin s s = Inr s"
  using assms by (auto intro!: reconcile_to simp: merged_at_def)

text \<open>
  Valid snapshots under one policy whose entries collide are refused with a report of colliding
  paths only, at most sixty-four of them, complete unless it is marked truncated, and it is marked
  truncated exactly when more than sixty-four paths collide.
\<close>

theorem reconcile_reports_conflicts:
  assumes "\<forall>s \<in> {origin, private, user}. reconcile_validate s = Inr () \<and> sn_policy s = sn_policy origin"
    and "conflicting origin private user \<noteq> {}"
  shows "\<exists>paths truncated. reconcile origin private user = Inl (ReconcileConflict paths truncated) \<and>
    paths \<noteq> [] \<and> distinct paths \<and> sorted paths \<and> length paths \<le> 64 \<and>
    set paths \<subseteq> conflicting origin private user \<and>
    (truncated \<longleftrightarrow> 64 < card (conflicting origin private user)) \<and>
    (\<not> truncated \<longrightarrow> set paths = conflicting origin private user)"
proof -
  let ?c = "snd (merge_result origin private user)"
  have c: "conflicts_of (conflicting origin private user) ?c"
    by (rule merge_result_conflicts)
  then have ne: "cf_paths ?c \<noteq> []"
    using assms(2) conflicts_of_empty by blast
  have "reconcile origin private user = Inl (ReconcileConflict (cf_paths ?c) (cf_truncated ?c))"
    using assms(1) ne by (simp add: reconcile_unfold finish_conflicts_def)
  with c ne show ?thesis
    by (intro exI [of _ "cf_paths ?c"] exI [of _ "cf_truncated ?c"])
      (auto simp: conflicts_of_def MAX_CONFLICT_PATHS_def bs_ok_iff)
qed

text \<open>
  In a valid snapshot every entry has a safe relative path below recorded directories, and every
  symbolic link resolves, without leaving the workspace, to a recorded file or directory that is itself
  reached through recorded directories only.
\<close>

theorem valid_links_stay_inside:
  assumes "snapshot_validate s = Inr ()" and "bt_get (sn_entries s) name = Some entry"
  shows "safe_relative name \<and> (\<forall>p \<in> set (proper_ancestors name). is_directory (sn_entries s) p) \<and>
    (\<forall>target. entry = Symlink target \<longrightarrow>
      (\<exists>resolved. resolve_link name target = Inr resolved \<and> safe_relative resolved \<and>
         link_target_ok (sn_entries s) resolved \<and>
         (\<forall>p \<in> set (proper_ancestors resolved). is_directory (sn_entries s) p)))"
proof -
  have valid: "validate_entry (sn_entries s) (name, entry) = Inr ()"
    using snapshot_validate_entries [OF assms(1)] bt_get_in_set [OF assms(2)] by blast
  then have safe: "safe_relative name"
    by (auto simp: validate_entry_def Let_def split: if_splits)
  from valid show ?thesis
  proof (cases entry)
    case (Symlink target)
    with valid obtain resolved where "resolve_link name target = Inr resolved"
      and "link_target_ok (sn_entries s) resolved"
      and "\<forall>p \<in> set (proper_ancestors resolved). is_directory (sn_entries s) p"
      and "\<forall>p \<in> set (proper_ancestors name). is_directory (sn_entries s) p"
      by (auto simp: validate_entry_def Let_def result_simps list_all_iff list_ex_iff split: if_splits)
    with Symlink safe resolve_link_safe [OF safe] show ?thesis
      by simp
  qed (auto simp: validate_entry_def Let_def list_all_iff split: if_splits)
qed

text \<open>
  a published snapshot can be loaded again and is the snapshot published, when the encoding of
  snapshots decodes to what was encoded and its digest does not collide.
\<close>

theorem snapshot_publish_load:
  assumes "snapshot_publish h to_vec st s = Inr (d, st')"
    and "\<And>x bytes. to_vec x = Inr bytes \<Longrightarrow> from_slice bytes = Inr x"
    and "\<And>bytes c. to_vec s = Inr bytes \<Longrightarrow> sha h c = sha h bytes \<Longrightarrow> c = bytes"
  shows "snapshot_load h from_slice st' d = Inr s"
proof -
  from assms(1) obtain bytes where v: "snapshot_validate s = Inr ()" and b: "to_vec s = Inr bytes"
    and put: "put_artifact h st bytes = Inr (d, st')"
    by (auto simp: snapshot_publish_def result_simps)
  have "read_artifact h st' d = Inr bytes"
    by (rule artifacts.keep_round_trip [OF put]) (rule assms(3) [OF b])
  then show ?thesis
    by (simp add: snapshot_load_def assms(2) [OF b] v)
qed

subsection \<open>Witnesses\<close>

definition sample_snapshot :: "(string, Entry) btreemap \<Rightarrow> Snapshot" where
  "sample_snapshot entries =
     \<lparr>sn_version = 1, sn_policy = SnapshotPolicy_default, sn_entries = entries\<rparr>"

definition sample_origin :: Snapshot where
  "sample_origin = sample_snapshot [(''a'', File (Digest [1]) 420), (''d'', Directory 493)]"

definition sample_private :: Snapshot where
  "sample_private = sample_snapshot [(''a'', File (Digest [2]) 420), (''d'', Directory 493)]"

definition sample_user :: Snapshot where
  "sample_user = sample_snapshot [(''a'', File (Digest [1]) 493), (''d'', Directory 493),
     (''d/l'', Symlink ''../a'')]"

definition sample_clash :: Snapshot where
  "sample_clash = sample_snapshot [(''a'', File (Digest [3]) 420), (''d'', Directory 493)]"

lemmas workspace_eval =
  sample_origin_def sample_private_def sample_user_def sample_clash_def sample_snapshot_def
  SnapshotPolicy_default_def reconcile_validate_def snapshot_validate_def validate_entry_def
  reconcile_validate_entry_def safe_relative_def components_def segments_def has_root_def
  first_component_def later_component_def is_normal_def proper_ancestors_def path_parent_def skipped_def
  is_directory_def link_target_ok_def resolve_link_def path_push_def bt_get_def Let_def

lemmas reconcile_eval =
  workspace_eval reconcile_def merge_paths_def bs_collect_def bs_insert_def bt_keys_def merge_path_def
  merge_entry_def merge_value_def no_conflicts_def finish_conflicts_def structure_conflicts_def
  add_conflict_def MAX_CONFLICT_PATHS_def merged_at_def

lemma sample_valid:
  "reconcile_validate sample_origin = Inr ()" "reconcile_validate sample_private = Inr ()"
  "reconcile_validate sample_user = Inr ()" "reconcile_validate sample_clash = Inr ()"
  by (simp_all add: workspace_eval)

theorem reconcile_keeps_changes_witness:
  "\<exists>result. reconcile sample_origin sample_private sample_user = Inr result \<and>
     bt_get (sn_entries result) ''a'' = Some (File (Digest [2]) 493) \<and>
     snapshot_validate result = Inr ()"
proof -
  have r: "reconcile sample_origin sample_private sample_user =
      Inr (sample_snapshot [(''a'', File (Digest [2]) 493), (''d'', Directory 493),
        (''d/l'', Symlink ''../a'')])"
    by (simp add: reconcile_eval)
  from reconcile_keeps_changes [OF r] r show ?thesis
    by (simp add: sample_snapshot_def bt_get_def)
qed

theorem reconcile_symmetric_witness:
  "reconcile sample_origin sample_private sample_user = reconcile sample_origin sample_user sample_private"
  by (rule reconcile_symmetric) (rule sample_valid)+

theorem reconcile_fast_forward_witness:
  "reconcile sample_origin sample_origin sample_user = Inr sample_user"
proof -
  have "bt_ok (sn_entries sample_user)" and "sn_policy sample_user = sn_policy sample_origin"
    by (simp_all add: workspace_eval bt_ok_def)
  then show ?thesis
    using reconcile_fast_forward [OF sample_valid(1,3)] by simp
qed

theorem reconcile_reports_conflicts_witness:
  "\<exists>paths. reconcile sample_origin sample_private sample_clash = Inl (ReconcileConflict paths False) \<and>
     paths \<noteq> [] \<and> set paths \<subseteq> conflicting sample_origin sample_private sample_clash"
proof -
  have r: "reconcile sample_origin sample_private sample_clash = Inl (ReconcileConflict [''a''] False)"
    by (simp add: reconcile_eval)
  have "merged_at sample_origin sample_private sample_clash ''a'' = Inl ()"
    by (simp add: reconcile_eval)
  then have "conflicting sample_origin sample_private sample_clash \<noteq> {}"
    by (auto simp: conflicting_def)
  moreover have "\<forall>s \<in> {sample_origin, sample_private, sample_clash}.
      reconcile_validate s = Inr () \<and> sn_policy s = sn_policy sample_origin"
    using sample_valid
    by (simp add: sample_origin_def sample_private_def sample_clash_def sample_snapshot_def)
  ultimately show ?thesis
    using reconcile_reports_conflicts [of sample_origin sample_private sample_clash] r by simp
qed

theorem valid_links_stay_inside_witness:
  "snapshot_validate sample_user = Inr () \<and> resolve_link ''d/l'' ''../a'' = Inr ''a'' \<and>
   safe_relative ''d/l'' \<and> is_directory (sn_entries sample_user) ''d''"
proof -
  have "snapshot_validate sample_user = Inr ()"
    "bt_get (sn_entries sample_user) ''d/l'' = Some (Symlink ''../a'')"
    "resolve_link ''d/l'' ''../a'' = Inr ''a''" "proper_ancestors ''d/l'' = [''d'']"
    by (simp_all add: workspace_eval)
  with valid_links_stay_inside [of sample_user "''d/l''" "Symlink ''../a''"] show ?thesis
    by simp
qed

theorem snapshot_publish_load_witness:
  "\<exists>d st'. snapshot_publish \<lparr>sha = (\<lambda>u :: unit. Digest []), blen = (\<lambda>_. 1)\<rparr>
       (\<lambda>s. if s = sample_user then Inr () else Inl ''other'') \<lparr>as_files = (\<lambda>_. None), as_max = 16\<rparr> sample_user
       = Inr (d, st') \<and>
     snapshot_load \<lparr>sha = (\<lambda>u :: unit. Digest []), blen = (\<lambda>_. 1)\<rparr> (\<lambda>_. Inr sample_user) st' d
       = Inr sample_user"
proof -
  let ?h = "\<lparr>sha = (\<lambda>u :: unit. Digest []), blen = (\<lambda>_. 1)\<rparr>"
  let ?to = "\<lambda>s. if s = sample_user then Inr () else Inl ''other''"
  have v: "snapshot_validate sample_user = Inr ()"
    by (rule reconcile_validate_snapshot) (rule sample_valid)
  have "\<exists>st'. put_artifact ?h \<lparr>as_files = (\<lambda>_. None), as_max = 16\<rparr> () = Inr (Digest [], st')"
    using put_artifact_total [of ?h "()" "\<lparr>as_files = (\<lambda>_. None), as_max = 16\<rparr>"] by simp
  then obtain st' where "snapshot_publish ?h ?to \<lparr>as_files = (\<lambda>_. None), as_max = 16\<rparr> sample_user
      = Inr (Digest [], st')"
    by (auto simp: snapshot_publish_def v)
  moreover from this have "snapshot_load ?h (\<lambda>_. Inr sample_user) st' (Digest []) = Inr sample_user"
    by (rule snapshot_publish_load) (auto split: if_splits)
  ultimately show ?thesis
    by blast
qed

end
