(* ===== verification/Store_Base.thy ===== *)
theory Store_Base
  imports Completion Workspaces
begin

text \<open>
  What the store components share: its error type (\<^verbatim>\<open>store.rs\<close>), JSON values as \<open>serde_json\<close>
  represents them, the encodings the store uses, patch receipts (\<^verbatim>\<open>delivery.rs\<close>) and the reading
  of user input artifacts (\<^verbatim>\<open>input.rs\<close>).
\<close>

section \<open>Errors\<close>

text \<open>\<open>Panicked\<close> stands for an \<open>unreachable!\<close> or \<open>expect\<close> that would abort.\<close>

datatype StoreError =
    ContractPending
  | StoreIo string
  | StoreSql string
  | StoreJson string
  | StoreArtifact ArtifactError
  | StoreContract ContractError
  | StoreSchema int
  | Missing TaskId
  | MissingSession SessionId
  | RevisionMismatch u64 u64
  | Terminal
  | StoreCancelled
  | Invalid string
  | Integrity string
  | LeaseInvalid
  | Budget
  | Incomplete "Rejection list"
  | Panicked

fun of_apply_error :: "ApplyError \<Rightarrow> StoreError" where
  "of_apply_error (ApplyJson m) = StoreJson m"
| "of_apply_error ApplyUnreachable = Panicked"

section \<open>JSON values\<close>

text \<open>Numbers are kept by their literal: no code here computes with them.\<close>

datatype json =
    JNull
  | JBool bool
  | JNumber string
  | JString string
  | JArray "json list"
  | JObject "(string \<times> json) list"

text \<open>\<open>value["key"]\<close> is null unless the value is an object that has the key.\<close>

definition json_index :: "json \<Rightarrow> string \<Rightarrow> json" where
  "json_index v k =
     (case v of JObject m \<Rightarrow> (case map_of m k of None \<Rightarrow> JNull | Some w \<Rightarrow> w) | _ \<Rightarrow> JNull)"

definition as_str :: "json \<Rightarrow> string option" where
  "as_str v = (case v of JString s \<Rightarrow> Some s | _ \<Rightarrow> None)"

definition as_array :: "json \<Rightarrow> json list option" where
  "as_array v = (case v of JArray xs \<Rightarrow> Some xs | _ \<Rightarrow> None)"

text \<open>\<open>serde_json::from_value::<Digest>\<close>: a string that parses as a digest.\<close>

definition digest_of_json :: "json \<Rightarrow> string + digest" where
  "digest_of_json v =
     (case v of JString s \<Rightarrow> digest_from_str s | _ \<Rightarrow> Inl ''invalid type: expected a string'')"

section \<open>Patch receipts\<close>

record GitIdentity =
  gi_executable :: string
  gi_executable_digest :: digest
  gi_version :: string

record GitCommandReceipt =
  gc_step :: string
  gc_arguments :: "string list"
  gc_stdin_digest :: digest
  gc_stdout_digest :: digest
  gc_stderr_digest :: digest
  gc_exit_code :: int
  gc_elapsed_ms :: u64
  gc_process_group_quiescent :: bool

record PatchValidationReceipt =
  pr_version :: u32
  pr_baseline :: digest
  pr_candidate :: digest
  pr_patch :: digest
  pr_applied_snapshot :: digest
  pr_observed_snapshot :: digest
  pr_git :: GitIdentity
  pr_commands :: "GitCommandReceipt list"
  pr_changed_paths :: "string list"
  pr_application :: string

section \<open>Encodings\<close>

text \<open>
  The JSON encodings of the values the store writes and reads, over the byte strings \<open>'b\<close>.
  \<open>link\<close> is the tuple that an event hash covers. \<open>codec_ok\<close> names what the store relies on: what was
  encoded decodes to itself, the hashed tuple is encoded injectively, and a digest has 32 bytes.
\<close>

type_synonym link = "string \<times> uuid \<times> u64 \<times> digest option \<times> digest"

record 'b codec = "'b hashing" +
  enc_event :: "TaskEvent \<Rightarrow> string + 'b"
  dec_event :: "'b \<Rightarrow> string + TaskEvent"
  enc_state :: "TaskState \<Rightarrow> string + 'b"
  dec_state :: "'b \<Rightarrow> string + TaskState"
  enc_contract :: "Contract \<Rightarrow> string + 'b"
  enc_check :: "CheckDefinition \<Rightarrow> string + 'b"
  enc_link :: "link \<Rightarrow> string + 'b"
  dec_snapshot :: "'b \<Rightarrow> string + Snapshot"
  dec_patch :: "'b \<Rightarrow> string + PatchValidationReceipt"
  dec_messages :: "'b \<Rightarrow> string + json list"

definition codec_ok :: "('b, 'z) codec_scheme \<Rightarrow> bool" where
  "codec_ok c \<longleftrightarrow>
     (\<forall>e b. enc_event c e = Inr b \<longrightarrow> dec_event c b = Inr e) \<and>
     (\<forall>s b. enc_state c s = Inr b \<longrightarrow> dec_state c b = Inr s) \<and>
     (\<forall>l l' b. enc_link c l = Inr b \<longrightarrow> enc_link c l' = Inr b \<longrightarrow> l = l') \<and>
     (\<forall>b. digest_ok (sha c b))"

definition contract_digest :: "('b, 'z) codec_scheme \<Rightarrow> Contract \<Rightarrow> string + digest" where
  "contract_digest c = of_value (enc_contract c) (sha c)"

definition check_digest :: "('b, 'z) codec_scheme \<Rightarrow> CheckDefinition \<Rightarrow> string + digest" where
  "check_digest c = of_value (enc_check c) (sha c)"

section \<open>User input\<close>

record PreparedInput =
  pi_text :: string
  pi_messages :: "json list"
  pi_artifact :: digest

definition load_input ::
    "('b, 'z) codec_scheme \<Rightarrow> 'b ArtifactStore \<Rightarrow> digest \<Rightarrow> StoreError + PreparedInput" where
  "load_input c st artifact =
     and_then (map_err StoreArtifact (read_artifact c st artifact)) (\<lambda>bytes.
     and_then (map_err StoreJson (dec_messages c bytes)) (\<lambda>messages.
     if length messages \<noteq> 1 \<or> json_index (messages ! 0) ''role'' \<noteq> JString ''user''
     then Inl (Integrity ''input artifact must contain one user message'') else
     and_then (ok_or (as_array (json_index (messages ! 0) ''content''))
         (Integrity ''input artifact has no content parts'')) (\<lambda>parts.
     if parts = [] \<or> list_ex (\<lambda>part. as_str (json_index part ''type'') \<notin>
          {Some ''input_text'', Some ''tact_image'', Some ''tact_review''}) parts
     then Inl (Integrity ''invalid input artifact content'') else
     Inr \<lparr>pi_text = concat (List.map_filter (\<lambda>part. as_str (json_index part ''text'')) parts),
          pi_messages = messages, pi_artifact = artifact\<rparr>)))"

definition part_references :: "json \<Rightarrow> string + digest list" where
  "part_references message =
     (case as_array (json_index message ''content'') of
        None \<Rightarrow> Inr []
      | Some parts \<Rightarrow>
          try_fold (\<lambda>refs part. and_then (digest_of_json (json_index part ''digest''))
              (\<lambda>d. Inr (refs @ [d]))) []
            (filter (\<lambda>part. json_index part ''type'' = JString ''tact_image''
                       \<or> json_index part ''type'' = JString ''tact_review'') parts))"

definition media_references :: "('b, 'z) codec_scheme \<Rightarrow> 'b \<Rightarrow> string + digest list" where
  "media_references c bytes =
     and_then (dec_messages c bytes) (\<lambda>messages.
       try_fold (\<lambda>refs message. and_then (part_references message) (\<lambda>ds. Inr (refs @ ds))) [] messages)"

end
