(* ===== verification/Artifact_Graph.thy ===== *)
theory Artifact_Graph
  imports Store_Base "HOL-Library.Multiset"
begin

text \<open>
  The artifact budget of a task (\<^verbatim>\<open>store.rs\<close>): which artifacts an event refers to, and the walk over
  the artifacts they reach, which must all be intact and fit the byte limit together.
\<close>

section \<open>References\<close>

datatype BlobKind = Opaque | SnapshotBlob | PatchReceipt | UserInput

fun kind_index :: "BlobKind \<Rightarrow> nat" where
  "kind_index Opaque = 0"
| "kind_index SnapshotBlob = 1"
| "kind_index PatchReceipt = 2"
| "kind_index UserInput = 3"

lemma kind_index_inj: "kind_index a = kind_index b \<Longrightarrow> a = b"
  by (cases a; cases b) simp_all

instantiation BlobKind :: linorder
begin

definition less_eq_BlobKind :: "BlobKind \<Rightarrow> BlobKind \<Rightarrow> bool" where
  "less_eq_BlobKind a b = (kind_index a \<le> kind_index b)"

definition less_BlobKind :: "BlobKind \<Rightarrow> BlobKind \<Rightarrow> bool" where
  "less_BlobKind a b = (kind_index a < kind_index b)"

instance
  by standard (auto simp: less_eq_BlobKind_def less_BlobKind_def intro: kind_index_inj)

end

type_synonym blob = "digest \<times> BlobKind"

definition extend_refs :: "blob list \<Rightarrow> blob btreeset \<Rightarrow> blob btreeset" where
  "extend_refs xs referenced = foldl (\<lambda>s x. bs_insert x s) referenced xs"

definition check_refs :: "CheckDefinition \<Rightarrow> blob list" where
  "check_refs check =
     [(d_verifier check, Opaque)] @
     (case d_control_source check of None \<Rightarrow> [] | Some source \<Rightarrow> [(source, SnapshotBlob)]) @
     (case d_baseline check of NoNewFailure report _ \<Rightarrow> [(report, Opaque)] | MustPass \<Rightarrow> [])"

definition contract_refs :: "Contract \<Rightarrow> blob list" where
  "contract_refs contract = concat (map check_refs (bt_values (c_checks contract)))"

definition candidate_refs :: "Candidate \<Rightarrow> blob list" where
  "candidate_refs candidate =
     [(cand_source candidate, SnapshotBlob), (cand_environment candidate, Opaque),
      (cand_artifact candidate, Opaque)] @
     (case cand_provenance candidate of None \<Rightarrow> [] | Some proof_d \<Rightarrow> [(proof_d, PatchReceipt)])"

definition job_refs :: "Job \<Rightarrow> blob list" where
  "job_refs job =
     (case j_invocation job of
        None \<Rightarrow> []
      | Some i \<Rightarrow> [(ji_input i, Opaque), (ji_environment i, Opaque)])"

definition observation_refs :: "Observation \<Rightarrow> blob list" where
  "observation_refs ob =
     [(ob_report ob, Opaque)] @
     (case ob_control ob of
        None \<Rightarrow> []
      | Some control \<Rightarrow> [(co_report control, Opaque), (co_source control, SnapshotBlob)])"

fun event_refs :: "TaskEvent \<Rightarrow> blob list" where
  "event_refs (ManualWorkspace candidate origin) =
     [(cand_source candidate, SnapshotBlob), (cand_environment candidate, Opaque), (origin, SnapshotBlob)]"
| "event_refs (OriginCaptured source) = [(source, SnapshotBlob)]"
| "event_refs (DirectiveReceived request input) = [(input, UserInput)]"
| "event_refs (DirectiveReplaced request input) = [(input, UserInput)]"
| "event_refs (JobStarted job) = job_refs job"
| "event_refs (ManualStarted job) = job_refs job"
| "event_refs (JobFenced i receipt) = [(receipt, Opaque)]"
| "event_refs (JobSettled i status (Some receipt)) = [(receipt, Opaque)]"
| "event_refs (Requested request lims intake input at_ms) =
     (intake, Opaque) # (case input of None \<Rightarrow> [] | Some d \<Rightarrow> [(d, UserInput)])"
| "event_refs (Created contract at_ms) = contract_refs contract"
| "event_refs (ContractAmended contract reason) = contract_refs contract"
| "event_refs (AdditiveContractAccepted contract receipt scope) =
     (receipt, Opaque) # contract_refs contract"
| "event_refs (ContractAdmitted contract basis receipt) = (receipt, Opaque) # contract_refs contract"
| "event_refs (CandidateSelected candidate) = candidate_refs candidate"
| "event_refs (BaselineEstablished candidate) = candidate_refs candidate"
| "event_refs (Observed evidence) = observation_refs (ev_observation evidence)"
| "event_refs (Delivered delivery) = [(dl_receipt delivery, Opaque)]"
| "event_refs (ModelCallRecorded operation receipt) = [(mc_report receipt, Opaque)]"
| "event_refs _ = []"

definition collect_artifacts :: "TaskEvent \<Rightarrow> blob btreeset \<Rightarrow> blob btreeset" where
  "collect_artifacts event referenced = extend_refs (event_refs event) referenced"

section \<open>The walk\<close>

text \<open>What a blob refers to in turn.\<close>

definition entry_refs :: "Entry \<Rightarrow> blob list" where
  "entry_refs entry = (case entry of File content _ \<Rightarrow> [(content, Opaque)] | _ \<Rightarrow> [])"

definition command_refs :: "GitCommandReceipt \<Rightarrow> blob list" where
  "command_refs command =
     [(gc_stdin_digest command, Opaque), (gc_stdout_digest command, Opaque),
      (gc_stderr_digest command, Opaque)]"

definition patch_refs :: "PatchValidationReceipt \<Rightarrow> blob list" where
  "patch_refs receipt =
     [(pr_baseline receipt, SnapshotBlob), (pr_candidate receipt, SnapshotBlob),
      (pr_applied_snapshot receipt, SnapshotBlob), (pr_observed_snapshot receipt, SnapshotBlob),
      (pr_patch receipt, Opaque)] @ concat (map command_refs (pr_commands receipt))"

fun blob_refs :: "('b, 'z) codec_scheme \<Rightarrow> BlobKind \<Rightarrow> 'b \<Rightarrow> StoreError + blob list" where
  "blob_refs c UserInput bytes =
     map_err StoreJson (and_then (media_references c bytes) (\<lambda>ds. Inr (map (\<lambda>d. (d, Opaque)) ds)))"
| "blob_refs c Opaque bytes = Inr []"
| "blob_refs c SnapshotBlob bytes =
     (case dec_snapshot c bytes of
        Inr snapshot \<Rightarrow> Inr (concat (map entry_refs (bt_values (sn_entries snapshot))))
      | Inl _ \<Rightarrow> Inr [])"
| "blob_refs c PatchReceipt bytes =
     and_then (map_err StoreJson (dec_patch c bytes)) (\<lambda>receipt. Inr (patch_refs receipt))"

record walk =
  w_visited :: "blob btreeset"
  w_counted :: "digest btreeset"
  w_total :: u64

text \<open>One blob that is visited for the first time: read it, count its bytes once, list its references.\<close>

definition visit_blob ::
    "('b, 'z) codec_scheme \<Rightarrow> 'b ArtifactStore \<Rightarrow> u64 \<Rightarrow> walk \<Rightarrow> blob \<Rightarrow> StoreError + walk \<times> blob list" where
  "visit_blob c st limit w blob =
     and_then (map_err StoreArtifact (read_artifact c st (fst blob))) (\<lambda>bytes.
     and_then (if fst blob \<in> set (w_counted w) then Inr (w_total w)
               else ok_or (checked_add (w_total w) (of_nat (blen c bytes))) Budget) (\<lambda>sum_bytes.
     if sum_bytes > limit then Inl Budget else
     and_then (blob_refs c (snd blob) bytes) (\<lambda>refs.
     Inr (\<lparr>w_visited = bs_insert blob (w_visited w), w_counted = bs_insert (fst blob) (w_counted w),
           w_total = sum_bytes\<rparr>, refs))))"

text \<open>References lead to a lower rank, so the walk ends.\<close>

fun kind_rank :: "BlobKind \<Rightarrow> nat" where
  "kind_rank Opaque = 0"
| "kind_rank SnapshotBlob = 1"
| "kind_rank UserInput = 1"
| "kind_rank PatchReceipt = 2"

lemma blob_refs_rank:
  assumes "blob_refs c k bytes = Inr refs" and "b \<in> set refs"
  shows "kind_rank (snd b) < kind_rank k"
  using assms
  by (cases k)
    (auto simp: result_simps patch_refs_def command_refs_def entry_refs_def
      split: sum.splits Entry.splits)

lemma visit_blob_rank:
  "visit_blob c st limit w blob = Inr (w', refs) \<Longrightarrow> b \<in> set refs \<Longrightarrow>
     kind_rank (snd b) < kind_rank (snd blob)"
  by (auto simp: visit_blob_def result_simps dest: blob_refs_rank split: if_splits)

lemma mset_map_butlast_last:
  "xs \<noteq> [] \<Longrightarrow> mset (map f xs) = mset (map f (butlast xs)) + {#f (last xs)#}"
  by (cases xs rule: rev_cases) auto

function walk_blobs ::
    "('b, 'z) codec_scheme \<Rightarrow> 'b ArtifactStore \<Rightarrow> u64 \<Rightarrow> walk \<Rightarrow> blob list \<Rightarrow> StoreError + walk" where
  "walk_blobs c st limit w pending =
     (if pending = [] then Inr w
      else if last pending \<in> set (w_visited w) then walk_blobs c st limit w (butlast pending)
      else and_then (visit_blob c st limit w (last pending))
        (\<lambda>wr. walk_blobs c st limit (fst wr) (butlast pending @ snd wr)))"
  by pat_completeness auto
termination
proof (relation "inv_image (mult less_than) (\<lambda>(c, st, limit, w, pending). mset (map (kind_rank \<circ> snd) pending))",
    goal_cases)
  case 1
  show ?case by (simp add: wf_mult)
next
  case (2 c st limit w pending)
  then have "mset (map (kind_rank \<circ> snd) pending) =
      mset (map (kind_rank \<circ> snd) (butlast pending)) + {#kind_rank (snd (last pending))#}"
    using mset_map_butlast_last [of pending "kind_rank \<circ> snd"] by simp
  then show ?case
    using one_step_implies_mult [of "{#kind_rank (snd (last pending))#}" "{#}" less_than
        "mset (map (kind_rank \<circ> snd) (butlast pending))"]
    by simp
next
  case (3 c st limit w pending wr)
  let ?top = "kind_rank (snd (last pending))"
  let ?rest = "mset (map (kind_rank \<circ> snd) (butlast pending))"
  let ?new = "mset (map (kind_rank \<circ> snd) (snd wr))"
  from 3 have "mset (map (kind_rank \<circ> snd) pending) = ?rest + {#?top#}"
    using mset_map_butlast_last [of pending "kind_rank \<circ> snd"] by simp
  moreover have "\<forall>k \<in># ?new. \<exists>j \<in># {#?top#}. (k, j) \<in> less_than"
    using 3 visit_blob_rank [of c st limit w "last pending" "fst wr" "snd wr"] by auto
  then have "(?rest + ?new, ?rest + {#?top#}) \<in> mult less_than"
    by (intro one_step_implies_mult) auto
  ultimately show ?case
    by (simp add: in_inv_image)
qed

declare walk_blobs.simps [simp del]

definition verify_artifact_graph ::
    "('b, 'z) codec_scheme \<Rightarrow> 'b ArtifactStore \<Rightarrow> blob btreeset \<Rightarrow> u64 \<Rightarrow> StoreError + unit" where
  "verify_artifact_graph c st referenced limit =
     and_then (walk_blobs c st limit \<lparr>w_visited = [], w_counted = [], w_total = 0\<rparr> referenced)
       (\<lambda>_. Inr ())"

section \<open>What the walk establishes\<close>

text \<open>The blobs reached from the roots, following references of blobs that can be read.\<close>

inductive reaches :: "('b, 'z) codec_scheme \<Rightarrow> 'b ArtifactStore \<Rightarrow> blob set \<Rightarrow> blob \<Rightarrow> bool"
  for c :: "('b, 'z) codec_scheme" and st :: "'b ArtifactStore" and R :: "blob set" where
  root: "b \<in> R \<Longrightarrow> reaches c st R b"
| step: "reaches c st R b \<Longrightarrow> read_artifact c st (fst b) = Inr bytes \<Longrightarrow>
    blob_refs c (snd b) bytes = Inr refs \<Longrightarrow> b' \<in> set refs \<Longrightarrow> reaches c st R b'"

definition intact :: "('b, 'z) codec_scheme \<Rightarrow> 'b ArtifactStore \<Rightarrow> blob \<Rightarrow> bool" where
  "intact c st b \<longleftrightarrow>
     (\<exists>bytes refs. read_artifact c st (fst b) = Inr bytes \<and> blob_refs c (snd b) bytes = Inr refs)"

definition artifact_size :: "('b, 'z) codec_scheme \<Rightarrow> 'b ArtifactStore \<Rightarrow> digest \<Rightarrow> nat" where
  "artifact_size c st d = (case read_artifact c st d of Inl _ \<Rightarrow> 0 | Inr bytes \<Rightarrow> blen c bytes)"

text \<open>The successors of a blob, and that two rounds of them reach everything.\<close>

definition successors :: "('b, 'z) codec_scheme \<Rightarrow> 'b ArtifactStore \<Rightarrow> blob \<Rightarrow> blob set" where
  "successors c st b =
     (case read_artifact c st (fst b) of
        Inl _ \<Rightarrow> {}
      | Inr bytes \<Rightarrow> (case blob_refs c (snd b) bytes of Inl _ \<Rightarrow> {} | Inr refs \<Rightarrow> set refs))"

lemma successors_finite: "finite (successors c st b)"
  by (simp add: successors_def split: sum.splits)

lemma successors_rank: "b' \<in> successors c st b \<Longrightarrow> kind_rank (snd b') < kind_rank (snd b)"
  by (auto simp: successors_def dest: blob_refs_rank split: sum.splits)

lemma kind_rank_le: "kind_rank k \<le> 2"
  by (cases k) simp_all

lemma reaches_layers:
  assumes "reaches c st R b"
  shows "b \<in> R \<union> (\<Union>x \<in> R. successors c st x) \<union> (\<Union>x \<in> R. \<Union>y \<in> successors c st x. successors c st y)"
  using assms
proof induction
  case (root b)
  then show ?case by simp
next
  case (step b bytes refs b')
  then have succ: "b' \<in> successors c st b"
    by (simp add: successors_def)
  have "b \<notin> (\<Union>x \<in> R. \<Union>y \<in> successors c st x. successors c st y)"
  proof
    assume "b \<in> (\<Union>x \<in> R. \<Union>y \<in> successors c st x. successors c st y)"
    then obtain x y where "y \<in> successors c st x" "b \<in> successors c st y"
      by blast
    with succ successors_rank [of y c st x] successors_rank [of b c st y] successors_rank [of b' c st b]
      kind_rank_le [of "snd x"] show False
      by linarith
  qed
  with step.IH succ show ?case by blast
qed

lemma reaches_finite:
  assumes "finite R"
  shows "finite {b. reaches c st R b}"
proof (rule finite_subset)
  let ?S = "R \<union> (\<Union>x \<in> R. successors c st x) \<union> (\<Union>x \<in> R. \<Union>y \<in> successors c st x. successors c st y)"
  show "{b. reaches c st R b} \<subseteq> ?S"
    using reaches_layers by (intro subsetI) (rule CollectE)
  show "finite ?S"
    using assms by (simp add: successors_finite)
qed

definition walk_inv ::
    "('b, 'z) codec_scheme \<Rightarrow> 'b ArtifactStore \<Rightarrow> u64 \<Rightarrow> blob set \<Rightarrow> walk \<Rightarrow> blob list \<Rightarrow> bool" where
  "walk_inv c st limit R w pending \<longleftrightarrow>
     (\<forall>b \<in> set (w_visited w) \<union> set pending. reaches c st R b) \<and>
     R \<subseteq> set (w_visited w) \<union> set pending \<and>
     (\<forall>b \<in> set (w_visited w). intact c st b \<and> successors c st b \<subseteq> set (w_visited w) \<union> set pending) \<and>
     set (w_counted w) = fst ` set (w_visited w) \<and>
     unat (w_total w) = (\<Sum>d \<in> set (w_counted w). artifact_size c st d) \<and> w_total w \<le> limit"

lemma read_fits: "read_artifact c st d = Inr bytes \<Longrightarrow> blen c bytes < 2 ^ 64"
proof -
  assume "read_artifact c st d = Inr bytes"
  then have "blen c bytes \<le> unat (as_max st)"
    by (simp add: read_artifact_Inr)
  also have "\<dots> < 2 ^ 64"
    using unsigned_less [of "as_max st", where 'a = nat] by simp
  finally show ?thesis .
qed

lemma unat_blen: "read_artifact c st d = Inr bytes \<Longrightarrow> unat (of_nat (blen c bytes) :: u64) = blen c bytes"
  using read_fits [of c st d bytes] by (simp add: unsigned_of_nat take_bit_nat_eq_self)

lemma visit_blob_Inr:
  assumes "visit_blob c st limit w b = Inr (w', refs)"
    and "set (w_counted w) = fst ` set (w_visited w)"
    and "unat (w_total w) = (\<Sum>d \<in> set (w_counted w). artifact_size c st d)"
  shows "intact c st b" and "successors c st b = set refs"
    and "set (w_visited w') = insert b (set (w_visited w))"
    and "set (w_counted w') = fst ` set (w_visited w')"
    and "unat (w_total w') = (\<Sum>d \<in> set (w_counted w'). artifact_size c st d)" and "w_total w' \<le> limit"
proof -
  from assms(1) obtain bytes where read: "read_artifact c st (fst b) = Inr bytes"
    and refs: "blob_refs c (snd b) bytes = Inr refs" and "w_total w' \<le> limit"
    and w': "w_visited w' = bs_insert b (w_visited w)" "w_counted w' = bs_insert (fst b) (w_counted w)"
    and tot: "if fst b \<in> set (w_counted w) then w_total w' = w_total w
      else checked_add (w_total w) (of_nat (blen c bytes)) = Some (w_total w')"
    by (auto simp: visit_blob_def result_simps split: if_splits)
  then show "intact c st b" "successors c st b = set refs" "w_total w' \<le> limit"
    "set (w_visited w') = insert b (set (w_visited w))"
    by (auto simp: intact_def successors_def)
  show "set (w_counted w') = fst ` set (w_visited w')"
    using w' assms(2) by simp
  show "unat (w_total w') = (\<Sum>d \<in> set (w_counted w'). artifact_size c st d)"
  proof (cases "fst b \<in> set (w_counted w)")
    case True
    with tot w' assms(3) show ?thesis by (simp add: insert_absorb)
  next
    case False
    with tot have "unat (w_total w') = unat (w_total w) + blen c bytes"
      using checked_add_Some [of "w_total w" "of_nat (blen c bytes)" "w_total w'"] unat_blen [OF read] by simp
    with False w' assms(3) read show ?thesis
      by (simp add: artifact_size_def)
  qed
qed

lemma walk_inv_pop:
  assumes "walk_inv c st limit R w pending" and "pending \<noteq> []" and "last pending \<in> set (w_visited w)"
  shows "walk_inv c st limit R w (butlast pending)"
proof -
  have set: "set pending = insert (last pending) (set (butlast pending))"
    using assms(2) by (metis Un_insert_right append_butlast_last_id boolean_algebra_cancel.sup0 list.simps(15) set_append list.set(1))
  have "set (w_visited w) \<union> set pending = set (w_visited w) \<union> set (butlast pending)"
    unfolding set using assms(3) by auto
  with assms(1) show ?thesis
    by (simp add: walk_inv_def)
qed

lemma walk_inv_visit:
  assumes "walk_inv c st limit R w pending" and "pending \<noteq> []"
    and "visit_blob c st limit w (last pending) = Inr (w', refs)"
  shows "walk_inv c st limit R w' (butlast pending @ refs)"
proof -
  have set: "set pending = insert (last pending) (set (butlast pending))"
    using assms(2) by (metis Un_insert_right append_butlast_last_id boolean_algebra_cancel.sup0 list.simps(15) set_append list.set(1))
  from assms(1) have inv: "set (w_counted w) = fst ` set (w_visited w)"
      "unat (w_total w) = (\<Sum>d \<in> set (w_counted w). artifact_size c st d)"
    by (simp_all add: walk_inv_def)
  note v = visit_blob_Inr [OF assms(3) inv]
  have "reaches c st R (last pending)"
    using assms(1) set by (auto simp: walk_inv_def)
  then have "\<forall>x \<in> set refs. reaches c st R x"
    using v(1,2) by (auto simp: intact_def successors_def intro: reaches.step)
  then show ?thesis
    unfolding walk_inv_def v(4,5) v(3)
    using assms(1) set v by (auto simp: walk_inv_def)
qed

lemma walk_sound:
  "walk_blobs c st limit w pending = Inr w' \<Longrightarrow> walk_inv c st limit R w pending \<Longrightarrow>
     walk_inv c st limit R w' []"
proof (induction c st limit w pending rule: walk_blobs.induct)
  case (1 c st limit w pending)
  show ?case
  proof (cases "pending = []")
    case True
    with 1 show ?thesis by (simp add: walk_blobs.simps)
  next
    case False
    show ?thesis
    proof (cases "last pending \<in> set (w_visited w)")
      case True
      then show ?thesis
        using 1 False walk_inv_pop [of c st limit R w pending] by (simp add: walk_blobs.simps [of c st limit w pending])
    next
      case new: False
      then obtain wr where wr: "visit_blob c st limit w (last pending) = Inr wr"
        "walk_blobs c st limit (fst wr) (butlast pending @ snd wr) = Inr w'"
        using 1(3) False by (auto simp: walk_blobs.simps [of c st limit w pending] result_simps)
      moreover have "walk_inv c st limit R (fst wr) (butlast pending @ snd wr)"
        using walk_inv_visit [OF 1(4) False] wr(1) by (metis prod.collapse)
      ultimately show ?thesis
        using 1(2) [OF False new] by blast
    qed
  qed
qed

lemma walk_inv_done:
  assumes "walk_inv c st limit R w []"
  shows "set (w_visited w) = {b. reaches c st R b}"
proof
  show "{b. reaches c st R b} \<subseteq> set (w_visited w)"
  proof
    fix b
    assume "b \<in> {b. reaches c st R b}"
    then have "reaches c st R b" by simp
    then show "b \<in> set (w_visited w)"
      by induction (use assms in \<open>force simp: walk_inv_def successors_def\<close>)+
  qed
qed (use assms in \<open>auto simp: walk_inv_def\<close>)

definition graph_fits :: "('b, 'z) codec_scheme \<Rightarrow> 'b ArtifactStore \<Rightarrow> blob set \<Rightarrow> u64 \<Rightarrow> bool" where
  "graph_fits c st R limit \<longleftrightarrow>
     (\<forall>b. reaches c st R b \<longrightarrow> intact c st b) \<and>
     (\<Sum>d \<in> fst ` {b. reaches c st R b}. artifact_size c st d) \<le> unat limit"

lemma walk_inv_start:
  "walk_inv c st limit (set pending) \<lparr>w_visited = [], w_counted = [], w_total = 0\<rparr> pending"
  by (auto simp: walk_inv_def intro: reaches.root)

lemma visit_blob_total:
  assumes "graph_fits c st R limit" and "finite R" and "walk_inv c st limit R w pending"
    and "pending \<noteq> []" and "last pending \<notin> set (w_visited w)"
  shows "\<exists>wr. visit_blob c st limit w (last pending) = Inr wr"
proof -
  let ?b = "last pending"
  have reach: "reaches c st R ?b"
    using assms(3,4) by (simp add: walk_inv_def)
  then obtain bytes refs where read: "read_artifact c st (fst ?b) = Inr bytes"
    and refs: "blob_refs c (snd ?b) bytes = Inr refs"
    using assms(1) unfolding graph_fits_def intact_def by blast
  have sub: "insert (fst ?b) (set (w_counted w)) \<subseteq> fst ` {b. reaches c st R b}"
    using assms(3) reach by (auto simp: walk_inv_def)
  have "(\<Sum>d \<in> insert (fst ?b) (set (w_counted w)). artifact_size c st d) \<le> unat limit"
    using sum_mono2 [OF finite_imageI [OF reaches_finite [OF assms(2)]] sub, of "artifact_size c st"] assms(1)
    by (simp add: graph_fits_def)
  then have bound: "fst ?b \<notin> set (w_counted w) \<Longrightarrow> unat (w_total w) + blen c bytes \<le> unat limit"
    using assms(3) read by (simp add: walk_inv_def artifact_size_def)
  have "unat limit < 2 ^ 64"
    using unsigned_less [of limit, where 'a = nat] by simp
  then have "fst ?b \<notin> set (w_counted w) \<Longrightarrow> \<exists>t. checked_add (w_total w) (of_nat (blen c bytes)) = Some t \<and> t \<le> limit"
    using bound checked_add_Some unat_blen [OF read]
    by (auto simp: checked_add_def word_le_nat_alt unat_word_ariths)
  then show ?thesis
    using read refs assms(3) by (auto simp: visit_blob_def walk_inv_def)
qed

lemma walk_total:
  assumes "graph_fits c st R limit" and "finite R"
  shows "walk_inv c st limit R w pending \<Longrightarrow> \<exists>w'. walk_blobs c st limit w pending = Inr w'"
  using assms
proof (induction c st limit w pending rule: walk_blobs.induct)
  case (1 c st limit w pending)
  show ?case
  proof (cases "pending = []")
    case True
    then show ?thesis by (simp add: walk_blobs.simps)
  next
    case False
    show ?thesis
    proof (cases "last pending \<in> set (w_visited w)")
      case True
      then show ?thesis
        using 1 False walk_inv_pop [of c st limit R w pending] by (simp add: walk_blobs.simps [of c st limit w pending])
    next
      case new: False
      with 1 False obtain wr where wr: "visit_blob c st limit w (last pending) = Inr wr"
        using visit_blob_total by blast
      moreover have "walk_inv c st limit R (fst wr) (butlast pending @ snd wr)"
        using walk_inv_visit [OF 1(3) False] wr by (metis prod.collapse)
      ultimately show ?thesis
        using 1(2) [OF False new wr] 1(4,5) False new by (simp add: walk_blobs.simps [of c st limit w pending])
    qed
  qed
qed

lemma verify_artifact_graph_iff:
  "verify_artifact_graph c st referenced limit = Inr () \<longleftrightarrow> graph_fits c st (set referenced) limit"
proof
  assume "verify_artifact_graph c st referenced limit = Inr ()"
  then obtain w where "walk_blobs c st limit \<lparr>w_visited = [], w_counted = [], w_total = 0\<rparr> referenced = Inr w"
    by (auto simp: verify_artifact_graph_def result_simps)
  then have inv: "walk_inv c st limit (set referenced) w []"
    by (rule walk_sound) (rule walk_inv_start)
  then show "graph_fits c st (set referenced) limit"
    using walk_inv_done [OF inv] by (auto simp: walk_inv_def graph_fits_def word_le_nat_alt)
next
  assume "graph_fits c st (set referenced) limit"
  then show "verify_artifact_graph c st referenced limit = Inr ()"
    using walk_total [OF _ _ walk_inv_start] by (fastforce simp: verify_artifact_graph_def)
qed

section \<open>Properties\<close>

text \<open>
  C14: the walk over a task's artifacts ends, and accepts exactly when every artifact reached from the
  references is stored intact and decodes as its kind, and the distinct artifacts together have at most
  the permitted number of bytes.
\<close>

theorem artifact_graph_budget:
  "verify_artifact_graph c st referenced limit = Inr () \<longleftrightarrow> graph_fits c st (set referenced) limit"
  by (rule verify_artifact_graph_iff)

end
