(* ===== verification/Task_Journal.thy ===== *)
theory Task_Journal
  imports Artifact_Graph
begin

text \<open>
  The journal of a task in the state database (\<^verbatim>\<open>store.rs\<close>): the tables, the hash chain over events,
  appending an event, checkpoints and the loader that replays and cross-checks the journal. A
  transaction is a function from the database to an error or a new database; an error leaves the old
  one. Disk and SQL engine failures other than key violations are outside the model.
\<close>

section \<open>The database\<close>

datatype AggregateKind = TaskAggregate | SessionAggregate

record 'b aggregate_row =
  ar_revision :: int
  ar_state :: 'b
  ar_head :: string

record 'b event_row =
  er_aggregate :: uuid
  er_kind :: AggregateKind
  er_revision :: int
  er_event :: 'b
  er_hash :: string

record 'b checkpoint_row =
  cp_aggregate :: uuid
  cp_kind :: AggregateKind
  cp_revision :: int
  cp_state :: 'b
  cp_head :: string

record 'b db =
  db_tasks :: "TaskId \<Rightarrow> 'b aggregate_row option"
  db_sessions :: "SessionId \<Rightarrow> 'b aggregate_row option"
  db_events :: "'b event_row list"
  db_checkpoints :: "'b checkpoint_row list"
  db_leases :: "TaskId \<times> uuid \<Rightarrow> string option"

definition MAX_EVENT_BYTES :: nat where
  "MAX_EVENT_BYTES = 512 * 1024"

text \<open>\<open>i64::try_from(u64)\<close> and \<open>u64::try_from(i64)\<close>\<close>

definition i64_of_u64 :: "u64 \<Rightarrow> StoreError \<Rightarrow> StoreError + int" where
  "i64_of_u64 n err = (if unat n < 2 ^ 63 then Inr (uint n) else Inl err)"

definition u64_of_i64 :: "int \<Rightarrow> StoreError \<Rightarrow> StoreError + u64" where
  "u64_of_i64 n err = (if n < 0 then Inl err else Inr (of_int n))"

definition insert_event :: "'b event_row \<Rightarrow> 'b db \<Rightarrow> StoreError + 'b db" where
  "insert_event r d =
     (if list_ex (\<lambda>x. er_aggregate x = er_aggregate r \<and> er_kind x = er_kind r
                    \<and> er_revision x = er_revision r) (db_events d)
      then Inl (StoreSql ''UNIQUE constraint failed: events'')
      else Inr (d\<lparr>db_events := db_events d @ [r]\<rparr>))"

definition insert_task :: "TaskId \<Rightarrow> 'b aggregate_row \<Rightarrow> 'b db \<Rightarrow> StoreError + 'b db" where
  "insert_task i r d =
     (if db_tasks d i \<noteq> None then Inl (StoreSql ''UNIQUE constraint failed: tasks'')
      else Inr (d\<lparr>db_tasks := (db_tasks d)(i \<mapsto> r)\<rparr>))"

text \<open>\<open>UPDATE tasks .. WHERE id=?1\<close> changes nothing when the row is absent.\<close>

definition update_task :: "TaskId \<Rightarrow> 'b aggregate_row \<Rightarrow> 'b db \<Rightarrow> 'b db" where
  "update_task i r d =
     (if db_tasks d i = None then d else d\<lparr>db_tasks := (db_tasks d)(i \<mapsto> r)\<rparr>)"

definition same_checkpoint :: "'b checkpoint_row \<Rightarrow> 'b checkpoint_row \<Rightarrow> bool" where
  "same_checkpoint r x =
     (cp_aggregate x = cp_aggregate r \<and> cp_kind x = cp_kind r \<and> cp_revision x = cp_revision r)"

definition replace_checkpoint :: "'b checkpoint_row \<Rightarrow> 'b db \<Rightarrow> 'b db" where
  "replace_checkpoint r d =
     d\<lparr>db_checkpoints := filter (\<lambda>x. \<not> same_checkpoint r x) (db_checkpoints d) @ [r]\<rparr>"

section \<open>Hashing and appending\<close>

definition kind_name :: "AggregateKind \<Rightarrow> string" where
  "kind_name k = (case k of TaskAggregate \<Rightarrow> ''task'' | SessionAggregate \<Rightarrow> ''session'')"

definition event_bytes :: "('b, 'z) codec_scheme \<Rightarrow> TaskEvent \<Rightarrow> StoreError + 'b" where
  "event_bytes c event =
     and_then (map_err StoreJson (enc_event c event)) (\<lambda>bytes.
       if blen c bytes > MAX_EVENT_BYTES then Inl (Invalid ''event payload exceeds limit'')
       else Inr bytes)"

definition aggregate_hash ::
    "('b, 'z) codec_scheme \<Rightarrow> AggregateKind \<Rightarrow> uuid \<Rightarrow> u64 \<Rightarrow> digest option \<Rightarrow> 'b \<Rightarrow> StoreError + digest" where
  "aggregate_hash c kind i revision previous bytes =
     map_err StoreJson
       (of_value (enc_link c) (sha c) (kind_name kind, i, revision, previous, sha c bytes))"

definition event_hash ::
    "('b, 'z) codec_scheme \<Rightarrow> TaskId \<Rightarrow> u64 \<Rightarrow> digest option \<Rightarrow> 'b \<Rightarrow> StoreError + digest" where
  "event_hash c task revision previous bytes =
     aggregate_hash c TaskAggregate (task_uuid task) revision previous bytes"

definition store_checkpoint ::
    "('b, 'z) codec_scheme \<Rightarrow> TaskId \<Rightarrow> u64 \<Rightarrow> TaskState \<Rightarrow> digest \<Rightarrow> 'b db \<Rightarrow> StoreError + 'b db" where
  "store_checkpoint c i revision s head d =
     and_then (i64_of_u64 revision (Invalid ''checkpoint revision exhausted'')) (\<lambda>r.
     and_then (map_err StoreJson (enc_state c s)) (\<lambda>bytes.
     Inr (replace_checkpoint \<lparr>cp_aggregate = task_uuid i, cp_kind = TaskAggregate, cp_revision = r,
            cp_state = bytes, cp_head = digest_to_string head\<rparr> d)))"

definition task_events :: "TaskId \<Rightarrow> 'b db \<Rightarrow> 'b event_row list" where
  "task_events i d =
     filter (\<lambda>r. er_aggregate r = task_uuid i \<and> er_kind r = TaskAggregate) (db_events d)"

definition check_artifact_budget ::
    "('b, 'z) codec_scheme \<Rightarrow> 'b ArtifactStore \<Rightarrow> 'b db \<Rightarrow> TaskId \<Rightarrow> TaskEvent \<Rightarrow> u64 \<Rightarrow> StoreError + unit" where
  "check_artifact_budget c st d task event limit =
     and_then (try_fold (\<lambda>referenced r. and_then (map_err StoreJson (dec_event c (er_event r)))
         (\<lambda>e. Inr (collect_artifacts e referenced))) [] (task_events task d)) (\<lambda>referenced.
     verify_artifact_graph c st (collect_artifacts event referenced) limit)"

fun event_limit :: "TaskState \<Rightarrow> TaskEvent \<Rightarrow> u64" where
  "event_limit s (ContractAmended contract reason) = l_artifact_bytes (c_limits contract)"
| "event_limit s (ContractAdmitted contract basis receipt) = l_artifact_bytes (c_limits contract)"
| "event_limit s (AdditiveContractAccepted contract receipt scope) = l_artifact_bytes (c_limits contract)"
| "event_limit s _ = l_artifact_bytes (limits s)"

fun budgeted_event :: "TaskEvent \<Rightarrow> bool" where
  "budgeted_event (ContractAmended _ _) = True"
| "budgeted_event (ManualStarted _) = True"
| "budgeted_event (ManualWorkspace _ _) = True"
| "budgeted_event (OriginCaptured _) = True"
| "budgeted_event (DirectiveReceived _ _) = True"
| "budgeted_event (DirectiveReplaced _ _) = True"
| "budgeted_event (AdditiveContractAccepted _ _ _) = True"
| "budgeted_event (ContractAdmitted _ _ _) = True"
| "budgeted_event (JobStarted _) = True"
| "budgeted_event (CandidateSelected _) = True"
| "budgeted_event (BaselineEstablished _) = True"
| "budgeted_event (Observed _) = True"
| "budgeted_event (Delivered _) = True"
| "budgeted_event (Completed _) = True"
| "budgeted_event _ = False"

definition append_task_event ::
    "('b, 'z) codec_scheme \<Rightarrow> 'b ArtifactStore \<Rightarrow> TaskState \<Rightarrow> digest \<Rightarrow> TaskEvent \<Rightarrow> 'b db \<Rightarrow>
     StoreError + TaskState \<times> 'b db" where
  "append_task_event c st s head event d =
     (let i = t_id s in
      and_then (if budgeted_event event then check_artifact_budget c st d i event (event_limit s event)
                else Inr ()) (\<lambda>_.
      and_then (event_bytes c event) (\<lambda>bytes.
      and_then (map_err of_apply_error (task_apply (contract_digest c) s event)) (\<lambda>s'.
      and_then (event_hash c i (t_revision s') (Some head) bytes) (\<lambda>hash.
      and_then (i64_of_u64 (t_revision s') (Invalid ''journal revision exhausted'')) (\<lambda>sql_revision.
      and_then (insert_event \<lparr>er_aggregate = task_uuid i, er_kind = TaskAggregate,
          er_revision = sql_revision, er_event = bytes, er_hash = digest_to_string hash\<rparr> d) (\<lambda>d1.
      and_then (map_err StoreJson (enc_state c s')) (\<lambda>state_bytes.
      let d2 = update_task i \<lparr>ar_revision = sql_revision, ar_state = state_bytes,
                 ar_head = digest_to_string hash\<rparr> d1
      in if unat (t_revision s') mod 128 = 0
         then and_then (store_checkpoint c i (t_revision s') s' hash d2) (\<lambda>d3. Inr (s', d3))
         else Inr (s', d2)))))))))"

text \<open>\<open>commit_event\<close> commits the transaction of \<open>append_task_event\<close>.\<close>

definition commit_event ::
    "('b, 'z) codec_scheme \<Rightarrow> 'b ArtifactStore \<Rightarrow> TaskState \<Rightarrow> digest \<Rightarrow> TaskEvent \<Rightarrow> 'b db \<Rightarrow>
     StoreError + TaskState \<times> 'b db" where
  "commit_event c st s head event d = append_task_event c st s head event d"

section \<open>Loading\<close>

definition latest_checkpoint :: "TaskId \<Rightarrow> int \<Rightarrow> 'b db \<Rightarrow> 'b checkpoint_row option" where
  "latest_checkpoint i revision d =
     (let rows = filter (\<lambda>r. cp_aggregate r = task_uuid i \<and> cp_kind r = TaskAggregate
                          \<and> cp_revision r \<le> revision) (db_checkpoints d)
      in if rows = [] then None else Some (last (sort_key cp_revision rows)))"

text \<open>The loader's position in the journal: state, hash of the last event and its revision.\<close>

type_synonym cursor = "TaskState option \<times> digest option \<times> u64"

definition start_cursor ::
    "('b, 'z) codec_scheme \<Rightarrow> TaskId \<Rightarrow> 'b checkpoint_row option \<Rightarrow> StoreError + cursor" where
  "start_cursor c i checkpoint =
     (case checkpoint of
        None \<Rightarrow> Inr (None, None, 0)
      | Some r \<Rightarrow>
          and_then (u64_of_i64 (cp_revision r) (Integrity ''negative task checkpoint revision'')) (\<lambda>rev.
          and_then (map_err StoreJson (dec_state c (cp_state r))) (\<lambda>s.
          if t_id s \<noteq> i \<or> t_revision s \<noteq> rev then Inl (Integrity ''invalid task checkpoint'') else
          and_then (map_err (\<lambda>_. Integrity ''task checkpoint hash'') (digest_from_str (cp_head r)))
            (\<lambda>head. Inr (Some s, Some head, rev)))))"

definition replay_event ::
    "('b, 'z) codec_scheme \<Rightarrow> TaskId \<Rightarrow> TaskState option \<Rightarrow> TaskEvent \<Rightarrow> StoreError + TaskState" where
  "replay_event c i state event =
     (case (state, event) of
        (None, Requested request lims intake input at_ms) \<Rightarrow>
          and_then (map_err StoreContract (limits_validate lims)) (\<lambda>_.
          if blank request then Inl (Integrity ''empty original request'')
          else Inr (requested i request lims at_ms (Some intake) input))
      | (None, Created contract at_ms) \<Rightarrow>
          and_then (map_err StoreContract (contract_validate contract)) (\<lambda>_.
          Inr (created i contract at_ms))
      | (Some _, Created _ _) \<Rightarrow> Inl (Integrity ''invalid task creation sequence'')
      | (Some _, Requested _ _ _ _ _) \<Rightarrow> Inl (Integrity ''invalid task creation sequence'')
      | (None, _) \<Rightarrow> Inl (Integrity ''invalid task creation sequence'')
      | (Some s, e) \<Rightarrow> map_err of_apply_error (task_apply (contract_digest c) s e))"

definition replay_row ::
    "('b, 'z) codec_scheme \<Rightarrow> TaskId \<Rightarrow> cursor \<Rightarrow> 'b event_row \<Rightarrow> StoreError + cursor" where
  "replay_row c i cur r =
     (let (state, head, sequence) = cur in
      and_then (u64_of_i64 (er_revision r) (Integrity ''negative event revision'')) (\<lambda>rev.
      let sequence' = sequence + 1 in
      if rev \<noteq> sequence' \<or> blen c (er_event r) > MAX_EVENT_BYTES
      then Inl (Integrity ''journal ordering or size'') else
      and_then (event_hash c i rev head (er_event r)) (\<lambda>hash.
      if er_hash r \<noteq> digest_to_string hash then Inl (Integrity ''journal hash'') else
      and_then (map_err StoreJson (dec_event c (er_event r))) (\<lambda>event.
      and_then (replay_event c i state event) (\<lambda>s.
      Inr (Some s, Some hash, sequence'))))))"

text \<open>\<open>SELECT .. WHERE revision>?2 ORDER BY revision\<close>\<close>

definition events_after :: "TaskId \<Rightarrow> u64 \<Rightarrow> 'b db \<Rightarrow> 'b event_row list" where
  "events_after i sequence d =
     sort_key er_revision (filter (\<lambda>r. er_revision r > sint sequence) (task_events i d))"

definition load_state ::
    "('b, 'z) codec_scheme \<Rightarrow> 'b db \<Rightarrow> TaskId \<Rightarrow> StoreError + TaskState \<times> digest" where
  "load_state c d i =
     and_then (ok_or (db_tasks d i) (Missing i)) (\<lambda>row.
     and_then (u64_of_i64 (ar_revision row) (Integrity ''negative task revision'')) (\<lambda>revision.
     and_then (start_cursor c i (latest_checkpoint i (sint revision) d)) (\<lambda>cur.
     and_then (try_fold (replay_row c i) cur (events_after i (snd (snd cur)) d)) (\<lambda>(state, head, sequence).
     and_then (ok_or state (Integrity ''missing creation event'')) (\<lambda>s.
     and_then (ok_or head (Integrity ''missing journal head'')) (\<lambda>h.
     if sequence \<noteq> revision \<or> digest_to_string h \<noteq> ar_head row
     then Inl (Integrity ''materialized state differs from journal'') else
     and_then (map_err StoreJson (enc_state c s)) (\<lambda>bytes.
     if bytes \<noteq> ar_state row then Inl (Integrity ''materialized state differs from journal'')
     else Inr (s, h))))))))"

section \<open>Journals\<close>

definition journal_row :: "TaskId \<Rightarrow> u64 \<Rightarrow> 'b \<Rightarrow> digest \<Rightarrow> 'b event_row" where
  "journal_row i revision bytes hash =
     \<lparr>er_aggregate = task_uuid i, er_kind = TaskAggregate, er_revision = uint revision,
      er_event = bytes, er_hash = digest_to_string hash\<rparr>"

text \<open>
  The journals the store writes for a task, with the state and hash they lead to: a creation event,
  then events that apply.
\<close>

inductive journal ::
    "('b, 'z) codec_scheme \<Rightarrow> TaskId \<Rightarrow> 'b event_row list \<Rightarrow> TaskState \<Rightarrow> digest \<Rightarrow> bool"
  for c :: "('b, 'z) codec_scheme" and i :: TaskId where
  start: "event_bytes c e = Inr b \<Longrightarrow> replay_event c i None e = Inr s \<Longrightarrow>
    event_hash c i 1 None b = Inr h \<Longrightarrow> journal c i [journal_row i 1 b h] s h"
| step: "journal c i rows s h \<Longrightarrow> event_bytes c e = Inr b \<Longrightarrow>
    task_apply (contract_digest c) s e = Inr s' \<Longrightarrow>
    event_hash c i (t_revision s') (Some h) b = Inr h' \<Longrightarrow> unat (t_revision s') < 2 ^ 63 \<Longrightarrow>
    journal c i (rows @ [journal_row i (t_revision s') b h']) s' h'"

lemma replay_event_None:
  "replay_event c i None e = Inr s \<Longrightarrow> t_revision s = 1 \<and> t_id s = i \<and> task_maps_ok s \<and> keyed_by_id s"
  by (cases e)
    (auto simp: replay_event_def result_simps created_def requested_def task_maps_ok_def keyed_by_id_def
      split: if_splits)

lemma replay_event_Some:
  "\<not> creation_event e \<Longrightarrow>
     replay_event c i (Some s) e = map_err of_apply_error (task_apply (contract_digest c) s e)"
  by (cases e) (simp_all add: replay_event_def creation_event_def)

lemma task_apply_not_creation: "task_apply cd s e = Inr s' \<Longrightarrow> \<not> creation_event e"
  by (cases e) (auto simp: task_apply_def creation_event_def)

lemma event_hash_ok: "codec_ok c \<Longrightarrow> event_hash c i r p b = Inr h \<Longrightarrow> digest_ok h"
  by (auto simp: event_hash_def aggregate_hash_def of_value_def result_simps codec_ok_def)

lemma event_bytes_Inr:
  "event_bytes c e = Inr b \<longleftrightarrow> enc_event c e = Inr b \<and> blen c b \<le> MAX_EVENT_BYTES"
  by (auto simp: event_bytes_def result_simps split: if_splits)

lemma u64_of_uint [simp]: "u64_of_i64 (uint n) err = Inr n"
  by (simp add: u64_of_i64_def)

lemma uint_nat_eq: "uint (n :: u64) = int (unat n)"
  by simp

lemma journal_length:
  "journal c i rows s h \<Longrightarrow>
     unat (t_revision s) = length rows \<and> length rows < 2 ^ 63 \<and> t_id s = i \<and> rows \<noteq> [] \<and>
     task_maps_ok s \<and> keyed_by_id s"
proof (induction rule: journal.induct)
  case (start e b s h)
  then show ?case by (auto dest: replay_event_None)
next
  case (step rows s h e b s' h')
  then have rev: "t_revision s' = t_revision s + 1"
    by (simp add: task_apply_revision)
  have "unat (t_revision s) + 1 < 2 ^ 64"
    using step.IH by simp
  then have "unat (t_revision s') = Suc (length rows)"
    using step.IH unat_plus_one [of "t_revision s"] by (simp add: rev)
  moreover have "t_id s' = i"
    using task_apply_extends [OF step.hyps(3)] step.IH by (simp add: extends_state_def)
  moreover have "task_maps_ok s' \<and> keyed_by_id s'"
    using step.IH step.hyps(3) by (blast intro: task_apply_maps_ok task_apply_keyed)
  ultimately show ?case
    using step.hyps(5) by simp
qed

lemma journal_row_revision:
  "journal c i rows s h \<Longrightarrow> k < length rows \<Longrightarrow>
     er_revision (rows ! k) = int (Suc k) \<and> er_aggregate (rows ! k) = task_uuid i \<and>
     er_kind (rows ! k) = TaskAggregate"
proof (induction arbitrary: k rule: journal.induct)
  case (start e b s h)
  then show ?case by (simp add: journal_row_def)
next
  case (step rows s h e b s' h')
  have "unat (t_revision s') = Suc (length rows)"
    using journal_length [OF journal.step [OF step.hyps]] by simp
  then have "uint (t_revision s') = int (Suc (length rows))"
    by (metis uint_nat_eq)
  with step show ?case
    by (cases "k = length rows") (simp_all add: nth_append journal_row_def)
qed

lemma journal_row_keyed:
  "journal c i rows s h \<Longrightarrow> r \<in> set rows \<Longrightarrow>
     er_aggregate r = task_uuid i \<and> er_kind r = TaskAggregate \<and> er_revision r \<le> int (length rows)"
  using journal_row_revision [of c i rows s h] by (auto simp: in_set_conv_nth)

subsection \<open>Replaying what was written\<close>

definition at_cursor :: "TaskState \<Rightarrow> digest \<Rightarrow> cursor" where
  "at_cursor s h = (Some s, Some h, t_revision s)"

lemma replay_journal_row:
  assumes "codec_ok c" and "event_bytes c e = Inr b" and "replay_event c i state e = Inr s'"
    and "event_hash c i revision head b = Inr h'" and "revision = sequence + 1"
  shows "replay_row c i (state, head, sequence) (journal_row i revision b h') = Inr (Some s', Some h', revision)"
proof -
  have "dec_event c b = Inr e"
    using assms(1,2) by (simp add: codec_ok_def event_bytes_Inr)
  with assms show ?thesis
    by (simp add: replay_row_def journal_row_def event_bytes_Inr not_less)
qed

lemma replay_journal:
  "codec_ok c \<Longrightarrow> journal c i rows s h \<Longrightarrow>
     try_fold (replay_row c i) (None, None, 0) rows = Inr (at_cursor s h)"
proof (rotate_tac, induction rule: journal.induct)
  case (start e b s h)
  then show ?case
    using replay_journal_row [OF start(4) start(1) start(2) start(3)] replay_event_None [OF start(2)]
    by (simp add: at_cursor_def)
next
  case (step rows s h e b s' h')
  have "replay_event c i (Some s) e = Inr s'"
    using step(3) by (simp add: replay_event_Some task_apply_not_creation [OF step(3)])
  from replay_journal_row [OF step(7) step(2) this step(4)] step show ?case
    by (simp add: try_fold_append at_cursor_def task_apply_revision)
qed

lemma replay_journal_from:
  "codec_ok c \<Longrightarrow> journal c i rows s h \<Longrightarrow> journal c i (take k rows) sk hk \<Longrightarrow> k \<le> length rows \<Longrightarrow>
     try_fold (replay_row c i) (at_cursor sk hk) (drop k rows) = Inr (at_cursor s h)"
proof -
  assume c: "codec_ok c" and all: "journal c i rows s h" and part: "journal c i (take k rows) sk hk"
  have "try_fold (replay_row c i) (None, None, 0) (take k rows @ drop k rows) = Inr (at_cursor s h)"
    using replay_journal [OF c all] by simp
  then show ?thesis
    unfolding try_fold_append replay_journal [OF c part] by simp
qed

text \<open>Selecting rows by revision from a journal numbered from one.\<close>

definition numbered :: "'b event_row list \<Rightarrow> bool" where
  "numbered rows \<longleftrightarrow> (\<forall>j < length rows. er_revision (rows ! j) = int (Suc j))"

lemma numbered_take: "numbered rows \<Longrightarrow> numbered (take n rows)"
  by (simp add: numbered_def)

lemma numbered_later_rows:
  assumes "numbered rows" and "k \<le> length rows"
  shows "sort_key er_revision (filter (\<lambda>r. er_revision r > int k) rows) = drop k rows"
proof -
  have rev: "j < length rows \<Longrightarrow> er_revision (rows ! j) = int (Suc j)" for j
    using assms(1) by (simp add: numbered_def)
  have "filter (\<lambda>r. er_revision r > int k) (take k rows) = []"
    using rev assms(2) by (auto simp: filter_empty_conv in_set_conv_nth)
  moreover have "filter (\<lambda>r. er_revision r > int k) (drop k rows) = drop k rows"
    using rev assms(2) by (auto simp: filter_id_conv in_set_conv_nth)
  ultimately have "filter (\<lambda>r. er_revision r > int k) rows = drop k rows"
    by (metis append_take_drop_id filter_append append_Nil)
  moreover have "sorted (map er_revision (drop k rows))"
    using rev assms(2) by (simp add: sorted_iff_nth_mono)
  ultimately show ?thesis
    by (simp add: sorted_sort_id sort_key_id_if_sorted)
qed

lemma numbered_earlier_rows:
  assumes "numbered rows"
  shows "filter (\<lambda>r. er_revision r \<le> int n) rows = take n rows"
proof -
  have rev: "j < length rows \<Longrightarrow> er_revision (rows ! j) = int (Suc j)" for j
    using assms by (simp add: numbered_def)
  have "filter (\<lambda>r. er_revision r \<le> int n) (take n rows) = take n rows"
    using rev by (auto simp: filter_id_conv in_set_conv_nth)
  moreover have "filter (\<lambda>r. er_revision r \<le> int n) (drop n rows) = []"
    using rev by (auto simp: filter_empty_conv in_set_conv_nth)
  ultimately show ?thesis
    by (metis append_take_drop_id filter_append append_Nil2)
qed

lemma numbered_rows_between:
  assumes "numbered rows" and "k \<le> n" and "n \<le> length rows"
  shows "sort_key er_revision (filter (\<lambda>r. er_revision r > int k \<and> er_revision r \<le> int n) rows)
    = drop k (take n rows)"
proof -
  have "filter (\<lambda>r. er_revision r > int k \<and> er_revision r \<le> int n) rows
      = filter (\<lambda>r. er_revision r > int k) (take n rows)"
    unfolding numbered_earlier_rows [OF assms(1), symmetric] filter_filter by (simp add: conj_commute)
  then show ?thesis
    using numbered_later_rows [OF numbered_take [OF assms(1)], of k n] assms(2,3) by simp
qed

lemma journal_later_rows:
  assumes "journal c i rows s h" and "k \<le> length rows"
  shows "sort_key er_revision (filter (\<lambda>r. er_revision r > int k) rows) = drop k rows"
  using numbered_later_rows [of rows k] assms journal_row_revision [OF assms(1)] by (simp add: numbered_def)

section \<open>The store invariant\<close>

text \<open>A checkpoint of the task holds the state and hash of a prefix of its journal.\<close>

definition checkpoint_ok ::
    "('b, 'z) codec_scheme \<Rightarrow> TaskId \<Rightarrow> 'b event_row list \<Rightarrow> 'b checkpoint_row \<Rightarrow> bool" where
  "checkpoint_ok c i rows r \<longleftrightarrow>
     (\<exists>k s h. k \<le> length rows \<and> journal c i (take k rows) s h \<and> cp_revision r = int k \<and>
        enc_state c s = Inr (cp_state r) \<and> cp_head r = digest_to_string h)"

definition is_checkpoint_of :: "TaskId \<Rightarrow> 'b checkpoint_row \<Rightarrow> bool" where
  "is_checkpoint_of i r \<longleftrightarrow> cp_aggregate r = task_uuid i \<and> cp_kind r = TaskAggregate"

definition task_row :: "('b, 'z) codec_scheme \<Rightarrow> TaskState \<Rightarrow> digest \<Rightarrow> 'b aggregate_row \<Rightarrow> bool" where
  "task_row c s h row \<longleftrightarrow>
     ar_revision row = uint (t_revision s) \<and> enc_state c s = Inr (ar_state row) \<and>
     ar_head row = digest_to_string h"

definition task_ok ::
    "('b, 'z) codec_scheme \<Rightarrow> 'b db \<Rightarrow> TaskId \<Rightarrow> TaskState \<Rightarrow> digest \<Rightarrow> bool" where
  "task_ok c d i s h \<longleftrightarrow>
     journal c i (task_events i d) s h \<and>
     (\<exists>row. db_tasks d i = Some row \<and> task_row c s h row) \<and>
     (\<forall>r \<in> set (db_checkpoints d). is_checkpoint_of i r \<longrightarrow> checkpoint_ok c i (task_events i d) r)"

lemma journal_digest_ok: "codec_ok c \<Longrightarrow> journal c i rows s h \<Longrightarrow> digest_ok h"
  by (erule journal.cases) (auto dest: event_hash_ok)

lemma sint_small: "unat (n :: u64) < 2 ^ 63 \<Longrightarrow> sint n = uint n"
proof -
  assume "unat n < 2 ^ 63"
  then have "int (unat n) < 2 ^ 63"
    by (metis of_nat_less_iff of_nat_numeral of_nat_power)
  then have "uint n < 2 ^ 63"
    by simp
  moreover have "- (2 ^ 63) \<le> uint n"
    by (rule order.trans [OF _ unsigned_greater_eq]) simp
  ultimately show ?thesis
    by (simp add: sint_uint signed_take_bit_int_eq_self_iff)
qed

lemma latest_checkpoint_mem:
  assumes "latest_checkpoint i revision d = Some r"
  shows "r \<in> set (db_checkpoints d) \<and> is_checkpoint_of i r"
proof -
  let ?rows = "filter (\<lambda>r. cp_aggregate r = task_uuid i \<and> cp_kind r = TaskAggregate
    \<and> cp_revision r \<le> revision) (db_checkpoints d)"
  from assms have r: "r = last (sort_key cp_revision ?rows)" and "?rows \<noteq> []"
    by (simp_all add: latest_checkpoint_def Let_def split: if_splits)
  then have "length (sort_key cp_revision ?rows) \<noteq> 0"
    by (simp add: length_sort del: length_0_conv)
  then have "sort_key cp_revision ?rows \<noteq> []"
    by (simp only: length_0_conv simp_thms)
  from last_in_set [OF this] have "r \<in> set ?rows"
    by (simp only: r set_sort)
  then show ?thesis
    by (simp add: is_checkpoint_of_def)
qed

lemma start_cursor_ok:
  assumes "codec_ok c" and "task_ok c d i s h"
  shows "\<exists>k cur. start_cursor c i (latest_checkpoint i rev0 d) = Inr cur \<and> k \<le> length (task_events i d) \<and>
    sint (snd (snd cur)) = int k \<and>
    try_fold (replay_row c i) cur (drop k (task_events i d)) = Inr (at_cursor s h)"
proof (cases "latest_checkpoint i rev0 d")
  case None
  then show ?thesis
    using replay_journal [OF assms(1)] assms(2)
    by (intro exI [of _ 0]) (simp add: start_cursor_def task_ok_def)
next
  case (Some r)
  then have "checkpoint_ok c i (task_events i d) r"
    using latest_checkpoint_mem [OF Some] assms(2) by (auto simp: task_ok_def)
  then obtain k sk hk where k: "k \<le> length (task_events i d)" and j: "journal c i (take k (task_events i d)) sk hk"
    and r: "cp_revision r = int k" "enc_state c sk = Inr (cp_state r)" "cp_head r = digest_to_string hk"
    by (auto simp: checkpoint_ok_def)
  have len: "unat (t_revision sk) = k" "k < 2 ^ 63" "t_id sk = i"
    using journal_length [OF j] k by simp_all
  then have rev: "cp_revision r = uint (t_revision sk)"
    using r(1) by (metis uint_nat_eq)
  have "dec_state c (cp_state r) = Inr sk"
    using assms(1) r(2) by (simp add: codec_ok_def)
  moreover have "digest_from_str (cp_head r) = Inr hk"
    using digest_from_to_string [OF journal_digest_ok [OF assms(1) j]] r(3) by simp
  ultimately have "start_cursor c i (Some r) = Inr (at_cursor sk hk)"
    using len rev by (simp add: start_cursor_def at_cursor_def)
  moreover have "sint (t_revision sk) = int k"
    using sint_small [of "t_revision sk"] len by (metis uint_nat_eq)
  moreover have "try_fold (replay_row c i) (at_cursor sk hk) (drop k (task_events i d)) = Inr (at_cursor s h)"
    using replay_journal_from [OF assms(1) _ j k] assms(2) by (simp add: task_ok_def)
  ultimately show ?thesis
    using Some k by (auto simp: at_cursor_def)
qed

lemma load_state_ok:
  assumes "codec_ok c" and "task_ok c d i s h"
  shows "load_state c d i = Inr (s, h)"
proof -
  from assms(2) obtain row where j: "journal c i (task_events i d) s h"
    and row: "db_tasks d i = Some row" "task_row c s h row"
    by (auto simp: task_ok_def)
  obtain k cur where cur: "start_cursor c i (latest_checkpoint i (sint (t_revision s)) d) = Inr cur"
    and k: "k \<le> length (task_events i d)" "sint (snd (snd cur)) = int k"
    and fold: "try_fold (replay_row c i) cur (drop k (task_events i d)) = Inr (at_cursor s h)"
    using start_cursor_ok [OF assms] by blast
  have "events_after i (snd (snd cur)) d = drop k (task_events i d)"
    unfolding events_after_def k(2) by (rule journal_later_rows [OF j k(1)])
  then show ?thesis
    using row cur fold by (simp add: load_state_def task_row_def at_cursor_def)
qed

subsection \<open>Appending keeps the invariant\<close>

lemma insert_event_Inr:
  "insert_event r d = Inr d' \<Longrightarrow> d' = d\<lparr>db_events := db_events d @ [r]\<rparr>"
  by (simp add: insert_event_def split: if_splits)

lemma append_task_event_Inr:
  assumes "append_task_event c st s head e d = Inr (s', d')"
  obtains b h' sb where "event_bytes c e = Inr b" and "task_apply (contract_digest c) s e = Inr s'"
    and "event_hash c (t_id s) (t_revision s') (Some head) b = Inr h'"
    and "unat (t_revision s') < 2 ^ 63" and "enc_state c s' = Inr sb"
    and "db_events d' = db_events d @ [journal_row (t_id s) (t_revision s') b h']"
    and "db_tasks d' = (if db_tasks d (t_id s) = None then db_tasks d
      else (db_tasks d)(t_id s \<mapsto> \<lparr>ar_revision = uint (t_revision s'), ar_state = sb,
        ar_head = digest_to_string h'\<rparr>))"
    and "db_leases d' = db_leases d"
    and "\<And>r. r \<in> set (db_checkpoints d') \<Longrightarrow> r \<in> set (db_checkpoints d) \<or>
      r = \<lparr>cp_aggregate = task_uuid (t_id s), cp_kind = TaskAggregate, cp_revision = uint (t_revision s'),
           cp_state = sb, cp_head = digest_to_string h'\<rparr>"
proof -
  from assms obtain b h' sb d1 where facts: "event_bytes c e = Inr b"
      "task_apply (contract_digest c) s e = Inr s'"
      "event_hash c (t_id s) (t_revision s') (Some head) b = Inr h'"
      "unat (t_revision s') < 2 ^ 63" "enc_state c s' = Inr sb"
    and d1: "insert_event (journal_row (t_id s) (t_revision s') b h') d = Inr d1"
    and d': "(if unat (t_revision s') mod 128 = 0
      then and_then (store_checkpoint c (t_id s) (t_revision s') s' h'
             (update_task (t_id s) \<lparr>ar_revision = uint (t_revision s'), ar_state = sb,
                ar_head = digest_to_string h'\<rparr> d1)) (\<lambda>d3. Inr (s', d3))
      else Inr (s', update_task (t_id s) \<lparr>ar_revision = uint (t_revision s'), ar_state = sb,
                ar_head = digest_to_string h'\<rparr> d1)) = Inr (s', d')"
    by (auto simp: append_task_event_def Let_def result_simps i64_of_u64_def journal_row_def
        split: if_splits)
  note d1 = insert_event_Inr [OF d1]
  show thesis
  proof (rule that [OF facts])
    show "db_events d' = db_events d @ [journal_row (t_id s) (t_revision s') b h']"
      and "db_tasks d' = (if db_tasks d (t_id s) = None then db_tasks d
        else (db_tasks d)(t_id s \<mapsto> \<lparr>ar_revision = uint (t_revision s'), ar_state = sb,
          ar_head = digest_to_string h'\<rparr>))"
      and "db_leases d' = db_leases d"
      using d' by (auto simp: d1 store_checkpoint_def update_task_def replace_checkpoint_def
          result_simps split: if_splits)
    show "r \<in> set (db_checkpoints d') \<Longrightarrow> r \<in> set (db_checkpoints d) \<or>
      r = \<lparr>cp_aggregate = task_uuid (t_id s), cp_kind = TaskAggregate, cp_revision = uint (t_revision s'),
           cp_state = sb, cp_head = digest_to_string h'\<rparr>" for r
      using d' facts by (auto simp: d1 store_checkpoint_def update_task_def replace_checkpoint_def
          i64_of_u64_def result_simps split: if_splits)
  qed
qed

lemma task_events_append:
  "db_events d' = db_events d @ [journal_row i n b h] \<Longrightarrow>
     task_events j d' = task_events j d @ (if j = i then [journal_row i n b h] else [])"
  by (auto simp: task_events_def journal_row_def TaskId.expand)

lemma checkpoint_ok_extend: "checkpoint_ok c i rows r \<Longrightarrow> checkpoint_ok c i (rows @ rest) r"
proof -
  assume "checkpoint_ok c i rows r"
  then obtain k s h where "k \<le> length rows" "journal c i (take k rows) s h" "cp_revision r = int k"
    "enc_state c s = Inr (cp_state r)" "cp_head r = digest_to_string h"
    by (auto simp: checkpoint_ok_def)
  then show ?thesis
    unfolding checkpoint_ok_def by (intro exI [of _ k] exI [of _ s] exI [of _ h]) simp
qed

lemma append_task_event_ok:
  assumes "task_ok c d i s h" and "append_task_event c st s h e d = Inr (s', d')"
  shows "task_apply (contract_digest c) s e = Inr s'" and "\<exists>h'. task_ok c d' i s' h'"
    and "db_leases d' = db_leases d"
proof -
  from assms(1) obtain row where j: "journal c i (task_events i d) s h" and row: "db_tasks d i = Some row"
    and cps: "\<forall>r \<in> set (db_checkpoints d). is_checkpoint_of i r \<longrightarrow> checkpoint_ok c i (task_events i d) r"
    by (auto simp: task_ok_def)
  have i: "t_id s = i"
    using journal_length [OF j] by simp
  from assms(2) obtain b h' sb where e: "event_bytes c e = Inr b"
    and app: "task_apply (contract_digest c) s e = Inr s'"
    and hash: "event_hash c i (t_revision s') (Some h) b = Inr h'"
    and small: "unat (t_revision s') < 2 ^ 63" and sb: "enc_state c s' = Inr sb"
    and ev: "db_events d' = db_events d @ [journal_row i (t_revision s') b h']"
    and tasks: "db_tasks d' = (if db_tasks d i = None then db_tasks d
      else (db_tasks d)(i \<mapsto> \<lparr>ar_revision = uint (t_revision s'), ar_state = sb,
        ar_head = digest_to_string h'\<rparr>))"
    and leases: "db_leases d' = db_leases d"
    and cp': "\<And>r. r \<in> set (db_checkpoints d') \<Longrightarrow> r \<in> set (db_checkpoints d) \<or>
      r = \<lparr>cp_aggregate = task_uuid i, cp_kind = TaskAggregate, cp_revision = uint (t_revision s'),
           cp_state = sb, cp_head = digest_to_string h'\<rparr>"
    by (rule append_task_event_Inr) (auto simp: i)
  show "task_apply (contract_digest c) s e = Inr s'" and "db_leases d' = db_leases d"
    by (fact app, fact leases)
  let ?rows = "task_events i d @ [journal_row i (t_revision s') b h']"
  have j': "journal c i ?rows s' h'"
    by (rule journal.step [OF j e app hash small])
  have rows: "task_events i d' = ?rows"
    using task_events_append [OF ev, of i] by simp
  have "checkpoint_ok c i ?rows r" if "r \<in> set (db_checkpoints d')" "is_checkpoint_of i r" for r
  proof (cases "r \<in> set (db_checkpoints d)")
    case True
    with cps that(2) show ?thesis
      by (simp add: checkpoint_ok_extend)
  next
    case False
    with cp' [OF that(1)] have "r = \<lparr>cp_aggregate = task_uuid i, cp_kind = TaskAggregate,
        cp_revision = uint (t_revision s'), cp_state = sb, cp_head = digest_to_string h'\<rparr>"
      by blast
    moreover have "uint (t_revision s') = int (length ?rows)"
      using journal_length [OF j'] by (metis uint_nat_eq)
    ultimately show ?thesis
      using j' sb unfolding checkpoint_ok_def
      by (intro exI [of _ "length ?rows"] exI [of _ s'] exI [of _ h']) simp
  qed
  then show "\<exists>h'. task_ok c d' i s' h'"
    using j' rows tasks row sb by (intro exI [of _ h']) (simp add: task_ok_def task_row_def)
qed

lemma append_task_event_frame:
  assumes "append_task_event c st s h e d = Inr (s', d')" and "i \<noteq> t_id s" and "task_ok c d i t g"
  shows "task_ok c d' i t g"
  using assms(1)
proof (rule append_task_event_Inr)
  fix b h' sb
  assume ev: "db_events d' = db_events d @ [journal_row (t_id s) (t_revision s') b h']"
    and tasks: "db_tasks d' = (if db_tasks d (t_id s) = None then db_tasks d
      else (db_tasks d)(t_id s \<mapsto> \<lparr>ar_revision = uint (t_revision s'), ar_state = sb,
        ar_head = digest_to_string h'\<rparr>))"
    and cp: "\<And>r. r \<in> set (db_checkpoints d') \<Longrightarrow> r \<in> set (db_checkpoints d) \<or>
      r = \<lparr>cp_aggregate = task_uuid (t_id s), cp_kind = TaskAggregate, cp_revision = uint (t_revision s'),
           cp_state = sb, cp_head = digest_to_string h'\<rparr>"
  have "task_events i d' = task_events i d"
    using task_events_append [OF ev, of i] assms(2) by simp
  moreover have "db_tasks d' i = db_tasks d i"
    using tasks assms(2) by simp
  moreover have "r \<in> set (db_checkpoints d)" if "r \<in> set (db_checkpoints d')" "is_checkpoint_of i r" for r
    using cp [OF that(1)] that(2) assms(2) by (auto simp: is_checkpoint_of_def TaskId.expand)
  ultimately show ?thesis
    using assms(3) by (simp add: task_ok_def)
qed

section \<open>The contract of the journal\<close>

text \<open>
  What the commands of the store rely on: a consistent aggregate loads, appending applies the event,
  keeps the aggregate consistent, and leaves the others alone.
\<close>

locale event_log =
  fixes ok :: "'d \<Rightarrow> 'i \<Rightarrow> 's \<Rightarrow> 'h \<Rightarrow> bool"
    and load :: "'d \<Rightarrow> 'i \<Rightarrow> 'e + 's \<times> 'h"
    and append :: "'s \<Rightarrow> 'h \<Rightarrow> 'v \<Rightarrow> 'd \<Rightarrow> 'e + 's \<times> 'd"
    and applies :: "'s \<Rightarrow> 'v \<Rightarrow> 's \<Rightarrow> bool"
    and admissible :: "'s \<Rightarrow> 'v \<Rightarrow> bool"
  assumes load_ok: "ok d i s h \<Longrightarrow> load d i = Inr (s, h)"
    and append_applies: "ok d i s h \<Longrightarrow> append s h e d = Inr (s', d') \<Longrightarrow> applies s e s'"
    and append_ok: "ok d i s h \<Longrightarrow> append s h e d = Inr (s', d') \<Longrightarrow> admissible s e \<Longrightarrow> \<exists>h'. ok d' i s' h'"
    and append_frame: "ok d i s h \<Longrightarrow> append s h e d = Inr (s', d') \<Longrightarrow> j \<noteq> i \<Longrightarrow> ok d j t g \<Longrightarrow> ok d' j t g"
begin

lemma ok_unique: "ok d i s h \<Longrightarrow> ok d i s' h' \<Longrightarrow> s' = s \<and> h' = h"
  using load_ok [of d i s h] load_ok [of d i s' h'] by simp

lemma read_after_append:
  "ok d i s h \<Longrightarrow> append s h e d = Inr (s', d') \<Longrightarrow> admissible s e \<Longrightarrow> \<exists>h'. load d' i = Inr (s', h')"
  using append_ok load_ok by blast

text \<open>A command reads the aggregate, decides on an event and appends it in one transaction.\<close>

definition command :: "'i \<Rightarrow> ('s \<Rightarrow> 'e + 'v) \<Rightarrow> 'd \<Rightarrow> 'e + 's \<times> 'd" where
  "command i decide d =
     and_then (load d i) (\<lambda>(s, h). and_then (decide s) (\<lambda>e. append s h e d))"

lemma command_Inr:
  assumes "ok d i s h" and "command i decide d = Inr (s', d')"
    and "\<And>e. decide s = Inr e \<Longrightarrow> admissible s e"
  obtains e h' where "decide s = Inr e" and "applies s e s'" and "ok d' i s' h'"
    and "\<And>j t g. j \<noteq> i \<Longrightarrow> ok d j t g \<Longrightarrow> ok d' j t g"
proof -
  from assms(2) load_ok [OF assms(1)] obtain e where e: "decide s = Inr e"
    and app: "append s h e d = Inr (s', d')"
    by (auto simp: command_def result_simps)
  from append_ok [OF assms(1) app assms(3) [OF e]] obtain h' where "ok d' i s' h'" ..
  with e append_applies [OF assms(1) app] append_frame [OF assms(1) app] that show thesis
    by blast
qed

lemma command_rejected:
  assumes "ok d i s h" and "decide s = Inl err"
  shows "command i decide d = Inl err"
  using load_ok [OF assms(1)] assms(2) by (simp add: command_def)

end

text \<open>
  Two databases seen through one codec: the invariant carries the hypothesis on the encodings.
\<close>

definition stored :: "('b, 'z) codec_scheme \<Rightarrow> 'b db \<Rightarrow> TaskId \<Rightarrow> TaskState \<Rightarrow> digest \<Rightarrow> bool" where
  "stored c d i s h \<longleftrightarrow> codec_ok c \<and> task_ok c d i s h"

interpretation tasks: event_log "stored c" "load_state c" "append_task_event c st"
  "\<lambda>s e s'. task_apply (contract_digest c) s e = Inr s'" "\<lambda>_ _. True"
proof
  fix d :: "'a db" and i s h
  assume ok: "stored c d i s h"
  then show "load_state c d i = Inr (s, h)"
    by (simp add: stored_def load_state_ok)
  fix e s' and d' :: "'a db"
  assume app: "append_task_event c st s h e d = Inr (s', d')"
  show "task_apply (contract_digest c) s e = Inr s'" and "\<exists>h'. stored c d' i s' h'"
    using ok append_task_event_ok [of c d i s h st e s' d'] app by (auto simp: stored_def)
  fix j t g
  assume "j \<noteq> i" and "stored c d j t g"
  moreover have "t_id s = i"
    using ok journal_length [of c i "task_events i d" s h] by (simp add: stored_def task_ok_def)
  ultimately show "stored c d' j t g"
    using append_task_event_frame [OF app] by (simp add: stored_def)
qed

section \<open>Tamper evidence\<close>

text \<open>The byte strings the loader hashes for a row after the given head.\<close>

definition hashed_bytes ::
    "('b, 'z) codec_scheme \<Rightarrow> TaskId \<Rightarrow> u64 \<Rightarrow> digest option \<Rightarrow> 'b event_row \<Rightarrow> 'b set" where
  "hashed_bytes c i revision head r =
     insert (er_event r)
       (case enc_link c (kind_name TaskAggregate, task_uuid i, revision, head, sha c (er_event r)) of
          Inl _ \<Rightarrow> {} | Inr b \<Rightarrow> {b})"

text \<open>All of them along a list of rows.\<close>

fun chain_bytes ::
    "('b, 'z) codec_scheme \<Rightarrow> TaskId \<Rightarrow> cursor \<Rightarrow> 'b event_row list \<Rightarrow> 'b set" where
  "chain_bytes c i cur [] = {}"
| "chain_bytes c i cur (r # rs) =
     hashed_bytes c i (snd (snd cur) + 1) (fst (snd cur)) r \<union>
     (case replay_row c i cur r of Inl _ \<Rightarrow> {} | Inr cur' \<Rightarrow> chain_bytes c i cur' rs)"

definition collision :: "('b, 'z) codec_scheme \<Rightarrow> 'b set \<Rightarrow> 'b set \<Rightarrow> bool" where
  "collision c A B \<longleftrightarrow> (\<exists>a \<in> A. \<exists>b \<in> B. a \<noteq> b \<and> sha c a = sha c b)"

lemma chain_bytes_append:
  "try_fold (replay_row c i) cur rs = Inr cur' \<Longrightarrow>
     chain_bytes c i cur (rs @ [r]) =
       chain_bytes c i cur rs \<union> hashed_bytes c i (snd (snd cur') + 1) (fst (snd cur')) r"
proof (induction rs arbitrary: cur)
  case Nil
  then show ?case by (auto split: sum.splits)
next
  case (Cons a rs)
  then show ?case by (auto simp: result_simps)
qed

text \<open>The \<open>INTEGER\<close> column holds a signed 64-bit number.\<close>

definition i64_columns :: "'b db \<Rightarrow> bool" where
  "i64_columns d \<longleftrightarrow> (\<forall>r \<in> set (db_events d). er_revision r < 2 ^ 63)"

lemma replay_row_Inr:
  assumes "replay_row c i cur r = Inr cur'"
  obtains b s where "cur' = (Some s, Some (sha c b), snd (snd cur) + 1)"
    and "enc_link c (kind_name TaskAggregate, task_uuid i, snd (snd cur) + 1, fst (snd cur), sha c (er_event r)) = Inr b"
    and "0 \<le> er_revision r" and "of_int (er_revision r) = snd (snd cur) + 1"
    and "\<exists>e. dec_event c (er_event r) = Inr e \<and> replay_event c i (fst cur) e = Inr s"
proof -
  obtain state head sequence where cur: "cur = (state, head, sequence)"
    by (metis prod_cases3)
  from assms show thesis
    unfolding cur using that cur
    by (auto simp: replay_row_def event_hash_def aggregate_hash_def of_value_def result_simps
        u64_of_i64_def Let_def split: if_splits)
qed

text \<open>Accepted rows number the events one by one.\<close>

lemma replay_rows_sequence:
  assumes "try_fold (replay_row c i) cur rs = Inr cur'" and "unat (snd (snd cur)) < 2 ^ 63"
    and "\<forall>r \<in> set rs. er_revision r < 2 ^ 63"
  shows "unat (snd (snd cur')) = unat (snd (snd cur)) + length rs"
  using assms
proof (induction rs arbitrary: cur)
  case Nil
  then show ?case by simp
next
  case (Cons r rs)
  then obtain cur1 where step: "replay_row c i cur r = Inr cur1" and rest: "try_fold (replay_row c i) cur1 rs = Inr cur'"
    by (auto simp: result_simps)
  then obtain b s where cur1: "snd (snd cur1) = snd (snd cur) + 1" and rev: "0 \<le> er_revision r"
    "of_int (er_revision r) = snd (snd cur) + 1"
    by (auto elim: replay_row_Inr)
  have n: "unat (snd (snd cur) + 1) = unat (snd (snd cur)) + 1"
    using Cons.prems(2) by (intro unat_plus_one) simp
  have "er_revision r < 2 ^ 63"
    using Cons.prems(3) by simp
  then have "uint (of_int (er_revision r) :: u64) = er_revision r"
    using rev(1) by (simp add: uint_word_of_int take_bit_int_eq_self)
  then have "int (unat (snd (snd cur) + 1)) < 2 ^ 63"
    using rev(2) \<open>er_revision r < 2 ^ 63\<close> by (metis uint_nat_eq)
  then have "unat (snd (snd cur1)) < 2 ^ 63"
    using cur1 by (metis of_nat_less_iff of_nat_numeral of_nat_power)
  with Cons.IH [OF rest] Cons.prems(3) n cur1 show ?case by simp
qed

lemma replay_rows_snoc:
  assumes "try_fold (replay_row c i) cur (rs @ [r]) = Inr cur'"
  obtains mid where "try_fold (replay_row c i) cur rs = Inr mid" and "replay_row c i mid r = Inr cur'"
  using assms by (auto simp: try_fold_append result_simps)

text \<open>
  Two accepted continuations of the same cursor of the same length with the same final hash have the
  same events, unless two of the strings hashed along them collide.
\<close>

lemma chains_agree:
  assumes "codec_ok c" and "length rs = length rs'"
    and "try_fold (replay_row c i) cur rs = Inr (s, h, n)"
    and "try_fold (replay_row c i) cur rs' = Inr (s', h, n')"
    and "\<not> collision c (chain_bytes c i cur rs) (chain_bytes c i cur rs')"
  shows "map er_event rs = map er_event rs' \<and> s = s'"
  using assms(2-5)
proof (induction rs arbitrary: rs' s h n s' n' rule: rev_induct)
  case Nil
  then show ?case by simp
next
  case (snoc r rs)
  then obtain r' ys where rs': "rs' = ys @ [r']" and len: "length rs = length ys"
    by (metis length_append_singleton length_Suc_conv_rev)
  obtain m where m: "try_fold (replay_row c i) cur rs = Inr m" "replay_row c i m r = Inr (s, h, n)"
    using snoc.prems(2) by (rule replay_rows_snoc)
  obtain m' where m': "try_fold (replay_row c i) cur ys = Inr m'" "replay_row c i m' r' = Inr (s', h, n')"
    using snoc.prems(3) unfolding rs' by (rule replay_rows_snoc)
  from m(2) obtain b t where b: "s = Some t" "h = Some (sha c b)"
      "enc_link c (kind_name TaskAggregate, task_uuid i, snd (snd m) + 1, fst (snd m), sha c (er_event r)) = Inr b"
      "\<exists>e. dec_event c (er_event r) = Inr e \<and> replay_event c i (fst m) e = Inr t"
    by (rule replay_row_Inr) auto
  from m'(2) obtain b' t' where b': "s' = Some t'" "h = Some (sha c b')"
      "enc_link c (kind_name TaskAggregate, task_uuid i, snd (snd m') + 1, fst (snd m'), sha c (er_event r')) = Inr b'"
      "\<exists>e. dec_event c (er_event r') = Inr e \<and> replay_event c i (fst m') e = Inr t'"
    by (rule replay_row_Inr) auto
  have bytes: "chain_bytes c i cur (rs @ [r]) = chain_bytes c i cur rs \<union> {er_event r, b}"
    "chain_bytes c i cur (ys @ [r']) = chain_bytes c i cur ys \<union> {er_event r', b'}"
    using chain_bytes_append [OF m(1), of r] chain_bytes_append [OF m'(1), of r'] b(3) b'(3)
    by (simp_all add: hashed_bytes_def)
  have no: "sha c x = sha c y \<Longrightarrow> x = y"
    if "x \<in> {er_event r, b}" "y \<in> {er_event r', b'}" for x y
    using snoc.prems(4) that unfolding rs' bytes collision_def by blast
  have "b = b'"
    by (rule no) (use b(2) b'(2) in simp_all)
  then have "(kind_name TaskAggregate, task_uuid i, snd (snd m) + 1, fst (snd m), sha c (er_event r)) =
      (kind_name TaskAggregate, task_uuid i, snd (snd m') + 1, fst (snd m'), sha c (er_event r'))"
    using assms(1) b(3) b'(3) unfolding codec_ok_def by blast
  then have eq: "fst (snd m) = fst (snd m')" and "sha c (er_event r) = sha c (er_event r')"
    by simp_all
  then have ev: "er_event r = er_event r'"
    by (intro no) simp_all
  obtain s1 h1 n1 where mm: "m = (s1, h1, n1)"
    by (metis prod_cases3)
  obtain s2 n2 where mm': "m' = (s2, h1, n2)"
    using eq mm by (metis fst_conv prod_cases3 snd_conv)
  have "\<not> collision c (chain_bytes c i cur rs) (chain_bytes c i cur ys)"
    using snoc.prems(4) unfolding rs' bytes collision_def by blast
  then have "map er_event rs = map er_event ys \<and> s1 = s2"
    using snoc.IH [OF len] m(1) m'(1) mm mm' by simp
  with ev b b' mm mm' show ?case
    by (auto simp: rs')
qed

end
