(* ===== verification/Task_Store.thy ===== *)
theory Task_Store
  imports Task_Journal
begin

text \<open>
  The task commands of the store (\<^verbatim>\<open>store.rs\<close>). Each command is one transaction: it loads and
  cross-checks the journal, tests its guards, and appends events. The codec, the artifact store, the
  clock reading and fresh identifiers are arguments; a command returns the new database with its
  result, and an error leaves the database as it was.
\<close>

section \<open>Transactions\<close>

type_synonym 'b operation = "TaskState \<Rightarrow> 'b db \<Rightarrow> StoreError + TaskEvent \<times> 'b db"

definition change ::
    "('b, 'z) codec_scheme \<Rightarrow> 'b ArtifactStore \<Rightarrow> TaskId \<Rightarrow> u64 option \<Rightarrow> bool \<Rightarrow> 'b operation \<Rightarrow> 'b db \<Rightarrow>
     StoreError + TaskState \<times> 'b db" where
  "change c st i revision allow_terminal operation d =
     and_then (load_state c d i) (\<lambda>(s, head).
     if (case revision of None \<Rightarrow> False | Some expected \<Rightarrow> expected \<noteq> t_revision s)
     then Inl (RevisionMismatch (the revision) (t_revision s))
     else if \<not> allow_terminal \<and> t_outcome s \<noteq> None then Inl Terminal
     else and_then (operation s d) (\<lambda>(event, d1). commit_event c st s head event d1))"

definition accepted_contract :: "TaskState \<Rightarrow> StoreError + Contract" where
  "accepted_contract s = ok_or (t_contract s) ContractPending"

definition read_all ::
    "('b, 'z) codec_scheme \<Rightarrow> 'b ArtifactStore \<Rightarrow> digest list \<Rightarrow> StoreError + unit" where
  "read_all c st ds =
     try_each (\<lambda>x. and_then (map_err StoreArtifact (read_artifact c st x)) (\<lambda>_. Inr ())) ds"

definition check_budget :: "u64 \<Rightarrow> TaskState \<Rightarrow> StoreError + unit" where
  "check_budget now s =
     (if t_cancellation_requested s then Inl StoreCancelled
      else if us_model_calls (t_usage s) \<ge> l_model_calls (limits s)
          \<or> us_tokens (t_usage s) \<ge> l_tokens (limits s)
          \<or> saturating_sub now (t_started_ms s) \<ge> l_elapsed_ms (limits s)
      then Inl Budget else Inr ())"

definition unresolved_jobs :: "TaskState \<Rightarrow> Job list" where
  "unresolved_jobs s = filter (\<lambda>job. unresolved (j_status job)) (bt_values (t_jobs s))"

definition admit_job :: "u64 \<Rightarrow> TaskState \<Rightarrow> StoreError + unit" where
  "admit_job now s =
     (if t_cancellation_requested s then Inl StoreCancelled
      else if saturating_sub now (t_started_ms s) \<ge> l_elapsed_ms (limits s) then Inl Budget
      else if length (unresolved_jobs s) \<ge> unat (l_concurrent_jobs (limits s))
      then Inl (Invalid ''job capacity exhausted'')
      else Inr ())"

definition active_writer :: "TaskState \<Rightarrow> bool" where
  "active_writer s =
     list_ex (\<lambda>job. j_mutates_candidate job \<and> unresolved (j_status job)) (bt_values (t_jobs s))"

text \<open>An operation that leaves the other tables alone.\<close>

definition pure_operation :: "(TaskState \<Rightarrow> StoreError + TaskEvent) \<Rightarrow> 'b operation" where
  "pure_operation f s d = and_then (f s) (\<lambda>event. Inr (event, d))"

section \<open>Creation and loading\<close>

definition create ::
    "('b, 'z) codec_scheme \<Rightarrow> 'b ArtifactStore \<Rightarrow> TaskId \<Rightarrow> u64 \<Rightarrow> Contract \<Rightarrow> 'b db \<Rightarrow>
     StoreError + TaskState \<times> 'b db" where
  "create c st i now contract d =
     and_then (map_err StoreContract (contract_validate contract)) (\<lambda>_.
     let event = Created contract now; s = created i contract now in
     and_then (event_bytes c event) (\<lambda>bytes.
     and_then (event_hash c i 1 None bytes) (\<lambda>hash.
     and_then (check_artifact_budget c st d i event (l_artifact_bytes (limits s))) (\<lambda>_.
     and_then (map_err StoreJson (enc_state c s)) (\<lambda>state_bytes.
     and_then (insert_task i \<lparr>ar_revision = 1, ar_state = state_bytes,
         ar_head = digest_to_string hash\<rparr> d) (\<lambda>d1.
     and_then (insert_event \<lparr>er_aggregate = task_uuid i, er_kind = TaskAggregate, er_revision = 1,
         er_event = bytes, er_hash = digest_to_string hash\<rparr> d1) (\<lambda>d2.
     and_then (store_checkpoint c i 1 s hash d2) (\<lambda>d3. Inr (s, d3)))))))))"

definition load :: "('b, 'z) codec_scheme \<Rightarrow> 'b db \<Rightarrow> TaskId \<Rightarrow> StoreError + TaskState" where
  "load c d i = and_then (load_state c d i) (\<lambda>(s, _). Inr s)"

definition certificate_refs :: "TaskState \<Rightarrow> Certificate \<Rightarrow> blob list" where
  "certificate_refs s cert =
     [(cert_source cert, SnapshotBlob), (cert_artifact cert, Opaque), (cert_environment cert, Opaque),
      (cert_delivery_receipt cert, Opaque)] @
     (case t_candidate s of
        None \<Rightarrow> []
      | Some candidate \<Rightarrow>
          (case cand_provenance candidate of None \<Rightarrow> [] | Some p \<Rightarrow> [(p, PatchReceipt)])) @
     concat (map (\<lambda>e. [(ob_report (ev_observation e), Opaque), (ei_verifier (ev_identity e), Opaque)] @
         (case ob_control (ev_observation e) of
            None \<Rightarrow> []
          | Some control \<Rightarrow> [(co_source control, SnapshotBlob), (co_report control, Opaque)]))
       (filter (\<lambda>e. ev_job_id e \<in> set (bt_values (cert_evidence cert))) (t_evidence s)))"

definition audit_certificate ::
    "('b, 'z) codec_scheme \<Rightarrow> 'b ArtifactStore \<Rightarrow> TaskState \<Rightarrow> StoreError + unit" where
  "audit_certificate c st s =
     (if t_certificates s = [] then Inl (Integrity ''completed task has no certificate'')
      else verify_artifact_graph c st (extend_refs (certificate_refs s (last (t_certificates s))) [])
             (l_artifact_bytes (limits s)))"

text \<open>\<open>show_error\<close> is the display text of an error.\<close>

definition audit_evidence ::
    "('b, 'z) codec_scheme \<Rightarrow> 'b ArtifactStore \<Rightarrow> (StoreError \<Rightarrow> string) \<Rightarrow> TaskId \<Rightarrow> 'b db \<Rightarrow>
     StoreError + TaskState \<times> 'b db" where
  "audit_evidence c st show_error i d =
     and_then (load c d i) (\<lambda>s.
     if t_outcome s \<noteq> Some Complete then Inr (s, d) else
     case audit_certificate c st s of
       Inr _ \<Rightarrow> Inr (s, d)
     | Inl err \<Rightarrow> change c st i (Some (t_revision s)) True
         (pure_operation (\<lambda>_. Inr (EvidenceInvalidated
            (''completion evidence unavailable or corrupt: '' @ show_error err)))) d)"

section \<open>Candidates and workspaces\<close>

definition reproduces :: "PatchValidationReceipt \<Rightarrow> Candidate \<Rightarrow> bool" where
  "reproduces receipt candidate =
     (pr_patch receipt = cand_artifact candidate \<and> pr_candidate receipt = cand_source candidate \<and>
      pr_applied_snapshot receipt = cand_source candidate \<and>
      list_all gc_process_group_quiescent (pr_commands receipt))"

definition select_candidate ::
    "('b, 'z) codec_scheme \<Rightarrow> 'b ArtifactStore \<Rightarrow> TaskId \<Rightarrow> u64 \<Rightarrow> Candidate \<Rightarrow> 'b db \<Rightarrow>
     StoreError + TaskState \<times> 'b db" where
  "select_candidate c st i revision candidate =
     change c st i (Some revision) False (pure_operation (\<lambda>s.
       and_then (read_all c st [cand_source candidate, cand_environment candidate, cand_artifact candidate])
         (\<lambda>_.
       and_then (if cand_artifact candidate \<noteq> cand_source candidate then
           and_then (ok_or (cand_provenance candidate)
               (Invalid ''derived artifact requires reproduction evidence'')) (\<lambda>p.
           and_then (map_err StoreArtifact (read_artifact c st p)) (\<lambda>bytes.
           and_then (map_err StoreJson (dec_patch c bytes)) (\<lambda>receipt.
           if \<not> reproduces receipt candidate
           then Inl (Invalid ''artifact reproduction evidence does not match the candidate'')
           else Inr ())))
         else Inr ()) (\<lambda>_.
       if active_writer s then Inl (Invalid ''candidate has active writers'')
       else Inr (CandidateSelected candidate)))))"

definition workspace_available ::
    "('b, 'z) codec_scheme \<Rightarrow> 'b ArtifactStore \<Rightarrow> digest \<Rightarrow> StoreError + unit" where
  "workspace_available c st x =
     map_err (\<lambda>_. Integrity ''workspace admission has unavailable source'')
       (and_then (snapshot_load c (dec_snapshot c) st x) (\<lambda>snapshot. verify_artifacts c st snapshot))"

definition establish_workspace ::
    "('b, 'z) codec_scheme \<Rightarrow> 'b ArtifactStore \<Rightarrow> TaskId \<Rightarrow> u64 \<Rightarrow> digest \<Rightarrow> Candidate \<Rightarrow> 'b db \<Rightarrow>
     StoreError + TaskState \<times> 'b db" where
  "establish_workspace c st i revision origin baseline d =
     and_then (load_state c d i) (\<lambda>(s, head).
     if t_revision s \<noteq> revision then Inl (RevisionMismatch revision (t_revision s))
     else if t_outcome s \<noteq> None \<or> t_origin s \<noteq> None \<or> t_baseline s \<noteq> None \<or> \<not> cand_frozen baseline
     then Inl (Invalid ''workspace must be admitted exactly once'') else
     and_then (try_each (workspace_available c st) [origin, cand_source baseline]) (\<lambda>_.
     and_then (read_all c st [cand_environment baseline, cand_artifact baseline]) (\<lambda>_.
     and_then (append_task_event c st s head (OriginCaptured origin) d) (\<lambda>(s1, d1).
     and_then (load_state c d1 i) (\<lambda>(_, head1).
     append_task_event c st s1 head1 (BaselineEstablished baseline) d1)))))"

definition establish_baseline ::
    "('b, 'z) codec_scheme \<Rightarrow> 'b ArtifactStore \<Rightarrow> TaskId \<Rightarrow> u64 \<Rightarrow> Candidate \<Rightarrow> 'b db \<Rightarrow>
     StoreError + TaskState \<times> 'b db" where
  "establish_baseline c st i revision baseline =
     change c st i (Some revision) False (pure_operation (\<lambda>s.
       if t_baseline s \<noteq> None \<or> \<not> cand_frozen baseline
       then Inl (Invalid ''baseline must be immutable and established once'') else
       and_then (read_all c st [cand_source baseline, cand_environment baseline, cand_artifact baseline])
         (\<lambda>_. Inr (BaselineEstablished baseline))))"

definition invalidate_candidate ::
    "('b, 'z) codec_scheme \<Rightarrow> 'b ArtifactStore \<Rightarrow> TaskId \<Rightarrow> u64 \<Rightarrow> string \<Rightarrow> 'b db \<Rightarrow>
     StoreError + TaskState \<times> 'b db" where
  "invalidate_candidate c st i revision reason =
     change c st i (Some revision) False (pure_operation (\<lambda>_. Inr (WorkspaceChanged reason)))"

definition request_cancellation ::
    "('b, 'z) codec_scheme \<Rightarrow> 'b ArtifactStore \<Rightarrow> TaskId \<Rightarrow> 'b db \<Rightarrow> StoreError + TaskState \<times> 'b db" where
  "request_cancellation c st i d =
     and_then (load c d i) (\<lambda>s.
     if t_cancellation_requested s \<or> t_outcome s \<noteq> None then Inr (s, d)
     else change c st i (Some (t_revision s)) False (pure_operation (\<lambda>_. Inr CancellationRequested)) d)"

section \<open>Contracts and phases\<close>

definition amend_contract ::
    "('b, 'z) codec_scheme \<Rightarrow> 'b ArtifactStore \<Rightarrow> TaskId \<Rightarrow> u64 \<Rightarrow> Contract \<Rightarrow> string \<Rightarrow> 'b db \<Rightarrow>
     StoreError + TaskState \<times> 'b db" where
  "amend_contract c st i revision contract user_basis d =
     and_then (map_err StoreContract (contract_validate contract)) (\<lambda>_.
     if blank user_basis then Inl (Invalid ''contract amendment requires a recorded user basis'') else
     change c st i (Some revision) False (pure_operation (\<lambda>s.
       and_then (accepted_contract s) (\<lambda>_.
       if t_request s \<noteq> c_request contract
       then Inl (Invalid ''amendments must preserve the original request'')
       else Inr (ContractAmended contract user_basis)))) d)"

definition admit_contract ::
    "('b, 'z) codec_scheme \<Rightarrow> 'b ArtifactStore \<Rightarrow> TaskId \<Rightarrow> u64 \<Rightarrow> Contract \<Rightarrow> string \<Rightarrow> digest \<Rightarrow> 'b db \<Rightarrow>
     StoreError + TaskState \<times> 'b db" where
  "admit_contract c st i revision contract basis receipt d =
     and_then (map_err StoreContract (contract_validate contract)) (\<lambda>_.
     if blank basis then Inl (Invalid ''contract admission requires a recorded basis'') else
     change c st i (Some revision) False (pure_operation (\<lambda>s.
       if t_contract s \<noteq> None then Inl (Invalid ''contract is already admitted'')
       else if c_request contract \<noteq> t_request s \<or> c_limits contract \<noteq> t_initial_limits s
       then Inl (Invalid ''contract admission cannot rewrite the request or its authorized limits'')
       else and_then (read_all c st [receipt]) (\<lambda>_. Inr (ContractAdmitted contract basis receipt)))) d)"

definition set_phase ::
    "('b, 'z) codec_scheme \<Rightarrow> 'b ArtifactStore \<Rightarrow> TaskId \<Rightarrow> u64 \<Rightarrow> Phase \<Rightarrow> 'b db \<Rightarrow>
     StoreError + TaskState \<times> 'b db" where
  "set_phase c st i revision phase =
     change c st i (Some revision) False (pure_operation (\<lambda>s.
       and_then (if \<not> (phase = Understand \<or> phase = Baseline) then
           if t_amendment_pending s then Inl (Invalid ''user follow-up awaits contract admission'')
           else and_then (accepted_contract s) (\<lambda>_. Inr ())
         else Inr ()) (\<lambda>_. Inr (PhaseChanged phase))))"

definition preserves_obligations :: "Contract \<Rightarrow> Contract \<Rightarrow> StoreError + unit" where
  "preserves_obligations old new =
     (if c_request new \<noteq> c_request old \<or> c_limits new \<noteq> c_limits old \<or> c_delivery new \<noteq> c_delivery old
         \<or> \<not> starts_with (c_outcome new) (c_outcome old) \<or> \<not> starts_with (c_scope new) (c_scope old)
         \<or> list_ex (\<lambda>r. r \<notin> set (c_requirements new)) (c_requirements old)
         \<or> list_ex (\<lambda>(i, check). bt_get (c_checks new) i \<noteq> Some check) (c_checks old)
         \<or> list_ex (\<lambda>b. b \<notin> set (c_protected_behavior new)) (c_protected_behavior old)
         \<or> list_ex (\<lambda>a. a \<notin> set (c_assumptions new)) (c_assumptions old)
      then Inl (Invalid ''follow-up must preserve all accepted obligations and limits'') else Inr ())"

definition accept_additive_contract ::
    "('b, 'z) codec_scheme \<Rightarrow> 'b ArtifactStore \<Rightarrow> TaskId \<Rightarrow> u64 \<Rightarrow> Contract \<Rightarrow> digest \<Rightarrow> 'b db \<Rightarrow>
     StoreError + TaskState \<times> 'b db" where
  "accept_additive_contract c st i revision contract receipt d =
     and_then (map_err StoreContract (contract_validate contract)) (\<lambda>_.
     change c st i (Some revision) False (pure_operation (\<lambda>s.
       if \<not> t_amendment_pending s then Inl (Invalid ''there is no pending user follow-up'') else
       and_then (case t_contract s of
           Some old \<Rightarrow> preserves_obligations old contract
         | None \<Rightarrow>
             if c_request contract \<noteq> t_request s \<or> c_limits contract \<noteq> t_initial_limits s
             then Inl (Invalid ''follow-up changed original objective or limits'') else Inr ()) (\<lambda>_.
       and_then (read_all c st [receipt]) (\<lambda>_.
       Inr (AdditiveContractAccepted contract receipt (t_scope_revision s)))))) d)"

section \<open>Verification leases\<close>

text \<open>The token is the byte string of a fresh identifier; only its digest is stored.\<close>

record 'b VerificationLease =
  vl_task :: TaskId
  vl_job :: uuid
  vl_token :: 'b

definition delete_lease :: "TaskId \<Rightarrow> uuid \<Rightarrow> 'b db \<Rightarrow> 'b db" where
  "delete_lease i job d = d\<lparr>db_leases := (db_leases d)((i, job) := None)\<rparr>"

definition insert_lease :: "TaskId \<Rightarrow> uuid \<Rightarrow> string \<Rightarrow> 'b db \<Rightarrow> StoreError + 'b db" where
  "insert_lease i job token_digest d =
     (if db_leases d (i, job) \<noteq> None then Inl (StoreSql ''UNIQUE constraint failed: leases'')
      else Inr (d\<lparr>db_leases := (db_leases d)((i, job) \<mapsto> token_digest)\<rparr>))"

definition check_job ::
    "('b, 'z) codec_scheme \<Rightarrow> uuid \<Rightarrow> u64 \<Rightarrow> string \<Rightarrow> TaskState \<Rightarrow> StoreError + Job" where
  "check_job c job_id now check s =
     (if t_amendment_pending s then Inl (Invalid ''user follow-up awaits contract admission'') else
      and_then (admit_job now s) (\<lambda>_.
      and_then (ok_or (case t_candidate s of Some x \<Rightarrow> if cand_frozen x then Some x else None | None \<Rightarrow> None)
          (Invalid ''verification requires a frozen candidate'')) (\<lambda>candidate.
      and_then (accepted_contract s) (\<lambda>contract.
      and_then (ok_or (bt_get (c_checks contract) check) (Invalid ''unknown acceptance check'')) (\<lambda>definition.
      and_then (map_err StoreJson (contract_digest c contract)) (\<lambda>contract_d.
      and_then (map_err StoreJson (check_digest c definition)) (\<lambda>definition_d.
      Inr \<lparr>j_id = job_id, j_generation = t_generation s, j_status = Running,
           j_mutates_candidate = False, j_check = Some check,
           j_identity = Some (evidence_identity contract_d candidate definition_d definition),
           j_started_ms = now, j_deadline_ms = saturating_add now (d_timeout_ms definition),
           j_invocation = None, j_fence_receipt = None, j_execution_receipt = None\<rparr>)))))))"

definition begin_check ::
    "('b, 'z) codec_scheme \<Rightarrow> 'b ArtifactStore \<Rightarrow> TaskId \<Rightarrow> u64 \<Rightarrow> string \<Rightarrow> 'b \<Rightarrow> uuid \<Rightarrow> u64 \<Rightarrow> 'b db \<Rightarrow>
     StoreError + 'b VerificationLease \<times> 'b db" where
  "begin_check c st i revision check token job_id now d =
     and_then (change c st i (Some revision) False (\<lambda>s d0.
         and_then (check_job c job_id now check s) (\<lambda>job.
         and_then (insert_lease i job_id (digest_to_string (sha c token)) d0) (\<lambda>d1.
         Inr (JobStarted job, d1)))) d)
       (\<lambda>(_, d'). Inr (\<lparr>vl_task = i, vl_job = job_id, vl_token = token\<rparr>, d'))"

definition lease_evidence ::
    "('b, 'z) codec_scheme \<Rightarrow> 'b ArtifactStore \<Rightarrow> uuid \<Rightarrow> u64 \<Rightarrow> Observation \<Rightarrow> TaskState \<Rightarrow>
     StoreError + Evidence" where
  "lease_evidence c st job_id now observation s =
     and_then (ok_or (case bt_get (t_jobs s) job_id of
           Some job \<Rightarrow> if j_status job = Running \<and> j_generation job = t_generation s then Some job else None
         | None \<Rightarrow> None) LeaseInvalid) (\<lambda>job.
     if now > j_deadline_ms job \<and> ob_status observation = CheckPassed then Inl LeaseInvalid else
     and_then (read_all c st [ob_report observation]) (\<lambda>_.
     and_then (case ob_control observation of
         None \<Rightarrow> Inr ()
       | Some control \<Rightarrow> read_all c st [co_report control, co_source control]) (\<lambda>_.
     and_then (ok_or (j_check job) LeaseInvalid) (\<lambda>check.
     and_then (ok_or (j_identity job) LeaseInvalid) (\<lambda>identity.
     Inr \<lparr>ev_job_id = j_id job, ev_generation = j_generation job, ev_check = check,
          ev_identity = identity, ev_started_ms = j_started_ms job, ev_finished_ms = now,
          ev_observation = observation\<rparr>)))))"

definition finish_check ::
    "('b, 'z) codec_scheme \<Rightarrow> 'b ArtifactStore \<Rightarrow> 'b VerificationLease \<Rightarrow> Observation \<Rightarrow> u64 \<Rightarrow> 'b db \<Rightarrow>
     StoreError + TaskState \<times> 'b db" where
  "finish_check c st lease observation now =
     change c st (vl_task lease) None False (\<lambda>s d0.
       if db_leases d0 (vl_task lease, vl_job lease) \<noteq> Some (digest_to_string (sha c (vl_token lease)))
       then Inl LeaseInvalid else
       and_then (lease_evidence c st (vl_job lease) now observation s) (\<lambda>evidence.
       Inr (Observed evidence, delete_lease (vl_task lease) (vl_job lease) d0)))"

section \<open>Jobs\<close>

text \<open>
  What the start of an execution job reads of a session (\<^verbatim>\<open>session.rs\<close>): the task of each request,
  the active request, the tool calls with their request and whether they have an output, and the
  interpreter's admission test.
\<close>

record session_view =
  sv_tasks_by_request :: "(uuid, TaskId) btreemap"
  sv_active_request :: "uuid option"
  sv_tool_calls :: "(string, uuid \<times> bool) btreemap"
  sv_interpreter_admits :: "string \<Rightarrow> uuid \<Rightarrow> TaskId \<Rightarrow> bool"

definition owns_request :: "session_view \<Rightarrow> TaskId \<Rightarrow> JobInvocation \<Rightarrow> StoreError + unit" where
  "owns_request session i invocation =
     (if bt_get (sv_tasks_by_request session) (ji_request invocation) \<noteq> Some i
         \<or> sv_active_request session \<noteq> Some (ji_request invocation)
      then Inl (Invalid ''execution actor does not own this active request'')
      else case ji_call_id invocation of
        None \<Rightarrow> Inr ()
      | Some call \<Rightarrow>
          if bt_get (sv_tool_calls session) call \<noteq> Some (ji_request invocation, False)
             \<and> \<not> sv_interpreter_admits session call (ji_request invocation) i
          then Inl (Invalid ''execution has no pending admitted tool call'') else Inr ())"

definition job_record ::
    "('b, 'z) codec_scheme \<Rightarrow> 'b ArtifactStore \<Rightarrow> (SessionId \<Rightarrow> StoreError + session_view) \<Rightarrow> TaskId \<Rightarrow>
     bool \<Rightarrow> u64 \<Rightarrow> JobInvocation option \<Rightarrow> uuid \<Rightarrow> u64 \<Rightarrow> TaskState \<Rightarrow> StoreError + TaskEvent" where
  "job_record c st load_session i mutates_candidate timeout_ms invocation job_id now s =
     and_then (admit_job now s) (\<lambda>_.
     if invocation = None \<and> mutates_candidate \<and> t_amendment_pending s
     then Inl (Invalid ''user follow-up awaits contract admission'') else
     and_then (case invocation of
         None \<Rightarrow> Inr ()
       | Some invo \<Rightarrow>
           and_then (read_all c st [ji_input invo, ji_environment invo]) (\<lambda>_.
           and_then (load_session (ji_session invo)) (\<lambda>session. owns_request session i invo))) (\<lambda>_.
     and_then (if invocation = None \<and> mutates_candidate then
           and_then (accepted_contract s) (\<lambda>contract.
             if c_open_questions contract \<noteq> []
             then Inl (Invalid ''material product decisions remain unresolved'') else Inr ())
         else Inr ()) (\<lambda>_.
     if timeout_ms = 0 then Inl (Invalid ''job deadline must be positive'')
     else if mutates_candidate \<and> (case t_candidate s of None \<Rightarrow> False | Some x \<Rightarrow> cand_frozen x)
     then Inl (Invalid ''frozen candidate cannot be mutated'')
     else Inr (JobStarted \<lparr>j_id = job_id, j_generation = t_generation s, j_status = Running,
            j_mutates_candidate = mutates_candidate, j_check = None, j_identity = None,
            j_started_ms = now, j_deadline_ms = saturating_add now timeout_ms,
            j_invocation = invocation, j_fence_receipt = None, j_execution_receipt = None\<rparr>))))"

definition start_job_record ::
    "('b, 'z) codec_scheme \<Rightarrow> 'b ArtifactStore \<Rightarrow> (SessionId \<Rightarrow> StoreError + session_view) \<Rightarrow> TaskId \<Rightarrow>
     u64 \<Rightarrow> bool \<Rightarrow> u64 \<Rightarrow> JobInvocation option \<Rightarrow> uuid \<Rightarrow> u64 \<Rightarrow> 'b db \<Rightarrow>
     StoreError + (TaskState \<times> uuid) \<times> 'b db" where
  "start_job_record c st load_session i revision mutates_candidate timeout_ms invocation job_id now d =
     and_then (change c st i (Some revision) False (pure_operation
         (job_record c st load_session i mutates_candidate timeout_ms invocation job_id now)) d)
       (\<lambda>(s, d'). Inr ((s, job_id), d'))"

definition start_job where
  "start_job c st load_session i revision mutates_candidate timeout_ms job_id now d =
     start_job_record c st load_session i revision mutates_candidate timeout_ms None job_id now d"

definition start_execution_job where
  "start_execution_job c st load_session i revision mutates_candidate timeout_ms invocation job_id now d =
     start_job_record c st load_session i revision mutates_candidate timeout_ms (Some invocation) job_id now d"

definition settle_operation ::
    "('b, 'z) codec_scheme \<Rightarrow> 'b ArtifactStore \<Rightarrow> TaskId \<Rightarrow> uuid \<Rightarrow> JobStatus \<Rightarrow> digest option \<Rightarrow> 'b operation" where
  "settle_operation c st i job_id status receipt s d0 =
     and_then (ok_or (bt_get (t_jobs s) job_id) (Invalid ''unknown job'')) (\<lambda>job.
     if j_invocation job \<noteq> None \<and> receipt = None
     then Inl (Invalid ''execution settlement requires a host receipt'') else
     and_then (case receipt of None \<Rightarrow> Inr () | Some r \<Rightarrow> read_all c st [r]) (\<lambda>_.
     if \<not> unresolved (j_status job) then Inl (Invalid ''job already settled'')
     else if status = JobSucceeded \<and> j_check job \<noteq> None
     then Inl (Invalid ''checks settle through the protected evidence channel'')
     else Inr (JobSettled job_id status receipt, delete_lease i job_id d0)))"

definition settle_job_record ::
    "('b, 'z) codec_scheme \<Rightarrow> 'b ArtifactStore \<Rightarrow> TaskId \<Rightarrow> uuid \<Rightarrow> JobStatus \<Rightarrow> digest option \<Rightarrow> 'b db \<Rightarrow>
     StoreError + TaskState \<times> 'b db" where
  "settle_job_record c st i job_id status receipt d =
     (if status = Running then Inl (Invalid ''settlement cannot restart a job'')
      else if status = Fenced then Inl (Invalid ''fencing requires a termination receipt'')
      else change c st i None True (settle_operation c st i job_id status receipt) d)"

definition settle_job where
  "settle_job c st i job_id status d = settle_job_record c st i job_id status None d"

definition settle_execution_job where
  "settle_execution_job c st i job_id status receipt d =
     settle_job_record c st i job_id status (Some receipt) d"

definition job_is :: "(Job \<Rightarrow> bool) \<Rightarrow> TaskState \<Rightarrow> uuid \<Rightarrow> bool" where
  "job_is p s job_id = (case bt_get (t_jobs s) job_id of None \<Rightarrow> False | Some job \<Rightarrow> p job)"

definition fence_job ::
    "('b, 'z) codec_scheme \<Rightarrow> 'b ArtifactStore \<Rightarrow> TaskId \<Rightarrow> uuid \<Rightarrow> digest \<Rightarrow> 'b db \<Rightarrow>
     StoreError + TaskState \<times> 'b db" where
  "fence_job c st i job_id receipt d =
     and_then (load c d i) (\<lambda>s.
     if job_is (\<lambda>job. j_status job = Fenced \<and> j_fence_receipt job = Some receipt) s job_id then Inr (s, d)
     else change c st i None True (\<lambda>s d0.
       if \<not> job_is (\<lambda>job. unresolved (j_status job)) s job_id
       then Inl (Invalid ''only unresolved jobs can be fenced'') else
       and_then (read_all c st [receipt]) (\<lambda>_.
       Inr (JobFenced job_id receipt, delete_lease i job_id d0))) d)"

section \<open>Findings, effects and accounting\<close>

definition record_finding ::
    "('b, 'z) codec_scheme \<Rightarrow> 'b ArtifactStore \<Rightarrow> TaskId \<Rightarrow> u64 \<Rightarrow> Finding \<Rightarrow> 'b db \<Rightarrow>
     StoreError + TaskState \<times> 'b db" where
  "record_finding c st i revision finding d =
     (if blank (f_id finding) \<or> blank (f_description finding)
         \<or> f_resolved finding \<and> (case f_resolution finding of None \<Rightarrow> True | Some r \<Rightarrow> blank r)
      then Inl (Invalid ''findings require identity, description and explicit resolution'')
      else change c st i (Some revision) False (pure_operation (\<lambda>_. Inr (FindingRecorded finding))) d)"

definition record_effect ::
    "('b, 'z) codec_scheme \<Rightarrow> 'b ArtifactStore \<Rightarrow> TaskId \<Rightarrow> u64 \<Rightarrow> Effect \<Rightarrow> 'b db \<Rightarrow>
     StoreError + TaskState \<times> 'b db" where
  "record_effect c st i revision effect =
     change c st i (Some revision) True (pure_operation (\<lambda>s.
       case bt_get (t_effects s) (eff_operation_id effect) of
         Some previous \<Rightarrow>
           if eff_description previous \<noteq> eff_description effect
              \<or> eff_idempotent previous \<noteq> eff_idempotent effect
           then Inl (Invalid ''effect identity cannot change'')
           else if \<not> effect_open previous then Inl (Invalid ''effect already settled'')
           else Inr (EffectRecorded effect)
       | None \<Rightarrow>
           if eff_status effect \<noteq> Intended \<or> t_outcome s \<noteq> None
           then Inl (Invalid ''effect must have a durable intent before dispatch'')
           else Inr (EffectRecorded effect)))"

definition rewrites_settled :: "ModelCallReceipt \<Rightarrow> ModelCallReceipt \<Rightarrow> bool" where
  "rewrites_settled previous receipt =
     (mc_tokens previous \<noteq> None \<and> mc_tokens previous \<noteq> mc_tokens receipt \<or>
      mc_status previous \<noteq> CallUnknown \<and> mc_status previous \<noteq> mc_status receipt \<or>
      mc_tokens previous \<noteq> None \<and> mc_status previous \<noteq> CallUnknown)"

definition record_model_call ::
    "('b, 'z) codec_scheme \<Rightarrow> 'b ArtifactStore \<Rightarrow> TaskId \<Rightarrow> uuid \<Rightarrow> ModelCallReceipt \<Rightarrow> 'b db \<Rightarrow>
     StoreError + TaskState \<times> 'b db" where
  "record_model_call c st i operation receipt d =
     and_then (load_state c d i) (\<lambda>(s, head).
     if operation \<notin> set (t_model_reservations s)
     then Inl (Invalid ''provider result without an admitted call'') else
     let commit = and_then (read_all c st [mc_report receipt]) (\<lambda>_.
           commit_event c st s head (ModelCallRecorded operation receipt) d)
     in case bt_get (t_model_receipts s) operation of
          Some previous \<Rightarrow>
            if previous = receipt then Inr (s, d)
            else if rewrites_settled previous receipt
            then Inl (Invalid ''provider reconciliation cannot rewrite settled facts'')
            else commit
        | None \<Rightarrow> commit)"

definition account_usage ::
    "('b, 'z) codec_scheme \<Rightarrow> 'b ArtifactStore \<Rightarrow> TaskId \<Rightarrow> uuid \<Rightarrow> Usage option \<Rightarrow> u64 \<Rightarrow> 'b db \<Rightarrow>
     StoreError + TaskState \<times> 'b db" where
  "account_usage c st i operation usage now d =
     and_then (load_state c d i) (\<lambda>(s, head).
     case bt_get (t_usage_receipts s) operation of
       Some previous \<Rightarrow>
         if usage = Some previous then Inr (s, d)
         else Inl (Invalid ''accounting operation ID reused with different input'')
     | None \<Rightarrow>
         if operation \<in> set (t_model_reservations s) then
           (if usage = None then Inr (s, d)
            else Inl (Invalid ''reservation ID reused for usage receipt''))
         else and_then (case usage of
             Some u \<Rightarrow> Inr (UsageCharged operation u)
           | None \<Rightarrow>
               if t_outcome s \<noteq> None then Inl Terminal
               else and_then (check_budget now s) (\<lambda>_. Inr (ModelCallReserved operation))) (\<lambda>event.
           commit_event c st s head event d))"

definition charge_usage where
  "charge_usage c st i operation usage now d = account_usage c st i operation (Some usage) now d"

definition reserve_model_call where
  "reserve_model_call c st i operation now d = account_usage c st i operation None now d"

section \<open>Delivery and outcomes\<close>

definition record_delivery ::
    "('b, 'z) codec_scheme \<Rightarrow> 'b ArtifactStore \<Rightarrow> TaskId \<Rightarrow> u64 \<Rightarrow> Delivery \<Rightarrow> 'b db \<Rightarrow>
     StoreError + TaskState \<times> 'b db" where
  "record_delivery c st i revision delivery =
     change c st i (Some revision) False (pure_operation (\<lambda>s.
       and_then (ok_or (case t_candidate s of Some x \<Rightarrow> if cand_frozen x then Some x else None | None \<Rightarrow> None)
           (Invalid ''delivery requires a frozen candidate'')) (\<lambda>candidate.
       if cand_source candidate \<noteq> dl_source delivery \<or> cand_artifact candidate \<noteq> dl_artifact delivery
       then Inl (Invalid ''delivery identity mismatch'') else
       and_then (accepted_contract s) (\<lambda>contract.
       if c_delivery contract \<noteq> dl_kind delivery then Inl (Invalid ''delivery identity mismatch'') else
       and_then (read_all c st [dl_receipt delivery]) (\<lambda>_. Inr (Delivered delivery))))))"

definition evidence_readable ::
    "('b, 'z) codec_scheme \<Rightarrow> 'b ArtifactStore \<Rightarrow> TaskState \<Rightarrow> string \<times> uuid \<Rightarrow> StoreError + unit" where
  "evidence_readable c st s accepted =
     and_then (ok_or (List.find (\<lambda>e. ev_job_id e = snd accepted) (t_evidence s))
         (Integrity ''accepted evidence disappeared'')) (\<lambda>evidence.
     and_then (read_all c st [ob_report (ev_observation evidence)]) (\<lambda>_.
     and_then (case ob_control (ev_observation evidence) of
         None \<Rightarrow> Inr () | Some control \<Rightarrow> read_all c st [co_report control]) (\<lambda>_.
     and_then (accepted_contract s) (\<lambda>contract.
     and_then (ok_or (bt_get (c_checks contract) (fst accepted)) Panicked) (\<lambda>check.
     and_then (case d_baseline check of
         NoNewFailure report _ \<Rightarrow> read_all c st [report] | MustPass \<Rightarrow> Inr ()) (\<lambda>_.
     read_all c st [ei_verifier (ev_identity evidence)]))))))"

definition complete ::
    "('b, 'z) codec_scheme \<Rightarrow> 'b ArtifactStore \<Rightarrow> TaskId \<Rightarrow> u64 \<Rightarrow> u64 \<Rightarrow> 'b db \<Rightarrow>
     StoreError + TaskState \<times> 'b db" where
  "complete c st i revision now =
     change c st i (Some revision) False (pure_operation (\<lambda>s.
       and_then (map_err Incomplete (evaluate (contract_digest c) (check_digest c) s now)) (\<lambda>certificate.
       and_then (read_all c st [cert_source certificate, cert_artifact certificate,
           cert_environment certificate, cert_delivery_receipt certificate]) (\<lambda>_.
       and_then (try_each (evidence_readable c st s) (cert_evidence certificate)) (\<lambda>_.
       Inr (Completed certificate))))))"

definition stop_task ::
    "('b, 'z) codec_scheme \<Rightarrow> 'b ArtifactStore \<Rightarrow> TaskId \<Rightarrow> u64 \<Rightarrow> Outcome \<Rightarrow> string \<Rightarrow> 'b db \<Rightarrow>
     StoreError + TaskState \<times> 'b db" where
  "stop_task c st i revision outcome reason d =
     (if outcome = Complete then Inl (Invalid ''completion requires the evaluator'')
      else if blank reason then Inl (Invalid ''incomplete outcome requires a reason'')
      else change c st i (Some revision) False (pure_operation (\<lambda>_. Inr (Stopped outcome reason))) d)"

definition reopen ::
    "('b, 'z) codec_scheme \<Rightarrow> 'b ArtifactStore \<Rightarrow> TaskId \<Rightarrow> u64 \<Rightarrow> string \<Rightarrow> 'b db \<Rightarrow>
     StoreError + TaskState \<times> 'b db" where
  "reopen c st i revision reason d =
     (if blank reason then Inl (Invalid ''reopening requires a user basis'')
      else change c st i (Some revision) True (pure_operation (\<lambda>s.
        if t_outcome s = None then Inl (Invalid ''task is already active'') else Inr (Reopened reason))) d)"

text \<open>The task part of recovery after a restart, over the identifiers that \<open>list\<close> returns.\<close>

definition recovery_reason :: string where
  "recovery_reason =
     ''Host restarted before task settlement; reconcile old jobs and provider accounting before resuming''"

definition delete_task_leases :: "TaskId \<Rightarrow> 'b db \<Rightarrow> 'b db" where
  "delete_task_leases i d = d\<lparr>db_leases := (\<lambda>k. if fst k = i then None else db_leases d k)\<rparr>"

definition recover_task ::
    "('b, 'z) codec_scheme \<Rightarrow> 'b ArtifactStore \<Rightarrow> TaskId list \<times> 'b db \<Rightarrow> TaskId \<Rightarrow>
     StoreError + TaskId list \<times> 'b db" where
  "recover_task c st rd i =
     and_then (load c (snd rd) i) (\<lambda>s.
     if t_outcome s = None then
       and_then (change c st i (Some (t_revision s)) False
           (\<lambda>_ d0. Inr (Interrupted recovery_reason, delete_task_leases i d0)) (snd rd))
         (\<lambda>(_, d'). Inr (fst rd @ [i], d'))
     else Inr rd)"

definition recover_tasks ::
    "('b, 'z) codec_scheme \<Rightarrow> 'b ArtifactStore \<Rightarrow> TaskId list \<Rightarrow> 'b db \<Rightarrow> StoreError + TaskId list \<times> 'b db" where
  "recover_tasks c st ids d = try_fold (recover_task c st) ([], d) ids"

end
