(* ===== verification/Store_Invariant.thy ===== *)
theory Store_Invariant
  imports Task_Store
begin

text \<open>
  The commands of the store refine an abstract task machine. The machine says which event may follow
  in which state; every command appends only such events, so every task in a database that the
  commands can produce is a state the machine can reach, and its journal loads.
\<close>

section \<open>The abstract task machine\<close>

text \<open>Enough of the accounting and evidence rules to see what an event means.\<close>

fun guarded :: "('b, 'z) codec_scheme \<Rightarrow> TaskState \<Rightarrow> TaskEvent \<Rightarrow> bool" where
  "guarded c s (Completed cert) \<longleftrightarrow>
     (\<exists>now. evaluate (contract_digest c) (check_digest c) s now = Inr cert)"
| "guarded c s (Stopped outcome reason) \<longleftrightarrow> outcome \<noteq> Complete \<and> t_outcome s = None \<and> \<not> blank reason"
| "guarded c s (Reopened reason) \<longleftrightarrow> t_outcome s \<noteq> None"
| "guarded c s (ModelCallReserved operation) \<longleftrightarrow>
     operation \<notin> set (t_model_reservations s) \<and> bt_get (t_usage_receipts s) operation = None \<and>
     t_outcome s = None"
| "guarded c s (UsageCharged operation usage) \<longleftrightarrow>
     operation \<notin> set (t_model_reservations s) \<and> bt_get (t_usage_receipts s) operation = None"
| "guarded c s (ModelCallRecorded operation receipt) \<longleftrightarrow>
     operation \<in> set (t_model_reservations s) \<and>
     (\<forall>previous. bt_get (t_model_receipts s) operation = Some previous \<longrightarrow>
        \<not> rewrites_settled previous receipt)"
| "guarded c s (Observed evidence) \<longleftrightarrow>
     t_outcome s = None \<and>
     (\<exists>job. bt_get (t_jobs s) (ev_job_id evidence) = Some job \<and> j_status job = Running \<and>
        j_generation job = t_generation s \<and> ev_generation evidence = j_generation job \<and>
        j_check job = Some (ev_check evidence) \<and> j_identity job = Some (ev_identity evidence))"
| "guarded c s (JobStarted job) \<longleftrightarrow>
     j_status job = Running \<and> j_generation job = t_generation s \<and> t_outcome s = None \<and>
     length (unresolved_jobs s) < unat (l_concurrent_jobs (limits s)) \<and>
     (j_mutates_candidate job \<longrightarrow> \<not> (\<exists>cand. t_candidate s = Some cand \<and> cand_frozen cand))"
| "guarded c s (JobSettled i status receipt) \<longleftrightarrow>
     status \<noteq> Running \<and> status \<noteq> Fenced \<and>
     (\<exists>job. bt_get (t_jobs s) i = Some job \<and> unresolved (j_status job) \<and>
        (status = JobSucceeded \<longrightarrow> j_check job = None) \<and> (j_invocation job \<noteq> None \<longrightarrow> receipt \<noteq> None))"
| "guarded c s (JobFenced i receipt) \<longleftrightarrow>
     (\<exists>job. bt_get (t_jobs s) i = Some job \<and> unresolved (j_status job))"
| "guarded c s (CandidateSelected candidate) \<longleftrightarrow> t_outcome s = None \<and> \<not> active_writer s"
| "guarded c s (ContractAmended contract reason) \<longleftrightarrow>
     contract_wf contract \<and> c_request contract = t_request s \<and> t_contract s \<noteq> None \<and> t_outcome s = None"
| "guarded c s (ContractAdmitted contract basis receipt) \<longleftrightarrow>
     contract_wf contract \<and> c_request contract = t_request s \<and> c_limits contract = t_initial_limits s \<and>
     t_contract s = None \<and> t_outcome s = None"
| "guarded c s (AdditiveContractAccepted contract receipt scope) \<longleftrightarrow>
     contract_wf contract \<and> t_amendment_pending s \<and> t_outcome s = None \<and>
     (case t_contract s of
        Some old \<Rightarrow> preserves_obligations old contract = Inr ()
      | None \<Rightarrow> c_request contract = t_request s \<and> c_limits contract = t_initial_limits s)"
| "guarded c s (EffectRecorded effect) \<longleftrightarrow>
     (case bt_get (t_effects s) (eff_operation_id effect) of
        Some previous \<Rightarrow> effect_open previous \<and> eff_description previous = eff_description effect \<and>
          eff_idempotent previous = eff_idempotent effect
      | None \<Rightarrow> eff_status effect = Intended \<and> t_outcome s = None)"
| "guarded c s (Delivered delivery) \<longleftrightarrow>
     t_outcome s = None \<and>
     (\<exists>cand contract. t_candidate s = Some cand \<and> cand_frozen cand \<and> t_contract s = Some contract \<and>
        dl_source delivery = cand_source cand \<and> dl_artifact delivery = cand_artifact cand \<and>
        dl_kind delivery = c_delivery contract)"
| "guarded c s (BaselineEstablished candidate) \<longleftrightarrow>
     t_baseline s = None \<and> cand_frozen candidate \<and> t_outcome s = None"
| "guarded c s (EvidenceInvalidated reason) \<longleftrightarrow> t_outcome s = Some Complete"
| "guarded c s (OriginCaptured source) \<longleftrightarrow> t_origin s = None \<and> t_outcome s = None"
| "guarded c s (WorkspaceChanged reason) \<longleftrightarrow> t_outcome s = None"
| "guarded c s (PhaseChanged phase) \<longleftrightarrow> t_outcome s = None"
| "guarded c s CancellationRequested \<longleftrightarrow> t_outcome s = None"
| "guarded c s (FindingRecorded finding) \<longleftrightarrow> t_outcome s = None"
| "guarded c s (Interrupted reason) \<longleftrightarrow> t_outcome s = None"
| "guarded c s _ \<longleftrightarrow> False"

inductive task_reachable :: "('b, 'z) codec_scheme \<Rightarrow> TaskId \<Rightarrow> TaskState \<Rightarrow> bool"
  for c :: "('b, 'z) codec_scheme" and i :: TaskId where
  created: "contract_wf contract \<Longrightarrow> task_reachable c i (created i contract now)"
| event: "task_reachable c i s \<Longrightarrow> guarded c s e \<Longrightarrow> task_apply (contract_digest c) s e = Inr s' \<Longrightarrow>
    task_reachable c i s'"

section \<open>The database invariant\<close>

definition same_journal :: "'b db \<Rightarrow> 'b db \<Rightarrow> bool" where
  "same_journal d d' \<longleftrightarrow>
     db_tasks d' = db_tasks d \<and> db_events d' = db_events d \<and> db_checkpoints d' = db_checkpoints d"

lemma same_journal_refl [simp]: "same_journal d d"
  by (simp add: same_journal_def)

lemma same_journal_leases [simp]:
  "same_journal d (delete_lease i job d)" "same_journal d (delete_task_leases i d)"
  "insert_lease i job t d = Inr d' \<Longrightarrow> same_journal d d'"
  by (auto simp: same_journal_def delete_lease_def delete_task_leases_def insert_lease_def split: if_splits)

lemma same_journal_ok: "same_journal d d' \<Longrightarrow> stored c d i s h \<longleftrightarrow> stored c d' i s h"
  by (simp add: same_journal_def stored_def task_ok_def task_events_def)

definition absent :: "'b db \<Rightarrow> TaskId \<Rightarrow> bool" where
  "absent d i \<longleftrightarrow>
     db_tasks d i = None \<and> task_events i d = [] \<and> (\<forall>r \<in> set (db_checkpoints d). \<not> is_checkpoint_of i r)"

definition db_inv :: "('b, 'z) codec_scheme \<Rightarrow> 'b db \<Rightarrow> bool" where
  "db_inv c d \<longleftrightarrow>
     (\<forall>i. absent d i \<or> (\<exists>s h. stored c d i s h \<and> task_reachable c i s))"

lemma absent_same_journal: "same_journal d d' \<Longrightarrow> absent d i \<longleftrightarrow> absent d' i"
  by (simp add: absent_def same_journal_def task_events_def)

lemma db_inv_same_journal: "same_journal d d' \<Longrightarrow> db_inv c d \<Longrightarrow> db_inv c d'"
  by (simp add: db_inv_def same_journal_ok [of d d'] absent_same_journal [of d d'])

lemma stored_not_absent: "stored c d i s h \<Longrightarrow> \<not> absent d i"
  by (auto simp: stored_def task_ok_def absent_def)

lemma db_inv_loaded:
  assumes "db_inv c d" and "load_state c d i = Inr (s, h)"
  shows "stored c d i s h" and "task_reachable c i s"
proof -
  have "\<not> absent d i"
    using assms(2) by (auto simp: absent_def load_state_def)
  with assms(1) obtain s' h' where ok: "stored c d i s' h'" and r: "task_reachable c i s'"
    by (auto simp: db_inv_def)
  moreover have "s' = s \<and> h' = h"
    using tasks.load_ok [OF ok] assms(2) by simp
  ultimately show "stored c d i s h" and "task_reachable c i s"
    by simp_all
qed

text \<open>Other tasks stay absent when one task is appended to.\<close>

lemma append_absent:
  assumes "append_task_event c st s h e d = Inr (s', d')" and "i \<noteq> t_id s" and "absent d i"
  shows "absent d' i"
  using assms(1)
proof (rule append_task_event_Inr)
  fix b h' sb
  assume ev: "db_events d' = db_events d @ [journal_row (t_id s) (t_revision s') b h']"
    and tasks: "db_tasks d' = (if db_tasks d (t_id s) = None then db_tasks d
      else (db_tasks d)(t_id s \<mapsto> \<lparr>ar_revision = uint (t_revision s'), ar_state = sb,
        ar_head = digest_to_string h'\<rparr>))"
    and cp: "\<And>r. r \<in> set (db_checkpoints d') \<Longrightarrow> r \<in> set (db_checkpoints d) \<or>
      r = \<lparr>cp_aggregate = task_uuid (t_id s), cp_kind = TaskAggregate, cp_revision = uint (t_revision s'),
           cp_state = sb, cp_head = digest_to_string h'\<rparr>"
  have "task_events i d' = task_events i d"
    using task_events_append [OF ev, of i] assms(2) by simp
  moreover have "\<not> is_checkpoint_of i r" if "r \<in> set (db_checkpoints d')" for r
    using cp [OF that] assms(2,3) by (auto simp: absent_def is_checkpoint_of_def TaskId.expand)
  ultimately show ?thesis
    using assms(2,3) tasks by (auto simp: absent_def)
qed

lemma append_preserves:
  assumes "db_inv c d" and "stored c d i s h" and "guarded c s e"
    and "append_task_event c st s h e d = Inr (s', d')"
  shows "db_inv c d'" and "task_apply (contract_digest c) s e = Inr s'"
    and "\<exists>h'. stored c d' i s' h'" and "task_reachable c i s'" and "db_leases d' = db_leases d"
proof -
  have load: "load_state c d i = Inr (s, h)"
    by (rule tasks.load_ok [OF assms(2)])
  have app: "task_apply (contract_digest c) s e = Inr s'"
    by (rule tasks.append_applies [OF assms(2,4)])
  then show "task_apply (contract_digest c) s e = Inr s'" .
  show r: "task_reachable c i s'"
    by (rule task_reachable.event [OF db_inv_loaded(2) [OF assms(1) load] assms(3) app])
  show ok: "\<exists>h'. stored c d' i s' h'"
    by (rule tasks.append_ok [OF assms(2,4) TrueI])
  show "db_leases d' = db_leases d"
    using append_task_event_ok(3) assms(2,4) by (auto simp: stored_def)
  have id: "t_id s = i"
    using assms(2) journal_length [of c i "task_events i d" s h] by (simp add: stored_def task_ok_def)
  show "db_inv c d'"
    unfolding db_inv_def
  proof
    fix j
    show "absent d' j \<or> (\<exists>s h. stored c d' j s h \<and> task_reachable c j s)"
    proof (cases "j = i")
      case True
      with ok r show ?thesis by blast
    next
      case False
      with assms(1) consider "absent d j" | t g where "stored c d j t g" "task_reachable c j t"
        unfolding db_inv_def by blast
      then show ?thesis
        using append_absent [OF assms(4)] tasks.append_frame [OF assms(2,4) False] False id
        by cases blast+
    qed
  qed
qed

text \<open>The shape of every command that goes through \<open>change\<close>.\<close>

lemma change_Inr:
  assumes "change c st i revision allow operation d = Inr (s', d')"
  obtains s h e d1 where "load_state c d i = Inr (s, h)"
    and "\<And>expected. revision = Some expected \<Longrightarrow> t_revision s = expected"
    and "allow \<or> t_outcome s = None" and "operation s d = Inr (e, d1)"
    and "append_task_event c st s h e d1 = Inr (s', d')"
  using assms by (auto simp: change_def commit_event_def result_simps split: if_splits option.splits)

lemma change_preserves:
  assumes "db_inv c d" and "change c st i revision allow operation d = Inr (s', d')"
    and "\<And>s e d1. task_reachable c i s \<Longrightarrow> allow \<or> t_outcome s = None \<Longrightarrow> operation s d = Inr (e, d1) \<Longrightarrow>
      same_journal d d1 \<and> guarded c s e"
  shows "db_inv c d'" and "\<exists>h'. stored c d' i s' h'"
proof -
  from assms(2) obtain s h e d1 where load: "load_state c d i = Inr (s, h)" and al: "allow \<or> t_outcome s = None"
    and op: "operation s d = Inr (e, d1)" and app: "append_task_event c st s h e d1 = Inr (s', d')"
    by (rule change_Inr)
  have same: "same_journal d d1" and g: "guarded c s e"
    using assms(3) [OF db_inv_loaded(2) [OF assms(1) load] al op] by simp_all
  have "db_inv c d1" and "stored c d1 i s h"
    using db_inv_same_journal [OF same assms(1)] same_journal_ok [OF same, of c i s h]
      db_inv_loaded(1) [OF assms(1) load] by simp_all
  from append_preserves [OF this g app] show "db_inv c d'" and "\<exists>h'. stored c d' i s' h'"
    by simp_all
qed

lemma pure_operation_Inr:
  "pure_operation f s d = Inr (e, d1) \<longleftrightarrow> f s = Inr e \<and> d1 = d"
  by (auto simp: pure_operation_def result_simps)

lemma change_pure_preserves:
  assumes "db_inv c d" and "change c st i revision allow (pure_operation f) d = Inr (s', d')"
    and "\<And>s e. task_reachable c i s \<Longrightarrow> allow \<or> t_outcome s = None \<Longrightarrow> f s = Inr e \<Longrightarrow> guarded c s e"
  shows "db_inv c d'" and "\<exists>h'. stored c d' i s' h'"
  using change_preserves [OF assms(1,2)] assms(3) by (auto simp: pure_operation_Inr)

section \<open>Every command preserves the invariant\<close>

lemma create_Inr:
  assumes "create c st i now contract d = Inr (s, d')"
  obtains b h sb where "contract_wf contract" and "s = created i contract now"
    and "event_bytes c (Created contract now) = Inr b" and "event_hash c i 1 None b = Inr h"
    and "enc_state c s = Inr sb" and "db_tasks d i = None"
    and "db_tasks d' = (db_tasks d)(i \<mapsto> \<lparr>ar_revision = 1, ar_state = sb, ar_head = digest_to_string h\<rparr>)"
    and "db_events d' = db_events d @ [journal_row i 1 b h]"
    and "\<And>r. r \<in> set (db_checkpoints d') \<Longrightarrow> r \<in> set (db_checkpoints d) \<or>
      r = \<lparr>cp_aggregate = task_uuid i, cp_kind = TaskAggregate, cp_revision = 1, cp_state = sb,
           cp_head = digest_to_string h\<rparr>"
    and "db_leases d' = db_leases d"
proof -
  from assms obtain b h sb d1 d2 where facts: "contract_wf contract" "s = created i contract now"
      "event_bytes c (Created contract now) = Inr b" "event_hash c i 1 None b = Inr h"
      "enc_state c s = Inr sb"
    and d1: "insert_task i \<lparr>ar_revision = 1, ar_state = sb, ar_head = digest_to_string h\<rparr> d = Inr d1"
    and d2: "insert_event (journal_row i 1 b h) d1 = Inr d2"
    and d3: "store_checkpoint c i 1 s h d2 = Inr d'"
    by (auto simp: create_def Let_def result_simps contract_validate_iff journal_row_def)
  from d1 have none: "db_tasks d i = None"
    and d1': "d1 = d\<lparr>db_tasks := (db_tasks d)(i \<mapsto> \<lparr>ar_revision = 1, ar_state = sb, ar_head = digest_to_string h\<rparr>)\<rparr>"
    by (auto simp: insert_task_def split: if_splits)
  from d3 facts(5) have d': "d' = replace_checkpoint \<lparr>cp_aggregate = task_uuid i, cp_kind = TaskAggregate,
      cp_revision = 1, cp_state = sb, cp_head = digest_to_string h\<rparr> d2"
    by (auto simp: store_checkpoint_def i64_of_u64_def)
  show thesis
    by (rule that [OF facts none])
      (auto simp: d' d1' insert_event_Inr [OF d2] replace_checkpoint_def)
qed

lemma create_stored:
  assumes "codec_ok c" and "absent d i" and "create c st i now contract d = Inr (s, d')"
  shows "\<exists>h. stored c d' i s h" and "task_reachable c i s"
    and "j \<noteq> i \<Longrightarrow> stored c d j t g \<Longrightarrow> stored c d' j t g" and "j \<noteq> i \<Longrightarrow> absent d j \<Longrightarrow> absent d' j"
proof -
  from assms(3) obtain b h sb where wf: "contract_wf contract" and s: "s = created i contract now"
    and b: "event_bytes c (Created contract now) = Inr b" and h: "event_hash c i 1 None b = Inr h"
    and sb: "enc_state c s = Inr sb"
    and tasks: "db_tasks d' = (db_tasks d)(i \<mapsto> \<lparr>ar_revision = 1, ar_state = sb, ar_head = digest_to_string h\<rparr>)"
    and ev: "db_events d' = db_events d @ [journal_row i 1 b h]"
    and cp: "\<And>r. r \<in> set (db_checkpoints d') \<Longrightarrow> r \<in> set (db_checkpoints d) \<or>
      r = \<lparr>cp_aggregate = task_uuid i, cp_kind = TaskAggregate, cp_revision = 1, cp_state = sb,
           cp_head = digest_to_string h\<rparr>"
    by (rule create_Inr) blast
  have rows: "task_events i d' = [journal_row i 1 b h]"
    using task_events_append [OF ev, of i] assms(2) by (simp add: absent_def)
  have j: "journal c i (task_events i d') s h"
    unfolding rows
    by (rule journal.start [OF b _ h]) (simp add: replay_event_def s contract_validate_iff [THEN iffD2, OF wf])
  have "checkpoint_ok c i (task_events i d') r" if "r \<in> set (db_checkpoints d')" "is_checkpoint_of i r" for r
  proof -
    have "r = \<lparr>cp_aggregate = task_uuid i, cp_kind = TaskAggregate, cp_revision = 1, cp_state = sb,
           cp_head = digest_to_string h\<rparr>"
      using cp [OF that(1)] that(2) assms(2) by (auto simp: absent_def)
    then show ?thesis
      using j sb unfolding checkpoint_ok_def rows
      by (intro exI [of _ 1] exI [of _ s] exI [of _ h]) simp
  qed
  moreover have "t_revision s = 1"
    by (simp add: s created_def requested_def)
  ultimately show "\<exists>h. stored c d' i s h"
    using assms(1) j tasks sb by (auto simp: stored_def task_ok_def task_row_def)
  show "task_reachable c i s"
    unfolding s by (rule task_reachable.created [OF wf])
  have other: "task_events j d' = task_events j d" "db_tasks d' j = db_tasks d j" if "j \<noteq> i" for j
    using task_events_append [OF ev, of j] tasks that by auto
  have cps: "r \<in> set (db_checkpoints d)"
    if "r \<in> set (db_checkpoints d')" "is_checkpoint_of j r" "j \<noteq> i" for r j
    using cp [OF that(1)] that(2,3) by (auto simp: is_checkpoint_of_def TaskId.expand)
  show "stored c d' j t g" if "j \<noteq> i" "stored c d j t g"
    using that other [OF that(1)] cps by (auto simp: stored_def task_ok_def)
  show "absent d' j" if "j \<noteq> i" "absent d j"
    using that other [OF that(1)] cps by (auto simp: absent_def)
qed

lemma create_preserves:
  assumes "codec_ok c" and "db_inv c d" and "create c st i now contract d = Inr (s, d')"
  shows "db_inv c d'"
proof -
  have "db_tasks d i = None"
    using assms(3) by (rule create_Inr)
  then have absent: "absent d i"
    using assms(2) by (auto simp: db_inv_def stored_def task_ok_def)
  note c = create_stored [OF assms(1) absent assms(3)]
  show ?thesis
    unfolding db_inv_def
  proof
    fix j
    show "absent d' j \<or> (\<exists>s h. stored c d' j s h \<and> task_reachable c j s)"
    proof (cases "j = i")
      case True
      with c(1,2) show ?thesis by blast
    next
      case False
      then show ?thesis
        using assms(2) c(3,4) [of j] unfolding db_inv_def by blast
    qed
  qed
qed

lemma select_candidate_preserves:
  "db_inv c d \<Longrightarrow> select_candidate c st i revision candidate d = Inr (s', d') \<Longrightarrow> db_inv c d'"
  unfolding select_candidate_def
  by (erule change_pure_preserves(1), assumption) (auto simp: result_simps split: if_splits)

lemma establish_baseline_preserves:
  "db_inv c d \<Longrightarrow> establish_baseline c st i revision baseline d = Inr (s', d') \<Longrightarrow> db_inv c d'"
  unfolding establish_baseline_def
  by (erule change_pure_preserves(1), assumption) (auto simp: result_simps split: if_splits)

lemma invalidate_candidate_preserves:
  "db_inv c d \<Longrightarrow> invalidate_candidate c st i revision reason d = Inr (s', d') \<Longrightarrow> db_inv c d'"
  unfolding invalidate_candidate_def
  by (erule change_pure_preserves(1), assumption) auto

lemma request_cancellation_preserves:
  "db_inv c d \<Longrightarrow> request_cancellation c st i d = Inr (s', d') \<Longrightarrow> db_inv c d'"
  by (auto simp: request_cancellation_def result_simps split: if_splits
      intro: change_pure_preserves(1))

lemma amend_contract_preserves:
  "db_inv c d \<Longrightarrow> amend_contract c st i revision contract basis d = Inr (s', d') \<Longrightarrow> db_inv c d'"
  by (auto simp: amend_contract_def accepted_contract_def result_simps contract_validate_iff
      split: if_splits elim!: change_pure_preserves(1))

lemma admit_contract_preserves:
  "db_inv c d \<Longrightarrow> admit_contract c st i revision contract basis receipt d = Inr (s', d') \<Longrightarrow> db_inv c d'"
  by (auto simp: admit_contract_def result_simps contract_validate_iff
      split: if_splits elim!: change_pure_preserves(1))

lemma accept_additive_contract_preserves:
  "db_inv c d \<Longrightarrow> accept_additive_contract c st i revision contract receipt d = Inr (s', d') \<Longrightarrow> db_inv c d'"
  by (auto simp: accept_additive_contract_def result_simps contract_validate_iff
      split: if_splits option.splits elim!: change_pure_preserves(1))

lemma set_phase_preserves:
  "db_inv c d \<Longrightarrow> set_phase c st i revision phase d = Inr (s', d') \<Longrightarrow> db_inv c d'"
  unfolding set_phase_def
  by (erule change_pure_preserves(1), assumption) (auto simp: result_simps split: if_splits)

lemma check_job_Inr:
  assumes "check_job c job_id now check s = Inr job"
  shows "j_id job = job_id" and "j_status job = Running" and "j_generation job = t_generation s"
    and "\<not> j_mutates_candidate job" and "length (unresolved_jobs s) < unat (l_concurrent_jobs (limits s))"
    and "j_check job = Some check" and "\<not> t_amendment_pending s" and "j_invocation job = None"
    and "\<exists>cand contract def cd kd. t_candidate s = Some cand \<and> cand_frozen cand \<and> t_contract s = Some contract \<and>
      bt_get (c_checks contract) check = Some def \<and> contract_digest c contract = Inr cd \<and>
      check_digest c def = Inr kd \<and> j_identity job = Some (evidence_identity cd cand kd def)"
  using assms
  by (auto simp: check_job_def admit_job_def accepted_contract_def result_simps not_le
      split: if_splits option.splits)

lemma begin_check_preserves:
  assumes "db_inv c d" and "begin_check c st i revision check token job_id now d = Inr (lease, d')"
  shows "db_inv c d'"
proof -
  from assms(2) obtain s' where ch: "change c st i (Some revision) False (\<lambda>s d0.
      and_then (check_job c job_id now check s) (\<lambda>job.
      and_then (insert_lease i job_id (digest_to_string (sha c token)) d0) (\<lambda>d1.
      Inr (JobStarted job, d1)))) d = Inr (s', d')"
    by (auto simp: begin_check_def result_simps)
  show ?thesis
    using assms(1) ch
    by (rule change_preserves(1)) (auto simp: result_simps dest: check_job_Inr)
qed

lemma lease_evidence_Inr:
  assumes "lease_evidence c st job_id now ob s = Inr ev"
  obtains job where "bt_get (t_jobs s) job_id = Some job" and "j_status job = Running"
    and "j_generation job = t_generation s" and "ev_job_id ev = j_id job"
    and "ev_generation ev = j_generation job" and "j_check job = Some (ev_check ev)"
    and "j_identity job = Some (ev_identity ev)" and "ev_observation ev = ob"
    and "now \<le> j_deadline_ms job \<or> ob_status ob \<noteq> CheckPassed"
  using assms by (auto simp: lease_evidence_def result_simps not_less split: if_splits option.splits)

lemma task_reachable_shape:
  "task_reachable c i s \<Longrightarrow> t_id s = i \<and> task_maps_ok s \<and> keyed_by_id s"
proof (induction rule: task_reachable.induct)
  case (created contract now)
  then show ?case
    by (simp add: created_maps_ok) (simp add: created_def requested_def keyed_by_id_def)
next
  case (event s e s')
  then show ?case
    using task_apply_extends [OF event.hyps(3)]
    by (auto simp: extends_state_def intro: task_apply_maps_ok task_apply_keyed)
qed

lemma reachable_job_id: "task_reachable c i s \<Longrightarrow> bt_get (t_jobs s) k = Some job \<Longrightarrow> j_id job = k"
  using task_reachable_shape [of c i s] by (auto simp: keyed_by_id_def dest: keyedD)

lemma lease_evidence_guarded:
  assumes "task_reachable c i s" and "t_outcome s = None" and "lease_evidence c st job_id now ob s = Inr ev"
  shows "guarded c s (Observed ev)"
  using assms(3)
proof (rule lease_evidence_Inr)
  fix job
  assume "bt_get (t_jobs s) job_id = Some job" "j_status job = Running" "j_generation job = t_generation s"
    "ev_job_id ev = j_id job" "ev_generation ev = j_generation job" "j_check job = Some (ev_check ev)"
    "j_identity job = Some (ev_identity ev)"
  with assms(1,2) show ?thesis
    using reachable_job_id [OF assms(1)] by auto
qed

lemma finish_check_preserves:
  assumes "db_inv c d" and "finish_check c st lease ob now d = Inr (s', d')"
  shows "db_inv c d'"
  using assms(2) unfolding finish_check_def
  by (rule change_preserves(1) [OF assms(1)])
    (auto simp: result_simps intro: lease_evidence_guarded simp del: guarded.simps split: if_splits)

lemma job_record_guarded:
  assumes "job_record c st load_session i mutates timeout_ms invocation job_id now s = Inr e"
    and "t_outcome s = None"
  shows "guarded c s e"
    and "\<exists>job. e = JobStarted job \<and> j_id job = job_id"
proof -
  from assms(1) obtain job where e: "e = JobStarted job" "j_status job = Running" "j_generation job = t_generation s"
      "j_mutates_candidate job = mutates" "j_id job = job_id"
    and admit: "admit_job now s = Inr ()"
    and frozen: "\<not> (mutates \<and> (case t_candidate s of None \<Rightarrow> False | Some x \<Rightarrow> cand_frozen x))"
    unfolding job_record_def by (auto simp: and_then_Inr_iff guard_Inr_iff simp del: split_paired_Ex)
  from admit have "length (unresolved_jobs s) < unat (l_concurrent_jobs (limits s))"
    by (auto simp: admit_job_def not_le split: if_splits)
  with e frozen assms(2) show "guarded c s e" and "\<exists>job. e = JobStarted job \<and> j_id job = job_id"
    by auto
qed

lemma start_job_record_preserves:
  assumes "db_inv c d"
    and "start_job_record c st load_session i revision mutates timeout_ms invocation job_id now d = Inr (r, d')"
  shows "db_inv c d'"
proof -
  from assms(2) obtain s' where ch: "change c st i (Some revision) False (pure_operation
      (job_record c st load_session i mutates timeout_ms invocation job_id now)) d = Inr (s', d')"
    by (auto simp: start_job_record_def result_simps)
  show ?thesis
    using assms(1) ch
    by (rule change_pure_preserves(1)) (auto intro: job_record_guarded simp del: guarded.simps)
qed

lemma settle_job_record_preserves:
  assumes "db_inv c d" and "settle_job_record c st i job_id status receipt d = Inr (s', d')"
  shows "db_inv c d'"
proof -
  from assms(2) have ne: "status \<noteq> Running" "status \<noteq> Fenced"
    and ch: "change c st i None True (settle_operation c st i job_id status receipt) d = Inr (s', d')"
    by (auto simp: settle_job_record_def split: if_splits)
  show ?thesis
    using assms(1) ch
    by (rule change_preserves(1)) (use ne in \<open>auto simp: settle_operation_def result_simps split: if_splits\<close>)
qed

lemma fence_job_preserves:
  assumes "db_inv c d" and "fence_job c st i job_id receipt d = Inr (s', d')"
  shows "db_inv c d'"
proof -
  from assms(2) consider "d' = d" | "change c st i None True (\<lambda>s d0.
       if \<not> job_is (\<lambda>job. unresolved (j_status job)) s job_id
       then Inl (Invalid ''only unresolved jobs can be fenced'') else
       and_then (read_all c st [receipt]) (\<lambda>_.
       Inr (JobFenced job_id receipt, delete_lease i job_id d0))) d = Inr (s', d')"
    by (auto simp: fence_job_def result_simps split: if_splits)
  then show ?thesis
  proof cases
    case 2
    show ?thesis
      using assms(1) 2
      by (rule change_preserves(1)) (auto simp: result_simps job_is_def split: if_splits option.splits)
  qed (use assms(1) in simp)
qed

lemma record_finding_preserves:
  "db_inv c d \<Longrightarrow> record_finding c st i revision finding d = Inr (s', d') \<Longrightarrow> db_inv c d'"
  by (auto simp: record_finding_def split: if_splits elim!: change_pure_preserves(1))

lemma record_effect_preserves:
  "db_inv c d \<Longrightarrow> record_effect c st i revision effect d = Inr (s', d') \<Longrightarrow> db_inv c d'"
  unfolding record_effect_def
  by (erule change_pure_preserves(1), assumption) (auto split: if_splits option.splits)

lemma record_model_call_preserves:
  assumes "db_inv c d" and "record_model_call c st i operation receipt d = Inr (s', d')"
  shows "db_inv c d'"
proof -
  from assms(2) obtain s h where load: "load_state c d i = Inr (s, h)"
    and "d' = d \<or> guarded c s (ModelCallRecorded operation receipt) \<and>
      append_task_event c st s h (ModelCallRecorded operation receipt) d = Inr (s', d')"
    by (auto simp: record_model_call_def commit_event_def Let_def result_simps
        split: if_splits option.splits)
  then show ?thesis
    using assms(1) append_preserves(1) [OF assms(1) db_inv_loaded(1) [OF assms(1) load]] by blast
qed

lemma account_usage_preserves:
  assumes "db_inv c d" and "account_usage c st i operation usage now d = Inr (s', d')"
  shows "db_inv c d'"
proof -
  from assms(2) obtain s h e where load: "load_state c d i = Inr (s, h)"
    and "d' = d \<or> guarded c s e \<and> append_task_event c st s h e d = Inr (s', d')"
    by (auto simp: account_usage_def commit_event_def result_simps split: if_splits option.splits)
      fastforce+
  then show ?thesis
    using assms(1) append_preserves(1) [OF assms(1) db_inv_loaded(1) [OF assms(1) load]] by blast
qed

lemma record_delivery_preserves:
  "db_inv c d \<Longrightarrow> record_delivery c st i revision delivery d = Inr (s', d') \<Longrightarrow> db_inv c d'"
  unfolding record_delivery_def
  by (erule change_pure_preserves(1), assumption)
    (auto simp: result_simps accepted_contract_def split: if_splits option.splits)

lemma complete_preserves:
  "db_inv c d \<Longrightarrow> complete c st i revision now d = Inr (s', d') \<Longrightarrow> db_inv c d'"
  unfolding complete_def
  by (erule change_pure_preserves(1), assumption) (auto simp: result_simps)

lemma stop_task_preserves:
  "db_inv c d \<Longrightarrow> stop_task c st i revision outcome reason d = Inr (s', d') \<Longrightarrow> db_inv c d'"
  by (auto simp: stop_task_def split: if_splits elim!: change_pure_preserves(1))

lemma reopen_preserves:
  "db_inv c d \<Longrightarrow> reopen c st i revision reason d = Inr (s', d') \<Longrightarrow> db_inv c d'"
  by (auto simp: reopen_def split: if_splits elim!: change_pure_preserves(1))

lemma audit_evidence_preserves:
  assumes "db_inv c d" and "audit_evidence c st show_error i d = Inr (s', d')"
  shows "db_inv c d'"
proof -
  from assms(2) obtain s h where load: "load_state c d i = Inr (s, h)"
    and "d' = d \<or> t_outcome s = Some Complete \<and> (\<exists>reason. change c st i (Some (t_revision s)) True
      (pure_operation (\<lambda>_. Inr (EvidenceInvalidated reason))) d = Inr (s', d'))"
    by (auto simp: audit_evidence_def load_def result_simps split: if_splits sum.splits)
  then consider "d' = d" | reason where "t_outcome s = Some Complete"
      "change c st i (Some (t_revision s)) True (pure_operation (\<lambda>_. Inr (EvidenceInvalidated reason))) d = Inr (s', d')"
    by blast
  then show ?thesis
  proof cases
    case 2
    from 2(2) obtain t g e d1 where "load_state c d i = Inr (t, g)" "pure_operation (\<lambda>_. Inr (EvidenceInvalidated reason)) t d = Inr (e, d1)"
      and app: "append_task_event c st t g e d1 = Inr (s', d')"
      by (rule change_Inr)
    then have "t = s" "g = h" "e = EvidenceInvalidated reason" "d1 = d"
      using load by (auto simp: pure_operation_Inr)
    moreover have "guarded c s (EvidenceInvalidated reason)"
      using 2(1) by simp
    ultimately show ?thesis
      using append_preserves(1) [OF assms(1) db_inv_loaded(1) [OF assms(1) load]] app by blast
  qed (use assms(1) in simp)
qed

lemma establish_workspace_preserves:
  assumes "db_inv c d" and "establish_workspace c st i revision origin baseline d = Inr (s', d')"
  shows "db_inv c d'"
proof -
  from assms(2) obtain s h s1 d1 t h1 where load: "load_state c d i = Inr (s, h)"
    and g: "t_outcome s = None" "t_origin s = None" "t_baseline s = None" "cand_frozen baseline"
    and a1: "append_task_event c st s h (OriginCaptured origin) d = Inr (s1, d1)"
    and load1: "load_state c d1 i = Inr (t, h1)"
    and a2: "append_task_event c st s1 h1 (BaselineEstablished baseline) d1 = Inr (s', d')"
    by (auto simp: establish_workspace_def result_simps split: if_splits)
  have "guarded c s (OriginCaptured origin)"
    using g by simp
  note p1 = append_preserves [OF assms(1) db_inv_loaded(1) [OF assms(1) load] this a1]
  from p1(3) obtain g1 where ok1: "stored c d1 i s1 g1"
    by blast
  then have "t = s1" "h1 = g1"
    using tasks.load_ok [OF ok1] load1 by simp_all
  moreover have "guarded c s1 (BaselineEstablished baseline)"
    using p1(2) g by (auto simp: task_apply_def)
  ultimately show ?thesis
    using append_preserves(1) [OF p1(1) ok1] a2 by blast
qed

lemma recover_task_preserves:
  assumes "db_inv c (snd rd)" and "recover_task c st rd i = Inr rd'"
  shows "db_inv c (snd rd')"
proof -
  from assms(2) consider "rd' = rd" | revision s' d' where "change c st i revision False
      (\<lambda>_ d0. Inr (Interrupted recovery_reason, delete_task_leases i d0)) (snd rd) = Inr (s', d')" "snd rd' = d'"
    unfolding recover_task_def by (auto simp: result_simps split: if_splits)
  then show ?thesis
  proof cases
    case 2
    show ?thesis
      unfolding 2(2) using assms(1) 2(1) by (rule change_preserves(1)) auto
  qed (use assms(1) in simp)
qed

lemma recover_tasks_preserves:
  assumes "db_inv c d" and "recover_tasks c st ids d = Inr (recovered, d')"
  shows "db_inv c d'"
proof -
  have "db_inv c (snd (recovered, d'))"
    using assms(2) unfolding recover_tasks_def
    by (rule try_fold_invariant [where P = "\<lambda>rd. db_inv c (snd rd)"])
      (use assms(1) in \<open>auto intro: recover_task_preserves\<close>)
  then show ?thesis by simp
qed

section \<open>Reachable databases\<close>

text \<open>One command of the host; the artifact store and the clock may have moved on between commands.\<close>

inductive store_step :: "('b, 'z) codec_scheme \<Rightarrow> 'b db \<Rightarrow> 'b db \<Rightarrow> bool"
  for c :: "('b, 'z) codec_scheme" and d :: "'b db" where
  create: "create c st i now contract d = Inr (s, d') \<Longrightarrow> store_step c d d'"
| audit: "audit_evidence c st show_error i d = Inr (s, d') \<Longrightarrow> store_step c d d'"
| select: "select_candidate c st i revision candidate d = Inr (s, d') \<Longrightarrow> store_step c d d'"
| workspace: "establish_workspace c st i revision origin candidate d = Inr (s, d') \<Longrightarrow> store_step c d d'"
| baseline: "establish_baseline c st i revision candidate d = Inr (s, d') \<Longrightarrow> store_step c d d'"
| invalidate: "invalidate_candidate c st i revision reason d = Inr (s, d') \<Longrightarrow> store_step c d d'"
| cancel: "request_cancellation c st i d = Inr (s, d') \<Longrightarrow> store_step c d d'"
| amend: "amend_contract c st i revision contract basis d = Inr (s, d') \<Longrightarrow> store_step c d d'"
| admit: "admit_contract c st i revision contract basis receipt d = Inr (s, d') \<Longrightarrow> store_step c d d'"
| additive: "accept_additive_contract c st i revision contract receipt d = Inr (s, d') \<Longrightarrow> store_step c d d'"
| phase: "set_phase c st i revision phase d = Inr (s, d') \<Longrightarrow> store_step c d d'"
| begin_check: "begin_check c st i revision check token job_id now d = Inr (lease, d') \<Longrightarrow> store_step c d d'"
| finish_check: "finish_check c st lease observation now d = Inr (s, d') \<Longrightarrow> store_step c d d'"
| start_job: "start_job_record c st load_session i revision mutates timeout_ms invocation job_id now d = Inr (r, d') \<Longrightarrow>
    store_step c d d'"
| settle: "settle_job_record c st i job_id status receipt_opt d = Inr (s, d') \<Longrightarrow> store_step c d d'"
| fence: "fence_job c st i job_id receipt d = Inr (s, d') \<Longrightarrow> store_step c d d'"
| finding: "record_finding c st i revision finding d = Inr (s, d') \<Longrightarrow> store_step c d d'"
| effect: "record_effect c st i revision effect d = Inr (s, d') \<Longrightarrow> store_step c d d'"
| call: "record_model_call c st i operation call_receipt d = Inr (s, d') \<Longrightarrow> store_step c d d'"
| account: "account_usage c st i operation usage now d = Inr (s, d') \<Longrightarrow> store_step c d d'"
| deliver: "record_delivery c st i revision delivery d = Inr (s, d') \<Longrightarrow> store_step c d d'"
| complete: "complete c st i revision now d = Inr (s, d') \<Longrightarrow> store_step c d d'"
| stop: "stop_task c st i revision outcome reason d = Inr (s, d') \<Longrightarrow> store_step c d d'"
| reopen: "reopen c st i revision reason d = Inr (s, d') \<Longrightarrow> store_step c d d'"
| recover: "recover_tasks c st ids d = Inr (recovered, d') \<Longrightarrow> store_step c d d'"

lemmas command_preserves =
  audit_evidence_preserves select_candidate_preserves establish_workspace_preserves
  establish_baseline_preserves invalidate_candidate_preserves request_cancellation_preserves
  amend_contract_preserves admit_contract_preserves accept_additive_contract_preserves
  set_phase_preserves begin_check_preserves finish_check_preserves start_job_record_preserves
  settle_job_record_preserves fence_job_preserves record_finding_preserves record_effect_preserves
  record_model_call_preserves account_usage_preserves record_delivery_preserves complete_preserves
  stop_task_preserves reopen_preserves recover_tasks_preserves

lemma store_step_preserves: "codec_ok c \<Longrightarrow> db_inv c d \<Longrightarrow> store_step c d d' \<Longrightarrow> db_inv c d'"
  by (erule store_step.cases; hypsubst) (erule (1) command_preserves | erule (2) create_preserves)+

definition empty_db :: "'b db" where
  "empty_db = \<lparr>db_tasks = (\<lambda>_. None), db_sessions = (\<lambda>_. None), db_events = [], db_checkpoints = [], db_leases = (\<lambda>_. None)\<rparr>"

inductive db_reachable :: "('b, 'z) codec_scheme \<Rightarrow> 'b db \<Rightarrow> bool"
  for c :: "('b, 'z) codec_scheme" where
  empty: "db_reachable c empty_db"
| step: "db_reachable c d \<Longrightarrow> store_step c d d' \<Longrightarrow> db_reachable c d'"

lemma db_inv_empty: "db_inv c empty_db"
  by (simp add: db_inv_def absent_def empty_db_def task_events_def)

lemma db_reachable_inv: "codec_ok c \<Longrightarrow> db_reachable c d \<Longrightarrow> db_inv c d"
  by (rotate_tac, induction rule: db_reachable.induct) (auto intro: db_inv_empty store_step_preserves)

section \<open>Commands succeed\<close>

text \<open>The key of the next event is free, so an event within its budget that applies is appended.\<close>

lemma append_task_event_total:
  assumes "task_ok c d i s h" and "budgeted_event e \<Longrightarrow> check_artifact_budget c st d i e (event_limit s e) = Inr ()"
    and "event_bytes c e = Inr b" and "task_apply (contract_digest c) s e = Inr s'"
    and "event_hash c i (t_revision s') (Some h) b = Inr h'" and "unat (t_revision s') < 2 ^ 63"
    and "enc_state c s' = Inr sb"
  shows "\<exists>d'. append_task_event c st s h e d = Inr (s', d')"
proof -
  let ?row = "journal_row i (t_revision s') b h'"
  have j: "journal c i (task_events i d) s h"
    using assms(1) by (simp add: task_ok_def)
  have i: "t_id s = i" and len: "unat (t_revision s) = length (task_events i d)"
    using journal_length [OF j] by simp_all
  have "unat (t_revision s') = Suc (length (task_events i d))"
    using journal_length [OF journal.step [OF j assms(3-6)]] by simp
  then have rev': "uint (t_revision s') = int (Suc (length (task_events i d)))"
    by (metis uint_nat_eq)
  have "\<not> (er_aggregate x = task_uuid i \<and> er_kind x = TaskAggregate \<and> er_revision x = uint (t_revision s'))"
    if "x \<in> set (db_events d)" for x
  proof
    assume x: "er_aggregate x = task_uuid i \<and> er_kind x = TaskAggregate \<and> er_revision x = uint (t_revision s')"
    with that have "x \<in> set (task_events i d)"
      by (simp add: task_events_def)
    with journal_row_keyed [OF j this] x rev' show False
      by simp
  qed
  then have ins: "insert_event \<lparr>er_aggregate = task_uuid i, er_kind = TaskAggregate,
      er_revision = uint (t_revision s'), er_event = b, er_hash = digest_to_string h'\<rparr> d
      = Inr (d\<lparr>db_events := db_events d @ [?row]\<rparr>)"
    by (auto simp: insert_event_def journal_row_def list_ex_iff)
  have "(if budgeted_event e then check_artifact_budget c st d i e (event_limit s e) else Inr ()) = Inr ()"
    using assms(2) by simp
  with assms(3-7) i ins show ?thesis
    by (simp add: append_task_event_def Let_def i64_of_u64_def store_checkpoint_def)
qed

end
