(* ===== verification/Store_Fixture.thy ===== *)
theory Store_Fixture
  imports Store_Invariant
begin

text \<open>
  A concrete codec and artifact store in which the store commands run, and one complete history of a
  task: created, worked on by a writing job, frozen, verified, delivered and completed. It shows that
  the hypotheses of the store's theorems can hold together.
\<close>

section \<open>A concrete codec\<close>

datatype wire =
    WEvent TaskEvent
  | WState TaskState
  | WLink link
  | WText string
  | WBlob digest

definition bytes32 :: "u8 \<Rightarrow> digest" where
  "bytes32 b = Digest (replicate 32 b)"

lemma digest_ok_bytes32 [simp]: "digest_ok (bytes32 b)"
  by (simp add: bytes32_def digest_ok_def)

fun wire_sha :: "wire \<Rightarrow> digest" where
  "wire_sha (WEvent e) = bytes32 101"
| "wire_sha (WState s) = bytes32 102"
| "wire_sha (WLink l) = bytes32 103"
| "wire_sha (WText t) = bytes32 104"
| "wire_sha (WBlob d) = (if digest_ok d then d else bytes32 105)"

definition wire_codec :: "wire codec" where
  "wire_codec =
     \<lparr>sha = wire_sha, blen = (\<lambda>_. 0),
      enc_event = (\<lambda>e. Inr (WEvent e)), dec_event = (\<lambda>b. case b of WEvent e \<Rightarrow> Inr e | _ \<Rightarrow> Inl ''event''),
      enc_state = (\<lambda>s. Inr (WState s)), dec_state = (\<lambda>b. case b of WState s \<Rightarrow> Inr s | _ \<Rightarrow> Inl ''state''),
      enc_contract = (\<lambda>_. Inr (WText ''contract'')), enc_check = (\<lambda>_. Inr (WText ''check'')),
      enc_link = (\<lambda>l. Inr (WLink l)), dec_snapshot = (\<lambda>_. Inl ''snapshot''),
      dec_patch = (\<lambda>_. Inl ''patch''), dec_messages = (\<lambda>_. Inr [])\<rparr>"

lemma wire_codec_ok: "codec_ok wire_codec"
proof -
  have "digest_ok (wire_sha b)" for b
    by (cases b) simp_all
  then show ?thesis
    by (simp add: codec_ok_def wire_codec_def)
qed

text \<open>Every digest names an intact artifact.\<close>

definition wire_store :: "wire ArtifactStore" where
  "wire_store =
     \<lparr>as_files = (\<lambda>p. case digest_from_str p of Inr d \<Rightarrow> Some (RegularFile (WBlob d)) | Inl _ \<Rightarrow> None),
      as_max = 16\<rparr>"

lemma wire_read: "digest_ok d \<Longrightarrow> read_artifact wire_codec wire_store d = Inr (WBlob d)"
  by (simp add: read_artifact_def wire_store_def artifact_path_def digest_from_to_string wire_codec_def)

lemma wire_read_all: "\<forall>d \<in> set ds. digest_ok d \<Longrightarrow> read_all wire_codec wire_store ds = Inr ()"
  by (induction ds) (simp_all add: read_all_def wire_read)

definition plain_refs :: "TaskEvent \<Rightarrow> bool" where
  "plain_refs e \<longleftrightarrow> (\<forall>b \<in> set (event_refs e). digest_ok (fst b) \<and> snd b \<in> {Opaque, SnapshotBlob})"

lemma wire_graph:
  assumes "\<forall>b \<in> set referenced. digest_ok (fst b) \<and> snd b \<in> {Opaque, SnapshotBlob}"
  shows "verify_artifact_graph wire_codec wire_store referenced limit = Inr ()"
proof -
  have roots: "reaches wire_codec wire_store (set referenced) b \<Longrightarrow> b \<in> set referenced" for b
  proof (induction rule: reaches.induct)
    case (step b bytes refs b')
    then have "bytes = WBlob (fst b)" "snd b \<in> {Opaque, SnapshotBlob}"
      using assms wire_read by auto
    with step have "refs = []"
      by (auto simp: wire_codec_def)
    with step show ?case by simp
  qed
  have "intact wire_codec wire_store b" if "b \<in> set referenced" for b
    using assms that wire_read [of "fst b"] by (auto simp: intact_def wire_codec_def)
  moreover have "artifact_size wire_codec wire_store x = 0" for x
    by (simp add: artifact_size_def wire_codec_def split: sum.splits)
  ultimately show ?thesis
    unfolding verify_artifact_graph_iff graph_fits_def using roots by simp
qed

definition plain_rows :: "wire db \<Rightarrow> bool" where
  "plain_rows d \<longleftrightarrow> (\<forall>r \<in> set (db_events d). \<exists>e. er_event r = WEvent e \<and> plain_refs e)"

lemma set_extend_refs: "set (extend_refs xs s) = set s \<union> set xs"
  by (simp add: extend_refs_def foldl_bs_insert)

lemma wire_budget:
  assumes "plain_rows d" and "plain_refs e"
  shows "check_artifact_budget wire_codec wire_store d i e limit = Inr ()"
proof -
  have fold: "\<exists>R. try_fold (\<lambda>referenced r. and_then (map_err StoreJson (dec_event wire_codec (er_event r)))
      (\<lambda>e. Inr (collect_artifacts e referenced))) R0 rs = Inr R \<and>
      (\<forall>b \<in> set R. digest_ok (fst b) \<and> snd b \<in> {Opaque, SnapshotBlob})"
    if "\<forall>r \<in> set rs. \<exists>e. er_event r = WEvent e \<and> plain_refs e"
      and "\<forall>b \<in> set R0. digest_ok (fst b) \<and> snd b \<in> {Opaque, SnapshotBlob}" for rs R0
    using that
  proof (induction rs arbitrary: R0)
    case Nil
    then show ?case by simp
  next
    case (Cons r rs)
    then obtain e where e: "er_event r = WEvent e" "plain_refs e"
      by auto
    have "\<forall>b \<in> set (collect_artifacts e R0). digest_ok (fst b) \<and> snd b \<in> {Opaque, SnapshotBlob}"
      using e(2) Cons.prems(2) by (auto simp: collect_artifacts_def set_extend_refs plain_refs_def)
    with Cons.IH [of "collect_artifacts e R0"] Cons.prems(1) e(1) show ?case
      by (simp add: wire_codec_def)
  qed
  have "\<forall>r \<in> set (task_events i d). \<exists>e. er_event r = WEvent e \<and> plain_refs e"
    using assms(1) by (simp add: plain_rows_def task_events_def)
  then obtain R where R: "try_fold (\<lambda>referenced r. and_then (map_err StoreJson (dec_event wire_codec (er_event r)))
      (\<lambda>e. Inr (collect_artifacts e referenced))) [] (task_events i d) = Inr R"
    and ok: "\<forall>b \<in> set R. digest_ok (fst b) \<and> snd b \<in> {Opaque, SnapshotBlob}"
    using fold [of "task_events i d" "[]"] by auto
  have "verify_artifact_graph wire_codec wire_store (collect_artifacts e R) limit = Inr ()"
    using ok assms(2) by (intro wire_graph) (auto simp: collect_artifacts_def set_extend_refs plain_refs_def)
  with R show ?thesis
    by (simp add: check_artifact_budget_def)
qed

section \<open>Running commands\<close>

lemma wire_append:
  assumes "stored wire_codec d i s h" and "plain_rows d" and "plain_refs e"
    and "task_apply (contract_digest wire_codec) s e = Inr s'" and "unat (t_revision s') < 2 ^ 63"
  shows "\<exists>d' h'. append_task_event wire_codec wire_store s h e d = Inr (s', d') \<and>
    stored wire_codec d' i s' h' \<and> plain_rows d' \<and> db_leases d' = db_leases d"
proof -
  have "\<exists>d'. append_task_event wire_codec wire_store s h e d = Inr (s', d')"
    using assms
    by (intro append_task_event_total [where i = i and b = "WEvent e" and h' = "bytes32 103" and sb = "WState s'"])
      (simp_all add: stored_def wire_budget, simp_all add: event_bytes_def event_hash_def aggregate_hash_def
        of_value_def wire_codec_def)
  then obtain d' where app: "append_task_event wire_codec wire_store s h e d = Inr (s', d')" ..
  moreover obtain h' where "stored wire_codec d' i s' h'"
    using tasks.append_ok [OF assms(1) app] by blast
  moreover have "plain_rows d' \<and> db_leases d' = db_leases d"
    using app
  proof (rule append_task_event_Inr)
    fix b g
    assume b: "event_bytes wire_codec e = Inr b"
      and ev: "db_events d' = db_events d @ [journal_row (t_id s) (t_revision s') b g]"
      and l: "db_leases d' = db_leases d"
    from b have "b = WEvent e"
      by (auto simp: event_bytes_Inr wire_codec_def)
    with ev l assms(2,3) show ?thesis
      by (auto simp: plain_rows_def journal_row_def)
  qed
  ultimately show ?thesis by blast
qed

lemma wire_change:
  assumes "stored wire_codec d i s h" and "plain_rows d"
    and "\<And>expected. revision = Some expected \<Longrightarrow> expected = t_revision s" and "allow \<or> t_outcome s = None"
    and "operation s d = Inr (e, d1)" and "same_journal d d1" and "plain_refs e"
    and "task_apply (contract_digest wire_codec) s e = Inr s'" and "unat (t_revision s') < 2 ^ 63"
  shows "\<exists>d' h'. change wire_codec wire_store i revision allow operation d = Inr (s', d') \<and>
    stored wire_codec d' i s' h' \<and> plain_rows d' \<and> db_leases d' = db_leases d1"
proof -
  have "stored wire_codec d1 i s h" and "plain_rows d1"
    using assms(1,2) same_journal_ok [OF assms(6), of wire_codec i s h] assms(6)
    by (simp_all add: plain_rows_def same_journal_def)
  from wire_append [OF this assms(7-9)] obtain d' h' where
    "append_task_event wire_codec wire_store s h e d1 = Inr (s', d')" "stored wire_codec d' i s' h'"
    "plain_rows d'" "db_leases d' = db_leases d1"
    by blast
  moreover have "\<not> (case revision of None \<Rightarrow> False | Some expected \<Rightarrow> expected \<noteq> t_revision s)"
    using assms(3) by (auto split: option.splits)
  ultimately show ?thesis
    using tasks.load_ok [OF assms(1)] assms(4,5)
    by (intro exI [of _ d'] exI [of _ h']) (simp add: change_def commit_event_def)
qed

section \<open>A complete history\<close>

definition fx_task :: TaskId where
  "fx_task = TaskId (Uuid 1)"

definition fx_check :: CheckDefinition where
  "fx_check = \<lparr>d_purpose = ''unit tests'', d_kind = Behavior, d_verifier = bytes32 6,
     d_command = [''make''], d_timeout_ms = 1000, d_minimum_assertions = 1, d_control = ControlNone,
     d_control_source = None, d_baseline = MustPass, d_flake = RejectAnyFailure\<rparr>"

definition fx_contract :: Contract where
  "fx_contract = \<lparr>c_request = ''fix it'', c_outcome = ''fixed'', c_scope = ''all'',
     c_requirements = [sample_requirement ''a'' []], c_checks = [(''unit'', fx_check)],
     c_protected_behavior = [], c_assumptions = [], c_open_questions = [], c_delivery = Patch,
     c_limits = Limits_default\<rparr>"

definition fx_candidate :: Candidate where
  "fx_candidate = \<lparr>cand_source = bytes32 1, cand_environment = bytes32 2, cand_artifact = bytes32 1,
     cand_frozen = True, cand_provenance = None\<rparr>"

definition fx_writer :: Job where
  "fx_writer = \<lparr>j_id = Uuid 5, j_generation = 1, j_status = Running, j_mutates_candidate = True,
     j_check = None, j_identity = None, j_started_ms = 1001, j_deadline_ms = 1101,
     j_invocation = None, j_fence_receipt = None, j_execution_receipt = None\<rparr>"

definition fx_identity :: EvidenceIdentity where
  "fx_identity = evidence_identity (bytes32 104) fx_candidate (bytes32 104) fx_check"

definition fx_checker :: Job where
  "fx_checker = \<lparr>j_id = Uuid 7, j_generation = 2, j_status = Running, j_mutates_candidate = False,
     j_check = Some ''unit'', j_identity = Some fx_identity, j_started_ms = 1002, j_deadline_ms = 2002,
     j_invocation = None, j_fence_receipt = None, j_execution_receipt = None\<rparr>"

definition fx_observation :: Observation where
  "fx_observation = \<lparr>ob_status = CheckPassed, ob_report = bytes32 9, ob_assertions = 3,
     ob_discovered = Some 3, ob_skipped = 0, ob_exit_code = Some 0, ob_signal = None,
     ob_control = None, ob_baseline_unchanged = False, ob_limitations = [],
     ob_unreconciled_jobs = []\<rparr>"

definition fx_evidence :: Evidence where
  "fx_evidence = \<lparr>ev_job_id = Uuid 7, ev_generation = 2, ev_check = ''unit'',
     ev_identity = fx_identity, ev_started_ms = 1002, ev_finished_ms = 1003,
     ev_observation = fx_observation\<rparr>"

definition fx_delivery :: Delivery where
  "fx_delivery = \<lparr>dl_kind = Patch, dl_source = bytes32 1, dl_artifact = bytes32 1, dl_receipt = bytes32 10\<rparr>"

definition fx_certificate :: Certificate where
  "fx_certificate = \<lparr>cert_task = fx_task, cert_contract = bytes32 104, cert_source = bytes32 1,
     cert_artifact = bytes32 1, cert_environment = bytes32 2, cert_generation = 2,
     cert_evaluated_revision = 7, cert_evidence = [(''unit'', Uuid 7)],
     cert_delivery_receipt = bytes32 10\<rparr>"

fun fx_run :: "TaskEvent list \<Rightarrow> TaskState \<Rightarrow> TaskState" where
  "fx_run [] s = s"
| "fx_run (e # es) s =
     (case task_apply (contract_digest wire_codec) s e of Inl _ \<Rightarrow> s | Inr s' \<Rightarrow> fx_run es s')"

definition fx_events :: "TaskEvent list" where
  "fx_events = [JobStarted fx_writer, JobSettled (Uuid 5) JobSucceeded None, CandidateSelected fx_candidate,
     JobStarted fx_checker, Observed fx_evidence, Delivered fx_delivery, Completed fx_certificate]"

definition fx_state :: "nat \<Rightarrow> TaskState" where
  "fx_state n = fx_run (take n fx_events) (created fx_task fx_contract 1000)"

lemma fx_apply:
  "task_apply (contract_digest wire_codec) (fx_state 0) (JobStarted fx_writer) = Inr (fx_state 1)"
  "task_apply (contract_digest wire_codec) (fx_state 1) (JobSettled (Uuid 5) JobSucceeded None) = Inr (fx_state 2)"
  "task_apply (contract_digest wire_codec) (fx_state 2) (CandidateSelected fx_candidate) = Inr (fx_state 3)"
  "task_apply (contract_digest wire_codec) (fx_state 3) (JobStarted fx_checker) = Inr (fx_state 4)"
  "task_apply (contract_digest wire_codec) (fx_state 4) (Observed fx_evidence) = Inr (fx_state 5)"
  "task_apply (contract_digest wire_codec) (fx_state 5) (Delivered fx_delivery) = Inr (fx_state 6)"
  "task_apply (contract_digest wire_codec) (fx_state 6) (Completed fx_certificate) = Inr (fx_state 7)"
proof -
  have "task_apply (contract_digest wire_codec) (fx_state 0) (JobStarted fx_writer) = Inr (fx_state 1) \<and>
    task_apply (contract_digest wire_codec) (fx_state 1) (JobSettled (Uuid 5) JobSucceeded None) = Inr (fx_state 2) \<and>
    task_apply (contract_digest wire_codec) (fx_state 2) (CandidateSelected fx_candidate) = Inr (fx_state 3) \<and>
    task_apply (contract_digest wire_codec) (fx_state 3) (JobStarted fx_checker) = Inr (fx_state 4) \<and>
    task_apply (contract_digest wire_codec) (fx_state 4) (Observed fx_evidence) = Inr (fx_state 5) \<and>
    task_apply (contract_digest wire_codec) (fx_state 5) (Delivered fx_delivery) = Inr (fx_state 6) \<and>
    task_apply (contract_digest wire_codec) (fx_state 6) (Completed fx_certificate) = Inr (fx_state 7)"
    by code_simp
  then show "task_apply (contract_digest wire_codec) (fx_state 0) (JobStarted fx_writer) = Inr (fx_state 1)"
  "task_apply (contract_digest wire_codec) (fx_state 1) (JobSettled (Uuid 5) JobSucceeded None) = Inr (fx_state 2)"
  "task_apply (contract_digest wire_codec) (fx_state 2) (CandidateSelected fx_candidate) = Inr (fx_state 3)"
  "task_apply (contract_digest wire_codec) (fx_state 3) (JobStarted fx_checker) = Inr (fx_state 4)"
  "task_apply (contract_digest wire_codec) (fx_state 4) (Observed fx_evidence) = Inr (fx_state 5)"
  "task_apply (contract_digest wire_codec) (fx_state 5) (Delivered fx_delivery) = Inr (fx_state 6)"
  "task_apply (contract_digest wire_codec) (fx_state 6) (Completed fx_certificate) = Inr (fx_state 7)"
    by blast+
qed

definition fx_no_session :: "SessionId \<Rightarrow> StoreError + session_view" where
  "fx_no_session i = Inl (MissingSession i)"

text \<open>What each command's guard sees in the state it meets.\<close>

lemma fx_facts:
  "t_revision (fx_state n) = (if n = 0 then 1 else if n = 1 then 2 else if n = 2 then 3 else if n = 3 then 4
     else if n = 4 then 5 else if n = 5 then 6 else if n = 6 then 7 else 8)"
  if "n \<le> 7"
proof -
  have "t_revision (fx_state 0) = 1 \<and> t_revision (fx_state 1) = 2 \<and> t_revision (fx_state 2) = 3 \<and>
    t_revision (fx_state 3) = 4 \<and> t_revision (fx_state 4) = 5 \<and> t_revision (fx_state 5) = 6 \<and>
    t_revision (fx_state 6) = 7 \<and> t_revision (fx_state 7) = 8"
    by code_simp
  moreover have "n = 0 \<or> n = 1 \<or> n = 2 \<or> n = 3 \<or> n = 4 \<or> n = 5 \<or> n = 6 \<or> n = 7"
    using that by arith
  ultimately show ?thesis by auto
qed

lemma fx_outcome:
  "t_outcome (fx_state 0) = None" "t_outcome (fx_state 1) = None" "t_outcome (fx_state 2) = None"
  "t_outcome (fx_state 3) = None" "t_outcome (fx_state 4) = None" "t_outcome (fx_state 5) = None"
  "t_outcome (fx_state 6) = None" "t_outcome (fx_state 7) = Some Complete"
proof -
  have "t_outcome (fx_state 0) = None \<and>
    t_outcome (fx_state 1) = None \<and>
    t_outcome (fx_state 2) = None \<and>
    t_outcome (fx_state 3) = None \<and>
    t_outcome (fx_state 4) = None \<and>
    t_outcome (fx_state 5) = None \<and>
    t_outcome (fx_state 6) = None \<and>
    t_outcome (fx_state 7) = Some Complete"
    by code_simp
  then show "t_outcome (fx_state 0) = None" "t_outcome (fx_state 1) = None" "t_outcome (fx_state 2) = None"
  "t_outcome (fx_state 3) = None" "t_outcome (fx_state 4) = None" "t_outcome (fx_state 5) = None"
  "t_outcome (fx_state 6) = None" "t_outcome (fx_state 7) = Some Complete"
    by blast+
qed

lemma fx_fields:
  "t_cancellation_requested (fx_state 0) = False" "t_cancellation_requested (fx_state 3) = False"
  "t_amendment_pending (fx_state 0) = False" "t_amendment_pending (fx_state 3) = False"
  "t_started_ms (fx_state 0) = 1000" "t_started_ms (fx_state 3) = 1000"
  "limits (fx_state 0) = Limits_default" "limits (fx_state 3) = Limits_default"
  "unresolved_jobs (fx_state 0) = []" "unresolved_jobs (fx_state 3) = []"
  "t_contract (fx_state 0) = Some fx_contract" "t_contract (fx_state 3) = Some fx_contract"
  "t_contract (fx_state 5) = Some fx_contract" "t_contract (fx_state 6) = Some fx_contract"
  "t_candidate (fx_state 0) = None" "t_candidate (fx_state 3) = Some fx_candidate"
  "t_candidate (fx_state 5) = Some fx_candidate"
  "t_generation (fx_state 0) = 1" "t_generation (fx_state 3) = 2" "t_generation (fx_state 4) = 2"
  "bt_get (t_jobs (fx_state 1)) (Uuid 5) = Some fx_writer"
  "active_writer (fx_state 2) = False"
  "bt_get (t_jobs (fx_state 4)) (Uuid 7) = Some fx_checker"
  "t_evidence (fx_state 6) = [fx_evidence]"
proof -
  have "t_cancellation_requested (fx_state 0) = False \<and>
    t_cancellation_requested (fx_state 3) = False \<and>
    t_amendment_pending (fx_state 0) = False \<and>
    t_amendment_pending (fx_state 3) = False \<and>
    t_started_ms (fx_state 0) = 1000 \<and>
    t_started_ms (fx_state 3) = 1000 \<and>
    limits (fx_state 0) = Limits_default \<and>
    limits (fx_state 3) = Limits_default \<and>
    unresolved_jobs (fx_state 0) = [] \<and>
    unresolved_jobs (fx_state 3) = [] \<and>
    t_contract (fx_state 0) = Some fx_contract \<and>
    t_contract (fx_state 3) = Some fx_contract \<and>
    t_contract (fx_state 5) = Some fx_contract \<and>
    t_contract (fx_state 6) = Some fx_contract \<and>
    t_candidate (fx_state 0) = None \<and>
    t_candidate (fx_state 3) = Some fx_candidate \<and>
    t_candidate (fx_state 5) = Some fx_candidate \<and>
    t_generation (fx_state 0) = 1 \<and>
    t_generation (fx_state 3) = 2 \<and>
    t_generation (fx_state 4) = 2 \<and>
    bt_get (t_jobs (fx_state 1)) (Uuid 5) = Some fx_writer \<and>
    active_writer (fx_state 2) = False \<and>
    bt_get (t_jobs (fx_state 4)) (Uuid 7) = Some fx_checker \<and>
    t_evidence (fx_state 6) = [fx_evidence]"
    by code_simp
  then show "t_cancellation_requested (fx_state 0) = False" "t_cancellation_requested (fx_state 3) = False"
  "t_amendment_pending (fx_state 0) = False" "t_amendment_pending (fx_state 3) = False"
  "t_started_ms (fx_state 0) = 1000" "t_started_ms (fx_state 3) = 1000"
  "limits (fx_state 0) = Limits_default" "limits (fx_state 3) = Limits_default"
  "unresolved_jobs (fx_state 0) = []" "unresolved_jobs (fx_state 3) = []"
  "t_contract (fx_state 0) = Some fx_contract" "t_contract (fx_state 3) = Some fx_contract"
  "t_contract (fx_state 5) = Some fx_contract" "t_contract (fx_state 6) = Some fx_contract"
  "t_candidate (fx_state 0) = None" "t_candidate (fx_state 3) = Some fx_candidate"
  "t_candidate (fx_state 5) = Some fx_candidate"
  "t_generation (fx_state 0) = 1" "t_generation (fx_state 3) = 2" "t_generation (fx_state 4) = 2"
  "bt_get (t_jobs (fx_state 1)) (Uuid 5) = Some fx_writer"
  "active_writer (fx_state 2) = False"
  "bt_get (t_jobs (fx_state 4)) (Uuid 7) = Some fx_checker"
  "t_evidence (fx_state 6) = [fx_evidence]"
    by blast+
qed

lemma fx_evaluate:
  "evaluate (contract_digest wire_codec) (check_digest wire_codec) (fx_state 6) 1004 = Inr fx_certificate"
  by code_simp

lemma fx_digests:
  "contract_digest wire_codec contract = Inr (bytes32 104)" "check_digest wire_codec check = Inr (bytes32 104)"
  by (simp_all add: contract_digest_def check_digest_def of_value_def wire_codec_def)

lemma fx_job_record:
  "job_record wire_codec wire_store fx_no_session fx_task True 100 None (Uuid 5) 1001 (fx_state 0) =
     Inr (JobStarted fx_writer)"
  by (simp add: job_record_def admit_job_def fx_fields accepted_contract_def fx_writer_def
      Limits_default_def saturating_sub_def saturating_add_def word_le_def, simp add: fx_contract_def)

lemma fx_check_job: "check_job wire_codec (Uuid 7) 1002 ''unit'' (fx_state 3) = Inr fx_checker"
  by (simp add: check_job_def admit_job_def fx_fields accepted_contract_def fx_checker_def fx_digests
      fx_identity_def Limits_default_def saturating_sub_def saturating_add_def word_le_def,
      simp add: fx_contract_def fx_candidate_def bt_get_def fx_check_def)

lemma fx_plain_refs:
  "plain_refs (Created fx_contract 1000)" "plain_refs (JobStarted fx_writer)"
  "plain_refs (JobSettled (Uuid 5) JobSucceeded None)" "plain_refs (CandidateSelected fx_candidate)"
  "plain_refs (JobStarted fx_checker)" "plain_refs (Observed fx_evidence)" "plain_refs (Delivered fx_delivery)"
  "plain_refs (Completed fx_certificate)"
  unfolding plain_refs_def by code_simp+

definition fx_at :: "nat \<Rightarrow> string option \<Rightarrow> wire db \<Rightarrow> bool" where
  "fx_at n lease d \<longleftrightarrow>
     (\<exists>h. stored wire_codec d fx_task (fx_state n) h) \<and> plain_rows d \<and>
     db_leases d (fx_task, Uuid 7) = lease \<and> db_reachable wire_codec d"

lemma fx_change:
  assumes "fx_at n lease d" and "task_apply (contract_digest wire_codec) (fx_state n) e = Inr (fx_state m)"
    and "n < 7" and "m \<le> 7" and "revision = Some (t_revision (fx_state n)) \<or> revision = None"
    and "t_outcome (fx_state n) = None"
    and "operation (fx_state n) d = Inr (e, d1)" and "same_journal d d1" and "plain_refs e"
    and "\<And>d'. change wire_codec wire_store fx_task revision allow operation d = Inr (fx_state m, d') \<Longrightarrow>
      store_step wire_codec d d'"
  shows "\<exists>d'. change wire_codec wire_store fx_task revision allow operation d = Inr (fx_state m, d') \<and>
    fx_at m (db_leases d1 (fx_task, Uuid 7)) d'"
proof -
  from assms(1) obtain h where ok: "stored wire_codec d fx_task (fx_state n) h" and rows: "plain_rows d"
    and reach: "db_reachable wire_codec d"
    by (auto simp: fx_at_def)
  have "t_revision (fx_state m) \<in> {1, 2, 3, 4, 5, 6, 7, 8}"
    using fx_facts [OF assms(4)] by auto
  then have "unat (t_revision (fx_state m)) < 2 ^ 63"
    by auto
  then obtain d' h' where "change wire_codec wire_store fx_task revision allow operation d = Inr (fx_state m, d')"
    "stored wire_codec d' fx_task (fx_state m) h'" "plain_rows d'" "db_leases d' = db_leases d1"
    using wire_change [where revision = revision and allow = allow and operation = operation,
        OF ok rows _ _ assms(7-9,2)] assms(5,6) by auto
  moreover from this have "db_reachable wire_codec d'"
    using reach assms(10) db_reachable.step by blast
  ultimately show ?thesis
    by (auto simp: fx_at_def)
qed

lemma fx_command:
  assumes "cmd = change wire_codec wire_store fx_task revision allow operation"
    and "fx_at n lease d" and "task_apply (contract_digest wire_codec) (fx_state n) e = Inr (fx_state m)"
    and "\<And>d'. cmd d = Inr (fx_state m, d') \<Longrightarrow> store_step wire_codec d d'"
    and "n < 7" and "m \<le> 7" and "revision = Some (t_revision (fx_state n)) \<or> revision = None"
    and "t_outcome (fx_state n) = None"
    and "operation (fx_state n) d = Inr (e, d1)" and "same_journal d d1" and "plain_refs e"
    and "db_leases d1 (fx_task, Uuid 7) = lease'"
  shows "\<exists>d'. cmd d = Inr (fx_state m, d') \<and> fx_at m lease' d'"
  using fx_change [where revision = revision and allow = allow and operation = operation, OF assms(2,3,5-11)]
    assms(1,4,12) by simp

definition fx_created :: "wire db" where
  "fx_created = (case create wire_codec wire_store fx_task 1000 fx_contract empty_db of
     Inr (s, d) \<Rightarrow> d | Inl _ \<Rightarrow> empty_db)"

lemma fx_create: "create wire_codec wire_store fx_task 1000 fx_contract empty_db = Inr (fx_state 0, fx_created)"
proof -
  have "contract_validate fx_contract = Inr ()"
    by code_simp
  moreover have "check_artifact_budget wire_codec wire_store empty_db fx_task (Created fx_contract 1000) limit = Inr ()" for limit
    by (intro wire_budget fx_plain_refs) (simp add: plain_rows_def empty_db_def)
  ultimately have "\<exists>d. create wire_codec wire_store fx_task 1000 fx_contract empty_db = Inr (fx_state 0, d)"
    by (simp add: create_def Let_def event_bytes_def event_hash_def aggregate_hash_def of_value_def wire_codec_def
        insert_task_def insert_event_def store_checkpoint_def i64_of_u64_def empty_db_def fx_state_def)
  then show ?thesis
    by (auto simp: fx_created_def)
qed

lemma fx_at_0: "fx_at 0 None fx_created"
proof -
  have "\<exists>h. stored wire_codec fx_created fx_task (fx_state 0) h"
    by (rule create_stored(1) [OF wire_codec_ok _ fx_create]) (simp add: absent_def empty_db_def task_events_def)
  moreover have "plain_rows fx_created \<and> db_leases fx_created = db_leases empty_db"
    using fx_create
    by (rule create_Inr)
      (auto simp: plain_rows_def empty_db_def journal_row_def event_bytes_Inr wire_codec_def fx_plain_refs)
  moreover have "db_reachable wire_codec fx_created"
    by (rule db_reachable.step [OF db_reachable.empty store_step.create [OF fx_create]])
  ultimately show ?thesis
    by (simp add: fx_at_def empty_db_def)
qed

lemma fx_1:
  assumes "fx_at 0 lease d"
  shows "\<exists>d'. start_job wire_codec wire_store fx_no_session fx_task 1 True 100 (Uuid 5) 1001 d =
      Inr ((fx_state 1, Uuid 5), d') \<and> fx_at 1 lease d'"
proof -
  let ?op = "job_record wire_codec wire_store fx_no_session fx_task True 100 None (Uuid 5) 1001"
  have run: "start_job_record wire_codec wire_store fx_no_session fx_task 1 True 100 None (Uuid 5) 1001 d =
      Inr ((s, Uuid 5), d')"
    if "change wire_codec wire_store fx_task (Some 1) False (pure_operation ?op) d = Inr (s, d')" for s d'
    using that by (simp add: start_job_record_def)
  have "\<exists>d'. change wire_codec wire_store fx_task (Some 1) False (pure_operation ?op) d = Inr (fx_state 1, d') \<and>
      fx_at 1 (db_leases d (fx_task, Uuid 7)) d'"
    by (rule fx_change [OF assms fx_apply(1)])
      (simp_all add: fx_facts fx_outcome fx_job_record fx_plain_refs pure_operation_def store_step.start_job [OF run]
        del: One_nat_def)
  then show ?thesis
    using assms run by (auto simp: start_job_def fx_at_def)
qed

lemma fx_2:
  assumes "fx_at 1 lease d"
  shows "\<exists>d'. settle_job wire_codec wire_store fx_task (Uuid 5) JobSucceeded d = Inr (fx_state 2, d') \<and> fx_at 2 lease d'"
proof -
  let ?op = "settle_operation wire_codec wire_store fx_task (Uuid 5) JobSucceeded None"
  have run: "settle_job_record wire_codec wire_store fx_task (Uuid 5) JobSucceeded None d = Inr (s, d')"
    if "change wire_codec wire_store fx_task None True ?op d = Inr (s, d')" for s d'
    using that by (simp add: settle_job_record_def)
  have op: "?op (fx_state 1) d = Inr (JobSettled (Uuid 5) JobSucceeded None, delete_lease fx_task (Uuid 5) d)"
    unfolding settle_operation_def fx_fields by (simp add: fx_writer_def unresolved_def)
  have "\<exists>d'. change wire_codec wire_store fx_task None True ?op d = Inr (fx_state 2, d') \<and>
      fx_at 2 (db_leases (delete_lease fx_task (Uuid 5) d) (fx_task, Uuid 7)) d'"
    by (rule fx_change [OF assms fx_apply(2)])
      (simp_all add: op fx_outcome fx_plain_refs store_step.settle [OF run] del: One_nat_def)
  then show ?thesis
    using assms run by (auto simp: settle_job_def fx_at_def delete_lease_def)
qed

lemma fx_3:
  assumes "fx_at 2 lease d"
  shows "\<exists>d'. select_candidate wire_codec wire_store fx_task 3 fx_candidate d = Inr (fx_state 3, d') \<and> fx_at 3 lease d'"
proof -
  have reads: "read_all wire_codec wire_store [cand_source fx_candidate, cand_environment fx_candidate,
      cand_artifact fx_candidate] = Inr ()"
    by (rule wire_read_all) (simp add: fx_candidate_def)
  have same: "cand_artifact fx_candidate = cand_source fx_candidate"
    by (simp add: fx_candidate_def)
  show ?thesis
    by (rule fx_command [where ?d1.0 = d, OF select_candidate_def assms fx_apply(3) store_step.select])
      (use assms in \<open>simp_all add: fx_facts fx_outcome fx_plain_refs pure_operation_def reads [unfolded same] same
        fx_fields fx_at_def same_journal_def\<close>)
qed

definition fx_token :: wire where
  "fx_token = WText ''token''"

definition fx_lease :: "wire VerificationLease" where
  "fx_lease = \<lparr>vl_task = fx_task, vl_job = Uuid 7, vl_token = fx_token\<rparr>"

abbreviation fx_lease_digest :: string where
  "fx_lease_digest \<equiv> digest_to_string (sha wire_codec fx_token)"

lemma fx_4:
  assumes "fx_at 3 None d"
  shows "\<exists>d'. begin_check wire_codec wire_store fx_task 4 ''unit'' fx_token (Uuid 7) 1002 d = Inr (fx_lease, d') \<and>
    fx_at 4 (Some fx_lease_digest) d'"
proof -
  let ?op = "\<lambda>s d0. and_then (check_job wire_codec (Uuid 7) 1002 ''unit'' s) (\<lambda>job.
      and_then (insert_lease fx_task (Uuid 7) fx_lease_digest d0) (\<lambda>d1. Inr (JobStarted job, d1)))"
  let ?d1 = "d\<lparr>db_leases := (db_leases d)((fx_task, Uuid 7) \<mapsto> fx_lease_digest)\<rparr>"
  have run: "begin_check wire_codec wire_store fx_task 4 ''unit'' fx_token (Uuid 7) 1002 d = Inr (fx_lease, d')"
    if "change wire_codec wire_store fx_task (Some 4) False ?op d = Inr (s, d')" for s d'
    using that by (simp add: begin_check_def fx_lease_def)
  have op: "?op (fx_state 3) d = Inr (JobStarted fx_checker, ?d1)"
    using assms by (simp add: fx_check_job insert_lease_def fx_at_def)
  have "\<exists>d'. change wire_codec wire_store fx_task (Some 4) False ?op d = Inr (fx_state 4, d') \<and>
      fx_at 4 (Some fx_lease_digest) d'"
    by (rule fx_command [OF refl assms fx_apply(4) store_step.begin_check [OF run]])
      (rule op | simp add: fx_facts fx_outcome fx_plain_refs same_journal_def)+
  then show ?thesis
    using run by blast
qed

lemma fx_5:
  assumes "fx_at 4 (Some fx_lease_digest) d"
  shows "\<exists>d'. finish_check wire_codec wire_store fx_lease fx_observation 1003 d = Inr (fx_state 5, d') \<and> fx_at 5 None d'"
proof -
  have reads: "read_all wire_codec wire_store [ob_report fx_observation] = Inr ()"
    by (rule wire_read_all) (simp add: fx_observation_def)
  have evidence: "lease_evidence wire_codec wire_store (Uuid 7) 1003 fx_observation (fx_state 4) = Inr fx_evidence"
    unfolding lease_evidence_def fx_fields reads
    by (simp add: fx_checker_def fx_evidence_def, simp add: fx_observation_def)
  have task: "vl_task fx_lease = fx_task" "vl_job fx_lease = Uuid 7" "vl_token fx_lease = fx_token"
    by (simp_all add: fx_lease_def)
  show ?thesis
    by (rule fx_command [where ?d1.0 = "delete_lease fx_task (Uuid 7) d",
          OF finish_check_def [where lease = fx_lease, unfolded task] assms fx_apply(5) store_step.finish_check])
      (use assms in \<open>simp_all add: fx_facts fx_outcome fx_plain_refs evidence fx_at_def delete_lease_def same_journal_def\<close>)
qed

lemma fx_6:
  assumes "fx_at 5 lease d"
  shows "\<exists>d'. record_delivery wire_codec wire_store fx_task 6 fx_delivery d = Inr (fx_state 6, d') \<and> fx_at 6 lease d'"
proof -
  have reads: "read_all wire_codec wire_store [dl_receipt fx_delivery] = Inr ()"
    by (rule wire_read_all) (simp add: fx_delivery_def)
  have same: "cand_artifact fx_candidate = dl_artifact fx_delivery" "cand_source fx_candidate = dl_source fx_delivery"
    "cand_frozen fx_candidate" "c_delivery fx_contract = dl_kind fx_delivery"
    by (simp_all add: fx_candidate_def fx_delivery_def fx_contract_def)
  show ?thesis
    by (rule fx_command [where ?d1.0 = d, OF record_delivery_def assms fx_apply(6) store_step.deliver])
      (use assms in \<open>simp_all add: fx_facts fx_outcome fx_plain_refs pure_operation_def accepted_contract_def
        reads same fx_fields fx_at_def same_journal_def\<close>)
qed

lemma fx_7:
  assumes "fx_at 6 lease d"
  shows "\<exists>d'. complete wire_codec wire_store fx_task 7 1004 d = Inr (fx_state 7, d') \<and> fx_at 7 lease d'"
proof -
  have reads: "read_all wire_codec wire_store [cert_source fx_certificate, cert_artifact fx_certificate,
      cert_environment fx_certificate, cert_delivery_receipt fx_certificate] = Inr ()"
    by (rule wire_read_all) (simp add: fx_certificate_def)
  have report: "read_all wire_codec wire_store [ob_report (ev_observation fx_evidence)] = Inr ()"
    "read_all wire_codec wire_store [ei_verifier (ev_identity fx_evidence)] = Inr ()"
    by (rule wire_read_all, simp add: fx_evidence_def fx_observation_def fx_identity_def evidence_identity_def fx_check_def)+
  have check: "bt_get (c_checks fx_contract) ''unit'' = Some fx_check" "d_baseline fx_check = MustPass"
    "ob_control (ev_observation fx_evidence) = None" "ev_job_id fx_evidence = Uuid 7"
    by (simp_all add: fx_contract_def fx_check_def fx_evidence_def fx_observation_def bt_get_def)
  have "try_each (evidence_readable wire_codec wire_store (fx_state 6)) (cert_evidence fx_certificate) = Inr ()"
    by (simp add: fx_certificate_def evidence_readable_def fx_fields report check accepted_contract_def)
  then show ?thesis
    by (intro fx_command [where ?d1.0 = d, OF complete_def assms fx_apply(7) store_step.complete])
      (use assms in \<open>simp_all add: fx_facts fx_outcome fx_plain_refs pure_operation_def fx_evaluate reads fx_at_def
        same_journal_def\<close>)
qed

text \<open>The whole history, and a database that shows the completed task.\<close>

lemma fx_started: "\<exists>d. fx_at 1 None d"
  using fx_1 [OF fx_at_0] by blast

lemma fx_leased: "\<exists>d. fx_at 4 (Some fx_lease_digest) d"
  using fx_started fx_2 fx_3 fx_4 by blast

lemma fx_completed: "\<exists>d. fx_at 7 None d"
  using fx_leased fx_5 fx_6 fx_7 by blast

lemma fx_loads: "fx_at n lease d \<Longrightarrow> \<exists>h. load_state wire_codec d fx_task = Inr (fx_state n, h)"
  unfolding fx_at_def using tasks.load_ok by blast

end
