(* ===== verification/Store_Properties.thy ===== *)
theory Store_Properties
  imports Store_Fixture
begin

text \<open>
  Safety of the task store: invariants of the abstract task machine, carried over to every database
  the commands can produce.
\<close>

section \<open>Invariants of the machine\<close>

lemma bt_values_iff: "bt_ok m \<Longrightarrow> v \<in> set (bt_values m) \<longleftrightarrow> (\<exists>k. bt_get m k = Some v)"
  by (auto dest: bt_value_get bt_get_value)

subsection \<open>Contracts\<close>

definition contract_inv :: "TaskState \<Rightarrow> bool" where
  "contract_inv s \<longleftrightarrow> (\<forall>ct. t_contract s = Some ct \<longrightarrow> contract_wf ct \<and> c_request ct = t_request s)"

lemma apply_event_contract_inv:
  assumes "guarded c s e" and "apply_event cd s e = Inr s'" and "contract_inv s"
  shows "contract_inv s'"
  using assms
  by (cases e)
    (auto simp: contract_inv_def event_arm_defs preserves_obligations_def dest!: push_history_frame
      split: if_splits option.splits)

lemma reachable_contract_inv: "task_reachable c i s \<Longrightarrow> contract_inv s"
proof (induction rule: task_reachable.induct)
  case (created contract now)
  then show ?case by (simp add: contract_inv_def created_def requested_def)
next
  case (event s e s')
  then show ?case
    by (auto simp: task_apply_def result_simps contract_inv_def dest!: apply_event_contract_inv)
qed

subsection \<open>Frozen candidates\<close>

definition frozen :: "TaskState \<Rightarrow> bool" where
  "frozen s \<longleftrightarrow> (\<exists>cand. t_candidate s = Some cand \<and> cand_frozen cand)"

definition writer :: "Job \<Rightarrow> bool" where
  "writer job \<longleftrightarrow> j_mutates_candidate job \<and> unresolved (j_status job)"

definition no_writer :: "(uuid, Job) btreemap \<Rightarrow> bool" where
  "no_writer m \<longleftrightarrow> (\<forall>k job. bt_get m k = Some job \<longrightarrow> \<not> writer job)"

lemma active_writer_iff: "task_maps_ok s \<Longrightarrow> active_writer s \<longleftrightarrow> \<not> no_writer (t_jobs s)"
proof -
  assume "task_maps_ok s"
  then have "bt_ok (t_jobs s)"
    by (simp add: task_maps_ok_def)
  then show ?thesis
    using bt_values_iff [of "t_jobs s"]
    unfolding active_writer_def no_writer_def writer_def list_ex_iff by blast
qed

lemma no_writer_map:
  "no_writer m \<Longrightarrow> (\<And>job. \<not> writer job \<Longrightarrow> \<not> writer (f job)) \<Longrightarrow> no_writer (bt_map_values f m)"
  by (auto simp: no_writer_def bt_get_map_values)

definition frozen_inv :: "TaskState \<Rightarrow> bool" where
  "frozen_inv s \<longleftrightarrow> (frozen s \<longrightarrow> no_writer (t_jobs s))"

lemma apply_event_frozen_inv:
  assumes "guarded c s e" and "apply_event cd s e = Inr s'" and "frozen_inv s" and "task_maps_ok s"
  shows "frozen_inv s'"
proof -
  consider (candidate) cand where "e = CandidateSelected cand"
    | (started) job where "e = JobStarted job"
    | (settled) j status r where "e = JobSettled j status r"
    | (fenced) j r where "e = JobFenced j r"
    | (observed) ev where "e = Observed ev"
    | (interrupted) reason where "e = Interrupted reason"
    | (other) "t_jobs s' = t_jobs s \<and> (t_candidate s' = t_candidate s \<or> t_candidate s' = None)"
    using assms(1,2)
    by (cases e) (auto simp: event_arm_defs dest!: push_history_frame split: if_splits)
  then show ?thesis
  proof cases
    case candidate
    then show ?thesis
      using assms(1,2,4) active_writer_iff [OF assms(4)] by (auto simp: frozen_inv_def)
  next
    case started
    with assms show ?thesis
      by (auto simp: frozen_inv_def frozen_def no_writer_def writer_def bt_get_insert split: if_splits)
  next
    case settled
    with assms show ?thesis
      by (auto simp: frozen_inv_def frozen_def no_writer_def writer_def bt_get_adjust split: if_splits)
  next
    case fenced
    with assms show ?thesis
      by (auto simp: frozen_inv_def frozen_def no_writer_def writer_def unresolved_def bt_get_adjust
          split: if_splits)
  next
    case observed
    with assms show ?thesis
      by (auto simp: frozen_inv_def frozen_def apply_observed_def no_writer_def writer_def unresolved_def
          bt_get_adjust split: if_splits)
  next
    case interrupted
    with assms show ?thesis
      by (auto simp: frozen_inv_def frozen_def apply_interrupted_def Let_def writer_def unresolved_def
          intro!: no_writer_map split: if_splits)
  next
    case other
    with assms show ?thesis by (auto simp: frozen_inv_def frozen_def)
  qed
qed

lemma reachable_frozen_inv: "task_reachable c i s \<Longrightarrow> frozen_inv s"
proof (induction rule: task_reachable.induct)
  case (created contract now)
  then show ?case by (simp add: frozen_inv_def frozen_def created_def requested_def)
next
  case (event s e s')
  then obtain s1 where "apply_event (contract_digest c) s e = Inr s1" and s': "s' = s1\<lparr>t_revision := t_revision s1 + 1\<rparr>"
    by (auto simp: task_apply_def result_simps)
  then have "frozen_inv s1"
    using apply_event_frozen_inv [OF event.hyps(2)] event.IH task_reachable_shape [OF event.hyps(1)] by blast
  then show ?case
    by (simp add: s' frozen_inv_def frozen_def)
qed

subsection \<open>Accounting\<close>

definition bt_total :: "('v \<Rightarrow> nat) \<Rightarrow> ('k, 'v) btreemap \<Rightarrow> nat" where
  "bt_total f m = sum_list (map f (bt_values m))"

lemma bt_total_Nil [simp]: "bt_total f [] = 0"
  by (simp add: bt_total_def bt_values_def)

lemma bt_total_insert:
  "bt_ok m \<Longrightarrow> bt_total f (bt_insert k v m) + (case bt_get m k of None \<Rightarrow> 0 | Some w \<Rightarrow> f w) = bt_total f m + f v"
proof (induction m)
  case Nil
  then show ?case by (simp add: bt_total_def bt_values_def)
next
  case (Cons a m)
  obtain k' v' where a: "a = (k', v')"
    by (cases a)
  have ok: "bt_ok m" and less: "\<And>x. x \<in> fst ` set m \<Longrightarrow> k' < x"
    using Cons.prems by (auto simp: bt_ok_def a)
  have "bt_get m k = None" if "k \<le> k'"
    using less that set_keys_bt [of m] by (metis (mono_tags) leD mem_Collect_eq list.set_map)
  then show ?case
    using Cons.IH [OF ok] by (auto simp: a bt_total_def bt_values_def bt_get_def)
qed

definition spent_tokens :: "TaskState \<Rightarrow> nat" where
  "spent_tokens s = bt_total (unat \<circ> receipt_tokens) (t_model_receipts s) + bt_total (unat \<circ> us_tokens) (t_usage_receipts s)"

definition made_calls :: "TaskState \<Rightarrow> nat" where
  "made_calls s = length (t_model_reservations s) + bt_total (unat \<circ> us_model_calls) (t_usage_receipts s)"

definition accounted :: "TaskState \<Rightarrow> bool" where
  "accounted s \<longleftrightarrow>
     unat (us_tokens (t_usage s)) = min (spent_tokens s) (2 ^ 64 - 1) \<and>
     unat (us_model_calls (t_usage s)) = min (made_calls s) (2 ^ 32 - 1)"

lemma recorded_tokens:
  assumes "bt_ok m" and "\<And>p. bt_get m k = Some p \<Longrightarrow> \<not> rewrites_settled p r"
  shows "bt_total (unat \<circ> receipt_tokens) (bt_insert k r m) = bt_total (unat \<circ> receipt_tokens) m +
    (unat (receipt_tokens r) - unat (case bt_get m k of None \<Rightarrow> 0 | Some p \<Rightarrow> receipt_tokens p))"
proof -
  have "unat (receipt_tokens p) \<le> unat (receipt_tokens r)" if "bt_get m k = Some p" for p
    using assms(2) [OF that] by (auto simp: rewrites_settled_def receipt_tokens_def split: option.splits)
  with bt_total_insert [OF assms(1), of "unat \<circ> receipt_tokens" k r] show ?thesis
    by (auto split: option.splits)
qed

lemma apply_recorded_accounted:
  assumes "accounted s" and "task_maps_ok s" and "guarded c s (ModelCallRecorded k r)"
  shows "accounted (apply_model_call_recorded k r s)"
proof -
  let ?p = "case bt_get (t_model_receipts s) k of None \<Rightarrow> 0 | Some p \<Rightarrow> receipt_tokens p"
  have "bt_total (unat \<circ> receipt_tokens) (bt_insert k r (t_model_receipts s)) =
      bt_total (unat \<circ> receipt_tokens) (t_model_receipts s) + (unat (receipt_tokens r) - unat ?p)"
    using assms(2,3) by (intro recorded_tokens) (auto simp: task_maps_ok_def)
  then show ?thesis
    using assms(1)
    by (auto simp: accounted_def apply_model_call_recorded_def Let_def exhaust_def spent_tokens_def
        made_calls_def unat_saturating_add unat_saturating_sub)
qed

lemma apply_charged_accounted:
  assumes "accounted s" and "task_maps_ok s" and "guarded c s (UsageCharged k u)"
  shows "accounted (apply_usage_charged k u s)"
proof -
  have "bt_total f (bt_insert k u (t_usage_receipts s)) = bt_total f (t_usage_receipts s) + f u" for f
    using bt_total_insert [of "t_usage_receipts s" f k u] assms(2,3) by (simp add: task_maps_ok_def)
  then show ?thesis
    using assms(1)
    by (auto simp: accounted_def apply_usage_charged_def Let_def exhaust_def spent_tokens_def
        made_calls_def unat_saturating_add)
qed

lemma apply_event_accounted:
  assumes "guarded c s e" and "apply_event cd s e = Inr s'" and "accounted s" and "task_maps_ok s"
  shows "accounted s'"
proof -
  consider (recorded) k r where "e = ModelCallRecorded k r" | (charged) k u where "e = UsageCharged k u"
    | (reserved) k where "e = ModelCallReserved k"
    | (other) "t_usage s' = t_usage s \<and> t_model_receipts s' = t_model_receipts s \<and>
        t_usage_receipts s' = t_usage_receipts s \<and> t_model_reservations s' = t_model_reservations s"
    using assms(1,2)
    by (cases e) (auto simp: event_arm_defs dest!: push_history_frame split: if_splits)
  then show ?thesis
  proof cases
    case recorded
    then show ?thesis
      using apply_recorded_accounted assms by auto
  next
    case charged
    then show ?thesis
      using apply_charged_accounted assms by auto
  next
    case reserved
    with assms show ?thesis
      by (auto simp: accounted_def spent_tokens_def made_calls_def unat_saturating_add length_bs_insert)
  next
    case other
    with assms(3) show ?thesis by (simp add: accounted_def spent_tokens_def made_calls_def)
  qed
qed

lemma reachable_accounted: "task_reachable c i s \<Longrightarrow> accounted s"
proof (induction rule: task_reachable.induct)
  case (created contract now)
  then show ?case
    by (simp add: accounted_def spent_tokens_def made_calls_def created_def requested_def)
next
  case (event s e s')
  then obtain s1 where "apply_event (contract_digest c) s e = Inr s1" and s': "s' = s1\<lparr>t_revision := t_revision s1 + 1\<rparr>"
    by (auto simp: task_apply_def result_simps)
  then have "accounted s1"
    using apply_event_accounted [OF event.hyps(2)] event.IH task_reachable_shape [OF event.hyps(1)] by blast
  then show ?case
    by (simp add: s' accounted_def spent_tokens_def made_calls_def)
qed

subsection \<open>Certified completion\<close>

text \<open>What a completed task keeps of the state its certificate was issued for.\<close>

definition same_work :: "TaskState \<Rightarrow> TaskState \<Rightarrow> bool" where
  "same_work s0 s \<longleftrightarrow>
     t_contract s = t_contract s0 \<and> t_candidate s = t_candidate s0 \<and> t_baseline s = t_baseline s0 \<and>
     t_delivery s = t_delivery s0 \<and> t_generation s = t_generation s0 \<and> t_evidence s = t_evidence s0 \<and>
     t_jobs s = t_jobs s0 \<and> t_effects s = t_effects s0 \<and>
     t_model_reservations s = t_model_reservations s0 \<and> t_model_receipts s = t_model_receipts s0"

definition within_limits :: "TaskState \<Rightarrow> bool" where
  "within_limits s \<longleftrightarrow>
     us_tokens (t_usage s) \<le> l_tokens (limits s) \<and> us_model_calls (t_usage s) \<le> l_model_calls (limits s)"

lemma within_limits_update [simp]:
  "within_limits (s\<lparr>t_revision := r\<rparr>) = within_limits s"
  "within_limits (s\<lparr>t_certificates := cs, t_outcome := out\<rparr>) = within_limits s"
  by (simp_all add: within_limits_def limits_def split: option.splits)

definition certified :: "('b, 'z) codec_scheme \<Rightarrow> TaskId \<Rightarrow> TaskState \<Rightarrow> bool" where
  "certified c i s \<longleftrightarrow>
     within_limits s \<and> t_certificates s \<noteq> [] \<and>
     (\<exists>s0 now. task_reachable c i s0 \<and> same_work s0 s \<and>
        evaluate (contract_digest c) (check_digest c) s0 now = Inr (last (t_certificates s)))"

lemma evaluate_settled:
  assumes "evaluate cd kd s0 now = Inr cert" and "task_maps_ok s0"
  shows "\<And>k job. bt_get (t_jobs s0) k = Some job \<Longrightarrow> \<not> unresolved (j_status job)"
    and "\<And>k eff. bt_get (t_effects s0) k = Some eff \<Longrightarrow> \<not> effect_open eff"
    and "\<And>k. k \<in> set (t_model_reservations s0) \<Longrightarrow> call_settled s0 k"
    and "within_limits s0" and "t_outcome s0 = None"
proof -
  from assms(1) obtain ct cand dl d where comp: "completable cd kd s0 now ct cand dl d"
    by (rule evaluate_sound)
  then have ob: "obligations_settled s0"
    by (simp add: completable_def)
  show "\<not> unresolved (j_status job)" if "bt_get (t_jobs s0) k = Some job" for k job
    using ob bt_get_value [OF that] by (simp add: obligations_settled_def)
  show "\<not> effect_open eff" if "bt_get (t_effects s0) k = Some eff" for k eff
    using ob bt_get_value [OF that] by (simp add: obligations_settled_def)
  show "call_settled s0 k" if "k \<in> set (t_model_reservations s0)" for k
    using ob that by (simp add: obligations_settled_def)
  show "within_limits s0" and "t_outcome s0 = None"
    using comp by (auto simp: completable_def within_limits_def over_budget_def limits_def)
qed

lemma settled_call_final:
  "call_settled s k \<Longrightarrow> bt_get (t_model_receipts s) k = Some p \<Longrightarrow> rewrites_settled p r"
  by (simp add: call_settled_def rewrites_settled_def)

text \<open>In a certified task only late usage, reopening and an evidence audit can happen.\<close>

lemma certified_events:
  assumes "certified c i s" and "t_outcome s = Some Complete" and "guarded c s e"
  shows "(\<exists>k u. e = UsageCharged k u) \<or> (\<exists>r. e = Reopened r) \<or> (\<exists>r. e = EvidenceInvalidated r)"
proof -
  from assms(1) obtain s0 now where r0: "task_reachable c i s0" and same: "same_work s0 s"
    and ev: "evaluate (contract_digest c) (check_digest c) s0 now = Inr (last (t_certificates s))"
    by (auto simp: certified_def)
  note set0 = evaluate_settled [OF ev] task_reachable_shape [OF r0]
  have jobs: "\<And>k job. bt_get (t_jobs s) k = Some job \<Longrightarrow> \<not> unresolved (j_status job)"
    and effs: "\<And>k eff. bt_get (t_effects s) k = Some eff \<Longrightarrow> \<not> effect_open eff"
    and calls: "\<And>k. k \<in> set (t_model_reservations s) \<Longrightarrow> call_settled s k"
    using set0 same by (auto simp: same_work_def call_settled_def)
  have nodone: "evaluate (contract_digest c) (check_digest c) s t \<noteq> Inr cert" for t cert
  proof
    assume "evaluate (contract_digest c) (check_digest c) s t = Inr cert"
    then obtain ct cand dl d where "completable (contract_digest c) (check_digest c) s t ct cand dl d"
      by (rule evaluate_sound)
    with assms(2) show False
      by (simp add: completable_def)
  qed
  have norec: "\<not> guarded c s (ModelCallRecorded k r)" for k r
  proof
    assume g: "guarded c s (ModelCallRecorded k r)"
    then have "call_settled s k"
      using calls by simp
    moreover from this obtain p where "bt_get (t_model_receipts s) k = Some p"
      by (auto simp: call_settled_def split: option.splits)
    ultimately show False
      using g settled_call_final by auto
  qed
  show ?thesis
  proof (cases e)
    case (ModelCallRecorded k r)
    with norec assms(3) show ?thesis by blast
  qed (use assms(2,3) jobs effs nodone in \<open>auto split: option.splits\<close>)
qed

lemma certified_step:
  assumes "certified c i s" and "t_outcome s = Some Complete" and "guarded c s e"
    and "apply_event cd s e = Inr s'" and "t_outcome s' = Some Complete"
  shows "certified c i s'"
proof -
  from certified_events [OF assms(1-3)] assms(4,5) obtain k u where s': "s' = apply_usage_charged k u s"
    by auto
  with assms(5) have same: "same_work s s'" and "t_certificates s' = t_certificates s" and "within_limits s'"
    by (auto simp: apply_usage_charged_def Let_def exhaust_def same_work_def within_limits_def limits_def not_less
        split: if_splits)
  then show ?thesis
    using assms(1) by (auto simp: certified_def same_work_def)
qed

lemma completion_step:
  assumes "task_reachable c i s" and "t_outcome s \<noteq> Some Complete" and "guarded c s e"
    and "apply_event cd s e = Inr s'" and "t_outcome s' = Some Complete"
  shows "certified c i s'"
proof -
  have "completes e"
    using apply_event_complete [OF assms(4,5)] assms(2) by simp
  then obtain cert where e: "e = Completed cert"
    using assms(3) by (cases e) (auto simp: completes_def)
  with assms(3) obtain now where ev: "evaluate (contract_digest c) (check_digest c) s now = Inr cert"
    by auto
  moreover have s': "s' = s\<lparr>t_certificates := t_certificates s @ [cert], t_outcome := Some Complete\<rparr>"
    using assms(4) e by simp
  moreover have "within_limits s"
    using evaluate_settled(4) [OF ev] task_reachable_shape [OF assms(1)] by blast
  ultimately show ?thesis
    using assms(1)
    by (auto simp: certified_def same_work_def intro!: exI [of _ s] exI [of _ now])
qed

lemma reachable_certified: "task_reachable c i s \<Longrightarrow> t_outcome s = Some Complete \<Longrightarrow> certified c i s"
proof (induction rule: task_reachable.induct)
  case (created contract now)
  then show ?case by (simp add: created_def requested_def)
next
  case (event s e s')
  then obtain s1 where app: "apply_event (contract_digest c) s e = Inr s1"
    and s': "s' = s1\<lparr>t_revision := t_revision s1 + 1\<rparr>"
    by (auto simp: task_apply_def result_simps)
  have "certified c i s1"
  proof (cases "t_outcome s = Some Complete")
    case True
    show ?thesis
      by (rule certified_step [OF event.IH [OF True] True event.hyps(2) app])
        (use event.prems s' in simp)
  next
    case False
    show ?thesis
      by (rule completion_step [OF event.hyps(1) False event.hyps(2) app]) (use event.prems s' in simp)
  qed
  then show ?case
    by (simp add: s' certified_def same_work_def)
qed

section \<open>Properties\<close>


lemma loaded_reachable:
  "codec_ok c \<Longrightarrow> db_reachable c d \<Longrightarrow> load_state c d i = Inr (s, h) \<Longrightarrow> task_reachable c i s"
  using db_reachable_inv db_inv_loaded(2) by blast





text \<open>
  A command on a stored task that names a stale revision, or that is not allowed on an ended task,
  is refused with the matching error whatever it would do.
\<close>

theorem change_guards:
  assumes "stored c d i s h"
  shows "(\<forall>expected. expected \<noteq> t_revision s \<longrightarrow>
      change c st i (Some expected) allow operation d = Inl (RevisionMismatch expected (t_revision s))) \<and>
    (t_outcome s \<noteq> None \<longrightarrow>
      change c st i (Some (t_revision s)) False operation d = Inl Terminal)"
  using tasks.load_ok [OF assms] by (simp add: change_def)



text \<open>
  A job that a command starts or a check that it begins never takes the task past the number of
  concurrent jobs its limits allow.
\<close>

theorem job_capacity_is_respected:
  assumes "admit_job now s = Inr ()" and "task_apply cd s (JobStarted job) = Inr s'"
  shows "length (unresolved_jobs s') \<le> unat (l_concurrent_jobs (limits s))"
proof -
  have len: "length (unresolved_jobs s) < unat (l_concurrent_jobs (limits s))"
    using assms(1) by (auto simp: admit_job_def not_le split: if_splits)
  have "length (filter (\<lambda>v. unresolved (j_status v)) (bt_values (bt_insert k v m))) \<le>
      Suc (length (filter (\<lambda>v. unresolved (j_status v)) (bt_values m)))" for k v and m :: "(uuid, Job) btreemap"
    by (induction k v m rule: bt_insert.induct) (auto simp: bt_values_def)
  then have "length (unresolved_jobs s') \<le> Suc (length (unresolved_jobs s))"
    using assms(2) by (auto simp: task_apply_def unresolved_jobs_def)
  with len show ?thesis by simp
qed

text \<open>
  C6: two databases that load a task with the same head and revision from the same checkpoint hold the
  same events since that checkpoint and the same state, unless two of the byte strings hashed along the
  two journals collide.
\<close>

theorem journal_is_tamper_evident:
  fixes revision :: u64
  assumes "codec_ok c" and "i64_columns d" and "i64_columns d'"
    and "load_state c d i = Inr (s, h)" and "load_state c d' i = Inr (s', h)"
    and "db_tasks d i = Some row" and "db_tasks d' i = Some row'"
    and "ar_revision row = uint revision" and "ar_revision row' = uint revision"
    and "start_cursor c i (latest_checkpoint i (sint revision) d) = Inr cur"
    and "start_cursor c i (latest_checkpoint i (sint revision) d') = Inr cur"
    and "unat (snd (snd cur)) < 2 ^ 63"
    and "\<not> collision c (chain_bytes c i cur (events_after i (snd (snd cur)) d))
      (chain_bytes c i cur (events_after i (snd (snd cur)) d'))"
  shows "map er_event (events_after i (snd (snd cur)) d) = map er_event (events_after i (snd (snd cur)) d') \<and>
    s = s'"
proof -
  let ?rs = "events_after i (snd (snd cur)) d" and ?rs' = "events_after i (snd (snd cur)) d'"
  from assms have f: "try_fold (replay_row c i) cur ?rs = Inr (Some s, Some h, revision)"
    by (auto simp: load_state_def result_simps split: if_splits)
  from assms have f': "try_fold (replay_row c i) cur ?rs' = Inr (Some s', Some h, revision)"
    by (auto simp: load_state_def result_simps split: if_splits)
  have "\<forall>r \<in> set ?rs. er_revision r < 2 ^ 63" and "\<forall>r \<in> set ?rs'. er_revision r < 2 ^ 63"
    using assms(2,3) by (auto simp: events_after_def task_events_def i64_columns_def)
  then have "length ?rs = length ?rs'"
    using replay_rows_sequence [OF f assms(12)] replay_rows_sequence [OF f' assms(12)] by simp
  from chains_agree [OF assms(1) this f f' assms(13)] show ?thesis
    by simp
qed

section \<open>Witnesses\<close>




lemma fx_frozen:
  "t_candidate (fx_state 7) = Some fx_candidate" "cand_frozen fx_candidate"
  "bt_get (t_jobs (fx_state 7)) (Uuid 5) = Some (fx_writer\<lparr>j_status := JobSucceeded\<rparr>)"
  "j_mutates_candidate (fx_writer\<lparr>j_status := JobSucceeded\<rparr>)" "t_contract (fx_state 7) = Some fx_contract"
proof -
  have "t_candidate (fx_state 7) = Some fx_candidate \<and> t_contract (fx_state 7) = Some fx_contract \<and>
      bt_get (t_jobs (fx_state 7)) (Uuid 5) = Some (fx_writer\<lparr>j_status := JobSucceeded\<rparr>)"
    by code_simp
  then show "t_candidate (fx_state 7) = Some fx_candidate" "t_contract (fx_state 7) = Some fx_contract"
      "bt_get (t_jobs (fx_state 7)) (Uuid 5) = Some (fx_writer\<lparr>j_status := JobSucceeded\<rparr>)"
    by blast+
qed (simp_all add: fx_candidate_def fx_writer_def)



theorem change_guards_witness:
  "\<exists>d h. stored wire_codec d fx_task (fx_state 7) h \<and>
     invalidate_candidate wire_codec wire_store fx_task 3 ''edited'' d = Inl (RevisionMismatch 3 8) \<and>
     invalidate_candidate wire_codec wire_store fx_task 8 ''edited'' d = Inl Terminal"
proof -
  obtain d h where d: "stored wire_codec d fx_task (fx_state 7) h"
    using fx_completed by (auto simp: fx_at_def)
  have rev: "t_revision (fx_state 7) = 8"
    by (simp add: fx_facts)
  show ?thesis
    using change_guards [OF d, of wire_store] d
    unfolding rev fx_outcome invalidate_candidate_def by fastforce
qed



theorem job_capacity_is_respected_witness:
  "length (unresolved_jobs (fx_state 1)) \<le> unat (l_concurrent_jobs (limits (fx_state 0)))"
proof (rule job_capacity_is_respected [OF _ fx_apply(1)])
  show "admit_job 1001 (fx_state 0) = Inr ()"
    by (simp add: admit_job_def fx_fields Limits_default_def saturating_sub_def word_le_def)
qed

text \<open>Two journals of the task after its first job, one of which has lost the event before its checkpoint.\<close>

definition fx_short :: "wire db" where
  "fx_short = \<lparr>db_tasks = [fx_task \<mapsto> \<lparr>ar_revision = 2, ar_state = WState (fx_state 1),
       ar_head = digest_to_string (bytes32 103)\<rparr>],
     db_sessions = (\<lambda>_. None),
     db_events = [journal_row fx_task 2 (WEvent (JobStarted fx_writer)) (bytes32 103)],
     db_checkpoints = [\<lparr>cp_aggregate = Uuid 1, cp_kind = TaskAggregate, cp_revision = 1,
       cp_state = WState (fx_state 0), cp_head = digest_to_string (bytes32 103)\<rparr>],
     db_leases = (\<lambda>_. None)\<rparr>"

definition fx_full :: "wire db" where
  "fx_full = fx_short\<lparr>db_events :=
     journal_row fx_task 1 (WEvent (Created fx_contract 1000)) (bytes32 103) # db_events fx_short\<rparr>"

lemma fx_short_cursor:
  "start_cursor wire_codec fx_task (latest_checkpoint fx_task 2 fx_short) =
     Inr (Some (fx_state 0), Some (bytes32 103), 1)"
proof -
  have "t_id (fx_state 0) = fx_task"
    by (simp add: fx_state_def created_def requested_def)
  moreover have "t_revision (fx_state 0) = 1"
    by (simp add: fx_facts)
  ultimately show ?thesis
    by (simp add: latest_checkpoint_def fx_short_def start_cursor_def u64_of_i64_def wire_codec_def
        digest_from_to_string fx_task_def)
qed

lemma fx_full_cursor: "latest_checkpoint i n fx_full = latest_checkpoint i n fx_short"
  by (simp add: latest_checkpoint_def fx_full_def)

lemma fx_short_events:
  "events_after fx_task 1 fx_short = [journal_row fx_task 2 (WEvent (JobStarted fx_writer)) (bytes32 103)]"
  "events_after fx_task 1 fx_full = [journal_row fx_task 2 (WEvent (JobStarted fx_writer)) (bytes32 103)]"
  by (simp_all add: events_after_def task_events_def fx_short_def fx_full_def journal_row_def fx_task_def)

lemma fx_short_loads:
  "load_state wire_codec fx_short fx_task = Inr (fx_state 1, bytes32 103)"
  "load_state wire_codec fx_full fx_task = Inr (fx_state 1, bytes32 103)"
proof -
  have replay: "replay_row wire_codec fx_task (Some (fx_state 0), Some (bytes32 103), 1)
      (journal_row fx_task 2 (WEvent (JobStarted fx_writer)) (bytes32 103)) =
      Inr (Some (fx_state 1), Some (bytes32 103), 2)"
  proof -
    have "replay_event wire_codec fx_task (Some (fx_state 0)) (JobStarted fx_writer) = Inr (fx_state 1)"
      using fx_apply(1) by (simp add: replay_event_def del: One_nat_def)
    moreover have "event_hash wire_codec fx_task 2 previous b = Inr (bytes32 103)" for previous b
      by (simp add: event_hash_def aggregate_hash_def of_value_def wire_codec_def)
    moreover have "dec_event wire_codec (WEvent e) = Inr e" "blen wire_codec b = 0" for e b
      by (simp_all add: wire_codec_def)
    ultimately show ?thesis
      by (simp add: replay_row_def journal_row_def u64_of_i64_def del: One_nat_def)
  qed
  have row: "db_tasks fx_full fx_task = db_tasks fx_short fx_task"
    "db_tasks fx_short fx_task = Some \<lparr>ar_revision = 2, ar_state = WState (fx_state 1),
       ar_head = digest_to_string (bytes32 103)\<rparr>" "enc_state wire_codec s = Inr (WState s)" for s
    by (simp_all add: fx_full_def fx_short_def wire_codec_def)
  show "load_state wire_codec fx_short fx_task = Inr (fx_state 1, bytes32 103)"
    "load_state wire_codec fx_full fx_task = Inr (fx_state 1, bytes32 103)"
    unfolding load_state_def row
    by (simp_all add: u64_of_i64_def fx_full_cursor fx_short_cursor fx_short_events replay row(3))
qed

theorem journal_is_tamper_evident_witness:
  "map er_event (events_after fx_task 1 fx_short) = map er_event (events_after fx_task 1 fx_full) \<and>
   fx_state 1 = fx_state 1"
proof -
  let ?cur = "(Some (fx_state 0), Some (bytes32 103), 1 :: u64)"
  have "\<not> collision wire_codec (chain_bytes wire_codec fx_task ?cur (events_after fx_task 1 fx_short))
      (chain_bytes wire_codec fx_task ?cur (events_after fx_task 1 fx_full))"
    unfolding fx_short_events
    by (auto simp: collision_def hashed_bytes_def journal_row_def wire_codec_def bytes32_def
        split: sum.splits)
  then show ?thesis
    using journal_is_tamper_evident [where revision = 2 and cur = ?cur and d = fx_short and d' = fx_full,
        OF wire_codec_ok _ _ fx_short_loads]
    by (simp add: fx_full_cursor fx_short_cursor,
        simp add: fx_full_def fx_short_def i64_columns_def journal_row_def)
qed

end
