(* ===== verification/Utf8.thy ===== *)
theory Utf8
  imports Prelude
begin

text \<open>
  The parts of Rust's \<open>str\<close> that look at characters: boundaries between the UTF-8 encodings,
  \<open>floor_char_boundary\<close>, the characters of a string and \<open>char::is_control\<close>. Strings are lists of
  bytes, as in \<open>Prelude\<close>.
\<close>

section \<open>Boundaries\<close>

definition continuation_byte :: "char \<Rightarrow> bool" where
  "continuation_byte b = (128 \<le> byte_of b \<and> byte_of b < 192)"

definition is_char_boundary :: "string \<Rightarrow> nat \<Rightarrow> bool" where
  "is_char_boundary s i =
     (i = 0 \<or> i = length s \<or> i < length s \<and> \<not> continuation_byte (s ! i))"

fun boundary_below :: "string \<Rightarrow> nat \<Rightarrow> nat" where
  "boundary_below s 0 = 0"
| "boundary_below s (Suc i) = (if is_char_boundary s (Suc i) then Suc i else boundary_below s i)"

definition floor_char_boundary :: "string \<Rightarrow> nat \<Rightarrow> nat" where
  "floor_char_boundary s i = (if i \<ge> length s then length s else boundary_below s i)"

text \<open>
  Every string of the program is well-formed UTF-8, so an encoding has at most three continuation
  bytes and the first byte is none. This is what splitting a long string relies on.
\<close>

definition utf8_shape :: "string \<Rightarrow> bool" where
  "utf8_shape s \<longleftrightarrow>
     (\<forall>i < length s. \<exists>j \<le> i. i - j < 4 \<and> \<not> continuation_byte (s ! j))"

lemma boundary_below_le: "boundary_below s i \<le> i"
  by (induction i) auto

lemma boundary_below_boundary: "is_char_boundary s (boundary_below s i)"
  by (induction i) (auto simp: is_char_boundary_def)

lemma boundary_below_ge: "j \<le> i \<Longrightarrow> is_char_boundary s j \<Longrightarrow> j \<le> boundary_below s i"
  by (induction i) (auto simp: le_Suc_eq)

lemma floor_char_boundary_le: "floor_char_boundary s i \<le> length s"
  using boundary_below_le [of s i] by (auto simp: floor_char_boundary_def)

lemma floor_char_boundary_boundary: "is_char_boundary s (floor_char_boundary s i)"
  by (simp add: floor_char_boundary_def boundary_below_boundary) (simp add: is_char_boundary_def)

text \<open>A window of at least four bytes contains a boundary after its start.\<close>

lemma floor_char_boundary_progress:
  assumes "utf8_shape s" and "offset < length s" and "4 \<le> n"
  shows "offset < floor_char_boundary s (min (offset + n) (length s))"
proof (cases "offset + n \<ge> length s")
  case True
  then show ?thesis
    using assms(2) by (simp add: floor_char_boundary_def)
next
  case False
  then obtain j where j: "j \<le> offset + n" "offset + n - j < 4" "\<not> continuation_byte (s ! j)"
    using assms(1) unfolding utf8_shape_def by (meson not_le)
  then have "is_char_boundary s j"
    using False by (simp add: is_char_boundary_def)
  then have "j \<le> boundary_below s (offset + n)"
    by (rule boundary_below_ge [OF j(1)])
  moreover have "offset < j"
    using j(2) assms(3) by simp
  ultimately show ?thesis
    using False by (simp add: floor_char_boundary_def)
qed

section \<open>Characters\<close>

text \<open>The encodings of the characters of a string, in order.\<close>

fun utf8_chars :: "string \<Rightarrow> string list" where
  "utf8_chars [] = []"
| "utf8_chars (b # s) =
     (case utf8_chars s of
        [] \<Rightarrow> [[b]]
      | ch # chs \<Rightarrow> if continuation_byte (hd ch) then (b # ch) # chs else [b] # ch # chs)"

lemma concat_utf8_chars: "concat (utf8_chars s) = s"
  by (induction s) (auto split: list.splits)

text \<open>The control characters U+0000 to U+001F and U+007F to U+009F.\<close>

definition is_control :: "string \<Rightarrow> bool" where
  "is_control ch =
     (case ch of
        [a] \<Rightarrow> byte_of a < 32 \<or> byte_of a = 127
      | [a, b] \<Rightarrow> byte_of a = 194 \<and> 128 \<le> byte_of b \<and> byte_of b \<le> 159
      | _ \<Rightarrow> False)"

text \<open>\<open>text.chars().filter(|ch| !ch.is_control()).take(n).collect()\<close>\<close>

definition visible_prefix :: "nat \<Rightarrow> string \<Rightarrow> string" where
  "visible_prefix n s = concat (take n (filter (\<lambda>ch. \<not> is_control ch) (utf8_chars s)))"

text \<open>\<open>text.contains(pattern)\<close>\<close>

fun str_contains :: "string \<Rightarrow> string \<Rightarrow> bool" where
  "str_contains [] p = (p = [])"
| "str_contains (c # s) p = (starts_with (c # s) p \<or> str_contains s p)"

fun trim_start :: "string \<Rightarrow> string" where
  "trim_start [] = []"
| "trim_start [a] = (if ws1 a then [] else [a])"
| "trim_start [a, b] = (if ws1 a then trim_start [b] else if ws2 a b then [] else [a, b])"
| "trim_start (a # b # c # s) =
     (if ws1 a then trim_start (b # c # s)
      else if ws2 a b then trim_start (c # s)
      else if ws3 a b c then trim_start s
      else a # b # c # s)"

definition to_ascii_lowercase :: "string \<Rightarrow> string" where
  "to_ascii_lowercase s =
     map (\<lambda>c. if 65 \<le> byte_of c \<and> byte_of c \<le> 90 then char_of (byte_of c + 32) else c) s"

end
