(* ===== verification/Admission_Profile.thy ===== *)
theory Admission_Profile
  imports Store_Base Utf8
begin

text \<open>
  The authority a session runs under: harness revisions (\<^verbatim>\<open>admission_profile.rs\<close>) and the admission
  profile that pins one to a session (\<^verbatim>\<open>session.rs\<close>). JSON decoding, hashing and the file system test
  for a directory are fields of the codec.
\<close>

section \<open>Model settings\<close>

datatype Model = Sol | Terra | Luna | Astra | Glm | Spark

datatype Thinking = ThinkLow | ThinkMedium | ThinkHigh | ThinkXhigh | ThinkMax

datatype ReasoningMode = StandardMode | ProMode

record ModelSettings =
  ms_model :: Model
  ms_thinking :: Thinking
  ms_reasoning_mode :: ReasoningMode
  ms_fast_mode :: bool

section \<open>Harness bindings\<close>

datatype Channel = Canary | Stable

datatype BaselineReason = UnregisteredTarget | LegacyImport | StoreFixtureReason

datatype HarnessProvenance = Registered | CompiledBaseline BaselineReason

text \<open>The identities are newtypes over a digest.\<close>

record TargetProfile =
  tp_model :: digest
  tp_protocol :: digest
  tp_environment :: digest
  tp_task_profile :: digest
  tp_channel :: Channel

record HarnessBinding =
  hb_target :: TargetProfile
  hb_revision :: digest
  hb_behavior :: digest
  hb_envelope :: digest
  hb_policy :: digest

record PinnedBehavior =
  pb_release :: digest
  pb_native_read_output_bytes :: u32
  pb_build :: "digest option"

record BehaviorManifest =
  bm_instructions :: string
  bm_native_read :: "PinnedBehavior option"

record RevisionManifest =
  rm_schema_version :: u32
  rm_parent :: digest
  rm_policy_id :: string
  rm_envelope_digest :: digest
  rm_behavior_digest :: digest
  rm_behavior :: BehaviorManifest

datatype ManifestError =
    ManifestJson string
  | InputTooLarge
  | UnsupportedSchema u32
  | UnsupportedPolicy
  | InvalidInstructions

section \<open>Session requests and the codec\<close>

record SessionConfig =
  sc_workspace :: string
  sc_model :: ModelSettings
  sc_instructions :: string
  sc_context_window_tokens :: u64

record SessionAdmissionRequest =
  sr_workspace :: string
  sr_model :: ModelSettings
  sr_context_window_tokens :: u64
  sr_channel :: Channel

record 'b profile_codec = "'b codec" +
  str_bytes :: "string \<Rightarrow> 'b"
  dec_json :: "'b \<Rightarrow> string + json"
  enc_json :: "json \<Rightarrow> string + 'b"
  dec_revision :: "'b \<Rightarrow> string + RevisionManifest"
  enc_request :: "SessionAdmissionRequest \<Rightarrow> string + 'b"
  enc_model :: "ModelSettings \<Rightarrow> string + 'b"
  enc_config :: "SessionConfig \<Rightarrow> string + 'b"
  is_dir :: "string \<Rightarrow> bool"

section \<open>Revisions\<close>

definition SCHEMA_VERSION :: u32 where
  "SCHEMA_VERSION = 1"

definition POLICY_ID :: string where
  "POLICY_ID = ''behavior-v1''"

definition MAX_MANIFEST_BYTES :: nat where
  "MAX_MANIFEST_BYTES = 256 * 1024"

definition MAX_INSTRUCTIONS_BYTES :: nat where
  "MAX_INSTRUCTIONS_BYTES = 32 * 1024"

definition DEFAULT_READ_OUTPUT_BYTES :: u32 where
  "DEFAULT_READ_OUTPUT_BYTES = 32768"

definition forbidden_char :: "string \<Rightarrow> bool" where
  "forbidden_char ch =
     (ch = [CHR 0x1B] \<or> is_control ch \<and> ch \<noteq> [CHR 0x0A] \<and> ch \<noteq> [CHR 0x09])"

definition validate_instructions :: "string \<Rightarrow> ManifestError + unit" where
  "validate_instructions text =
     (if blank text \<or> length text > MAX_INSTRUCTIONS_BYTES \<or> list_ex forbidden_char (utf8_chars text)
      then Inl InvalidInstructions
      else if starts_with (trim_start text) ''#!''
              \<or> str_contains (to_ascii_lowercase (trim_start text)) ''<script''
      then Inl InvalidInstructions
      else Inr ())"

record 'b HarnessRevision =
  hr_canonical :: 'b
  hr_digest :: digest
  hr_behavior_digest :: digest
  hr_envelope_digest :: digest
  hr_policy_id :: string
  hr_behavior_instructions :: string
  hr_native_read :: "PinnedBehavior option"

definition check_native_read ::
    "('b, 'z) profile_codec_scheme \<Rightarrow> 'b \<Rightarrow> RevisionManifest \<Rightarrow> ManifestError + unit" where
  "check_native_read c manifest revision =
     (case bm_native_read (rm_behavior revision) of
        None \<Rightarrow> Inr ()
      | Some config \<Rightarrow>
          if \<not> (4096 \<le> pb_native_read_output_bytes config
                 \<and> pb_native_read_output_bytes config \<le> DEFAULT_READ_OUTPUT_BYTES)
          then Inl InvalidInstructions else
          and_then (map_err ManifestJson (dec_json c manifest)) (\<lambda>v.
          and_then (map_err ManifestJson (of_value (enc_json c) (sha c) (json_index v ''behavior''))) (\<lambda>d.
          if d \<noteq> rm_behavior_digest revision then Inl InvalidInstructions else Inr ())))"

definition from_manifest_json ::
    "('b, 'z) profile_codec_scheme \<Rightarrow> 'b \<Rightarrow> ManifestError + 'b HarnessRevision" where
  "from_manifest_json c manifest =
     (if blen c manifest > MAX_MANIFEST_BYTES then Inl InputTooLarge else
      and_then (map_err ManifestJson (dec_revision c manifest)) (\<lambda>revision.
      if rm_schema_version revision \<noteq> SCHEMA_VERSION
      then Inl (UnsupportedSchema (rm_schema_version revision))
      else if rm_policy_id revision \<noteq> POLICY_ID then Inl UnsupportedPolicy else
      and_then (validate_instructions (bm_instructions (rm_behavior revision))) (\<lambda>_.
      and_then (check_native_read c manifest revision) (\<lambda>_.
      Inr \<lparr>hr_canonical = manifest, hr_digest = sha c manifest,
           hr_behavior_digest = rm_behavior_digest revision,
           hr_envelope_digest = rm_envelope_digest revision,
           hr_policy_id = rm_policy_id revision,
           hr_behavior_instructions = bm_instructions (rm_behavior revision),
           hr_native_read = bm_native_read (rm_behavior revision)\<rparr>))))"

section \<open>Admission profiles\<close>

record 'b SessionAdmissionProfile =
  ap_profile_version :: u32
  ap_request :: SessionAdmissionRequest
  ap_binding :: HarnessBinding
  ap_provenance :: HarnessProvenance
  ap_authority :: digest
  ap_request_digest :: digest
  ap_revision_manifest :: 'b
  ap_behavior_instructions :: string

definition policy_identity :: "('b, 'z) profile_codec_scheme \<Rightarrow> string \<Rightarrow> digest" where
  "policy_identity c policy = sha c (str_bytes c policy)"

definition profile_new ::
    "('b, 'z) profile_codec_scheme \<Rightarrow> SessionAdmissionRequest \<Rightarrow> HarnessBinding \<Rightarrow> HarnessProvenance \<Rightarrow>
     digest \<Rightarrow> 'b HarnessRevision \<Rightarrow> string + 'b SessionAdmissionProfile" where
  "profile_new c request binding provenance authority revision =
     and_then (of_value (enc_request c) (sha c) request) (\<lambda>request_digest.
     Inr \<lparr>ap_profile_version = 1, ap_request = request, ap_binding = binding,
          ap_provenance = provenance, ap_authority = authority, ap_request_digest = request_digest,
          ap_revision_manifest = hr_canonical revision,
          ap_behavior_instructions = hr_behavior_instructions revision\<rparr>)"

text \<open>\<open>revision\<close> is the compiled baseline revision.\<close>

definition profile_compiled ::
    "('b, 'z) profile_codec_scheme \<Rightarrow> 'b HarnessRevision \<Rightarrow> SessionAdmissionRequest \<Rightarrow> TargetProfile \<Rightarrow>
     digest \<Rightarrow> BaselineReason \<Rightarrow> string + 'b SessionAdmissionProfile" where
  "profile_compiled c revision request target authority reason =
     profile_new c request
       \<lparr>hb_target = target, hb_revision = hr_digest revision, hb_behavior = hr_behavior_digest revision,
        hb_envelope = hr_envelope_digest revision, hb_policy = policy_identity c (hr_policy_id revision)\<rparr>
       (CompiledBaseline reason) authority revision"

definition is_absolute :: "string \<Rightarrow> bool" where
  "is_absolute path = starts_with path ''/''"

definition validate_recorded ::
    "('b, 'z) profile_codec_scheme \<Rightarrow> 'b SessionAdmissionProfile \<Rightarrow> string + unit" where
  "validate_recorded c p =
     (if ap_profile_version p \<noteq> 1 then Inl ''unsupported session admission profile''
      else if \<not> is_absolute (sr_workspace (ap_request p))
      then Inl ''session workspace must be an absolute directory''
      else if sr_context_window_tokens (ap_request p) = 0
      then Inl ''session context window must be positive''
      else if ap_behavior_instructions p = [] \<or> length (ap_behavior_instructions p) > 32 * 1024
      then Inl ''session behavior instructions exceed their bound''
      else if of_value (enc_request c) (sha c) (ap_request p) \<noteq> Inr (ap_request_digest p)
      then Inl ''session admission request identity mismatch'' else
      and_then (map_err (\<lambda>_. ''session harness revision is invalid'')
          (from_manifest_json c (ap_revision_manifest p))) (\<lambda>revision.
      if hr_digest revision \<noteq> hb_revision (ap_binding p)
         \<or> hr_behavior_digest revision \<noteq> hb_behavior (ap_binding p)
         \<or> hr_envelope_digest revision \<noteq> hb_envelope (ap_binding p)
         \<or> policy_identity c (hr_policy_id revision) \<noteq> hb_policy (ap_binding p)
      then Inl ''session harness revision differs from its binding''
      else if hr_behavior_instructions revision \<noteq> ap_behavior_instructions p
      then Inl ''session behavior differs from its harness revision'' else
      and_then (map_err (\<lambda>_. ''session model identity could not be computed'')
          (of_value (enc_model c) (sha c) (sr_model (ap_request p)))) (\<lambda>model.
      if tp_model (hb_target (ap_binding p)) \<noteq> model
         \<or> tp_channel (hb_target (ap_binding p)) \<noteq> sr_channel (ap_request p)
      then Inl ''session admission target differs from its request''
      else Inr ())))"

definition profile_validate ::
    "('b, 'z) profile_codec_scheme \<Rightarrow> 'b SessionAdmissionProfile \<Rightarrow> string + unit" where
  "profile_validate c p =
     (if \<not> is_dir c (sr_workspace (ap_request p))
      then Inl ''session workspace must be an absolute directory''
      else validate_recorded c p)"

definition native_read ::
    "('b, 'z) profile_codec_scheme \<Rightarrow> 'b SessionAdmissionProfile \<Rightarrow> PinnedBehavior option" where
  "native_read c p =
     (case from_manifest_json c (ap_revision_manifest p) of Inl _ \<Rightarrow> None | Inr r \<Rightarrow> hr_native_read r)"

section \<open>A profile says what its revision says\<close>

lemma from_manifest_json_Inr:
  assumes "from_manifest_json c manifest = Inr r"
  shows "hr_canonical r = manifest" and "hr_digest r = sha c manifest"
    and "validate_instructions (hr_behavior_instructions r) = Inr ()"
  using assms by (auto simp: from_manifest_json_def result_simps split: if_splits)

text \<open>
  Two profiles that pass and have the same binding and request digest run under the same request and
  the same instructions, unless the hash collides.
\<close>

definition injective_requests :: "('b, 'z) profile_codec_scheme \<Rightarrow> bool" where
  "injective_requests c \<longleftrightarrow>
     (\<forall>r r' b. enc_request c r = Inr b \<longrightarrow> enc_request c r' = Inr b \<longrightarrow> r = r')"

lemma validate_recorded_Inr:
  assumes "validate_recorded c p = Inr ()"
  obtains b r where "enc_request c (ap_request p) = Inr b" and "ap_request_digest p = sha c b"
    and "from_manifest_json c (ap_revision_manifest p) = Inr r"
    and "hb_revision (ap_binding p) = sha c (ap_revision_manifest p)"
    and "hr_behavior_instructions r = ap_behavior_instructions p"
    and "is_absolute (sr_workspace (ap_request p))"
proof -
  from assms obtain r where rq: "of_value (enc_request c) (sha c) (ap_request p) = Inr (ap_request_digest p)"
    and r: "from_manifest_json c (ap_revision_manifest p) = Inr r"
    and b: "hr_digest r = hb_revision (ap_binding p)"
    and i: "hr_behavior_instructions r = ap_behavior_instructions p"
    and w: "is_absolute (sr_workspace (ap_request p))"
    by (auto simp: validate_recorded_def result_simps split: if_splits)
  from rq obtain bytes where "enc_request c (ap_request p) = Inr bytes" "ap_request_digest p = sha c bytes"
    by (auto simp: of_value_def result_simps)
  with that r b i w from_manifest_json_Inr(2) [OF r] show thesis
    by simp
qed

end
