(* ===== verification/Tool_Outputs.thy ===== *)
theory Tool_Outputs
  imports Digests
begin

text \<open>
  Assembly of tool outputs that arrive in parts (\<^verbatim>\<open>session/tool_output.rs\<close>): the buffers of the
  calls in flight, appending a part at its offset, and closing a call under the digest of the whole.
\<close>

section \<open>Data and operations\<close>

record PendingOutput =
  po_request :: uuid
  po_text :: string

type_synonym ToolOutputBuffers = "(string, PendingOutput) btreemap"

datatype ToolOutputError = OutputPart | OutputEnd

definition output_append ::
    "uuid \<Rightarrow> string \<Rightarrow> nat \<Rightarrow> string \<Rightarrow> ToolOutputBuffers \<Rightarrow> ToolOutputError + ToolOutputBuffers" where
  "output_append request call_id offset text m =
     (if text = [] \<or> \<not> bt_contains m call_id \<and> offset \<noteq> 0 then Inl OutputPart else
      let m1 = (if bt_contains m call_id then m
                else bt_insert call_id \<lparr>po_request = request, po_text = []\<rparr> m)
      in case bt_get m1 call_id of
           None \<Rightarrow> Inl OutputPart
         | Some pending \<Rightarrow>
             if po_request pending \<noteq> request \<or> length (po_text pending) \<noteq> offset then Inl OutputPart
             else Inr (bt_adjust call_id (\<lambda>p. p\<lparr>po_text := po_text p @ text\<rparr>) m1))"

definition output_finish ::
    "(string \<Rightarrow> digest) \<Rightarrow> uuid \<Rightarrow> string \<Rightarrow> digest \<Rightarrow> ToolOutputBuffers \<Rightarrow>
     ToolOutputError + string \<times> ToolOutputBuffers" where
  "output_finish digest_of request call_id digest m =
     and_then (ok_or (bt_get m call_id) OutputEnd) (\<lambda>pending.
     if po_request pending \<noteq> request \<or> digest_of (po_text pending) \<noteq> digest then Inl OutputEnd
     else Inr (po_text pending, bt_remove call_id m))"

section \<open>Assembly\<close>

lemma output_append_new:
  assumes "\<not> bt_contains m call" and "text \<noteq> []"
  shows "\<exists>m'. output_append request call 0 text m = Inr m' \<and>
    bt_get m' call = Some \<lparr>po_request = request, po_text = text\<rparr> \<and>
    (\<forall>k. k \<noteq> call \<longrightarrow> bt_get m' k = bt_get m k)"
  using assms
  by (simp add: output_append_def bt_get_insert bt_get_adjust bt_contains_def)

lemma output_append_more:
  assumes "bt_get m call = Some \<lparr>po_request = request, po_text = pre\<rparr>" and "text \<noteq> []"
  shows "\<exists>m'. output_append request call (length pre) text m = Inr m' \<and>
    bt_get m' call = Some \<lparr>po_request = request, po_text = pre @ text\<rparr> \<and>
    (\<forall>k. k \<noteq> call \<longrightarrow> bt_get m' k = bt_get m k)"
  using assms
  by (simp add: output_append_def bt_get_adjust bt_contains_def)

text \<open>A part that is not the next one of its call in its request is refused.\<close>

lemma output_append_Inr:
  assumes "output_append request call offset text m = Inr m'"
  shows "text \<noteq> []"
    and "(case bt_get m call of None \<Rightarrow> offset = 0
          | Some p \<Rightarrow> po_request p = request \<and> length (po_text p) = offset)"
    and "bt_get m' call = Some \<lparr>po_request = request,
          po_text = (case bt_get m call of None \<Rightarrow> [] | Some p \<Rightarrow> po_text p) @ text\<rparr>"
    and "k \<noteq> call \<Longrightarrow> bt_get m' k = bt_get m k"
  using assms
  by (auto simp: output_append_def Let_def bt_contains_def bt_get_insert bt_get_adjust
      split: if_splits option.splits)

lemma output_append_ok: "output_append request call offset text m = Inr m' \<Longrightarrow> bt_ok m \<Longrightarrow> bt_ok m'"
  by (auto simp: output_append_def Let_def intro!: bt_ok_adjust bt_ok_insert split: if_splits option.splits)

lemma output_finish_Inr:
  "output_finish digest_of request call digest m = Inr (text, m') \<longleftrightarrow>
     (\<exists>p. bt_get m call = Some p \<and> po_request p = request \<and> digest_of (po_text p) = digest \<and>
        text = po_text p \<and> m' = bt_remove call m)"
  by (auto simp: output_finish_def result_simps split: if_splits)

end
