(* ===== verification/Notifications.thy ===== *)
theory Notifications
  imports Task_State
begin

text \<open>
  Completion hooks (\<^verbatim>\<open>controller/notification.rs\<close>): the durable life of a notification, from armed to
  claimed to finished. A claim is recorded before the shell runs and its result starts as unknown, so
  an interrupted run is never repeated.
\<close>

section \<open>Data\<close>

record CompletionPayload =
  pl_version :: u32
  pl_delivery_id :: uuid
  pl_session :: SessionId
  pl_request :: uuid
  pl_task :: TaskId
  pl_outcome :: Outcome

datatype UnknownReason = HookInterrupted | HookTimedOut | HookSignaled | HookWaitFailed

datatype DeliveryResult =
    HookSucceeded
  | HookFailed int
  | HookNotStarted string
  | HookUnknown UnknownReason

datatype DeliveryState = Pending | Attempted CompletionPayload DeliveryResult

record CompletionDelivery =
  cd_id :: uuid
  cd_command :: string
  cd_state :: DeliveryState

datatype DeliveryEvent =
    Armed uuid string
  | Claimed CompletionPayload
  | HookFinished uuid DeliveryResult

section \<open>Transitions\<close>

text \<open>\<open>hook_id session request\<close> is the name-based identifier of the delivery.\<close>

definition delivery_apply ::
    "(SessionId \<Rightarrow> uuid \<Rightarrow> uuid) \<Rightarrow> DeliveryEvent \<Rightarrow> SessionId \<Rightarrow> (uuid, CompletionDelivery) btreemap \<Rightarrow>
     string + (uuid, CompletionDelivery) btreemap" where
  "delivery_apply hook_id event session deliveries =
     (let invalid = Inl ''invalid completion delivery transition'' in
      case event of
        Armed request command \<Rightarrow>
          if \<not> bt_contains deliveries request
          then Inr (bt_insert request
                 \<lparr>cd_id = hook_id session request, cd_command = command, cd_state = Pending\<rparr> deliveries)
          else invalid
      | Claimed payload \<Rightarrow>
          (case bt_get deliveries (pl_request payload) of
             None \<Rightarrow> invalid
           | Some delivery \<Rightarrow>
               if pl_session payload = session \<and> pl_delivery_id payload = cd_id delivery
                  \<and> cd_state delivery = Pending
               then Inr (bt_adjust (pl_request payload)
                      (\<lambda>x. x\<lparr>cd_state := Attempted payload (HookUnknown HookInterrupted)\<rparr>) deliveries)
               else invalid)
      | HookFinished request result \<Rightarrow>
          (case bt_get deliveries request of
             None \<Rightarrow> invalid
           | Some delivery \<Rightarrow>
               (case cd_state delivery of
                  Pending \<Rightarrow> invalid
                | Attempted payload previous \<Rightarrow>
                    if previous = HookUnknown HookInterrupted
                    then Inr (bt_adjust request (\<lambda>x. x\<lparr>cd_state := Attempted payload result\<rparr>) deliveries)
                    else invalid)))"

section \<open>At most one attempt\<close>

definition attempted :: "uuid \<Rightarrow> (uuid, CompletionDelivery) btreemap \<Rightarrow> bool" where
  "attempted request m \<longleftrightarrow>
     (\<exists>x payload result. bt_get m request = Some x \<and> cd_state x = Attempted payload result)"

definition claims :: "uuid \<Rightarrow> DeliveryEvent \<Rightarrow> bool" where
  "claims request e \<longleftrightarrow> (\<exists>payload. e = Claimed payload \<and> pl_request payload = request)"

lemma delivery_apply_claim:
  assumes "delivery_apply hook_id e session m = Inr m'" and "claims request e"
  shows "\<not> attempted request m \<and> attempted request m'"
  using assms
  by (auto simp: delivery_apply_def claims_def attempted_def Let_def bt_get_adjust split: option.splits if_splits)

lemma delivery_apply_attempted:
  assumes "delivery_apply hook_id e session m = Inr m'" and "attempted request m"
  shows "attempted request m'"
  using assms
  by (cases e)
    (auto simp: delivery_apply_def attempted_def Let_def bt_get_adjust bt_get_insert bt_contains_def
      split: option.splits if_splits DeliveryState.splits)

lemma delivery_apply_ok:
  "delivery_apply hook_id e session m = Inr m' \<Longrightarrow> bt_ok m \<Longrightarrow> bt_ok m'"
  by (cases e)
    (auto simp: delivery_apply_def Let_def intro!: bt_ok_adjust bt_ok_insert
      split: option.splits if_splits DeliveryState.splits)

lemma claims_at_most_once:
  assumes "try_fold (\<lambda>m e. delivery_apply hook_id e session m) m es = Inr m'"
  shows "length (filter (claims request) es) \<le> 1 \<and> (attempted request m \<longrightarrow> filter (claims request) es = [])"
  using assms
proof (induction es arbitrary: m)
  case Nil
  then show ?case by simp
next
  case (Cons e es)
  then obtain m1 where step: "delivery_apply hook_id e session m = Inr m1"
    and rest: "try_fold (\<lambda>m e. delivery_apply hook_id e session m) m1 es = Inr m'"
    by (auto simp: result_simps)
  show ?case
  proof (cases "claims request e")
    case True
    then show ?thesis
      using delivery_apply_claim [OF step True] Cons.IH [OF rest] by auto
  next
    case False
    then show ?thesis
      using delivery_apply_attempted [OF step] Cons.IH [OF rest] by auto
  qed
qed

end
