(* ===== verification/Interpreter.thy ===== *)
theory Interpreter
  imports Digests
begin

text \<open>
  The durable state of the session's interpreter (\<^verbatim>\<open>interpreter.rs\<close>): its cells, the host calls they
  have in flight and the last checkpoint. The QuickJS runtime itself is external code.
\<close>

section \<open>Data\<close>

record CheckpointRef =
  cr_artifact :: digest
  cr_source :: digest

datatype InterpreterEvent =
    CellStarted uuid TaskId string digest digest u64 digest
  | CallStarted uuid u64 string string digest
  | CallSettled uuid u64 digest
  | CellSettledEvent uuid digest "CheckpointRef option" bool

datatype CellStatus = CellPending | CellSettled digest | CellInterrupted

record CellState =
  cell_request :: uuid
  cell_task :: TaskId
  cell_status :: CellStatus

record InterpreterState =
  in_checkpoint :: "CheckpointRef option"
  in_cells :: "(uuid, CellState) btreemap"
  in_pending_calls :: "(string, uuid) btreemap"

definition interpreter_default :: InterpreterState where
  "interpreter_default = \<lparr>in_checkpoint = None, in_cells = [], in_pending_calls = []\<rparr>"

section \<open>Operations\<close>

definition cell_pending :: "CellStatus \<Rightarrow> bool" where
  "cell_pending status = (status = CellPending)"

definition interpreter_is_empty :: "InterpreterState \<Rightarrow> bool" where
  "interpreter_is_empty s = (in_cells s = [] \<and> in_checkpoint s = None)"

definition interrupt :: "uuid \<Rightarrow> InterpreterState \<Rightarrow> InterpreterState" where
  "interrupt request s =
     s\<lparr>in_cells := bt_map_values
         (\<lambda>cell. if cell_request cell = request \<and> cell_pending (cell_status cell)
                 then cell\<lparr>cell_status := CellInterrupted\<rparr> else cell) (in_cells s)\<rparr>"

definition admits :: "InterpreterState \<Rightarrow> string \<Rightarrow> uuid \<Rightarrow> TaskId \<Rightarrow> bool" where
  "admits s call_id request task =
     (case bt_get (in_pending_calls s) call_id of
        None \<Rightarrow> False
      | Some owner \<Rightarrow>
          (case bt_get (in_cells s) owner of
             None \<Rightarrow> False
           | Some cell \<Rightarrow>
               cell_request cell = request \<and> cell_task cell = task \<and> cell_pending (cell_status cell)))"

text \<open>\<open>call_name cell ordinal\<close> is the text \<open>format!("{cell}/{ordinal}")\<close>.\<close>

definition interpreter_apply ::
    "(uuid \<Rightarrow> u64 \<Rightarrow> string) \<Rightarrow> uuid \<Rightarrow> InterpreterEvent \<Rightarrow> InterpreterState \<Rightarrow> InterpreterState" where
  "interpreter_apply call_name request event s =
     (case event of
        CellStarted cell task outer source runtime generation environment \<Rightarrow>
          s\<lparr>in_cells := bt_insert cell
              \<lparr>cell_request = request, cell_task = task, cell_status = CellPending\<rparr> (in_cells s)\<rparr>
      | CellSettledEvent cell result checkpoint state_lost \<Rightarrow>
          s\<lparr>in_cells := bt_adjust cell (\<lambda>x. x\<lparr>cell_status := CellSettled result\<rparr>) (in_cells s),
            in_pending_calls := bt_retain (\<lambda>_ owner. owner \<noteq> cell) (in_pending_calls s),
            in_checkpoint := (if checkpoint \<noteq> None then checkpoint else in_checkpoint s)\<rparr>
      | CallStarted cell ordinal call_id name arguments \<Rightarrow>
          s\<lparr>in_pending_calls := bt_insert call_id cell (in_pending_calls s)\<rparr>
      | CallSettled cell ordinal result \<Rightarrow>
          s\<lparr>in_pending_calls := bt_remove (call_name cell ordinal) (in_pending_calls s)\<rparr>)"

section \<open>Interruption revokes admission\<close>

lemma interrupt_admits: "\<not> admits (interrupt request s) call request task"
  by (auto simp: admits_def interrupt_def bt_get_map_values cell_pending_def split: option.splits if_splits)

lemma interrupt_others:
  "request' \<noteq> request \<Longrightarrow> admits (interrupt request s) call request' task = admits s call request' task"
  by (auto simp: admits_def interrupt_def bt_get_map_values cell_pending_def split: option.splits)

end
