(* ===== verification/Auxiliary.thy ===== *)
theory Auxiliary
  imports Store_Base
begin

text \<open>
  Read-only assistance (\<^verbatim>\<open>auxiliary.rs\<close>): its limits, the records it journals as artifacts and the
  accounting that a replay of those records computes.
\<close>

section \<open>Data\<close>

datatype AuxiliaryKind = AuxConversation | AuxReflection | AuxQuestion | AuxHandoff

datatype AuxiliaryContext = AuxClean | AuxCurrentConversation

record AuxiliaryLimits =
  al_model_calls :: u32
  al_tokens :: u64
  al_elapsed_ms :: u64

definition AuxiliaryLimits_default :: AuxiliaryLimits where
  "AuxiliaryLimits_default = \<lparr>al_model_calls = 32, al_tokens = 256000, al_elapsed_ms = 600000\<rparr>"

record AuxiliarySpec =
  as_kind :: AuxiliaryKind
  as_context :: AuxiliaryContext
  as_review :: "digest option"
  as_limits :: AuxiliaryLimits

datatype AuxiliaryStatus = AuxCompleted | AuxFailed | AuxCancelled | AuxBudgetExhausted | AuxUnknownBilling

record AuxiliaryReport =
  ap_version :: u32
  ap_kind :: AuxiliaryKind
  ap_status :: AuxiliaryStatus
  ap_text :: string
  ap_model_calls :: nat
  ap_tokens :: "u64 option"
  ap_records :: "digest list"
  ap_error :: "string option"

datatype AuxiliaryRecord =
    ClassificationIntended u64 digest uuid
  | ClassificationObserved uuid ModelCallReceipt string
  | AuxStarted u64 "digest option" "digest option"
  | ModelIntended uuid digest
  | ModelObserved uuid ModelCallReceipt
  | ToolObserved string string digest digest

definition visible :: "AuxiliarySpec \<Rightarrow> bool" where
  "visible spec = (as_kind spec = AuxConversation \<or> as_kind spec = AuxReflection)"

definition aux_validate :: "AuxiliarySpec \<Rightarrow> StoreError + unit" where
  "aux_validate spec =
     (let l = as_limits spec in
      if al_model_calls l = 0 \<or> al_model_calls l > 32 \<or> al_tokens l = 0 \<or> al_tokens l > 256000
         \<or> al_elapsed_ms l = 0 \<or> al_elapsed_ms l > 600000
      then Inl (Invalid ''auxiliary limits exceed the supported bounds'') else Inr ())"

definition ordinary_conversation_spec :: AuxiliarySpec where
  "ordinary_conversation_spec =
     \<lparr>as_kind = AuxConversation, as_context = AuxCurrentConversation, as_review = None,
      as_limits = AuxiliaryLimits_default\<rparr>"

section \<open>Accounting\<close>

record Accounting =
  acc_started_ms :: "u64 option"
  acc_classified_ms :: "u64 option"
  acc_run_started_ms :: "u64 option"
  acc_calls :: "(uuid, ModelCallReceipt option) btreemap"

definition Accounting_default :: Accounting where
  "Accounting_default =
     \<lparr>acc_started_ms = None, acc_classified_ms = None, acc_run_started_ms = None, acc_calls = []\<rparr>"

definition earliest :: "u64 option \<Rightarrow> u64 \<Rightarrow> u64 option" where
  "earliest existing at_ms = Some (case existing of None \<Rightarrow> at_ms | Some e \<Rightarrow> min e at_ms)"

definition start_at :: "u64 \<Rightarrow> Accounting \<Rightarrow> Accounting" where
  "start_at at_ms a = a\<lparr>acc_started_ms := earliest (acc_started_ms a) at_ms\<rparr>"

text \<open>\<open>values.try_fold(0, |total, receipt| total.checked_add(f(receipt)?))\<close>\<close>

fun checked_total :: "('a \<Rightarrow> u64 option) \<Rightarrow> u64 \<Rightarrow> 'a list \<Rightarrow> u64 option" where
  "checked_total f n [] = Some n"
| "checked_total f n (x # xs) =
     (case f x of
        None \<Rightarrow> None
      | Some m \<Rightarrow>
          (case checked_add n m of None \<Rightarrow> None | Some n' \<Rightarrow> checked_total f n' xs))"

definition acc_tokens :: "Accounting \<Rightarrow> u64 option" where
  "acc_tokens a =
     checked_total (\<lambda>receipt. case receipt of None \<Rightarrow> None | Some r \<Rightarrow> mc_tokens r) 0 (bt_values (acc_calls a))"

definition known_tokens :: "Accounting \<Rightarrow> u64 option" where
  "known_tokens a =
     checked_total (\<lambda>receipt. Option.bind receipt mc_tokens) 0 (bt_values (acc_calls a))"

definition has_pending_receipt :: "Accounting \<Rightarrow> bool" where
  "has_pending_receipt a = list_ex (\<lambda>r. r = None) (bt_values (acc_calls a))"

definition accounting_apply :: "AuxiliaryRecord \<Rightarrow> Accounting \<Rightarrow> StoreError + Accounting" where
  "accounting_apply entry a =
     (let invalid = Inl (Invalid ''invalid auxiliary accounting transition'') in
      case entry of
        ClassificationIntended at_ms input call \<Rightarrow>
          if acc_run_started_ms a \<noteq> None
          then Inl (Invalid ''classification cannot follow a started auxiliary run'')
          else if bt_contains (acc_calls a) call then Inl (Invalid ''classification call reused'')
          else let a1 = start_at at_ms (a\<lparr>acc_classified_ms := earliest (acc_classified_ms a) at_ms\<rparr>)
               in Inr (a1\<lparr>acc_calls := bt_insert call None (acc_calls a1)\<rparr>)
      | ClassificationObserved call receipt kind \<Rightarrow>
          if bt_get (acc_calls a) call = Some None
          then Inr (a\<lparr>acc_calls := bt_insert call (Some receipt) (acc_calls a)\<rparr>) else invalid
      | AuxStarted at_ms source review \<Rightarrow>
          if acc_run_started_ms a = None
          then Inr (start_at at_ms (a\<lparr>acc_run_started_ms := Some at_ms\<rparr>)) else invalid
      | ModelIntended call input \<Rightarrow>
          if \<not> bt_contains (acc_calls a) call
          then Inr (a\<lparr>acc_calls := bt_insert call None (acc_calls a)\<rparr>) else invalid
      | ModelObserved call receipt \<Rightarrow>
          if bt_get (acc_calls a) call = Some None
          then Inr (a\<lparr>acc_calls := bt_insert call (Some receipt) (acc_calls a)\<rparr>) else invalid
      | ToolObserved call_id name input output \<Rightarrow>
          if acc_run_started_ms a \<noteq> None then Inr a else invalid)"

definition accounting_replay :: "AuxiliaryRecord list \<Rightarrow> StoreError + Accounting" where
  "accounting_replay records = try_fold (\<lambda>a r. accounting_apply r a) Accounting_default records"

section \<open>The token budget of a new call\<close>

text \<open>The test of \<^verbatim>\<open>record_auxiliary\<close> that admits a new model call.\<close>

definition call_over_budget :: "AuxiliaryLimits \<Rightarrow> u64 \<Rightarrow> Accounting \<Rightarrow> bool \<Rightarrow> bool" where
  "call_over_budget l now a call_is_pending =
     (length (acc_calls a) \<ge> unat (al_model_calls l)
      \<or> has_pending_receipt a \<and> call_is_pending
      \<or> (case known_tokens a of None \<Rightarrow> False | Some tokens \<Rightarrow> tokens \<ge> al_tokens l)
      \<or> (case acc_started_ms a of None \<Rightarrow> False
         | Some start \<Rightarrow> saturating_sub now start \<ge> al_elapsed_ms l))"

section \<open>Lemmas\<close>

lemma known_tokens_eq: "known_tokens a = acc_tokens a"
proof -
  have "Option.bind r mc_tokens = (case r of None \<Rightarrow> None | Some x \<Rightarrow> mc_tokens x)"
    for r :: "ModelCallReceipt option"
    by (cases r) simp_all
  then show ?thesis
    by (simp add: known_tokens_def acc_tokens_def)
qed

lemma checked_total_None: "x \<in> set xs \<Longrightarrow> f x = None \<Longrightarrow> checked_total f n xs = None"
  by (induction xs arbitrary: n) (auto split: option.splits)

lemma checked_total_Some:
  "checked_total f n xs = Some t \<Longrightarrow>
     unat t = unat n + sum_list (map (\<lambda>x. unat (the (f x))) xs) \<and> (\<forall>x \<in> set xs. f x \<noteq> None)"
proof (induction xs arbitrary: n)
  case Nil
  then show ?case by simp
next
  case (Cons x xs)
  then obtain m n' where m: "f x = Some m" and n': "checked_add n m = Some n'"
    and rest: "checked_total f n' xs = Some t"
    by (auto split: option.splits)
  have "unat n' = unat n + unat m"
    using n' by (auto simp: checked_add_def unat_word_ariths split: if_splits)
  with Cons.IH [OF rest] m show ?case by simp
qed

text \<open>A settled call keeps its receipt, and a call that was recorded stays recorded.\<close>

lemma accounting_apply_calls:
  assumes "accounting_apply r a = Inr a'" and "bt_get (acc_calls a) call = Some x"
  shows "\<exists>y. bt_get (acc_calls a') call = Some y \<and> (x \<noteq> None \<longrightarrow> y = x)"
  using assms
  by (cases r)
    (auto simp: accounting_apply_def Let_def start_at_def bt_get_insert bt_contains_def split: if_splits)

lemma accounting_apply_ok:
  "accounting_apply r a = Inr a' \<Longrightarrow> bt_ok (acc_calls a) \<Longrightarrow> bt_ok (acc_calls a')"
  by (cases r)
    (auto simp: accounting_apply_def Let_def start_at_def intro!: bt_ok_insert split: if_splits)

lemma accounting_replay_calls:
  assumes "try_fold (\<lambda>a r. accounting_apply r a) a rs = Inr a'" and "bt_get (acc_calls a) call = Some x"
  shows "\<exists>y. bt_get (acc_calls a') call = Some y \<and> (x \<noteq> None \<longrightarrow> y = x)"
  using assms
proof (induction rs arbitrary: a x)
  case Nil
  then show ?case by auto
next
  case (Cons r rs)
  then obtain a1 where "accounting_apply r a = Inr a1" "try_fold (\<lambda>a r. accounting_apply r a) a1 rs = Inr a'"
    by (auto simp: result_simps)
  with Cons show ?case
    using accounting_apply_calls by metis
qed

text \<open>
  C40: One receipt without a token count lifts the token limit: the total used by the test is then unknown,
  so a further call is admitted however many tokens the other receipts report, as long as the number of
  calls and the elapsed time are within their limits and no receipt is pending.
\<close>

theorem unknown_receipt_lifts_token_limit:
  assumes "bt_get (acc_calls a) call = Some (Some receipt)" and "mc_tokens receipt = None"
    and "\<not> has_pending_receipt a" and "length (acc_calls a) < unat (al_model_calls l)"
    and "acc_started_ms a = Some start" and "saturating_sub now start < al_elapsed_ms l"
  shows "known_tokens a = None \<and> \<not> call_over_budget l now a pending"
proof -
  have "Some receipt \<in> set (bt_values (acc_calls a))"
    using assms(1) by (auto simp: bt_get_def bt_values_def dest: map_of_SomeD intro: rev_image_eqI)
  then have "known_tokens a = None"
    unfolding known_tokens_eq acc_tokens_def by (rule checked_total_None) (simp add: assms(2))
  then show ?thesis
    using assms(3-6) by (simp add: call_over_budget_def not_le)
qed

text \<open>With one receipt above the limit of 256000 tokens and one unknown, a third call is admitted.\<close>

theorem unknown_receipt_lifts_token_limit_witness:
  "\<not> call_over_budget AuxiliaryLimits_default 1000
     \<lparr>acc_started_ms = Some 0, acc_classified_ms = None, acc_run_started_ms = Some 0,
      acc_calls = [(Uuid 1, Some \<lparr>mc_status = CallCompleted, mc_tokens = Some 900000, mc_report = Digest []\<rparr>),
        (Uuid 2, Some \<lparr>mc_status = CallUnknown, mc_tokens = None, mc_report = Digest []\<rparr>)]\<rparr> True"
  using unknown_receipt_lifts_token_limit [of "\<lparr>acc_started_ms = Some 0, acc_classified_ms = None, acc_run_started_ms = Some 0,
      acc_calls = [(Uuid 1, Some \<lparr>mc_status = CallCompleted, mc_tokens = Some 900000, mc_report = Digest []\<rparr>),
        (Uuid 2, Some \<lparr>mc_status = CallUnknown, mc_tokens = None, mc_report = Digest []\<rparr>)]\<rparr>" "Uuid 2"
      "\<lparr>mc_status = CallUnknown, mc_tokens = None, mc_report = Digest []\<rparr>" AuxiliaryLimits_default 0 1000 True]
  by (simp add: bt_get_def bt_values_def has_pending_receipt_def AuxiliaryLimits_default_def saturating_sub_def)

end
