(* ===== verification/Submissions.thy ===== *)
theory Submissions
  imports Auxiliary
begin

text \<open>
  Durable operator input (\<^verbatim>\<open>submission.rs\<close>) and operator shell commands (\<^verbatim>\<open>manual.rs\<close>): what a client
  submits, the state it moves through, and the validation of shell requests.
\<close>

datatype Schedule = QueueSchedule | Steer

datatype OrdinaryKind = Information | Action

definition as_tag :: "OrdinaryKind \<Rightarrow> string" where
  "as_tag k = (case k of Information \<Rightarrow> ''information'' | Action \<Rightarrow> ''action'')"

record ShellSpec =
  sh_command :: string
  sh_expected_task :: "TaskId option"
  sh_scope_revision :: "u64 option"
  sh_timeout_ms :: u64
  sh_output_bytes :: u64

definition MAX_COMMAND_BYTES :: nat where
  "MAX_COMMAND_BYTES = 64 * 1024"

definition shell_validate :: "ShellSpec \<Rightarrow> StoreError + unit" where
  "shell_validate spec =
     (if blank (sh_command spec) \<or> length (sh_command spec) > MAX_COMMAND_BYTES
         \<or> CHR 0x00 \<in> set (sh_command spec) \<or> sh_timeout_ms spec = 0 \<or> sh_timeout_ms spec > 300000
         \<or> sh_output_bytes spec = 0 \<or> sh_output_bytes spec > 1024 * 1024
      then Inl (Invalid ''shell command or execution bounds are invalid'')
      else if sh_scope_revision spec \<noteq> None \<and> sh_expected_task spec = None
      then Inl (Invalid ''shell scope requires its task identity'')
      else Inr ())"

record ManualJob =
  mj_job :: uuid
  mj_task :: "TaskId option"
  mj_before :: digest
  mj_origin :: digest
  mj_environment :: digest
  mj_started_ms :: u64
  mj_scope_revision :: "u64 option"

datatype WorkIntent =
    OrdinaryWork Limits digest Schedule
  | ShellWork ShellSpec
  | AuxiliaryWork AuxiliarySpec
  | NewTask Limits digest
  | ContinueWork TaskId u64 Schedule

datatype SubmissionStatus =
    Queued
  | SubRunning
  | SubFinished "TaskId option" "Outcome option" "string option"
  | SubCancelled
  | SubInterrupted

definition sub_pending :: "SubmissionStatus \<Rightarrow> bool" where
  "sub_pending status = (status = Queued \<or> status = SubRunning)"

record Submission =
  su_manual_job :: "ManualJob option"
  su_id :: uuid
  su_input :: digest
  su_initial_input :: digest
  su_records :: "digest list"
  su_result :: "digest option"
  su_intent :: WorkIntent
  su_status :: SubmissionStatus
  su_submitted_revision :: u64
  su_submitted_ms :: u64

record SubmissionPage =
  sp_submissions :: "Submission list"
  sp_total :: nat
  sp_next :: "nat option"
  sp_journal_sequence :: u64

definition is_ordinary :: "WorkIntent \<Rightarrow> bool" where
  "is_ordinary w = (case w of OrdinaryWork _ _ _ \<Rightarrow> True | _ \<Rightarrow> False)"

end
