(* ===== verification/Session_State.thy ===== *)
theory Session_State
  imports Admission_Profile Tool_Outputs Notifications Interpreter Submissions
begin

text \<open>
  The session aggregate (\<^verbatim>\<open>session.rs\<close>): its state, its commands and the transition function
  \<open>SessionState::apply\<close>, with the acceptance test of derived context views
  (\<^verbatim>\<open>context/transitions.rs\<close>).
\<close>

section \<open>Data\<close>

subsection \<open>Context views\<close>

record SessionCursor =
  cu_version :: u32
  cu_session :: SessionId
  cu_revision :: u64

record HistoryRange =
  rg_start :: u64
  rg_end :: u64

datatype RenderProfile = PatchAligned8On16 | PatchAligned8On16Repeated

record BitmapPage =
  bp_source :: HistoryRange
  bp_width :: u32
  bp_height :: u32
  bp_digest :: digest
  bp_artifact :: digest

record BitmapManifest =
  bi_version :: u32
  bi_renderer :: digest
  bi_profile :: RenderProfile
  bi_source :: digest
  bi_source_artifact :: digest
  bi_pages :: "BitmapPage list"

datatype ContextRepresentation = NativeText digest nat | Bitmap BitmapManifest

datatype ContextSegmentRole = StableHistory | OmissionNotice | DerivedSummary | LiveTail

record ContextSegment =
  sg_role :: ContextSegmentRole
  sg_source :: SessionCursor
  sg_range :: HistoryRange
  sg_input_range :: HistoryRange
  sg_source_digest :: digest
  sg_representation :: ContextRepresentation
  sg_input :: digest

record Manifest =
  mf_version :: u32
  mf_source :: SessionCursor
  mf_original_history :: digest
  mf_renderer :: digest
  mf_byte_limit :: nat
  mf_omitted_items :: nat
  mf_interrupted_calls :: "string list"
  mf_stable_input_items :: nat
  mf_segments :: "ContextSegment list"
  mf_input :: digest

record ContextView =
  cv_manifest :: Manifest
  cv_input :: "json list"

datatype ContextError =
    ContextJson string
  | ContextLimit
  | WindowTokens u64
  | PendingCall
  | TransitionError string

record TransitionProposal =
  pp_range :: HistoryRange
  pp_purpose :: string
  pp_summary :: string
  pp_pending_obligations :: "string list"

record ContextTransition =
  ct_source :: SessionCursor
  ct_source_history_items :: nat
  ct_source_history :: digest
  ct_source_digest :: digest
  ct_request :: uuid
  ct_call_id :: string
  ct_proposal :: TransitionProposal

subsection \<open>Provider receipts and child agents\<close>

type_synonym UsdCost = "128 word"

record InferenceUsage =
  iu_input_tokens :: "u64 option"
  iu_output_tokens :: "u64 option"
  iu_total_tokens :: "u64 option"
  iu_cached_input_tokens :: "u64 option"
  iu_reasoning_tokens :: "u64 option"
  iu_cost_usd :: "UsdCost option"

datatype RepresentationKind = NativeKind | BitmapKind

record RepresentationObservation =
  ro_version :: u32
  ro_model :: Model
  ro_view_revision :: u64
  ro_source_history :: digest
  ro_controls :: digest
  ro_selected :: "(digest, RepresentationKind) btreemap"
  ro_paired_input_tokens :: "(digest, u64 \<times> u64) btreemap"
  ro_source_bytes :: u64
  ro_bitmap_pages :: u64
  ro_input_tokens :: "u64 option"
  ro_cached_input_tokens :: "u64 option"
  ro_output_tokens :: "u64 option"
  ro_reasoning_tokens :: "u64 option"
  ro_cost :: "UsdCost option"

record Spawn =
  sw_agent :: uuid
  sw_request :: uuid
  sw_task :: TaskId
  sw_role :: string
  sw_task_text :: string
  sw_model :: string
  sw_output_schema :: json
  sw_context :: digest
  sw_sequence :: u64

record ChildMessage =
  cm_id :: uuid
  cm_text :: string
  cm_priority :: string
  cm_purpose :: string

datatype ChildOutcome =
    SchemaValid digest
  | Unsubmitted digest string
  | ChildInterrupted string
  | ChildFailed string

datatype ChildEvent =
    Spawned Spawn
  | MessageAccepted uuid ChildMessage
  | MessageConsumed uuid uuid
  | ChildTerminal uuid ChildOutcome

subsection \<open>The session\<close>

record WorkspaceSeed =
  ws_origin :: digest
  ws_source :: digest
  ws_task :: "TaskId option"

record SessionBranch =
  br_workspace :: "WorkspaceSeed option"
  br_fresh_context :: bool
  br_pending_task :: "TaskId option"
  br_pending_shell :: "uuid option"

record ImportedSource =
  im_first_operation :: "uuid option"
  im_import_id :: digest
  im_manifest :: digest
  im_source_snapshot :: digest
  im_source_session :: string
  im_title :: string
  im_request_fingerprint :: digest

record RecordedToolCall =
  tc_request :: uuid
  tc_output :: "digest option"

record 'b SessionState =
  se_tool_output_buffers :: ToolOutputBuffers
  se_interpreter :: InterpreterState
  se_completion_deliveries :: "(uuid, CompletionDelivery) btreemap"
  se_feedbacks :: "digest btreeset"
  se_branch :: SessionBranch
  se_id :: SessionId
  se_revision :: u64
  se_settled_revision :: u64
  se_admission :: "'b SessionAdmissionProfile option"
  se_initial_config :: SessionConfig
  se_config :: SessionConfig
  se_parent :: "SessionCursor option"
  se_history :: "json list"
  se_settled_history_items :: nat
  se_context_view :: "Manifest option"
  se_context_transitions :: "ContextTransition list"
  se_operations :: "(uuid, digest) btreemap"
  se_current_task :: "TaskId option"
  se_tasks_by_request :: "(uuid, TaskId) btreemap"
  se_tool_calls :: "(string, RecordedToolCall) btreemap"
  se_kind :: RequestKind
  se_active_request :: "uuid option"
  se_outcome :: "Outcome option"
  se_error :: "string option"
  se_started_ms :: u64
  se_title :: "string option"
  se_imported :: "ImportedSource option"
  se_submissions :: "(uuid, Submission) btreemap"
  se_queue_order :: "uuid list"

datatype 'b SessionCommand =
    InterpreterCommand uuid InterpreterEvent
  | CompletionHook DeliveryEvent
  | ChildLifecycle ChildEvent
  | TraceRecorded uuid digest
  | AdmissionPinned "'b SessionAdmissionProfile" digest
  | ReviewRecorded digest
  | LegacyImportBound digest
  | ShellStarted ManualJob
  | ShellPublished uuid digest "WorkspaceSeed option" bool
  | WorkspaceSaved uuid WorkspaceSeed
  | AuxiliaryStarted
  | AuxiliaryRecorded uuid digest
  | AuxiliaryPublished uuid digest "string option"
  | QueueMoved uuid digest "uuid option"
  | QueueEdited uuid digest "digest option"
  | Submitted Submission
  | SubmissionChanged uuid SubmissionStatus
  | InputCommand RequestKind "json list"
  | Response uuid "json list"
  | ProviderUsage uuid "uuid option" InferenceUsage "RepresentationObservation option"
  | ProviderCost uuid uuid "UsdCost option"
  | Feedback string
  | ToolResult uuid string string
  | ToolResultPart uuid string nat string
  | ToolResultEnd uuid string digest
  | TaskLinked uuid TaskId
  | TurnSettled uuid "Outcome option" "string option"
  | SettingsChanged ModelSettings
  | ContextPrepared uuid uuid digest
  | ContextTransitionCommand ContextTransition
  | ContextProjected u64 "ContextView option" "json list"

record 'b SessionCreation =
  sn_branch :: SessionBranch
  sn_config :: SessionConfig
  sn_admission :: "'b SessionAdmissionProfile option"
  sn_parent :: "SessionCursor option"
  sn_history :: "json list"
  sn_started_ms :: u64
  sn_imported :: "ImportedSource option"

datatype 'b SessionEvent =
    SessionCreated "'b SessionCreation"
  | SessionCommandEvent uuid "'b SessionCommand" u64

text \<open>
  The error of \<open>apply\<close> is a \<open>serde_json::Error\<close>; it may wrap one of the component errors.
\<close>

datatype SessionError =
    SessionJson string
  | SessionContext ContextError
  | SessionOutput ToolOutputError

subsection \<open>Encodings\<close>

text \<open>
  The session parts of the codec. \<open>new_v5\<close> derives an identifier from a name, \<open>uuid_text\<close> prints one;
  \<open>raw_event\<close> and \<open>raw_command\<close> are the borrowed views that keep the text of an event's command.
\<close>

record 'b session_codec = "'b profile_codec" +
  enc_command :: "'b SessionCommand \<Rightarrow> string + 'b"
  enc_history :: "json list \<Rightarrow> string + 'b"
  enc_session :: "'b SessionState \<Rightarrow> string + 'b"
  dec_session :: "'b \<Rightarrow> string + 'b SessionState"
  enc_session_event :: "'b SessionEvent \<Rightarrow> string + 'b"
  dec_session_event :: "'b \<Rightarrow> string + 'b SessionEvent"
  raw_event :: "'b \<Rightarrow> string + string \<times> 'b"
  raw_command :: "'b \<Rightarrow> string + uuid \<times> 'b"
  new_v5 :: "uuid \<Rightarrow> string \<Rightarrow> uuid"
  uuid_text :: "uuid \<Rightarrow> string"
  u64_text :: "u64 \<Rightarrow> string"
  u64_le_bytes :: "u64 \<Rightarrow> string"

definition command_digest :: "('b, 'z) session_codec_scheme \<Rightarrow> 'b SessionCommand \<Rightarrow> string + digest" where
  "command_digest c = of_value (enc_command c) (sha c)"

definition history_digest :: "('b, 'z) session_codec_scheme \<Rightarrow> json list \<Rightarrow> string + digest" where
  "history_digest c = of_value (enc_history c) (sha c)"

definition text_digest :: "('b, 'z) session_codec_scheme \<Rightarrow> string \<Rightarrow> digest" where
  "text_digest c text = sha c (str_bytes c text)"

definition hook_id :: "('b, 'z) session_codec_scheme \<Rightarrow> SessionId \<Rightarrow> uuid \<Rightarrow> uuid" where
  "hook_id c session request =
     new_v5 c (session_uuid session) (''orvek-completion-hook-v1:'' @ uuid_text c request)"

definition call_name :: "('b, 'z) session_codec_scheme \<Rightarrow> uuid \<Rightarrow> u64 \<Rightarrow> string" where
  "call_name c cell ordinal = uuid_text c cell @ ''/'' @ u64_text c ordinal"

end
