(* ===== verification/Session_Apply.thy ===== *)
theory Session_Apply
  imports Session_State
begin

text \<open>
  Creating a session and applying a command to it (\<^verbatim>\<open>session.rs\<close>), and accepting a derived context view
  (\<^verbatim>\<open>context/transitions.rs\<close>).
\<close>

section \<open>Creation\<close>

definition cursor :: "'b SessionState \<Rightarrow> SessionCursor" where
  "cursor s = \<lparr>cu_version = 1, cu_session = se_id s, cu_revision = se_revision s\<rparr>"

definition fork_cursor :: "'b SessionState \<Rightarrow> SessionCursor" where
  "fork_cursor s = (cursor s)\<lparr>cu_revision := se_settled_revision s\<rparr>"

fun join_texts :: "string list \<Rightarrow> string" where
  "join_texts [] = []"
| "join_texts [t] = t"
| "join_texts (t # ts) = t @ '' '' @ join_texts ts"

definition first_title :: "json list \<Rightarrow> string option" where
  "first_title items =
     (case List.find (\<lambda>item. json_index item ''role'' = JString ''user'') items of
        None \<Rightarrow> None
      | Some message \<Rightarrow>
          (let content = json_index message ''content'';
               text = (case as_str content of
                   Some text \<Rightarrow> Some text
                 | None \<Rightarrow> (case as_array content of
                     None \<Rightarrow> None
                   | Some parts \<Rightarrow> Some (join_texts
                       (List.map_filter (\<lambda>part. as_str (json_index part ''text'')) parts))))
           in case text of
                None \<Rightarrow> None
              | Some text \<Rightarrow>
                  (let title = visible_prefix 120 text
                   in Some (if blank title then ''Image input'' else title))))"

definition session_create :: "SessionId \<Rightarrow> 'b SessionCreation \<Rightarrow> 'b SessionState" where
  "session_create i creation =
     \<lparr>se_tool_output_buffers = [], se_interpreter = interpreter_default,
      se_completion_deliveries = [], se_feedbacks = [], se_branch = sn_branch creation, se_id = i,
      se_revision = 1, se_settled_revision = 1, se_admission = sn_admission creation,
      se_initial_config = sn_config creation, se_config = sn_config creation,
      se_parent = sn_parent creation, se_history = sn_history creation,
      se_settled_history_items = length (sn_history creation), se_context_view = None,
      se_context_transitions = [],
      se_operations =
        (if sn_parent creation = None then
           (case sn_imported creation of
              None \<Rightarrow> []
            | Some source \<Rightarrow>
                (case im_first_operation source of
                   None \<Rightarrow> [] | Some operation \<Rightarrow> [(operation, im_request_fingerprint source)]))
         else []),
      se_current_task = None, se_tasks_by_request = [], se_tool_calls = [],
      se_kind = Conversation, se_active_request = None, se_outcome = None, se_error = None,
      se_started_ms = sn_started_ms creation,
      se_title =
        (case sn_imported creation of
           Some source \<Rightarrow> Some (visible_prefix 120 (im_title source))
         | None \<Rightarrow> first_title (sn_history creation)),
      se_imported = sn_imported creation, se_submissions = [], se_queue_order = []\<rparr>"

section \<open>Derived context views\<close>

definition function_call :: "json \<Rightarrow> bool" where
  "function_call item = (json_index item ''type'' = JString ''function_call'')"

definition pending_tool_call :: "'b SessionState \<Rightarrow> string \<Rightarrow> uuid \<Rightarrow> bool" where
  "pending_tool_call s call request =
     (case bt_get (se_tool_calls s) call of
        None \<Rightarrow> False | Some x \<Rightarrow> tc_request x = request \<and> tc_output x = None)"

text \<open>One step of the scan that pairs tool calls with their results.\<close>

definition pair_item :: "nat \<Rightarrow> string btreeset \<Rightarrow> nat \<times> json \<Rightarrow> ContextError + string btreeset" where
  "pair_item start pending indexed =
     (let (index, item) = indexed in
      if index = start \<and> pending \<noteq> []
      then Inl (TransitionError ''range starts inside a tool protocol pair'') else
      case as_str (json_index item ''type'') of
        None \<Rightarrow> Inr pending
      | Some ty \<Rightarrow>
          if ty = ''function_call'' then
            and_then (ok_or (as_str (json_index item ''call_id''))
                (TransitionError ''tool call lacks identity'')) (\<lambda>call.
            if call \<in> set pending then Inl (TransitionError ''duplicate tool call identity'')
            else Inr (bs_insert call pending))
          else if ty = ''function_call_output'' then
            and_then (ok_or (as_str (json_index item ''call_id''))
                (TransitionError ''tool result lacks identity'')) (\<lambda>call.
            if call \<notin> set pending then Inl (TransitionError ''unpaired tool result'')
            else Inr (bs_remove call pending))
          else Inr pending)"

definition overlaps :: "HistoryRange \<Rightarrow> HistoryRange \<Rightarrow> bool" where
  "overlaps rng prior = (rg_start rng < rg_end prior \<and> rg_start prior < rg_end rng)"

definition validate_proposal :: "'b SessionState \<Rightarrow> TransitionProposal \<Rightarrow> ContextError + unit" where
  "validate_proposal s p =
     (let rng = pp_range p in
      if rg_start rng \<ge> rg_end rng \<or> unat (rg_end rng) > se_settled_history_items s
         \<or> unat (rg_end rng) > length (se_history s)
      then Inl (TransitionError
        ''range must be nonempty and entirely settled; active request history is protected'')
      else if list_ex (\<lambda>prior. overlaps rng (pp_range (ct_proposal prior))) (se_context_transitions s)
      then Inl (TransitionError ''range overlaps an accepted transition'')
      else if blank (pp_purpose p) \<or> length (pp_purpose p) > 1024 \<or> blank (pp_summary p)
         \<or> length (pp_summary p) > 24 * 1024 \<or> length (pp_pending_obligations p) > 64
         \<or> list_ex (\<lambda>item. blank item \<or> length item > 2048) (pp_pending_obligations p)
      then Inl (TransitionError ''purpose, summary, or declared obligations exceed the tool bounds'')
      else and_then (try_fold (pair_item (unat (rg_start rng))) []
          (take (unat (rg_end rng)) (enumerate 0 (se_history s)))) (\<lambda>pending.
        if pending \<noteq> []
        then Inl (TransitionError ''range ends inside an unresolved tool protocol pair'') else Inr ()))"

definition slice :: "nat \<Rightarrow> nat \<Rightarrow> 'a list \<Rightarrow> 'a list" where
  "slice a b xs = take (b - a) (drop a xs)"

definition validate_source ::
    "('b, 'z) session_codec_scheme \<Rightarrow> ContextTransition \<Rightarrow> 'b SessionState \<Rightarrow> ContextError + unit" where
  "validate_source c t s =
     (let rng = pp_range (ct_proposal t);
          bad = Inl (TransitionError ''transition source identity is invalid'') in
      if cu_version (ct_source t) \<noteq> 1 \<or> cu_session (ct_source t) \<noteq> se_id s
         \<or> cu_revision (ct_source t) > se_revision s \<or> rg_start rng \<ge> rg_end rng
         \<or> unat (rg_end rng) > se_settled_history_items s \<or> unat (rg_end rng) > length (se_history s)
         \<or> ct_source_history_items t > length (se_history s)
         \<or> ct_source_history_items t < unat (rg_end rng)
      then bad else
      and_then (map_err ContextJson (history_digest c (take (ct_source_history_items t) (se_history s))))
        (\<lambda>whole.
      if whole \<noteq> ct_source_history t then bad else
      and_then (map_err ContextJson (history_digest c
          (slice (unat (rg_start rng)) (unat (rg_end rng)) (se_history s)))) (\<lambda>part.
      if part \<noteq> ct_source_digest t then bad else Inr ())))"

definition validate_acceptance ::
    "('b, 'z) session_codec_scheme \<Rightarrow> ContextTransition \<Rightarrow> 'b SessionState \<Rightarrow> ContextError + unit" where
  "validate_acceptance c t s =
     (if ct_source t \<noteq> cursor s \<or> ct_source_history_items t \<noteq> length (se_history s)
         \<or> se_active_request s \<noteq> Some (ct_request t)
         \<or> \<not> pending_tool_call s (ct_call_id t) (ct_request t)
         \<or> \<not> list_ex (\<lambda>item. function_call item \<and> json_index item ''call_id'' = JString (ct_call_id t)
              \<and> json_index item ''name'' = JString ''transition_context'') (se_history s)
      then Inl (TransitionError ''transition provenance does not match the active proposal'') else
      and_then (validate_proposal s (ct_proposal t)) (\<lambda>_. validate_source c t s))"

definition transition_prepare ::
    "('b, 'z) session_codec_scheme \<Rightarrow> 'b SessionState \<Rightarrow> uuid \<Rightarrow> string \<Rightarrow> TransitionProposal \<Rightarrow>
     ContextError + ContextTransition" where
  "transition_prepare c s request call_id proposal =
     and_then (validate_proposal s proposal) (\<lambda>_.
     and_then (map_err ContextJson (history_digest c (se_history s))) (\<lambda>whole.
     and_then (map_err ContextJson (history_digest c (slice (unat (rg_start (pp_range proposal)))
         (unat (rg_end (pp_range proposal))) (se_history s)))) (\<lambda>part.
     let t = \<lparr>ct_source = cursor s, ct_source_history_items = length (se_history s),
              ct_source_history = whole, ct_source_digest = part, ct_request = request,
              ct_call_id = call_id, ct_proposal = proposal\<rparr>
     in and_then (validate_acceptance c t s) (\<lambda>_. Inr t))))"

section \<open>Applying a command\<close>

definition message :: "string \<Rightarrow> string \<Rightarrow> json" where
  "message role text = JObject [(''content'', JString text), (''role'', JString role)]"

definition call_output :: "string \<Rightarrow> string \<Rightarrow> json" where
  "call_output call output =
     JObject [(''call_id'', JString call), (''output'', JString output),
       (''type'', JString ''function_call_output'')]"

definition adjust_submission ::
    "uuid \<Rightarrow> (Submission \<Rightarrow> Submission) \<Rightarrow> 'b SessionState \<Rightarrow> 'b SessionState" where
  "adjust_submission request f s = s\<lparr>se_submissions := bt_adjust request f (se_submissions s)\<rparr>"

definition dequeue :: "uuid \<Rightarrow> uuid list \<Rightarrow> uuid list" where
  "dequeue request queue = filter (\<lambda>i. i \<noteq> request) queue"

text \<open>\<open>queue.insert(position of before or the end, request)\<close>\<close>

fun insert_before :: "uuid option \<Rightarrow> uuid \<Rightarrow> uuid list \<Rightarrow> uuid list" where
  "insert_before before request [] = [request]"
| "insert_before before request (i # queue) =
     (if before = Some i then request # i # queue else i # insert_before before request queue)"

definition apply_shell_started :: "uuid \<Rightarrow> ManualJob \<Rightarrow> 'b SessionState \<Rightarrow> 'b SessionState" where
  "apply_shell_started operation job s =
     (let s1 = s\<lparr>se_branch := (se_branch s)\<lparr>br_pending_shell := Some operation,
                   br_workspace := Some \<lparr>ws_origin = mj_origin job, ws_source = mj_before job,
                     ws_task = mj_task job\<rparr>\<rparr>,
                 se_active_request := Some operation, se_kind := AuxiliaryRequest,
                 se_outcome := None, se_error := None\<rparr>;
          s2 = adjust_submission operation (\<lambda>x. x\<lparr>su_manual_job := Some job\<rparr>) s1
      in case mj_task job of
           None \<Rightarrow> s2
         | Some task \<Rightarrow>
             s2\<lparr>se_tasks_by_request := bt_insert operation task (se_tasks_by_request s2),
                se_branch := (se_branch s2)\<lparr>br_pending_task := Some task\<rparr>\<rparr>)"

definition apply_shell_published ::
    "uuid \<Rightarrow> digest \<Rightarrow> WorkspaceSeed option \<Rightarrow> bool \<Rightarrow> 'b SessionState \<Rightarrow> 'b SessionState" where
  "apply_shell_published request report seed settled s =
     (let s1 = (if settled then s\<lparr>se_branch := (se_branch s)\<lparr>br_pending_shell := None\<rparr>\<rparr> else s);
          s2 = adjust_submission request (\<lambda>x. x\<lparr>su_result := Some report\<rparr>) s1
      in case seed of
           None \<Rightarrow> s2
         | Some w \<Rightarrow> s2\<lparr>se_branch := (se_branch s2)\<lparr>br_workspace := Some w, br_pending_task := None,
                         br_pending_shell := None\<rparr>\<rparr>)"

text \<open>The review digests an input refers to.\<close>

definition review_parts :: "json list \<Rightarrow> json list" where
  "review_parts content =
     concat (map (\<lambda>m. case as_array (json_index m ''content'') of
         None \<Rightarrow> []
       | Some parts \<Rightarrow> filter (\<lambda>part. json_index part ''type'' = JString ''tact_review'') parts) content)"

definition note_reviews :: "json list \<Rightarrow> digest btreeset \<Rightarrow> SessionError + digest btreeset" where
  "note_reviews content feedbacks =
     try_fold (\<lambda>acc part. and_then (map_err SessionJson (digest_of_json (json_index part ''digest'')))
         (\<lambda>d. Inr (bs_insert d acc))) feedbacks (review_parts content)"

definition apply_input ::
    "uuid \<Rightarrow> RequestKind \<Rightarrow> json list \<Rightarrow> 'b SessionState \<Rightarrow> SessionError + 'b SessionState" where
  "apply_input operation kind content s =
     and_then (note_reviews content (se_feedbacks s)) (\<lambda>feedbacks.
     Inr (s\<lparr>se_feedbacks := feedbacks,
            se_title := (case se_title s of None \<Rightarrow> first_title content | Some t \<Rightarrow> Some t),
            se_kind := kind, se_active_request := Some operation, se_outcome := None, se_error := None,
            se_history := se_history s @ content\<rparr>))"

definition proposed_calls :: "json list \<Rightarrow> string list" where
  "proposed_calls items =
     List.map_filter (\<lambda>item. as_str (json_index item ''call_id'')) (filter function_call items)"

definition apply_response :: "uuid \<Rightarrow> json list \<Rightarrow> 'b SessionState \<Rightarrow> 'b SessionState" where
  "apply_response request items s =
     s\<lparr>se_tool_calls := foldl (\<lambda>calls i. bt_insert i \<lparr>tc_request = request, tc_output = None\<rparr> calls)
         (se_tool_calls s) (proposed_calls items),
       se_history := se_history s @ items\<rparr>"

definition apply_tool_part ::
    "uuid \<Rightarrow> string \<Rightarrow> nat \<Rightarrow> string \<Rightarrow> 'b SessionState \<Rightarrow> SessionError + 'b SessionState" where
  "apply_tool_part request call offset output s =
     (if se_active_request s \<noteq> Some request \<or> \<not> pending_tool_call s call request
      then Inl (SessionJson ''tool output part has no pending call in this request'') else
      and_then (map_err SessionOutput (output_append request call offset output (se_tool_output_buffers s)))
        (\<lambda>buffers. Inr (s\<lparr>se_tool_output_buffers := buffers\<rparr>)))"

definition apply_tool_result ::
    "('b, 'z) session_codec_scheme \<Rightarrow> string \<Rightarrow> string \<Rightarrow> 'b SessionState \<Rightarrow> 'b SessionState" where
  "apply_tool_result c call output s =
     s\<lparr>se_tool_calls := bt_adjust call (\<lambda>x. x\<lparr>tc_output := Some (text_digest c output)\<rparr>) (se_tool_calls s),
       se_history := se_history s @ [call_output call output]\<rparr>"

definition apply_pin ::
    "('b, 'z) session_codec_scheme \<Rightarrow> 'b SessionAdmissionProfile \<Rightarrow> digest \<Rightarrow> 'b SessionState \<Rightarrow>
     SessionError + 'b SessionState" where
  "apply_pin c profile legacy s =
     (if se_admission s \<noteq> None then Inl (SessionJson ''invalid session admission pin'') else
      and_then (map_err SessionJson (of_value (enc_config c) (sha c) (se_config s))) (\<lambda>d.
      if d \<noteq> legacy \<or> \<not> is_ok (validate_recorded c profile)
      then Inl (SessionJson ''invalid session admission pin'')
      else Inr (s\<lparr>se_admission := Some profile\<rparr>)))"

text \<open>The arms of the match; \<open>ToolResultEnd\<close> never reaches it.\<close>

definition session_arm ::
    "('b, 'z) session_codec_scheme \<Rightarrow> uuid \<Rightarrow> 'b SessionCommand \<Rightarrow> 'b SessionState \<Rightarrow>
     SessionError + 'b SessionState" where
  "session_arm c operation command s =
     (case command of
        CompletionHook event \<Rightarrow>
          and_then (map_err SessionJson
              (delivery_apply (hook_id c) event (se_id s) (se_completion_deliveries s)))
            (\<lambda>m. Inr (s\<lparr>se_completion_deliveries := m\<rparr>))
      | AdmissionPinned profile legacy \<Rightarrow> apply_pin c profile legacy s
      | ReviewRecorded feedback \<Rightarrow> Inr (s\<lparr>se_feedbacks := bs_insert feedback (se_feedbacks s)\<rparr>)
      | LegacyImportBound fingerprint \<Rightarrow> Inr s
      | ShellStarted job \<Rightarrow> Inr (apply_shell_started operation job s)
      | ShellPublished request report seed settled \<Rightarrow>
          Inr (apply_shell_published request report seed settled s)
      | WorkspaceSaved request seed \<Rightarrow>
          Inr (s\<lparr>se_branch := (se_branch s)\<lparr>br_workspace := Some seed, br_pending_task := None\<rparr>\<rparr>)
      | AuxiliaryStarted \<Rightarrow>
          Inr (s\<lparr>se_active_request := Some operation, se_kind := AuxiliaryRequest, se_outcome := None,
                 se_error := None\<rparr>)
      | AuxiliaryRecorded request entry \<Rightarrow>
          Inr (adjust_submission request (\<lambda>x. x\<lparr>su_records := su_records x @ [entry]\<rparr>) s)
      | AuxiliaryPublished request report text \<Rightarrow>
          (let s1 = adjust_submission request (\<lambda>x. x\<lparr>su_result := Some report\<rparr>) s
           in Inr (case text of
                None \<Rightarrow> s1
              | Some t \<Rightarrow> s1\<lparr>se_history := se_history s1 @ [message ''assistant'' t]\<rparr>))
      | QueueMoved request expected before \<Rightarrow>
          Inr (s\<lparr>se_queue_order := insert_before before request (dequeue request (se_queue_order s))\<rparr>)
      | QueueEdited request expected input \<Rightarrow>
          Inr (if bt_contains (se_submissions s) request then
                 (case input of
                    Some d \<Rightarrow> adjust_submission request (\<lambda>x. x\<lparr>su_input := d\<rparr>) s
                  | None \<Rightarrow> s\<lparr>se_queue_order := request # dequeue request (se_queue_order s)\<rparr>)
               else s)
      | Submitted submission \<Rightarrow>
          Inr (s\<lparr>se_submissions := bt_insert (su_id submission) submission (se_submissions s),
                 se_queue_order := se_queue_order s @ [su_id submission]\<rparr>)
      | SubmissionChanged request status \<Rightarrow>
          (let s1 = adjust_submission request (\<lambda>x. x\<lparr>su_status := status\<rparr>) s
           in Inr (if sub_pending status then s1
                   else s1\<lparr>se_queue_order := dequeue request (se_queue_order s1)\<rparr>))
      | InputCommand kind content \<Rightarrow> apply_input operation kind content s
      | Response request items \<Rightarrow> Inr (apply_response request items s)
      | InterpreterCommand request event \<Rightarrow>
          Inr (s\<lparr>se_interpreter := interpreter_apply (call_name c) request event (se_interpreter s)\<rparr>)
      | ProviderUsage request call usage representation \<Rightarrow> Inr s
      | ProviderCost request call cost \<Rightarrow> Inr s
      | ContextPrepared request call manifest \<Rightarrow> Inr s
      | TraceRecorded request entry \<Rightarrow> Inr s
      | ChildLifecycle event \<Rightarrow> Inr s
      | Feedback text \<Rightarrow> Inr (s\<lparr>se_history := se_history s @ [message ''developer'' text]\<rparr>)
      | ToolResultPart request call offset output \<Rightarrow> apply_tool_part request call offset output s
      | ToolResultEnd request call d \<Rightarrow> Inl (SessionJson ''unreachable'')
      | ToolResult request call output \<Rightarrow> Inr (apply_tool_result c call output s)
      | TaskLinked request task \<Rightarrow>
          Inr (s\<lparr>se_branch := (se_branch s)\<lparr>br_pending_task := Some task\<rparr>, se_current_task := Some task,
                 se_tasks_by_request := bt_insert request task (se_tasks_by_request s)\<rparr>)
      | TurnSettled request outcome error \<Rightarrow>
          Inr (s\<lparr>se_interpreter := interrupt request (se_interpreter s), se_tool_output_buffers := [],
                 se_active_request := None, se_outcome := outcome, se_error := error\<rparr>)
      | SettingsChanged settings \<Rightarrow>
          (if se_admission s \<noteq> None then Inl (SessionJson ''bound session settings are immutable'')
           else Inr (s\<lparr>se_config := (se_config s)\<lparr>sc_model := settings\<rparr>\<rparr>))
      | ContextTransitionCommand transition \<Rightarrow>
          and_then (map_err SessionContext (validate_acceptance c transition s))
            (\<lambda>_. Inr (s\<lparr>se_context_transitions := se_context_transitions s @ [transition]\<rparr>))
      | ContextProjected source_revision view projection \<Rightarrow>
          Inr (s\<lparr>se_context_view := map_option cv_manifest view\<rparr>))"

text \<open>What every command does last: its fingerprint, the revision and the settled marks.\<close>

definition session_tail :: "uuid \<Rightarrow> digest \<Rightarrow> 'b SessionState \<Rightarrow> 'b SessionState" where
  "session_tail operation fingerprint s =
     (let s1 = s\<lparr>se_operations := bt_insert operation fingerprint (se_operations s),
                 se_revision := se_revision s + 1\<rparr>
      in if se_active_request s1 = None
         then s1\<lparr>se_settled_revision := se_revision s1, se_settled_history_items := length (se_history s1)\<rparr>
         else s1)"

definition session_record ::
    "('b, 'z) session_codec_scheme \<Rightarrow> uuid \<Rightarrow> 'b SessionCommand \<Rightarrow> 'b SessionState \<Rightarrow>
     SessionError + 'b SessionState" where
  "session_record c operation command s =
     and_then (session_arm c operation command s) (\<lambda>s1.
     and_then (map_err SessionJson (command_digest c command)) (\<lambda>fingerprint.
     Inr (session_tail operation fingerprint s1)))"

definition session_apply ::
    "('b, 'z) session_codec_scheme \<Rightarrow> uuid \<Rightarrow> 'b SessionCommand \<Rightarrow> 'b SessionState \<Rightarrow>
     SessionError + 'b SessionState" where
  "session_apply c operation command s =
     (case command of
        ToolResultEnd request call d \<Rightarrow>
          if se_active_request s \<noteq> Some request
          then Inl (SessionJson ''tool output end belongs to an inactive request'') else
          and_then (map_err SessionOutput
              (output_finish (text_digest c) request call d (se_tool_output_buffers s))) (\<lambda>(output, buffers).
          session_record c operation (ToolResult request call output) (s\<lparr>se_tool_output_buffers := buffers\<rparr>))
      | _ \<Rightarrow> session_record c operation command s)"

section \<open>What a session exposes\<close>

definition session_workspace :: "'b SessionState \<Rightarrow> string" where
  "session_workspace s =
     (case se_admission s of None \<Rightarrow> sc_workspace (se_config s) | Some p \<Rightarrow> sr_workspace (ap_request p))"

definition session_model :: "'b SessionState \<Rightarrow> ModelSettings" where
  "session_model s =
     (case se_admission s of None \<Rightarrow> sc_model (se_config s) | Some p \<Rightarrow> sr_model (ap_request p))"

definition session_window :: "'b SessionState \<Rightarrow> u64" where
  "session_window s =
     (case se_admission s of
        None \<Rightarrow> sc_context_window_tokens (se_config s)
      | Some p \<Rightarrow> sr_context_window_tokens (ap_request p))"

definition behavior_instructions :: "'b SessionState \<Rightarrow> string + string" where
  "behavior_instructions s =
     (case se_admission s of
        None \<Rightarrow> Inl ''session has no trusted admission profile''
      | Some p \<Rightarrow> Inr (ap_behavior_instructions p))"

section \<open>Successful commands\<close>

text \<open>What no command touches.\<close>

definition session_identity ::
    "'b SessionState \<Rightarrow> SessionId \<times> SessionConfig \<times> SessionCursor option \<times> ImportedSource option \<times> u64" where
  "session_identity s = (se_id s, se_initial_config s, se_parent s, se_imported s, se_started_ms s)"

definition session_progress :: "'b SessionState \<Rightarrow> u64 \<times> u64 \<times> nat \<times> (uuid, digest) btreemap" where
  "session_progress s =
     (se_revision s, se_settled_revision s, se_settled_history_items s, se_operations s)"

lemmas session_arms =
  session_arm_def apply_shell_started_def apply_shell_published_def adjust_submission_def
  apply_input_def apply_response_def apply_tool_part_def apply_tool_result_def apply_pin_def Let_def

lemma session_arm_fixed:
  assumes "session_arm c operation command s = Inr s'"
  shows "session_identity s' = session_identity s" and "session_progress s' = session_progress s"
  using assms
  by (cases command;
      auto simp: session_arms session_identity_def session_progress_def result_simps
        split: option.splits if_splits)+

lemma session_arm_history:
  assumes "session_arm c operation command s = Inr s'"
  shows "\<exists>items. se_history s' = se_history s @ items"
  using assms
  by (cases command) (auto simp: session_arms result_simps split: option.splits if_splits)

lemma session_arm_bound:
  assumes "session_arm c operation command s = Inr s'" and "se_admission s = Some p"
  shows "se_admission s' = Some p \<and> se_config s' = se_config s"
  using assms
  by (cases command) (auto simp: session_arms result_simps split: option.splits if_splits)

lemma session_arm_pinned:
  assumes "session_arm c operation command s = Inr s'" and "se_admission s = None"
    and "se_admission s' = Some p"
  shows "validate_recorded c p = Inr ()"
  using assms
  by (cases command) (auto simp: session_arms result_simps is_ok_iff split: option.splits if_splits)

lemma session_arm_transitions:
  assumes "session_arm c operation command s = Inr s'"
  shows "se_context_transitions s' = se_context_transitions s \<or>
    (\<exists>t. validate_acceptance c t s = Inr () \<and> se_active_request s' = se_active_request s \<and>
       se_context_transitions s' = se_context_transitions s @ [t])"
  using assms
  by (cases command) (auto simp: session_arms result_simps split: option.splits if_splits)

section \<open>The session invariant\<close>

definition range_of_transition :: "ContextTransition \<Rightarrow> HistoryRange" where
  "range_of_transition t = pp_range (ct_proposal t)"

definition session_maps_ok :: "'b SessionState \<Rightarrow> bool" where
  "session_maps_ok s \<longleftrightarrow>
     bt_ok (se_tool_output_buffers s) \<and> bt_ok (se_completion_deliveries s) \<and> bs_ok (se_feedbacks s) \<and>
     bt_ok (se_operations s) \<and> bt_ok (se_tasks_by_request s) \<and> bt_ok (se_tool_calls s) \<and>
     bt_ok (se_submissions s) \<and> bt_ok (in_cells (se_interpreter s)) \<and>
     bt_ok (in_pending_calls (se_interpreter s))"

text \<open>Accepted views replace nonempty, settled and pairwise disjoint parts of the history.\<close>

definition transitions_ok :: "'b SessionState \<Rightarrow> bool" where
  "transitions_ok s \<longleftrightarrow>
     (\<forall>t \<in> set (se_context_transitions s). rg_start (range_of_transition t) < rg_end (range_of_transition t) \<and>
        unat (rg_end (range_of_transition t)) \<le> se_settled_history_items s) \<and>
     sorted_wrt (\<lambda>a b. \<not> overlaps (range_of_transition b) (range_of_transition a)) (se_context_transitions s)"

definition settled_ok :: "'b SessionState \<Rightarrow> bool" where
  "settled_ok s \<longleftrightarrow>
     se_settled_history_items s \<le> length (se_history s) \<and>
     (se_active_request s = None \<longrightarrow>
        se_settled_revision s = se_revision s \<and> se_settled_history_items s = length (se_history s))"

definition session_inv :: "'b SessionState \<Rightarrow> bool" where
  "session_inv s \<longleftrightarrow> session_maps_ok s \<and> transitions_ok s \<and> settled_ok s"

lemma foldl_bt_insert_ok: "bt_ok m \<Longrightarrow> bt_ok (foldl (\<lambda>m k. bt_insert k v m) m ks)"
  by (induction ks arbitrary: m) (auto intro: bt_ok_insert)

lemma note_reviews_ok: "note_reviews content m = Inr m' \<Longrightarrow> bs_ok m \<Longrightarrow> bs_ok m'"
  unfolding note_reviews_def
  by (erule try_fold_invariant) (auto simp: result_simps intro: bs_ok_insert)

lemma interpreter_apply_ok:
  assumes "bt_ok (in_cells s)" and "bt_ok (in_pending_calls s)"
  shows "bt_ok (in_cells (interpreter_apply name request e s))"
    and "bt_ok (in_pending_calls (interpreter_apply name request e s))"
  using assms
  by (cases e; simp add: interpreter_apply_def bt_ok_insert bt_ok_adjust bt_ok_remove bt_ok_retain)+

lemmas bt_ok_intros =
  bt_ok_insert bt_ok_adjust bt_ok_remove bt_ok_retain bt_ok_map_values foldl_bt_insert_ok bs_ok_insert

lemma session_arm_maps_ok:
  assumes "session_arm c operation command s = Inr s'" and "session_maps_ok s"
  shows "session_maps_ok s'"
  using assms
  by (cases command)
    (auto simp: session_arms session_maps_ok_def result_simps interpreter_apply_ok interrupt_def
      intro!: bt_ok_intros split: option.splits if_splits
      elim: note_reviews_ok output_append_ok delivery_apply_ok)

lemma validate_acceptance_Inr:
  assumes "validate_acceptance c t s = Inr ()"
  shows "rg_start (range_of_transition t) < rg_end (range_of_transition t)"
    and "unat (rg_end (range_of_transition t)) \<le> se_settled_history_items s"
    and "\<And>prior. prior \<in> set (se_context_transitions s) \<Longrightarrow>
           \<not> overlaps (range_of_transition t) (range_of_transition prior)"
  using assms
  by (auto simp: validate_acceptance_def validate_proposal_def range_of_transition_def result_simps
      list_ex_iff Let_def split: if_splits)

text \<open>
  \<open>ToolResultEnd\<close> is recorded as the result it assembles; every other command is recorded itself.
\<close>

lemma session_apply_cases:
  assumes "session_apply c operation command s = Inr s'"
  obtains (direct) "\<not> (\<exists>r call d. command = ToolResultEnd r call d)"
      and "session_record c operation command s = Inr s'"
    | (assembled) request call d out buffers where "command = ToolResultEnd request call d"
      and "se_active_request s = Some request"
      and "output_finish (text_digest c) request call d (se_tool_output_buffers s) = Inr (out, buffers)"
      and "session_record c operation (ToolResult request call out)
             (s\<lparr>se_tool_output_buffers := buffers\<rparr>) = Inr s'"
  using assms by (cases command) (auto simp: session_apply_def result_simps split: if_splits)

lemma session_record_Inr:
  "session_record c operation command s = Inr s' \<longleftrightarrow>
     (\<exists>s1 d. session_arm c operation command s = Inr s1 \<and> command_digest c command = Inr d \<and>
        s' = session_tail operation d s1)"
  by (auto simp: session_record_def result_simps)

text \<open>A fact of every arm and of the tail is a fact of every command.\<close>

lemma session_apply_step:
  assumes "session_apply c operation command s = Inr s'"
  obtains s0 command' s1 d where "session_arm c operation command' s0 = Inr s1"
    and "s' = session_tail operation d s1" and "command_digest c command' = Inr d"
    and "s0 = s\<lparr>se_tool_output_buffers := se_tool_output_buffers s0\<rparr>"
    and "bt_ok (se_tool_output_buffers s) \<Longrightarrow> bt_ok (se_tool_output_buffers s0)"
  using assms
proof (cases rule: session_apply_cases)
  case direct
  then show ?thesis using that [of command s] by (auto simp: session_record_Inr)
next
  case (assembled request call d out buffers)
  then show ?thesis
    using that [of "ToolResult request call out" "s\<lparr>se_tool_output_buffers := buffers\<rparr>"]
    by (auto simp: session_record_Inr output_finish_Inr bt_ok_remove)
qed

lemma session_tail_simps [simp]:
  "session_identity (session_tail operation d s) = session_identity s"
  "se_history (session_tail operation d s) = se_history s"
  "se_admission (session_tail operation d s) = se_admission s"
  "se_config (session_tail operation d s) = se_config s"
  "se_context_transitions (session_tail operation d s) = se_context_transitions s"
  "se_active_request (session_tail operation d s) = se_active_request s"
  "se_revision (session_tail operation d s) = se_revision s + 1"
  "se_operations (session_tail operation d s) = bt_insert operation d (se_operations s)"
  "se_completion_deliveries (session_tail operation d s) = se_completion_deliveries s"
  "se_submissions (session_tail operation d s) = se_submissions s"
  "se_queue_order (session_tail operation d s) = se_queue_order s"
  by (simp_all add: session_tail_def session_identity_def Let_def)

text \<open>\<open>reframe\<close> hides the assembly buffers, which \<open>ToolResultEnd\<close> changes before it is recorded.\<close>

lemma reframe_simps:
  assumes "s0 = s\<lparr>se_tool_output_buffers := b\<rparr>"
  shows "session_identity s0 = session_identity s" and "session_progress s0 = session_progress s"
    and "se_history s0 = se_history s" and "se_admission s0 = se_admission s"
    and "se_config s0 = se_config s" and "se_context_transitions s0 = se_context_transitions s"
    and "se_active_request s0 = se_active_request s" and "se_id s0 = se_id s"
    and "se_revision s0 = se_revision s"
  by (simp_all add: assms session_identity_def session_progress_def)

lemma session_apply_identity:
  "session_apply c operation command s = Inr s' \<Longrightarrow> session_identity s' = session_identity s"
  by (erule session_apply_step) (simp add: session_arm_fixed(1) reframe_simps(1))

lemma session_apply_id: "session_apply c operation command s = Inr s' \<Longrightarrow> se_id s' = se_id s"
  using session_apply_identity [of c operation command s s'] by (simp add: session_identity_def)

lemma session_apply_revision:
  "session_apply c operation command s = Inr s' \<Longrightarrow> se_revision s' = se_revision s + 1"
  by (erule session_apply_step)
    (drule session_arm_fixed(2), drule reframe_simps(2), simp add: session_progress_def)

lemma session_apply_history:
  "session_apply c operation command s = Inr s' \<Longrightarrow> \<exists>items. se_history s' = se_history s @ items"
  by (erule session_apply_step) (drule session_arm_history, drule reframe_simps(3), simp)

lemma session_apply_bound:
  assumes "session_apply c operation command s = Inr s'" and "se_admission s = Some p"
  shows "se_admission s' = Some p \<and> se_config s' = se_config s"
proof -
  from assms(1) obtain s0 command' s1 d where arm: "session_arm c operation command' s0 = Inr s1"
    and s': "s' = session_tail operation d s1"
    and s0: "s0 = s\<lparr>se_tool_output_buffers := se_tool_output_buffers s0\<rparr>"
    by (rule session_apply_step)
  from session_arm_bound [OF arm, of p] assms(2) reframe_simps(4,5) [OF s0] s' show ?thesis by simp
qed

lemma session_apply_operations:
  assumes "session_apply c operation command s = Inr s'"
  shows "bt_contains (se_operations s') operation"
    and "k \<noteq> operation \<Longrightarrow> bt_get (se_operations s') k = bt_get (se_operations s) k"
proof -
  from assms obtain s0 command' s1 d where arm: "session_arm c operation command' s0 = Inr s1"
    and s': "s' = session_tail operation d s1"
    and s0: "s0 = s\<lparr>se_tool_output_buffers := se_tool_output_buffers s0\<rparr>"
    by (rule session_apply_step)
  have "se_operations s1 = se_operations s"
    using session_arm_fixed(2) [OF arm] reframe_simps(2) [OF s0] by (simp add: session_progress_def)
  with s' show "bt_contains (se_operations s') operation"
    and "k \<noteq> operation \<Longrightarrow> bt_get (se_operations s') k = bt_get (se_operations s) k"
    by (simp_all add: bt_contains_def bt_get_insert)
qed

text \<open>The fingerprint under which a retry is recognised is that of the command itself.\<close>

lemma session_apply_fingerprint:
  assumes "session_apply c operation command s = Inr s'"
    and "\<not> (\<exists>r call d. command = ToolResultEnd r call d)"
  shows "command_digest c command = Inr (the (bt_get (se_operations s') operation)) \<and>
    bt_get (se_operations s') operation \<noteq> None"
  using assms(1)
proof (cases rule: session_apply_cases)
  case direct
  then show ?thesis by (auto simp: session_record_Inr bt_get_insert)
next
  case assembled
  with assms(2) show ?thesis by blast
qed

lemma session_tail_inv:
  assumes "session_maps_ok s" and "transitions_ok s" and "se_settled_history_items s \<le> length (se_history s)"
  shows "session_inv (session_tail operation d s)"
  using assms
  by (auto simp: session_tail_def session_inv_def session_maps_ok_def transitions_ok_def settled_ok_def Let_def
      intro: bt_ok_insert order_trans)

lemma session_apply_inv:
  assumes "session_apply c operation command s = Inr s'" and "session_inv s"
  shows "session_inv s'"
proof -
  from assms(1) obtain s0 command' s1 d where arm: "session_arm c operation command' s0 = Inr s1"
    and s': "s' = session_tail operation d s1"
    and s0: "s0 = s\<lparr>se_tool_output_buffers := se_tool_output_buffers s0\<rparr>"
    and b: "bt_ok (se_tool_output_buffers s) \<Longrightarrow> bt_ok (se_tool_output_buffers s0)"
    by (rule session_apply_step) blast
  note eqs = reframe_simps(2,3,6) [OF s0]
  have maps: "session_maps_ok s0"
    by (subst s0) (use assms(2) b in \<open>simp add: session_inv_def session_maps_ok_def\<close>)
  have items: "se_settled_history_items s1 = se_settled_history_items s"
    using session_arm_fixed(2) [OF arm] eqs(1) by (simp add: session_progress_def)
  have items0: "se_settled_history_items s0 = se_settled_history_items s"
    using eqs(1) by (simp add: session_progress_def)
  have new: "rg_start (range_of_transition t) < rg_end (range_of_transition t) \<and>
      unat (rg_end (range_of_transition t)) \<le> se_settled_history_items s \<and>
      (\<forall>prior \<in> set (se_context_transitions s).
         \<not> overlaps (range_of_transition t) (range_of_transition prior))"
    if "validate_acceptance c t s0 = Inr ()" for t
    using validate_acceptance_Inr [OF that] items0 eqs(3) by auto
  have "transitions_ok s1"
    using session_arm_transitions [OF arm] assms(2) items eqs(3) new
    by (auto simp: session_inv_def transitions_ok_def sorted_wrt_append)
  moreover have "se_settled_history_items s1 \<le> length (se_history s1)"
    using session_arm_history [OF arm] assms(2) items eqs(2)
    by (auto simp: session_inv_def settled_ok_def)
  ultimately show ?thesis
    unfolding s' by (intro session_tail_inv session_arm_maps_ok [OF arm maps])
qed

lemma session_create_inv: "session_inv (session_create i creation)"
  by (auto simp: session_inv_def session_maps_ok_def transitions_ok_def settled_ok_def session_create_def
      interpreter_default_def bt_ok_def split: option.splits)

end
