(* ===== verification/Session_Journal.thy ===== *)
theory Session_Journal
  imports Context Store_Invariant
begin

text \<open>
  The journal of a session in the state database (\<^verbatim>\<open>store.rs\<close>): appending a command, the framing of tool
  results that exceed one event, and the loader that replays the journal up to a cursor.
\<close>

section \<open>Tables\<close>

definition insert_session :: "SessionId \<Rightarrow> 'b aggregate_row \<Rightarrow> 'b db \<Rightarrow> StoreError + 'b db" where
  "insert_session i r d =
     (if db_sessions d i \<noteq> None then Inl (StoreSql ''UNIQUE constraint failed: sessions'')
      else Inr (d\<lparr>db_sessions := (db_sessions d)(i \<mapsto> r)\<rparr>))"

definition update_session :: "SessionId \<Rightarrow> 'b aggregate_row \<Rightarrow> 'b db \<Rightarrow> 'b db" where
  "update_session i r d =
     (if db_sessions d i = None then d else d\<lparr>db_sessions := (db_sessions d)(i \<mapsto> r)\<rparr>)"

definition session_rows :: "SessionId \<Rightarrow> 'b db \<Rightarrow> 'b event_row list" where
  "session_rows i d =
     filter (\<lambda>r. er_aggregate r = session_uuid i \<and> er_kind r = SessionAggregate) (db_events d)"

definition store_session_checkpoint ::
    "('b, 'z) session_codec_scheme \<Rightarrow> SessionId \<Rightarrow> u64 \<Rightarrow> 'b SessionState \<Rightarrow> digest \<Rightarrow> 'b db \<Rightarrow>
     StoreError + 'b db" where
  "store_session_checkpoint c i revision s head d =
     and_then (i64_of_u64 revision (Invalid ''checkpoint revision exhausted'')) (\<lambda>r.
     and_then (map_err StoreJson (enc_session c s)) (\<lambda>bytes.
     Inr (replace_checkpoint \<lparr>cp_aggregate = session_uuid i, cp_kind = SessionAggregate, cp_revision = r,
            cp_state = bytes, cp_head = digest_to_string head\<rparr> d)))"

definition latest_session_checkpoint :: "SessionId \<Rightarrow> int \<Rightarrow> 'b db \<Rightarrow> 'b checkpoint_row option" where
  "latest_session_checkpoint i revision d =
     (let rows = filter (\<lambda>r. cp_aggregate r = session_uuid i \<and> cp_kind r = SessionAggregate
                          \<and> cp_revision r \<le> revision) (db_checkpoints d)
      in if rows = [] then None else Some (last (sort_key cp_revision rows)))"

text \<open>Every error of \<open>SessionState::apply\<close> is a \<open>serde_json::Error\<close>, whose text is that of its source.\<close>

fun context_error_text :: "(u64 \<Rightarrow> string) \<Rightarrow> ContextError \<Rightarrow> string" where
  "context_error_text show_u64 (ContextJson m) = ''context encoding: '' @ m"
| "context_error_text show_u64 ContextLimit = ''context budget must be at least 4096 bytes''"
| "context_error_text show_u64 (WindowTokens n) =
     ''context window must be between '' @ show_u64 MIN_WINDOW_TOKENS @ '' and '' @
     show_u64 MAX_WINDOW_TOKENS @ '' tokens, got '' @ show_u64 n"
| "context_error_text show_u64 PendingCall =
     ''cannot project a tool call that still belongs to the active request''"
| "context_error_text show_u64 (TransitionError m) = ''context transition: '' @ m"

fun output_error_text :: "ToolOutputError \<Rightarrow> string" where
  "output_error_text OutputPart = ''tool output part is out of order or belongs to another request''"
| "output_error_text OutputEnd = ''tool output end has no parts or its digest does not match''"

fun of_session_error :: "('b, 'z) session_codec_scheme \<Rightarrow> SessionError \<Rightarrow> StoreError" where
  "of_session_error c (SessionJson m) = StoreJson m"
| "of_session_error c (SessionContext e) = StoreJson (context_error_text (u64_text c) e)"
| "of_session_error c (SessionOutput e) = StoreJson (output_error_text e)"

section \<open>Appending\<close>

text \<open>
  Applying a command whose event fits and writing its row, the session's row and, every 128 events, a
  checkpoint.
\<close>

definition append_framed ::
    "('b, 'z) session_codec_scheme \<Rightarrow> uuid \<Rightarrow> 'b SessionCommand \<Rightarrow> 'b \<Rightarrow> 'b SessionState \<Rightarrow> digest \<Rightarrow> 'b db \<Rightarrow>
     StoreError + 'b SessionState \<times> digest \<times> 'b db" where
  "append_framed c operation command bytes s head d =
     and_then (map_err (of_session_error c) (session_apply c operation command s)) (\<lambda>s'.
     let i = se_id s' in
     and_then (aggregate_hash c SessionAggregate (session_uuid i) (se_revision s') (Some head) bytes) (\<lambda>hash.
     and_then (i64_of_u64 (se_revision s') (Invalid ''session revision exhausted'')) (\<lambda>revision.
     and_then (insert_event \<lparr>er_aggregate = session_uuid i, er_kind = SessionAggregate,
         er_revision = revision, er_event = bytes, er_hash = digest_to_string hash\<rparr> d) (\<lambda>d1.
     and_then (map_err StoreJson (enc_session c s')) (\<lambda>state_bytes.
     let d2 = update_session i \<lparr>ar_revision = revision, ar_state = state_bytes,
                ar_head = digest_to_string hash\<rparr> d1
     in if unat (se_revision s') mod 128 = 0
        then and_then (store_session_checkpoint c i (se_revision s') s' hash d2) (\<lambda>d3. Inr (s', hash, d3))
        else Inr (s', hash, d2))))))"

text \<open>
  \<open>now command\<close> is the clock when the event of the command is built. A command other than
  \<open>ToolResult\<close> must fit in one event.
\<close>

definition append_event ::
    "('b, 'z) session_codec_scheme \<Rightarrow> ('b SessionCommand \<Rightarrow> u64) \<Rightarrow> uuid \<Rightarrow> 'b SessionCommand \<Rightarrow>
     'b SessionState \<times> digest \<times> 'b db \<Rightarrow> StoreError + 'b SessionState \<times> digest \<times> 'b db" where
  "append_event c now operation command shd =
     (let (s, head, d) = shd in
      and_then (map_err StoreJson (enc_session_event c
          (SessionCommandEvent operation command (now command)))) (\<lambda>bytes.
      if blen c bytes > MAX_EVENT_BYTES then Inl (Invalid ''session command exceeds journal limit'')
      else append_framed c operation command bytes s head d))"

text \<open>
  The parts of a long output with their offsets, cut at character boundaries. On UTF-8 text every part
  advances (\<open>fragments_progress\<close>); the test that it does only makes the recursion total.
\<close>

definition FRAGMENT_BYTES :: nat where
  "FRAGMENT_BYTES = 64 * 1024"

definition fragment_end :: "string \<Rightarrow> nat \<Rightarrow> nat" where
  "fragment_end text offset = floor_char_boundary text (min (offset + FRAGMENT_BYTES) (length text))"

function fragments :: "string \<Rightarrow> nat \<Rightarrow> (nat \<times> string) list" where
  "fragments text offset =
     (if offset < length text \<and> offset < fragment_end text offset
      then (offset, slice offset (fragment_end text offset) text) # fragments text (fragment_end text offset)
      else [])"
  by auto
termination
  by (relation "measure (\<lambda>(text, offset). length text - offset)") auto

declare fragments.simps [simp del]

definition append_parts ::
    "('b, 'z) session_codec_scheme \<Rightarrow> ('b SessionCommand \<Rightarrow> u64) \<Rightarrow> uuid \<Rightarrow> uuid \<Rightarrow> string \<Rightarrow> string \<Rightarrow>
     'b SessionState \<times> digest \<times> 'b db \<Rightarrow> StoreError + 'b SessionState \<times> digest \<times> 'b db" where
  "append_parts c now operation request call text =
     (\<lambda>shd. try_fold (\<lambda>acc (offset, part).
        append_event c now (new_v5 c operation (u64_le_bytes c (of_nat offset)))
          (ToolResultPart request call offset part) acc) shd (fragments text 0))"

definition append_session_command ::
    "('b, 'z) session_codec_scheme \<Rightarrow> ('b SessionCommand \<Rightarrow> u64) \<Rightarrow> uuid \<Rightarrow> 'b SessionCommand \<Rightarrow>
     'b SessionState \<times> digest \<times> 'b db \<Rightarrow> StoreError + 'b SessionState \<times> digest \<times> 'b db" where
  "append_session_command c now operation command shd =
     (let (s, head, d) = shd in
      and_then (map_err StoreJson (enc_session_event c
          (SessionCommandEvent operation command (now command)))) (\<lambda>bytes.
      if blen c bytes > MAX_EVENT_BYTES then
        (case command of
           ToolResult request call text \<Rightarrow>
             and_then (append_parts c now operation request call text shd) (\<lambda>shd1.
             append_event c now operation (ToolResultEnd request call (text_digest c text)) shd1)
         | _ \<Rightarrow> Inl (Invalid ''session command exceeds journal limit''))
      else append_framed c operation command bytes s head d))"

section \<open>Loading\<close>

text \<open>Events of an earlier release recorded a projection with its items; their digest covers those.\<close>

definition legacy_context_command ::
    "('b, 'z) session_codec_scheme \<Rightarrow> 'b \<Rightarrow> StoreError + (uuid \<times> digest) option" where
  "legacy_context_command c bytes =
     and_then (map_err StoreJson (raw_event c bytes)) (\<lambda>(kind, data).
     if kind \<noteq> ''command'' then Inr None else
     and_then (map_err StoreJson (raw_command c data)) (\<lambda>(operation, command).
     and_then (map_err StoreJson (dec_json c command)) (\<lambda>value.
     if json_index value ''type'' \<noteq> JString ''context_projected''
        \<or> as_array (json_index (json_index (json_index value ''data'') ''view'') ''input'') = None
     then Inr None else Inr (Some (operation, sha c command)))))"

definition json_object :: "json \<Rightarrow> (string \<times> json) list option" where
  "json_object v = (case v of JObject m \<Rightarrow> Some m | _ \<Rightarrow> None)"

definition json_put :: "string \<Rightarrow> json \<Rightarrow> json \<Rightarrow> json" where
  "json_put k w v = (case v of JObject m \<Rightarrow> JObject (bt_insert k w m) | _ \<Rightarrow> v)"

definition session_cache_matches ::
    "('b, 'z) session_codec_scheme \<Rightarrow> 'b SessionState \<Rightarrow> 'b \<Rightarrow> StoreError + bool" where
  "session_cache_matches c s cached =
     and_then (map_err StoreJson (enc_session c s)) (\<lambda>canonical.
     if canonical = cached then Inr True else
     and_then (map_err StoreJson (dec_json c cached)) (\<lambda>legacy.
     case json_object (json_index legacy ''context_view'') of
       None \<Rightarrow> Inr False
     | Some wrapper \<Rightarrow>
         if length wrapper \<noteq> 2
            \<or> (case map_of wrapper ''input'' of None \<Rightarrow> True | Some v \<Rightarrow> as_array v = None)
         then Inr False else
         (case map_of wrapper ''manifest'' of
            None \<Rightarrow> Inr False
          | Some manifest \<Rightarrow>
              and_then (map_err StoreJson (dec_json c canonical)) (\<lambda>value.
              Inr (json_put ''context_view'' manifest legacy = value)))))"

type_synonym 'b session_position = "'b SessionState option \<times> digest option \<times> u64"

definition start_position ::
    "('b, 'z) session_codec_scheme \<Rightarrow> SessionId \<Rightarrow> 'b checkpoint_row option \<Rightarrow>
     StoreError + 'b session_position" where
  "start_position c i checkpoint =
     (case checkpoint of
        None \<Rightarrow> Inr (None, None, 0)
      | Some r \<Rightarrow>
          and_then (u64_of_i64 (cp_revision r) (Integrity ''negative session checkpoint revision'')) (\<lambda>rev.
          and_then (map_err StoreJson (dec_session c (cp_state r))) (\<lambda>s.
          if se_id s \<noteq> i \<or> se_revision s \<noteq> rev then Inl (Integrity ''invalid session checkpoint'') else
          and_then (map_err (\<lambda>_. Integrity ''session checkpoint hash'') (digest_from_str (cp_head r)))
            (\<lambda>head. Inr (Some s, Some head, rev)))))"

definition is_projection :: "'b SessionCommand \<Rightarrow> bool" where
  "is_projection command = (case command of ContextProjected _ _ _ \<Rightarrow> True | _ \<Rightarrow> False)"

definition replay_session_event ::
    "('b, 'z) session_codec_scheme \<Rightarrow> SessionId \<Rightarrow> 'b \<Rightarrow> 'b SessionState option \<Rightarrow> 'b SessionEvent \<Rightarrow>
     StoreError + 'b SessionState" where
  "replay_session_event c i bytes state event =
     (case (state, event) of
        (None, SessionCreated creation) \<Rightarrow> Inr (session_create i creation)
      | (Some s, SessionCommandEvent operation command at_ms) \<Rightarrow>
          and_then (if is_projection command then legacy_context_command c bytes else Inr None) (\<lambda>legacy.
          and_then (map_err (of_session_error c) (session_apply c operation command s)) (\<lambda>s'.
          case legacy of
            None \<Rightarrow> Inr s'
          | Some (journaled, d) \<Rightarrow>
              if journaled \<noteq> operation then Inl (Integrity ''session command operation'')
              else Inr (s'\<lparr>se_operations := bt_insert operation d (se_operations s')\<rparr>)))
      | _ \<Rightarrow> Inl (Integrity ''session creation sequence''))"

definition replay_session_row ::
    "('b, 'z) session_codec_scheme \<Rightarrow> SessionId \<Rightarrow> 'b session_position \<Rightarrow> 'b event_row \<Rightarrow>
     StoreError + 'b session_position" where
  "replay_session_row c i pos r =
     (let (state, head, sequence) = pos; sequence' = sequence + 1 in
      and_then (u64_of_i64 (er_revision r) (Integrity ''negative session event revision'')) (\<lambda>rev.
      if rev \<noteq> sequence' \<or> blen c (er_event r) > MAX_EVENT_BYTES
      then Inl (Integrity ''session journal ordering or size'') else
      and_then (aggregate_hash c SessionAggregate (session_uuid i) rev head (er_event r)) (\<lambda>hash.
      if digest_to_string hash \<noteq> er_hash r then Inl (Integrity ''session journal hash'') else
      and_then (map_err StoreJson (dec_session_event c (er_event r))) (\<lambda>event.
      and_then (replay_session_event c i (er_event r) state event) (\<lambda>s.
      Inr (Some s, Some hash, sequence'))))))"

definition session_rows_between :: "SessionId \<Rightarrow> u64 \<Rightarrow> u64 \<Rightarrow> 'b db \<Rightarrow> 'b event_row list" where
  "session_rows_between i sequence last_revision d =
     sort_key er_revision (filter (\<lambda>r. er_revision r > sint sequence \<and> er_revision r \<le> sint last_revision)
       (session_rows i d))"

definition load_session_state ::
    "('b, 'z) session_codec_scheme \<Rightarrow> 'b db \<Rightarrow> SessionId \<Rightarrow> u64 option \<Rightarrow>
     StoreError + 'b SessionState \<times> digest" where
  "load_session_state c d i through =
     and_then (ok_or (db_sessions d i) (MissingSession i)) (\<lambda>row.
     and_then (u64_of_i64 (ar_revision row) (Integrity ''negative session revision'')) (\<lambda>current.
     let last_revision = (case through of None \<Rightarrow> current | Some n \<Rightarrow> n) in
     if last_revision = 0 \<or> last_revision > current
     then Inl (Invalid ''session cursor is outside persisted history'') else
     and_then (start_position c i (latest_session_checkpoint i (sint last_revision) d)) (\<lambda>pos.
     and_then (try_fold (replay_session_row c i) pos
         (session_rows_between i (snd (snd pos)) last_revision d)) (\<lambda>(state, head, sequence).
     and_then (ok_or state (Integrity ''session creation missing'')) (\<lambda>s.
     and_then (ok_or head (Integrity ''session head missing'')) (\<lambda>h.
     if se_revision s \<noteq> last_revision
     then Inl (Integrity ''session projection differs from journal'')
     else if last_revision \<noteq> current then Inr (s, h)
     else if digest_to_string h \<noteq> ar_head row
     then Inl (Integrity ''session projection differs from journal'') else
     and_then (session_cache_matches c s (ar_state row)) (\<lambda>same.
     if same then Inr (s, h) else Inl (Integrity ''session projection differs from journal''))))))))"

section \<open>What the encodings promise\<close>

text \<open>
  A projection's items are not written (\<open>skip_serializing\<close>), so a command reads back without them, and
  its digest does not cover them. The state of an interpreter without cells and checkpoint is left out.
\<close>

definition journaled_command :: "'b SessionCommand \<Rightarrow> 'b SessionCommand" where
  "journaled_command command =
     (case command of
        ContextProjected n view projection \<Rightarrow>
          ContextProjected n (map_option (\<lambda>v. v\<lparr>cv_input := []\<rparr>) view) projection
      | _ \<Rightarrow> command)"

definition journaled_event :: "'b SessionEvent \<Rightarrow> 'b SessionEvent" where
  "journaled_event e =
     (case e of
        SessionCommandEvent operation command at_ms \<Rightarrow>
          SessionCommandEvent operation (journaled_command command) at_ms
      | _ \<Rightarrow> e)"

definition encodable :: "'b SessionState \<Rightarrow> bool" where
  "encodable s \<longleftrightarrow> session_maps_ok s \<and>
     (interpreter_is_empty (se_interpreter s) \<longrightarrow> in_pending_calls (se_interpreter s) = [])"

definition session_codec_ok :: "('b, 'z) session_codec_scheme \<Rightarrow> bool" where
  "session_codec_ok c \<longleftrightarrow> codec_ok c \<and>
     (\<forall>e b. enc_session_event c e = Inr b \<longrightarrow> dec_session_event c b = Inr (journaled_event e)) \<and>
     (\<forall>command. enc_command c (journaled_command command) = enc_command c command) \<and>
     (\<forall>operation command at_ms b. enc_session_event c (SessionCommandEvent operation command at_ms) = Inr b \<longrightarrow>
        is_projection command \<longrightarrow> legacy_context_command c b = Inr None) \<and>
     (\<forall>s b. encodable s \<longrightarrow> enc_session c s = Inr b \<longrightarrow> dec_session c b = Inr s)"

lemma session_codec_okD:
  assumes "session_codec_ok c"
  shows "codec_ok c"
    and "enc_session_event c e = Inr b \<Longrightarrow> dec_session_event c b = Inr (journaled_event e)"
    and "enc_command c (journaled_command command) = enc_command c command"
    and "enc_session_event c (SessionCommandEvent operation command at_ms) = Inr b \<Longrightarrow>
      is_projection command \<Longrightarrow> legacy_context_command c b = Inr None"
    and "encodable s \<Longrightarrow> enc_session c s = Inr b \<Longrightarrow> dec_session c b = Inr s"
  using assms unfolding session_codec_ok_def by blast+

lemma session_apply_journaled:
  assumes "session_codec_ok c"
  shows "session_apply c operation (journaled_command command) s = session_apply c operation command s"
proof (cases command)
  case (ContextProjected n view projection)
  have "command_digest c (journaled_command command) = command_digest c command"
    by (simp add: command_digest_def of_value_def session_codec_okD(3) [OF assms])
  then show ?thesis
    unfolding ContextProjected
    by (simp add: session_apply_def session_record_def session_arm_def journaled_command_def
        option.map_comp comp_def)
qed (simp_all add: journaled_command_def)

text \<open>The store starts an interpreter call only for a cell it knows.\<close>

definition call_owned :: "'b SessionState \<Rightarrow> 'b SessionCommand \<Rightarrow> bool" where
  "call_owned s command =
     (case command of
        InterpreterCommand request (CallStarted cell ordinal call name arguments) \<Rightarrow>
          bt_contains (in_cells (se_interpreter s)) cell
      | _ \<Rightarrow> True)"

lemma bt_adjust_Nil [simp]: "bt_adjust k f m = [] \<longleftrightarrow> m = []"
  by (simp add: bt_adjust_def)

lemma bt_map_values_Nil [simp]: "bt_map_values f m = [] \<longleftrightarrow> m = []"
  by (simp add: bt_map_values_def)

lemma bt_insert_not_Nil [simp]: "bt_insert k v m \<noteq> []"
  by (cases "(k, v, m)" rule: bt_insert.cases) auto

lemma bt_contains_Nil [simp]: "\<not> bt_contains [] k"
  by (simp add: bt_contains_def)

lemma session_arm_interpreter:
  assumes "session_arm c operation command s = Inr s'"
  shows "se_interpreter s' = se_interpreter s \<or>
    (\<exists>request e. command = InterpreterCommand request e \<and>
       se_interpreter s' = interpreter_apply (call_name c) request e (se_interpreter s)) \<or>
    (\<exists>request. se_interpreter s' = interrupt request (se_interpreter s))"
  using assms
  by (cases command) (auto simp: session_arms result_simps split: option.splits if_splits)

lemma session_arm_encodable:
  assumes "session_arm c operation command s = Inr s'" and "encodable s" and "call_owned s command"
  shows "encodable s'"
proof -
  have event: "interpreter_is_empty (interpreter_apply name request e t) \<Longrightarrow>
      in_pending_calls (interpreter_apply name request e t) = []"
    if "interpreter_is_empty t \<longrightarrow> in_pending_calls t = []"
      and "\<And>cell n call nm args. e = CallStarted cell n call nm args \<Longrightarrow> bt_contains (in_cells t) cell"
    for name request e t
    using that
    by (cases e)
      (auto simp: interpreter_is_empty_def interpreter_apply_def bt_retain_def bt_remove_def split: if_splits)
  have stopped: "interpreter_is_empty (interrupt request t) = interpreter_is_empty t" for request t
    by (simp add: interpreter_is_empty_def interrupt_def)
  from session_arm_interpreter [OF assms(1)]
  have "interpreter_is_empty (se_interpreter s') \<longrightarrow> in_pending_calls (se_interpreter s') = []"
  proof (elim disjE exE conjE)
    fix request e
    assume "command = InterpreterCommand request e"
      and "se_interpreter s' = interpreter_apply (call_name c) request e (se_interpreter s)"
    then show ?thesis
      using event [of "se_interpreter s" e "call_name c" request] assms(2,3)
      by (cases e) (auto simp: encodable_def call_owned_def)
  next
    fix request
    assume "se_interpreter s' = interrupt request (se_interpreter s)"
    then show ?thesis
      using stopped assms(2) by (simp add: encodable_def) (simp add: interrupt_def)
  qed (use assms(2) in \<open>simp add: encodable_def\<close>)
  then show ?thesis
    using session_arm_maps_ok [OF assms(1)] assms(2) by (simp add: encodable_def)
qed

lemma session_apply_encodable:
  assumes "session_apply c operation command s = Inr s'" and "encodable s" and "call_owned s command"
  shows "encodable s'"
proof -
  have tail: "encodable (session_tail operation d s1)" if "encodable s1" for s1 :: "'a SessionState" and d
    using that by (auto simp: encodable_def session_tail_def session_maps_ok_def Let_def intro: bt_ok_insert)
  show ?thesis
    using assms(1)
  proof (cases rule: session_apply_cases)
    case direct
    then show ?thesis
      using assms(2,3) by (auto simp: session_record_Inr intro!: tail elim: session_arm_encodable)
  next
    case (assembled request call d out buffers)
    have "encodable (s\<lparr>se_tool_output_buffers := buffers\<rparr>)"
      using assms(2) assembled(3) by (auto simp: encodable_def session_maps_ok_def output_finish_Inr bt_ok_remove)
    then show ?thesis
      using assembled(4) by (auto simp: session_record_Inr call_owned_def intro!: tail elim!: session_arm_encodable)
  qed
qed

lemma session_create_encodable: "encodable (session_create i creation)"
  using session_create_inv [of i creation]
  by (simp add: encodable_def session_inv_def session_create_def interpreter_default_def)

section \<open>Journals\<close>

definition session_row :: "SessionId \<Rightarrow> u64 \<Rightarrow> 'b \<Rightarrow> digest \<Rightarrow> 'b event_row" where
  "session_row i revision bytes hash =
     \<lparr>er_aggregate = session_uuid i, er_kind = SessionAggregate, er_revision = uint revision,
      er_event = bytes, er_hash = digest_to_string hash\<rparr>"

definition session_bytes :: "('b, 'z) session_codec_scheme \<Rightarrow> 'b SessionEvent \<Rightarrow> 'b \<Rightarrow> bool" where
  "session_bytes c e b \<longleftrightarrow> enc_session_event c e = Inr b \<and> blen c b \<le> MAX_EVENT_BYTES"

definition session_hash ::
    "('b, 'z) session_codec_scheme \<Rightarrow> SessionId \<Rightarrow> u64 \<Rightarrow> digest option \<Rightarrow> 'b \<Rightarrow> StoreError + digest" where
  "session_hash c i revision previous bytes =
     aggregate_hash c SessionAggregate (session_uuid i) revision previous bytes"

text \<open>The journals the store writes for a session, with the state and hash they lead to.\<close>

inductive session_journal ::
    "('b, 'z) session_codec_scheme \<Rightarrow> SessionId \<Rightarrow> 'b event_row list \<Rightarrow> 'b SessionState \<Rightarrow> digest \<Rightarrow> bool"
  for c :: "('b, 'z) session_codec_scheme" and i :: SessionId where
  start: "session_bytes c (SessionCreated creation) b \<Longrightarrow> session_hash c i 1 None b = Inr h \<Longrightarrow>
    session_journal c i [session_row i 1 b h] (session_create i creation) h"
| step: "session_journal c i rows s h \<Longrightarrow>
    session_bytes c (SessionCommandEvent operation command at_ms) b \<Longrightarrow>
    session_apply c operation command s = Inr s' \<Longrightarrow> call_owned s command \<Longrightarrow>
    session_hash c i (se_revision s') (Some h) b = Inr h' \<Longrightarrow> unat (se_revision s') < 2 ^ 63 \<Longrightarrow>
    session_journal c i (rows @ [session_row i (se_revision s') b h']) s' h'"

lemma session_hash_ok: "codec_ok c \<Longrightarrow> session_hash c i r p b = Inr h \<Longrightarrow> digest_ok h"
  by (auto simp: session_hash_def aggregate_hash_def of_value_def result_simps codec_ok_def)

lemma session_create_simps [simp]:
  "se_revision (session_create i creation) = 1" "se_id (session_create i creation) = i"
  by (simp_all add: session_create_def)

lemma session_journal_facts:
  "session_journal c i rows s h \<Longrightarrow>
     unat (se_revision s) = length rows \<and> length rows < 2 ^ 63 \<and> se_id s = i \<and> rows \<noteq> [] \<and>
     session_inv s \<and> encodable s"
proof (induction rule: session_journal.induct)
  case (start creation b h)
  then show ?case by (simp add: session_create_inv session_create_encodable)
next
  case (step rows s h operation command at_ms b s' h')
  have rev: "se_revision s' = se_revision s + 1"
    by (rule session_apply_revision [OF step.hyps(3)])
  have "unat (se_revision s) + 1 < 2 ^ 64"
    using step.IH by simp
  then have "unat (se_revision s') = Suc (length rows)"
    using step.IH unat_plus_one [of "se_revision s"] by (simp add: rev)
  moreover have "se_id s' = i"
    using session_apply_id [OF step.hyps(3)] step.IH by simp
  moreover have "session_inv s' \<and> encodable s'"
    using step.IH step.hyps(3,4) by (blast intro: session_apply_inv session_apply_encodable)
  ultimately show ?case
    using step.hyps(6) by simp
qed

lemma session_journal_rows:
  "session_journal c i rows s h \<Longrightarrow> numbered rows \<and>
     (\<forall>r \<in> set rows. er_aggregate r = session_uuid i \<and> er_kind r = SessionAggregate)"
proof (induction rule: session_journal.induct)
  case (start creation b h)
  then show ?case by (simp add: session_row_def numbered_def)
next
  case (step rows s h operation command at_ms b s' h')
  have "unat (se_revision s') = Suc (length rows)"
    using session_journal_facts [OF session_journal.step [OF step.hyps]] by simp
  then have "uint (se_revision s') = int (Suc (length rows))"
    by (metis uint_nat_eq)
  with step.IH show ?case
    by (auto simp: numbered_def nth_append session_row_def less_Suc_eq)
qed

lemma session_journal_digest_ok: "codec_ok c \<Longrightarrow> session_journal c i rows s h \<Longrightarrow> digest_ok h"
  by (erule session_journal.cases) (auto dest: session_hash_ok)

text \<open>Every prefix of a journal is the journal of an earlier state.\<close>

lemma session_journal_prefix:
  "session_journal c i rows s h \<Longrightarrow> 0 < k \<Longrightarrow> k \<le> length rows \<Longrightarrow>
     \<exists>s' h'. session_journal c i (take k rows) s' h'"
proof (induction rule: session_journal.induct)
  case (start creation b h)
  then show ?case
    using session_journal.start [OF start(1,2)] by (cases k) auto
next
  case (step rows s h operation command at_ms b s' h')
  show ?case
  proof (cases "k \<le> length rows")
    case True
    then show ?thesis using step by simp
  next
    case False
    then show ?thesis
      using step.prems session_journal.step [OF step.hyps] by (simp add: take_all) blast
  qed
qed

subsection \<open>Replaying what was written\<close>

definition at_position :: "'b SessionState \<Rightarrow> digest \<Rightarrow> 'b session_position" where
  "at_position s h = (Some s, Some h, se_revision s)"

lemma replay_session_written:
  assumes "session_codec_ok c" and "session_bytes c (SessionCommandEvent operation command at_ms) b"
    and "session_apply c operation command s = Inr s'"
  shows "replay_session_event c i b (Some s) (journaled_event (SessionCommandEvent operation command at_ms)) = Inr s'"
proof -
  have legacy: "(if is_projection command then legacy_context_command c b else Inr None) = Inr None"
    using session_codec_okD(4) [OF assms(1), of operation command at_ms b] assms(2)
    by (simp add: session_bytes_def)
  have proj: "is_projection (journaled_command command) = is_projection command"
    by (simp add: is_projection_def journaled_command_def split: SessionCommand.splits)
  show ?thesis
    using assms(3) legacy
    by (simp add: replay_session_event_def journaled_event_def proj session_apply_journaled [OF assms(1)]
        split del: if_split)
qed

lemma replay_session_created:
  "replay_session_event c i b None (journaled_event (SessionCreated creation)) = Inr (session_create i creation)"
  by (simp add: replay_session_event_def journaled_event_def)

lemma replay_written_row:
  assumes "session_codec_ok c" and "session_bytes c e b"
    and "replay_session_event c i b state (journaled_event e) = Inr s'"
    and "session_hash c i revision head b = Inr h'" and "revision = sequence + 1"
  shows "replay_session_row c i (state, head, sequence) (session_row i revision b h') =
    Inr (Some s', Some h', revision)"
  using assms(2-5) session_codec_okD(2) [OF assms(1), of e b]
  by (simp add: replay_session_row_def session_row_def session_bytes_def session_hash_def not_less)

lemma replay_session_journal:
  "session_codec_ok c \<Longrightarrow> session_journal c i rows s h \<Longrightarrow>
     try_fold (replay_session_row c i) (None, None, 0) rows = Inr (at_position s h)"
proof (rotate_tac, induction rule: session_journal.induct)
  case (start creation b h)
  then show ?case
    using replay_written_row [OF start(3) start(1) replay_session_created start(2), of 0]
    by (simp add: at_position_def)
next
  case (step rows s h operation command at_ms b s' h')
  have "se_revision s' = se_revision s + 1"
    by (rule session_apply_revision [OF step(3)])
  from replay_written_row [OF step(8) step(2) replay_session_written [OF step(8) step(2,3)] step(5) this]
  show ?case
    using step(7,8) by (simp add: try_fold_append at_position_def)
qed

lemma replay_session_from:
  assumes "session_codec_ok c" and "session_journal c i rows s h"
    and "session_journal c i (take k rows) sk hk"
  shows "try_fold (replay_session_row c i) (at_position sk hk) (drop k rows) = Inr (at_position s h)"
proof -
  have "try_fold (replay_session_row c i) (None, None, 0) (take k rows @ drop k rows) = Inr (at_position s h)"
    using replay_session_journal [OF assms(1,2)] by simp
  then show ?thesis
    unfolding try_fold_append replay_session_journal [OF assms(1,3)] by simp
qed

lemma session_journal_unique:
  "session_codec_ok c \<Longrightarrow> session_journal c i rows s h \<Longrightarrow> session_journal c i rows s' h' \<Longrightarrow> s' = s \<and> h' = h"
  using replay_session_journal [of c i rows s h] replay_session_journal [of c i rows s' h']
  by (simp add: at_position_def)

section \<open>The invariant of a stored session\<close>

definition session_checkpoint_ok ::
    "('b, 'z) session_codec_scheme \<Rightarrow> SessionId \<Rightarrow> 'b event_row list \<Rightarrow> 'b checkpoint_row \<Rightarrow> bool" where
  "session_checkpoint_ok c i rows r \<longleftrightarrow>
     (\<exists>k s h. k \<le> length rows \<and> session_journal c i (take k rows) s h \<and> cp_revision r = int k \<and>
        enc_session c s = Inr (cp_state r) \<and> cp_head r = digest_to_string h)"

definition is_session_checkpoint :: "SessionId \<Rightarrow> 'b checkpoint_row \<Rightarrow> bool" where
  "is_session_checkpoint i r \<longleftrightarrow> cp_aggregate r = session_uuid i \<and> cp_kind r = SessionAggregate"

definition session_row_ok ::
    "('b, 'z) session_codec_scheme \<Rightarrow> 'b SessionState \<Rightarrow> digest \<Rightarrow> 'b aggregate_row \<Rightarrow> bool" where
  "session_row_ok c s h row \<longleftrightarrow>
     ar_revision row = uint (se_revision s) \<and> enc_session c s = Inr (ar_state row) \<and>
     ar_head row = digest_to_string h"

definition session_ok ::
    "('b, 'z) session_codec_scheme \<Rightarrow> 'b db \<Rightarrow> SessionId \<Rightarrow> 'b SessionState \<Rightarrow> digest \<Rightarrow> bool" where
  "session_ok c d i s h \<longleftrightarrow> session_codec_ok c \<and>
     session_journal c i (session_rows i d) s h \<and>
     (\<exists>row. db_sessions d i = Some row \<and> session_row_ok c s h row) \<and>
     (\<forall>r \<in> set (db_checkpoints d). is_session_checkpoint i r \<longrightarrow>
        session_checkpoint_ok c i (session_rows i d) r)"

lemma latest_session_checkpoint_mem:
  assumes "latest_session_checkpoint i revision d = Some r"
  shows "r \<in> set (db_checkpoints d) \<and> is_session_checkpoint i r \<and> cp_revision r \<le> revision"
proof -
  let ?rows = "filter (\<lambda>r. cp_aggregate r = session_uuid i \<and> cp_kind r = SessionAggregate
    \<and> cp_revision r \<le> revision) (db_checkpoints d)"
  from assms have r: "r = last (sort_key cp_revision ?rows)" and "?rows \<noteq> []"
    by (simp_all add: latest_session_checkpoint_def Let_def split: if_splits)
  then have "length (sort_key cp_revision ?rows) \<noteq> 0"
    by (simp add: length_sort del: length_0_conv)
  then have "sort_key cp_revision ?rows \<noteq> []"
    by (simp only: length_0_conv simp_thms)
  from last_in_set [OF this] have "r \<in> set ?rows"
    by (simp only: r set_sort)
  then show ?thesis
    by (simp add: is_session_checkpoint_def)
qed

lemma revision_int:
  "unat (n :: u64) = k \<Longrightarrow> k < 2 ^ 63 \<Longrightarrow> uint n = int k \<and> sint n = int k"
  using sint_small [of n] by (metis uint_nat_eq)

text \<open>The loader starts from a checkpoint or from nothing, and reaches the state of the prefix.\<close>

lemma start_position_ok:
  assumes ok: "session_ok c d i s h" and n: "0 < n" "n \<le> length (session_rows i d)"
    and part: "session_journal c i (take n (session_rows i d)) sn hn"
  shows "\<exists>k pos. start_position c i (latest_session_checkpoint i (int n) d) = Inr pos \<and> k \<le> n \<and>
    sint (snd (snd pos)) = int k \<and>
    try_fold (replay_session_row c i) pos (drop k (take n (session_rows i d))) = Inr (at_position sn hn)"
proof (cases "latest_session_checkpoint i (int n) d")
  case None
  then show ?thesis
    using replay_session_journal [OF _ part] ok
    by (intro exI [of _ 0]) (simp add: start_position_def session_ok_def)
next
  case (Some r)
  have c: "session_codec_ok c"
    using ok by (simp add: session_ok_def)
  from latest_session_checkpoint_mem [OF Some] ok
  have "session_checkpoint_ok c i (session_rows i d) r" and le: "cp_revision r \<le> int n"
    by (auto simp: session_ok_def)
  then obtain k sk hk where j: "session_journal c i (take k (session_rows i d)) sk hk"
    and r: "cp_revision r = int k" "enc_session c sk = Inr (cp_state r)" "cp_head r = digest_to_string hk"
    and k: "k \<le> length (session_rows i d)"
    by (auto simp: session_checkpoint_ok_def)
  from le r(1) have kn: "k \<le> n" by simp
  have facts: "unat (se_revision sk) = k" "k < 2 ^ 63" "se_id sk = i" "encodable sk"
    using session_journal_facts [OF j] k by simp_all
  have rev: "cp_revision r = uint (se_revision sk)" and srev: "sint (se_revision sk) = int k"
    using r(1) revision_int [OF facts(1,2)] by simp_all
  have "dec_session c (cp_state r) = Inr sk"
    by (rule session_codec_okD(5) [OF c facts(4) r(2)])
  moreover have "digest_from_str (cp_head r) = Inr hk"
    using digest_from_to_string [OF session_journal_digest_ok [OF session_codec_okD(1) [OF c] j]] r(3) by simp
  ultimately have "start_position c i (Some r) = Inr (at_position sk hk)"
    using facts rev by (simp add: start_position_def at_position_def)
  moreover have "try_fold (replay_session_row c i) (at_position sk hk) (drop k (take n (session_rows i d)))
      = Inr (at_position sn hn)"
    using replay_session_from [OF c part, of k] j kn by (simp add: min_def)
  ultimately show ?thesis
    using Some kn srev by (auto simp: at_position_def)
qed

lemma session_ok_facts:
  assumes "session_ok c d i s h"
  shows "unat (se_revision s) = length (session_rows i d)" and "length (session_rows i d) < 2 ^ 63"
    and "se_id s = i" and "session_rows i d \<noteq> []" and "session_inv s" and "encodable s"
  using session_journal_facts [of c i "session_rows i d" s h] assms by (simp_all add: session_ok_def)

lemma session_rows_between_ok:
  assumes "session_ok c d i s h" and "sint a = int k" and "sint b = int n" and "k \<le> n"
    and "n \<le> length (session_rows i d)"
  shows "session_rows_between i a b d = drop k (take n (session_rows i d))"
  using session_journal_rows [of c i "session_rows i d" s h] assms
    numbered_rows_between [of "session_rows i d" k n]
  by (simp add: session_rows_between_def session_ok_def)

text \<open>A session loads at every revision it ever had.\<close>

lemma load_session_through:
  assumes ok: "session_ok c d i s h" and n: "0 < unat n" "unat n \<le> length (session_rows i d)"
    and part: "session_journal c i (take (unat n) (session_rows i d)) sn hn"
  shows "load_session_state c d i (Some n) = Inr (sn, hn)"
proof -
  from ok obtain row where row: "db_sessions d i = Some row" "session_row_ok c s h row"
    by (auto simp: session_ok_def)
  note facts = session_ok_facts [OF ok]
  have sint: "sint n = int (unat n)"
    using revision_int [of n "unat n"] n(2) facts(2) by simp
  obtain k pos where pos: "start_position c i (latest_session_checkpoint i (int (unat n)) d) = Inr pos"
    and k: "k \<le> unat n" "sint (snd (snd pos)) = int k"
    and fold: "try_fold (replay_session_row c i) pos (drop k (take (unat n) (session_rows i d)))
      = Inr (at_position sn hn)"
    using start_position_ok [OF ok n part] by blast
  have rows: "session_rows_between i (snd (snd pos)) n d = drop k (take (unat n) (session_rows i d))"
    by (rule session_rows_between_ok [OF ok k(2) sint k(1) n(2)])
  have le: "n \<noteq> 0" "n \<le> se_revision s"
    using n facts(1) by (auto simp: word_le_nat_alt)
  have rev: "se_revision sn = n"
    using session_journal_facts [OF part] n(2) by (intro word_unat_eq_iff [THEN iffD2]) simp
  have whole: "sn = s \<and> hn = h" if "n = se_revision s"
    using that facts(1) part session_journal_unique [of c i "session_rows i d" s h sn hn] ok
    by (simp add: session_ok_def)
  show ?thesis
    using row le pos fold rows rev whole
    by (auto simp: load_session_state_def session_row_ok_def at_position_def sint session_cache_matches_def
        not_less)
qed

lemma load_session_state_ok:
  assumes "session_ok c d i s h"
  shows "load_session_state c d i None = Inr (s, h)"
proof -
  note facts = session_ok_facts [OF assms]
  have "load_session_state c d i None = load_session_state c d i (Some (se_revision s))"
    using assms by (auto simp: session_ok_def session_row_ok_def load_session_state_def Let_def)
  also have "\<dots> = Inr (s, h)"
    by (rule load_session_through [OF assms]) (use facts assms in \<open>auto simp: session_ok_def\<close>)
  finally show ?thesis .
qed

subsection \<open>Appending keeps the invariant\<close>

lemma append_framed_Inr:
  assumes "append_framed c operation command b s head d = Inr (s', h', d')"
  obtains sb where "session_apply c operation command s = Inr s'"
    and "session_hash c (se_id s) (se_revision s') (Some head) b = Inr h'"
    and "unat (se_revision s') < 2 ^ 63" and "enc_session c s' = Inr sb"
    and "db_events d' = db_events d @ [session_row (se_id s) (se_revision s') b h']"
    and "db_sessions d' = (if db_sessions d (se_id s) = None then db_sessions d
      else (db_sessions d)(se_id s \<mapsto> \<lparr>ar_revision = uint (se_revision s'), ar_state = sb,
        ar_head = digest_to_string h'\<rparr>))"
    and "db_leases d' = db_leases d" and "db_tasks d' = db_tasks d"
    and "\<And>r. r \<in> set (db_checkpoints d') \<Longrightarrow> r \<in> set (db_checkpoints d) \<or>
      r = \<lparr>cp_aggregate = session_uuid (se_id s), cp_kind = SessionAggregate,
           cp_revision = uint (se_revision s'), cp_state = sb, cp_head = digest_to_string h'\<rparr>"
    and "\<And>r. r \<in> set (db_checkpoints d) \<Longrightarrow> cp_kind r = TaskAggregate \<Longrightarrow> r \<in> set (db_checkpoints d')"
proof -
  let ?row = "\<lambda>sb. \<lparr>ar_revision = uint (se_revision s'), ar_state = sb, ar_head = digest_to_string h'\<rparr>"
  from assms obtain sb d1 where facts: "session_apply c operation command s = Inr s'"
      "session_hash c (se_id s') (se_revision s') (Some head) b = Inr h'"
      "unat (se_revision s') < 2 ^ 63" "enc_session c s' = Inr sb"
    and d1: "insert_event (session_row (se_id s') (se_revision s') b h') d = Inr d1"
    and d': "(if unat (se_revision s') mod 128 = 0
      then and_then (store_session_checkpoint c (se_id s') (se_revision s') s' h'
             (update_session (se_id s') (?row sb) d1)) (\<lambda>d3. Inr (s', h', d3))
      else Inr (s', h', update_session (se_id s') (?row sb) d1)) = Inr (s', h', d')"
    by (auto simp: append_framed_def Let_def result_simps i64_of_u64_def session_row_def session_hash_def
        split: if_splits)
  note d1 = insert_event_Inr [OF d1]
  note i = session_apply_id [OF facts(1)]
  show thesis
  proof (rule that [OF facts(1) _ facts(3,4)])
    show "session_hash c (se_id s) (se_revision s') (Some head) b = Inr h'"
      using facts(2) i by simp
    show "db_events d' = db_events d @ [session_row (se_id s) (se_revision s') b h']"
      and "db_sessions d' = (if db_sessions d (se_id s) = None then db_sessions d
        else (db_sessions d)(se_id s \<mapsto> \<lparr>ar_revision = uint (se_revision s'), ar_state = sb,
          ar_head = digest_to_string h'\<rparr>))"
      and "db_leases d' = db_leases d" and "db_tasks d' = db_tasks d"
      using d' i by (auto simp: d1 store_session_checkpoint_def update_session_def replace_checkpoint_def
          result_simps split: if_splits)
    show "r \<in> set (db_checkpoints d') \<Longrightarrow> r \<in> set (db_checkpoints d) \<or>
      r = \<lparr>cp_aggregate = session_uuid (se_id s), cp_kind = SessionAggregate,
           cp_revision = uint (se_revision s'), cp_state = sb, cp_head = digest_to_string h'\<rparr>" for r
      using d' facts i by (auto simp: d1 store_session_checkpoint_def update_session_def replace_checkpoint_def
          i64_of_u64_def result_simps split: if_splits)
    show "r \<in> set (db_checkpoints d) \<Longrightarrow> cp_kind r = TaskAggregate \<Longrightarrow> r \<in> set (db_checkpoints d')" for r
      using d' by (auto simp: d1 store_session_checkpoint_def update_session_def replace_checkpoint_def
          same_checkpoint_def result_simps split: if_splits)
  qed
qed

lemma session_rows_append:
  "db_events d' = db_events d @ [session_row i n b h] \<Longrightarrow>
     session_rows j d' = session_rows j d @ (if j = i then [session_row i n b h] else [])"
  by (auto simp: session_rows_def session_row_def SessionId.expand)

lemma session_checkpoint_ok_extend:
  "session_checkpoint_ok c i rows r \<Longrightarrow> session_checkpoint_ok c i (rows @ rest) r"
proof -
  assume "session_checkpoint_ok c i rows r"
  then obtain k s h where "k \<le> length rows" "session_journal c i (take k rows) s h" "cp_revision r = int k"
    "enc_session c s = Inr (cp_state r)" "cp_head r = digest_to_string h"
    by (auto simp: session_checkpoint_ok_def)
  then show ?thesis
    unfolding session_checkpoint_ok_def by (intro exI [of _ k] exI [of _ s] exI [of _ h]) simp
qed

lemma append_framed_ok:
  assumes ok: "session_ok c d i s h" and app: "append_framed c operation command b s h d = Inr (s', h', d')"
    and bytes: "session_bytes c (SessionCommandEvent operation command at_ms) b"
    and owned: "call_owned s command"
  shows "session_ok c d' i s' h'"
proof -
  from ok obtain row where j: "session_journal c i (session_rows i d) s h" and row: "db_sessions d i = Some row"
    and cps: "\<forall>r \<in> set (db_checkpoints d). is_session_checkpoint i r \<longrightarrow>
      session_checkpoint_ok c i (session_rows i d) r" and c: "session_codec_ok c"
    by (auto simp: session_ok_def)
  have i: "se_id s = i"
    by (rule session_ok_facts(3) [OF ok])
  from app obtain sb where s': "session_apply c operation command s = Inr s'"
    and hash: "session_hash c i (se_revision s') (Some h) b = Inr h'"
    and small: "unat (se_revision s') < 2 ^ 63" and sb: "enc_session c s' = Inr sb"
    and ev: "db_events d' = db_events d @ [session_row i (se_revision s') b h']"
    and ses: "db_sessions d' = (if db_sessions d i = None then db_sessions d
      else (db_sessions d)(i \<mapsto> \<lparr>ar_revision = uint (se_revision s'), ar_state = sb,
        ar_head = digest_to_string h'\<rparr>))"
    and cp': "\<And>r. r \<in> set (db_checkpoints d') \<Longrightarrow> r \<in> set (db_checkpoints d) \<or>
      r = \<lparr>cp_aggregate = session_uuid i, cp_kind = SessionAggregate, cp_revision = uint (se_revision s'),
           cp_state = sb, cp_head = digest_to_string h'\<rparr>"
    by (rule append_framed_Inr) (auto simp: i)
  let ?rows = "session_rows i d @ [session_row i (se_revision s') b h']"
  have j': "session_journal c i ?rows s' h'"
    by (rule session_journal.step [OF j bytes s' owned hash small])
  have rows: "session_rows i d' = ?rows"
    using session_rows_append [OF ev, of i] by simp
  have "session_checkpoint_ok c i ?rows r" if "r \<in> set (db_checkpoints d')" "is_session_checkpoint i r" for r
  proof (cases "r \<in> set (db_checkpoints d)")
    case True
    with cps that(2) show ?thesis
      by (simp add: session_checkpoint_ok_extend)
  next
    case False
    with cp' [OF that(1)] have "r = \<lparr>cp_aggregate = session_uuid i, cp_kind = SessionAggregate,
        cp_revision = uint (se_revision s'), cp_state = sb, cp_head = digest_to_string h'\<rparr>"
      by blast
    moreover have "uint (se_revision s') = int (length ?rows)"
      using session_journal_facts [OF j'] by (metis uint_nat_eq)
    ultimately show ?thesis
      using j' sb unfolding session_checkpoint_ok_def
      by (intro exI [of _ "length ?rows"] exI [of _ s'] exI [of _ h']) simp
  qed
  then show ?thesis
    using j' rows ses row sb c by (simp add: session_ok_def session_row_ok_def)
qed

text \<open>What a session append leaves alone: the tasks, their leases, and the other sessions.\<close>

definition task_part_eq :: "'b db \<Rightarrow> 'b db \<Rightarrow> bool" where
  "task_part_eq d d' \<longleftrightarrow> db_tasks d' = db_tasks d \<and> db_leases d' = db_leases d \<and>
     (\<forall>i. task_events i d' = task_events i d) \<and>
     (\<forall>r. cp_kind r = TaskAggregate \<longrightarrow> (r \<in> set (db_checkpoints d') \<longleftrightarrow> r \<in> set (db_checkpoints d)))"

lemma task_part_eq_refl [simp]: "task_part_eq d d"
  by (simp add: task_part_eq_def)

lemma task_part_eq_trans: "task_part_eq d d1 \<Longrightarrow> task_part_eq d1 d2 \<Longrightarrow> task_part_eq d d2"
  by (simp add: task_part_eq_def)

lemma task_part_eq_stored: "task_part_eq d d' \<Longrightarrow> stored c d' i s h \<longleftrightarrow> stored c d i s h"
  by (auto simp: task_part_eq_def stored_def task_ok_def is_checkpoint_of_def)

lemma task_part_eq_absent: "task_part_eq d d' \<Longrightarrow> absent d' i \<longleftrightarrow> absent d i"
  by (auto simp: task_part_eq_def absent_def is_checkpoint_of_def)

lemma task_part_eq_inv: "task_part_eq d d' \<Longrightarrow> db_inv c d' \<longleftrightarrow> db_inv c d"
  by (simp add: db_inv_def task_part_eq_stored [of d d'] task_part_eq_absent [of d d'])

lemma append_framed_frame:
  assumes "append_framed c operation command b s h d = Inr (s', h', d')"
  shows "task_part_eq d d'" and "j \<noteq> se_id s \<Longrightarrow> session_ok c d j t g \<Longrightarrow> session_ok c d' j t g"
proof -
  from assms obtain sb where ev: "db_events d' = db_events d @ [session_row (se_id s) (se_revision s') b h']"
    and ses: "db_sessions d' = (if db_sessions d (se_id s) = None then db_sessions d
      else (db_sessions d)(se_id s \<mapsto> \<lparr>ar_revision = uint (se_revision s'), ar_state = sb,
        ar_head = digest_to_string h'\<rparr>))"
    and same: "db_leases d' = db_leases d" "db_tasks d' = db_tasks d"
    and cp: "\<And>r. r \<in> set (db_checkpoints d') \<Longrightarrow> r \<in> set (db_checkpoints d) \<or>
      r = \<lparr>cp_aggregate = session_uuid (se_id s), cp_kind = SessionAggregate,
           cp_revision = uint (se_revision s'), cp_state = sb, cp_head = digest_to_string h'\<rparr>"
    and cp': "\<And>r. r \<in> set (db_checkpoints d) \<Longrightarrow> cp_kind r = TaskAggregate \<Longrightarrow> r \<in> set (db_checkpoints d')"
    by (rule append_framed_Inr) blast
  have "r \<in> set (db_checkpoints d)" if "r \<in> set (db_checkpoints d')" "cp_kind r = TaskAggregate" for r
    using cp [OF that(1)] that(2) by auto
  then show "task_part_eq d d'"
    using same ev cp' by (auto simp: task_part_eq_def task_events_def session_row_def)
  assume j: "j \<noteq> se_id s" "session_ok c d j t g"
  have "session_rows j d' = session_rows j d"
    using session_rows_append [OF ev, of j] j(1) by simp
  moreover have "db_sessions d' j = db_sessions d j"
    using ses j(1) by simp
  moreover have "r \<in> set (db_checkpoints d)"
    if "r \<in> set (db_checkpoints d')" "is_session_checkpoint j r" for r
    using cp [OF that(1)] that(2) j(1) by (auto simp: is_session_checkpoint_def SessionId.expand)
  ultimately show "session_ok c d' j t g"
    using j(2) by (simp add: session_ok_def)
qed

section \<open>Steps of a session and extensions of the database\<close>

text \<open>What any number of recorded commands does to a session.\<close>

inductive session_steps :: "('b, 'z) session_codec_scheme \<Rightarrow> 'b SessionState \<Rightarrow> 'b SessionState \<Rightarrow> bool"
  for c :: "('b, 'z) session_codec_scheme" where
  refl: "session_steps c s s"
| step: "session_steps c s t \<Longrightarrow> session_apply c operation command t = Inr u \<Longrightarrow> session_steps c s u"

lemma session_steps_trans: "session_steps c t u \<Longrightarrow> session_steps c s t \<Longrightarrow> session_steps c s u"
  by (induction rule: session_steps.induct) (auto intro: session_steps.step)

lemma session_steps_one: "session_apply c operation command s = Inr t \<Longrightarrow> session_steps c s t"
  by (rule session_steps.step [OF session_steps.refl])

lemma session_steps_extend:
  "session_steps c s t \<Longrightarrow>
     session_identity t = session_identity s \<and> (\<exists>items. se_history t = se_history s @ items) \<and>
     (\<forall>p. se_admission s = Some p \<longrightarrow> se_admission t = Some p \<and> se_config t = se_config s) \<and>
     (session_inv s \<longrightarrow> session_inv t)"
proof (induction rule: session_steps.induct)
  case (step s t operation command u)
  from session_apply_history [OF step(2)] obtain items where "se_history u = se_history t @ items" ..
  with step.IH session_apply_identity [OF step(2)] session_apply_bound [OF step(2)]
    session_apply_inv [OF step(2)] show ?case
    by auto
qed auto

text \<open>Only the session with the given identity changes, and its journal only grows.\<close>

definition extends_session :: "('b, 'z) session_codec_scheme \<Rightarrow> SessionId \<Rightarrow> 'b db \<Rightarrow> 'b db \<Rightarrow> bool" where
  "extends_session c i d d' \<longleftrightarrow> task_part_eq d d' \<and>
     (\<exists>tail. session_rows i d' = session_rows i d @ tail) \<and>
     (\<forall>j t g. j \<noteq> i \<longrightarrow> session_ok c d j t g \<longrightarrow> session_ok c d' j t g)"

lemma extends_session_refl [simp]: "extends_session c i d d"
  by (simp add: extends_session_def)

lemma extends_session_trans:
  "extends_session c i d d1 \<Longrightarrow> extends_session c i d1 d2 \<Longrightarrow> extends_session c i d d2"
  unfolding extends_session_def using task_part_eq_trans by fastforce

text \<open>The outcome of a successful append.\<close>

definition appended ::
    "('b, 'z) session_codec_scheme \<Rightarrow> SessionId \<Rightarrow> 'b SessionState \<times> digest \<times> 'b db \<Rightarrow>
     'b SessionState \<times> digest \<times> 'b db \<Rightarrow> bool" where
  "appended c i shd shd' \<longleftrightarrow>
     session_ok c (snd (snd shd')) i (fst shd') (fst (snd shd')) \<and>
     session_steps c (fst shd) (fst shd') \<and> extends_session c i (snd (snd shd)) (snd (snd shd'))"

lemma appended_trans: "appended c i a b \<Longrightarrow> appended c i b e \<Longrightarrow> appended c i a e"
  unfolding appended_def by (blast intro: session_steps_trans extends_session_trans)

lemma append_framed_appended:
  assumes "session_ok c d i s h" and "append_framed c operation command b s h d = Inr shd'"
    and "session_bytes c (SessionCommandEvent operation command at_ms) b" and "call_owned s command"
  shows "appended c i (s, h, d) shd'"
proof -
  obtain s' h' d' where shd': "shd' = (s', h', d')"
    by (metis prod_cases3)
  note app = assms(2) [unfolded shd']
  have i: "se_id s = i"
    by (rule session_ok_facts(3) [OF assms(1)])
  have "session_ok c d' i s' h'"
    by (rule append_framed_ok [OF assms(1) app assms(3,4)])
  moreover from app have "session_steps c s s' \<and> (\<exists>tail. session_rows i d' = session_rows i d @ tail)"
    by (rule append_framed_Inr) (auto simp: i dest: session_rows_append [where j = i] intro: session_steps_one)
  moreover have "session_ok c d j t g \<Longrightarrow> session_ok c d' j t g" if "j \<noteq> i" for j t g
    using append_framed_frame(2) [OF app] that i by simp
  ultimately show ?thesis
    using append_framed_frame(1) [OF app] by (auto simp: appended_def extends_session_def shd')
qed

lemma append_event_appended:
  assumes "session_ok c d i s h" and "append_event c now operation command (s, h, d) = Inr shd'"
    and "call_owned s command"
  shows "appended c i (s, h, d) shd'"
proof -
  from assms(2) obtain b where "session_bytes c (SessionCommandEvent operation command (now command)) b"
    and "append_framed c operation command b s h d = Inr shd'"
    by (auto simp: append_event_def session_bytes_def result_simps not_less split: if_splits)
  then show ?thesis
    using append_framed_appended [OF assms(1) _ _ assms(3)] by blast
qed

lemma append_parts_appended:
  assumes "session_ok c d i s h" and "append_parts c now operation request call out (s, h, d) = Inr shd'"
  shows "appended c i (s, h, d) shd'"
  using assms(2) unfolding append_parts_def
proof (rule try_fold_invariant)
  show "appended c i (s, h, d) (s, h, d)"
    using assms(1) by (simp add: appended_def session_steps.refl)
next
  fix acc x acc'
  assume acc: "appended c i (s, h, d) acc" and step: "(case x of (offset, part) \<Rightarrow>
      append_event c now (new_v5 c operation (u64_le_bytes c (of_nat offset)))
        (ToolResultPart request call offset part) acc) = Inr acc'"
  obtain s1 h1 d1 offset part where eqs: "acc = (s1, h1, d1)" "x = (offset, part)"
    by (metis prod_cases3 prod.exhaust)
  have ok: "session_ok c d1 i s1 h1"
    using acc by (simp add: appended_def eqs)
  have "appended c i acc acc'"
    unfolding eqs by (rule append_event_appended [OF ok]) (use step in \<open>auto simp: eqs call_owned_def\<close>)
  then show "appended c i (s, h, d) acc'"
    by (rule appended_trans [OF acc])
qed

text \<open>Either one event, or the parts of a long result and their end.\<close>

lemma append_session_command_cases:
  assumes "append_session_command c now operation command (s, h, d) = Inr shd'"
  obtains (one) b where "session_bytes c (SessionCommandEvent operation command (now command)) b"
      and "append_framed c operation command b s h d = Inr shd'"
    | (framed) request call out shd1 where "command = ToolResult request call out"
      and "append_parts c now operation request call out (s, h, d) = Inr shd1"
      and "append_event c now operation (ToolResultEnd request call (text_digest c out)) shd1 = Inr shd'"
  using assms
  by (cases command)
    (auto simp: append_session_command_def session_bytes_def result_simps not_less split: if_splits)

lemma append_session_command_appended:
  assumes "session_ok c d i s h" and "append_session_command c now operation command (s, h, d) = Inr shd'"
    and "call_owned s command"
  shows "appended c i (s, h, d) shd'"
  using assms(2)
proof (cases rule: append_session_command_cases)
  case (one b)
  then show ?thesis
    using append_framed_appended [OF assms(1) _ _ assms(3)] by blast
next
  case (framed request call out shd1)
  obtain s1 h1 d1 where shd1: "shd1 = (s1, h1, d1)"
    by (metis prod_cases3)
  have first: "appended c i (s, h, d) (s1, h1, d1)"
    by (rule append_parts_appended [OF assms(1) framed(2) [unfolded shd1]])
  then have "session_ok c d1 i s1 h1"
    by (simp add: appended_def)
  from append_event_appended [OF this framed(3) [unfolded shd1]] show ?thesis
    using appended_trans [OF first] by (simp add: call_owned_def)
qed

text \<open>What an earlier cursor selects never changes.\<close>

lemma past_cursor_fixed:
  assumes ok: "session_ok c d i s h" and ok': "session_ok c d' i s' h'"
    and ext: "\<exists>tail. session_rows i d' = session_rows i d @ tail"
    and n: "0 < unat n" "unat n \<le> unat (se_revision s)"
  shows "load_session_state c d' i (Some n) = load_session_state c d i (Some n) \<and>
    (\<exists>x. load_session_state c d i (Some n) = Inr x)"
proof -
  from ext obtain tail where rows: "session_rows i d' = session_rows i d @ tail" ..
  have len: "unat n \<le> length (session_rows i d)"
    using n(2) session_ok_facts(1) [OF ok] by simp
  then have pre: "take (unat n) (session_rows i d') = take (unat n) (session_rows i d)"
    by (simp add: rows)
  have "session_journal c i (session_rows i d) s h"
    using ok by (simp add: session_ok_def)
  then obtain sn hn where part: "session_journal c i (take (unat n) (session_rows i d)) sn hn"
    using session_journal_prefix [OF _ n(1) len] by blast
  have "load_session_state c d' i (Some n) = Inr (sn, hn)"
    by (rule load_session_through [OF ok' n(1)]) (use len part pre in \<open>simp_all add: rows\<close>)
  with load_session_through [OF ok n(1) len part] show ?thesis by simp
qed

section \<open>The contract of the session journal\<close>

definition append_session ::
    "('b, 'z) session_codec_scheme \<Rightarrow> 'b SessionState \<Rightarrow> digest \<Rightarrow>
     ('b SessionCommand \<Rightarrow> u64) \<times> uuid \<times> 'b SessionCommand \<Rightarrow> 'b db \<Rightarrow> StoreError + 'b SessionState \<times> 'b db" where
  "append_session c s h e d =
     and_then (append_session_command c (fst e) (fst (snd e)) (snd (snd e)) (s, h, d))
       (\<lambda>(s', h', d'). Inr (s', d'))"

text \<open>
  The task journal's contract holds of the session journal too, for commands that start interpreter
  calls only in known cells. Applying and leaving others alone do not need that condition.
\<close>

lemma append_event_steps:
  "append_event c now operation command (s, h, d) = Inr (s', h', d') \<Longrightarrow>
     session_steps c s s' \<and> se_id s' = se_id s \<and>
     (\<forall>j t g. j \<noteq> se_id s \<longrightarrow> session_ok c d j t g \<longrightarrow> session_ok c d' j t g)"
proof -
  assume "append_event c now operation command (s, h, d) = Inr (s', h', d')"
  then obtain b where app: "append_framed c operation command b s h d = Inr (s', h', d')"
    by (auto simp: append_event_def result_simps split: if_splits)
  from app have "session_apply c operation command s = Inr s'"
    by (rule append_framed_Inr)
  then show ?thesis
    using append_framed_frame(2) [OF app] by (auto intro: session_steps_one session_apply_id)
qed

lemma append_session_command_steps:
  assumes "append_session_command c now operation command (s, h, d) = Inr (s', h', d')"
  shows "session_steps c s s' \<and> se_id s' = se_id s \<and>
     (\<forall>j t g. j \<noteq> se_id s \<longrightarrow> session_ok c d j t g \<longrightarrow> session_ok c d' j t g)"
  using assms
proof (cases rule: append_session_command_cases)
  case (one b)
  then have "append_event c now operation command (s, h, d) = Inr (s', h', d')"
    by (simp add: append_event_def session_bytes_def)
  then show ?thesis by (rule append_event_steps)
next
  case (framed request call out shd1)
  let ?P = "\<lambda>shd. session_steps c s (fst shd) \<and> se_id (fst shd) = se_id s \<and>
     (\<forall>j t g. j \<noteq> se_id s \<longrightarrow> session_ok c d j t g \<longrightarrow> session_ok c (snd (snd shd)) j t g)"
  have step: "?P acc'" if "?P acc" "append_event c now op cmd acc = Inr acc'" for acc acc' op cmd
    using that append_event_steps [of c now op cmd "fst acc" "fst (snd acc)" "snd (snd acc)" "fst acc'"
        "fst (snd acc')" "snd (snd acc')"]
    by (auto intro: session_steps_trans)
  have "?P shd1"
    using framed(2) unfolding append_parts_def
  proof (rule try_fold_invariant [where P = ?P])
    show "?P (s, h, d)"
      by (simp add: session_steps.refl)
    show "?P acc'" if "?P acc" and "(case x of (offset, part) \<Rightarrow>
        append_event c now (new_v5 c operation (u64_le_bytes c (of_nat offset)))
          (ToolResultPart request call offset part) acc) = Inr acc'" for acc x acc'
      using step [OF that(1)] that(2) by (simp split: prod.splits)
  qed
  then have "?P (s', h', d')"
    by (rule step [OF _ framed(3)])
  then show ?thesis by simp
qed

interpretation sessions: event_log "session_ok c" "\<lambda>d i. load_session_state c d i None" "append_session c"
  "\<lambda>s e s'. session_steps c s s'" "\<lambda>s e. call_owned s (snd (snd e))"
proof
  fix d :: "'a db" and i s h
  assume ok: "session_ok c d i s h"
  then show "load_session_state c d i None = Inr (s, h)"
    by (rule load_session_state_ok)
  fix e s' and d' :: "'a db"
  assume app: "append_session c s h e d = Inr (s', d')"
  then obtain h' where app': "append_session_command c (fst e) (fst (snd e)) (snd (snd e)) (s, h, d) = Inr (s', h', d')"
    by (auto simp: append_session_def result_simps)
  note steps = append_session_command_steps [OF app']
  then show "session_steps c s s'" by simp
  show "\<exists>h'. session_ok c d' i s' h'" if "call_owned s (snd (snd e))"
    using append_session_command_appended [OF ok app' that] by (auto simp: appended_def)
  show "session_ok c d' j t g" if "j \<noteq> i" "session_ok c d j t g" for j t g
    using steps that session_ok_facts(3) [OF ok] by simp
qed

end
