(* ===== verification/Session_Framing.thy ===== *)
theory Session_Framing
  imports Session_Journal
begin

text \<open>
  Long tool results. A result whose event would exceed the journal limit is written as parts of at most
  64 KiB, cut at character boundaries, and an end that carries the digest of the whole. Here: the parts
  are the whole text, and the session that results is the one the result itself would have given.
\<close>

section \<open>Cutting\<close>

fun consecutive :: "nat \<Rightarrow> (nat \<times> string) list \<Rightarrow> bool" where
  "consecutive offset [] = True"
| "consecutive offset ((k, part) # parts) =
     (k = offset \<and> part \<noteq> [] \<and> length part \<le> FRAGMENT_BYTES \<and> consecutive (offset + length part) parts)"

lemma fragments_progress:
  assumes "utf8_shape out" and "offset < length out"
  shows "offset < fragment_end out offset"
  unfolding fragment_end_def
  by (rule floor_char_boundary_progress [OF assms]) (simp add: FRAGMENT_BYTES_def)

lemma fragment_end_le: "fragment_end out offset \<le> length out"
  by (simp add: fragment_end_def floor_char_boundary_le)

lemma fragment_end_bound: "offset \<le> length out \<Longrightarrow> fragment_end out offset \<le> offset + FRAGMENT_BYTES"
  using boundary_below_le [of out "min (offset + FRAGMENT_BYTES) (length out)"]
  by (auto simp: fragment_end_def floor_char_boundary_def)

lemma fragments_spec:
  assumes "utf8_shape out" and "offset \<le> length out"
  shows "consecutive offset (fragments out offset) \<and> concat (map snd (fragments out offset)) = drop offset out"
  using assms
proof (induction out offset rule: fragments.induct)
  case (1 out offset)
  show ?case
  proof (cases "offset < length out")
    case True
    let ?e = "fragment_end out offset"
    have e: "offset < ?e" "?e \<le> length out" "?e \<le> offset + FRAGMENT_BYTES"
      using fragments_progress [OF "1.prems"(1) True] fragment_end_le fragment_end_bound "1.prems"(2) by simp_all
    have IH: "consecutive ?e (fragments out ?e) \<and> concat (map snd (fragments out ?e)) = drop ?e out"
      using "1.IH" True e "1.prems"(1) by simp
    have len: "length (slice offset ?e out) = ?e - offset"
      using e by (simp add: slice_def)
    have "take (?e - offset) (drop offset out) @ drop ?e out = drop offset out"
      using e by (metis append_take_drop_id drop_drop le_add_diff_inverse2 less_imp_le_nat)
    then show ?thesis
      using IH e True len by (subst (1 2) fragments.simps) (auto simp: slice_def)
  next
    case False
    then show ?thesis
      using "1.prems"(2) by (subst (1 2) fragments.simps) simp
  qed
qed

section \<open>Assembling\<close>

lemma apply_part:
  assumes "session_apply c operation (ToolResultPart request call offset part) s = Inr s'"
  obtains d buffers where "output_append request call offset part (se_tool_output_buffers s) = Inr buffers"
    and "se_active_request s = Some request"
    and "s' = s\<lparr>se_tool_output_buffers := buffers, se_operations := bt_insert operation d (se_operations s),
      se_revision := se_revision s + 1\<rparr>"
proof -
  from assms obtain s1 d where arm: "apply_tool_part request call offset part s = Inr s1"
    and s': "s' = session_tail operation d s1"
    by (auto simp: session_apply_def session_record_Inr session_arm_def)
  from arm obtain buffers where part: "output_append request call offset part (se_tool_output_buffers s) = Inr buffers"
      "se_active_request s = Some request" "s1 = s\<lparr>se_tool_output_buffers := buffers\<rparr>"
    by (auto simp: apply_tool_part_def result_simps split: if_splits)
  show ?thesis
    by (rule that [OF part(1,2), of d]) (simp add: s' part session_tail_def)
qed

text \<open>The session while a call's output arrives: its own buffer, bookkeeping, and nothing else.\<close>

definition receiving :: "uuid \<Rightarrow> string \<Rightarrow> string \<Rightarrow> 'b SessionState \<Rightarrow> 'b SessionState \<Rightarrow> bool" where
  "receiving request call received s t \<longleftrightarrow>
     (\<exists>buffers operations revision.
        t = s\<lparr>se_tool_output_buffers := buffers, se_operations := operations, se_revision := revision\<rparr> \<and>
        bt_ok buffers \<and> (\<forall>k. k \<noteq> call \<longrightarrow> bt_get buffers k = bt_get (se_tool_output_buffers s) k) \<and>
        bt_get buffers call = (if received = [] then None else Some \<lparr>po_request = request, po_text = received\<rparr>))"

lemma receiving_part:
  assumes "receiving request call received s t"
    and "session_apply c operation (ToolResultPart request call offset part) t = Inr t'"
  shows "receiving request call (received @ part) s t'"
  using assms(2)
proof (rule apply_part)
  fix d buffers'
  assume app: "output_append request call offset part (se_tool_output_buffers t) = Inr buffers'"
    and t': "t' = t\<lparr>se_tool_output_buffers := buffers', se_operations := bt_insert operation d (se_operations t),
      se_revision := se_revision t + 1\<rparr>"
  from assms(1) obtain buffers operations revision where
    t: "t = s\<lparr>se_tool_output_buffers := buffers, se_operations := operations, se_revision := revision\<rparr>"
    and b: "bt_ok buffers" "\<And>k. k \<noteq> call \<Longrightarrow> bt_get buffers k = bt_get (se_tool_output_buffers s) k"
      "bt_get buffers call = (if received = [] then None else Some \<lparr>po_request = request, po_text = received\<rparr>)"
    by (auto simp: receiving_def)
  have app: "output_append request call offset part buffers = Inr buffers'"
    using app by (simp add: t)
  have "t' = s\<lparr>se_tool_output_buffers := buffers', se_operations := bt_insert operation d operations,
      se_revision := revision + 1\<rparr>"
    by (simp add: t' t)
  moreover have "bt_get buffers' k = bt_get (se_tool_output_buffers s) k" if "k \<noteq> call" for k
    using output_append_Inr(4) [OF app that] b(2) [OF that] by simp
  moreover have "bt_get buffers' call = Some \<lparr>po_request = request, po_text = received @ part\<rparr>"
    using output_append_Inr(3) [OF app] b(3) by (simp split: if_splits)
  moreover have "bt_ok buffers'" and "received @ part \<noteq> []"
    using output_append_ok [OF app b(1)] output_append_Inr(1) [OF app] by simp_all
  ultimately show ?thesis
    unfolding receiving_def by auto
qed

lemma append_event_apply:
  "append_event c now operation command shd = Inr shd' \<Longrightarrow>
     session_apply c operation command (fst shd) = Inr (fst shd')"
proof -
  obtain s h d s' h' d' where eqs: "shd = (s, h, d)" "shd' = (s', h', d')"
    by (metis prod_cases3)
  assume "append_event c now operation command shd = Inr shd'"
  then obtain b where "append_framed c operation command b s h d = Inr (s', h', d')"
    by (auto simp: eqs append_event_def result_simps split: if_splits)
  then show ?thesis
    by (auto simp: eqs elim: append_framed_Inr)
qed

lemma append_parts_receiving:
  assumes "receiving request call received s (fst shd)"
    and "try_fold (\<lambda>acc (offset, part).
        append_event c now (new_v5 c operation (u64_le_bytes c (of_nat offset)))
          (ToolResultPart request call offset part) acc) shd parts = Inr shd'"
  shows "receiving request call (received @ concat (map snd parts)) s (fst shd')"
  using assms
proof (induction parts arbitrary: received shd)
  case Nil
  then show ?case by simp
next
  case (Cons p parts)
  obtain offset part where p: "p = (offset, part)"
    by force
  with Cons.prems(2) obtain mid where
    one: "append_event c now (new_v5 c operation (u64_le_bytes c (of_nat offset)))
      (ToolResultPart request call offset part) shd = Inr mid"
    and rest: "try_fold (\<lambda>acc (offset, part).
        append_event c now (new_v5 c operation (u64_le_bytes c (of_nat offset)))
          (ToolResultPart request call offset part) acc) mid parts = Inr shd'"
    by (auto simp: result_simps)
  show ?case
    using Cons.IH [OF receiving_part [OF Cons.prems(1) append_event_apply [OF one]] rest] p by simp
qed

text \<open>Closing the call gives the session the whole result would have given.\<close>

lemma receiving_end:
  assumes "receiving request call out s t" and "bt_ok (se_tool_output_buffers s)"
    and "\<not> bt_contains (se_tool_output_buffers s) call"
    and "session_apply c operation (ToolResultEnd request call d) t = Inr t'"
  shows "\<exists>s0. session_apply c operation (ToolResult request call out) s = Inr s0 \<and>
    t' = s0\<lparr>se_revision := se_revision t', se_operations := se_operations t'\<rparr> \<and>
    bt_get (se_operations t') operation = bt_get (se_operations s0) operation"
proof -
  from assms(1) obtain buffers operations revision where
    t: "t = s\<lparr>se_tool_output_buffers := buffers, se_operations := operations, se_revision := revision\<rparr>"
    and b: "bt_ok buffers" "\<And>k. k \<noteq> call \<Longrightarrow> bt_get buffers k = bt_get (se_tool_output_buffers s) k"
      "bt_get buffers call = (if out = [] then None else Some \<lparr>po_request = request, po_text = out\<rparr>)"
    by (auto simp: receiving_def)
  from assms(4) have act: "se_active_request s = Some request"
    and rest: "session_record c operation (ToolResult request call out)
      (t\<lparr>se_tool_output_buffers := bt_remove call buffers\<rparr>) = Inr t'"
    using b(3) by (auto simp: session_apply_def output_finish_Inr result_simps t split: if_splits)
  have "bt_remove call buffers = se_tool_output_buffers s"
    using b(1,2) assms(2,3) by (intro bt_eqI bt_ok_remove) (auto simp: bt_get_remove bt_contains_def)
  with rest obtain fp where fp: "command_digest c (ToolResult request call out) = Inr fp"
    and t': "t' = session_tail operation fp (apply_tool_result c call out
        (s\<lparr>se_operations := operations, se_revision := revision\<rparr>))"
    by (auto simp: session_record_Inr session_arm_def t)
  have "session_apply c operation (ToolResult request call out) s
      = Inr (session_tail operation fp (apply_tool_result c call out s))"
    using fp by (simp add: session_apply_def session_record_def session_arm_def)
  then show ?thesis
    using act by (simp add: t' session_tail_def apply_tool_result_def bt_get_insert)
qed

lemma append_framed_result:
  assumes "append_parts c now operation request call out (s, h, d) = Inr shd1"
    and "append_event c now operation (ToolResultEnd request call (text_digest c out)) shd1 = Inr (s', h', d')"
    and "utf8_shape out" and "session_maps_ok s" and "\<not> bt_contains (se_tool_output_buffers s) call"
  shows "\<exists>s0. session_apply c operation (ToolResult request call out) s = Inr s0 \<and>
    s' = s0\<lparr>se_revision := se_revision s', se_operations := se_operations s'\<rparr> \<and>
    bt_get (se_operations s') operation = bt_get (se_operations s0) operation"
proof -
  have ok: "bt_ok (se_tool_output_buffers s)"
    using assms(4) by (simp add: session_maps_ok_def)
  have "receiving request call [] s (fst (s, h, d))"
    using ok assms(5) unfolding receiving_def
    by (intro exI [of _ "se_tool_output_buffers s"] exI [of _ "se_operations s"] exI [of _ "se_revision s"])
      (auto simp: bt_contains_def)
  from append_parts_receiving [OF this assms(1) [unfolded append_parts_def]]
  have "receiving request call out s (fst shd1)"
    using fragments_spec [OF assms(3), of 0] by simp
  from receiving_end [OF this ok assms(5) append_event_apply [OF assms(2), simplified]] show ?thesis .
qed

end
