(* ===== verification/Session_Store.thy ===== *)
theory Session_Store
  imports Session_Framing
begin

text \<open>
  The session commands of the store (\<^verbatim>\<open>store.rs\<close>): creating and forking sessions, loading cursors, the
  guarded \<open>session_command\<close>, starting and resuming tasks from a session, recovery after a restart, and
  the journal's read side. Identifiers that the code draws at random and clock readings are arguments.
\<close>

section \<open>Loading\<close>

definition load_session ::
    "('b, 'z) session_codec_scheme \<Rightarrow> 'b db \<Rightarrow> SessionId \<Rightarrow> StoreError + 'b SessionState" where
  "load_session c d i = and_then (load_session_state c d i None) (\<lambda>(s, _). Inr s)"

definition load_session_cursor ::
    "('b, 'z) session_codec_scheme \<Rightarrow> 'b db \<Rightarrow> SessionCursor \<Rightarrow> StoreError + 'b SessionState" where
  "load_session_cursor c d u =
     (if cu_version u \<noteq> 1 then Inl (Invalid ''unsupported session cursor'') else
      and_then (load_session_state c d (cu_session u) (Some (cu_revision u))) (\<lambda>(s, _).
      if se_admission s = None then Inl (Invalid ''session cursor predates trusted admission'') else Inr s))"

text \<open>The loop over at most 128 ancestors.\<close>

fun scoped_from ::
    "nat \<Rightarrow> ('b, 'z) session_codec_scheme \<Rightarrow> 'b db \<Rightarrow> 'b SessionState \<Rightarrow> SessionId \<Rightarrow> u64 option \<Rightarrow>
     StoreError + 'b SessionState" where
  "scoped_from 0 c d scope source revision =
     Inl (Invalid ''history lineage exceeds its traversal bound'')"
| "scoped_from (Suc n) c d scope source revision =
     (if se_id scope = source then
        (let revision' = (case revision of None \<Rightarrow> se_revision scope | Some r \<Rightarrow> r) in
         if revision' > se_revision scope then Inl (Invalid ''history lies beyond the branch cutoff'')
         else load_session_cursor c d \<lparr>cu_version = 1, cu_session = source, cu_revision = revision'\<rparr>)
      else
        and_then (ok_or (se_parent scope) (Invalid ''history source is outside this branch'')) (\<lambda>parent.
        and_then (load_session_cursor c d parent) (\<lambda>scope'. scoped_from n c d scope' source revision)))"

definition scoped_history ::
    "('b, 'z) session_codec_scheme \<Rightarrow> 'b db \<Rightarrow> SessionId \<Rightarrow> SessionId \<Rightarrow> u64 option \<Rightarrow>
     StoreError + 'b SessionState" where
  "scoped_history c d actor source revision =
     and_then (load_session c d actor) (\<lambda>scope. scoped_from 128 c d scope source revision)"

text \<open>
  The sessions table grows only by \<open>create_session_seeded\<close>, in the transaction that writes the first
  event, so its rows are in the order of those events; \<open>ORDER BY rowid DESC\<close> reverses them.
\<close>

definition session_ids :: "'b db \<Rightarrow> SessionId list" where
  "session_ids d =
     rev (map (\<lambda>r. SessionId (er_aggregate r))
       (filter (\<lambda>r. er_kind r = SessionAggregate \<and> er_revision r = 1) (db_events d)))"

definition load_each ::
    "('b, 'z) session_codec_scheme \<Rightarrow> 'b db \<Rightarrow> SessionId list \<Rightarrow> StoreError + 'b SessionState list" where
  "load_each c d ids =
     try_fold (\<lambda>acc i. and_then (load_session c d i) (\<lambda>s. Inr (acc @ [s]))) [] ids"

definition sessions_page ::
    "('b, 'z) session_codec_scheme \<Rightarrow> 'b db \<Rightarrow> nat \<Rightarrow> nat \<Rightarrow> StoreError + 'b SessionState list" where
  "sessions_page c d offset limit =
     (if limit = 0 \<or> limit > 64 then Inl (Invalid ''session page limit must be 1..64'')
      else if offset \<ge> 2 ^ 63 then Inl (Invalid ''session offset exceeds its bound'')
      else load_each c d (take limit (drop offset (session_ids d))))"

text \<open>\<open>ids\<close> are the identifiers \<open>ORDER BY id\<close> returns.\<close>

definition unbound_session_ids ::
    "('b, 'z) session_codec_scheme \<Rightarrow> 'b db \<Rightarrow> SessionId list \<Rightarrow> StoreError + SessionId list" where
  "unbound_session_ids c d ids =
     try_fold (\<lambda>acc i. and_then (load_session c d i) (\<lambda>s.
       Inr (if se_admission s = None then acc @ [i] else acc))) [] ids"

text \<open>
  \<open>prompt_cache_lineage\<close> follows parents; a session whose identifier was seen ends the walk with an
  error, so it takes at most one step per session identifier in the database. \<open>fuel\<close> bounds the steps.
\<close>

fun lineage_from ::
    "nat \<Rightarrow> ('b, 'z) session_codec_scheme \<Rightarrow> 'b db \<Rightarrow> SessionId \<Rightarrow> SessionId list \<Rightarrow> 'b SessionState \<Rightarrow>
     (StoreError + SessionId) option" where
  "lineage_from 0 c d lineage visited s = None"
| "lineage_from (Suc n) c d lineage visited s =
     (case se_parent s of
        None \<Rightarrow> Some (Inr lineage)
      | Some parent \<Rightarrow>
          if cu_session parent \<in> set visited then Some (Inl (Integrity ''cyclic session ancestry'')) else
          (case load_session c d (cu_session parent) of
             Inl e \<Rightarrow> Some (Inl e)
           | Inr s' \<Rightarrow> lineage_from n c d (cu_session parent) (cu_session parent # visited) s'))"

definition prompt_cache_lineage ::
    "nat \<Rightarrow> ('b, 'z) session_codec_scheme \<Rightarrow> 'b db \<Rightarrow> SessionId \<Rightarrow> (StoreError + SessionId) option" where
  "prompt_cache_lineage fuel c d i =
     (case load_session c d i of Inl e \<Rightarrow> Some (Inl e) | Inr s \<Rightarrow> lineage_from fuel c d i [i] s)"

section \<open>Creation\<close>

definition store_label :: "('b, 'z) session_codec_scheme \<Rightarrow> string \<Rightarrow> digest" where
  "store_label c label = sha c (str_bytes c label)"

definition fixture_admission ::
    "('b, 'z) session_codec_scheme \<Rightarrow> 'b HarnessRevision \<Rightarrow> SessionConfig \<Rightarrow> BaselineReason \<Rightarrow>
     StoreError + 'b SessionAdmissionProfile" where
  "fixture_admission c baseline config reason =
     (let request = \<lparr>sr_workspace = sc_workspace config, sr_model = sc_model config,
            sr_context_window_tokens = sc_context_window_tokens config, sr_channel = Stable\<rparr> in
      and_then (map_err StoreJson (of_value (enc_model c) (sha c) (sc_model config))) (\<lambda>model.
      map_err StoreJson (profile_compiled c baseline request
        \<lparr>tp_model = model, tp_protocol = store_label c ''orvek:store-fixture-protocol:v1'',
         tp_environment = store_label c ''orvek:store-fixture-environment:v1'',
         tp_task_profile = store_label c ''orvek:store-fixture-tools:v1'', tp_channel = Stable\<rparr>
        (store_label c ''orvek:store-fixture-authority:v1'') reason)))"

definition seed_available ::
    "('b, 'z) codec_scheme \<Rightarrow> 'b ArtifactStore \<Rightarrow> string \<Rightarrow> digest \<Rightarrow> StoreError + unit" where
  "seed_available c st reason x =
     map_err (\<lambda>_. Integrity reason)
       (and_then (snapshot_load c (dec_snapshot c) st x) (\<lambda>snapshot. verify_artifacts c st snapshot))"

text \<open>The history, import and workspace a new session starts from.\<close>

definition creation_seed ::
    "('b, 'z) session_codec_scheme \<Rightarrow> 'b db \<Rightarrow> 'b SessionAdmissionProfile \<Rightarrow> SessionCursor option \<Rightarrow>
     (ImportedSource \<times> json list) option \<Rightarrow> bool \<Rightarrow>
     StoreError + json list \<times> ImportedSource option \<times> WorkspaceSeed option" where
  "creation_seed c d admission parent seed fresh_context =
     (case (parent, seed) of
        (None, Some (source, history)) \<Rightarrow> Inr (history, Some source, None)
      | (Some _, Some _) \<Rightarrow>
          Inl (Invalid ''session cannot be both a native fork and a new legacy import'')
      | (Some u, None) \<Rightarrow>
          if cu_version u \<noteq> 1 then Inl (Invalid ''unsupported session cursor'') else
          and_then (load_session_state c d (cu_session u) (Some (cu_revision u))) (\<lambda>(p, _).
          if se_active_request p \<noteq> None then Inl (Invalid ''fork cursor must select a settled turn'')
          else if br_pending_task (se_branch p) \<noteq> None
          then Inl (Invalid ''parent workspace has no settled source checkpoint'')
          else if br_pending_shell (se_branch p) \<noteq> None
          then Inl (Invalid ''parent has an unresolved shell operation'')
          else if se_admission p \<noteq> Some admission
          then Inl (Invalid ''child session admission differs from its parent'')
          else Inr (if fresh_context then [] else se_history p, se_imported p, br_workspace (se_branch p)))
      | (None, None) \<Rightarrow> Inr ([], None, None))"

text \<open>The transaction that writes the session row, its first event and its first checkpoint.\<close>

definition insert_created ::
    "('b, 'z) session_codec_scheme \<Rightarrow> SessionId \<Rightarrow> 'b SessionCreation \<Rightarrow> 'b db \<Rightarrow>
     StoreError + 'b SessionState \<times> 'b db" where
  "insert_created c i creation d =
     and_then (map_err StoreJson (enc_session_event c (SessionCreated creation))) (\<lambda>bytes.
     if blen c bytes > MAX_EVENT_BYTES
     then Inl (Invalid ''initial session context exceeds journal limit'') else
     let s = session_create i creation in
     and_then (aggregate_hash c SessionAggregate (session_uuid i) 1 None bytes) (\<lambda>hash.
     and_then (map_err StoreJson (enc_session c s)) (\<lambda>state_bytes.
     and_then (insert_session i \<lparr>ar_revision = 1, ar_state = state_bytes,
         ar_head = digest_to_string hash\<rparr> d) (\<lambda>d1.
     and_then (insert_event \<lparr>er_aggregate = session_uuid i, er_kind = SessionAggregate, er_revision = 1,
         er_event = bytes, er_hash = digest_to_string hash\<rparr> d1) (\<lambda>d2.
     and_then (store_session_checkpoint c i 1 s hash d2) (\<lambda>d3. Inr (s, d3)))))))"

definition create_session_seeded ::
    "('b, 'z) session_codec_scheme \<Rightarrow> 'b ArtifactStore \<Rightarrow> u64 \<Rightarrow> SessionId \<Rightarrow> SessionConfig \<Rightarrow>
     'b SessionAdmissionProfile \<Rightarrow> SessionCursor option \<Rightarrow> (ImportedSource \<times> json list) option \<Rightarrow> bool \<Rightarrow>
     'b db \<Rightarrow> StoreError + 'b SessionState \<times> 'b db" where
  "create_session_seeded c st at_ms i config admission parent seed fresh_context d =
     (if \<not> is_absolute (sc_workspace config) \<or> \<not> is_dir c (sc_workspace config)
      then Inl (Invalid ''session workspace must be an absolute directory'') else
      case load_session c d i of
        Inr existing \<Rightarrow>
          if se_initial_config existing = config \<and> se_admission existing = Some admission
             \<and> br_fresh_context (se_branch existing) = fresh_context \<and> se_parent existing = parent
             \<and> (case seed of
                  None \<Rightarrow> se_imported existing = None \<or> parent \<noteq> None
                | Some (source, _) \<Rightarrow> se_imported existing = Some source)
          then Inr (existing, d)
          else Inl (Invalid ''session ID reused with different configuration or import'')
      | Inl (MissingSession _) \<Rightarrow>
          and_then (creation_seed c d admission parent seed fresh_context)
            (\<lambda>(history, imported, workspace).
          and_then (case workspace of
              None \<Rightarrow> Inr ()
            | Some w \<Rightarrow>
                and_then (seed_available c st ''workspace seed origin is unavailable'' (ws_origin w)) (\<lambda>_.
                seed_available c st ''workspace seed source is unavailable'' (ws_source w))) (\<lambda>_.
          insert_created c i
            \<lparr>sn_branch = \<lparr>br_workspace = workspace, br_fresh_context = fresh_context,
               br_pending_task = None, br_pending_shell = None\<rparr>, sn_config = config,
             sn_admission = Some admission, sn_parent = parent, sn_history = history,
             sn_started_ms = at_ms, sn_imported = imported\<rparr> d))
      | Inl e \<Rightarrow> Inl e)"

definition profile_config :: "'b SessionAdmissionProfile \<Rightarrow> SessionConfig" where
  "profile_config p =
     \<lparr>sc_workspace = sr_workspace (ap_request p), sc_model = sr_model (ap_request p),
      sc_instructions = [], sc_context_window_tokens = sr_context_window_tokens (ap_request p)\<rparr>"

definition create_session where
  "create_session c st baseline at_ms i config parent d =
     and_then (fixture_admission c baseline config StoreFixtureReason) (\<lambda>profile.
     create_session_seeded c st at_ms i config profile parent None False d)"

definition create_bound_session where
  "create_bound_session c st at_ms i profile parent d =
     and_then (map_err Invalid (profile_validate c profile)) (\<lambda>_.
     create_session_seeded c st at_ms i (profile_config profile) profile parent None False d)"

definition create_handoff_session where
  "create_handoff_session c st at_ms i parent d =
     and_then (load_session_cursor c d parent) (\<lambda>source.
     and_then (ok_or (se_admission source) (Invalid ''source session is not admission-bound'')) (\<lambda>profile.
     create_session_seeded c st at_ms i (se_config source) profile (Some parent) None True d))"

definition create_imported_session where
  "create_imported_session c st baseline at_ms i config source history d =
     and_then (read_all c st [im_manifest source, im_source_snapshot source]) (\<lambda>_.
     and_then (fixture_admission c baseline config LegacyImport) (\<lambda>profile.
     create_session_seeded c st at_ms i config profile None (Some (source, history)) False d))"

definition create_bound_imported_session where
  "create_bound_imported_session c st at_ms i profile source history d =
     and_then (map_err Invalid (profile_validate c profile)) (\<lambda>_.
     and_then (read_all c st [im_manifest source, im_source_snapshot source]) (\<lambda>_.
     create_session_seeded c st at_ms i (profile_config profile) profile None (Some (source, history)) False d))"

section \<open>Commands\<close>

text \<open>The request a command reports a result for.\<close>

definition reporting_request :: "'b SessionCommand \<Rightarrow> uuid option" where
  "reporting_request command =
     (case command of
        Response request _ \<Rightarrow> Some request
      | InterpreterCommand request _ \<Rightarrow> Some request
      | ProviderUsage request _ _ _ \<Rightarrow> Some request
      | WorkspaceSaved request _ \<Rightarrow> Some request
      | ToolResult request _ _ \<Rightarrow> Some request
      | ToolResultPart request _ _ _ \<Rightarrow> Some request
      | ToolResultEnd request _ _ \<Rightarrow> Some request
      | TaskLinked request _ \<Rightarrow> Some request
      | TurnSettled request _ _ \<Rightarrow> Some request
      | _ \<Rightarrow> None)"

definition live_cell :: "'b SessionState \<Rightarrow> uuid \<Rightarrow> uuid \<Rightarrow> bool" where
  "live_cell s cell request =
     (case bt_get (in_cells (se_interpreter s)) cell of
        None \<Rightarrow> False | Some x \<Rightarrow> cell_request x = request \<and> cell_pending (cell_status x))"

definition check_interpreter ::
    "('b, 'z) session_codec_scheme \<Rightarrow> 'b ArtifactStore \<Rightarrow> 'b SessionState \<Rightarrow> uuid \<Rightarrow> InterpreterEvent \<Rightarrow>
     StoreError + unit" where
  "check_interpreter c st s request event =
     (case event of
        CellStarted cell task outer source runtime generation environment \<Rightarrow>
          if bt_contains (in_cells (se_interpreter s)) cell
             \<or> bt_get (se_tasks_by_request s) request \<noteq> Some task
             \<or> \<not> pending_tool_call s outer request
          then Inl (Invalid ''interpreter cell has no pending outer call'')
          else read_all c st [source, environment]
      | CallStarted cell ordinal call name arguments \<Rightarrow>
          if ordinal = 0 \<or> call \<noteq> call_name c cell ordinal
             \<or> bt_contains (in_pending_calls (se_interpreter s)) call \<or> \<not> live_cell s cell request
          then Inl (Invalid ''interpreter call has no active owning cell'')
          else read_all c st [arguments]
      | CallSettled cell ordinal result \<Rightarrow>
          if bt_get (in_pending_calls (se_interpreter s)) (call_name c cell ordinal) \<noteq> Some cell
             \<or> \<not> live_cell s cell request
          then Inl (Invalid ''interpreter result has no pending call'')
          else read_all c st [result]
      | CellSettledEvent cell result checkpoint state_lost \<Rightarrow>
          if \<not> live_cell s cell request
             \<or> list_ex (\<lambda>owner. owner = cell) (bt_values (in_pending_calls (se_interpreter s)))
          then Inl (Invalid ''interpreter cell is not ready to settle'')
          else read_all c st (result # (case checkpoint of None \<Rightarrow> [] | Some x \<Rightarrow> [cr_artifact x])))"

definition check_proposed_call ::
    "'b SessionState \<Rightarrow> string btreeset \<Rightarrow> json \<Rightarrow> StoreError + string btreeset" where
  "check_proposed_call s seen item =
     and_then (ok_or (case as_str (json_index item ''call_id'') of
         None \<Rightarrow> None | Some call \<Rightarrow> if call \<noteq> [] \<and> length call \<le> 256 then Some call else None)
       (Invalid ''tool proposal requires an ID'')) (\<lambda>call.
     if call \<in> set seen
        \<or> list_ex (\<lambda>x. function_call x \<and> json_index x ''call_id'' = JString call) (se_history s)
     then Inl (Invalid ''provider reused a tool call ID; execution was not repeated'')
     else if (case as_str (json_index item ''name'') of
                None \<Rightarrow> True | Some name \<Rightarrow> name = [] \<or> length name > 128)
         \<or> as_str (json_index item ''arguments'') = None
     then Inl (Invalid ''malformed tool proposal'')
     else Inr (bs_insert call seen))"

definition check_response :: "'b SessionState \<Rightarrow> json list \<Rightarrow> StoreError + unit" where
  "check_response s items =
     (if length items > 256 \<or> length (filter function_call items) > 64
      then Inl (Invalid ''provider response exceeds item or tool proposal limits'') else
      and_then (try_fold (check_proposed_call s) (bs_collect (bt_keys (se_tool_calls s)))
          (filter function_call items)) (\<lambda>_. Inr ()))"

definition check_workspace_saved ::
    "('b, 'z) session_codec_scheme \<Rightarrow> 'b ArtifactStore \<Rightarrow> 'b db \<Rightarrow> 'b SessionState \<Rightarrow> uuid \<Rightarrow> WorkspaceSeed \<Rightarrow>
     StoreError + unit" where
  "check_workspace_saved c st d s request seed =
     and_then (ok_or (bt_get (se_tasks_by_request s) request)
         (Invalid ''workspace publication has no task owner'')) (\<lambda>i.
     and_then (load_state c d i) (\<lambda>(task, _).
     if ws_task seed \<noteq> Some i
        \<or> (case t_workspace_origin task of None \<Rightarrow> t_origin task | Some x \<Rightarrow> Some x) \<noteq> Some (ws_origin seed)
        \<or> \<not> (case t_candidate task of
               None \<Rightarrow> False | Some x \<Rightarrow> cand_frozen x \<and> cand_source x = ws_source seed)
        \<or> active_writer task
     then Inl (Invalid ''workspace publication differs from its frozen task source'')
     else try_each (seed_available c st ''published workspace is unavailable'')
            [ws_origin seed, ws_source seed]))"

definition check_tool_result :: "'b SessionState \<Rightarrow> uuid \<Rightarrow> string \<Rightarrow> StoreError + unit" where
  "check_tool_result s request call =
     (if \<not> pending_tool_call s call request
      then Inl (Invalid ''tool result has no pending call in this request'') else Inr ())"

definition check_settled ::
    "('b, 'z) session_codec_scheme \<Rightarrow> 'b db \<Rightarrow> 'b SessionState \<Rightarrow> uuid \<Rightarrow> Outcome \<Rightarrow> StoreError + unit" where
  "check_settled c d s request outcome =
     and_then (ok_or (bt_get (se_tasks_by_request s) request)
         (Invalid ''task outcome without a task'')) (\<lambda>i.
     and_then (load_state c d i) (\<lambda>(task, _).
     if t_outcome task \<noteq> Some outcome then Inl (Invalid ''session cannot manufacture task outcomes'')
     else Inr ()))"

definition session_guard ::
    "('b, 'z) context_codec_scheme \<Rightarrow> 'b ArtifactStore \<Rightarrow> 'b db \<Rightarrow> 'b SessionState \<Rightarrow> 'b SessionCommand \<Rightarrow>
     StoreError + unit" where
  "session_guard c st d s command =
     (case command of
        InterpreterCommand request event \<Rightarrow> check_interpreter c st s request event
      | AdmissionPinned profile _ \<Rightarrow> map_err Invalid (profile_validate c profile)
      | WorkspaceSaved request seed \<Rightarrow> check_workspace_saved c st d s request seed
      | Response _ items \<Rightarrow> check_response s items
      | ToolResult request call _ \<Rightarrow> check_tool_result s request call
      | ToolResultPart request call _ _ \<Rightarrow> check_tool_result s request call
      | ToolResultEnd request call _ \<Rightarrow> check_tool_result s request call
      | InputCommand _ content \<Rightarrow>
          if se_active_request s \<noteq> None then Inl (Invalid ''session already has an active request'')
          else if content = [] then Inl (Invalid ''empty input'') else Inr ()
      | TaskLinked _ task \<Rightarrow> and_then (load_state c d task) (\<lambda>_. Inr ())
      | TurnSettled request (Some outcome) _ \<Rightarrow> check_settled c d s request outcome
      | ContextProjected source_revision view projection \<Rightarrow>
          if source_revision \<noteq> se_revision s then Inl (Invalid ''stale context projection'') else
          (case view of
             Some v \<Rightarrow>
               if projection \<noteq> [] \<or> \<not> valid_for c v s
               then Inl (Invalid ''context view does not match its source'') else Inr ()
           | None \<Rightarrow> Inl (Invalid ''context view manifest is required''))
      | _ \<Rightarrow> Inr ())"

definition session_command ::
    "('b, 'z) context_codec_scheme \<Rightarrow> 'b ArtifactStore \<Rightarrow> ('b SessionCommand \<Rightarrow> u64) \<Rightarrow> SessionId \<Rightarrow> u64 \<Rightarrow> uuid \<Rightarrow>
     'b SessionCommand \<Rightarrow> 'b db \<Rightarrow> StoreError + 'b SessionState \<times> 'b db" where
  "session_command c st now i revision operation command d =
     and_then (load_session_state c d i None) (\<lambda>(s, head).
     and_then (map_err StoreJson (command_digest c command)) (\<lambda>fingerprint.
     case bt_get (se_operations s) operation of
       Some previous \<Rightarrow>
         if previous = fingerprint then Inr (s, d)
         else Inl (Invalid ''command ID reused with different input'')
     | None \<Rightarrow>
         if se_revision s \<noteq> revision then Inl (RevisionMismatch revision (se_revision s))
         else if (case reporting_request command of
                    None \<Rightarrow> False | Some request \<Rightarrow> se_active_request s \<noteq> Some request)
         then Inl (Invalid ''late result belongs to a superseded request'') else
         and_then (session_guard c st d s command) (\<lambda>_.
         and_then (append_session_command c now operation command (s, head, d)) (\<lambda>(s', _, d').
         Inr (s', d')))))"

definition pin_session_admission ::
    "('b, 'z) context_codec_scheme \<Rightarrow> 'b ArtifactStore \<Rightarrow> ('b SessionCommand \<Rightarrow> u64) \<Rightarrow> SessionId \<Rightarrow>
     'b SessionAdmissionProfile \<Rightarrow> 'b db \<Rightarrow> StoreError + 'b SessionState \<times> 'b db" where
  "pin_session_admission c st now i profile d =
     and_then (map_err Invalid (profile_validate c profile)) (\<lambda>_.
     and_then (load_session c d i) (\<lambda>s.
     case se_admission s of
       Some existing \<Rightarrow>
         if existing = profile then Inr (s, d)
         else Inl (Integrity ''session admission is already pinned differently'')
     | None \<Rightarrow>
         if sc_workspace (se_config s) \<noteq> sr_workspace (ap_request profile)
            \<or> sc_model (se_config s) \<noteq> sr_model (ap_request profile)
            \<or> sc_context_window_tokens (se_config s) \<noteq> sr_context_window_tokens (ap_request profile)
         then Inl (Integrity ''legacy session configuration differs from its admission'') else
         and_then (map_err StoreJson (of_value (enc_config c) (sha c) (se_config s))) (\<lambda>legacy.
         session_command c st now i (se_revision s)
           (new_v5 c (session_uuid i) ''orvek-admission-pin-v1'') (AdmissionPinned profile legacy) d)))"

definition save_task_workspace ::
    "('b, 'z) context_codec_scheme \<Rightarrow> 'b ArtifactStore \<Rightarrow> ('b SessionCommand \<Rightarrow> u64) \<Rightarrow> SessionId \<Rightarrow> uuid \<Rightarrow>
     TaskId \<Rightarrow> 'b db \<Rightarrow> StoreError + 'b SessionState \<times> 'b db" where
  "save_task_workspace c st now session request task_id d =
     and_then (load_session c d session) (\<lambda>s.
     and_then (load c d task_id) (\<lambda>task.
     case (case t_workspace_origin task of None \<Rightarrow> t_origin task | Some x \<Rightarrow> Some x, t_candidate task) of
       (Some origin, Some candidate) \<Rightarrow>
         if \<not> cand_frozen candidate \<or> active_writer task then Inr (s, d) else
         session_command c st now session (se_revision s) (new_v5 c request ''workspace-saved'')
           (WorkspaceSaved request \<lparr>ws_origin = origin, ws_source = cand_source candidate,
              ws_task = Some (t_id task)\<rparr>) d
     | _ \<Rightarrow> Inr (s, d)))"

section \<open>Tasks of a session\<close>

definition task_link :: "('b, 'z) session_codec_scheme \<Rightarrow> uuid \<Rightarrow> uuid" where
  "task_link c operation = new_v5 c operation ''task-link''"

definition insert_task_created ::
    "('b, 'z) codec_scheme \<Rightarrow> 'b ArtifactStore \<Rightarrow> TaskId \<Rightarrow> TaskEvent \<Rightarrow> TaskState \<Rightarrow> 'b db \<Rightarrow>
     StoreError + 'b db" where
  "insert_task_created c st i event task d =
     and_then (check_artifact_budget c st d i event (l_artifact_bytes (limits task))) (\<lambda>_.
     and_then (event_bytes c event) (\<lambda>bytes.
     and_then (event_hash c i 1 None bytes) (\<lambda>hash.
     and_then (map_err StoreJson (enc_state c task)) (\<lambda>state_bytes.
     and_then (insert_task i \<lparr>ar_revision = 1, ar_state = state_bytes,
         ar_head = digest_to_string hash\<rparr> d) (\<lambda>d1.
     and_then (insert_event \<lparr>er_aggregate = task_uuid i, er_kind = TaskAggregate, er_revision = 1,
         er_event = bytes, er_hash = digest_to_string hash\<rparr> d1) (\<lambda>d2.
     store_checkpoint c i 1 task hash d2))))))"

text \<open>The task that a request identifier already stands for was started from the same input.\<close>

definition same_task_input ::
    "TaskEvent \<Rightarrow> string \<Rightarrow> Limits \<Rightarrow> Contract option \<Rightarrow> digest option \<Rightarrow> digest option \<Rightarrow> bool" where
  "same_task_input first request lims contract intake input =
     (case (first, contract) of
        (Created initial _, Some x) \<Rightarrow> initial = x
      | (Requested initial initial_limits initial_intake initial_input _, None) \<Rightarrow>
          initial = request \<and> initial_limits = lims \<and> Some initial_intake = intake \<and> initial_input = input
      | _ \<Rightarrow> False)"

definition first_task_event ::
    "('b, 'z) codec_scheme \<Rightarrow> TaskId \<Rightarrow> 'b db \<Rightarrow> StoreError + TaskEvent" where
  "first_task_event c i d =
     (case List.find (\<lambda>r. er_revision r = 1) (task_events i d) of
        None \<Rightarrow> Inl (StoreSql ''Query returned no rows'')
      | Some r \<Rightarrow> map_err StoreJson (dec_event c (er_event r)))"

definition accepted_intent :: "WorkIntent \<Rightarrow> Limits \<Rightarrow> digest option \<Rightarrow> bool" where
  "accepted_intent intent lims intake =
     (case intent of
        NewTask accepted policy \<Rightarrow> accepted = lims \<and> Some policy = intake
      | OrdinaryWork accepted policy _ \<Rightarrow> accepted = lims \<and> Some policy = intake
      | _ \<Rightarrow> False)"

definition start_guard ::
    "('b, 'z) session_codec_scheme \<Rightarrow> 'b SessionState \<Rightarrow> uuid \<Rightarrow> Limits \<Rightarrow> Contract option \<Rightarrow> digest option \<Rightarrow>
     digest option \<Rightarrow> StoreError + unit" where
  "start_guard c s operation lims contract intake input =
     (let submission = bt_get (se_submissions s) operation;
          ordinary = (case submission of None \<Rightarrow> False | Some x \<Rightarrow> is_ordinary (su_intent x)) in
      if (case se_active_request s of None \<Rightarrow> False | Some active \<Rightarrow> active \<noteq> operation)
         \<or> se_active_request s = Some operation \<and> \<not> ordinary
      then Inl (Invalid ''session request is already active'')
      else if \<not> (ordinary \<and> bt_contains (se_operations s) (new_v5 c operation ''classification-intended''))
         \<and> br_pending_shell (se_branch s) \<noteq> None
      then Inl (Invalid ''reconcile the pending shell before starting another task'')
      else if (case submission of
                 None \<Rightarrow> False
               | Some x \<Rightarrow> su_status x \<noteq> SubRunning \<or> input \<noteq> Some (su_input x)
                   \<or> \<not> (accepted_intent (su_intent x) lims intake \<and> contract = None))
      then Inl (Invalid ''execution differs from its admitted submission'')
      else Inr ())"

definition start_record ::
    "('b, 'z) session_codec_scheme \<Rightarrow> 'b ArtifactStore \<Rightarrow> ('b SessionCommand \<Rightarrow> u64) \<Rightarrow> TaskId \<Rightarrow> u64 \<Rightarrow> SessionId \<Rightarrow>
     uuid \<Rightarrow> string \<Rightarrow> Limits \<Rightarrow> Contract option \<Rightarrow> digest option \<Rightarrow> PreparedInput option \<Rightarrow> 'b db \<Rightarrow>
     StoreError + ('b SessionState \<times> TaskState \<times> bool) \<times> 'b db" where
  "start_record c st now i at_ms session_id operation request lims contract intake prepared d =
     and_then (load_session_state c d session_id None) (\<lambda>(s, head).
     let input = map_option pi_artifact prepared in
     case bt_get (se_tasks_by_request s) operation of
       Some task_id \<Rightarrow>
         and_then (load_state c d task_id) (\<lambda>(task, _).
         and_then (first_task_event c task_id d) (\<lambda>first.
         if \<not> same_task_input first request lims contract intake input
         then Inl (Invalid ''request ID reused with different task input'')
         else Inr ((s, task, False), d)))
     | None \<Rightarrow>
         and_then (start_guard c s operation lims contract intake input) (\<lambda>_.
         and_then (case contract of
             Some x \<Rightarrow> Inr (Created x at_ms, created i x at_ms)
           | None \<Rightarrow>
               and_then (ok_or intake (Invalid ''request requires its intake policy'')) (\<lambda>policy.
               Inr (Requested request lims policy input at_ms,
                    requested i request lims at_ms intake input))) (\<lambda>(event, task).
         and_then (insert_task_created c st i event task d) (\<lambda>d1.
         and_then (append_session_command c now operation (InputCommand TaskRequest
             (case prepared of None \<Rightarrow> [message ''user'' request] | Some x \<Rightarrow> pi_messages x)) (s, head, d1))
           (\<lambda>shd.
         and_then (append_session_command c now (task_link c operation) (TaskLinked operation i) shd)
           (\<lambda>(s', _, d').
         Inr ((s', task, True), d')))))))"

definition start_task where
  "start_task c st now i at_ms session_id operation contract d =
     and_then (map_err StoreContract (contract_validate contract)) (\<lambda>_.
     start_record c st now i at_ms session_id operation (c_request contract) (c_limits contract)
       (Some contract) None None d)"

definition unreconciled :: "TaskState \<Rightarrow> bool" where
  "unreconciled s =
     (list_ex (\<lambda>job. unresolved (j_status job)) (bt_values (t_jobs s))
      \<or> list_ex (\<lambda>effect. eff_status effect = Intended \<or> eff_status effect = EffectUnknown)
          (bt_values (t_effects s))
      \<or> list_ex (\<lambda>operation. case bt_get (t_model_receipts s) operation of
            None \<Rightarrow> True
          | Some receipt \<Rightarrow> mc_tokens receipt = None \<or> mc_status receipt = CallUnknown)
          (t_model_reservations s))"

definition resume_task_record ::
    "('b, 'z) session_codec_scheme \<Rightarrow> 'b ArtifactStore \<Rightarrow> ('b SessionCommand \<Rightarrow> u64) \<Rightarrow> u64 \<Rightarrow> SessionId \<Rightarrow>
     uuid \<Rightarrow> TaskId \<Rightarrow> u64 \<Rightarrow> string \<Rightarrow> 'b db \<Rightarrow> StoreError + ('b SessionState \<times> TaskState \<times> bool) \<times> 'b db" where
  "resume_task_record c st now at_ms session_id operation i revision reason d =
     (if blank reason then Inl (Invalid ''resuming requires a user basis'') else
      let input = InputCommand TaskRequest [message ''user'' reason] in
      and_then (load_session_state c d session_id None) (\<lambda>(s, head).
      and_then (load_state c d i) (\<lambda>(task, task_head).
      case bt_get (se_tasks_by_request s) operation of
        Some previous \<Rightarrow>
          if previous \<noteq> i then Inl (Invalid ''resume request ID reused with different input'') else
          and_then (map_err StoreJson (command_digest c input)) (\<lambda>fingerprint.
          if bt_get (se_operations s) operation \<noteq> Some fingerprint
          then Inl (Invalid ''resume request ID reused with different input'')
          else Inr ((s, task, False), d))
      | None \<Rightarrow>
          if se_active_request s \<noteq> None \<or> bt_contains (se_operations s) operation
          then Inl (Invalid ''session already has an active request'')
          else if i \<notin> set (bt_values (se_tasks_by_request s))
          then Inl (Invalid ''task does not belong to this session'')
          else if t_revision task \<noteq> revision then Inl (RevisionMismatch revision (t_revision task))
          else if t_outcome task = None \<or> t_outcome task = Some Complete
          then Inl (Invalid ''resume requires a settled incomplete task'')
          else if unreconciled task
          then Inl (Invalid ''reconcile unfinished jobs, effects and provider attempts before resuming'')
          else
            let task' = task\<lparr>t_cancellation_requested := False\<rparr> in
            and_then (check_budget at_ms task') (\<lambda>_.
            and_then (append_task_event c st task' task_head (Reopened reason) d) (\<lambda>(task'', d1).
            and_then (append_session_command c now operation input (s, head, d1)) (\<lambda>shd.
            and_then (append_session_command c now (task_link c operation) (TaskLinked operation i) shd)
              (\<lambda>(s', _, d').
            Inr ((s', task'', True), d'))))))))"

section \<open>Recovery\<close>

definition recovery_error :: string where
  "recovery_error = ''Host interrupted this request; persisted work is available for recovery''"

definition recover_session ::
    "('b, 'z) context_codec_scheme \<Rightarrow> 'b ArtifactStore \<Rightarrow> ('b SessionCommand \<Rightarrow> u64) \<Rightarrow> 'b db \<Rightarrow>
     'b SessionState \<Rightarrow> StoreError + 'b db" where
  "recover_session c st now d s =
     (case se_active_request s of
        None \<Rightarrow> Inr d
      | Some request \<Rightarrow>
          and_then (case bt_get (se_tasks_by_request s) request of
              None \<Rightarrow> Inr None
            | Some i \<Rightarrow> and_then (load c d i) (\<lambda>task. Inr (t_outcome task))) (\<lambda>outcome.
          and_then (session_command c st now (se_id s) (se_revision s) (new_v5 c request ''host-recovered'')
              (TurnSettled request outcome (Some recovery_error)) d) (\<lambda>(_, d'). Inr d')))"

text \<open>
  The loop over pages of 64 sessions. No session is created meanwhile, so the pages are those of the
  list of identifiers at the start; the loop ends with the first empty page.
\<close>

function recover_pages ::
    "('b, 'z) context_codec_scheme \<Rightarrow> 'b ArtifactStore \<Rightarrow> ('b SessionCommand \<Rightarrow> u64) \<Rightarrow> SessionId list \<Rightarrow> 'b db \<Rightarrow>
     StoreError + 'b db" where
  "recover_pages c st now ids d =
     (if ids = [] then Inr d else
      and_then (load_each c d (take 64 ids)) (\<lambda>states.
      and_then (try_fold (recover_session c st now) d states) (\<lambda>d'.
      recover_pages c st now (drop 64 ids) d')))"
  by pat_completeness auto
termination
  by (relation "measure (\<lambda>(c, st, now, ids, d). length ids)") auto

declare recover_pages.simps [simp del]

definition recover_interrupted ::
    "('b, 'z) context_codec_scheme \<Rightarrow> 'b ArtifactStore \<Rightarrow> ('b SessionCommand \<Rightarrow> u64) \<Rightarrow> TaskId list \<Rightarrow> 'b db \<Rightarrow>
     StoreError + TaskId list \<times> 'b db" where
  "recover_interrupted c st now task_ids d =
     and_then (recover_tasks c st task_ids d) (\<lambda>(recovered, d1).
     and_then (recover_pages c st now (session_ids d1) d1) (\<lambda>d2. Inr (recovered, d2)))"

section \<open>Reading the journal\<close>

record ProviderCostSummary =
  pc_total :: UsdCost
  pc_uncertain :: bool

record cost_scan =
  cs_usage_calls :: "uuid btreeset"
  cs_receipts :: "(uuid, UsdCost option) btreemap"
  cs_uncertain :: bool

definition cost_command :: "cost_scan \<Rightarrow> 'b SessionCommand \<Rightarrow> cost_scan" where
  "cost_command x command =
     (case command of
        ProviderUsage _ (Some call) _ _ \<Rightarrow> x\<lparr>cs_usage_calls := bs_insert call (cs_usage_calls x)\<rparr>
      | ProviderUsage _ None _ _ \<Rightarrow> x\<lparr>cs_uncertain := True\<rparr>
      | ProviderCost _ call cost \<Rightarrow>
          (case bt_get (cs_receipts x) call of
             None \<Rightarrow> x\<lparr>cs_receipts := bt_insert call cost (cs_receipts x)\<rparr>
           | Some previous \<Rightarrow> if previous \<noteq> cost then x\<lparr>cs_uncertain := True\<rparr> else x)
      | _ \<Rightarrow> x)"

definition cost_event ::
    "('b, 'z) session_codec_scheme \<Rightarrow> cost_scan \<Rightarrow> 'b event_row \<Rightarrow> StoreError + cost_scan" where
  "cost_event c x r =
     and_then (map_err StoreJson (dec_session_event c (er_event r))) (\<lambda>event.
     Inr (case event of SessionCommandEvent _ command _ \<Rightarrow> cost_command x command | _ \<Rightarrow> x))"

definition add_cost :: "UsdCost \<times> bool \<Rightarrow> UsdCost option \<Rightarrow> UsdCost \<times> bool" where
  "add_cost acc cost =
     (case Option.bind cost (checked_add (fst acc)) of
        Some next_total \<Rightarrow> (next_total, snd acc) | None \<Rightarrow> (fst acc, True))"

definition session_cost ::
    "('b, 'z) session_codec_scheme \<Rightarrow> 'b db \<Rightarrow> SessionId \<Rightarrow> StoreError + ProviderCostSummary" where
  "session_cost c d i =
     and_then (try_fold (cost_event c) \<lparr>cs_usage_calls = [], cs_receipts = [], cs_uncertain = False\<rparr>
         (sort_key er_revision (session_rows i d))) (\<lambda>x.
     let missing = list_ex (\<lambda>call. \<not> bt_contains (cs_receipts x) call) (cs_usage_calls x);
         (sum_usd, uncertain) =
           foldl add_cost (0, cs_uncertain x \<or> missing) (bt_values (cs_receipts x))
     in Inr \<lparr>pc_total = sum_usd, pc_uncertain = uncertain\<rparr>)"

text \<open>\<open>sequence\<close> is the position of an event in the table, from one.\<close>

definition journal_head :: "'b db \<Rightarrow> u64" where
  "journal_head d = of_nat (length (db_events d))"

record JournalRecord =
  jr_sequence :: u64
  jr_aggregate :: uuid
  jr_kind :: string
  jr_revision :: u64
  jr_event :: json

definition MAX_JOURNAL_PAGE_BYTES :: nat where
  "MAX_JOURNAL_PAGE_BYTES = 4 * 1024 * 1024"

definition predecessor_hash ::
    "'b db \<Rightarrow> 'b event_row \<Rightarrow> u64 \<Rightarrow> StoreError + digest option" where
  "predecessor_hash d r revision =
     (if revision > 1 then
        (case List.find (\<lambda>x. er_aggregate x = er_aggregate r \<and> er_kind x = er_kind r
                \<and> er_revision x = uint (revision - 1)) (db_events d) of
           None \<Rightarrow> Inl (Integrity ''journal predecessor missing'')
         | Some x \<Rightarrow>
             and_then (map_err (\<lambda>_. Integrity ''invalid predecessor hash'') (digest_from_str (er_hash x)))
               (\<lambda>h. Inr (Some h)))
      else Inr None)"

text \<open>\<open>record_bytes\<close> is the length of a record's encoding.\<close>

definition journal_record ::
    "('b, 'z) session_codec_scheme \<Rightarrow> 'b db \<Rightarrow> nat \<times> 'b event_row \<Rightarrow> StoreError + JournalRecord" where
  "journal_record c d nr =
     (let (n, r) = nr in
      and_then (u64_of_i64 (er_revision r) (Integrity ''invalid journal revision'')) (\<lambda>revision.
      and_then (predecessor_hash d r revision) (\<lambda>previous.
      and_then (aggregate_hash c (er_kind r) (er_aggregate r) revision previous (er_event r)) (\<lambda>hash.
      if digest_to_string hash \<noteq> er_hash r then Inl (Integrity ''journal event integrity'') else
      and_then (map_err StoreJson (dec_json c (er_event r))) (\<lambda>event.
      Inr \<lparr>jr_sequence = of_nat n, jr_aggregate = er_aggregate r, jr_kind = kind_name (er_kind r),
           jr_revision = revision, jr_event = event\<rparr>)))))"

fun journal_fill ::
    "('b, 'z) session_codec_scheme \<Rightarrow> (JournalRecord \<Rightarrow> string + nat) \<Rightarrow> 'b db \<Rightarrow> JournalRecord list \<Rightarrow> nat \<Rightarrow>
     (nat \<times> 'b event_row) list \<Rightarrow> StoreError + JournalRecord list" where
  "journal_fill c record_bytes d records encoded [] = Inr records"
| "journal_fill c record_bytes d records encoded (nr # rows) =
     and_then (journal_record c d nr) (\<lambda>entry.
     and_then (map_err StoreJson (record_bytes entry)) (\<lambda>n.
     let separator = (if records = [] then 0 else 1) in
     if encoded + separator + n > MAX_JOURNAL_PAGE_BYTES then Inr records
     else journal_fill c record_bytes d (records @ [entry]) (encoded + separator + n) rows))"

definition journal_page ::
    "('b, 'z) session_codec_scheme \<Rightarrow> (JournalRecord \<Rightarrow> string + nat) \<Rightarrow> 'b db \<Rightarrow> u64 \<Rightarrow> nat \<Rightarrow>
     StoreError + JournalRecord list" where
  "journal_page c record_bytes d after limit =
     (if limit = 0 \<or> limit > 256 then Inl (Invalid ''journal page limit must be 1..256'') else
      and_then (i64_of_u64 after (Invalid ''cursor exceeds journal range'')) (\<lambda>_.
      journal_fill c record_bytes d [] 0
        (take limit (drop (unat after) (enumerate 1 (db_events d))))))"

end
