(* ===== verification/Session_Commands.thy ===== *)
theory Session_Commands
  imports Session_Store
begin

text \<open>
  What the session commands guarantee: every one keeps the sessions of the database consistent and
  touches one session only; a retried command is recognised; results for a superseded request are
  refused; outcomes and workspaces come from the task.
\<close>

section \<open>The database invariant\<close>

definition session_absent :: "'b db \<Rightarrow> SessionId \<Rightarrow> bool" where
  "session_absent d i \<longleftrightarrow>
     db_sessions d i = None \<and> session_rows i d = [] \<and>
     (\<forall>r \<in> set (db_checkpoints d). \<not> is_session_checkpoint i r)"

definition sessions_inv :: "('b, 'z) session_codec_scheme \<Rightarrow> 'b db \<Rightarrow> bool" where
  "sessions_inv c d \<longleftrightarrow> (\<forall>i. session_absent d i \<or> (\<exists>s h. session_ok c d i s h))"

lemma load_session_present:
  assumes "sessions_inv c d" and "load_session_state c d i n = Inr (s, h)"
  shows "\<exists>t g. session_ok c d i t g"
proof -
  have "\<not> session_absent d i"
    using assms(2) by (auto simp: session_absent_def load_session_state_def)
  with assms(1) show ?thesis by (auto simp: sessions_inv_def)
qed

lemma load_session_ok:
  assumes "sessions_inv c d" and "load_session_state c d i None = Inr (s, h)"
  shows "session_ok c d i s h"
  using load_session_present [OF assms] load_session_state_ok assms(2) by fastforce

lemma load_session_Inr: "load_session c d i = Inr s \<longleftrightarrow> (\<exists>h. load_session_state c d i None = Inr (s, h))"
  by (auto simp: load_session_def result_simps)

text \<open>An append leaves the sessions that do not exist alone, too.\<close>

lemma append_framed_absent:
  assumes "append_framed c operation command b s h d = Inr (s', h', d')"
    and "j \<noteq> se_id s" and "session_absent d j"
  shows "session_absent d' j"
  using assms(1)
proof (rule append_framed_Inr)
  fix sb
  assume ev: "db_events d' = db_events d @ [session_row (se_id s) (se_revision s') b h']"
    and ses: "db_sessions d' = (if db_sessions d (se_id s) = None then db_sessions d
      else (db_sessions d)(se_id s \<mapsto> \<lparr>ar_revision = uint (se_revision s'), ar_state = sb,
        ar_head = digest_to_string h'\<rparr>))"
    and cp: "\<And>r. r \<in> set (db_checkpoints d') \<Longrightarrow> r \<in> set (db_checkpoints d) \<or>
      r = \<lparr>cp_aggregate = session_uuid (se_id s), cp_kind = SessionAggregate,
           cp_revision = uint (se_revision s'), cp_state = sb, cp_head = digest_to_string h'\<rparr>"
  have "\<not> is_session_checkpoint j r" if "r \<in> set (db_checkpoints d')" for r
    using cp [OF that] assms(2,3) by (auto simp: session_absent_def is_session_checkpoint_def SessionId.expand)
  then show ?thesis
    using session_rows_append [OF ev, of j] ses assms(2,3) by (simp add: session_absent_def)
qed

lemma append_event_absent:
  assumes "append_event c now operation command shd = Inr shd'" and "j \<noteq> se_id (fst shd)"
    and "session_absent (snd (snd shd)) j"
  shows "session_absent (snd (snd shd')) j \<and> se_id (fst shd') = se_id (fst shd)"
proof -
  obtain s h d s' h' d' where eqs: "shd = (s, h, d)" "shd' = (s', h', d')"
    by (metis prod_cases3)
  obtain b where app: "append_framed c operation command b s h d = Inr (s', h', d')"
    using assms(1) by (auto simp: eqs append_event_def result_simps split: if_splits)
  moreover have "se_id s' = se_id s"
    using app by (rule append_framed_Inr) (auto intro: session_apply_id)
  ultimately show ?thesis
    using append_framed_absent [OF app] assms(2,3) by (simp add: eqs)
qed

lemma append_session_command_absent:
  assumes "append_session_command c now operation command (s, h, d) = Inr (s', h', d')"
    and "j \<noteq> se_id s" and "session_absent d j"
  shows "session_absent d' j"
  using assms(1)
proof (cases rule: append_session_command_cases)
  case (one b)
  show ?thesis by (rule append_framed_absent [OF one(2) assms(2,3)])
next
  case (framed request call out shd1)
  let ?P = "\<lambda>shd. session_absent (snd (snd shd)) j \<and> se_id (fst shd) = se_id s"
  have "?P shd1"
    using framed(2) unfolding append_parts_def
  proof (rule try_fold_invariant [where P = ?P])
    show "?P (s, h, d)" using assms(3) by simp
    show "?P acc'" if "?P acc" and "(case x of (offset, part) \<Rightarrow>
        append_event c now (new_v5 c operation (u64_le_bytes c (of_nat offset)))
          (ToolResultPart request call offset part) acc) = Inr acc'" for acc x acc'
      using that append_event_absent [of c now _ _ acc acc' j] assms(2) by (simp split: prod.splits)
  qed
  then show ?thesis
    using append_event_absent [OF framed(3), of j] assms(2) by simp
qed

lemma appended_sessions_inv:
  assumes inv: "sessions_inv c d" and ok: "session_ok c d i s h"
    and app: "append_session_command c now operation command (s, h, d) = Inr (s', h', d')"
    and owned: "call_owned s command"
  shows "sessions_inv c d'" and "session_ok c d' i s' h'" and "session_steps c s s'"
    and "extends_session c i d d'"
proof -
  note a = append_session_command_appended [OF ok app owned, unfolded appended_def, simplified]
  then show "session_ok c d' i s' h'" and "session_steps c s s'" and ext: "extends_session c i d d'"
    by simp_all
  have i: "se_id s = i"
    by (rule session_ok_facts(3) [OF ok])
  show "sessions_inv c d'"
    unfolding sessions_inv_def
  proof
    fix j
    show "session_absent d' j \<or> (\<exists>s h. session_ok c d' j s h)"
    proof (cases "j = i")
      case True
      with a show ?thesis by blast
    next
      case False
      then show ?thesis
        using inv ext append_session_command_absent [OF app, of j] i
        unfolding sessions_inv_def extends_session_def by blast
    qed
  qed
qed

section \<open>The guard\<close>

lemma session_guard_owned:
  "session_guard c st d s command = Inr () \<Longrightarrow> call_owned s command"
  by (cases command)
    (auto simp: session_guard_def call_owned_def check_interpreter_def live_cell_def bt_contains_def
      split: InterpreterEvent.splits if_splits option.splits)

lemma session_command_cases:
  assumes "session_ok c d i s h"
    and "session_command c st now i revision operation command d = Inr (s', d')"
  obtains (retried) "s' = s" and "d' = d"
      and "command_digest c command = Inr (the (bt_get (se_operations s) operation))"
      and "bt_contains (se_operations s) operation"
    | (recorded) h' where "bt_get (se_operations s) operation = None" and "se_revision s = revision"
      and "\<And>request. reporting_request command = Some request \<Longrightarrow> se_active_request s = Some request"
      and "session_guard c st d s command = Inr ()"
      and "append_session_command c now operation command (s, h, d) = Inr (s', h', d')"
  using assms(2) load_session_state_ok [OF assms(1)]
  by (cases "bt_get (se_operations s) operation")
    (auto simp: session_command_def result_simps bt_contains_def split: option.splits if_splits)

text \<open>Whatever a session command does is a sequence of recorded steps of that one session.\<close>

lemma session_command_ok:
  assumes "sessions_inv c d" and "session_ok c d i s h"
    and "session_command c st now i revision operation command d = Inr (s', d')"
  shows "sessions_inv c d'" and "\<exists>h'. session_ok c d' i s' h'" and "session_steps c s s'"
    and "extends_session c i d d'"
proof -
  have "sessions_inv c d' \<and> (\<exists>h'. session_ok c d' i s' h') \<and> session_steps c s s' \<and> extends_session c i d d'"
    using assms(2,3)
  proof (cases rule: session_command_cases)
    case retried
    then show ?thesis
      using assms(1,2) by (auto intro: session_steps.refl)
  next
    case (recorded h')
    show ?thesis
      using appended_sessions_inv [OF assms(1,2) recorded(5) session_guard_owned [OF recorded(4)]] by blast
  qed
  then show "sessions_inv c d'" and "\<exists>h'. session_ok c d' i s' h'" and "session_steps c s s'"
    and "extends_session c i d d'" by simp_all
qed

lemma session_command_present:
  assumes "sessions_inv c d" and "session_command c st now i revision operation command d = Inr (s', d')"
  obtains s h where "session_ok c d i s h"
  using assms load_session_present [OF assms(1), of i None]
  by (auto simp: session_command_def result_simps)

lemma session_command_inv:
  assumes "sessions_inv c d" and "session_command c st now i revision operation command d = Inr (s', d')"
  shows "sessions_inv c d'"
  using assms(2) by (rule session_command_present [OF assms(1)]) (rule session_command_ok(1) [OF assms(1) _ assms(2)])

section \<open>Creation\<close>

lemma insert_created_Inr:
  assumes "insert_created c i creation d = Inr (s, d')"
  obtains b h sb where "s = session_create i creation" and "session_bytes c (SessionCreated creation) b"
    and "session_hash c i 1 None b = Inr h" and "enc_session c s = Inr sb" and "db_sessions d i = None"
    and "db_sessions d' = (db_sessions d)(i \<mapsto> \<lparr>ar_revision = 1, ar_state = sb, ar_head = digest_to_string h\<rparr>)"
    and "db_events d' = db_events d @ [session_row i 1 b h]"
    and "db_checkpoints d' = filter (\<lambda>x. \<not> same_checkpoint \<lparr>cp_aggregate = session_uuid i,
        cp_kind = SessionAggregate, cp_revision = 1, cp_state = sb, cp_head = digest_to_string h\<rparr> x)
      (db_checkpoints d) @ [\<lparr>cp_aggregate = session_uuid i, cp_kind = SessionAggregate, cp_revision = 1,
        cp_state = sb, cp_head = digest_to_string h\<rparr>]"
    and "db_leases d' = db_leases d" and "db_tasks d' = db_tasks d"
proof -
  from assms obtain b h sb d1 d2 where facts: "s = session_create i creation"
      "session_bytes c (SessionCreated creation) b" "session_hash c i 1 None b = Inr h" "enc_session c s = Inr sb"
    and d1: "insert_session i \<lparr>ar_revision = 1, ar_state = sb, ar_head = digest_to_string h\<rparr> d = Inr d1"
    and d2: "insert_event (session_row i 1 b h) d1 = Inr d2"
    and d3: "store_session_checkpoint c i 1 s h d2 = Inr d'"
    by (auto simp: insert_created_def Let_def result_simps session_bytes_def session_hash_def session_row_def
        not_less split: if_splits)
  from d1 have none: "db_sessions d i = None"
    and d1': "d1 = d\<lparr>db_sessions := (db_sessions d)(i \<mapsto> \<lparr>ar_revision = 1, ar_state = sb,
      ar_head = digest_to_string h\<rparr>)\<rparr>"
    by (auto simp: insert_session_def split: if_splits)
  from d3 facts(4) have d': "d' = replace_checkpoint \<lparr>cp_aggregate = session_uuid i,
      cp_kind = SessionAggregate, cp_revision = 1, cp_state = sb, cp_head = digest_to_string h\<rparr> d2"
    by (auto simp: store_session_checkpoint_def i64_of_u64_def)
  show thesis
    by (rule that [OF facts none]) (simp_all add: d' d1' insert_event_Inr [OF d2] replace_checkpoint_def)
qed

lemma insert_created_ok:
  assumes c: "session_codec_ok c" and inv: "sessions_inv c d"
    and ins: "insert_created c i creation d = Inr (s, d')"
  shows "sessions_inv c d'" and "\<exists>h. session_ok c d' i s h" and "task_part_eq d d'"
    and "s = session_create i creation" and "j \<noteq> i \<Longrightarrow> session_ok c d j t g \<Longrightarrow> session_ok c d' j t g"
proof -
  from ins obtain b h sb where s: "s = session_create i creation" and b: "session_bytes c (SessionCreated creation) b"
    and h: "session_hash c i 1 None b = Inr h" and sb: "enc_session c s = Inr sb" and none: "db_sessions d i = None"
    and ses: "db_sessions d' = (db_sessions d)(i \<mapsto> \<lparr>ar_revision = 1, ar_state = sb, ar_head = digest_to_string h\<rparr>)"
    and ev: "db_events d' = db_events d @ [session_row i 1 b h]"
    and cp: "db_checkpoints d' = filter (\<lambda>x. \<not> same_checkpoint \<lparr>cp_aggregate = session_uuid i,
        cp_kind = SessionAggregate, cp_revision = 1, cp_state = sb, cp_head = digest_to_string h\<rparr> x)
      (db_checkpoints d) @ [\<lparr>cp_aggregate = session_uuid i, cp_kind = SessionAggregate, cp_revision = 1,
        cp_state = sb, cp_head = digest_to_string h\<rparr>]"
    and same: "db_leases d' = db_leases d" "db_tasks d' = db_tasks d"
    by (rule insert_created_Inr) blast
  show "s = session_create i creation" by (fact s)
  have absent: "session_absent d i"
    using inv none by (auto simp: sessions_inv_def session_ok_def)
  have rows: "session_rows i d' = [session_row i 1 b h]"
    using session_rows_append [OF ev, of i] absent by (simp add: session_absent_def)
  have j: "session_journal c i (session_rows i d') s h"
    unfolding rows s by (rule session_journal.start [OF b h])
  have "session_checkpoint_ok c i (session_rows i d') r"
    if "r \<in> set (db_checkpoints d')" "is_session_checkpoint i r" for r
  proof -
    have "r = \<lparr>cp_aggregate = session_uuid i, cp_kind = SessionAggregate, cp_revision = 1, cp_state = sb,
           cp_head = digest_to_string h\<rparr>"
      using that absent by (auto simp: cp session_absent_def)
    then show ?thesis
      using j sb unfolding session_checkpoint_ok_def rows
      by (intro exI [of _ 1] exI [of _ s] exI [of _ h]) simp
  qed
  then have ok: "session_ok c d' i s h"
    using c j ses sb by (auto simp: session_ok_def session_row_ok_def s)
  then show "\<exists>h. session_ok c d' i s h" ..
  show "task_part_eq d d'"
    using same ev by (auto simp: task_part_eq_def task_events_def session_row_def cp same_checkpoint_def)
  have other: "session_rows j d' = session_rows j d" "db_sessions d' j = db_sessions d j" if "j \<noteq> i" for j
    using session_rows_append [OF ev, of j] ses that by simp_all
  have cps: "r \<in> set (db_checkpoints d)"
    if "r \<in> set (db_checkpoints d')" "is_session_checkpoint j r" "j \<noteq> i" for r j
    using that by (auto simp: cp is_session_checkpoint_def SessionId.expand)
  show frame: "session_ok c d' j t g" if "j \<noteq> i" "session_ok c d j t g" for j t g
    using that other [OF that(1)] cps by (auto simp: session_ok_def)
  have "session_absent d' j" if "j \<noteq> i" "session_absent d j" for j
    using that other [OF that(1)] cps by (auto simp: session_absent_def)
  then show "sessions_inv c d'"
    using inv ok frame unfolding sessions_inv_def by metis
qed

lemma create_session_seeded_cases:
  assumes "create_session_seeded c st at_ms i config admission parent seed fresh d = Inr (s, d')"
  obtains (existing) "d' = d" and "load_session c d i = Inr s" and "se_initial_config s = config"
      and "se_admission s = Some admission" and "se_parent s = parent"
    | (new) history imported workspace where
      "creation_seed c d admission parent seed fresh = Inr (history, imported, workspace)"
      and "insert_created c i
        \<lparr>sn_branch = \<lparr>br_workspace = workspace, br_fresh_context = fresh, br_pending_task = None,
           br_pending_shell = None\<rparr>, sn_config = config, sn_admission = Some admission, sn_parent = parent,
         sn_history = history, sn_started_ms = at_ms, sn_imported = imported\<rparr> d = Inr (s, d')"
  using assms
  by (auto simp: create_session_seeded_def result_simps split: if_splits sum.splits StoreError.splits)

lemma create_session_seeded_ok:
  assumes "session_codec_ok c" and "sessions_inv c d"
    and "create_session_seeded c st at_ms i config admission parent seed fresh d = Inr (s, d')"
  shows "sessions_inv c d'" and "\<exists>h. session_ok c d' i s h" and "task_part_eq d d'"
    and "se_initial_config s = config \<and> se_admission s = Some admission \<and> se_parent s = parent"
proof -
  have "sessions_inv c d' \<and> (\<exists>h. session_ok c d' i s h) \<and> task_part_eq d d' \<and>
      se_initial_config s = config \<and> se_admission s = Some admission \<and> se_parent s = parent"
    using assms(3)
  proof (cases rule: create_session_seeded_cases)
    case existing
    then show ?thesis
      using assms(2) load_session_ok [OF assms(2)] by (auto simp: load_session_Inr)
  next
    case (new history imported workspace)
    show ?thesis
      using insert_created_ok(1-4) [OF assms(1,2) new(2)] by (auto simp: session_create_def)
  qed
  then show "sessions_inv c d'" and "\<exists>h. session_ok c d' i s h" and "task_part_eq d d'"
    and "se_initial_config s = config \<and> se_admission s = Some admission \<and> se_parent s = parent"
    by simp_all
qed

text \<open>A fork takes the settled state its cursor selects.\<close>

lemma creation_seed_fork:
  assumes "creation_seed c d admission (Some u) seed fresh = Inr (history, imported, workspace)"
  obtains p h where "load_session_state c d (cu_session u) (Some (cu_revision u)) = Inr (p, h)"
    and "se_active_request p = None" and "se_admission p = Some admission"
    and "br_pending_task (se_branch p) = None" and "br_pending_shell (se_branch p) = None"
    and "history = (if fresh then [] else se_history p)" and "workspace = br_workspace (se_branch p)"
    and "imported = se_imported p"
  using assms by (auto simp: creation_seed_def result_simps split: option.splits if_splits)

section \<open>Retries\<close>

lemma append_session_command_fingerprint:
  assumes "session_ok c d i s h"
    and "append_session_command c now operation command (s, h, d) = Inr (s', h', d')"
    and "\<not> (\<exists>r call x. command = ToolResultEnd r call x)"
    and "\<And>r call out. command = ToolResult r call out \<Longrightarrow>
      utf8_shape out \<and> \<not> bt_contains (se_tool_output_buffers s) call"
  shows "\<exists>fp. command_digest c command = Inr fp \<and> bt_get (se_operations s') operation = Some fp"
  using assms(2)
proof (cases rule: append_session_command_cases)
  case (one b)
  from one(2) have "session_apply c operation command s = Inr s'"
    by (rule append_framed_Inr)
  from session_apply_fingerprint [OF this assms(3)] show ?thesis
    by auto
next
  case (framed request call out shd1)
  have maps: "session_maps_ok s"
    using session_ok_facts(5) [OF assms(1)] by (simp add: session_inv_def)
  obtain s0 where s0: "session_apply c operation (ToolResult request call out) s = Inr s0"
    and ops: "bt_get (se_operations s') operation = bt_get (se_operations s0) operation"
    using append_framed_result [OF framed(2,3) _ maps] assms(4) [OF framed(1)] by blast
  from session_apply_fingerprint [OF s0] ops show ?thesis
    by (auto simp: framed(1))
qed

lemma session_command_retry:
  assumes "sessions_inv c d" and "session_ok c d i s h"
    and "session_command c st now i revision operation command d = Inr (s', d')"
    and "\<not> (\<exists>r call x. command = ToolResultEnd r call x)"
    and "\<And>r call out. command = ToolResult r call out \<Longrightarrow>
      utf8_shape out \<and> \<not> bt_contains (se_tool_output_buffers s) call"
  shows "session_command c st' now' i revision' operation command d' = Inr (s', d')"
proof -
  obtain h' where ok': "session_ok c d' i s' h'"
    using session_command_ok(2) [OF assms(1-3)] by blast
  have "\<exists>fp. command_digest c command = Inr fp \<and> bt_get (se_operations s') operation = Some fp"
    using assms(2,3)
  proof (cases rule: session_command_cases)
    case retried
    then show ?thesis by (auto simp: bt_contains_def)
  next
    case (recorded h'')
    show ?thesis
      by (rule append_session_command_fingerprint [OF assms(2) recorded(5) assms(4,5)])
  qed
  then show ?thesis
    using load_session_state_ok [OF ok'] by (auto simp: session_command_def)
qed

section \<open>Recovery\<close>

lemma turn_settled_idle:
  "session_apply c operation (TurnSettled request outcome err) s = Inr s' \<Longrightarrow>
     se_active_request s' = None \<and> se_outcome s' = outcome \<and> se_error s' = err"
  by (auto simp: session_apply_def session_record_Inr session_arm_def session_tail_def Let_def)

lemma append_one:
  assumes "append_session_command c now operation command (s, h, d) = Inr (s', h', d')"
    and "\<not> (\<exists>r call out. command = ToolResult r call out)"
  shows "session_apply c operation command s = Inr s'"
  using assms(1)
proof (cases rule: append_session_command_cases)
  case (one b)
  from one(2) show ?thesis by (rule append_framed_Inr)
next
  case framed
  with assms(2) show ?thesis by blast
qed

definition recovery_operation :: "('b, 'z) session_codec_scheme \<Rightarrow> uuid \<Rightarrow> uuid" where
  "recovery_operation c request = new_v5 c request ''host-recovered''"

text \<open>Recovery has not been recorded for the request that is still active.\<close>

definition recoverable :: "('b, 'z) session_codec_scheme \<Rightarrow> 'b SessionState \<Rightarrow> bool" where
  "recoverable c s \<longleftrightarrow>
     (\<forall>request. se_active_request s = Some request \<longrightarrow>
        \<not> bt_contains (se_operations s) (recovery_operation c request))"

lemma recover_session_ok:
  assumes inv: "sessions_inv c d" and ok: "session_ok c d i s h" and r: "recoverable c s"
    and rec: "recover_session c st now d s = Inr d'"
  shows "sessions_inv c d'" and "extends_session c i d d'"
    and "\<exists>s' h'. session_ok c d' i s' h' \<and> session_steps c s s' \<and> se_active_request s' = None"
proof -
  have i: "se_id s = i"
    by (rule session_ok_facts(3) [OF ok])
  have "sessions_inv c d' \<and> extends_session c i d d' \<and>
      (\<exists>s' h'. session_ok c d' i s' h' \<and> session_steps c s s' \<and> se_active_request s' = None)"
  proof (cases "se_active_request s")
    case None
    with rec inv ok show ?thesis
      by (auto simp: recover_session_def intro: session_steps.refl)
  next
    case (Some request)
    from rec Some obtain outcome s' where
      cmd: "session_command c st now i (se_revision s) (recovery_operation c request)
        (TurnSettled request outcome (Some recovery_error)) d = Inr (s', d')"
      by (auto simp: recover_session_def result_simps i recovery_operation_def)
    note k = session_command_ok [OF inv ok cmd]
    have "se_active_request s' = None"
      using ok cmd
    proof (cases rule: session_command_cases)
      case retried
      with r Some show ?thesis by (simp add: recoverable_def)
    next
      case (recorded h')
      show ?thesis
        using turn_settled_idle [OF append_one [OF recorded(5)]] by simp
    qed
    with k show ?thesis by blast
  qed
  then show "sessions_inv c d'" and "extends_session c i d d'"
    and "\<exists>s' h'. session_ok c d' i s' h' \<and> session_steps c s s' \<and> se_active_request s' = None"
    by simp_all
qed

text \<open>Sessions of a list that recovery leaves idle, and the others as they were.\<close>

definition recovered_in ::
    "('b, 'z) session_codec_scheme \<Rightarrow> SessionId set \<Rightarrow> 'b db \<Rightarrow> 'b db \<Rightarrow> bool" where
  "recovered_in c ids d d' \<longleftrightarrow> sessions_inv c d' \<and> task_part_eq d d' \<and>
     (\<forall>j t g. session_ok c d j t g \<longrightarrow>
        (if j \<in> ids then \<exists>t' g'. session_ok c d' j t' g' \<and> session_steps c t t' \<and> se_active_request t' = None
         else session_ok c d' j t g))"

lemma recover_states_ok:
  assumes "sessions_inv c d" and "try_fold (recover_session c st now) d states = Inr d'"
    and "list_all2 (\<lambda>i s. \<exists>h. session_ok c d i s h) ids states" and "distinct ids"
    and "\<forall>s \<in> set states. recoverable c s"
  shows "recovered_in c (set ids) d d'"
  using assms
proof (induction ids arbitrary: states d)
  case Nil
  then show ?case by (simp add: recovered_in_def)
next
  case (Cons i ids)
  then obtain s rest h where states: "states = s # rest" and ok: "session_ok c d i s h"
    and oks: "list_all2 (\<lambda>i s. \<exists>h. session_ok c d i s h) ids rest"
    by (auto simp: list_all2_Cons1)
  then obtain d1 where one: "recover_session c st now d s = Inr d1"
    and fold: "try_fold (recover_session c st now) d1 rest = Inr d'"
    using Cons.prems(2) by (auto simp: result_simps)
  note r = recover_session_ok [OF Cons.prems(1) ok _ one]
  have rs: "recoverable c s" using Cons.prems(5) states by simp
  from r(3) [OF rs] obtain s' h' where s': "session_ok c d1 i s' h'" "session_steps c s s'"
    "se_active_request s' = None" by blast
  have frame: "session_ok c d1 j t g" if "j \<noteq> i" "session_ok c d j t g" for j t g
    using r(2) [OF rs] that by (auto simp: extends_session_def)
  have "list_all2 (\<lambda>i s. \<exists>h. session_ok c d1 i s h) ids rest"
    using oks by (rule list.rel_mono_strong) (use frame Cons.prems(4) in \<open>simp, metis\<close>)
  then have IH: "recovered_in c (set ids) d1 d'"
    using Cons.IH [OF r(1) [OF rs] fold] Cons.prems(4,5) states by simp
  have "task_part_eq d d1"
    using r(2) [OF rs] by (simp add: extends_session_def)
  moreover have "i \<notin> set ids"
    using Cons.prems(4) by simp
  moreover have "t = s \<and> g = h" if "session_ok c d i t g" for t g
    using load_session_state_ok [OF that] load_session_state_ok [OF ok] by simp
  ultimately show ?case
    using IH s' frame unfolding recovered_in_def
    by (auto intro: task_part_eq_trans) metis+
qed

lemma list_all2_set2: "list_all2 P xs ys \<Longrightarrow> y \<in> set ys \<Longrightarrow> \<exists>x \<in> set xs. P x y"
  by (induction rule: list_all2_induct) auto

lemma load_each_states:
  assumes "sessions_inv c d" and "load_each c d ids = Inr states"
  shows "list_all2 (\<lambda>i s. \<exists>h. session_ok c d i s h) ids states"
proof -
  have "list_all2 (\<lambda>i s. \<exists>h. session_ok c d i s h) (done @ ids) states"
    if "try_fold (\<lambda>acc i. and_then (load_session c d i) (\<lambda>s. Inr (acc @ [s]))) acc ids = Inr states"
      and "list_all2 (\<lambda>i s. \<exists>h. session_ok c d i s h) done acc" for acc "done"
    using that
  proof (induction ids arbitrary: acc "done")
    case Nil
    then show ?case by simp
  next
    case (Cons i ids)
    then obtain s where s: "load_session c d i = Inr s"
      and rest: "try_fold (\<lambda>acc i. and_then (load_session c d i) (\<lambda>s. Inr (acc @ [s]))) (acc @ [s]) ids = Inr states"
      by (auto simp: result_simps)
    have "\<exists>h. session_ok c d i s h"
      using s load_session_ok [OF assms(1)] by (auto simp: load_session_Inr)
    then have "list_all2 (\<lambda>i s. \<exists>h. session_ok c d i s h) (done @ [i]) (acc @ [s])"
      using Cons.prems(2) by (simp add: list_all2_appendI)
    from Cons.IH [OF rest this] show ?case by simp
  qed
  from this [of "[]" "[]"] show ?thesis
    using assms(2) by (simp add: load_each_def)
qed

lemma recovered_in_trans:
  assumes "recovered_in c A d d1" and "recovered_in c B d1 d2" and "A \<inter> B = {}"
  shows "recovered_in c (A \<union> B) d d2"
  unfolding recovered_in_def
proof (intro conjI allI impI)
  show "sessions_inv c d2" and "task_part_eq d d2"
    using assms(1,2) by (auto simp: recovered_in_def intro: task_part_eq_trans)
  fix j t g
  assume ok: "session_ok c d j t g"
  consider "j \<in> A" | "j \<in> B" "j \<notin> A" | "j \<notin> A" "j \<notin> B" by blast
  then show "if j \<in> A \<union> B
      then \<exists>t' g'. session_ok c d2 j t' g' \<and> session_steps c t t' \<and> se_active_request t' = None
      else session_ok c d2 j t g"
  proof cases
    case 1
    with assms(1) ok obtain t' g' where "session_ok c d1 j t' g'" "session_steps c t t'" "se_active_request t' = None"
      by (fastforce simp: recovered_in_def)
    moreover from 1 assms(3) have "j \<notin> B" by blast
    ultimately have "session_ok c d2 j t' g'"
      using assms(2) by (auto simp: recovered_in_def)
    then show ?thesis
      using 1 \<open>session_steps c t t'\<close> \<open>se_active_request t' = None\<close> by auto
  next
    case 2
    then have "session_ok c d1 j t g"
      using assms(1) ok by (auto simp: recovered_in_def)
    then show ?thesis
      using 2 assms(2) by (fastforce simp: recovered_in_def)
  next
    case 3
    then show ?thesis
      using assms(1,2) ok by (auto simp: recovered_in_def)
  qed
qed

lemma recover_pages_ok:
  assumes "sessions_inv c d" and "recover_pages c st now ids d = Inr d'" and "distinct ids"
    and "\<And>i. i \<in> set ids \<Longrightarrow> \<exists>s h. session_ok c d i s h \<and> recoverable c s"
  shows "recovered_in c (set ids) d d'"
  using assms
proof (induction c st now ids d rule: recover_pages.induct)
  case (1 c st now ids d)
  show ?case
  proof (cases "ids = []")
    case True
    then have "d' = d"
      using "1.prems"(2) by (simp add: recover_pages.simps [of c st now "[]"])
    with True "1.prems"(1) show ?thesis
      by (simp add: recovered_in_def)
  next
    case False
    with "1.prems"(2) obtain states d1 where load: "load_each c d (take 64 ids) = Inr states"
      and fold: "try_fold (recover_session c st now) d states = Inr d1"
      and rest: "recover_pages c st now (drop 64 ids) d1 = Inr d'"
      by (subst (asm) recover_pages.simps) (auto simp: result_simps)
    note oks = load_each_states [OF "1.prems"(1) load]
    have "recoverable c s" if s: "s \<in> set states" for s
    proof -
      obtain i h where "i \<in> set (take 64 ids)" and ok: "session_ok c d i s h"
        using list_all2_set2 [OF oks] s by blast
      then have "i \<in> set ids"
        by (blast dest: in_set_takeD)
      then obtain t g where "session_ok c d i t g" "recoverable c t"
        using "1.prems"(4) by blast
      with ok show ?thesis
        using load_session_state_ok [OF ok] load_session_state_ok [of c d i t g] by simp
    qed
    then have page: "recovered_in c (set (take 64 ids)) d d1"
      using recover_states_ok [OF "1.prems"(1) fold oks] "1.prems"(3) by simp
    have split: "set (take 64 ids) \<inter> set (drop 64 ids) = {}"
      by (rule set_take_disj_set_drop_if_distinct [OF "1.prems"(3)]) simp
    have "\<exists>s h. session_ok c d1 i s h \<and> recoverable c s" if i: "i \<in> set (drop 64 ids)" for i
    proof -
      have "i \<notin> set (take 64 ids)" and "i \<in> set ids"
        using i split by (auto dest: in_set_dropD)
      then show ?thesis
        using "1.prems"(4) page unfolding recovered_in_def by metis
    qed
    then have "recovered_in c (set (drop 64 ids)) d1 d'"
      using "1.IH" [OF False load fold _ rest] page "1.prems"(3) by (simp add: recovered_in_def [of c _ d d1])
    from recovered_in_trans [OF page this split] show ?thesis
      by (metis append_take_drop_id set_append)
  qed
qed

section \<open>Tool proposals\<close>

lemma check_proposed_calls:
  assumes "try_fold (check_proposed_call s) seen xs = Inr seen'" and "\<forall>x \<in> set xs. function_call x"
  shows "distinct (proposed_calls xs) \<and> set (proposed_calls xs) \<inter> set seen = {} \<and>
    length (proposed_calls xs) = length xs \<and>
    (\<forall>call \<in> set (proposed_calls xs). \<not> (\<exists>x \<in> set (se_history s).
       function_call x \<and> json_index x ''call_id'' = JString call))"
  using assms
proof (induction xs arbitrary: seen)
  case Nil
  then show ?case by (simp add: proposed_calls_def)
next
  case (Cons x xs)
  from Cons.prems(1) obtain call where call: "as_str (json_index x ''call_id'') = Some call"
    and new: "call \<notin> set seen" "\<not> (\<exists>y \<in> set (se_history s). function_call y \<and> json_index y ''call_id'' = JString call)"
    and rest: "try_fold (check_proposed_call s) (bs_insert call seen) xs = Inr seen'"
    by (auto simp: check_proposed_call_def [of s seen x] result_simps list_ex_iff split: option.splits if_splits)
  have "proposed_calls (x # xs) = call # proposed_calls xs"
    using Cons.prems(2) call by (simp add: proposed_calls_def)
  with Cons.IH [OF rest] Cons.prems(2) new show ?case
    by auto
qed

lemma proposed_calls_filter: "proposed_calls (filter function_call items) = proposed_calls items"
  by (simp add: proposed_calls_def)

lemma check_response_Inr:
  assumes "check_response s items = Inr ()"
  shows "distinct (proposed_calls items)"
    and "call \<in> set (proposed_calls items) \<Longrightarrow> \<not> bt_contains (se_tool_calls s) call"
    and "call \<in> set (proposed_calls items) \<Longrightarrow> \<not> (\<exists>x \<in> set (se_history s).
       function_call x \<and> json_index x ''call_id'' = JString call)"
    and "length items \<le> 256" and "length (proposed_calls items) \<le> 64"
proof -
  from assms obtain seen' where
    "try_fold (check_proposed_call s) (bs_collect (bt_keys (se_tool_calls s))) (filter function_call items) = Inr seen'"
    and lim: "length items \<le> 256" "length (filter function_call items) \<le> 64"
    by (auto simp: check_response_def result_simps split: if_splits)
  from check_proposed_calls [OF this(1)] have
    p: "distinct (proposed_calls items)" "set (proposed_calls items) \<inter> set (bt_keys (se_tool_calls s)) = {}"
      "length (proposed_calls items) = length (filter function_call items)"
      "\<forall>call \<in> set (proposed_calls items). \<not> (\<exists>x \<in> set (se_history s).
         function_call x \<and> json_index x ''call_id'' = JString call)"
    by (simp_all add: proposed_calls_filter)
  show "distinct (proposed_calls items)" and "length items \<le> 256" and "length (proposed_calls items) \<le> 64"
    using p lim by simp_all
  show "call \<in> set (proposed_calls items) \<Longrightarrow> \<not> bt_contains (se_tool_calls s) call"
    using p(2) by (auto simp: bt_contains_iff bt_keys_def)
  show "call \<in> set (proposed_calls items) \<Longrightarrow> \<not> (\<exists>x \<in> set (se_history s).
       function_call x \<and> json_index x ''call_id'' = JString call)"
    using p(4) by blast
qed

lemma foldl_bt_insert_get:
  "bt_get (foldl (\<lambda>m k. bt_insert k v m) m ks) k = (if k \<in> set ks then Some v else bt_get m k)"
  by (induction ks arbitrary: m) (auto simp: bt_get_insert)

lemma response_pending:
  assumes "session_apply c operation (Response request items) s = Inr s'"
  shows "pending_tool_call s' call request' \<longleftrightarrow>
    (if call \<in> set (proposed_calls items) then request' = request else pending_tool_call s call request')"
proof -
  from assms have "se_tool_calls s' = foldl (\<lambda>calls i. bt_insert i \<lparr>tc_request = request, tc_output = None\<rparr> calls)
      (se_tool_calls s) (proposed_calls items)"
    by (auto simp: session_apply_def session_record_Inr session_arm_def apply_response_def session_tail_def Let_def)
  then show ?thesis
    by (auto simp: pending_tool_call_def foldl_bt_insert_get)
qed

section \<open>Branches\<close>

text \<open>An earlier state of a session leads to every later one.\<close>

lemma session_journal_steps:
  "session_journal c i rows s h \<Longrightarrow> session_codec_ok c \<Longrightarrow> session_journal c i (take k rows) sk hk \<Longrightarrow>
     session_steps c sk s"
proof (induction rule: session_journal.induct)
  case (start creation b h)
  have "take k [session_row i 1 b h] \<noteq> []"
    using session_journal_facts [OF start(4)] by blast
  then have "take k [session_row i 1 b h] = [session_row i 1 b h]"
    by (cases k) auto
  with start session_journal_unique [OF start(3) session_journal.start [OF start(1,2)], of sk hk] show ?case
    by (auto intro: session_steps.refl)
next
  case (step rows s h operation command at_ms b s' h')
  show ?case
  proof (cases "k \<le> length rows")
    case True
    then show ?thesis
      using step by (auto intro: session_steps.step)
  next
    case False
    then show ?thesis
      using step.prems session_journal_unique [OF step.prems(1) session_journal.step [OF step.hyps], of sk hk]
      by (auto intro: session_steps.refl)
  qed
qed

lemma load_past_steps:
  assumes "session_ok c d i s h" and "load_session_state c d i (Some n) = Inr (t, g)"
  shows "session_steps c t s" and "se_id t = i" and "se_revision t = n"
proof -
  note f = session_ok_facts [OF assms(1)]
  have n: "0 < unat n" "unat n \<le> length (session_rows i d)"
  proof -
    from assms(1) obtain row where "db_sessions d i = Some row" "ar_revision row = uint (se_revision s)"
      by (auto simp: session_ok_def session_row_ok_def)
    with assms(2) have "n \<noteq> 0" "n \<le> se_revision s"
      by (auto simp: load_session_state_def Let_def not_less split: if_splits)
    then show "0 < unat n" and "unat n \<le> length (session_rows i d)"
      using f(1) by (auto simp: word_le_nat_alt unat_gt_0)
  qed
  have j: "session_journal c i (session_rows i d) s h" and c: "session_codec_ok c"
    using assms(1) by (simp_all add: session_ok_def)
  obtain sn hn where part: "session_journal c i (take (unat n) (session_rows i d)) sn hn"
    using session_journal_prefix [OF j n] by blast
  have t: "t = sn" "g = hn"
    using load_session_through [OF assms(1) n part] assms(2) by simp_all
  show "session_steps c t s"
    unfolding t by (rule session_journal_steps [OF j c part])
  have "unat (se_revision t) = unat n" and "se_id t = i"
    using session_journal_facts [OF part] n(2) unfolding t by simp_all
  then show "se_revision t = n" and "se_id t = i"
    by (simp_all add: word_unat_eq_iff)
qed

inductive branch_of :: "('b, 'z) session_codec_scheme \<Rightarrow> 'b db \<Rightarrow> 'b SessionState \<Rightarrow> 'b SessionState \<Rightarrow> bool"
  for c :: "('b, 'z) session_codec_scheme" and d :: "'b db" where
  self: "branch_of c d s s"
| parent: "branch_of c d s t \<Longrightarrow> se_parent t = Some u \<Longrightarrow> load_session_cursor c d u = Inr v \<Longrightarrow> branch_of c d s v"

lemma load_session_cursor_Inr:
  assumes "sessions_inv c d" and "load_session_cursor c d u = Inr s"
  shows "cu_version u = 1" and "se_id s = cu_session u" and "se_revision s = cu_revision u"
    and "se_admission s \<noteq> None"
proof -
  from assms(2) obtain g where load: "load_session_state c d (cu_session u) (Some (cu_revision u)) = Inr (s, g)"
    and "cu_version u = 1" "se_admission s \<noteq> None"
    by (auto simp: load_session_cursor_def result_simps split: if_splits)
  then show "cu_version u = 1" and "se_admission s \<noteq> None" by simp_all
  obtain t h where "session_ok c d (cu_session u) t h"
    using load_session_present [OF assms(1) load] by blast
  from load_past_steps(2,3) [OF this load] show "se_id s = cu_session u" and "se_revision s = cu_revision u"
    by simp_all
qed

lemma scoped_from_branch:
  assumes "sessions_inv c d" and "scoped_from n c d scope source revision = Inr s" and "branch_of c d t scope"
  shows "\<exists>v. branch_of c d t v \<and> se_id v = source \<and> se_id s = source \<and> se_revision s \<le> se_revision v \<and>
    (\<forall>r. revision = Some r \<longrightarrow> se_revision s = r)"
  using assms(2,3)
proof (induction n arbitrary: scope)
  case 0
  then show ?case by simp
next
  case (Suc n)
  show ?case
  proof (cases "se_id scope = source")
    case True
    with Suc.prems(1) obtain r where le: "r \<le> se_revision scope"
      and r: "r = (case revision of None \<Rightarrow> se_revision scope | Some r \<Rightarrow> r)"
      and load: "load_session_cursor c d \<lparr>cu_version = 1, cu_session = source, cu_revision = r\<rparr> = Inr s"
      by (auto simp: Let_def not_less split: if_splits)
    from load_session_cursor_Inr [OF assms(1) load] le r True Suc.prems(2) show ?thesis
      by (intro exI [of _ scope]) (auto split: option.splits)
  next
    case False
    with Suc.prems(1) obtain u scope' where "se_parent scope = Some u" "load_session_cursor c d u = Inr scope'"
      and rest: "scoped_from n c d scope' source revision = Inr s"
      by (auto simp: result_simps)
    then have "branch_of c d t scope'"
      using Suc.prems(2) by (blast intro: branch_of.parent)
    from Suc.IH [OF rest this] show ?thesis .
  qed
qed

section \<open>Lineage\<close>

definition known_sessions :: "'b db \<Rightarrow> SessionId set" where
  "known_sessions d = (\<lambda>r. SessionId (er_aggregate r)) ` set (db_events d)"

lemma loaded_known:
  assumes "sessions_inv c d" and "load_session c d i = Inr s"
  shows "i \<in> known_sessions d"
proof -
  from assms(2) obtain h where "load_session_state c d i None = Inr (s, h)"
    by (auto simp: load_session_Inr)
  from load_session_ok [OF assms(1) this] have "session_rows i d \<noteq> []"
    by (rule session_ok_facts(4))
  then obtain r where "r \<in> set (db_events d)" "er_aggregate r = session_uuid i"
    by (auto simp: session_rows_def filter_empty_conv)
  then show ?thesis
    by (force simp: known_sessions_def)
qed

lemma lineage_from_enough:
  assumes "sessions_inv c d" and "card (known_sessions d - set visited) < n"
  shows "\<exists>r. lineage_from n c d lineage visited s = Some r"
  using assms(2)
proof (induction n arbitrary: lineage visited s)
  case 0
  then show ?case by simp
next
  case (Suc n)
  show ?case
  proof (cases "\<exists>u s'. se_parent s = Some u \<and> cu_session u \<notin> set visited \<and> load_session c d (cu_session u) = Inr s'")
    case True
    then obtain u s' where u: "se_parent s = Some u" "cu_session u \<notin> set visited"
      "load_session c d (cu_session u) = Inr s'" by blast
    have "known_sessions d - set (cu_session u # visited) \<subset> known_sessions d - set visited"
      using loaded_known [OF assms(1) u(3)] u(2) by auto
    then have "card (known_sessions d - set (cu_session u # visited)) < card (known_sessions d - set visited)"
      by (intro psubset_card_mono) (auto simp: known_sessions_def)
    then have "card (known_sessions d - set (cu_session u # visited)) < n"
      using Suc.prems by linarith
    from Suc.IH [OF this] u show ?thesis by simp
  next
    case False
    then show ?thesis
      by (auto split: option.splits sum.splits)
  qed
qed

lemma known_sessions_card: "card (known_sessions d - A) \<le> length (db_events d)"
proof -
  have "card (known_sessions d - A) \<le> card (known_sessions d)"
    by (rule card_mono) (auto simp: known_sessions_def)
  also have "\<dots> \<le> card (set (db_events d))"
    by (simp add: known_sessions_def card_image_le)
  also have "\<dots> \<le> length (db_events d)"
    by (rule card_length)
  finally show ?thesis .
qed

section \<open>When a command succeeds\<close>

text \<open>Once the encodings of its event and of the next state exist, appending a command succeeds.\<close>

lemma append_framed_total:
  assumes ok: "session_ok c d i s h" and applied: "session_apply c operation command s = Inr s'"
    and bytes: "session_bytes c (SessionCommandEvent operation command at_ms) b" and owned: "call_owned s command"
    and hash: "session_hash c i (se_revision s') (Some h) b = Inr h'"
    and small: "unat (se_revision s') < 2 ^ 63" and sb: "enc_session c s' = Inr sb"
  shows "\<exists>d'. append_framed c operation command b s h d = Inr (s', h', d')"
proof -
  have j: "session_journal c i (session_rows i d) s h"
    using ok by (simp add: session_ok_def)
  have "session_journal c i (session_rows i d @ [session_row i (se_revision s') b h']) s' h'"
    by (rule session_journal.step [OF j bytes applied owned hash small])
  note facts = session_journal_facts [OF this]
  then have rev': "uint (se_revision s') = int (Suc (length (session_rows i d)))" and i: "se_id s' = i"
    by (simp_all add: uint_nat)
  have "\<not> (er_aggregate x = session_uuid i \<and> er_kind x = SessionAggregate \<and> er_revision x = uint (se_revision s'))"
    if "x \<in> set (db_events d)" for x
  proof
    assume x: "er_aggregate x = session_uuid i \<and> er_kind x = SessionAggregate \<and> er_revision x = uint (se_revision s')"
    with that have "x \<in> set (session_rows i d)"
      by (simp add: session_rows_def)
    then obtain k where "k < length (session_rows i d)" "session_rows i d ! k = x"
      by (auto simp: in_set_conv_nth)
    moreover have "numbered (session_rows i d)"
      using session_journal_rows [OF j] by simp
    ultimately have "er_revision x = int (Suc k)" "k < length (session_rows i d)"
      by (auto simp: numbered_def)
    with x rev' show False by simp
  qed
  then have "insert_event \<lparr>er_aggregate = session_uuid i, er_kind = SessionAggregate,
      er_revision = uint (se_revision s'), er_event = b, er_hash = digest_to_string h'\<rparr> d
      = Inr (d\<lparr>db_events := db_events d @ [session_row i (se_revision s') b h']\<rparr>)"
    by (auto simp: insert_event_def session_row_def list_ex_iff)
  moreover have "i64_of_u64 (se_revision s') e = Inr (uint (se_revision s'))" for e :: StoreError
    using small by (simp add: i64_of_u64_def)
  ultimately show ?thesis
    using applied hash sb
    by (simp add: append_framed_def session_hash_def i store_session_checkpoint_def Let_def)
qed

lemma session_command_total:
  assumes ok: "session_ok c d i s h" and fresh: "bt_get (se_operations s) operation = None"
    and digest: "command_digest c command = Inr fp"
    and request: "\<And>request. reporting_request command = Some request \<Longrightarrow> se_active_request s = Some request"
    and guard: "session_guard c st d s command = Inr ()"
    and applied: "session_apply c operation command s = Inr s'"
    and bytes: "session_bytes c (SessionCommandEvent operation command (now command)) b"
    and hash: "session_hash c i (se_revision s') (Some h) b = Inr h'"
    and small: "unat (se_revision s') < 2 ^ 63" and sb: "enc_session c s' = Inr sb"
  shows "\<exists>d'. session_command c st now i (se_revision s) operation command d = Inr (s', d')"
proof -
  obtain d' where "append_framed c operation command b s h d = Inr (s', h', d')"
    using append_framed_total [OF ok applied bytes session_guard_owned [OF guard] hash small sb] by blast
  then have "append_session_command c now operation command (s, h, d) = Inr (s', h', d')"
    using bytes by (simp add: append_session_command_def session_bytes_def)
  moreover have "\<not> (case reporting_request command of None \<Rightarrow> False | Some r \<Rightarrow> se_active_request s \<noteq> Some r)"
    using request by (simp split: option.splits)
  ultimately show ?thesis
    using load_session_state_ok [OF ok] fresh digest guard by (simp add: session_command_def)
qed

end
