(* ===== verification/Session_Recovery.thy ===== *)
theory Session_Recovery
  imports Session_Commands
begin

text \<open>
  Recovery after a restart: what the store needs to settle the interrupted requests, and that it then
  settles all of them.
\<close>

section \<open>Settling an interrupted session\<close>

definition records_settlement ::
    "('b, 'z) session_codec_scheme \<Rightarrow> ('b SessionCommand \<Rightarrow> u64) \<Rightarrow> bool" where
  "records_settlement c now \<longleftrightarrow>
     (\<forall>operation request outcome err.
        (\<exists>b. session_bytes c (SessionCommandEvent operation (TurnSettled request outcome err)
           (now (TurnSettled request outcome err))) b) \<and>
        (\<exists>fp. command_digest c (TurnSettled request outcome err) = Inr fp)) \<and>
     (\<forall>s. \<exists>b. enc_session c s = Inr b) \<and> (\<forall>l. \<exists>b. enc_link c l = Inr b)"

definition recovery_ready :: "('b, 'z) session_codec_scheme \<Rightarrow> 'b db \<Rightarrow> 'b SessionState \<Rightarrow> bool" where
  "recovery_ready c d s \<longleftrightarrow> recoverable c s \<and> unat (se_revision s) + 1 < 2 ^ 63 \<and>
     (\<forall>request t. bt_get (se_tasks_by_request s) request = Some t \<longrightarrow> (\<exists>x g. stored c d t x g))"

lemma recovery_ready_task_part: "task_part_eq d d' \<Longrightarrow> recovery_ready c d' s = recovery_ready c d s"
  by (simp add: recovery_ready_def task_part_eq_stored)

lemma records_settlementD:
  assumes "records_settlement c now"
  shows "\<exists>b. session_bytes c (SessionCommandEvent operation (TurnSettled request outcome err)
      (now (TurnSettled request outcome err))) b"
    and "\<exists>fp. command_digest c (TurnSettled request outcome err) = Inr fp"
    and "\<exists>b. enc_session c s = Inr b" and "\<exists>b. enc_link c l = Inr b"
  using assms unfolding records_settlement_def by blast+

lemma recover_session_total:
  assumes ok: "session_ok c d i s h" and ready: "recovery_ready c d s" and enc: "records_settlement c now"
  shows "\<exists>d'. recover_session c st now d s = Inr d'"
proof (cases "se_active_request s")
  case None
  then show ?thesis by (simp add: recover_session_def)
next
  case (Some request)
  let ?op = "recovery_operation c request"
  obtain outcome where outcome: "(case bt_get (se_tasks_by_request s) request of
              None \<Rightarrow> Inr None
            | Some i \<Rightarrow> and_then (load c d i) (\<lambda>task. Inr (t_outcome task))) = Inr outcome"
    and guard: "\<And>err. session_guard c st d s (TurnSettled request outcome err) = Inr ()"
  proof (cases "bt_get (se_tasks_by_request s) request")
    case None
    then show thesis by (intro that [of None]) (simp_all add: session_guard_def)
  next
    case task: (Some t)
    then obtain x g where "load_state c d t = Inr (x, g)"
      using ready unfolding recovery_ready_def stored_def by (metis load_state_ok)
    with task show thesis
      by (intro that [of "t_outcome x"])
        (auto simp: session_guard_def check_settled_def load_def split: option.splits)
  qed
  let ?command = "TurnSettled request outcome (Some recovery_error)"
  obtain fp where fp: "command_digest c ?command = Inr fp"
    using records_settlementD(2) [OF enc] by blast
  obtain b where b: "session_bytes c (SessionCommandEvent ?op ?command (now ?command)) b"
    using records_settlementD(1) [OF enc] by blast
  obtain s' where s': "session_apply c ?op ?command s = Inr s'" and rev: "se_revision s' = se_revision s + 1"
    using fp by (simp add: session_apply_def session_record_def session_arm_def session_tail_def Let_def)
  obtain sb where sb: "enc_session c s' = Inr sb"
    using records_settlementD(3) [OF enc] by blast
  obtain h' where h': "session_hash c i (se_revision s') (Some h) b = Inr h'"
    using records_settlementD(4) [OF enc, of "(kind_name SessionAggregate, session_uuid i, se_revision s', Some h, sha c b)"]
    by (auto simp: session_hash_def aggregate_hash_def of_value_def)
  have small: "unat (se_revision s') < 2 ^ 63"
    using ready rev by (simp add: recovery_ready_def unat_word_ariths(1) [of _ 1])
  have "\<exists>d'. session_command c st now i (se_revision s) ?op ?command d = Inr (s', d')"
    using ready Some
    by (intro session_command_total [where now = now, OF ok _ fp _ guard s' b h' small sb])
      (auto simp: recovery_ready_def recoverable_def bt_contains_def reporting_request_def)
  with Some outcome session_ok_facts(3) [OF ok] show ?thesis
    by (auto simp: recover_session_def recovery_operation_def)
qed

section \<open>Settling all of them\<close>

lemma recover_states_total:
  assumes "sessions_inv c d" and "records_settlement c now" and "distinct ids"
    and "list_all2 (\<lambda>i s. (\<exists>h. session_ok c d i s h) \<and> recovery_ready c d s) ids states"
  shows "\<exists>d'. try_fold (recover_session c st now) d states = Inr d'"
  using assms
proof (induction ids arbitrary: states d)
  case Nil
  then show ?case by simp
next
  case (Cons i ids)
  then obtain s rest h where states: "states = s # rest" and ok: "session_ok c d i s h"
    and ready: "recovery_ready c d s"
    and oks: "list_all2 (\<lambda>i s. (\<exists>h. session_ok c d i s h) \<and> recovery_ready c d s) ids rest"
    by (auto simp: list_all2_Cons1)
  obtain d1 where one: "recover_session c st now d s = Inr d1"
    using recover_session_total [OF ok ready Cons.prems(2)] by blast
  have "recoverable c s"
    using ready by (simp add: recovery_ready_def)
  note r = recover_session_ok [OF Cons.prems(1) ok this one]
  have part: "task_part_eq d d1" and frame: "\<And>j t g. j \<noteq> i \<Longrightarrow> session_ok c d j t g \<Longrightarrow> session_ok c d1 j t g"
    using r(2) by (auto simp: extends_session_def)
  have "list_all2 (\<lambda>i s. (\<exists>h. session_ok c d1 i s h) \<and> recovery_ready c d1 s) ids rest"
    using oks
    by (rule list.rel_mono_strong)
      (use frame Cons.prems(3) in \<open>simp add: recovery_ready_task_part [OF part], metis\<close>)
  then show ?case
    using Cons.IH [OF r(1) Cons.prems(2)] Cons.prems(3) one states by simp
qed

lemma load_each_total:
  assumes "\<And>i. i \<in> set ids \<Longrightarrow> \<exists>s h. session_ok c d i s h"
  shows "\<exists>states. load_each c d ids = Inr states"
proof -
  have "\<exists>states. try_fold (\<lambda>acc i. and_then (load_session c d i) (\<lambda>s. Inr (acc @ [s]))) acc ids = Inr states" for acc
    using assms
  proof (induction ids arbitrary: acc)
    case Nil
    then show ?case by simp
  next
    case (Cons i ids)
    then obtain s h where ok: "session_ok c d i s h"
      by (meson list.set_intros(1))
    have "load_session c d i = Inr s"
      using load_session_state_ok [OF ok] by (auto simp: load_session_Inr)
    with Cons show ?case by simp
  qed
  then show ?thesis by (simp add: load_each_def)
qed

lemma recover_pages_total:
  assumes "sessions_inv c d" and "records_settlement c now" and "distinct ids"
    and "\<And>i. i \<in> set ids \<Longrightarrow> \<exists>s h. session_ok c d i s h \<and> recovery_ready c d s"
  shows "\<exists>d'. recover_pages c st now ids d = Inr d'"
  using assms
proof (induction c st now ids d rule: recover_pages.induct)
  case (1 c st now ids d)
  show ?case
  proof (cases "ids = []")
    case True
    then show ?thesis by (simp add: recover_pages.simps [of c st now "[]"])
  next
    case False
    let ?page = "take 64 ids"
    have known: "\<exists>s h. session_ok c d i s h \<and> recovery_ready c d s" if "i \<in> set ?page" for i
      using "1.prems"(4) that by (blast dest: in_set_takeD)
    obtain states where load: "load_each c d ?page = Inr states"
      using load_each_total known by metis
    have oks: "list_all2 (\<lambda>i s. \<exists>h. session_ok c d i s h) ?page states"
      by (rule load_each_states [OF "1.prems"(1) load])
    have ready: "list_all2 (\<lambda>i s. (\<exists>h. session_ok c d i s h) \<and> recovery_ready c d s) ?page states"
      using oks
    proof (rule list.rel_mono_strong)
      fix i s
      assume "i \<in> set ?page" and "\<exists>h. session_ok c d i s h"
      with known [OF this(1)] show "(\<exists>h. session_ok c d i s h) \<and> recovery_ready c d s"
        by (metis Inr_inject load_session_state_ok prod.inject)
    qed
    obtain d1 where fold: "try_fold (recover_session c st now) d states = Inr d1"
      using recover_states_total [OF "1.prems"(1,2) _ ready] "1.prems"(3) by auto
    have "\<forall>s \<in> set states. recoverable c s"
      using list_all2_set2 [OF ready] by (auto simp: recovery_ready_def)
    then have page: "recovered_in c (set ?page) d d1"
      using recover_states_ok [OF "1.prems"(1) fold oks] "1.prems"(3) by simp
    have part: "task_part_eq d d1" and inv: "sessions_inv c d1"
      using page by (simp_all add: recovered_in_def)
    have "\<exists>s h. session_ok c d1 i s h \<and> recovery_ready c d1 s" if i: "i \<in> set (drop 64 ids)" for i
    proof -
      have "i \<notin> set ?page" and "i \<in> set ids"
        using i set_take_disj_set_drop_if_distinct [OF "1.prems"(3), of 64 64] by (auto dest: in_set_dropD)
      then show ?thesis
        using "1.prems"(4) page unfolding recovered_in_def recovery_ready_task_part [OF part] by metis
    qed
    with "1.IH" [OF False load fold inv "1.prems"(2)] "1.prems"(3) load fold False show ?thesis
      by (simp add: recover_pages.simps [of c st now ids])
  qed
qed

end
