(* ===== verification/Session_Fixture.thy ===== *)
theory Session_Fixture
  imports Session_Commands Store_Fixture
begin

text \<open>
  A concrete codec for sessions, in which the session commands run, and the first turns of one session:
  created, asked, answered with a tool call and a long tool result. It shows that the hypotheses of the
  session theorems can hold together.
\<close>

section \<open>Changing the type of the manifest bytes\<close>

text \<open>Bytes occur in a session only in the revision manifest of its admission profile.\<close>

definition map_profile :: "('a \<Rightarrow> 'b) \<Rightarrow> 'a SessionAdmissionProfile \<Rightarrow> 'b SessionAdmissionProfile" where
  "map_profile f p =
     \<lparr>ap_profile_version = ap_profile_version p, ap_request = ap_request p,
      ap_binding = ap_binding p, ap_provenance = ap_provenance p,
      ap_authority = ap_authority p, ap_request_digest = ap_request_digest p,
      ap_revision_manifest = f (ap_revision_manifest p),
      ap_behavior_instructions = ap_behavior_instructions p\<rparr>"

definition map_session :: "('a \<Rightarrow> 'b) \<Rightarrow> 'a SessionState \<Rightarrow> 'b SessionState" where
  "map_session f s =
     \<lparr>se_tool_output_buffers = se_tool_output_buffers s, se_interpreter = se_interpreter s,
      se_completion_deliveries = se_completion_deliveries s, se_feedbacks = se_feedbacks s,
      se_branch = se_branch s, se_id = se_id s, se_revision = se_revision s,
      se_settled_revision = se_settled_revision s,
      se_admission = map_option (map_profile f) (se_admission s),
      se_initial_config = se_initial_config s, se_config = se_config s,
      se_parent = se_parent s, se_history = se_history s,
      se_settled_history_items = se_settled_history_items s,
      se_context_view = se_context_view s, se_context_transitions = se_context_transitions s,
      se_operations = se_operations s, se_current_task = se_current_task s,
      se_tasks_by_request = se_tasks_by_request s, se_tool_calls = se_tool_calls s,
      se_kind = se_kind s, se_active_request = se_active_request s, se_outcome = se_outcome s,
      se_error = se_error s, se_started_ms = se_started_ms s, se_title = se_title s,
      se_imported = se_imported s, se_submissions = se_submissions s,
      se_queue_order = se_queue_order s\<rparr>"

definition map_creation :: "('a \<Rightarrow> 'b) \<Rightarrow> 'a SessionCreation \<Rightarrow> 'b SessionCreation" where
  "map_creation f n =
     \<lparr>sn_branch = sn_branch n, sn_config = sn_config n,
      sn_admission = map_option (map_profile f) (sn_admission n), sn_parent = sn_parent n,
      sn_history = sn_history n, sn_started_ms = sn_started_ms n, sn_imported = sn_imported n\<rparr>"

fun map_command :: "('a \<Rightarrow> 'b) \<Rightarrow> 'a SessionCommand \<Rightarrow> 'b SessionCommand" where
  "map_command f (InterpreterCommand x y) = InterpreterCommand x y"
| "map_command f (CompletionHook x) = CompletionHook x"
| "map_command f (ChildLifecycle x) = ChildLifecycle x"
| "map_command f (TraceRecorded x y) = TraceRecorded x y"
| "map_command f (AdmissionPinned x y) = AdmissionPinned (map_profile f x) y"
| "map_command f (ReviewRecorded x) = ReviewRecorded x"
| "map_command f (LegacyImportBound x) = LegacyImportBound x"
| "map_command f (ShellStarted x) = ShellStarted x"
| "map_command f (ShellPublished x y z u) = ShellPublished x y z u"
| "map_command f (WorkspaceSaved x y) = WorkspaceSaved x y"
| "map_command f AuxiliaryStarted = AuxiliaryStarted"
| "map_command f (AuxiliaryRecorded x y) = AuxiliaryRecorded x y"
| "map_command f (AuxiliaryPublished x y z) = AuxiliaryPublished x y z"
| "map_command f (QueueMoved x y z) = QueueMoved x y z"
| "map_command f (QueueEdited x y z) = QueueEdited x y z"
| "map_command f (Submitted x) = Submitted x"
| "map_command f (SubmissionChanged x y) = SubmissionChanged x y"
| "map_command f (InputCommand x y) = InputCommand x y"
| "map_command f (Response x y) = Response x y"
| "map_command f (ProviderUsage x y z u) = ProviderUsage x y z u"
| "map_command f (ProviderCost x y z) = ProviderCost x y z"
| "map_command f (Feedback x) = Feedback x"
| "map_command f (ToolResult x y z) = ToolResult x y z"
| "map_command f (ToolResultPart x y z u) = ToolResultPart x y z u"
| "map_command f (ToolResultEnd x y z) = ToolResultEnd x y z"
| "map_command f (TaskLinked x y) = TaskLinked x y"
| "map_command f (TurnSettled x y z) = TurnSettled x y z"
| "map_command f (SettingsChanged x) = SettingsChanged x"
| "map_command f (ContextPrepared x y z) = ContextPrepared x y z"
| "map_command f (ContextTransitionCommand x) = ContextTransitionCommand x"
| "map_command f (ContextProjected x y z) = ContextProjected x y z"

fun map_event :: "('a \<Rightarrow> 'b) \<Rightarrow> 'a SessionEvent \<Rightarrow> 'b SessionEvent" where
  "map_event f (SessionCreated n) = SessionCreated (map_creation f n)"
| "map_event f (SessionCommandEvent operation command at_ms) =
     SessionCommandEvent operation (map_command f command) at_ms"

lemma map_profile_back: "map_profile (\<lambda>_. ap_revision_manifest p) (map_profile f p) = p"
  by (simp add: map_profile_def)

definition session_manifest :: "'b \<Rightarrow> 'b SessionAdmissionProfile option \<Rightarrow> 'b" where
  "session_manifest b admission = (case admission of None \<Rightarrow> b | Some p \<Rightarrow> ap_revision_manifest p)"

lemma map_admission_back:
  "map_option (map_profile (\<lambda>_. session_manifest b admission)) (map_option (map_profile f) admission) = admission"
  by (cases admission) (simp_all add: session_manifest_def map_profile_back)

lemma map_session_back:
  "map_session (\<lambda>_. session_manifest b (se_admission s)) (map_session f s) = s"
  unfolding map_session_def by (simp add: map_admission_back del: option.map_comp)

lemma map_creation_back:
  "map_creation (\<lambda>_. session_manifest b (sn_admission n)) (map_creation f n) = n"
  unfolding map_creation_def by (simp add: map_admission_back del: option.map_comp)

definition command_manifest :: "'b \<Rightarrow> 'b SessionCommand \<Rightarrow> 'b" where
  "command_manifest b command =
     (case command of AdmissionPinned p _ \<Rightarrow> ap_revision_manifest p | _ \<Rightarrow> b)"

lemma map_command_back: "map_command (\<lambda>_. command_manifest b command) (map_command f command) = command"
  by (cases command) (simp_all add: command_manifest_def map_profile_back)

definition event_manifest :: "'b \<Rightarrow> 'b SessionEvent \<Rightarrow> 'b" where
  "event_manifest b e =
     (case e of
        SessionCreated n \<Rightarrow> session_manifest b (sn_admission n)
      | SessionCommandEvent operation command at_ms \<Rightarrow> command_manifest b command)"

lemma map_event_back: "map_event (\<lambda>_. event_manifest b e) (map_event f e) = e"
  by (cases e) (simp_all add: event_manifest_def map_creation_back map_command_back)

lemma journaled_command_twice: "journaled_command (journaled_command command) = journaled_command command"
  by (cases command) (simp_all add: journaled_command_def option.map_comp comp_def)

section \<open>The codec\<close>

datatype session_wire =
    TaskWire wire
  | EventWire "unit SessionEvent" session_wire
  | StateWire "unit SessionState" session_wire
  | CommandWire "unit SessionCommand"
  | HistoryWire "json list"
  | TextWire string

fun session_sha :: "session_wire \<Rightarrow> digest" where
  "session_sha (TaskWire w) = wire_sha w"
| "session_sha (EventWire e m) = bytes32 111"
| "session_sha (StateWire s m) = bytes32 112"
| "session_sha (CommandWire command) = bytes32 113"
| "session_sha (HistoryWire items) = bytes32 (of_nat (length items))"
| "session_sha (TextWire t) = bytes32 (of_nat (length t))"

lemma session_sha_ok: "digest_ok (session_sha b)"
proof (cases b)
  case (TaskWire w)
  then show ?thesis by (cases w) simp_all
qed simp_all

text \<open>Tool outputs are taken to be long once they are escaped.\<close>

fun session_blen :: "session_wire \<Rightarrow> nat" where
  "session_blen (EventWire (SessionCommandEvent operation (ToolResult request call out) at_ms) m) =
     64 + 6000 * length out"
| "session_blen _ = 64"

definition fx_revision :: RevisionManifest where
  "fx_revision =
     \<lparr>rm_schema_version = 1, rm_parent = bytes32 0, rm_policy_id = POLICY_ID, rm_envelope_digest = bytes32 1,
      rm_behavior_digest = bytes32 2, rm_behavior = \<lparr>bm_instructions = ''w'', bm_native_read = None\<rparr>\<rparr>"

definition text_message :: "string \<Rightarrow> json" where
  "text_message t = JObject [(''content'', JArray [JObject [(''text'', JString t), (''type'', JString ''input_text'')]]),
     (''role'', JString ''user'')]"

definition session_wire_codec :: "session_wire context_codec" where
  "session_wire_codec =
     \<lparr>sha = session_sha, blen = session_blen,
      enc_event = (\<lambda>e. Inr (TaskWire (WEvent e))),
      dec_event = (\<lambda>b. case b of TaskWire (WEvent e) \<Rightarrow> Inr e | _ \<Rightarrow> Inl ''event''),
      enc_state = (\<lambda>s. Inr (TaskWire (WState s))),
      dec_state = (\<lambda>b. case b of TaskWire (WState s) \<Rightarrow> Inr s | _ \<Rightarrow> Inl ''state''),
      enc_contract = (\<lambda>_. Inr (TaskWire (WText ''contract''))),
      enc_check = (\<lambda>_. Inr (TaskWire (WText ''check''))),
      enc_link = (\<lambda>l. Inr (TaskWire (WLink l))), dec_snapshot = (\<lambda>_. Inl ''snapshot''),
      dec_patch = (\<lambda>_. Inl ''patch''),
      dec_messages = (\<lambda>b. case b of TextWire t \<Rightarrow> Inr [text_message t] | _ \<Rightarrow> Inr []),
      str_bytes = TextWire, dec_json = (\<lambda>_. Inl ''json''), enc_json = (\<lambda>_. Inr (TextWire ''json'')),
      dec_revision = (\<lambda>_. Inr fx_revision), enc_request = (\<lambda>_. Inr (TextWire ''request'')),
      enc_model = (\<lambda>_. Inr (TextWire ''model'')), enc_config = (\<lambda>_. Inr (TextWire ''config'')),
      is_dir = (\<lambda>_. True),
      enc_command = (\<lambda>command. Inr (CommandWire (map_command (\<lambda>_. ()) (journaled_command command)))),
      enc_history = (\<lambda>items. Inr (HistoryWire items)),
      enc_session = (\<lambda>s. Inr (StateWire (map_session (\<lambda>_. ()) s) (session_manifest (TextWire []) (se_admission s)))),
      dec_session = (\<lambda>b. case b of StateWire s m \<Rightarrow> Inr (map_session (\<lambda>_. m) s) | _ \<Rightarrow> Inl ''session''),
      enc_session_event = (\<lambda>e. Inr (EventWire (map_event (\<lambda>_. ()) (journaled_event e))
        (event_manifest (TextWire []) (journaled_event e)))),
      dec_session_event = (\<lambda>b. case b of EventWire e m \<Rightarrow> Inr (map_event (\<lambda>_. m) e) | _ \<Rightarrow> Inl ''event''),
      raw_event = (\<lambda>b. Inr (''created'', b)), raw_command = (\<lambda>_. Inl ''command''),
      new_v5 = (\<lambda>u name. Uuid (uuid_bits u + 1 + of_nat (length name))), uuid_text = (\<lambda>_. ''uuid''),
      u64_text = (\<lambda>_. ''u64''), u64_le_bytes = (\<lambda>_. ''offset''), json_text = (\<lambda>_. Inr ''json'')\<rparr>"

lemma session_wire_codec_ok: "session_codec_ok session_wire_codec"
proof -
  have "codec_ok session_wire_codec"
    using session_sha_ok by (simp add: codec_ok_def session_wire_codec_def)
  moreover have "legacy_context_command session_wire_codec b = Inr None" for b
    by (simp add: legacy_context_command_def session_wire_codec_def)
  ultimately show ?thesis
    unfolding session_codec_ok_def
    by (simp add: session_wire_codec_def map_event_back map_session_back journaled_command_twice)
qed

section \<open>A session\<close>

definition sx_store :: "session_wire ArtifactStore" where
  "sx_store = \<lparr>as_files = (\<lambda>_. None), as_max = 16\<rparr>"

definition sx_model :: ModelSettings where
  "sx_model = \<lparr>ms_model = Sol, ms_thinking = ThinkMedium, ms_reasoning_mode = StandardMode, ms_fast_mode = False\<rparr>"

definition sx_config :: SessionConfig where
  "sx_config = \<lparr>sc_workspace = ''/work'', sc_model = sx_model, sc_instructions = [],
     sc_context_window_tokens = 272000\<rparr>"

definition sx_profile :: "session_wire SessionAdmissionProfile" where
  "sx_profile =
     \<lparr>ap_profile_version = 1,
      ap_request = \<lparr>sr_workspace = ''/work'', sr_model = sx_model, sr_context_window_tokens = 272000,
        sr_channel = Stable\<rparr>,
      ap_binding = \<lparr>hb_target = \<lparr>tp_model = bytes32 5, tp_protocol = bytes32 21, tp_environment = bytes32 22,
          tp_task_profile = bytes32 23, tp_channel = Stable\<rparr>,
        hb_revision = bytes32 4, hb_behavior = bytes32 2, hb_envelope = bytes32 1, hb_policy = bytes32 11\<rparr>,
      ap_provenance = CompiledBaseline StoreFixtureReason, ap_authority = bytes32 24,
      ap_request_digest = bytes32 7, ap_revision_manifest = TextWire ''base'',
      ap_behavior_instructions = ''w''\<rparr>"

definition sx_id :: SessionId where
  "sx_id = SessionId (Uuid 50)"

definition sx_request :: uuid where
  "sx_request = Uuid 1"

definition sx_output :: string where
  "sx_output = replicate 100 (CHR 0x78)"

definition sx_result :: "session_wire SessionCommand" where
  "sx_result = ToolResult sx_request ''c1'' sx_output"

definition sx_claim :: CompletionPayload where
  "sx_claim = \<lparr>pl_version = 1, pl_delivery_id = hook_id session_wire_codec sx_id sx_request, pl_session = sx_id,
     pl_request = sx_request, pl_task = TaskId (Uuid 9), pl_outcome = Complete\<rparr>"

definition sx_now :: "session_wire SessionCommand \<Rightarrow> u64" where
  "sx_now command = 2000"

definition sx_creation :: "session_wire SessionCreation" where
  "sx_creation =
     \<lparr>sn_branch = \<lparr>br_workspace = None, br_fresh_context = False, br_pending_task = None, br_pending_shell = None\<rparr>,
      sn_config = sx_config, sn_admission = Some sx_profile, sn_parent = None, sn_history = [],
      sn_started_ms = 1000, sn_imported = None\<rparr>"

definition sx_created :: "session_wire SessionState" where
  "sx_created = session_create sx_id sx_creation"

definition sx_user :: json where
  "sx_user = JObject [(''content'', JString ''hi''), (''role'', JString ''user'')]"

definition sx_call :: json where
  "sx_call = JObject [(''arguments'', JString ''{}''), (''call_id'', JString ''c1''), (''name'', JString ''read''),
     (''type'', JString ''function_call'')]"

definition sx_input :: "session_wire SessionCommand" where
  "sx_input = InputCommand Conversation [sx_user]"

definition sx_response :: "session_wire SessionCommand" where
  "sx_response = Response sx_request [sx_call]"

text \<open>The session after the input, the response and the settled turn.\<close>

definition sx_asked :: "session_wire SessionState" where
  "sx_asked = sx_created\<lparr>se_title := Some ''hi'', se_active_request := Some sx_request, se_history := [sx_user],
     se_operations := [(sx_request, bytes32 113)], se_revision := 2\<rparr>"

definition sx_answered :: "session_wire SessionState" where
  "sx_answered = sx_asked\<lparr>se_tool_calls := [(''c1'', \<lparr>tc_request = sx_request, tc_output = None\<rparr>)],
     se_history := [sx_user, sx_call], se_operations := [(sx_request, bytes32 113), (Uuid 2, bytes32 113)],
     se_revision := 3\<rparr>"

lemma sx_validate: "profile_validate session_wire_codec sx_profile = Inr ()"
proof -
  have "\<not> blank ''w'' \<and> \<not> list_ex forbidden_char (utf8_chars ''w'') \<and>
      \<not> starts_with (trim_start ''w'') ''#!'' \<and>
      \<not> str_contains (to_ascii_lowercase (trim_start ''w'')) ''<script''"
    by code_simp
  then have "validate_instructions ''w'' = Inr ()"
    by (simp add: validate_instructions_def MAX_INSTRUCTIONS_BYTES_def del: blank.simps)
  then have "from_manifest_json session_wire_codec (TextWire ''base'') =
    Inr \<lparr>hr_canonical = TextWire ''base'', hr_digest = bytes32 4, hr_behavior_digest = bytes32 2,
      hr_envelope_digest = bytes32 1, hr_policy_id = POLICY_ID, hr_behavior_instructions = ''w'',
      hr_native_read = None\<rparr>"
    by (simp add: from_manifest_json_def session_wire_codec_def fx_revision_def check_native_read_def
        MAX_MANIFEST_BYTES_def SCHEMA_VERSION_def)
  then show ?thesis
    by (simp add: profile_validate_def validate_recorded_def sx_profile_def is_absolute_def of_value_def
        policy_identity_def POLICY_ID_def) (simp add: session_wire_codec_def)
qed

lemma sx_json [simp]:
  "json_index sx_user ''content'' = JString ''hi''" "json_index sx_user ''role'' = JString ''user''"
  "json_index sx_user ''type'' = JNull"
  "json_index sx_call ''type'' = JString ''function_call''" "json_index sx_call ''call_id'' = JString ''c1''"
  "json_index sx_call ''name'' = JString ''read''" "json_index sx_call ''arguments'' = JString ''{}''"
  by (simp_all add: json_index_def sx_user_def sx_call_def bt_get_def)

lemmas sx_steps = session_apply_def session_record_def session_arms session_tail_def command_digest_def
  of_value_def session_wire_codec_def sx_request_def

lemma sx_title [simp]: "visible_prefix 120 ''hi'' = ''hi''" "\<not> blank ''hi''"
  by code_simp+

lemma sx_apply_input: "session_apply session_wire_codec sx_request sx_input sx_created = Inr sx_asked"
  by (simp add: sx_steps sx_input_def note_reviews_def review_parts_def first_title_def sx_asked_def
      sx_created_def session_create_def sx_creation_def as_str_def as_array_def del: blank.simps)

lemma sx_apply_response: "session_apply session_wire_codec (Uuid 2) sx_response sx_asked = Inr sx_answered"
  by (simp add: sx_steps sx_response_def proposed_calls_def function_call_def sx_asked_def sx_answered_def
      sx_created_def session_create_def sx_creation_def as_str_def)

section \<open>The store holds it\<close>

lemma sx_bytes:
  assumes "\<not> (\<exists>request call out. command = ToolResult request call out)"
  obtains b where "session_bytes session_wire_codec (SessionCommandEvent operation command at_ms) b"
proof
  have "session_blen (EventWire (SessionCommandEvent operation (map_command f (journaled_command command)) at_ms) m) = 64"
    for f :: "session_wire \<Rightarrow> unit" and m
    using assms by (cases command) (simp_all add: journaled_command_def)
  then show "session_bytes session_wire_codec (SessionCommandEvent operation command at_ms)
    (EventWire (map_event (\<lambda>_. ()) (journaled_event (SessionCommandEvent operation command at_ms)))
       (event_manifest (TextWire []) (journaled_event (SessionCommandEvent operation command at_ms))))"
    by (simp add: session_bytes_def session_wire_codec_def journaled_event_def MAX_EVENT_BYTES_def)
qed

lemma sx_hash: "session_hash session_wire_codec i revision previous b = Inr (bytes32 103)"
  by (simp add: session_hash_def aggregate_hash_def of_value_def session_wire_codec_def)

lemma sx_encode: "\<exists>sb. enc_session session_wire_codec s = Inr sb"
  by (simp add: session_wire_codec_def)

lemma sx_fingerprint: "command_digest session_wire_codec command = Inr (bytes32 113)"
  by (simp add: command_digest_def of_value_def session_wire_codec_def)

lemma sx_command:
  assumes "session_ok session_wire_codec d i s h" and "bt_get (se_operations s) operation = None"
    and "\<And>request. reporting_request command = Some request \<Longrightarrow> se_active_request s = Some request"
    and "session_guard session_wire_codec st d s command = Inr ()"
    and "session_apply session_wire_codec operation command s = Inr s'"
    and "\<not> (\<exists>request call out. command = ToolResult request call out)" and "unat (se_revision s') < 2 ^ 63"
  shows "\<exists>d'. session_command session_wire_codec st now i (se_revision s) operation command d = Inr (s', d')"
proof -
  obtain b where "session_bytes session_wire_codec (SessionCommandEvent operation command (now command)) b"
    using sx_bytes [OF assms(6)] by blast
  moreover obtain sb where "enc_session session_wire_codec s' = Inr sb"
    using sx_encode by blast
  ultimately show ?thesis
    using session_command_total [OF assms(1,2) sx_fingerprint assms(3,4,5) _ sx_hash assms(7)] by blast
qed

lemma empty_sessions: "sessions_inv c empty_db"
  by (simp add: sessions_inv_def session_absent_def empty_db_def session_rows_def)

lemma sx_create:
  "\<exists>d. create_bound_session session_wire_codec sx_store 1000 sx_id sx_profile None empty_db = Inr (sx_created, d)"
proof -
  have "load_session session_wire_codec empty_db sx_id = Inl (MissingSession sx_id)"
    by (simp add: load_session_def load_session_state_def empty_db_def)
  moreover have "\<exists>d. insert_created session_wire_codec sx_id sx_creation empty_db = Inr (sx_created, d)"
    by (simp add: insert_created_def insert_session_def insert_event_def store_session_checkpoint_def
        i64_of_u64_def empty_db_def sx_created_def aggregate_hash_def of_value_def session_wire_codec_def
        journaled_event_def MAX_EVENT_BYTES_def Let_def)
  moreover have "profile_config sx_profile = sx_config"
    by (simp add: profile_config_def sx_profile_def sx_config_def)
  moreover have "is_absolute (sc_workspace sx_config)" "is_dir session_wire_codec (sc_workspace sx_config)"
    by (simp_all add: sx_config_def is_absolute_def session_wire_codec_def)
  ultimately show ?thesis
    by (simp add: create_bound_session_def sx_validate create_session_seeded_def creation_seed_def sx_creation_def)
qed

lemma sx_stored_created:
  "\<exists>d h. sessions_inv session_wire_codec d \<and> session_ok session_wire_codec d sx_id sx_created h"
proof -
  obtain d where "create_session_seeded session_wire_codec sx_store 1000 sx_id (profile_config sx_profile)
      sx_profile None None False empty_db = Inr (sx_created, d)"
    using sx_create by (auto simp: create_bound_session_def sx_validate)
  from create_session_seeded_ok(1,2) [OF session_wire_codec_ok empty_sessions this] show ?thesis
    by blast
qed

lemma sx_ask:
  assumes "session_ok session_wire_codec d sx_id sx_created h"
  shows "\<exists>d'. session_command session_wire_codec sx_store sx_now sx_id 1 sx_request sx_input d = Inr (sx_asked, d')"
proof -
  have "se_operations sx_created = []" "se_active_request sx_created = None" "se_revision sx_created = 1"
    by (simp_all add: sx_created_def session_create_def sx_creation_def)
  then show ?thesis
    using sx_command [OF assms _ _ _ sx_apply_input, of sx_store sx_now]
    by (simp add: sx_input_def reporting_request_def session_guard_def sx_asked_def)
qed

lemma sx_stored_asked:
  "\<exists>d h. sessions_inv session_wire_codec d \<and> session_ok session_wire_codec d sx_id sx_asked h"
  using sx_stored_created sx_ask session_command_ok by meson

lemma sx_answer:
  assumes "session_ok session_wire_codec d sx_id sx_asked h"
  shows "\<exists>d'. session_command session_wire_codec sx_store sx_now sx_id 2 (Uuid 2) sx_response d = Inr (sx_answered, d')"
proof -
  have "se_operations sx_asked = [(sx_request, bytes32 113)]" "se_active_request sx_asked = Some sx_request"
      "se_revision sx_asked = 2" "se_tool_calls sx_asked = []" "se_history sx_asked = [sx_user]"
    by (simp_all add: sx_asked_def sx_created_def session_create_def)
  moreover from this have "check_response sx_asked [sx_call] = Inr ()"
    by (simp add: check_response_def check_proposed_call_def function_call_def as_str_def bs_collect_def bt_keys_def)
  ultimately show ?thesis
    using sx_command [OF assms _ _ _ sx_apply_response, of sx_store sx_now]
    by (simp add: sx_response_def reporting_request_def session_guard_def sx_answered_def sx_request_def bt_get_def)
qed

lemma sx_stored_answered:
  "\<exists>d h. sessions_inv session_wire_codec d \<and> session_ok session_wire_codec d sx_id sx_answered h"
  using sx_stored_asked sx_answer session_command_ok by meson

section \<open>A long tool result\<close>

definition sx_part :: "session_wire SessionCommand" where
  "sx_part = ToolResultPart sx_request ''c1'' 0 sx_output"

definition sx_end :: "session_wire SessionCommand" where
  "sx_end = ToolResultEnd sx_request ''c1'' (bytes32 100)"

definition sx_part_id :: uuid where
  "sx_part_id = new_v5 session_wire_codec (Uuid 3) (u64_le_bytes session_wire_codec 0)"

definition sx_received :: "session_wire SessionState" where
  "sx_received = sx_answered\<lparr>se_tool_output_buffers := [(''c1'', \<lparr>po_request = sx_request, po_text = sx_output\<rparr>)],
     se_operations := [(sx_request, bytes32 113), (Uuid 2, bytes32 113), (sx_part_id, bytes32 113)],
     se_revision := 4\<rparr>"

definition sx_resulted :: "session_wire SessionState" where
  "sx_resulted = sx_answered\<lparr>se_tool_calls := [(''c1'', \<lparr>tc_request = sx_request, tc_output = Some (bytes32 100)\<rparr>)],
     se_history := [sx_user, sx_call, call_output ''c1'' sx_output],
     se_operations := [(sx_request, bytes32 113), (Uuid 2, bytes32 113), (Uuid 3, bytes32 113), (sx_part_id, bytes32 113)],
     se_revision := 5\<rparr>"

lemma sx_output_length: "length sx_output = 100"
  by (simp add: sx_output_def)

lemma sx_output_utf8: "utf8_shape sx_output"
proof -
  have "\<not> continuation_byte (sx_output ! j)" if "j < 100" for j
    using that by (simp add: sx_output_def continuation_byte_def byte_of_def)
  then show ?thesis
    unfolding utf8_shape_def sx_output_length by (metis diff_self_eq_0 order_refl zero_less_numeral)
qed

lemma sx_part_id_eq: "sx_part_id = Uuid 10"
  by (simp add: sx_part_id_def session_wire_codec_def)

lemma sx_output_digest: "text_digest session_wire_codec sx_output = bytes32 100"
  by (simp add: text_digest_def session_wire_codec_def sx_output_length)

lemma sx_apply_part: "session_apply session_wire_codec sx_part_id sx_part sx_answered = Inr sx_received"
proof -
  have "se_tool_output_buffers sx_answered = []" "se_active_request sx_answered = Some sx_request"
    "pending_tool_call sx_answered ''c1'' sx_request"
    by (simp_all add: sx_answered_def sx_asked_def sx_created_def session_create_def pending_tool_call_def bt_get_def)
  moreover have "sx_output \<noteq> []"
    using sx_output_length by auto
  ultimately show ?thesis
    by (simp add: sx_steps sx_part_def sx_part_id_eq output_append_def sx_received_def sx_answered_def sx_asked_def
        bt_get_def bt_adjust_def)
qed

lemma sx_apply_end: "session_apply session_wire_codec (Uuid 3) sx_end sx_received = Inr sx_resulted"
proof -
  have "text_digest session_wire_codec sx_output = bytes32 100"
    by (rule sx_output_digest)
  then show ?thesis
    by (simp add: sx_steps sx_end_def sx_received_def sx_resulted_def sx_answered_def sx_asked_def output_finish_def
        bt_get_def bt_adjust_def bt_remove_def sx_part_id_eq sx_created_def session_create_def sx_creation_def)
qed

lemma sx_fragments: "fragments sx_output 0 = [(0, sx_output)]"
proof -
  have "fragment_end sx_output 0 = 100"
    by (simp add: fragment_end_def floor_char_boundary_def FRAGMENT_BYTES_def sx_output_length)
  then show ?thesis
    by (simp add: fragments.simps [of _ 0] fragments.simps [of _ 100] sx_output_length slice_def)
qed

lemma sx_append:
  assumes ok: "session_ok session_wire_codec d i s h"
    and applied: "session_apply session_wire_codec operation command s = Inr s'"
    and one: "\<not> (\<exists>request call out. command = ToolResult request call out)"
    and owned: "call_owned s command" and small: "unat (se_revision s') < 2 ^ 63"
  shows "\<exists>d'. append_event session_wire_codec now operation command (s, h, d) = Inr (s', bytes32 103, d') \<and>
    session_ok session_wire_codec d' i s' (bytes32 103)"
proof -
  obtain b where b: "session_bytes session_wire_codec (SessionCommandEvent operation command (now command)) b"
    using sx_bytes [OF one] by blast
  obtain sb where sb: "enc_session session_wire_codec s' = Inr sb"
    using sx_encode by blast
  obtain d' where d': "append_framed session_wire_codec operation command b s h d = Inr (s', bytes32 103, d')"
    using append_framed_total [OF ok applied b owned sx_hash small sb] by blast
  then have "append_event session_wire_codec now operation command (s, h, d) = Inr (s', bytes32 103, d')"
    using b by (simp add: append_event_def session_bytes_def)
  then show ?thesis
    using append_framed_ok [OF ok d' b owned] by blast
qed

lemma sx_frame:
  assumes "session_ok session_wire_codec d sx_id sx_answered h"
  shows "\<exists>d1 d2. append_parts session_wire_codec sx_now (Uuid 3) sx_request ''c1'' sx_output (sx_answered, h, d) =
      Inr (sx_received, bytes32 103, d1) \<and>
    append_event session_wire_codec sx_now (Uuid 3) sx_end (sx_received, bytes32 103, d1) =
      Inr (sx_resulted, bytes32 103, d2) \<and> session_ok session_wire_codec d2 sx_id sx_resulted (bytes32 103)"
proof -
  obtain d1 where d1: "append_event session_wire_codec sx_now sx_part_id sx_part (sx_answered, h, d) =
      Inr (sx_received, bytes32 103, d1)" "session_ok session_wire_codec d1 sx_id sx_received (bytes32 103)"
    using sx_append [OF assms sx_apply_part, of sx_now]
    by (auto simp: sx_part_def call_owned_def sx_received_def)
  obtain d2 where "append_event session_wire_codec sx_now (Uuid 3) sx_end (sx_received, bytes32 103, d1) =
      Inr (sx_resulted, bytes32 103, d2)" "session_ok session_wire_codec d2 sx_id sx_resulted (bytes32 103)"
    using sx_append [OF d1(2) sx_apply_end, of sx_now]
    by (auto simp: sx_end_def call_owned_def sx_resulted_def)
  with d1(1) show ?thesis
    by (simp add: append_parts_def sx_fragments sx_part_def sx_part_id_def)
qed

lemma sx_result_append:
  assumes "session_ok session_wire_codec d sx_id sx_answered h"
  shows "\<exists>d'. append_session_command session_wire_codec sx_now (Uuid 3) sx_result (sx_answered, h, d) =
      Inr (sx_resulted, bytes32 103, d') \<and> session_ok session_wire_codec d' sx_id sx_resulted (bytes32 103)"
proof -
  obtain d1 d2 where "append_parts session_wire_codec sx_now (Uuid 3) sx_request ''c1'' sx_output (sx_answered, h, d) =
      Inr (sx_received, bytes32 103, d1)"
    "append_event session_wire_codec sx_now (Uuid 3) sx_end (sx_received, bytes32 103, d1) =
      Inr (sx_resulted, bytes32 103, d2)" and ok: "session_ok session_wire_codec d2 sx_id sx_resulted (bytes32 103)"
    using sx_frame [OF assms] by blast
  moreover obtain b where "enc_session_event session_wire_codec (SessionCommandEvent (Uuid 3)
      (ToolResult sx_request ''c1'' sx_output) (sx_now sx_result)) = Inr b" "blen session_wire_codec b > MAX_EVENT_BYTES"
    by (simp add: session_wire_codec_def journaled_event_def journaled_command_def sx_result_def sx_output_length
        MAX_EVENT_BYTES_def)
  ultimately have "append_session_command session_wire_codec sx_now (Uuid 3) sx_result (sx_answered, h, d) =
      Inr (sx_resulted, bytes32 103, d2)"
    by (simp add: append_session_command_def sx_result_def sx_output_digest sx_end_def)
  with ok show ?thesis by blast
qed

lemma sx_result_command:
  assumes "session_ok session_wire_codec d sx_id sx_answered h"
  shows "\<exists>d'. session_command session_wire_codec sx_store sx_now sx_id 3 (Uuid 3) sx_result d = Inr (sx_resulted, d') \<and>
    session_ok session_wire_codec d' sx_id sx_resulted (bytes32 103)"
proof -
  obtain d2 where "append_session_command session_wire_codec sx_now (Uuid 3) sx_result (sx_answered, h, d) =
      Inr (sx_resulted, bytes32 103, d2)" and ok: "session_ok session_wire_codec d2 sx_id sx_resulted (bytes32 103)"
    using sx_result_append [OF assms] by blast
  moreover have "bt_get (se_operations sx_answered) (Uuid 3) = None" "se_revision sx_answered = 3"
    "se_active_request sx_answered = Some sx_request" "pending_tool_call sx_answered ''c1'' sx_request"
    by (simp_all add: sx_answered_def sx_asked_def sx_request_def pending_tool_call_def bt_get_def)
  ultimately show ?thesis
    using load_session_state_ok [OF assms] ok
    by (simp add: session_command_def sx_fingerprint sx_result_def reporting_request_def session_guard_def
        check_tool_result_def)
qed

end
