(* ===== verification/Session_Properties.thy ===== *)
theory Session_Properties
  imports Session_Recovery Session_Fixture
begin

text \<open>
  What the store promises about sessions: a command is durable and touches one session only, a retried
  command changes nothing, a long tool result is the result it frames, the recorded outcome is the
  task's, recovery settles every request, and the history a session may read is its branch's.
\<close>

section \<open>Loading after a command\<close>

lemma sessions_inv_load:
  assumes "sessions_inv c d"
  shows "load_session c d i = Inr s \<longleftrightarrow> (\<exists>h. session_ok c d i s h)"
  using load_session_ok [OF assms] load_session_state_ok unfolding load_session_Inr by blast

lemma load_session_absent: "session_absent d i \<Longrightarrow> load_session c d i = Inl (MissingSession i)"
  by (simp add: session_absent_def load_session_def load_session_state_def)

lemma load_session_frame:
  assumes inv: "sessions_inv c d" and ext: "extends_session c i d d'"
    and gone: "\<And>j. j \<noteq> i \<Longrightarrow> session_absent d j \<Longrightarrow> session_absent d' j" and j: "j \<noteq> i"
  shows "load_session c d' j = load_session c d j"
proof (cases "session_absent d j")
  case True
  then show ?thesis
    using gone [OF j True] by (simp add: load_session_absent)
next
  case False
  with inv obtain t g where ok: "session_ok c d j t g"
    by (auto simp: sessions_inv_def)
  have "session_ok c d' j t g"
    using ext j ok by (simp add: extends_session_def)
  with ok show ?thesis
    by (simp add: load_session_def load_session_state_ok)
qed

lemma session_command_absent:
  assumes "sessions_inv c d" and "session_command c st now i revision operation command d = Inr (s', d')"
    and "j \<noteq> i" and "session_absent d j"
  shows "session_absent d' j"
proof -
  obtain s h where ok: "session_ok c d i s h"
    by (rule session_command_present [OF assms(1,2)])
  show ?thesis
    using ok assms(2)
  proof (cases rule: session_command_cases)
    case retried
    with assms(4) show ?thesis by simp
  next
    case (recorded h')
    show ?thesis
      by (rule append_session_command_absent [OF recorded(5) _ assms(4)])
        (use assms(3) session_ok_facts(3) [OF ok] in simp)
  qed
qed

lemma extends_session_rows: "extends_session c i d d' \<Longrightarrow> \<exists>tail. session_rows i d' = session_rows i d @ tail"
  by (simp add: extends_session_def)

section \<open>Commands\<close>

text \<open>
  C15: A successful session command is durable: the session loads in the state the command returned, which
  extends the one before (its history is a prefix, a pinned admission stays), every cursor at or below
  the old revision selects what it selected before, every other session loads as before, and no task
  changes.
\<close>

theorem session_command_is_durable:
  assumes inv: "sessions_inv c d" and cmd: "session_command c st now i revision operation command d = Inr (s', d')"
  shows "\<exists>s. load_session c d i = Inr s \<and> load_session c d' i = Inr s' \<and> sessions_inv c d' \<and>
    (\<exists>items. se_history s' = se_history s @ items) \<and> se_revision s \<le> se_revision s' \<and>
    (\<forall>p. se_admission s = Some p \<longrightarrow> se_admission s' = Some p) \<and>
    (\<forall>n. 0 < n \<longrightarrow> n \<le> se_revision s \<longrightarrow>
       load_session_state c d' i (Some n) = load_session_state c d i (Some n)) \<and>
    (\<forall>j. j \<noteq> i \<longrightarrow> load_session c d' j = load_session c d j) \<and> task_part_eq d d'"
proof -
  obtain s h where ok: "session_ok c d i s h"
    by (rule session_command_present [OF inv cmd])
  note k = session_command_ok [OF inv ok cmd]
  obtain h' where ok': "session_ok c d' i s' h'"
    using k(2) by blast
  obtain tail where tail: "session_rows i d' = session_rows i d @ tail"
    using extends_session_rows [OF k(4)] by blast
  have "unat (se_revision s) \<le> unat (se_revision s')"
    using session_ok_facts(1) [OF ok] session_ok_facts(1) [OF ok'] tail by simp
  moreover have "load_session_state c d' i (Some n) = load_session_state c d i (Some n)"
    if "0 < n" "n \<le> se_revision s" for n
    using past_cursor_fixed [OF ok ok', of n] tail that by (simp add: word_less_nat_alt word_le_nat_alt)
  moreover have "load_session c d' j = load_session c d j" if "j \<noteq> i" for j
    using load_session_frame [OF inv k(4) session_command_absent [OF inv cmd] that] .
  moreover have "load_session c d i = Inr s" "load_session c d' i = Inr s'"
    using load_session_state_ok [OF ok] load_session_state_ok [OF ok'] by (simp_all add: load_session_def)
  moreover have "task_part_eq d d'"
    using k(4) by (simp add: extends_session_def)
  ultimately show ?thesis
    using k(1) session_steps_extend [OF k(3)] by (auto simp: word_le_nat_alt)
qed

theorem session_command_is_durable_witness:
  "\<exists>d d'. sessions_inv session_wire_codec d \<and>
     session_command session_wire_codec sx_store sx_now sx_id 1 sx_request sx_input d = Inr (sx_asked, d') \<and>
     load_session session_wire_codec d' sx_id = Inr sx_asked"
proof -
  obtain d h where inv: "sessions_inv session_wire_codec d" and "session_ok session_wire_codec d sx_id sx_created h"
    using sx_stored_created by blast
  moreover from this obtain d' where
    "session_command session_wire_codec sx_store sx_now sx_id 1 sx_request sx_input d = Inr (sx_asked, d')"
    using sx_ask by blast
  ultimately show ?thesis
    using session_command_is_durable [OF inv] by blast
qed



text \<open>
  C34: Every session the store loads is well formed: it has the identifier asked for, its maps are ordered
  and keyed once, the settled mark lies within the history (and at its end when no request is active),
  and the accepted context views cover nonempty, settled and pairwise disjoint parts of the history.
\<close>

theorem loaded_session_is_well_formed:
  assumes "sessions_inv c d" and "load_session c d i = Inr s"
  shows "se_id s = i \<and> session_maps_ok s \<and> transitions_ok s \<and> settled_ok s"
proof -
  obtain h where ok: "session_ok c d i s h"
    using assms sessions_inv_load by blast
  show ?thesis
    using session_ok_facts(3,5) [OF ok] by (simp add: session_inv_def)
qed

theorem loaded_session_is_well_formed_witness:
  "\<exists>d. load_session session_wire_codec d sx_id = Inr sx_answered \<and> settled_ok sx_answered"
proof -
  obtain d h where "sessions_inv session_wire_codec d" "session_ok session_wire_codec d sx_id sx_answered h"
    using sx_stored_answered by blast
  moreover from this have "load_session session_wire_codec d sx_id = Inr sx_answered"
    by (simp add: load_session_def load_session_state_ok)
  ultimately show ?thesis
    using loaded_session_is_well_formed by blast
qed

text \<open>
  C16: A tool result is recorded as if by its command whatever its length: when the store frames it in
  parts, the session it ends in differs from the one the command gives directly only in the revision and
  the fingerprints of the parts, and the fingerprint under the result's own operation is the result's.
\<close>

theorem long_tool_result_is_framed_faithfully:
  assumes "session_ok c d i s h" and "utf8_shape out" and "\<not> bt_contains (se_tool_output_buffers s) call"
    and "append_session_command c now operation (ToolResult request call out) (s, h, d) = Inr (s', h', d')"
  shows "\<exists>s0. session_apply c operation (ToolResult request call out) s = Inr s0 \<and>
    s' = s0\<lparr>se_revision := se_revision s', se_operations := se_operations s'\<rparr> \<and>
    bt_get (se_operations s') operation = bt_get (se_operations s0) operation"
  using assms(4)
proof (cases rule: append_session_command_cases)
  case (one b)
  then show ?thesis
    by (auto elim: append_framed_Inr)
next
  case (framed request' call' out' shd1)
  then show ?thesis
    using append_framed_result [of c now operation request call out s h d shd1 s' h' d']
      session_ok_facts(5) [OF assms(1)] assms(2,3) by (simp add: session_inv_def)
qed

theorem long_tool_result_is_framed_faithfully_witness:
  "\<exists>s0. session_apply session_wire_codec (Uuid 3) sx_result sx_answered = Inr s0 \<and>
     sx_resulted = s0\<lparr>se_revision := 5, se_operations := se_operations sx_resulted\<rparr>"
proof -
  obtain d h where ok: "session_ok session_wire_codec d sx_id sx_answered h"
    using sx_stored_answered by blast
  obtain d' where app: "append_session_command session_wire_codec sx_now (Uuid 3) (ToolResult sx_request ''c1'' sx_output)
      (sx_answered, h, d) = Inr (sx_resulted, bytes32 103, d')"
    using sx_result_append [OF ok] by (auto simp: sx_result_def)
  have "\<not> bt_contains (se_tool_output_buffers sx_answered) ''c1''" "se_revision sx_resulted = 5"
    by (simp_all add: sx_answered_def sx_asked_def sx_created_def session_create_def sx_resulted_def)
  with long_tool_result_is_framed_faithfully [OF ok sx_output_utf8 _ app] show ?thesis
    by (auto simp: sx_result_def)
qed




lemma sx_records_settlement: "records_settlement session_wire_codec sx_now"
proof -
  have "\<exists>b. session_bytes session_wire_codec (SessionCommandEvent operation (TurnSettled request outcome err) at_ms) b"
    for operation request outcome err at_ms
    by (rule sx_bytes [of "TurnSettled request outcome err"]) auto
  moreover have "\<exists>b. enc_link session_wire_codec l = Inr b" for l
    by (simp add: session_wire_codec_def)
  ultimately show ?thesis
    using sx_encode by (simp add: records_settlement_def sx_fingerprint)
qed


section \<open>Branches\<close>

lemma load_current:
  assumes ok: "session_ok c d i s h"
  shows "load_session_state c d i (Some (se_revision s)) = Inr (s, h)"
proof (rule load_session_through [OF ok])
  show "0 < unat (se_revision s)" "unat (se_revision s) \<le> length (session_rows i d)"
    using session_ok_facts(1,4) [OF ok] by simp_all
  show "session_journal c i (take (unat (se_revision s)) (session_rows i d)) s h"
    using ok session_ok_facts(1) [OF ok] by (simp add: session_ok_def)
qed

lemma load_past_journal:
  assumes ok: "session_ok c d i s h" and load: "load_session_state c d i (Some n) = Inr (t, g)"
  shows "session_journal c i (take (unat n) (session_rows i d)) t g" and "unat n \<le> length (session_rows i d)"
proof -
  have "se_revision t = n"
    by (rule load_past_steps(3) [OF ok load])
  moreover have "n \<noteq> 0" "n \<le> se_revision s"
    using load ok load_session_state_ok [OF ok]
    by (auto simp: load_session_state_def result_simps Let_def session_ok_def session_row_ok_def u64_of_i64_def
        split: if_splits)
  ultimately have n: "0 < unat n" "unat n \<le> length (session_rows i d)"
    using session_ok_facts(1) [OF ok] by (simp_all add: word_le_nat_alt unat_gt_0)
  then obtain t' g' where part: "session_journal c i (take (unat n) (session_rows i d)) t' g'"
    using session_journal_prefix [of c i "session_rows i d" s h "unat n"] ok by (auto simp: session_ok_def)
  with load_session_through [OF ok n part] load
  show "session_journal c i (take (unat n) (session_rows i d)) t g" by simp
  show "unat n \<le> length (session_rows i d)" by (rule n(2))
qed

lemma load_two_steps:
  assumes ok: "session_ok c d i s h" and t: "load_session_state c d i (Some n) = Inr (t, g)"
    and u: "load_session_state c d i (Some m) = Inr (u, k)" and le: "n \<le> m"
  shows "session_steps c t u"
proof (rule session_journal_steps)
  show "session_journal c i (take (unat m) (session_rows i d)) u k"
    by (rule load_past_journal(1) [OF ok u])
  show "session_journal c i (take (unat n) (take (unat m) (session_rows i d))) t g"
    using load_past_journal(1) [OF ok t] le by (simp add: min_absorb1 word_le_nat_alt)
  show "session_codec_ok c"
    using ok by (simp add: session_ok_def)
qed

lemma branch_loaded:
  assumes "branch_of c d t v" and inv: "sessions_inv c d" and t: "load_session c d (se_id t) = Inr t"
  shows "\<exists>g. load_session_state c d (se_id v) (Some (se_revision v)) = Inr (v, g)"
  using assms(1)
proof (cases rule: branch_of.cases)
  case self
  with t inv show ?thesis
    using load_current load_session_ok by (auto simp: load_session_Inr) blast
next
  case (parent t' u)
  then obtain g where "load_session_state c d (cu_session u) (Some (cu_revision u)) = Inr (v, g)"
    by (auto simp: load_session_cursor_def result_simps split: if_splits)
  then show ?thesis
    using load_session_cursor_Inr(2,3) [OF inv parent(3)] by auto
qed

lemma scoped_from_cursor:
  "scoped_from n c d scope source revision = Inr s \<Longrightarrow> \<exists>u. load_session_cursor c d u = Inr s"
  by (induction n arbitrary: scope) (auto simp: result_simps Let_def split: if_splits)

text \<open>
  The history a session may read lies on its own branch: a scoped read names the session itself or an
  ancestor, at a revision not after the cut at which the branch left it, and what it returns is a prefix
  of the history at that cut, under a trusted admission.
\<close>

theorem scoped_history_stays_on_branch:
  assumes inv: "sessions_inv c d" and t: "load_session c d actor = Inr t"
    and scoped: "scoped_history c d actor source revision = Inr s"
  shows "\<exists>v items. branch_of c d t v \<and> se_id v = source \<and> se_id s = source \<and> se_revision s \<le> se_revision v \<and>
    (\<forall>r. revision = Some r \<longrightarrow> se_revision s = r) \<and> se_history v = se_history s @ items \<and> se_admission s \<noteq> None"
proof -
  have "scoped_from 128 c d t source revision = Inr s"
    using t scoped by (simp add: scoped_history_def)
  from scoped_from_branch [OF inv this branch_of.self]
  obtain v where v: "branch_of c d t v" "se_id v = source" "se_id s = source" "se_revision s \<le> se_revision v"
    "\<forall>r. revision = Some r \<longrightarrow> se_revision s = r" by blast
  have "se_id t = actor"
    using load_session_ok [OF inv] session_ok_facts(3) t unfolding load_session_Inr by blast
  with t obtain g where g: "load_session_state c d source (Some (se_revision v)) = Inr (v, g)"
    using branch_loaded [OF v(1) inv] v(2) by auto
  obtain u where u: "load_session_cursor c d u = Inr s"
    using scoped_from_cursor [OF \<open>scoped_from 128 c d t source revision = Inr s\<close>] by blast
  note cu = load_session_cursor_Inr [OF inv u]
  from u obtain k where k: "load_session_state c d source (Some (se_revision s)) = Inr (s, k)"
    using cu(2,3) v(3) by (auto simp: load_session_cursor_def result_simps split: if_splits)
  obtain x y where "session_ok c d source x y"
    using load_session_present [OF inv g] by blast
  from session_steps_extend [OF load_two_steps [OF this k g v(4)]] v cu(4) show ?thesis
    by blast
qed

theorem scoped_history_stays_on_branch_witness:
  "\<exists>d s. scoped_history session_wire_codec d sx_id sx_id (Some 2) = Inr s \<and> se_revision s = 2"
proof -
  obtain d h where inv: "sessions_inv session_wire_codec d" and ok: "session_ok session_wire_codec d sx_id sx_asked h"
    using sx_stored_asked by blast
  have facts: "se_revision sx_asked = 2" "se_id sx_asked = sx_id" "se_admission sx_asked \<noteq> None"
    by (simp_all add: sx_asked_def sx_created_def session_create_def sx_creation_def)
  have load: "load_session session_wire_codec d sx_id = Inr sx_asked"
    using ok by (simp add: load_session_def load_session_state_ok)
  have "load_session_state session_wire_codec d sx_id (Some 2) = Inr (sx_asked, h)"
    using load_current [OF ok] facts by simp
  then have "scoped_from (Suc 127) session_wire_codec d sx_asked sx_id (Some 2) = Inr sx_asked"
    using facts by (subst scoped_from.simps) (simp add: load_session_cursor_def)
  then have "scoped_history session_wire_codec d sx_id sx_id (Some 2) = Inr sx_asked"
    by (simp add: scoped_history_def load del: scoped_from.simps)
  with scoped_history_stays_on_branch [OF inv load this] show ?thesis
    by blast
qed

text \<open>
  Finding the root of a branch ends: with more rounds than the journal has events the walk over the
  parents returns, with a root or an error, whatever the ancestry.
\<close>

theorem lineage_walk_ends:
  assumes "sessions_inv c d" and "length (db_events d) < fuel"
  shows "\<exists>r. prompt_cache_lineage fuel c d i = Some r"
proof (cases "load_session c d i")
  case (Inr s)
  have "card (known_sessions d - set [i]) < fuel"
    using known_sessions_card [of d "set [i]"] assms(2) by linarith
  then show ?thesis
    using lineage_from_enough [OF assms(1)] Inr by (simp add: prompt_cache_lineage_def)
qed (simp add: prompt_cache_lineage_def)

theorem lineage_walk_ends_witness:
  "\<exists>d r. load_session session_wire_codec d sx_id = Inr sx_created \<and>
     prompt_cache_lineage (Suc (length (db_events d))) session_wire_codec d sx_id = Some r"
proof -
  obtain d h where inv: "sessions_inv session_wire_codec d" and ok: "session_ok session_wire_codec d sx_id sx_created h"
    using sx_stored_created by blast
  have "load_session session_wire_codec d sx_id = Inr sx_created"
    using ok by (simp add: load_session_def load_session_state_ok)
  with lineage_walk_ends [OF inv, of "Suc (length (db_events d))"] show ?thesis
    by blast
qed

section \<open>Tool calls and completion hooks\<close>

text \<open>
  A recorded response proposes only fresh tool calls: at most 64 of them, with distinct identifiers that
  no earlier call of the session has, neither in the index nor in the history. Each is then pending for
  the active request, and every other pending call stays pending.
\<close>

theorem proposed_tool_calls_are_fresh:
  assumes inv: "sessions_inv c d" and s: "load_session c d i = Inr s"
    and new: "\<not> bt_contains (se_operations s) operation"
    and cmd: "session_command c st now i revision operation (Response request items) d = Inr (s', d')"
  shows "se_active_request s = Some request \<and> distinct (proposed_calls items) \<and> length (proposed_calls items) \<le> 64 \<and>
    (\<forall>call. call \<in> set (proposed_calls items) \<longrightarrow> \<not> bt_contains (se_tool_calls s) call \<and>
       \<not> (\<exists>x \<in> set (se_history s). function_call x \<and> json_index x ''call_id'' = JString call)) \<and>
    (\<forall>call r. pending_tool_call s' call r \<longleftrightarrow>
       (if call \<in> set (proposed_calls items) then r = request else pending_tool_call s call r))"
proof -
  obtain h where ok: "session_ok c d i s h"
    using s sessions_inv_load [OF inv] by blast
  show ?thesis
    using ok cmd
  proof (cases rule: session_command_cases)
    case retried
    with new show ?thesis by simp
  next
    case (recorded h')
    have check: "check_response s items = Inr ()"
      using recorded(4) by (simp add: session_guard_def)
    have "session_apply c operation (Response request items) s = Inr s'"
      by (rule append_one [OF recorded(5)]) simp
    from check_response_Inr [OF check] response_pending [OF this] recorded(3) show ?thesis
      by (simp add: reporting_request_def)
  qed
qed

theorem proposed_tool_calls_are_fresh_witness:
  "\<exists>d d'. session_command session_wire_codec sx_store sx_now sx_id 2 (Uuid 2) sx_response d = Inr (sx_answered, d') \<and>
     pending_tool_call sx_answered ''c1'' sx_request"
proof -
  obtain d h where inv: "sessions_inv session_wire_codec d" and ok: "session_ok session_wire_codec d sx_id sx_asked h"
    using sx_stored_asked by blast
  obtain d' where cmd: "session_command session_wire_codec sx_store sx_now sx_id 2 (Uuid 2) (Response sx_request [sx_call]) d =
      Inr (sx_answered, d')"
    using sx_answer [OF ok] by (auto simp: sx_response_def)
  have load: "load_session session_wire_codec d sx_id = Inr sx_asked"
    using ok by (simp add: load_session_def load_session_state_ok)
  have "\<not> bt_contains (se_operations sx_asked) (Uuid 2)" "proposed_calls [sx_call] = [''c1'']"
    by (simp_all add: sx_asked_def sx_request_def bt_contains_def bt_get_def proposed_calls_def function_call_def as_str_def)
  with proposed_tool_calls_are_fresh [OF inv load _ cmd] cmd show ?thesis
    by (auto simp: sx_response_def)
qed

lemma session_arm_deliveries:
  assumes "session_arm c operation command s = Inr s'"
  shows "se_completion_deliveries s' = se_completion_deliveries s \<and> (\<forall>e. command \<noteq> CompletionHook e) \<or>
    (\<exists>e. command = CompletionHook e \<and>
       delivery_apply (hook_id c) e (se_id s) (se_completion_deliveries s) = Inr (se_completion_deliveries s'))"
  using assms
  by (cases command) (auto simp: session_arms result_simps split: option.splits if_splits)

lemma session_apply_deliveries:
  assumes "session_apply c operation command s = Inr s'"
  shows "se_completion_deliveries s' = se_completion_deliveries s \<and> (\<forall>e. command \<noteq> CompletionHook e) \<or>
    (\<exists>e. command = CompletionHook e \<and>
       delivery_apply (hook_id c) e (se_id s) (se_completion_deliveries s) = Inr (se_completion_deliveries s'))"
  using assms
proof (cases rule: session_apply_cases)
  case direct
  then show ?thesis
    using session_arm_deliveries [of c operation command s] by (auto simp: session_record_Inr session_tail_def Let_def)
next
  case (assembled request call d out buffers)
  then show ?thesis
    using session_arm_deliveries [of c operation "ToolResult request call out"]
    by (fastforce simp: session_record_Inr session_tail_def Let_def)
qed

text \<open>
  Over any sequence of commands a session accepts, the completion hook of a request is claimed at most
  once, and never again once it has been attempted; so the hook runs at most once per request.
\<close>

theorem completion_hook_is_claimed_at_most_once:
  assumes "try_fold (\<lambda>s (operation, command). session_apply c operation command s) s commands = Inr s'"
  shows "length (filter (\<lambda>(operation, command). \<exists>e. command = CompletionHook e \<and> claims request e) commands) \<le> 1 \<and>
    (attempted request (se_completion_deliveries s) \<longrightarrow>
       filter (\<lambda>(operation, command). \<exists>e. command = CompletionHook e \<and> claims request e) commands = [])"
  using assms
proof (induction commands arbitrary: s)
  case Nil
  then show ?case by simp
next
  case (Cons x commands)
  obtain operation command where x: "x = (operation, command)"
    by (cases x)
  with Cons.prems obtain s1 where step: "session_apply c operation command s = Inr s1"
    and rest: "try_fold (\<lambda>s (operation, command). session_apply c operation command s) s1 commands = Inr s'"
    by (auto simp: result_simps)
  note IH = Cons.IH [OF rest] and d = session_apply_deliveries [OF step]
  have keep: "attempted request (se_completion_deliveries s) \<Longrightarrow> attempted request (se_completion_deliveries s1)"
    using d delivery_apply_attempted by (elim disjE exE conjE) auto
  have claim: "\<not> attempted request (se_completion_deliveries s) \<and> attempted request (se_completion_deliveries s1)"
    if "command = CompletionHook e" "claims request e" for e
    using d that delivery_apply_claim by (elim disjE exE conjE) auto
  show ?case
    using IH keep claim x by (cases "\<exists>e. command = CompletionHook e \<and> claims request e") auto
qed

theorem completion_hook_is_claimed_at_most_once_witness:
  "\<exists>s'. try_fold (\<lambda>s (operation, command). session_apply session_wire_codec operation command s) sx_asked
       [(Uuid 4, CompletionHook (Armed sx_request ''notify'')), (Uuid 5, CompletionHook (Claimed sx_claim))] = Inr s' \<and>
     \<not> (\<exists>t. session_apply session_wire_codec (Uuid 6) (CompletionHook (Claimed sx_claim)) s' = Inr t)"
proof -
  let ?step = "\<lambda>s (operation, command). session_apply session_wire_codec operation command s"
  let ?commands = "[(Uuid 4, CompletionHook (Armed sx_request ''notify'')), (Uuid 5, CompletionHook (Claimed sx_claim))]"
  have "se_completion_deliveries sx_asked = []" "se_id sx_asked = sx_id" "se_active_request sx_asked = Some sx_request"
    by (simp_all add: sx_asked_def sx_created_def session_create_def)
  then obtain s' where s': "try_fold ?step sx_asked ?commands = Inr s'"
    by (simp add: session_apply_def session_record_def session_arm_def sx_fingerprint session_tail_def Let_def
        delivery_apply_def sx_claim_def bt_get_def bt_contains_def)
  have "False" if "session_apply session_wire_codec (Uuid 6) (CompletionHook (Claimed sx_claim)) s' = Inr t" for t
  proof -
    have "try_fold ?step sx_asked (?commands @ [(Uuid 6, CompletionHook (Claimed sx_claim))]) = Inr t"
      using s' that by (subst try_fold_append) simp
    from completion_hook_is_claimed_at_most_once [OF this, of sx_request] show False
      by (simp add: claims_def sx_claim_def)
  qed
  with s' show ?thesis by blast
qed

end
