(* ===== verification/Context_Properties.thy ===== *)
theory Context_Properties
  imports Session_Fixture
begin

text \<open>
  What the model sees of a session: the projected input fits the window of the model, stays bound to the
  history it was made from, and leaves out only whole, marked blocks of it.
\<close>

section \<open>Context\<close>

text \<open>
  C35: The projection of a session fits its window: the encoded input and the tokens kept for the output
  together never exceed the window, at one byte per token. The view is bound to the session's present
  cursor and history, is accepted as valid for it, also after cached bitmaps have been put back in, and
  stands for its own input.
\<close>

theorem projection_fits_the_window:
  assumes limit: "projection_byte_limit window = Inr n" and p: "project c s n = Inr v"
  shows "(\<exists>b. enc_history c (cv_input v) = Inr b \<and> blen c b + unat (output_token_limit window) \<le> unat window) \<and>
    mf_source (cv_manifest v) = cursor s \<and> valid_for c v s \<and> input_or_native c v s = cv_input v \<and>
    (\<forall>cached. valid_for c (reuse_representations c v cached s) s)"
proof -
  obtain b where "enc_history c (cv_input v) = Inr b" "blen c b \<le> n"
    using project_bounded(1) [OF p] by blast
  then show ?thesis
    using projection_byte_limit_Inr(1) [OF limit] project_bounded(4) [OF p] project_valid [OF p]
      reuse_valid [OF project_valid(1) [OF p]] by auto
qed

lemma sx_projected_items: "projected_items sx_asked =
    Inr ([], [\<lparr>pi_value = sx_user, pi_source = Some 0, pi_stable = False\<rparr>])"
  by (simp add: projected_items_def sx_asked_def sx_created_def session_create_def sx_creation_def scan_item_def
      track_def as_str_def repair_pending_def)

lemma sx_cuts:
  assumes "4096 \<le> n"
  shows "choose_cuts [\<lparr>pi_value = sx_user, pi_source = Some 0, pi_stable = False\<rparr>] [0, 65] n =
    \<lparr>ku_epoch_start = 0, ku_live_cut = 0, ku_base_start = 0\<rparr>"
proof -
  have "append_budget n \<ge> 2048"
    using assms by (simp add: append_budget_def OMISSION_NOTICE_RESERVE_BYTES_def MAX_OUTPUT_TOKENS_def)
  then show ?thesis
    by (simp add: choose_cuts_def epoch_start_of_def live_cut_of_def cache_epoch_start_def epoch_item_def track_def
        as_str_def suffix_start_def suffix_from.simps Let_def)
qed

lemma sx_project:
  assumes "4096 \<le> n"
  shows "\<exists>v. project session_wire_codec sx_asked n = Inr v"
proof -
  let ?items = "[\<lparr>pi_value = sx_user, pi_source = Some 0, pi_stable = False\<rparr>]"
  let ?parts = "\<lparr>px_stable = [], px_older = None, px_live_notice = None, px_live = ?items, px_epoch_history_end = 0\<rparr>"
  have sizes: "item_sizes session_wire_codec [\<lparr>pi_value = sx_user, pi_source = Some 0, pi_stable = False\<rparr>] = Inr [0, 65]"
    by (simp add: item_sizes_def session_wire_codec_def size_add_def USIZE_MAX_def)
  have digest: "history_digest session_wire_codec items = Inr (bytes32 (of_nat (length items)))" for items
    by (simp add: history_digest_def of_value_def session_wire_codec_def)
  have enc: "enc_history session_wire_codec items = Inr (HistoryWire items)"
      "blen session_wire_codec (HistoryWire items) = 64" for items
    by (simp_all add: session_wire_codec_def)
  have no_transitions: "se_context_transitions sx_asked = []"
    by (simp add: sx_asked_def sx_created_def session_create_def)
  have parts: "projection_parts_of session_wire_codec sx_asked ?items
      \<lparr>ku_epoch_start = 0, ku_live_cut = 0, ku_base_start = 0\<rparr> = Inr ?parts"
    by (simp add: projection_parts_of_def digest slice_def sources_def end_of_def Let_def)
  have segments: "\<exists>segments. parts_segments session_wire_codec sx_asked n ?parts = Inr segments"
    by (simp add: parts_segments_def parts_input_def push_all_def segment_def slice_def digest Let_def)
  show ?thesis
    unfolding project_def project_native_def using segments assms
    by (auto simp: no_transitions sx_projected_items sx_cuts sizes digest parts enc Let_def)
qed

theorem projection_fits_the_window_witness:
  "\<exists>v. projection_byte_limit 16384 = Inr 8192 \<and> project session_wire_codec sx_asked 8192 = Inr v \<and>
     valid_for session_wire_codec v sx_asked"
proof -
  have limit: "projection_byte_limit 16384 = Inr 8192"
    by (simp add: projection_byte_limit_def validate_window_tokens_def projection_token_limit_def
        output_token_limit_def MIN_WINDOW_TOKENS_def MAX_WINDOW_TOKENS_def MAX_OUTPUT_TOKENS_def
        CONSERVATIVE_BYTES_PER_TOKEN_def saturating_mul_def saturating_sub_def)
  obtain v where "project session_wire_codec sx_asked 8192 = Inr v"
    using sx_project [of 8192] by auto
  with projection_fits_the_window [OF limit this] limit show ?thesis
    by blast
qed



end
