(* ===== verification/Verification.thy ===== *)
theory Verification
  imports Store_Invariant Utf8
begin

text \<open>
  Protected verification runs (\<^verbatim>\<open>verification.rs\<close>): programs of probes, what makes a program valid, the
  ticket a run holds, running the probes against the candidate and its control, and turning the report
  into evidence. Starting processes, scanning directories and clocks belong to the \<open>host\<close>, an argument.
\<close>

section \<open>Programs\<close>

datatype Expectation = Equals string | Contains string

datatype Probe =
    CommandProbe (probe_id: string) string int "Expectation option" "Expectation option"
  | FileProbe (probe_id: string) string digest

record ControlFailure =
  cf_probe :: string
  cf_stdout :: "Expectation option"
  cf_stderr :: "Expectation option"

record CheckProgram =
  cp_version :: u32
  cp_probes :: "Probe list"
  cp_control_failure :: "ControlFailure option"

fun expectation_matches :: "Expectation \<Rightarrow> string \<Rightarrow> bool" where
  "expectation_matches (Equals text) bytes = (bytes = text)"
| "expectation_matches (Contains text) bytes = (text \<noteq> [] \<and> str_contains bytes text)"

fun expectation_valid :: "Expectation \<Rightarrow> bool" where
  "expectation_valid (Equals text) = True"
| "expectation_valid (Contains text) = (text \<noteq> [])"

definition meets :: "Expectation option \<Rightarrow> string \<Rightarrow> bool" where
  "meets e bytes = (case e of None \<Rightarrow> True | Some x \<Rightarrow> expectation_matches x bytes)"

definition invalid_expectation :: "Expectation option \<Rightarrow> bool" where
  "invalid_expectation e = (case e of None \<Rightarrow> False | Some x \<Rightarrow> \<not> expectation_valid x)"

definition EXECUTOR_MAX_COMMAND_BYTES :: nat where
  "EXECUTOR_MAX_COMMAND_BYTES = 64 * 1024"

definition validate_probe :: "string btreeset \<Rightarrow> Probe \<Rightarrow> StoreError + string btreeset" where
  "validate_probe ids probe =
     (if probe_id probe = [] \<or> probe_id probe \<in> set ids
      then Inl (Invalid ''verification probe IDs must be unique'') else
      and_then (case probe of
          CommandProbe _ command _ out err \<Rightarrow>
            if blank command \<or> length command > EXECUTOR_MAX_COMMAND_BYTES \<or> out = None \<and> err = None
               \<or> invalid_expectation out \<or> invalid_expectation err
            then Inl (Invalid ''command probes require a bounded command and observable output expectation'')
            else Inr ()
        | FileProbe _ path _ \<Rightarrow>
            if path = [] \<or> \<not> list_all is_normal (components path)
            then Inl (Invalid ''file probe escapes candidate'') else Inr ()) (\<lambda>_.
      Inr (bs_insert (probe_id probe) ids)))"

definition program_validate :: "CheckProgram \<Rightarrow> StoreError + unit" where
  "program_validate p =
     (if cp_version p \<noteq> 1 \<or> cp_probes p = [] \<or> length (cp_probes p) > 128
      then Inl (Invalid ''invalid verification program version or probe count'') else
      and_then (try_fold validate_probe [] (cp_probes p)) (\<lambda>ids.
      case cp_control_failure p of
        None \<Rightarrow> Inr ()
      | Some control \<Rightarrow>
          if cf_probe control \<notin> set ids \<or> cf_stdout control = None \<and> cf_stderr control = None
             \<or> invalid_expectation (cf_stdout control) \<or> invalid_expectation (cf_stderr control)
          then Inl (Invalid ''control must name a probe and a non-empty expected behavioral failure'')
          else Inr ()))"

section \<open>Tickets and reports\<close>

datatype ExecutionStatus =
  Exited int | ExecutionCancelled | TimedOut | OutputLimit | ExecutionFailed string | ExecutionUnknown string

record ExecutionRequest =
  xq_job_id :: uuid
  xq_workspace :: string
  xq_command :: string
  xq_readonly :: bool
  xq_timeout_ms :: u64
  xq_output_bytes :: u64

record ExecutionResult =
  xr_job_id :: uuid
  xr_status :: ExecutionStatus
  xr_stdout :: string
  xr_stderr :: string
  xr_elapsed_ms :: u64
  xr_image_id :: string
  xr_container_name :: string

record 'b VerificationTicket =
  vt_lease :: "'b VerificationLease"
  vt_program :: CheckProgram
  vt_candidate :: Snapshot
  vt_environment :: digest
  vt_timeout_ms :: u64
  vt_control_required :: bool
  vt_control_kind :: ControlRequirement
  vt_control_source :: "digest option"

record ProbeReport =
  pb_id :: string
  pb_passed :: bool
  pb_infrastructure_ok :: bool
  pb_assertions :: u64
  pb_stdout :: string
  pb_stderr :: string
  pb_execution :: "ExecutionResult option"

record VerificationReport =
  vr_job_id :: uuid
  vr_probes :: "ProbeReport list"
  vr_control :: "ProbeReport list"
  vr_limitations :: "string list"
  vr_cancelled :: bool
  vr_control_required :: bool
  vr_control_matched :: bool
  vr_image_id :: string
  vr_source :: digest
  vr_control_source :: "digest option"

text \<open>The encodings a run reads and writes; \<open>derive_uuid\<close> is \<open>Uuid::new_v5\<close>.\<close>

record 'b verification_codec =
  derive_uuid :: "uuid \<Rightarrow> string \<Rightarrow> uuid"
  dec_program :: "'b \<Rightarrow> string + CheckProgram"
  enc_snapshot :: "Snapshot \<Rightarrow> string + 'b"
  enc_report :: "VerificationReport \<Rightarrow> string + 'b"
  enc_probe_reports :: "ProbeReport list \<Rightarrow> string + 'b"

text \<open>
  The host at a moment \<open>'w\<close>: whether a directory holds exactly a snapshot (a scan that fails counts as
  no), the time since the run started in nanoseconds, whether the run was cancelled, the executor's
  identity, and the executor. Time passes in \<open>pass\<close> and while a command runs.
\<close>

record 'w host =
  matches_exact :: "'w \<Rightarrow> Snapshot \<Rightarrow> string \<Rightarrow> bool"
  elapsed_ns :: "'w \<Rightarrow> nat"
  is_cancelled :: "'w \<Rightarrow> bool"
  host_environment :: "digest option"
  host_image_id :: string
  execute_request :: "ExecutionRequest \<Rightarrow> 'w \<Rightarrow> (string + ExecutionResult) \<times> 'w"
  pass :: "'w \<Rightarrow> 'w"

section \<open>Preparation\<close>

definition control_source_of :: "TaskState \<Rightarrow> CheckDefinition \<Rightarrow> StoreError + digest option" where
  "control_source_of s definition =
     (case d_control definition of
        ControlNone \<Rightarrow> Inr None
      | BaselineFailure \<Rightarrow>
          and_then (ok_or (t_baseline s) (Invalid ''baseline must be established before verification''))
            (\<lambda>baseline. Inr (Some (cand_source baseline)))
      | NegativeControl \<Rightarrow> Inr (d_control_source definition))"

definition verification_prepare ::
    "('b, 'z) codec_scheme \<Rightarrow> ('b, 'y) verification_codec_scheme \<Rightarrow> 'b ArtifactStore \<Rightarrow> TaskId \<Rightarrow> u64 \<Rightarrow> string \<Rightarrow> 'b \<Rightarrow> uuid \<Rightarrow>
     u64 \<Rightarrow> 'b db \<Rightarrow> StoreError + 'b VerificationTicket \<times> 'b db" where
  "verification_prepare c v st task revision check token job_id now d =
     and_then (load c d task) (\<lambda>s.
     if t_revision s \<noteq> revision then Inl (RevisionMismatch revision (t_revision s)) else
     and_then (accepted_contract s) (\<lambda>contract.
     and_then (ok_or (bt_get (c_checks contract) check) (Invalid ''unknown check'')) (\<lambda>definition.
     and_then (map_err StoreArtifact (read_artifact c st (d_verifier definition))) (\<lambda>bytes.
     and_then (map_err StoreJson (dec_program v bytes)) (\<lambda>program.
     and_then (program_validate program) (\<lambda>_.
     and_then (ok_or (t_candidate s) (Invalid ''missing candidate'')) (\<lambda>candidate.
     and_then (map_err (\<lambda>_. Invalid ''invalid candidate snapshot'')
         (snapshot_load c (dec_snapshot c) st (cand_source candidate))) (\<lambda>snapshot.
     and_then (control_source_of s definition) (\<lambda>control_source.
     if d_control definition \<noteq> ControlNone \<and> cp_control_failure program = None
     then Inl (Invalid ''required negative control is unspecified'') else
     and_then (begin_check c st task revision check token job_id now d) (\<lambda>(lease, d').
     Inr (\<lparr>vt_lease = lease, vt_program = program, vt_candidate = snapshot,
           vt_environment = cand_environment candidate, vt_timeout_ms = d_timeout_ms definition,
           vt_control_required = d_control definition \<noteq> ControlNone,
           vt_control_kind = d_control definition, vt_control_source = control_source\<rparr>, d')))))))))))"

section \<open>Running the probes\<close>

definition probe_job_id ::
    "('b, 'y) verification_codec_scheme \<Rightarrow> uuid \<Rightarrow> string \<Rightarrow> bool \<Rightarrow> uuid" where
  "probe_job_id v job probe control =
     derive_uuid v job ((if control then ''true'' else ''false'') @ '':'' @ probe)"

definition observed_exit :: "ExecutionStatus \<Rightarrow> bool" where
  "observed_exit status = (case status of Exited code \<Rightarrow> code \<noteq> 126 \<and> code \<noteq> 127 | _ \<Rightarrow> False)"

definition run_probe ::
    "'w host \<Rightarrow> uuid \<Rightarrow> Probe \<Rightarrow> Snapshot \<Rightarrow> string \<Rightarrow> u64 \<Rightarrow> 'w \<Rightarrow> ProbeReport \<times> 'w" where
  "run_probe h job_id probe snapshot workspace timeout_ms w =
     (case probe of
        FileProbe i path content \<Rightarrow>
          (\<lparr>pb_id = i,
            pb_passed = (case bt_get (sn_entries snapshot) path of
                Some (File actual _) \<Rightarrow> actual = content | _ \<Rightarrow> False),
            pb_infrastructure_ok = True, pb_assertions = 1, pb_stdout = [], pb_stderr = [],
            pb_execution = None\<rparr>, w)
      | CommandProbe i command code out err \<Rightarrow>
          (let (result, w') = execute_request h \<lparr>xq_job_id = job_id, xq_workspace = workspace,
                 xq_command = command, xq_readonly = True, xq_timeout_ms = timeout_ms,
                 xq_output_bytes = 64 * 1024\<rparr> w in
           case result of
             Inr x \<Rightarrow>
               (\<lparr>pb_id = i,
                 pb_passed = (xr_status x = Exited code \<and> meets out (xr_stdout x) \<and> meets err (xr_stderr x)),
                 pb_infrastructure_ok = observed_exit (xr_status x),
                 pb_assertions = (if observed_exit (xr_status x)
                   then 1 + (if out \<noteq> None then 1 else 0) + (if err \<noteq> None then 1 else 0) else 0),
                 pb_stdout = xr_stdout x, pb_stderr = xr_stderr x, pb_execution = Some x\<rparr>, w')
           | Inl e \<Rightarrow>
               (\<lparr>pb_id = i, pb_passed = False, pb_infrastructure_ok = False, pb_assertions = 0,
                 pb_stdout = [], pb_stderr = e, pb_execution = None\<rparr>, w')))"

definition remaining_ms :: "'w host \<Rightarrow> u64 \<Rightarrow> 'w \<Rightarrow> u64" where
  "remaining_ms h timeout_ms w = of_nat ((unat timeout_ms * 1000000 - elapsed_ns h w) div 1000000)"

text \<open>
  The loop over the probes; \<open>None\<close> is the run that reached its end, \<open>Some cancelled\<close> the one that was
  cut short by the deadline or a cancellation.
\<close>

fun run_probes ::
    "('b, 'y) verification_codec_scheme \<Rightarrow> 'w host \<Rightarrow> uuid \<Rightarrow> bool \<Rightarrow> Snapshot \<Rightarrow> string \<Rightarrow> u64 \<Rightarrow> Probe list \<Rightarrow> 'w \<Rightarrow>
     ProbeReport list \<times> bool option \<times> 'w" where
  "run_probes v h job control snapshot path timeout_ms [] w = ([], None, w)"
| "run_probes v h job control snapshot path timeout_ms (probe # probes) w =
     (let remaining = remaining_ms h timeout_ms w in
      if remaining = 0 \<or> is_cancelled h w then ([], Some (is_cancelled h w), w) else
      let (report, w1) = run_probe h (probe_job_id v job (probe_id probe) control) probe snapshot path remaining w;
          (reports, cut, w2) = run_probes v h job control snapshot path timeout_ms probes (pass h w1)
      in (report # reports, cut, w2))"

definition control_matches :: "ControlFailure \<Rightarrow> ProbeReport \<Rightarrow> bool" where
  "control_matches control r =
     (pb_id r = cf_probe control \<and> \<not> pb_passed r \<and> pb_infrastructure_ok r
      \<and> meets (cf_stdout control) (pb_stdout r) \<and> meets (cf_stderr control) (pb_stderr r))"

definition snapshot_digest ::
    "('b, 'z) codec_scheme \<Rightarrow> ('b, 'y) verification_codec_scheme \<Rightarrow> Snapshot \<Rightarrow> string + digest" where
  "snapshot_digest c v = of_value (enc_snapshot v) (sha c)"

definition usable_control ::
    "('b, 'z) codec_scheme \<Rightarrow> ('b, 'y) verification_codec_scheme \<Rightarrow> 'w host \<Rightarrow> 'b VerificationTicket \<Rightarrow> 'w \<Rightarrow>
     Snapshot \<times> string \<Rightarrow> bool" where
  "usable_control c v h t w control =
     (matches_exact h w (fst control) (snd control)
      \<and> (case snapshot_digest c v (fst control) of Inl _ \<Rightarrow> None | Inr x \<Rightarrow> Some x) = vt_control_source t)"

text \<open>The control runs after the candidate, on the same clock.\<close>

definition run_control ::
    "('b, 'z) codec_scheme \<Rightarrow> ('b, 'y) verification_codec_scheme \<Rightarrow> 'w host \<Rightarrow> 'b VerificationTicket \<Rightarrow>
     (Snapshot \<times> string) option \<Rightarrow> VerificationReport \<times> 'w \<Rightarrow> VerificationReport \<times> 'w" where
  "run_control c v h t control rw =
     (let (report, w) = rw in
      case control of
        Some (snapshot, path) \<Rightarrow>
          if usable_control c v h t w (snapshot, path) then
            (let (reports, cut, w1) = run_probes v h (vl_job (vt_lease t)) True snapshot path
                   (vt_timeout_ms t) (cp_probes (vt_program t)) (pass h w);
                 w2 = pass h w1
             in (report\<lparr>
                   vr_control_source := vt_control_source t,
                   vr_control := reports,
                   vr_control_matched := (case cp_control_failure (vt_program t) of
                       None \<Rightarrow> vr_control_matched report
                     | Some failure \<Rightarrow> list_ex (control_matches failure) reports),
                   vr_limitations := vr_limitations report
                     @ (if cut \<noteq> None then [''negative control was interrupted''] else [])
                     @ (if matches_exact h w2 snapshot path then []
                        else [''control source changed during verification''])\<rparr>, pass h w2))
          else (report\<lparr>vr_limitations := vr_limitations report
                  @ [''required baseline/control workspace unavailable or changed'']\<rparr>, pass h w)
      | None \<Rightarrow> (report\<lparr>vr_limitations := vr_limitations report
                  @ [''required baseline/control workspace unavailable or changed'']\<rparr>, pass h w))"

definition empty_report :: "'w host \<Rightarrow> 'b VerificationTicket \<Rightarrow> digest \<Rightarrow> VerificationReport" where
  "empty_report h t source =
     \<lparr>vr_job_id = vl_job (vt_lease t), vr_probes = [], vr_control = [], vr_limitations = [],
      vr_cancelled = False, vr_control_required = vt_control_required t, vr_control_matched = False,
      vr_image_id = host_image_id h, vr_source = source, vr_control_source = None\<rparr>"

text \<open>
  \<open>Inl\<close> is the panic of \<open>expect\<close> on a snapshot that cannot be encoded. The report comes with the moment
  of the last scan.
\<close>

definition verification_execute ::
    "('b, 'z) codec_scheme \<Rightarrow> ('b, 'y) verification_codec_scheme \<Rightarrow> 'w host \<Rightarrow> 'b VerificationTicket \<Rightarrow> string \<Rightarrow>
     (Snapshot \<times> string) option \<Rightarrow> 'w \<Rightarrow> string + VerificationReport \<times> 'w" where
  "verification_execute c v h t path control w =
     and_then (snapshot_digest c v (vt_candidate t)) (\<lambda>source.
     let report = empty_report h t source in
     if host_environment h \<noteq> Some (vt_environment t)
     then Inr (report\<lparr>vr_limitations := [''execution environment differs from the admitted identity'']\<rparr>, w)
     else if \<not> matches_exact h w (vt_candidate t) path
     then Inr (report\<lparr>vr_limitations := [''candidate bytes differ from the frozen manifest'']\<rparr>, w)
     else
       let (reports, cut, w1) = run_probes v h (vl_job (vt_lease t)) False (vt_candidate t) path
             (vt_timeout_ms t) (cp_probes (vt_program t)) (pass h w);
           report1 = report\<lparr>vr_probes := reports, vr_cancelled := (cut = Some True),
             vr_limitations := (if cut = None then []
               else [''verification interrupted or deadline exhausted''])\<rparr>;
           (report2, w2) = (if vt_control_required t then run_control c v h t control (report1, w1)
             else (report1, pass h w1));
           report3 = (if matches_exact h w2 (vt_candidate t) path then report2
             else report2\<lparr>vr_limitations := vr_limitations report2 @ [''candidate changed during verification'']\<rparr>)
       in Inr (report3\<lparr>vr_cancelled := vr_cancelled report3 \<or> is_cancelled h w2\<rparr>, w2))"

section \<open>Evidence\<close>

definition all_observed :: "'b VerificationTicket \<Rightarrow> VerificationReport \<Rightarrow> bool" where
  "all_observed t r =
     (length (vr_probes r) = length (cp_probes (vt_program t))
      \<and> list_all pb_infrastructure_ok (vr_probes r) \<and> vr_limitations r = [])"

definition report_passed :: "'b VerificationTicket \<Rightarrow> VerificationReport \<Rightarrow> bool" where
  "report_passed t r =
     (all_observed t r \<and> list_all pb_passed (vr_probes r)
      \<and> (\<not> vr_control_required r \<or> vr_control_matched r))"

definition report_status :: "'b VerificationTicket \<Rightarrow> VerificationReport \<Rightarrow> CheckStatus" where
  "report_status t r =
     (if vr_cancelled r then CheckCancelled
      else if \<not> all_observed t r then Inconclusive
      else if report_passed t r then CheckPassed
      else CheckFailed)"

definition unknown_execution :: "ProbeReport \<Rightarrow> uuid option" where
  "unknown_execution r =
     (case pb_execution r of
        None \<Rightarrow> None
      | Some x \<Rightarrow> (case xr_status x of ExecutionUnknown _ \<Rightarrow> Some (xr_job_id x) | _ \<Rightarrow> None))"

definition report_observation ::
    "'b VerificationTicket \<Rightarrow> VerificationReport \<Rightarrow> digest \<Rightarrow> digest option \<Rightarrow> Observation" where
  "report_observation t r raw_report control_report =
     \<lparr>ob_status = report_status t r, ob_report = raw_report,
      ob_assertions = sum_list (map pb_assertions (vr_probes r)),
      ob_discovered = Some (of_nat (length (cp_probes (vt_program t)))),
      ob_skipped = of_nat (length (cp_probes (vt_program t)) - length (vr_probes r)),
      ob_exit_code = Some (if report_passed t r then 0 else 1), ob_signal = None,
      ob_control = (case (vr_control_source r, control_report) of
          (Some source, Some report_digest) \<Rightarrow>
            Some \<lparr>co_kind = vt_control_kind t, co_source = source,
                  co_rejected = list_ex (\<lambda>probe. \<not> pb_passed probe) (vr_control r),
                  co_intended_reason = vr_control_matched r, co_report = report_digest\<rparr>
        | _ \<Rightarrow> None),
      ob_baseline_unchanged = False, ob_limitations = vr_limitations r,
      ob_unreconciled_jobs = List.map_filter unknown_execution (vr_probes r @ vr_control r)\<rparr>"

definition verification_finish ::
    "('b, 'z) codec_scheme \<Rightarrow> ('b, 'y) verification_codec_scheme \<Rightarrow> 'b ArtifactStore \<Rightarrow> 'b VerificationTicket \<Rightarrow>
     VerificationReport \<Rightarrow> u64 \<Rightarrow> 'b db \<Rightarrow> StoreError + TaskState \<times> 'b ArtifactStore \<times> 'b db" where
  "verification_finish c v st t r now d =
     (if vr_job_id r \<noteq> vl_job (vt_lease t) then Inl LeaseInvalid else
      and_then (map_err StoreJson (enc_report v r)) (\<lambda>bytes.
      and_then (map_err StoreArtifact (put_artifact c st bytes)) (\<lambda>(raw_report, st1).
      and_then (if vr_control_required r then
            and_then (map_err StoreJson (enc_probe_reports v (vr_control r))) (\<lambda>control_bytes.
            and_then (map_err StoreArtifact (put_artifact c st1 control_bytes)) (\<lambda>(x, st2).
            Inr (Some x, st2)))
          else Inr (None, st1)) (\<lambda>(control_report, st2).
      and_then (finish_check c st2 (vt_lease t) (report_observation t r raw_report control_report) now d)
        (\<lambda>(s, d'). Inr (s, st2, d'))))))"

section \<open>What a passed check shows\<close>

text \<open>
  The probe held: the snapshot has the expected content, or the command was run read-only in the given
  directory, exited with the expected code and printed what was expected.
\<close>

definition probe_held :: "'w host \<Rightarrow> Snapshot \<Rightarrow> string \<Rightarrow> Probe \<Rightarrow> ProbeReport \<Rightarrow> bool" where
  "probe_held h snapshot workspace probe r \<longleftrightarrow>
     (case probe of
        FileProbe i path content \<Rightarrow> (\<exists>mode. bt_get (sn_entries snapshot) path = Some (File content mode))
      | CommandProbe i command code out err \<Rightarrow>
          \<exists>request w w' x. execute_request h request w = (Inr x, w') \<and> xq_command request = command \<and>
            xq_workspace request = workspace \<and> xq_readonly request \<and> xr_status x = Exited code \<and>
            code \<notin> {126, 127} \<and> meets out (xr_stdout x) \<and> meets err (xr_stderr x) \<and>
            pb_execution r = Some x)"

lemma run_probe_id [simp]: "pb_id (fst (run_probe h job probe snapshot path timeout w)) = probe_id probe"
  by (cases probe) (auto simp: run_probe_def split: sum.splits prod.splits)

lemma run_probe_held:
  assumes "run_probe h job probe snapshot path timeout w = (r, w')" and "pb_passed r"
    and "pb_infrastructure_ok r"
  shows "probe_held h snapshot path probe r"
proof (cases probe)
  case (CommandProbe i command code out err)
  with assms obtain x where x: "execute_request h \<lparr>xq_job_id = job, xq_workspace = path,
      xq_command = command, xq_readonly = True, xq_timeout_ms = timeout, xq_output_bytes = 64 * 1024\<rparr> w = (Inr x, w')"
    and facts: "xr_status x = Exited code" "meets out (xr_stdout x)" "meets err (xr_stderr x)"
      "observed_exit (xr_status x)" "pb_execution r = Some x"
    by (auto simp: run_probe_def split: prod.splits sum.splits)
  show ?thesis
    unfolding probe_held_def CommandProbe Probe.case
    by (intro exI conjI, rule x) (use facts in \<open>simp_all add: observed_exit_def\<close>)
next
  case (FileProbe i p content)
  with assms show ?thesis
    by (auto simp: run_probe_def probe_held_def split: option.splits Entry.splits)
qed

text \<open>A loop that was not cut short has run every probe, in order.\<close>

definition probe_ran :: "'w host \<Rightarrow> Snapshot \<Rightarrow> string \<Rightarrow> Probe \<Rightarrow> ProbeReport \<Rightarrow> bool" where
  "probe_ran h snapshot path probe r \<longleftrightarrow>
     (\<exists>job timeout w w'. run_probe h job probe snapshot path timeout w = (r, w') \<and> timeout \<noteq> 0)"

lemma run_probes_complete:
  "run_probes v h job control snapshot path timeout probes w = (rs, None, w') \<Longrightarrow>
     list_all2 (probe_ran h snapshot path) probes rs"
proof (induction probes arbitrary: w rs)
  case Nil
  then show ?case by simp
next
  case (Cons probe probes)
  let ?remaining = "remaining_ms h timeout w"
  obtain r w1 where r: "run_probe h (probe_job_id v job (probe_id probe) control) probe snapshot path ?remaining w = (r, w1)"
    by (metis surj_pair)
  obtain rs' cut w2 where rest: "run_probes v h job control snapshot path timeout probes (pass h w1) = (rs', cut, w2)"
    by (metis prod_cases3)
  from Cons.prems r rest have "rs = r # rs'" and "cut = None" and "w2 = w'" and "?remaining \<noteq> 0"
    by (auto simp: Let_def split: if_splits)
  with r rest Cons.IH show ?case
    by (auto simp: probe_ran_def)
qed

lemma probes_held:
  assumes "list_all2 (probe_ran h snapshot path) probes rs" and "list_all pb_passed rs"
    and "list_all pb_infrastructure_ok rs"
  shows "list_all2 (probe_held h snapshot path) probes rs"
  using assms
proof (induction rule: list_all2_induct)
  case Nil
  then show ?case by simp
next
  case (Cons p ps r rs)
  then have "probe_held h snapshot path p r"
    using run_probe_held by (fastforce simp: probe_ran_def)
  with Cons show ?case by simp
qed

text \<open>The control run changes only its own part of the report and may add limitations.\<close>

lemma run_control_report:
  assumes "run_control c v h t control (r, w) = (r', w')" and "vr_limitations r' = []"
  shows "vr_limitations r = []" and "vr_probes r' = vr_probes r" and "vr_cancelled r' = vr_cancelled r"
    and "\<exists>snapshot path. control = Some (snapshot, path) \<and> usable_control c v h t w (snapshot, path) \<and>
      list_all2 (probe_ran h snapshot path) (cp_probes (vt_program t)) (vr_control r') \<and>
      (vr_control_matched r' \<longrightarrow> vr_control_matched r \<or>
        (\<exists>failure. cp_control_failure (vt_program t) = Some failure \<and> list_ex (control_matches failure) (vr_control r')))"
  using assms
  by (auto simp: run_control_def Let_def split: option.splits prod.splits if_splits dest: run_probes_complete)

lemma execute_passed:
  assumes exec: "verification_execute c v h t path control w = Inr (r, w')"
    and passed: "report_status t r = CheckPassed"
  shows "host_environment h = Some (vt_environment t)" and "matches_exact h w (vt_candidate t) path"
    and "matches_exact h w' (vt_candidate t) path" and "\<not> is_cancelled h w'"
    and "list_all2 (probe_held h (vt_candidate t) path) (cp_probes (vt_program t)) (vr_probes r)"
    and "vt_control_required t \<Longrightarrow> \<exists>snapshot p failure. control = Some (snapshot, p) \<and>
      (\<exists>w. usable_control c v h t w (snapshot, p)) \<and> cp_control_failure (vt_program t) = Some failure \<and>
      list_all2 (probe_ran h snapshot p) (cp_probes (vt_program t)) (vr_control r) \<and>
      list_ex (control_matches failure) (vr_control r)"
proof -
  from passed have obs: "vr_limitations r = []" "\<not> vr_cancelled r" "list_all pb_infrastructure_ok (vr_probes r)"
      "list_all pb_passed (vr_probes r)" and matched: "vr_control_required r \<Longrightarrow> vr_control_matched r"
    by (auto simp: report_status_def report_passed_def all_observed_def split: if_splits)
  from exec obs(1) show env: "host_environment h = Some (vt_environment t)"
    and start: "matches_exact h w (vt_candidate t) path"
    by (auto simp: verification_execute_def Let_def result_simps split: if_splits)
  obtain source where source: "snapshot_digest c v (vt_candidate t) = Inr source"
    using exec by (auto simp: verification_execute_def result_simps)
  obtain rs cut w1 where run: "run_probes v h (vl_job (vt_lease t)) False (vt_candidate t) path
      (vt_timeout_ms t) (cp_probes (vt_program t)) (pass h w) = (rs, cut, w1)"
    by (metis prod_cases3)
  define r1 where "r1 = (empty_report h t source)\<lparr>vr_probes := rs, vr_cancelled := (cut = Some True),
      vr_limitations := (if cut = None then [] else [''verification interrupted or deadline exhausted''])\<rparr>"
  obtain r2 w2 where r2: "(if vt_control_required t then run_control c v h t control (r1, w1) else (r1, pass h w1)) = (r2, w2)"
    by (metis surj_pair)
  define r3 where "r3 = (if matches_exact h w2 (vt_candidate t) path then r2
    else r2\<lparr>vr_limitations := vr_limitations r2 @ [''candidate changed during verification'']\<rparr>)"
  have r: "r = r3\<lparr>vr_cancelled := vr_cancelled r3 \<or> is_cancelled h w2\<rparr>" and w': "w' = w2"
    using exec
    by (auto simp: verification_execute_def source env start run Let_def r2 [unfolded r1_def] r3_def [symmetric])
  from obs(1) have last: "matches_exact h w2 (vt_candidate t) path" and r3: "r3 = r2" and lim2: "vr_limitations r2 = []"
    by (auto simp: r r3_def split: if_splits)
  from last w' show "matches_exact h w' (vt_candidate t) path" by simp
  from obs(2) show "\<not> is_cancelled h w'" by (simp add: r w')
  have lim1: "vr_limitations r1 = []" and probes: "vr_probes r2 = rs"
    using r2 lim2 run_control_report [of c v h t control r1 w1 r2 w2] by (auto simp: r1_def split: if_splits)
  from lim1 have "cut = None" by (auto simp: r1_def split: if_splits)
  with run have "list_all2 (probe_ran h (vt_candidate t) path) (cp_probes (vt_program t)) rs"
    by (auto dest: run_probes_complete)
  then show "list_all2 (probe_held h (vt_candidate t) path) (cp_probes (vt_program t)) (vr_probes r)"
    using probes_held obs(3,4) by (simp add: r r3 probes)
  show "\<exists>snapshot p failure. control = Some (snapshot, p) \<and>
      (\<exists>w. usable_control c v h t w (snapshot, p)) \<and> cp_control_failure (vt_program t) = Some failure \<and>
      list_all2 (probe_ran h snapshot p) (cp_probes (vt_program t)) (vr_control r) \<and>
      list_ex (control_matches failure) (vr_control r)" if req: "vt_control_required t"
  proof -
    have rc: "run_control c v h t control (r1, w1) = (r2, w2)"
      using r2 req by simp
    have "vr_control_required r2 = vr_control_required r1"
      using rc by (auto simp: run_control_def Let_def split: option.splits prod.splits if_splits)
    then have "vr_control_matched r2"
      using matched req by (simp add: r r3 r1_def empty_report_def)
    moreover have "\<not> vr_control_matched r1"
      by (simp add: r1_def empty_report_def)
    ultimately show ?thesis
      using run_control_report(4) [OF rc lim2] by (auto simp: r r3)
  qed
qed

lemma finish_evidence:
  assumes "verification_finish c v st t r now d = Inr (s, st', d')"
  obtains e raw control where "t_evidence s \<noteq> []" and "last (t_evidence s) = e"
    and "ev_observation e = report_observation t r raw control"
proof -
  from assms obtain raw control st2 where
    fin: "finish_check c st2 (vt_lease t) (report_observation t r raw control) now d = Inr (s, d')"
    by (auto simp: verification_finish_def result_simps split: if_splits)
  from fin obtain s0 h e d1 where ev: "lease_evidence c st2 (vl_job (vt_lease t)) now
        (report_observation t r raw control) s0 = Inr e"
    and app: "append_task_event c st2 s0 h (Observed e) d1 = Inr (s, d')"
    unfolding finish_check_def by (rule change_Inr) (auto simp: result_simps split: if_splits)
  from app have "task_apply (contract_digest c) s0 (Observed e) = Inr s"
    by (rule append_task_event_Inr)
  then have "t_evidence s = t_evidence s0 @ [e]"
    by (auto simp: task_apply_def apply_observed_def)
  moreover have "ev_observation e = report_observation t r raw control"
    using ev by (auto simp: lease_evidence_def result_simps split: option.splits if_splits)
  ultimately show thesis
    by (intro that) simp_all
qed

end
