(* ===== verification/Admission.thy ===== *)
theory Admission
  imports Verification
begin

text \<open>
  Request admission (\<^verbatim>\<open>admission.rs\<close>): operator policies, proposals of the model, and the compilation of a
  proposal against the protected repository profile, the user's text and an earlier contract.
\<close>

section \<open>Data\<close>

record ProposedCheck =
  pk_purpose :: string
  pk_kind :: CheckKind
  pk_program :: CheckProgram
  pk_baseline_failure :: bool
  pk_control_omission :: "string option"

record Proposal =
  po_outcome :: string
  po_scope :: string
  po_requirements :: "Requirement list"
  po_checks :: "(string, ProposedCheck) btreemap"
  po_protected_behavior :: "string list"
  po_assumptions :: "string list"
  po_open_questions :: "string list"

record RepositoryProfile =
  rp_version :: u32
  rp_name :: string
  rp_checks :: "(string, ProposedCheck) btreemap"

record RequestPolicy =
  rq_version :: u32
  rq_profile :: RepositoryProfile
  rq_delivery :: DeliveryKind

record CompiledContract =
  cc_contract :: Contract
  cc_receipt :: digest

text \<open>What the receipt of a compilation records.\<close>

record AdmissionReceipt =
  ar_request :: string
  ar_limits :: Limits
  ar_delivery :: DeliveryKind
  ar_profile :: RepositoryProfile
  ar_proposal :: Proposal
  ar_baseline :: digest

record 'b admission_codec = "'b verification_codec" +
  dec_policy :: "'b \<Rightarrow> string + RequestPolicy"
  enc_profile :: "RepositoryProfile \<Rightarrow> string + 'b"
  enc_program :: "CheckProgram \<Rightarrow> string + 'b"
  enc_receipt :: "AdmissionReceipt \<Rightarrow> string + 'b"

section \<open>Validation\<close>

definition deliverable :: "DeliveryKind \<Rightarrow> bool" where
  "deliverable delivery = (delivery = Source \<or> delivery = Patch)"

definition validate_check :: "ProposedCheck \<Rightarrow> StoreError + unit" where
  "validate_check check =
     and_then (program_validate (pk_program check)) (\<lambda>_.
     if blank (pk_purpose check) then Inl (Invalid ''acceptance check requires a purpose'')
     else if pk_baseline_failure check then
       (if cp_control_failure (pk_program check) = None \<or> pk_control_omission check \<noteq> None
        then Inl (Invalid ''baseline control requires its intended failure observation'') else Inr ())
     else if \<not> (case pk_control_omission check of None \<Rightarrow> False | Some reason \<Rightarrow> \<not> blank reason)
     then Inl (Invalid ''omitting a negative control requires a visible reason'')
     else Inr ())"

definition repository_validate :: "RepositoryProfile \<Rightarrow> StoreError + unit" where
  "repository_validate profile =
     (if rp_version profile \<noteq> 1 \<or> blank (rp_name profile) \<or> length (rp_checks profile) > 128
      then Inl (Invalid ''invalid repository profile identity or size'')
      else try_each validate_check (bt_values (rp_checks profile)))"

definition policy_validate :: "RequestPolicy \<Rightarrow> StoreError + unit" where
  "policy_validate policy =
     (if rq_version policy \<noteq> 1 \<or> \<not> deliverable (rq_delivery policy)
      then Inl (Invalid ''unsupported intake policy or delivery adapter'')
      else repository_validate (rq_profile policy))"

section \<open>Compilation\<close>

definition program_digest ::
    "('b, 'z) codec_scheme \<Rightarrow> 'b admission_codec \<Rightarrow> CheckProgram \<Rightarrow> string + digest" where
  "program_digest c a = of_value (enc_program a) (sha c)"

definition check_definition ::
    "('b, 'z) codec_scheme \<Rightarrow> 'b admission_codec \<Rightarrow> string \<Rightarrow> ProposedCheck \<Rightarrow> string list \<Rightarrow>
     StoreError + CheckDefinition \<times> string list" where
  "check_definition c a i check assumptions =
     and_then (validate_check check) (\<lambda>_.
     let assumptions' = (case pk_control_omission check of
         None \<Rightarrow> assumptions
       | Some reason \<Rightarrow> assumptions @ [''Check '' @ i @ '' omits a negative control: '' @ reason]) in
     and_then (map_err StoreJson (program_digest c a (pk_program check))) (\<lambda>verifier.
     Inr (\<lparr>d_purpose = pk_purpose check, d_kind = pk_kind check, d_verifier = verifier,
           d_command = [''tact-protected-verifier'', i], d_timeout_ms = 60000, d_minimum_assertions = 1,
           d_control = (if pk_baseline_failure check then BaselineFailure else ControlNone),
           d_control_source = None, d_baseline = MustPass, d_flake = RejectAnyFailure\<rparr>, assumptions')))"

definition user_basis ::
    "('b, 'z) codec_scheme \<Rightarrow> 'b ArtifactStore \<Rightarrow> TaskState \<Rightarrow> StoreError + string" where
  "user_basis c st s =
     try_fold (\<lambda>basis (_, input). and_then (load_input c st input) (\<lambda>prepared.
       Inr (basis @ [char_of (10 :: nat)] @ pi_text prepared))) (t_request s) (t_directives s)"

definition check_origin :: "string \<Rightarrow> Snapshot \<Rightarrow> Requirement \<Rightarrow> StoreError + unit" where
  "check_origin basis baseline r =
     (case r_origin r of
        User quote \<Rightarrow>
          if blank quote \<or> \<not> str_contains basis quote
          then Inl (Invalid ''user-origin requirement must quote the original request'') else Inr ()
      | Repository path \<Rightarrow>
          if \<not> bt_contains (sn_entries baseline) path
          then Inl (Invalid ''repository-origin requirement must name an inspected baseline path'') else Inr ()
      | Inferred _ \<Rightarrow> Inr ())"

definition check_proposal :: "string \<Rightarrow> Snapshot \<Rightarrow> Proposal \<Rightarrow> StoreError + unit" where
  "check_proposal basis baseline p =
     (if length (po_requirements p) > 128 \<or> length (po_checks p) > 128
      then Inl (Invalid ''contract proposal exceeds requirement/check bounds'') else
      and_then (try_each (check_origin basis baseline) (po_requirements p)) (\<lambda>_.
      if \<not> list_ex (\<lambda>check. pk_kind check \<notin> {Build, Static}) (bt_values (po_checks p))
      then Inl (Invalid ''a coding task requires behavior-specific acceptance beyond build/static checks'')
      else Inr ()))"

definition add_proposed ::
    "('b, 'z) codec_scheme \<Rightarrow> 'b admission_codec \<Rightarrow> (string, CheckDefinition) btreemap \<times> string list \<Rightarrow>
     string \<times> ProposedCheck \<Rightarrow> StoreError + (string, CheckDefinition) btreemap \<times> string list" where
  "add_proposed c a acc entry =
     (if starts_with (fst entry) ''profile-'' then Inl (Invalid ''profile check IDs are reserved'') else
      and_then (check_definition c a (fst entry) (snd entry) (snd acc)) (\<lambda>(d, assumptions).
      Inr (bt_insert (fst entry) d (fst acc), assumptions)))"

definition profile_requirement :: "RepositoryProfile \<Rightarrow> digest \<Rightarrow> string \<Rightarrow> ProposedCheck \<Rightarrow> Requirement" where
  "profile_requirement profile profile_digest i check =
     \<lparr>r_id = i, r_behavior = pk_purpose check,
      r_origin = Repository (''protected profile '' @ rp_name profile @ '' @ '' @ digest_to_string profile_digest),
      r_checks = [i], r_depends_on = []\<rparr>"

definition add_profile_check ::
    "('b, 'z) codec_scheme \<Rightarrow> 'b admission_codec \<Rightarrow> RepositoryProfile \<Rightarrow> digest \<Rightarrow>
     (string, CheckDefinition) btreemap \<times> string list \<times> Requirement list \<Rightarrow> string \<times> ProposedCheck \<Rightarrow>
     StoreError + (string, CheckDefinition) btreemap \<times> string list \<times> Requirement list" where
  "add_profile_check c a profile profile_digest acc entry =
     (let i = ''profile-'' @ fst entry; (checks, assumptions, requirements) = acc in
      and_then (check_definition c a i (snd entry) assumptions) (\<lambda>(d, assumptions').
      Inr (bt_insert i d checks, assumptions',
           requirements @ [profile_requirement profile profile_digest i (snd entry)])))"

text \<open>The merge with an earlier contract: what it has stays.\<close>

definition keep_requirement :: "Contract \<Rightarrow> Requirement \<Rightarrow> StoreError + Contract" where
  "keep_requirement k r =
     (case List.find (\<lambda>x. r_id x = r_id r) (c_requirements k) of
        Some proposed \<Rightarrow>
          if proposed \<noteq> r then Inl (Invalid ''follow-up cannot weaken or rewrite an accepted requirement'')
          else Inr k
      | None \<Rightarrow> Inr (k\<lparr>c_requirements := c_requirements k @ [r]\<rparr>))"

definition keep_check :: "Contract \<Rightarrow> string \<times> CheckDefinition \<Rightarrow> StoreError + Contract" where
  "keep_check k entry =
     (case bt_get (c_checks k) (fst entry) of
        Some proposed \<Rightarrow>
          if proposed \<noteq> snd entry
          then Inl (Invalid ''follow-up cannot change a protected acceptance check'') else Inr k
      | None \<Rightarrow> Inr (k\<lparr>c_checks := bt_insert (fst entry) (snd entry) (c_checks k)\<rparr>))"

definition add_missing :: "string list \<Rightarrow> string list \<Rightarrow> string list" where
  "add_missing xs ys = foldl (\<lambda>acc y. if y \<in> set acc then acc else acc @ [y]) xs ys"

definition follow_up :: "string \<Rightarrow> string \<Rightarrow> string" where
  "follow_up old new =
     (if new \<noteq> old then old @ [char_of (10 :: nat)] @ ''Follow-up: '' @ new else new)"

definition merge_contract :: "Contract \<Rightarrow> Contract \<Rightarrow> StoreError + Contract" where
  "merge_contract old k =
     and_then (try_fold keep_requirement k (c_requirements old)) (\<lambda>k1.
     and_then (try_fold keep_check k1 (c_checks old)) (\<lambda>k2.
     let k3 = k2\<lparr>c_protected_behavior := add_missing (c_protected_behavior k2) (c_protected_behavior old),
           c_assumptions := add_missing (c_assumptions k2) (c_assumptions old),
           c_outcome := follow_up (c_outcome old) (c_outcome k2),
           c_scope := follow_up (c_scope old) (c_scope k2)\<rparr>
     in and_then (preserves_obligations old k3) (\<lambda>_. Inr k3)))"

definition merge_with :: "Contract option \<Rightarrow> Contract \<Rightarrow> StoreError + Contract" where
  "merge_with previous k = (case previous of None \<Rightarrow> Inr k | Some old \<Rightarrow> merge_contract old k)"

definition put_all ::
    "('b, 'z) codec_scheme \<Rightarrow> 'b ArtifactStore \<Rightarrow> 'b list \<Rightarrow> StoreError + 'b ArtifactStore" where
  "put_all c st bs =
     try_fold (\<lambda>st b. and_then (map_err StoreArtifact (put_artifact c st b)) (\<lambda>(_, st'). Inr st')) st bs"

definition encode_programs ::
    "'b admission_codec \<Rightarrow> ProposedCheck list \<Rightarrow> StoreError + 'b list" where
  "encode_programs a checks =
     try_fold (\<lambda>acc check. and_then (map_err StoreJson (enc_program a (pk_program check))) (\<lambda>b.
       Inr (acc @ [b]))) [] checks"

definition compile_checks ::
    "('b, 'z) codec_scheme \<Rightarrow> 'b admission_codec \<Rightarrow> RepositoryProfile \<Rightarrow> Proposal \<Rightarrow>
     StoreError + (string, CheckDefinition) btreemap \<times> string list \<times> Requirement list" where
  "compile_checks c a profile p =
     and_then (try_fold (add_proposed c a) ([], po_assumptions p) (po_checks p)) (\<lambda>(checks, assumptions).
     and_then (map_err StoreJson (of_value (enc_profile a) (sha c) profile)) (\<lambda>profile_digest.
     try_fold (add_profile_check c a profile profile_digest) (checks, assumptions, po_requirements p)
       (rp_checks profile)))"

definition compile ::
    "('b, 'z) codec_scheme \<Rightarrow> 'b admission_codec \<Rightarrow> 'b ArtifactStore \<Rightarrow> TaskState \<Rightarrow> Proposal \<Rightarrow> Snapshot \<Rightarrow>
     StoreError + CompiledContract \<times> 'b ArtifactStore" where
  "compile c a st s p baseline =
     and_then (ok_or (t_intake s) (Invalid ''missing durable intake policy'')) (\<lambda>intake.
     and_then (map_err StoreArtifact (read_artifact c st intake)) (\<lambda>bytes.
     and_then (map_err StoreJson (dec_policy a bytes)) (\<lambda>policy.
     and_then (policy_validate policy) (\<lambda>_.
     let profile = rq_profile policy; delivery = rq_delivery policy in
     if t_contract s \<noteq> None \<and> \<not> t_amendment_pending s
     then Inl (Invalid ''accepted contracts require the amendment path'')
     else if \<not> deliverable delivery then Inl (Invalid ''unsupported delivery adapter'') else
     and_then (repository_validate profile) (\<lambda>_.
     and_then (user_basis c st s) (\<lambda>basis.
     and_then (check_proposal basis baseline p) (\<lambda>_.
     and_then (map_err StoreJson (of_value (enc_snapshot a) (sha c) baseline)) (\<lambda>baseline_digest.
     and_then (map_err StoreJson (enc_receipt a \<lparr>ar_request = t_request s, ar_limits = t_initial_limits s,
         ar_delivery = delivery, ar_profile = profile, ar_proposal = p, ar_baseline = baseline_digest\<rparr>))
       (\<lambda>receipt_bytes.
     and_then (encode_programs a (bt_values (po_checks p) @ bt_values (rp_checks profile))) (\<lambda>programs.
     and_then (compile_checks c a profile p) (\<lambda>(checks, assumptions, requirements).
     let k = \<lparr>c_request = t_request s, c_outcome = po_outcome p, c_scope = po_scope p,
           c_requirements = requirements, c_checks = checks,
           c_protected_behavior = po_protected_behavior p, c_assumptions = assumptions,
           c_open_questions = po_open_questions p, c_delivery = delivery, c_limits = t_initial_limits s\<rparr> in
     and_then (merge_with (t_contract s) k) (\<lambda>contract.
     and_then (map_err StoreContract (contract_validate contract)) (\<lambda>_.
     and_then (put_all c st programs) (\<lambda>st1.
     and_then (map_err StoreArtifact (put_artifact c st1 receipt_bytes)) (\<lambda>(receipt, st2).
     Inr (\<lparr>cc_contract = contract, cc_receipt = receipt\<rparr>, st2))))))))))))))))"

section \<open>Lemmas\<close>

text \<open>What \<open>check_definition\<close> fixes.\<close>

lemma check_definition_Inr:
  "check_definition c a i check assumptions = Inr (d, assumptions') \<Longrightarrow>
     validate_check check = Inr () \<and> program_digest c a (pk_program check) = Inr (d_verifier d) \<and>
     d_kind d = pk_kind check \<and> d_purpose d = pk_purpose check"
  by (auto simp: check_definition_def Let_def result_simps)

definition has_check ::
    "('b, 'z) codec_scheme \<Rightarrow> 'b admission_codec \<Rightarrow> (string, CheckDefinition) btreemap \<Rightarrow> string \<Rightarrow> ProposedCheck \<Rightarrow> bool" where
  "has_check c a checks i check \<longleftrightarrow>
     (\<exists>d. bt_get checks i = Some d \<and> program_digest c a (pk_program check) = Inr (d_verifier d) \<and>
        d_kind d = pk_kind check)"

lemma add_proposed_fold:
  assumes "try_fold (add_proposed c a) acc entries = Inr acc'" and "distinct (map fst entries)"
  shows "(\<forall>(i, check) \<in> set entries. has_check c a (fst acc') i check) \<and>
    (\<forall>i. i \<notin> fst ` set entries \<longrightarrow> bt_get (fst acc') i = bt_get (fst acc) i) \<and>
    (\<forall>i \<in> fst ` set entries. \<not> starts_with i ''profile-'')"
  using assms
proof (induction entries arbitrary: acc)
  case Nil
  then show ?case by simp
next
  case (Cons entry entries)
  obtain i check where entry: "entry = (i, check)" by fastforce
  from Cons.prems(1) obtain d as' where no: "\<not> starts_with i ''profile-''"
    and d: "check_definition c a i check (snd acc) = Inr (d, as')"
    and rest: "try_fold (add_proposed c a) (bt_insert i d (fst acc), as') entries = Inr acc'"
    by (auto simp: add_proposed_def [of c a acc] entry result_simps split: if_splits)
  note ih = Cons.IH [OF rest] and fresh = Cons.prems(2) [unfolded entry]
  have get: "bt_get (fst acc') i = Some d"
    using ih fresh by (simp add: bt_get_insert)
  have "has_check c a (fst acc') i check"
    using check_definition_Inr [OF d] get by (auto simp: has_check_def)
  with ih no fresh show ?case
    by (auto simp: entry bt_get_insert)
qed

lemma add_profile_fold:
  assumes "try_fold (add_profile_check c a profile pd) acc entries = Inr acc'" and "distinct (map fst entries)"
  shows "(\<forall>(i, check) \<in> set entries. has_check c a (fst acc') (''profile-'' @ i) check \<and>
      profile_requirement profile pd (''profile-'' @ i) check \<in> set (snd (snd acc'))) \<and>
    (\<forall>i. i \<notin> (\<lambda>e. ''profile-'' @ fst e) ` set entries \<longrightarrow> bt_get (fst acc') i = bt_get (fst acc) i) \<and>
    set (snd (snd acc')) = set (snd (snd acc)) \<union>
      (\<lambda>(i, check). profile_requirement profile pd (''profile-'' @ i) check) ` set entries"
  using assms
proof (induction entries arbitrary: acc)
  case Nil
  then show ?case by simp
next
  case (Cons entry entries)
  obtain i check where entry: "entry = (i, check)" by fastforce
  obtain checks assumptions requirements where acc: "acc = (checks, assumptions, requirements)"
    by (metis prod_cases3)
  let ?i = "''profile-'' @ i"
  from Cons.prems(1) obtain d as' where d: "check_definition c a ?i check assumptions = Inr (d, as')"
    and rest: "try_fold (add_profile_check c a profile pd)
      (bt_insert ?i d checks, as', requirements @ [profile_requirement profile pd ?i check]) entries = Inr acc'"
    by (auto simp: add_profile_check_def [of c a profile pd "(checks, assumptions, requirements)"] entry acc Let_def result_simps)
  note ih = Cons.IH [OF rest] and fresh = Cons.prems(2) [unfolded entry]
  have "?i \<notin> (\<lambda>e. ''profile-'' @ fst e) ` set entries"
    using fresh by force
  then have get: "bt_get (fst acc') ?i = Some d"
    using ih fresh by (auto simp: bt_get_insert)
  have "has_check c a (fst acc') ?i check"
    using check_definition_Inr [OF d] get by (auto simp: has_check_def)
  with ih fresh show ?case
    by (auto simp: entry acc bt_get_insert)
qed

text \<open>Merging keeps every check and adds only requirements of the earlier contract.\<close>

lemma keep_requirements_fold:
  assumes "try_fold keep_requirement k rs = Inr k'"
  shows "c_checks k' = c_checks k" and "set (c_requirements k) \<subseteq> set (c_requirements k')"
    and "set (c_requirements k') \<subseteq> set (c_requirements k) \<union> set rs"
    and "c_request k' = c_request k \<and> c_limits k' = c_limits k \<and> c_delivery k' = c_delivery k"
proof -
  let ?P = "\<lambda>x. c_checks x = c_checks k \<and> set (c_requirements k) \<subseteq> set (c_requirements x) \<and>
    set (c_requirements x) \<subseteq> set (c_requirements k) \<union> set rs \<and>
    c_request x = c_request k \<and> c_limits x = c_limits k \<and> c_delivery x = c_delivery k"
  have "?P k'"
    by (rule try_fold_invariant [OF assms, where P = ?P])
      (auto simp: keep_requirement_def split: option.splits if_splits)
  then show "c_checks k' = c_checks k" and "set (c_requirements k) \<subseteq> set (c_requirements k')"
    and "set (c_requirements k') \<subseteq> set (c_requirements k) \<union> set rs"
    and "c_request k' = c_request k \<and> c_limits k' = c_limits k \<and> c_delivery k' = c_delivery k" by simp_all
qed

lemma keep_checks_fold:
  assumes "try_fold keep_check k entries = Inr k'"
  shows "bt_get (c_checks k) i = Some d \<Longrightarrow> bt_get (c_checks k') i = Some d"
    and "c_requirements k' = c_requirements k"
    and "c_request k' = c_request k \<and> c_limits k' = c_limits k \<and> c_delivery k' = c_delivery k"
proof -
  let ?P = "\<lambda>x. (\<forall>i d. bt_get (c_checks k) i = Some d \<longrightarrow> bt_get (c_checks x) i = Some d) \<and>
    c_requirements x = c_requirements k \<and>
    c_request x = c_request k \<and> c_limits x = c_limits k \<and> c_delivery x = c_delivery k"
  have "?P k'"
    by (rule try_fold_invariant [OF assms, where P = ?P])
      (auto simp: keep_check_def bt_get_insert split: option.splits if_splits)
  then show "bt_get (c_checks k) i = Some d \<Longrightarrow> bt_get (c_checks k') i = Some d"
    and "c_requirements k' = c_requirements k"
    and "c_request k' = c_request k \<and> c_limits k' = c_limits k \<and> c_delivery k' = c_delivery k" by simp_all
qed

lemma merge_contract_Inr:
  assumes "merge_contract old k = Inr k'"
  shows "preserves_obligations old k' = Inr ()"
    and "bt_get (c_checks k) i = Some d \<Longrightarrow> bt_get (c_checks k') i = Some d"
    and "set (c_requirements k) \<subseteq> set (c_requirements k')"
    and "set (c_requirements k') \<subseteq> set (c_requirements k) \<union> set (c_requirements old)"
    and "c_request k' = c_request k \<and> c_limits k' = c_limits k \<and> c_delivery k' = c_delivery k"
proof -
  from assms obtain k1 k2 where k1: "try_fold keep_requirement k (c_requirements old) = Inr k1"
    and k2: "try_fold keep_check k1 (c_checks old) = Inr k2"
    and k': "c_checks k' = c_checks k2" "c_requirements k' = c_requirements k2" "c_request k' = c_request k2"
      "c_limits k' = c_limits k2" "c_delivery k' = c_delivery k2"
    and p: "preserves_obligations old k' = Inr ()"
    by (auto simp: merge_contract_def Let_def result_simps)
  note a = keep_requirements_fold [OF k1] and b = keep_checks_fold [OF k2]
  show "preserves_obligations old k' = Inr ()" by (fact p)
  show "bt_get (c_checks k) i = Some d \<Longrightarrow> bt_get (c_checks k') i = Some d"
    using a(1) b(1) k'(1) by simp
  show "set (c_requirements k) \<subseteq> set (c_requirements k')"
    and "set (c_requirements k') \<subseteq> set (c_requirements k) \<union> set (c_requirements old)"
    and "c_request k' = c_request k \<and> c_limits k' = c_limits k \<and> c_delivery k' = c_delivery k"
    using a(2,3,4) b(2,3) k' by simp_all
qed

lemma merge_with_Inr:
  assumes "merge_with previous k = Inr k'"
  shows "previous = Some old \<Longrightarrow> preserves_obligations old k' = Inr ()"
    and "bt_get (c_checks k) i = Some d \<Longrightarrow> bt_get (c_checks k') i = Some d"
    and "set (c_requirements k) \<subseteq> set (c_requirements k')"
    and "r \<in> set (c_requirements k') \<Longrightarrow>
      r \<in> set (c_requirements k) \<or> (\<exists>old. previous = Some old \<and> r \<in> set (c_requirements old))"
    and "c_request k' = c_request k \<and> c_limits k' = c_limits k \<and> c_delivery k' = c_delivery k"
proof -
  consider "previous = None" "k' = k" | x where "previous = Some x" "merge_contract x k = Inr k'"
    using assms by (auto simp: merge_with_def split: option.splits)
  note cases = this
  show "preserves_obligations old k' = Inr ()" if "previous = Some old"
    using cases that merge_contract_Inr(1) by cases auto
  show "bt_get (c_checks k') i = Some d" if "bt_get (c_checks k) i = Some d"
    using cases that merge_contract_Inr(2) by cases auto
  show "set (c_requirements k) \<subseteq> set (c_requirements k')"
    using cases merge_contract_Inr(3) by cases auto
  show "r \<in> set (c_requirements k) \<or> (\<exists>old. previous = Some old \<and> r \<in> set (c_requirements old))"
    if "r \<in> set (c_requirements k')"
    using cases that merge_contract_Inr(4) by cases auto
  show "c_request k' = c_request k \<and> c_limits k' = c_limits k \<and> c_delivery k' = c_delivery k"
    using cases merge_contract_Inr(5) by cases auto
qed

text \<open>The programs of every check can be read back once they are stored.\<close>

lemma put_all_readable:
  assumes "put_all c st bs = Inr st'"
  shows "\<And>b. b \<in> set bs \<Longrightarrow> \<exists>x. read_artifact c st' (sha c b) = Inr x"
    and "\<And>e x. read_artifact c st e = Inr x \<Longrightarrow> read_artifact c st' e = Inr x"
proof -
  have "(\<forall>b \<in> set bs. \<exists>x. read_artifact c st' (sha c b) = Inr x) \<and>
    (\<forall>e x. read_artifact c st e = Inr x \<longrightarrow> read_artifact c st' e = Inr x)"
    using assms
  proof (induction bs arbitrary: st)
    case Nil
    then show ?case by (simp add: put_all_def)
  next
    case (Cons b bs)
    from Cons.prems obtain d st1 where put: "put_artifact c st b = Inr (d, st1)" and rest: "put_all c st1 bs = Inr st'"
      by (auto simp: put_all_def result_simps)
    note ih = Cons.IH [OF rest]
    have "\<exists>x. read_artifact c st1 (sha c b) = Inr x"
      using put_artifact_Inr(1,3) [OF put] by simp
    with ih put_artifact_keeps [OF put] show ?case by (metis set_ConsD)
  qed
  then show "\<And>b. b \<in> set bs \<Longrightarrow> \<exists>x. read_artifact c st' (sha c b) = Inr x"
    and "\<And>e x. read_artifact c st e = Inr x \<Longrightarrow> read_artifact c st' e = Inr x" by blast+
qed

lemma encode_programs_Inr:
  assumes "encode_programs a checks = Inr bs" and "check \<in> set checks"
  shows "\<exists>b \<in> set bs. enc_program a (pk_program check) = Inr b"
proof -
  have "\<exists>b \<in> set bs'. enc_program a (pk_program check) = Inr b"
    if "try_fold (\<lambda>acc check. and_then (map_err StoreJson (enc_program a (pk_program check))) (\<lambda>b.
       Inr (acc @ [b]))) acc cs = Inr bs'"
      and "check \<in> set cs \<or> (\<exists>b \<in> set acc. enc_program a (pk_program check) = Inr b)" for acc cs bs'
    using that by (induction cs arbitrary: acc) (auto simp: result_simps)
  from this [OF assms(1) [unfolded encode_programs_def]] assms(2) show ?thesis by blast
qed

text \<open>The steps of a successful compilation.\<close>

lemma compile_Inr:
  assumes "compile c a st s p baseline = Inr (out, st')"
  obtains intake bytes policy basis programs checks assumptions requirements st1 where
    "t_intake s = Some intake" and "read_artifact c st intake = Inr bytes" and "dec_policy a bytes = Inr policy"
    and "policy_validate policy = Inr ()" and "user_basis c st s = Inr basis"
    and "check_proposal basis baseline p = Inr ()"
    and "encode_programs a (bt_values (po_checks p) @ bt_values (rp_checks (rq_profile policy))) = Inr programs"
    and "compile_checks c a (rq_profile policy) p = Inr (checks, assumptions, requirements)"
    and "merge_with (t_contract s)
      \<lparr>c_request = t_request s, c_outcome = po_outcome p, c_scope = po_scope p,
       c_requirements = requirements, c_checks = checks,
       c_protected_behavior = po_protected_behavior p, c_assumptions = assumptions,
       c_open_questions = po_open_questions p, c_delivery = rq_delivery policy, c_limits = t_initial_limits s\<rparr>
      = Inr (cc_contract out)"
    and "contract_validate (cc_contract out) = Inr ()" and "put_all c st programs = Inr st1"
    and "\<And>e x. read_artifact c st1 e = Inr x \<Longrightarrow> read_artifact c st' e = Inr x"
    and "\<exists>x. read_artifact c st' (cc_receipt out) = Inr x"
proof -
  from assms obtain intake bytes policy basis receipt_bytes programs checks assumptions requirements st1 receipt contract where
    steps: "t_intake s = Some intake" "read_artifact c st intake = Inr bytes" "dec_policy a bytes = Inr policy"
      "policy_validate policy = Inr ()" "user_basis c st s = Inr basis" "check_proposal basis baseline p = Inr ()"
      "encode_programs a (bt_values (po_checks p) @ bt_values (rp_checks (rq_profile policy))) = Inr programs"
      "compile_checks c a (rq_profile policy) p = Inr (checks, assumptions, requirements)"
    and k: "merge_with (t_contract s)
      \<lparr>c_request = t_request s, c_outcome = po_outcome p, c_scope = po_scope p,
       c_requirements = requirements, c_checks = checks,
       c_protected_behavior = po_protected_behavior p, c_assumptions = assumptions,
       c_open_questions = po_open_questions p, c_delivery = rq_delivery policy, c_limits = t_initial_limits s\<rparr>
      = Inr contract"
    and v: "contract_validate contract = Inr ()" "put_all c st programs = Inr st1"
    and put: "put_artifact c st1 receipt_bytes = Inr (receipt, st')"
    and out: "out = \<lparr>cc_contract = contract, cc_receipt = receipt\<rparr>"
    unfolding compile_def by (auto simp: Let_def result_simps)
  show thesis
    by (rule that [OF steps, of st1]) (simp_all add: out k v put_artifact_keeps [OF put] put_artifact_Inr(3) [OF put])
qed

lemma compile_checks_Inr:
  assumes "compile_checks c a profile p = Inr (checks, assumptions, requirements)"
    and "bt_ok (po_checks p)" and "bt_ok (rp_checks profile)"
  shows "bt_get (po_checks p) i = Some check \<Longrightarrow> has_check c a checks i check"
    and "bt_get (rp_checks profile) i = Some check \<Longrightarrow> has_check c a checks (''profile-'' @ i) check"
    and "bt_get (rp_checks profile) i = Some check \<Longrightarrow>
      \<exists>r \<in> set requirements. r_id r = ''profile-'' @ i \<and> r_checks r = [''profile-'' @ i]"
    and "r \<in> set requirements \<Longrightarrow> r \<in> set (po_requirements p) \<or> (\<exists>b. r_origin r = Repository b)"
proof -
  from assms(1) obtain checks1 as1 pd where
    one: "try_fold (add_proposed c a) ([], po_assumptions p) (po_checks p) = Inr (checks1, as1)"
    and two: "try_fold (add_profile_check c a profile pd) (checks1, as1, po_requirements p) (rp_checks profile) =
      Inr (checks, assumptions, requirements)"
    by (auto simp: compile_checks_def result_simps)
  note f1 = add_proposed_fold [OF one bt_ok_distinct [OF assms(2)]]
    and f2 = add_profile_fold [OF two bt_ok_distinct [OF assms(3)]]
  show "has_check c a checks i check" if "bt_get (po_checks p) i = Some check"
  proof -
    have entry: "(i, check) \<in> set (po_checks p)"
      using that by (rule bt_get_in_set)
    then have "i \<in> fst ` set (po_checks p)"
      by (rule rev_image_eqI) simp
    then have "\<not> starts_with i ''profile-''"
      using f1 by blast
    then have "i \<notin> (\<lambda>e. ''profile-'' @ fst e) ` set (rp_checks profile)"
      by auto
    then have "bt_get checks i = bt_get checks1 i"
      using f2 by simp
    moreover have "has_check c a checks1 i check"
      using f1 entry by auto
    ultimately show ?thesis
      by (simp add: has_check_def)
  qed
  show "has_check c a checks (''profile-'' @ i) check" if "bt_get (rp_checks profile) i = Some check"
    using f2 bt_get_in_set [OF that] by auto
  show "\<exists>r \<in> set requirements. r_id r = ''profile-'' @ i \<and> r_checks r = [''profile-'' @ i]"
    if "bt_get (rp_checks profile) i = Some check"
  proof (rule bexI)
    show "profile_requirement profile pd (''profile-'' @ i) check \<in> set requirements"
      using f2 bt_get_in_set [OF that] by auto
  qed (simp add: profile_requirement_def)
  show "r \<in> set (po_requirements p) \<or> (\<exists>b. r_origin r = Repository b)" if "r \<in> set requirements"
    using f2 that by (auto simp: profile_requirement_def)
qed

lemma has_check_mono:
  "has_check c a checks i check \<Longrightarrow> (\<And>i d. bt_get checks i = Some d \<Longrightarrow> bt_get checks' i = Some d) \<Longrightarrow>
     has_check c a checks' i check"
  by (auto simp: has_check_def)

section \<open>Compiled contracts\<close>

text \<open>
  The operator's policy behind a task: the artifact its intake names, decoded.
\<close>

definition task_policy ::
    "('b, 'z) codec_scheme \<Rightarrow> 'b admission_codec \<Rightarrow> 'b ArtifactStore \<Rightarrow> TaskState \<Rightarrow> RequestPolicy \<Rightarrow> bool" where
  "task_policy c a st s policy \<longleftrightarrow>
     (\<exists>intake bytes. t_intake s = Some intake \<and> read_artifact c st intake = Inr bytes \<and>
        dec_policy a bytes = Inr policy)"

text \<open>A check is required and runnable: its program is the given one and its bytes are stored.\<close>

definition enforces ::
    "('b, 'z) codec_scheme \<Rightarrow> 'b admission_codec \<Rightarrow> 'b ArtifactStore \<Rightarrow> Contract \<Rightarrow> string \<Rightarrow> ProposedCheck \<Rightarrow> bool" where
  "enforces c a st k i check \<longleftrightarrow>
     (\<exists>d x. bt_get (c_checks k) i = Some d \<and> program_digest c a (pk_program check) = Inr (d_verifier d) \<and>
        d_kind d = pk_kind check \<and> read_artifact c st (d_verifier d) = Inr x)"

lemma program_digest_Inr:
  "program_digest c a p = Inr x \<Longrightarrow> enc_program a p = Inr b \<Longrightarrow> x = sha c b"
  by (auto simp: program_digest_def of_value_def result_simps)


end
