(* ===== verification/Verification_Properties.thy ===== *)
theory Verification_Properties
  imports Verification Store_Fixture
begin

text \<open>
  What a recorded verification shows about the candidate, and a run on concrete data.
\<close>

section \<open>Passed checks\<close>

text \<open>
  C12: When a verification run settles its check as passed, the run happened in the admitted environment on
  exactly the candidate's bytes, before and after; every probe of the program was run, in order, against
  that candidate and its expectation held; and a check that needs a control saw the control workspace of
  the ticket fail for the expected reason.
\<close>

theorem passed_check_was_observed:
  assumes "verification_execute c v h t path control w = Inr (r, w')"
    and "verification_finish c v st t r now d = Inr (s, st', d')"
    and "ob_status (ev_observation (last (t_evidence s))) = CheckPassed"
  shows "host_environment h = Some (vt_environment t) \<and> matches_exact h w (vt_candidate t) path \<and>
    matches_exact h w' (vt_candidate t) path \<and> \<not> is_cancelled h w' \<and>
    list_all2 (probe_held h (vt_candidate t) path) (cp_probes (vt_program t)) (vr_probes r) \<and>
    (vt_control_required t \<longrightarrow> (\<exists>snapshot p failure. control = Some (snapshot, p) \<and>
      (\<exists>w. usable_control c v h t w (snapshot, p)) \<and> cp_control_failure (vt_program t) = Some failure \<and>
      list_all2 (probe_ran h snapshot p) (cp_probes (vt_program t)) (vr_control r) \<and>
      list_ex (control_matches failure) (vr_control r)))"
proof -
  have "report_status t r = CheckPassed"
    using assms(2) by (rule finish_evidence) (use assms(3) in \<open>auto simp: report_observation_def\<close>)
  note facts = execute_passed [OF assms(1) this]
  show ?thesis
    by (intro conjI impI facts)
qed

section \<open>A run\<close>

definition vx_snapshot :: "string \<Rightarrow> Snapshot" where
  "vx_snapshot x = \<lparr>sn_version = 1, sn_policy = SnapshotPolicy_default,
     sn_entries = [(x, File (bytes32 1) 0)]\<rparr>"

definition vx_program :: CheckProgram where
  "vx_program = \<lparr>cp_version = 1,
     cp_probes = [CommandProbe ''run'' ''make test'' 0 (Some (Contains ''ok'')) None, FileProbe ''out'' ''a'' (bytes32 1)],
     cp_control_failure = Some \<lparr>cf_probe = ''run'', cf_stdout = Some (Contains ''bad''), cf_stderr = None\<rparr>\<rparr>"

definition vx_codec :: "wire verification_codec" where
  "vx_codec = \<lparr>derive_uuid = (\<lambda>u _. u), dec_program = (\<lambda>_. Inr vx_program),
     enc_snapshot = (\<lambda>s. Inr (if bt_contains (sn_entries s) ''a'' then WBlob (bytes32 1) else WBlob (bytes32 2))),
     enc_report = (\<lambda>_. Inr (WBlob (bytes32 9))), enc_probe_reports = (\<lambda>_. Inr (WBlob (bytes32 10)))\<rparr>"

text \<open>The test passes in the candidate's directory \<open>/c\<close> and fails in the control's directory.\<close>

definition vx_host :: "nat host" where
  "vx_host = \<lparr>matches_exact = (\<lambda>_ _ _. True), elapsed_ns = (\<lambda>n. n), is_cancelled = (\<lambda>_. False),
     host_environment = Some (bytes32 2), host_image_id = ''image'',
     execute_request = (\<lambda>q n. (Inr \<lparr>xr_job_id = xq_job_id q,
       xr_status = Exited (if xq_workspace q = ''/c'' then 0 else 1),
       xr_stdout = (if xq_workspace q = ''/c'' then ''all ok'' else ''bad''), xr_stderr = [], xr_elapsed_ms = 1,
       xr_image_id = ''image'', xr_container_name = ''x''\<rparr>, n + 10)),
     pass = Suc\<rparr>"

definition vx_ticket :: "wire VerificationTicket" where
  "vx_ticket = \<lparr>vt_lease = fx_lease, vt_program = vx_program, vt_candidate = vx_snapshot ''a'',
     vt_environment = bytes32 2, vt_timeout_ms = 1000, vt_control_required = True,
     vt_control_kind = NegativeControl, vt_control_source = Some (bytes32 2)\<rparr>"

definition vx_probe_report :: "string \<Rightarrow> bool \<Rightarrow> int \<Rightarrow> string \<Rightarrow> ProbeReport" where
  "vx_probe_report i passed code out = \<lparr>pb_id = i, pb_passed = passed, pb_infrastructure_ok = True,
     pb_assertions = 2, pb_stdout = out, pb_stderr = [],
     pb_execution = Some \<lparr>xr_job_id = Uuid 7, xr_status = Exited code, xr_stdout = out, xr_stderr = [],
       xr_elapsed_ms = 1, xr_image_id = ''image'', xr_container_name = ''x''\<rparr>\<rparr>"

definition vx_file_report :: "bool \<Rightarrow> ProbeReport" where
  "vx_file_report passed = \<lparr>pb_id = ''out'', pb_passed = passed, pb_infrastructure_ok = True,
     pb_assertions = 1, pb_stdout = [], pb_stderr = [], pb_execution = None\<rparr>"

definition vx_report :: VerificationReport where
  "vx_report = \<lparr>vr_job_id = Uuid 7, vr_probes = [vx_probe_report ''run'' True 0 ''all ok'', vx_file_report True],
     vr_control = [vx_probe_report ''run'' False 1 ''bad'', vx_file_report False], vr_limitations = [],
     vr_cancelled = False, vr_control_required = True, vr_control_matched = True, vr_image_id = ''image'',
     vr_source = bytes32 1, vr_control_source = Some (bytes32 2)\<rparr>"

definition vx_observation :: Observation where
  "vx_observation = report_observation vx_ticket vx_report (bytes32 9) (Some (bytes32 10))"

lemma vx_remaining: "n \<le> 100 \<Longrightarrow> remaining_ms vx_host 1000 n \<noteq> 0"
proof -
  assume "n \<le> 100"
  then have "999 \<le> (1000000000 - n) div 1000000" and "(1000000000 - n) div 1000000 \<le> 1000"
    by linarith+
  then have "(1000000000 - n) div 1000000 \<in> {999, 1000}" by auto
  then show ?thesis
    by (auto simp: remaining_ms_def vx_host_def)
qed

lemma vx_host_simps:
  "host_environment vx_host = Some (bytes32 2)" "matches_exact vx_host w s p" "pass vx_host n = Suc n"
  "is_cancelled vx_host n = False" "host_image_id vx_host = ''image''"
  "execute_request vx_host q n = (Inr \<lparr>xr_job_id = xq_job_id q,
       xr_status = Exited (if xq_workspace q = ''/c'' then 0 else 1),
       xr_stdout = (if xq_workspace q = ''/c'' then ''all ok'' else ''bad''), xr_stderr = [], xr_elapsed_ms = 1,
       xr_image_id = ''image'', xr_container_name = ''x''\<rparr>, n + 10)"
  by (simp_all add: vx_host_def)

lemma vx_run_probes:
  assumes "n \<le> 50" and "path = (if control then ''/k'' else ''/c'')"
  shows "run_probes vx_codec vx_host (Uuid 7) control (vx_snapshot x) path 1000 (cp_probes vx_program) n =
    ([vx_probe_report ''run'' (\<not> control) (if control then 1 else 0) (if control then ''bad'' else ''all ok''),
      vx_file_report (x = ''a'')], None, n + 12)"
proof -
  have "remaining_ms vx_host 1000 n \<noteq> 0" "remaining_ms vx_host 1000 (11 + n) \<noteq> 0"
    using assms(1) by (simp_all add: vx_remaining)
  then show ?thesis
    using assms(2)
    by (simp add: vx_program_def vx_codec_def probe_job_id_def Let_def run_probe_def vx_host_simps meets_def
        observed_exit_def vx_probe_report_def vx_file_report_def vx_snapshot_def bt_get_def)
qed

lemma vx_digests:
  "snapshot_digest wire_codec vx_codec (vx_snapshot ''a'') = Inr (bytes32 1)"
  "snapshot_digest wire_codec vx_codec (vx_snapshot ''b'') = Inr (bytes32 2)"
  by (simp_all add: snapshot_digest_def of_value_def vx_codec_def vx_snapshot_def bt_contains_def bt_get_def
      wire_codec_def)

lemma vx_execute:
  "verification_execute wire_codec vx_codec vx_host vx_ticket ''/c'' (Some (vx_snapshot ''b'', ''/k'')) 0 =
     Inr (vx_report, 28)"
proof -
  have ticket: "vt_candidate vx_ticket = vx_snapshot ''a''" "vt_environment vx_ticket = bytes32 2"
      "vt_timeout_ms vx_ticket = 1000" "vt_control_required vx_ticket" "vt_control_source vx_ticket = Some (bytes32 2)"
      "vl_job (vt_lease vx_ticket) = Uuid 7" "vt_program vx_ticket = vx_program"
    by (simp_all add: vx_ticket_def fx_lease_def)
  have "list_ex (control_matches \<lparr>cf_probe = ''run'', cf_stdout = Some (Contains ''bad''), cf_stderr = None\<rparr>)
      [vx_probe_report ''run'' False 1 ''bad'', vx_file_report False]"
    by (simp add: control_matches_def vx_probe_report_def meets_def)
  moreover have "cp_control_failure vx_program = Some \<lparr>cf_probe = ''run'', cf_stdout = Some (Contains ''bad''), cf_stderr = None\<rparr>"
    by (simp add: vx_program_def)
  ultimately show ?thesis
    by (simp add: verification_execute_def vx_digests vx_host_simps ticket vx_run_probes Let_def run_control_def
        usable_control_def empty_report_def vx_report_def)
qed

lemma vx_observed: "ob_status vx_observation = CheckPassed"
  by (simp add: vx_observation_def report_observation_def report_status_def report_passed_def all_observed_def
      vx_report_def vx_probe_report_def vx_file_report_def vx_ticket_def vx_program_def)

lemma vx_put: "digest_ok x \<Longrightarrow> put_artifact wire_codec wire_store (WBlob x) = Inr (x, wire_store)"
proof -
  assume "digest_ok x"
  then have "try_exists wire_store x" and "sha wire_codec (WBlob x) = x" and "blen wire_codec (WBlob x) = 0"
    by (simp_all add: try_exists_def wire_store_def artifact_path_def digest_from_to_string wire_codec_def)
  then show ?thesis
    using wire_read [OF \<open>digest_ok x\<close>] by (simp add: put_artifact_def put_racing_def)
qed

definition vx_evidence :: Evidence where
  "vx_evidence = fx_evidence\<lparr>ev_observation := vx_observation\<rparr>"

lemma vx_finish:
  assumes at: "fx_at 4 (Some fx_lease_digest) d"
  shows "\<exists>s d'. verification_finish wire_codec vx_codec wire_store vx_ticket vx_report 1003 d = Inr (s, wire_store, d') \<and>
    last (t_evidence s) = vx_evidence"
proof -
  obtain h where ok: "stored wire_codec d fx_task (fx_state 4) h" and rows: "plain_rows d"
    and lease: "db_leases d (fx_task, Uuid 7) = Some fx_lease_digest"
    using at by (auto simp: fx_at_def)
  have reads: "read_all wire_codec wire_store [ob_report vx_observation] = Inr ()"
      "read_all wire_codec wire_store [bytes32 10, bytes32 2] = Inr ()"
    by (rule wire_read_all, simp add: vx_observation_def report_observation_def)+
  have control: "ob_control vx_observation = Some \<lparr>co_kind = NegativeControl, co_source = bytes32 2,
      co_rejected = True, co_intended_reason = True, co_report = bytes32 10\<rparr>"
    by (simp add: vx_observation_def report_observation_def vx_report_def vx_ticket_def vx_probe_report_def)
  have evidence: "lease_evidence wire_codec wire_store (Uuid 7) 1003 vx_observation (fx_state 4) = Inr vx_evidence"
    unfolding lease_evidence_def fx_fields reads control
    by (simp add: fx_checker_def reads vx_evidence_def fx_evidence_def)
  let ?s = "(apply_observed vx_evidence (fx_state 4))\<lparr>t_revision := t_revision (fx_state 4) + 1\<rparr>"
  have applied: "task_apply (contract_digest wire_codec) (fx_state 4) (Observed vx_evidence) = Inr ?s"
    by (simp add: task_apply_def apply_observed_def)
  have refs: "plain_refs (Observed vx_evidence)"
    unfolding plain_refs_def by code_simp
  have task: "vl_task fx_lease = fx_task" "vl_job fx_lease = Uuid 7" "vl_token fx_lease = fx_token"
    by (simp_all add: fx_lease_def)
  have "\<exists>d' h'. finish_check wire_codec wire_store fx_lease vx_observation 1003 d = Inr (?s, d') \<and>
    stored wire_codec d' fx_task ?s h' \<and> plain_rows d' \<and> db_leases d' = db_leases (delete_lease fx_task (Uuid 7) d)"
    unfolding finish_check_def task
    by (rule wire_change [OF ok rows _ _ _ _ refs applied])
      (simp_all add: fx_outcome lease evidence delete_lease_def same_journal_def fx_facts)
  then obtain d' where fin: "finish_check wire_codec wire_store fx_lease vx_observation 1003 d = Inr (?s, d')"
    by blast
  have "verification_finish wire_codec vx_codec wire_store vx_ticket vx_report 1003 d = Inr (?s, wire_store, d')"
    using fin vx_put [of "bytes32 9"] vx_put [of "bytes32 10"]
    by (simp add: verification_finish_def vx_codec_def vx_observation_def) (simp add: vx_report_def vx_ticket_def fx_lease_def)
  moreover have "last (t_evidence ?s) = vx_evidence"
    by (simp add: apply_observed_def)
  ultimately show ?thesis by blast
qed

theorem passed_check_was_observed_witness:
  "list_all2 (probe_held vx_host (vx_snapshot ''a'') ''/c'') (cp_probes vx_program) (vr_probes vx_report) \<and>
   (\<exists>failure. cp_control_failure vx_program = Some failure \<and> list_ex (control_matches failure) (vr_control vx_report))"
proof -
  obtain d s d' where fin: "verification_finish wire_codec vx_codec wire_store vx_ticket vx_report 1003 d = Inr (s, wire_store, d')"
    and last: "last (t_evidence s) = vx_evidence"
    using fx_leased vx_finish by blast
  have "ob_status (ev_observation (last (t_evidence s))) = CheckPassed"
    by (simp add: last vx_evidence_def vx_observed)
  from passed_check_was_observed [OF vx_execute fin this] show ?thesis
    by (auto simp: vx_ticket_def)
qed

end
