(* ===== verification/Admission_Properties.thy ===== *)
theory Admission_Properties
  imports Admission Verification_Properties
begin

text \<open>A compilation on concrete data.\<close>

definition ax_check :: "CheckKind \<Rightarrow> ProposedCheck" where
  "ax_check kind = \<lparr>pk_purpose = ''works'', pk_kind = kind, pk_program = vx_program, pk_baseline_failure = True,
     pk_control_omission = None\<rparr>"

definition ax_policy :: RequestPolicy where
  "ax_policy = \<lparr>rq_version = 1, rq_profile = \<lparr>rp_version = 1, rp_name = ''repo'',
     rp_checks = [(''lint'', ax_check Static)]\<rparr>, rq_delivery = Patch\<rparr>"

definition ax_requirement :: Requirement where
  "ax_requirement = \<lparr>r_id = ''fix'', r_behavior = ''it is fixed'', r_origin = User ''fix it'',
     r_checks = [''unit''], r_depends_on = []\<rparr>"

definition ax_proposal :: Proposal where
  "ax_proposal = \<lparr>po_outcome = ''fixed'', po_scope = ''all'', po_requirements = [ax_requirement],
     po_checks = [(''unit'', ax_check Behavior)], po_protected_behavior = [], po_assumptions = [],
     po_open_questions = []\<rparr>"

definition ax_codec :: "wire admission_codec" where
  "ax_codec = verification_codec.extend vx_codec \<lparr>dec_policy = (\<lambda>_. Inr ax_policy),
     enc_profile = (\<lambda>_. Inr (WBlob (bytes32 21))), enc_program = (\<lambda>_. Inr (WBlob (bytes32 22))),
     enc_receipt = (\<lambda>_. Inr (WBlob (bytes32 23)))\<rparr>"

definition ax_task :: TaskState where
  "ax_task = requested fx_task ''please fix it'' Limits_default 1000 (Some (bytes32 20)) None"

definition ax_definition :: "string \<Rightarrow> CheckKind \<Rightarrow> CheckDefinition" where
  "ax_definition i kind = \<lparr>d_purpose = ''works'', d_kind = kind, d_verifier = bytes32 22,
     d_command = [''tact-protected-verifier'', i], d_timeout_ms = 60000, d_minimum_assertions = 1,
     d_control = BaselineFailure, d_control_source = None, d_baseline = MustPass, d_flake = RejectAnyFailure\<rparr>"

definition ax_contract :: Contract where
  "ax_contract = \<lparr>c_request = ''please fix it'', c_outcome = ''fixed'', c_scope = ''all'',
     c_requirements = [ax_requirement,
       profile_requirement (rq_profile ax_policy) (bytes32 21) ''profile-lint'' (ax_check Static)],
     c_checks = [(''profile-lint'', ax_definition ''profile-lint'' Static), (''unit'', ax_definition ''unit'' Behavior)],
     c_protected_behavior = [], c_assumptions = [], c_open_questions = [], c_delivery = Patch,
     c_limits = Limits_default\<rparr>"

lemma ax_codec_fields:
  "dec_policy ax_codec b = Inr ax_policy" "enc_program ax_codec p = Inr (WBlob (bytes32 22))"
  "enc_receipt ax_codec r = Inr (WBlob (bytes32 23))" "of_value (enc_profile ax_codec) (sha wire_codec) q = Inr (bytes32 21)"
  "of_value (enc_snapshot ax_codec) (sha wire_codec) (vx_snapshot ''a'') = Inr (bytes32 1)"
  "program_digest wire_codec ax_codec p = Inr (bytes32 22)"
  by (simp_all add: ax_codec_def verification_codec.defs vx_codec_def of_value_def wire_codec_def program_digest_def
      vx_snapshot_def bt_contains_def bt_get_def)

lemma ax_program: "program_validate vx_program = Inr ()"
proof -
  have "list_all is_normal (components ''a'')" and "\<not> blank ''make test''" by code_simp+
  then show ?thesis
    by (simp add: program_validate_def vx_program_def validate_probe_def EXECUTOR_MAX_COMMAND_BYTES_def
        invalid_expectation_def bs_insert_def)
qed

lemma ax_check_valid: "validate_check (ax_check kind) = Inr ()"
proof -
  have "\<not> blank ''works''" by code_simp
  then show ?thesis
    by (simp add: validate_check_def ax_check_def ax_program) (simp add: vx_program_def)
qed

lemma ax_policy_valid: "repository_validate (rq_profile ax_policy) = Inr ()" "policy_validate ax_policy = Inr ()"
proof -
  have "\<not> blank ''repo''" by code_simp
  then show "repository_validate (rq_profile ax_policy) = Inr ()"
    by (simp add: repository_validate_def ax_policy_def bt_values_def ax_check_valid)
  then show "policy_validate ax_policy = Inr ()"
    by (simp add: policy_validate_def) (simp add: ax_policy_def deliverable_def)
qed

lemma ax_contract_valid: "contract_validate ax_contract = Inr ()"
  by code_simp

lemma ax_proposal_valid: "check_proposal ''please fix it'' (vx_snapshot ''a'') ax_proposal = Inr ()"
  by code_simp

lemmas ax_valid = ax_check_valid ax_policy_valid ax_contract_valid ax_proposal_valid

lemma ax_checks:
  "compile_checks wire_codec ax_codec (rq_profile ax_policy) ax_proposal =
     Inr (c_checks ax_contract, [], c_requirements ax_contract)"
  by (simp add: compile_checks_def ax_proposal_def add_proposed_def check_definition_def ax_valid ax_codec_fields
      ax_policy_def add_profile_check_def ax_contract_def, simp add: ax_check_def ax_definition_def Let_def)

lemma ax_compile:
  "compile wire_codec ax_codec wire_store ax_task ax_proposal (vx_snapshot ''a'') =
     Inr (\<lparr>cc_contract = ax_contract, cc_receipt = bytes32 23\<rparr>, wire_store)"
proof -
  have task: "t_intake ax_task = Some (bytes32 20)" "t_contract ax_task = None" "t_request ax_task = ''please fix it''"
      "t_initial_limits ax_task = Limits_default"
    by (simp_all add: ax_task_def requested_def)
  have basis: "user_basis wire_codec wire_store ax_task = Inr ''please fix it''"
    by (simp add: user_basis_def ax_task_def requested_def)
  have programs: "encode_programs ax_codec (bt_values (po_checks ax_proposal) @ bt_values (rp_checks (rq_profile ax_policy))) =
      Inr [WBlob (bytes32 22), WBlob (bytes32 22)]"
    by (simp add: encode_programs_def ax_codec_fields ax_proposal_def ax_policy_def bt_values_def)
  have put: "put_all wire_codec wire_store [WBlob (bytes32 22), WBlob (bytes32 22)] = Inr wire_store"
      "put_artifact wire_codec wire_store (WBlob (bytes32 23)) = Inr (bytes32 23, wire_store)"
    by (simp_all add: put_all_def vx_put)
  have merged: "\<lparr>c_request = ''please fix it'', c_outcome = po_outcome ax_proposal, c_scope = po_scope ax_proposal,
       c_requirements = c_requirements ax_contract, c_checks = c_checks ax_contract,
       c_protected_behavior = po_protected_behavior ax_proposal, c_assumptions = [],
       c_open_questions = po_open_questions ax_proposal, c_delivery = rq_delivery ax_policy, c_limits = Limits_default\<rparr> = ax_contract"
    by (simp add: ax_proposal_def ax_policy_def ax_contract_def)
  have deliverable: "deliverable (rq_delivery ax_policy)"
    by (simp add: deliverable_def ax_policy_def)
  show ?thesis
    by (simp add: compile_def task basis wire_read ax_codec_fields ax_valid Let_def programs ax_checks merge_with_def
        merged put deliverable)
qed


end
