(* ===== verification/Submission_Store.thy ===== *)
theory Submission_Store
  imports Session_Commands Admission
begin

text \<open>
  The submission queue of the store (\<^verbatim>\<open>store/submissions.rs\<close>) and the requests that start a task from an
  intake policy (\<^verbatim>\<open>store.rs\<close>). Random identifiers and clock readings are arguments.
\<close>

section \<open>Reading the queue\<close>

definition submission ::
    "('b, 'z) session_codec_scheme \<Rightarrow> 'b db \<Rightarrow> SessionId \<Rightarrow> uuid \<Rightarrow> StoreError + Submission" where
  "submission c d i request =
     and_then (load_session c d i) (\<lambda>s.
     ok_or (bt_get (se_submissions s) request) (Invalid ''submission has not been accepted''))"

definition queued_submissions :: "'b SessionState \<Rightarrow> Submission list" where
  "queued_submissions s = List.map_filter (bt_get (se_submissions s)) (se_queue_order s)"

definition next_submission ::
    "('b, 'z) session_codec_scheme \<Rightarrow> 'b db \<Rightarrow> SessionId \<Rightarrow> StoreError + Submission option" where
  "next_submission c d i =
     and_then (load_session c d i) (\<lambda>s.
     Inr (List.find (\<lambda>x. su_status x = Queued) (queued_submissions s)))"

definition submissions_page ::
    "('b, 'z) session_codec_scheme \<Rightarrow> 'b db \<Rightarrow> SessionId \<Rightarrow> nat \<Rightarrow> nat \<Rightarrow> StoreError + SubmissionPage" where
  "submissions_page c d i offset limit =
     (if limit = 0 \<or> limit > 64 then Inl (Invalid ''submission pages must contain 1..64 records'') else
      and_then (load_session c d i) (\<lambda>s.
      let pending = filter (\<lambda>x. sub_pending (su_status x)) (queued_submissions s); n = length pending in
      if offset > n then Inl (Invalid ''submission offset exceeds pending count'') else
      let page = take limit (drop offset pending); last_index = offset + length page in
      Inr \<lparr>sp_submissions = page, sp_total = n,
           sp_next = (if last_index < n then Some last_index else None),
           sp_journal_sequence = journal_head d\<rparr>))"

definition pending_in :: "'b SessionState \<Rightarrow> nat" where
  "pending_in s = length (filter (\<lambda>x. sub_pending (su_status x)) (bt_values (se_submissions s)))"

text \<open>
  The loop over pages of 64 sessions; it ends with the first page that is not full
  (which is when fewer than 64 identifiers are left).
\<close>

function pending_pages ::
    "('b, 'z) session_codec_scheme \<Rightarrow> 'b db \<Rightarrow> SessionId list \<Rightarrow> nat \<Rightarrow> StoreError + nat" where
  "pending_pages c d ids counted =
     and_then (load_each c d (take 64 ids)) (\<lambda>states.
     let counted' = counted + sum_list (map pending_in states) in
     if length states < 64 \<or> length ids < 64 then Inr counted' else pending_pages c d (drop 64 ids) counted')"
  by pat_completeness auto
termination
  by (relation "measure (\<lambda>(c, d, ids, counted). length ids)") auto

declare pending_pages.simps [simp del]

definition pending_submissions :: "('b, 'z) session_codec_scheme \<Rightarrow> 'b db \<Rightarrow> StoreError + nat" where
  "pending_submissions c d = pending_pages c d (session_ids d) 0"

section \<open>Submitting\<close>

definition read_policy ::
    "('b, 'z) codec_scheme \<Rightarrow> 'b admission_codec \<Rightarrow> 'b ArtifactStore \<Rightarrow> digest \<Rightarrow> StoreError + unit" where
  "read_policy c a st x =
     and_then (map_err StoreArtifact (read_artifact c st x)) (\<lambda>bytes.
     and_then (map_err StoreJson (dec_policy a bytes)) policy_validate)"

definition check_intent ::
    "('b, 'z) codec_scheme \<Rightarrow> 'b admission_codec \<Rightarrow> 'b ArtifactStore \<Rightarrow> PreparedInput \<Rightarrow> WorkIntent \<Rightarrow>
     StoreError + unit" where
  "check_intent c a st prepared intent =
     (case intent of
        ShellWork spec \<Rightarrow>
          and_then (shell_validate spec) (\<lambda>_.
          if pi_text prepared \<noteq> ''! '' @ sh_command spec
          then Inl (Invalid ''shell input differs from its command'') else Inr ())
      | AuxiliaryWork spec \<Rightarrow> aux_validate spec
      | NewTask lims policy \<Rightarrow>
          and_then (map_err StoreContract (limits_validate lims)) (\<lambda>_.
          and_then (read_policy c a st policy) (\<lambda>_.
          if blank (pi_text prepared)
          then Inl (Invalid ''new coding tasks require a textual objective'') else Inr ()))
      | OrdinaryWork lims policy _ \<Rightarrow>
          and_then (map_err StoreContract (limits_validate lims)) (\<lambda>_.
          and_then (read_policy c a st policy) (\<lambda>_.
          if blank (pi_text prepared) then Inl (Invalid ''ordinary input requires text'') else Inr ()))
      | ContinueWork _ _ _ \<Rightarrow> Inr ())"

definition record_directive ::
    "('b, 'z) codec_scheme \<Rightarrow> 'b ArtifactStore \<Rightarrow> TaskId \<Rightarrow> TaskState \<Rightarrow> digest \<Rightarrow> TaskEvent \<Rightarrow> 'b db \<Rightarrow>
     StoreError + TaskState \<times> 'b db" where
  "record_directive c st i task task_head event d =
     and_then (append_task_event c st task task_head event d) (\<lambda>(task', d').
     Inr (task', delete_task_leases i d'))"

definition submit_continuation ::
    "('b, 'z) codec_scheme \<Rightarrow> 'b ArtifactStore \<Rightarrow> 'b SessionState \<Rightarrow> uuid \<Rightarrow> digest \<Rightarrow> WorkIntent \<Rightarrow> 'b db \<Rightarrow>
     StoreError + 'b db" where
  "submit_continuation c st s i input intent d =
     (case intent of
        ContinueWork task_id scope_revision schedule \<Rightarrow>
          if se_current_task s \<noteq> Some task_id
          then Inl (Invalid ''continuation must name the session's current task'') else
          and_then (load_state c d task_id) (\<lambda>(task, task_head).
          if t_scope_revision task \<noteq> scope_revision
          then Inl (RevisionMismatch scope_revision (t_scope_revision task))
          else if length (t_directives task) \<ge> 128 then Inl (Invalid ''task follow-up limit reached'')
          else if schedule = Steer then
            and_then (record_directive c st task_id task task_head (DirectiveReceived i input) d) (\<lambda>(_, d'). Inr d')
          else Inr d)
      | _ \<Rightarrow> Inr d)"

definition submitted_operation :: "('b, 'z) session_codec_scheme \<Rightarrow> uuid \<Rightarrow> uuid" where
  "submitted_operation c i = new_v5 c i ''submitted''"

definition new_submission :: "uuid \<Rightarrow> digest \<Rightarrow> WorkIntent \<Rightarrow> u64 \<Rightarrow> u64 \<Rightarrow> Submission" where
  "new_submission i input intent revision at_ms =
     \<lparr>su_manual_job = None, su_id = i, su_input = input, su_initial_input = input, su_records = [],
      su_result = None, su_intent = intent, su_status = Queued, su_submitted_revision = revision,
      su_submitted_ms = at_ms\<rparr>"

definition submit_transaction ::
    "('b, 'z) session_codec_scheme \<Rightarrow> 'b ArtifactStore \<Rightarrow> ('b SessionCommand \<Rightarrow> u64) \<Rightarrow> u64 \<Rightarrow> SessionId \<Rightarrow> uuid \<Rightarrow>
     digest \<Rightarrow> WorkIntent \<Rightarrow> 'b db \<Rightarrow> StoreError + Submission \<times> 'b db" where
  "submit_transaction c st now at_ms session_id i input intent d =
     and_then (load_session_state c d session_id None) (\<lambda>(s, head).
     case bt_get (se_submissions s) i of
       Some previous \<Rightarrow>
         if su_initial_input previous = input \<and> su_intent previous = intent then Inr (previous, d)
         else Inl (Invalid ''submission ID reused with different input or intent'')
     | None \<Rightarrow>
         if bt_contains (se_operations s) i
         then Inl (Invalid ''submission ID already belongs to another operation'')
         else if pending_in s \<ge> 16 then Inl (Invalid ''session queue capacity reached'') else
         and_then (submit_continuation c st s i input intent d) (\<lambda>d1.
         let x = new_submission i input intent (se_revision s + 1) at_ms in
         and_then (append_session_command c now (submitted_operation c i) (Submitted x) (s, head, d1))
           (\<lambda>(_, _, d2). Inr (x, d2))))"

definition submit ::
    "('b, 'z) session_codec_scheme \<Rightarrow> 'b admission_codec \<Rightarrow> 'b ArtifactStore \<Rightarrow> ('b SessionCommand \<Rightarrow> u64) \<Rightarrow> u64 \<Rightarrow>
     SessionId \<Rightarrow> uuid \<Rightarrow> digest \<Rightarrow> WorkIntent \<Rightarrow> 'b db \<Rightarrow> StoreError + Submission \<times> 'b db" where
  "submit c a st now at_ms session_id i input intent d =
     and_then (load_session c d session_id) (\<lambda>s.
     and_then (if \<not> bt_contains (se_submissions s) i then
           and_then (pending_submissions c d) (\<lambda>n.
           if n \<ge> 128 then Inl (Invalid ''host queue capacity reached'') else Inr ())
         else Inr ()) (\<lambda>_.
     and_then (load_input c st input) (\<lambda>prepared.
     and_then (check_intent c a st prepared intent) (\<lambda>_.
     submit_transaction c st now at_ms session_id i input intent d))))"

section \<open>Editing, moving and settling\<close>

definition strip_prefix :: "string \<Rightarrow> string \<Rightarrow> string option" where
  "strip_prefix text prefix = (if starts_with text prefix then Some (drop (length prefix) text) else None)"

definition edit_continuation ::
    "('b, 'z) codec_scheme \<Rightarrow> 'b ArtifactStore \<Rightarrow> 'b SessionState \<Rightarrow> uuid \<Rightarrow> digest \<Rightarrow> bool \<Rightarrow> TaskId \<Rightarrow> 'b db \<Rightarrow>
     StoreError + 'b db" where
  "edit_continuation c st s request replacement keeps_input i d =
     (if se_current_task s \<noteq> Some i
      then Inl (Invalid ''continuation no longer targets the current task'') else
      and_then (load_state c d i) (\<lambda>(task, task_head).
      let registered = bt_get (t_directive_scopes task) request in
      if (case registered of None \<Rightarrow> False | Some scope \<Rightarrow> scope \<le> t_admitted_scope_revision task)
      then Inl (Invalid ''this input has already entered the accepted contract; send a new follow-up'')
      else if registered \<noteq> None \<or> keeps_input then
        and_then (record_directive c st i task task_head
            (if registered \<noteq> None then DirectiveReplaced request replacement
             else DirectiveReceived request replacement) d) (\<lambda>(_, d'). Inr d')
      else Inr d))"

definition check_edit ::
    "('b, 'z) codec_scheme \<Rightarrow> 'b ArtifactStore \<Rightarrow> 'b SessionState \<Rightarrow> uuid \<Rightarrow> digest \<Rightarrow> bool \<Rightarrow> string \<Rightarrow> WorkIntent \<Rightarrow>
     'b db \<Rightarrow> StoreError + 'b db" where
  "check_edit c st s request replacement keeps_input text intent d =
     (case intent of
        ShellWork spec \<Rightarrow>
          and_then (ok_or (strip_prefix text ''! '') (Invalid ''shell edit must keep its command prefix''))
            (\<lambda>command. and_then (shell_validate (spec\<lparr>sh_command := command\<rparr>)) (\<lambda>_. Inr d))
      | NewTask _ _ \<Rightarrow>
          if blank text then Inl (Invalid ''new coding tasks require a textual objective'') else Inr d
      | ContinueWork i _ _ \<Rightarrow> edit_continuation c st s request replacement keeps_input i d
      | _ \<Rightarrow> Inr d)"

definition edit_submission ::
    "('b, 'z) session_codec_scheme \<Rightarrow> 'b ArtifactStore \<Rightarrow> ('b SessionCommand \<Rightarrow> u64) \<Rightarrow> SessionId \<Rightarrow> uuid \<Rightarrow> uuid \<Rightarrow>
     digest \<Rightarrow> digest option \<Rightarrow> 'b db \<Rightarrow> StoreError + Submission \<times> 'b db" where
  "edit_submission c st now session_id operation request expected_input input d =
     (let command = QueueEdited request expected_input input in
      and_then (map_err StoreJson (command_digest c command)) (\<lambda>fingerprint.
      and_then (load_session_state c d session_id None) (\<lambda>(s, head).
      case bt_get (se_operations s) operation of
        Some previous \<Rightarrow>
          if previous \<noteq> fingerprint
          then Inl (Invalid ''queue edit operation ID reused with different input'') else
          and_then (ok_or (bt_get (se_submissions s) request) (Invalid ''unknown submission'')) (\<lambda>x. Inr (x, d))
      | None \<Rightarrow>
          and_then (ok_or (bt_get (se_submissions s) request) (Invalid ''unknown submission'')) (\<lambda>x.
          if su_status x \<noteq> Queued \<or> su_input x \<noteq> expected_input
          then Inl (Invalid ''queued input was changed or claimed before the edit'') else
          let replacement = (case input of None \<Rightarrow> expected_input | Some y \<Rightarrow> y) in
          and_then (load_input c st replacement) (\<lambda>prepared.
          and_then (check_edit c st s request replacement (input = None) (pi_text prepared) (su_intent x) d) (\<lambda>d1.
          and_then (append_session_command c now operation command (s, head, d1)) (\<lambda>(s', _, d2).
          Inr (the (bt_get (se_submissions s') request), d2))))))))"

definition move_submission ::
    "('b, 'z) context_codec_scheme \<Rightarrow> 'b ArtifactStore \<Rightarrow> ('b SessionCommand \<Rightarrow> u64) \<Rightarrow> SessionId \<Rightarrow> uuid \<Rightarrow> uuid \<Rightarrow>
     digest \<Rightarrow> uuid option \<Rightarrow> 'b db \<Rightarrow> StoreError + Submission \<times> 'b db" where
  "move_submission c st now i operation request expected_input before d =
     (let command = QueueMoved request expected_input before in
      and_then (load_session c d i) (\<lambda>s.
      and_then (ok_or (bt_get (se_submissions s) request) (Invalid ''unknown submission'')) (\<lambda>current.
      case bt_get (se_operations s) operation of
        Some previous \<Rightarrow>
          and_then (map_err StoreJson (command_digest c command)) (\<lambda>fingerprint.
          if previous = fingerprint then Inr (current, d) else Inl (Invalid ''queue move operation ID reused''))
      | None \<Rightarrow>
          if su_status current \<noteq> Queued \<or> su_input current \<noteq> expected_input
          then Inl (Invalid ''queued input was changed or claimed before the move'')
          else if (case before of
                     None \<Rightarrow> False
                   | Some n \<Rightarrow> n = request \<or> \<not> (case bt_get (se_submissions s) n of
                       None \<Rightarrow> False | Some x \<Rightarrow> su_status x = Queued))
          then Inl (Invalid ''queue neighbor is no longer pending'') else
          and_then (session_command c st now i (se_revision s) operation command d) (\<lambda>(_, d').
          and_then (submission c d' i request) (\<lambda>x. Inr (x, d'))))))"

text \<open>The transitions of a submission; \<open>executed\<close> tells whether its input was recorded as an operation.\<close>

definition allowed_transition :: "bool \<Rightarrow> SubmissionStatus \<Rightarrow> SubmissionStatus \<Rightarrow> bool" where
  "allowed_transition executed previous status =
     (case (previous, status) of
        (Queued, SubRunning) \<Rightarrow> True
      | (Queued, SubCancelled) \<Rightarrow> True
      | (SubRunning, Queued) \<Rightarrow> True
      | (SubRunning, SubFinished _ _ _) \<Rightarrow> True
      | (SubRunning, SubInterrupted) \<Rightarrow> True
      | (SubRunning, SubCancelled) \<Rightarrow> \<not> executed
      | _ \<Rightarrow> False)"

definition set_submission_status ::
    "('b, 'z) context_codec_scheme \<Rightarrow> 'b ArtifactStore \<Rightarrow> ('b SessionCommand \<Rightarrow> u64) \<Rightarrow> uuid \<Rightarrow> SessionId \<Rightarrow> uuid \<Rightarrow>
     SubmissionStatus \<Rightarrow> 'b db \<Rightarrow> StoreError + Submission \<times> 'b db" where
  "set_submission_status c st now fresh i request status d =
     and_then (load_session c d i) (\<lambda>s.
     and_then (ok_or (bt_get (se_submissions s) request) (Invalid ''unknown submission'')) (\<lambda>previous.
     if su_status previous = status then Inr (previous, d)
     else if \<not> allowed_transition (bt_contains (se_operations s) request) (su_status previous) status
     then Inl (Invalid ''invalid submission status transition'') else
     and_then (session_command c st now i (se_revision s) fresh (SubmissionChanged request status) d) (\<lambda>(_, d').
     and_then (submission c d' i request) (\<lambda>x. Inr (x, d')))))"

section \<open>Recovery\<close>

definition recovered_status :: "'b SessionState \<Rightarrow> uuid \<Rightarrow> SubmissionStatus" where
  "recovered_status s request = (if bt_contains (se_operations s) request then SubInterrupted else Queued)"

definition recover_session_submissions ::
    "('b, 'z) context_codec_scheme \<Rightarrow> 'b ArtifactStore \<Rightarrow> ('b SessionCommand \<Rightarrow> u64) \<Rightarrow> (SessionId \<Rightarrow> uuid \<Rightarrow> uuid) \<Rightarrow>
     'b db \<Rightarrow> 'b SessionState \<Rightarrow> StoreError + 'b db" where
  "recover_session_submissions c st now fresh d s =
     try_fold (\<lambda>d x. and_then (set_submission_status c st now (fresh (se_id s) (su_id x)) (se_id s) (su_id x)
         (recovered_status s (su_id x)) d) (\<lambda>(_, d'). Inr d')) d
       (filter (\<lambda>x. su_status x = SubRunning) (bt_values (se_submissions s)))"

text \<open>No session is created meanwhile, so the pages are those of the identifiers at the start.\<close>

function recover_submission_pages ::
    "('b, 'z) context_codec_scheme \<Rightarrow> 'b ArtifactStore \<Rightarrow> ('b SessionCommand \<Rightarrow> u64) \<Rightarrow> (SessionId \<Rightarrow> uuid \<Rightarrow> uuid) \<Rightarrow>
     SessionId list \<Rightarrow> 'b db \<Rightarrow> StoreError + 'b db" where
  "recover_submission_pages c st now fresh ids d =
     and_then (load_each c d (take 64 ids)) (\<lambda>states.
     and_then (try_fold (recover_session_submissions c st now fresh) d states) (\<lambda>d'.
     if length states < 64 \<or> length ids < 64 then Inr d'
     else recover_submission_pages c st now fresh (drop 64 ids) d'))"
  by pat_completeness auto
termination
  by (relation "measure (\<lambda>(c, st, now, fresh, ids, d). length ids)") auto

declare recover_submission_pages.simps [simp del]

definition recover_submissions ::
    "('b, 'z) context_codec_scheme \<Rightarrow> 'b ArtifactStore \<Rightarrow> ('b SessionCommand \<Rightarrow> u64) \<Rightarrow> (SessionId \<Rightarrow> uuid \<Rightarrow> uuid) \<Rightarrow>
     'b db \<Rightarrow> StoreError + 'b db" where
  "recover_submissions c st now fresh d = recover_submission_pages c st now fresh (session_ids d) d"

section \<open>Continuations\<close>

definition continued_task ::
    "('b, 'z) session_codec_scheme \<Rightarrow> 'b db \<Rightarrow> SessionId \<Rightarrow> Submission \<Rightarrow> StoreError + TaskId" where
  "continued_task c d session_id x =
     (case su_intent x of
        ContinueWork i _ _ \<Rightarrow> Inr i
      | OrdinaryWork _ _ _ \<Rightarrow>
          and_then (load_session c d session_id) (\<lambda>s.
          ok_or (se_current_task s) (Invalid ''ordinary action has no current task to continue''))
      | _ \<Rightarrow> Inl (Invalid ''submission is not a continuation''))"

definition unfinished_work :: "TaskState \<Rightarrow> bool" where
  "unfinished_work s =
     (list_ex (\<lambda>job. unresolved (j_status job)) (bt_values (t_jobs s))
      \<or> list_ex (\<lambda>effect. eff_status effect = Intended \<or> eff_status effect = EffectUnknown)
          (bt_values (t_effects s))
      \<or> list_ex (\<lambda>call. case bt_get (t_model_receipts s) call of
            None \<Rightarrow> True | Some receipt \<Rightarrow> mc_status receipt = CallUnknown)
          (t_model_reservations s))"

text \<open>A directive that is not registered yet is received first; its task head is read back.\<close>

definition continue_directive ::
    "('b, 'z) codec_scheme \<Rightarrow> 'b ArtifactStore \<Rightarrow> TaskId \<Rightarrow> TaskState \<Rightarrow> digest \<Rightarrow> uuid \<Rightarrow> digest \<Rightarrow> 'b db \<Rightarrow>
     StoreError + TaskState \<times> digest \<times> 'b db" where
  "continue_directive c st i task task_head request input d =
     (if \<not> bt_contains (t_directive_scopes task) request then
        and_then (append_task_event c st task task_head (DirectiveReceived request input) d) (\<lambda>(task1, d1).
        and_then (load_state c d1 i) (\<lambda>(_, head1). Inr (task1, head1, delete_task_leases i d1)))
      else Inr (task, task_head, d))"

definition continue_submission ::
    "('b, 'z) session_codec_scheme \<Rightarrow> 'b ArtifactStore \<Rightarrow> ('b SessionCommand \<Rightarrow> u64) \<Rightarrow> u64 \<Rightarrow> SessionId \<Rightarrow> uuid \<Rightarrow>
     'b db \<Rightarrow> StoreError + ('b SessionState \<times> TaskState \<times> bool) \<times> 'b db" where
  "continue_submission c st now at_ms session_id request d =
     and_then (submission c d session_id request) (\<lambda>x.
     and_then (continued_task c d session_id x) (\<lambda>i.
     and_then (load_input c st (su_input x)) (\<lambda>prepared.
     and_then (load_session_state c d session_id None) (\<lambda>(s, head).
     if br_pending_shell (se_branch s) \<noteq> None
     then Inl (Invalid ''reconcile the pending shell before continuing'') else
     and_then (load_state c d i) (\<lambda>(task, task_head).
     if bt_get (se_tasks_by_request s) request = Some i then Inr ((s, task, False), d)
     else if su_status x \<noteq> SubRunning then Inl (Invalid ''continuation is not claimed for execution'')
     else if (case se_active_request s of None \<Rightarrow> False | Some active \<Rightarrow> active \<noteq> request)
     then Inl (Invalid ''session already has an active request'')
     else if se_current_task s \<noteq> Some i
     then Inl (Invalid ''queued continuation was superseded by another task'')
     else if unfinished_work task
     then Inl (Invalid ''reconcile unfinished jobs, effects and provider attempts before continuing'') else
     and_then (continue_directive c st i task task_head request (su_input x) d) (\<lambda>(task1, head1, d1).
     and_then (append_task_event c st task1 head1 (Reopened (''user continuation '' @ uuid_text c request)) d1)
       (\<lambda>(task2, d2).
     and_then (check_budget at_ms task2) (\<lambda>_.
     and_then (append_session_command c now request (InputCommand TaskRequest (pi_messages prepared)) (s, head, d2))
       (\<lambda>shd.
     and_then (append_session_command c now (task_link c request) (TaskLinked request i) shd) (\<lambda>(s', _, d').
     Inr ((s', task2, True), d')))))))))))"

section \<open>Starting a task from a policy\<close>

definition start_request where
  "start_request c a st now i at_ms session_id operation request lims intake d =
     (if blank request then Inl (Invalid ''empty task request'') else
      and_then (map_err StoreContract (limits_validate lims)) (\<lambda>_.
      and_then (read_policy c a st intake) (\<lambda>_.
      start_record c st now i at_ms session_id operation request lims None (Some intake) None d)))"

definition start_prepared_request where
  "start_prepared_request c a st now i at_ms session_id operation input lims intake d =
     (if blank (pi_text input)
      then Inl (Invalid ''a new coding task requires a textual instruction with its images'') else
      and_then (map_err StoreContract (limits_validate lims)) (\<lambda>_.
      and_then (read_policy c a st intake) (\<lambda>_.
      and_then (map_err StoreArtifact (read_artifact c st (pi_artifact input))) (\<lambda>encoded.
      and_then (map_err StoreJson (dec_messages c encoded)) (\<lambda>messages.
      if messages \<noteq> pi_messages input then Inl (Integrity ''input payload differs from its artifact'') else
      start_record c st now i at_ms session_id operation (pi_text input) lims None (Some intake) (Some input) d)))))"

end
