(* ===== verification/Submission_Queue.thy ===== *)
theory Submission_Queue
  imports Submission_Store
begin

text \<open>
  An abstract queue of submissions, its invariant, and the proof that the submission operations of the
  store move each session's queue by its steps only.
\<close>

section \<open>The abstract queue\<close>

type_synonym queue = "(uuid \<Rightarrow> SubmissionStatus option) \<times> uuid list"

definition pending_ids :: "(uuid \<Rightarrow> SubmissionStatus option) \<Rightarrow> uuid set" where
  "pending_ids m = {i. \<exists>status. m i = Some status \<and> sub_pending status}"

inductive queue_step :: "queue \<Rightarrow> queue \<Rightarrow> bool" where
  add: "m i = None \<Longrightarrow> card (pending_ids m) < 16 \<Longrightarrow> queue_step (m, q) (m(i \<mapsto> Queued), q @ [i])"
| move: "m i = Some Queued \<Longrightarrow> before \<noteq> Some i \<Longrightarrow> queue_step (m, q) (m, insert_before before i (dequeue i q))"
| front: "m i = Some Queued \<Longrightarrow> queue_step (m, q) (m, i # dequeue i q)"
| change: "m i = Some previous \<Longrightarrow> allowed_transition executed previous status \<Longrightarrow>
    queue_step (m, q) (m(i \<mapsto> status), if sub_pending status then q else dequeue i q)"

text \<open>The order lists every pending submission once and nothing else, and there are at most sixteen.\<close>

definition queue_ok :: "queue \<Rightarrow> bool" where
  "queue_ok mq \<longleftrightarrow> distinct (snd mq) \<and> set (snd mq) = pending_ids (fst mq) \<and> length (snd mq) \<le> 16"

lemma set_dequeue [simp]: "set (dequeue i q) = set q - {i}"
  by (auto simp: dequeue_def)

lemma distinct_dequeue [simp]: "distinct q \<Longrightarrow> distinct (dequeue i q)"
  by (simp add: dequeue_def)

lemma dequeue_absent [simp]: "i \<notin> set q \<Longrightarrow> dequeue i q = q"
  unfolding dequeue_def by (rule filter_True) blast

lemma set_insert_before [simp]: "set (insert_before before i q) = insert i (set q)"
  by (induction before i q rule: insert_before.induct) auto

lemma distinct_insert_before: "distinct q \<Longrightarrow> i \<notin> set q \<Longrightarrow> distinct (insert_before before i q)"
  by (induction before i q rule: insert_before.induct) auto

lemma length_insert_before [simp]: "length (insert_before before i q) = Suc (length q)"
  by (induction before i q rule: insert_before.induct) auto

lemma length_dequeue: "distinct q \<Longrightarrow> i \<in> set q \<Longrightarrow> Suc (length (dequeue i q)) = length q"
  by (metis List.finite_set Diff_insert_absorb card_Suc_Diff1 distinct_card distinct_dequeue set_dequeue)

lemma pending_status_simps [simp]:
  "sub_pending Queued" "sub_pending SubRunning" "\<not> sub_pending SubCancelled" "\<not> sub_pending SubInterrupted"
  "\<not> sub_pending (SubFinished t out e)"
  by (simp_all add: sub_pending_def)

lemma allowed_from_pending: "allowed_transition executed previous status \<Longrightarrow> sub_pending previous"
  by (auto simp: allowed_transition_def split: SubmissionStatus.splits)

lemma queue_step_ok: "queue_step mq mq' \<Longrightarrow> queue_ok mq \<Longrightarrow> queue_ok mq'"
proof (induction rule: queue_step.induct)
  case (add m i q)
  then have "i \<notin> set q" and "length q < 16"
    using distinct_card [of q] by (auto simp: queue_ok_def pending_ids_def)
  with add show ?case
    by (auto simp: queue_ok_def pending_ids_def split: if_splits)
next
  case (move m i before q)
  then have "i \<in> set q" by (auto simp: queue_ok_def pending_ids_def)
  with move show ?case
    using length_dequeue [of q i] by (auto simp: queue_ok_def intro!: distinct_insert_before)
next
  case (front m i q)
  then have "i \<in> set q" by (auto simp: queue_ok_def pending_ids_def)
  with front show ?case
    using length_dequeue [of q i] by (auto simp: queue_ok_def)
next
  case (change m i previous executed status q)
  then have i: "i \<in> set q"
    using allowed_from_pending by (auto simp: queue_ok_def pending_ids_def)
  have "pending_ids (m(i \<mapsto> status)) = (if sub_pending status then pending_ids m else pending_ids m - {i})"
    using i change by (auto simp: queue_ok_def pending_ids_def split: if_splits)
  then show ?case
    using change i length_dequeue [of q i] by (auto simp: queue_ok_def)
qed

text \<open>A submission that is no longer pending never changes again.\<close>

lemma queue_step_terminal:
  "queue_step mq mq' \<Longrightarrow> fst mq i = Some status \<Longrightarrow> \<not> sub_pending status \<Longrightarrow> fst mq' i = Some status"
  by (induction rule: queue_step.induct) (auto dest: allowed_from_pending)

section \<open>The queue of a session\<close>

definition queue_view :: "'b SessionState \<Rightarrow> queue" where
  "queue_view s = (\<lambda>i. map_option su_status (bt_get (se_submissions s) i), se_queue_order s)"

definition queue_command :: "'b SessionCommand \<Rightarrow> bool" where
  "queue_command command =
     (case command of
        QueueMoved _ _ _ \<Rightarrow> True | QueueEdited _ _ _ \<Rightarrow> True | Submitted _ \<Rightarrow> True | SubmissionChanged _ _ \<Rightarrow> True
      | _ \<Rightarrow> False)"

lemma queue_view_adjust:
  "(\<And>x. su_status (f x) = su_status x) \<Longrightarrow>
     (\<lambda>i. map_option su_status (bt_get (bt_adjust request f m) i)) = (\<lambda>i. map_option su_status (bt_get m i))"
  by (rule ext) (auto simp: bt_get_adjust option.map_comp o_def)

lemma session_arm_queue:
  assumes "session_arm c operation command s = Inr s'" and "\<not> queue_command command"
  shows "queue_view s' = queue_view s"
  using assms
  by (cases command)
    (auto simp: session_arms queue_command_def queue_view_def queue_view_adjust result_simps
      split: option.splits if_splits)

lemma session_apply_queue:
  assumes "session_apply c operation command s = Inr s'" and "\<not> queue_command command"
  shows "queue_view s' = queue_view s"
  using assms(1)
proof (cases rule: session_apply_cases)
  case direct
  then obtain s1 x where "session_arm c operation command s = Inr s1" and "s' = session_tail operation x s1"
    by (auto simp: session_record_Inr)
  with session_arm_queue assms(2) show ?thesis
    by (fastforce simp: queue_view_def)
next
  case (assembled request call d out buffers)
  then obtain s1 x where "session_arm c operation (ToolResult request call out) (s\<lparr>se_tool_output_buffers := buffers\<rparr>) = Inr s1"
    and "s' = session_tail operation x s1"
    by (auto simp: session_record_Inr)
  then show ?thesis
    by (auto simp: queue_view_def session_arm_def apply_tool_result_def)
qed

lemma session_apply_queue_command:
  assumes "session_apply c operation command s = Inr s'" and "queue_command command"
  shows "\<exists>s1. session_arm c operation command s = Inr s1 \<and> queue_view s' = queue_view s1 \<and>
    se_submissions s' = se_submissions s1"
  using assms(1)
proof (cases rule: session_apply_cases)
  case direct
  then show ?thesis by (auto simp: session_record_Inr queue_view_def)
next
  case assembled
  with assms(2) show ?thesis by (simp add: queue_command_def)
qed

section \<open>Appending\<close>

lemma append_event_queue:
  assumes "append_event c now operation command shd = Inr shd'" and "\<not> queue_command command"
  shows "queue_view (fst shd') = queue_view (fst shd)"
proof -
  obtain s h d s' h' d' where eqs: "shd = (s, h, d)" "shd' = (s', h', d')"
    by (metis prod_cases3)
  obtain b where app: "append_framed c operation command b s h d = Inr (s', h', d')"
    using assms(1) by (auto simp: eqs append_event_def result_simps split: if_splits)
  then have "session_apply c operation command s = Inr s'"
    by (rule append_framed_Inr)
  with session_apply_queue assms(2) show ?thesis
    by (simp add: eqs)
qed

lemma append_session_command_queue:
  assumes "append_session_command c now operation command (s, h, d) = Inr (s', h', d')"
    and "\<not> queue_command command"
  shows "queue_view s' = queue_view s"
  using assms(1)
proof (cases rule: append_session_command_cases)
  case (one b)
  from one(2) have "session_apply c operation command s = Inr s'"
    by (rule append_framed_Inr)
  from this assms(2) show ?thesis by (rule session_apply_queue)
next
  case (framed request call out shd1)
  let ?P = "\<lambda>shd. queue_view (fst shd) = queue_view s"
  have "?P shd1"
    using framed(2) unfolding append_parts_def
  proof (rule try_fold_invariant [where P = ?P])
    show "?P (s, h, d)" by simp
    show "?P acc'" if "?P acc" and "(case x of (offset, part) \<Rightarrow>
        append_event c now (new_v5 c operation (u64_le_bytes c (of_nat offset)))
          (ToolResultPart request call offset part) acc) = Inr acc'" for acc x acc'
      using that append_event_queue [of c now _ _ acc acc'] by (auto simp: queue_command_def split: prod.splits)
  qed
  then show ?thesis
    using append_event_queue [OF framed(3)] by (simp add: queue_command_def)
qed

lemma append_queue_command:
  assumes "append_session_command c now operation command (s, h, d) = Inr (s', h', d')"
    and "queue_command command"
  obtains s1 where "session_arm c operation command s = Inr s1" and "queue_view s' = queue_view s1"
    and "se_submissions s' = se_submissions s1"
proof -
  have "session_apply c operation command s = Inr s'"
    using assms(1) by (rule append_one) (use assms(2) in \<open>auto simp: queue_command_def\<close>)
  from session_apply_queue_command [OF this assms(2)] that show thesis by blast
qed

section \<open>What task events leave alone\<close>

definition session_part_eq :: "'b db \<Rightarrow> 'b db \<Rightarrow> bool" where
  "session_part_eq d d' \<longleftrightarrow> db_sessions d' = db_sessions d \<and> (\<forall>i. session_rows i d' = session_rows i d) \<and>
     (\<forall>r. cp_kind r = SessionAggregate \<longrightarrow> (r \<in> set (db_checkpoints d') \<longleftrightarrow> r \<in> set (db_checkpoints d)))"

lemma session_part_eq_refl [simp]: "session_part_eq d d"
  by (simp add: session_part_eq_def)

lemma session_part_eq_trans: "session_part_eq d d1 \<Longrightarrow> session_part_eq d1 d2 \<Longrightarrow> session_part_eq d d2"
  by (simp add: session_part_eq_def)

lemma session_part_eq_ok: "session_part_eq d d' \<Longrightarrow> session_ok c d' i s h \<longleftrightarrow> session_ok c d i s h"
  by (auto simp: session_part_eq_def session_ok_def is_session_checkpoint_def)

lemma session_part_eq_absent: "session_part_eq d d' \<Longrightarrow> session_absent d' i \<longleftrightarrow> session_absent d i"
  by (auto simp: session_part_eq_def session_absent_def is_session_checkpoint_def)

lemma session_part_eq_inv: "session_part_eq d d' \<Longrightarrow> sessions_inv c d' \<longleftrightarrow> sessions_inv c d"
  by (simp add: sessions_inv_def session_part_eq_ok [of d d'] session_part_eq_absent [of d d'])

lemma delete_task_leases_sessions [simp]: "session_part_eq d (delete_task_leases i d)"
  by (simp add: session_part_eq_def delete_task_leases_def session_rows_def)

lemma insert_event_sessions: "insert_event r d = Inr d' \<Longrightarrow> er_kind r = TaskAggregate \<Longrightarrow> session_part_eq d d'"
  by (auto simp: session_part_eq_def session_rows_def insert_event_def split: if_splits)

lemma update_task_sessions: "session_part_eq d (update_task i r d)"
  by (simp add: session_part_eq_def session_rows_def update_task_def)

lemma store_checkpoint_sessions: "store_checkpoint c i revision s h d = Inr d' \<Longrightarrow> session_part_eq d d'"
  by (auto simp: store_checkpoint_def replace_checkpoint_def same_checkpoint_def result_simps session_part_eq_def
      session_rows_def Let_def)

lemma append_task_event_sessions:
  assumes "append_task_event c st t h e d = Inr (t', d')"
  shows "session_part_eq d d'"
proof -
  from assms obtain r d1 r' revision s h' where "insert_event r d = Inr d1" and "er_kind r = TaskAggregate"
    and last: "d' = update_task (t_id t) r' d1 \<or>
      store_checkpoint c (t_id t) revision s h' (update_task (t_id t) r' d1) = Inr d'"
    by (fastforce simp: append_task_event_def Let_def and_then_Inr_iff split: if_splits)
  then have "session_part_eq d (update_task (t_id t) r' d1)"
    by (metis insert_event_sessions session_part_eq_trans update_task_sessions)
  with last show ?thesis
    by (auto intro: session_part_eq_trans dest!: store_checkpoint_sessions)
qed

section \<open>Steps of the store\<close>

text \<open>
  Session \<open>i\<close> took at most one step of its queue, the other sessions kept theirs, no session was added,
  and the database is consistent.
\<close>

definition queue_moved :: "('b, 'z) session_codec_scheme \<Rightarrow> SessionId \<Rightarrow> 'b db \<Rightarrow> 'b db \<Rightarrow> bool" where
  "queue_moved c i d d' \<longleftrightarrow> sessions_inv c d' \<and> (\<forall>j. session_absent d j \<longrightarrow> session_absent d' j) \<and>
     (\<forall>j s h. session_ok c d j s h \<longrightarrow> (\<exists>s' h'. session_ok c d' j s' h' \<and>
        (queue_view s' = queue_view s \<or> j = i \<and> queue_step (queue_view s) (queue_view s'))))"

lemma queue_moved_refl: "sessions_inv c d \<Longrightarrow> queue_moved c i d d"
  by (auto simp: queue_moved_def)

lemma session_ok_unique: "session_ok c d i s h \<Longrightarrow> session_ok c d i t g \<Longrightarrow> s = t \<and> h = g"
  using load_session_state_ok [of c d i s h] load_session_state_ok [of c d i t g] by auto

lemma queue_movedI:
  assumes "sessions_inv c d'" and "session_ok c d i s h" and "session_ok c d' i s' h'"
    and "queue_view s' = queue_view s \<or> queue_step (queue_view s) (queue_view s')"
    and "\<And>j t g. j \<noteq> i \<Longrightarrow> session_ok c d j t g \<Longrightarrow> session_ok c d' j t g"
    and "\<And>j. j \<noteq> i \<Longrightarrow> session_absent d j \<Longrightarrow> session_absent d' j"
  shows "queue_moved c i d d'"
proof -
  have "\<not> session_absent d i"
    using assms(2) by (auto simp: session_absent_def session_ok_def)
  then have absent: "session_absent d' j" if "session_absent d j" for j
    using that assms(6) by (cases "j = i") auto
  have "\<exists>t' g'. session_ok c d' j t' g' \<and> (queue_view t' = queue_view t \<or> j = i \<and> queue_step (queue_view t) (queue_view t'))"
    if t: "session_ok c d j t g" for j t g
  proof (cases "j = i")
    case True
    with session_ok_unique [OF assms(2)] t have "t = s" by blast
    with True assms(3,4) show ?thesis by blast
  next
    case False
    with assms(5) t show ?thesis by blast
  qed
  with assms(1) absent show ?thesis by (auto simp: queue_moved_def)
qed

lemma append_kept:
  assumes "sessions_inv c d" and "session_ok c d i s h" and "session_part_eq d d1"
    and "append_session_command c now operation command (s, h, d1) = Inr (s', h', d')"
    and "call_owned s command"
  shows "sessions_inv c d'" and "session_ok c d' i s' h'"
    and "j \<noteq> i \<Longrightarrow> session_ok c d j t g \<Longrightarrow> session_ok c d' j t g"
    and "j \<noteq> i \<Longrightarrow> session_absent d j \<Longrightarrow> session_absent d' j"
proof -
  have "sessions_inv c d1" and "session_ok c d1 i s h"
    using assms(1,2) session_part_eq_inv [OF assms(3)] session_part_eq_ok [OF assms(3)] by blast+
  show "session_absent d' j" if "j \<noteq> i" "session_absent d j"
    using that append_session_command_absent [OF assms(4)] session_part_eq_absent [OF assms(3)]
      session_ok_facts(3) [OF assms(2)] by blast
  note a = appended_sessions_inv [OF \<open>sessions_inv c d1\<close> \<open>session_ok c d1 i s h\<close> assms(4,5)]
  show "sessions_inv c d'" and "session_ok c d' i s' h'" by (fact a)+
  show "session_ok c d' j t g" if "j \<noteq> i" "session_ok c d j t g"
  proof -
    have "session_ok c d1 j t g"
      using that(2) session_part_eq_ok [OF assms(3)] by blast
    with that(1) a(4) show ?thesis
      unfolding extends_session_def by blast
  qed
qed

lemma append_moved:
  assumes "sessions_inv c d" and "session_ok c d i s h" and "session_part_eq d d1"
    and "append_session_command c now operation command (s, h, d1) = Inr (s', h', d')"
    and "call_owned s command"
    and "queue_view s' = queue_view s \<or> queue_step (queue_view s) (queue_view s')"
  shows "queue_moved c i d d'"
  using append_kept [OF assms(1-5)] assms(2,6) by (intro queue_movedI)

lemma session_command_moved:
  assumes "sessions_inv c d" and "session_ok c d i s h"
    and "session_command c st now i revision operation command d = Inr (s', d')"
    and "\<And>h'. append_session_command c now operation command (s, h, d) = Inr (s', h', d') \<Longrightarrow>
      queue_view s' = queue_view s \<or> queue_step (queue_view s) (queue_view s')"
  shows "queue_moved c i d d'"
  using assms(2,3)
proof (cases rule: session_command_cases)
  case retried
  with assms(1) show ?thesis by (simp add: queue_moved_refl)
next
  case (recorded h')
  show ?thesis
    by (rule append_moved [OF assms(1,2) session_part_eq_refl recorded(5) session_guard_owned [OF recorded(4)]
        assms(4) [OF recorded(5)]])
qed

lemma plain_command_moved:
  assumes "sessions_inv c d" and "session_command c st now i revision operation command d = Inr (s', d')"
    and "\<not> queue_command command"
  shows "queue_moved c i d d'"
  using assms(2)
proof (rule session_command_present [OF assms(1)])
  fix s h
  assume "session_ok c d i s h"
  with assms show ?thesis
    by (rule_tac session_command_moved) (auto dest: append_session_command_queue)
qed

lemma set_submission_status_moved:
  assumes inv: "sessions_inv c d" and "set_submission_status c st now fresh i request status d = Inr (x, d')"
  shows "queue_moved c i d d'"
proof -
  from assms(2) obtain s previous where load: "load_session c d i = Inr s"
    and prev: "bt_get (se_submissions s) request = Some previous"
    and steps: "su_status previous = status \<and> d' = d \<or>
      allowed_transition (bt_contains (se_operations s) request) (su_status previous) status \<and>
      (\<exists>s'. session_command c st now i (se_revision s) fresh (SubmissionChanged request status) d = Inr (s', d'))"
    by (auto simp: set_submission_status_def result_simps split: if_splits)
  obtain h where ok: "session_ok c d i s h"
    using load load_session_ok [OF inv] by (auto simp: load_session_Inr)
  have "queue_step (queue_view s) (queue_view s')"
    if "append_session_command c now fresh (SubmissionChanged request status) (s, h, d) = Inr (s', h', d')"
      and "allowed_transition (bt_contains (se_operations s) request) (su_status previous) status" for s' h'
  proof -
    have "queue_command (SubmissionChanged request status :: 'a SessionCommand)" by (simp add: queue_command_def)
    with that(1) obtain s1 where "session_arm c fresh (SubmissionChanged request status) s = Inr s1"
      and view: "queue_view s' = queue_view s1"
      by (rule append_queue_command)
    then have "queue_view s1 = ((fst (queue_view s))(request \<mapsto> status),
        if sub_pending status then snd (queue_view s) else dequeue request (snd (queue_view s)))"
      using prev by (auto simp: session_arm_def adjust_submission_def queue_view_def Let_def bt_get_adjust fun_eq_iff)
    moreover have "queue_step (fst (queue_view s), snd (queue_view s)) ((fst (queue_view s))(request \<mapsto> status),
        if sub_pending status then snd (queue_view s) else dequeue request (snd (queue_view s)))"
      by (rule queue_step.change [OF _ that(2)]) (simp add: queue_view_def prev)
    ultimately show ?thesis
      by (simp add: view)
  qed
  then show ?thesis
    using steps queue_moved_refl [OF inv] session_command_moved [OF inv ok] by blast
qed

lemma move_submission_moved:
  assumes inv: "sessions_inv c d"
    and "move_submission c st now i operation request expected before d = Inr (x, d')"
  shows "queue_moved c i d d'"
proof -
  let ?command = "QueueMoved request expected before"
  from assms(2) obtain s current where load: "load_session c d i = Inr s"
    and cur: "bt_get (se_submissions s) request = Some current"
    and steps: "d' = d \<or> su_status current = Queued \<and> before \<noteq> Some request \<and>
      (\<exists>s'. session_command c st now i (se_revision s) operation ?command d = Inr (s', d'))"
    by (auto simp: move_submission_def Let_def result_simps split: if_splits option.splits)
  obtain h where ok: "session_ok c d i s h"
    using load load_session_ok [OF inv] by (auto simp: load_session_Inr)
  have "queue_step (queue_view s) (queue_view s')"
    if app: "append_session_command c now operation ?command (s, h, d) = Inr (s', h', d')"
      and q: "su_status current = Queued" "before \<noteq> Some request" for s' h'
  proof -
    from app obtain s1 where "session_arm c operation ?command s = Inr s1" and view: "queue_view s' = queue_view s1"
      by (rule append_queue_command) (simp_all add: queue_command_def)
    then have "queue_view s1 = (fst (queue_view s), insert_before before request (dequeue request (snd (queue_view s))))"
      by (auto simp: session_arm_def queue_view_def)
    moreover have "queue_step (fst (queue_view s), snd (queue_view s))
        (fst (queue_view s), insert_before before request (dequeue request (snd (queue_view s))))"
      by (rule queue_step.move) (use q in \<open>simp_all add: queue_view_def cur\<close>)
    ultimately show ?thesis
      by (simp add: view)
  qed
  then show ?thesis
    using steps queue_moved_refl [OF inv] session_command_moved [OF inv ok] by blast
qed

lemma record_directive_sessions:
  "record_directive c st i task task_head event d = Inr (task', d') \<Longrightarrow> session_part_eq d d'"
  by (auto simp: record_directive_def result_simps
      intro: session_part_eq_trans [OF append_task_event_sessions delete_task_leases_sessions])

lemma check_edit_sessions:
  "check_edit c st s request replacement keeps_input txt intent d = Inr d' \<Longrightarrow> session_part_eq d d'"
  by (cases intent) (auto simp: check_edit_def edit_continuation_def Let_def result_simps record_directive_sessions
      split: if_splits)

lemma submit_continuation_sessions:
  "submit_continuation c st s i input intent d = Inr d' \<Longrightarrow> session_part_eq d d'"
  by (cases intent) (auto simp: submit_continuation_def result_simps record_directive_sessions split: if_splits)

lemma edit_submission_moved:
  assumes inv: "sessions_inv c d"
    and "edit_submission c st now i operation request expected input d = Inr (x, d')"
  shows "queue_moved c i d d'"
proof -
  let ?command = "QueueEdited request expected input"
  from assms(2) obtain s h where load: "load_session_state c d i None = Inr (s, h)"
    and steps: "d' = d \<or> (\<exists>y replacement txt d1 s' h'. bt_get (se_submissions s) request = Some y \<and> su_status y = Queued \<and>
      check_edit c st s request replacement (input = None) txt (su_intent y) d = Inr d1 \<and>
      append_session_command c now operation ?command (s, h, d1) = Inr (s', h', d'))"
    by (auto simp: edit_submission_def Let_def result_simps split: if_splits option.splits) blast+
  have ok: "session_ok c d i s h"
    using load by (rule load_session_ok [OF inv])
  have "queue_moved c i d d'"
    if y: "bt_get (se_submissions s) request = Some y" "su_status y = Queued"
      and part: "session_part_eq d d1"
      and app: "append_session_command c now operation ?command (s, h, d1) = Inr (s', h', d')" for y d1 s' h'
  proof -
    from app obtain s1 where arm: "session_arm c operation ?command s = Inr s1" and view: "queue_view s' = queue_view s1"
      by (rule append_queue_command) (simp_all add: queue_command_def)
    have "queue_view s1 = queue_view s \<or> queue_step (queue_view s) (queue_view s1)"
    proof (cases input)
      case None
      with arm y have "queue_view s1 = (fst (queue_view s), request # dequeue request (snd (queue_view s)))"
        by (auto simp: session_arm_def queue_view_def bt_contains_def)
      moreover have "queue_step (fst (queue_view s), snd (queue_view s))
          (fst (queue_view s), request # dequeue request (snd (queue_view s)))"
        by (rule queue_step.front) (simp add: queue_view_def y)
      ultimately show ?thesis by simp
    next
      case (Some z)
      with arm show ?thesis
        by (auto simp: session_arm_def queue_view_def adjust_submission_def queue_view_adjust split: if_splits)
    qed
    then show ?thesis
      by (intro append_moved [OF inv ok part app]) (simp_all add: call_owned_def view)
  qed
  with steps queue_moved_refl [OF inv] check_edit_sessions show ?thesis by metis
qed

lemma pending_in_card:
  assumes "bt_ok (se_submissions s)"
  shows "card (pending_ids (fst (queue_view s))) = pending_in s"
proof -
  let ?m = "se_submissions s"
  let ?p = "\<lambda>kv. sub_pending (su_status (snd kv))"
  have "pending_ids (fst (queue_view s)) = fst ` set (filter ?p ?m)"
    using bt_get_iff_in_set [OF assms] by (force simp: pending_ids_def queue_view_def)
  moreover have "distinct (map fst (filter ?p ?m))"
    using bt_ok_distinct [OF assms] by (rule distinct_map_filter)
  ultimately have "card (pending_ids (fst (queue_view s))) = length (map fst (filter ?p ?m))"
    using distinct_card by (metis list.set_map)
  also have "\<dots> = pending_in s"
    by (simp add: pending_in_def bt_values_def filter_map o_def)
  finally show ?thesis .
qed

lemma submit_moved:
  assumes inv: "sessions_inv c d" and "submit c a st now at_ms i request input intent d = Inr (x, d')"
  shows "queue_moved c i d d'"
proof -
  from assms(2) have "submit_transaction c st now at_ms i request input intent d = Inr (x, d')"
    by (auto simp: submit_def result_simps)
  then obtain s h where load: "load_session_state c d i None = Inr (s, h)"
    and steps: "d' = d \<or> (\<exists>y d1 s' h'. bt_get (se_submissions s) request = None \<and> pending_in s < 16 \<and> su_id y = request \<and>
      su_status y = Queued \<and> submit_continuation c st s request input intent d = Inr d1 \<and>
      append_session_command c now (submitted_operation c request) (Submitted y) (s, h, d1) = Inr (s', h', d'))"
    by (auto simp: submit_transaction_def Let_def result_simps new_submission_def not_le split: if_splits option.splits)
      fastforce
  have ok: "session_ok c d i s h"
    using load by (rule load_session_ok [OF inv])
  have maps: "bt_ok (se_submissions s)"
    using session_ok_facts(5) [OF ok] by (simp add: session_inv_def session_maps_ok_def)
  have "queue_moved c i d d'"
    if y: "bt_get (se_submissions s) request = None" "pending_in s < 16" "su_id y = request" "su_status y = Queued"
      and part: "session_part_eq d d1"
      and app: "append_session_command c now (submitted_operation c request) (Submitted y) (s, h, d1) = Inr (s', h', d')"
    for y d1 s' h'
  proof -
    from app obtain s1 where "session_arm c (submitted_operation c request) (Submitted y) s = Inr s1"
      and view: "queue_view s' = queue_view s1"
      by (rule append_queue_command) (simp_all add: queue_command_def)
    then have "queue_view s1 = ((fst (queue_view s))(request \<mapsto> Queued), snd (queue_view s) @ [request])"
      using y by (auto simp: session_arm_def queue_view_def bt_get_insert fun_eq_iff)
    moreover have "queue_step (fst (queue_view s), snd (queue_view s))
        ((fst (queue_view s))(request \<mapsto> Queued), snd (queue_view s) @ [request])"
      by (rule queue_step.add) (use y pending_in_card [OF maps] in \<open>simp_all add: queue_view_def\<close>)
    ultimately show ?thesis
      by (intro append_moved [OF inv ok part app]) (simp_all add: call_owned_def view)
  qed
  with steps queue_moved_refl [OF inv] submit_continuation_sessions show ?thesis by metis
qed

lemma continue_directive_sessions:
  "continue_directive c st i task task_head request input d = Inr (task1, head1, d1) \<Longrightarrow> session_part_eq d d1"
  by (auto simp: continue_directive_def result_simps split: if_splits
      intro: session_part_eq_trans [OF append_task_event_sessions delete_task_leases_sessions])

lemma continue_submission_moved:
  assumes inv: "sessions_inv c d"
    and "continue_submission c st now at_ms i request d = Inr (out, d')"
  shows "queue_moved c i d d'"
proof -
  from assms(2) obtain s h where load: "load_session_state c d i None = Inr (s, h)"
    and steps: "d' = d \<or> (\<exists>k task head input task1 head1 d1 reason task2 d2 content s1 h1 d3 s2 h2.
      continue_directive c st k task head request input d = Inr (task1, head1, d1) \<and>
      append_task_event c st task1 head1 (Reopened reason) d1 = Inr (task2, d2) \<and>
      append_session_command c now request (InputCommand TaskRequest content) (s, h, d2) = Inr (s1, h1, d3) \<and>
      append_session_command c now (task_link c request) (TaskLinked request k) (s1, h1, d3) = Inr (s2, h2, d'))"
    by (auto simp: continue_submission_def result_simps split: if_splits) blast+
  have ok: "session_ok c d i s h"
    using load by (rule load_session_ok [OF inv])
  have "queue_moved c i d d'" if part: "session_part_eq d d2"
      and one: "append_session_command c now request (InputCommand TaskRequest content) (s, h, d2) = Inr (s1, h1, d3)"
      and two: "append_session_command c now (task_link c request) (TaskLinked request task) (s1, h1, d3) = Inr (s2, h2, d')"
    for d2 content task s1 h1 d3 s2 h2
  proof -
    have owned: "call_owned t (InputCommand TaskRequest content)" "call_owned t (TaskLinked request task)"
      for t :: "'a SessionState"
      by (simp_all add: call_owned_def)
    note a = append_kept [OF inv ok part one owned(1)]
    note b = append_kept [OF a(1,2) session_part_eq_refl two owned(2)]
    have "queue_view s2 = queue_view s"
      using append_session_command_queue [OF one] append_session_command_queue [OF two]
      by (simp add: queue_command_def)
    then show ?thesis
      using a b ok by (intro queue_movedI) auto
  qed
  moreover have "session_part_eq d d2"
    if "continue_directive c st k task head request input d = Inr (task1, head1, d1)"
      and "append_task_event c st task1 head1 (Reopened reason) d1 = Inr (task2, d2)"
    for k task head input task1 head1 d1 reason task2 d2
    by (rule session_part_eq_trans [OF continue_directive_sessions [OF that(1)] append_task_event_sessions [OF that(2)]])
  ultimately show ?thesis
    using steps queue_moved_refl [OF inv] by blast
qed

section \<open>Reachable databases\<close>

text \<open>
  Creating sessions, the submission operations, and every session command other than the four that the
  submission operations issue.
\<close>

inductive submission_step ::
    "('b, 'z) context_codec_scheme \<Rightarrow> 'b admission_codec \<Rightarrow> SessionId \<Rightarrow> 'b db \<Rightarrow> 'b db \<Rightarrow> bool"
  for c :: "('b, 'z) context_codec_scheme" and a :: "'b admission_codec" where
  create: "create_session_seeded c st at_ms i config admission parent seed fresh d = Inr (s, d') \<Longrightarrow>
    submission_step c a i d d'"
| submit: "submit c a st now at_ms i request input intent d = Inr (x, d') \<Longrightarrow> submission_step c a i d d'"
| edit: "edit_submission c st now i operation request exp_input input d = Inr (x, d') \<Longrightarrow> submission_step c a i d d'"
| move: "move_submission c st now i operation request exp_input before d = Inr (x, d') \<Longrightarrow> submission_step c a i d d'"
| status: "set_submission_status c st now uuid i request status d = Inr (x, d') \<Longrightarrow> submission_step c a i d d'"
| proceed: "continue_submission c st now at_ms i request d = Inr (out, d') \<Longrightarrow> submission_step c a i d d'"
| command: "session_command c st now i revision operation command d = Inr (s, d') \<Longrightarrow> \<not> queue_command command \<Longrightarrow>
    submission_step c a i d d'"

inductive submission_reachable ::
    "('b, 'z) context_codec_scheme \<Rightarrow> 'b admission_codec \<Rightarrow> 'b db \<Rightarrow> bool"
  for c :: "('b, 'z) context_codec_scheme" and a :: "'b admission_codec" where
  start: "(\<And>i. session_absent d i) \<Longrightarrow> submission_reachable c a d"
| step: "submission_reachable c a d \<Longrightarrow> submission_step c a i d d' \<Longrightarrow> submission_reachable c a d'"

definition queues_ok :: "('b, 'z) session_codec_scheme \<Rightarrow> 'b db \<Rightarrow> bool" where
  "queues_ok c d \<longleftrightarrow> sessions_inv c d \<and> (\<forall>i s h. session_ok c d i s h \<longrightarrow> queue_ok (queue_view s))"

lemma submission_step_moved:
  assumes "sessions_inv c d" and "submission_step c a i d d'"
    and "\<not> (\<exists>st at_ms config admission parent seed fresh s.
      create_session_seeded c st at_ms i config admission parent seed fresh d = Inr (s, d'))"
  shows "queue_moved c i d d'"
  using assms(2)
  by cases (use assms(1,3) in \<open>blast intro: submit_moved edit_submission_moved move_submission_moved
    set_submission_status_moved continue_submission_moved plain_command_moved\<close>)+

end
