(* ===== verification/Submission_Properties.thy ===== *)
theory Submission_Properties
  imports Submission_Queue Session_Fixture
begin

text \<open>
  The properties of the submission queue, with runs on the session fixture.
\<close>

section \<open>The queue of every session\<close>

lemma submission_step_queue:
  assumes c: "session_codec_ok c" and inv: "sessions_inv c d" and step: "submission_step c a i d d'"
    and ok: "session_ok c d j s h"
  shows "\<exists>s' h'. session_ok c d' j s' h' \<and>
    (queue_view s' = queue_view s \<or> j = i \<and> queue_step (queue_view s) (queue_view s'))"
proof (cases "\<exists>st at_ms config admission parent seed fresh s.
    create_session_seeded c st at_ms i config admission parent seed fresh d = Inr (s, d')")
  case True
  then obtain st at_ms config admission parent seed fresh t where
    cr: "create_session_seeded c st at_ms i config admission parent seed fresh d = Inr (t, d')" by blast
  have "session_ok c d' j s h"
    using cr
  proof (cases rule: create_session_seeded_cases)
    case existing
    with ok show ?thesis by simp
  next
    case (new history imported workspace)
    from new(2) have "db_sessions d i = None"
      by (rule insert_created_Inr)
    then have "j \<noteq> i"
      using ok by (auto simp: session_ok_def)
    from insert_created_ok(5) [OF c inv new(2) this ok] show ?thesis .
  qed
  then show ?thesis by blast
next
  case False
  from submission_step_moved [OF inv step this] ok show ?thesis
    unfolding queue_moved_def by blast
qed

lemma submission_step_inv:
  assumes "session_codec_ok c" and "sessions_inv c d" and "submission_step c a i d d'"
  shows "sessions_inv c d'"
proof (cases "\<exists>st at_ms config admission parent seed fresh s.
    create_session_seeded c st at_ms i config admission parent seed fresh d = Inr (s, d')")
  case True
  with create_session_seeded_ok(1) [OF assms(1,2)] show ?thesis by blast
next
  case False
  with submission_step_moved [OF assms(2,3)] show ?thesis by (simp add: queue_moved_def)
qed

text \<open>A session that a step brings into existence has an empty queue.\<close>

lemma submission_step_new:
  assumes c: "session_codec_ok c" and inv: "sessions_inv c d" and step: "submission_step c a i d d'"
    and ok: "session_ok c d' j s' h'" and absent: "session_absent d j"
  shows "queue_view s' = (\<lambda>_. None, [])"
proof (cases "\<exists>st at_ms config admission parent seed fresh s.
    create_session_seeded c st at_ms i config admission parent seed fresh d = Inr (s, d')")
  case True
  then obtain st at_ms config admission parent seed fresh t where
    cr: "create_session_seeded c st at_ms i config admission parent seed fresh d = Inr (t, d')" by blast
  show ?thesis
    using cr
  proof (cases rule: create_session_seeded_cases)
    case existing
    with ok absent show ?thesis by (auto simp: session_absent_def session_ok_def)
  next
    case (new history imported workspace)
    note k = insert_created_ok [OF c inv new(2)]
    have "j = i"
    proof (rule ccontr)
      assume "j \<noteq> i"
      moreover from new(2) have "db_sessions d' j = db_sessions d j" if "j \<noteq> i"
        by (rule insert_created_Inr) (use that in simp)
      ultimately show False
        using ok absent by (auto simp: session_absent_def session_ok_def)
    qed
    with k(2) ok have "s' = t"
      using session_ok_unique [of c d' i] by blast
    with k(4) show ?thesis
      by (simp add: queue_view_def session_create_def)
  qed
next
  case False
  from submission_step_moved [OF inv step this] absent have "session_absent d' j"
    by (simp add: queue_moved_def)
  with ok show ?thesis by (auto simp: session_absent_def session_ok_def)
qed

lemma submission_reachable_queues:
  assumes "submission_reachable c a d" and c: "session_codec_ok c"
  shows "queues_ok c d"
  using assms(1)
proof (induction rule: submission_reachable.induct)
  case (start d)
  then show ?case
    by (auto simp: queues_ok_def sessions_inv_def session_absent_def session_ok_def)
next
  case (step d i d')
  then have inv: "sessions_inv c d" by (simp add: queues_ok_def)
  have "queue_ok (queue_view s')" if ok: "session_ok c d' j s' h'" for j s' h'
  proof (cases "session_absent d j")
    case True
    with submission_step_new [OF c inv step.hyps(2) ok] show ?thesis
      by (simp add: queue_ok_def pending_ids_def)
  next
    case False
    then obtain s h where "session_ok c d j s h"
      using inv by (auto simp: sessions_inv_def)
    with submission_step_queue [OF c inv step.hyps(2)] step.IH session_ok_unique [OF ok] show ?thesis
      by (metis queue_step_ok queues_ok_def)
  qed
  with submission_step_inv [OF c inv step.hyps(2)] show ?case
    by (auto simp: queues_ok_def)
qed


text \<open>
  In every database that the operations reach, the queue of each session lists exactly its pending
  submissions, each once, and there are never more than sixteen.
\<close>

theorem queue_lists_pending_submissions:
  assumes "session_codec_ok c" and "submission_reachable c a d" and "load_session c d i = Inr s"
  shows "distinct (se_queue_order s) \<and> length (se_queue_order s) \<le> 16 \<and>
    (\<forall>r. r \<in> set (se_queue_order s) \<longleftrightarrow>
       (\<exists>x. bt_get (se_submissions s) r = Some x \<and> sub_pending (su_status x)))"
proof -
  have q: "queues_ok c d"
    by (rule submission_reachable_queues [OF assms(2,1)])
  then obtain h where "session_ok c d i s h"
    using assms(3) load_session_ok [of c d i s] by (auto simp: load_session_Inr queues_ok_def)
  with q have "queue_ok (queue_view s)"
    by (auto simp: queues_ok_def)
  then show ?thesis
    by (auto simp: queue_ok_def queue_view_def pending_ids_def)
qed

text \<open>
  A submission that has finished, was cancelled or was interrupted keeps its status: no later operation
  of the store makes it pending again or changes how it ended.
\<close>

theorem settled_submission_is_final:
  assumes "session_codec_ok c" and "sessions_inv c d" and "submission_step c a i d d'"
    and "load_session c d j = Inr s" and "bt_get (se_submissions s) r = Some x" and "\<not> sub_pending (su_status x)"
  shows "\<exists>s' x'. load_session c d' j = Inr s' \<and> bt_get (se_submissions s') r = Some x' \<and> su_status x' = su_status x"
proof -
  obtain h where "session_ok c d j s h"
    using assms(4) load_session_ok [OF assms(2)] by (auto simp: load_session_Inr)
  from submission_step_queue [OF assms(1-3) this] obtain s' h' where ok: "session_ok c d' j s' h'"
    and view: "queue_view s' = queue_view s \<or> queue_step (queue_view s) (queue_view s')"
    by blast
  have "fst (queue_view s) r = Some (su_status x)"
    by (simp add: queue_view_def assms(5))
  with view queue_step_terminal assms(6) have "fst (queue_view s') r = Some (su_status x)"
    by metis
  with load_session_state_ok [OF ok] show ?thesis
    by (auto simp: queue_view_def load_session_Inr)
qed

text \<open>
  Submitting the same input and intent again under the same identifier, at any later moment of the same
  state, returns the recorded submission and records nothing.
\<close>

theorem submit_is_idempotent:
  assumes inv: "sessions_inv c d" and run: "submit c a st now at_ms i request input intent d = Inr (x, d')"
  shows "submit c a st now' at_ms' i request input intent d' = Inr (x, d')"
proof -
  from run obtain prepared where prepared: "load_input c st input = Inr prepared"
    and intent: "check_intent c a st prepared intent = Inr ()"
    and tx: "submit_transaction c st now at_ms i request input intent d = Inr (x, d')"
    by (auto simp: submit_def result_simps)
  from tx obtain s h where load: "load_session_state c d i None = Inr (s, h)"
    and steps: "d' = d \<and> bt_get (se_submissions s) request = Some x \<and> su_initial_input x = input \<and> su_intent x = intent \<or>
      (\<exists>d1 s' h'. x = new_submission request input intent (se_revision s + 1) at_ms \<and>
        submit_continuation c st s request input intent d = Inr d1 \<and>
        append_session_command c now (submitted_operation c request) (Submitted x) (s, h, d1) = Inr (s', h', d'))"
    by (auto simp: submit_transaction_def Let_def result_simps split: if_splits option.splits)
  have ok: "session_ok c d i s h"
    using load by (rule load_session_ok [OF inv])
  have "\<exists>s' h'. session_ok c d' i s' h' \<and> bt_get (se_submissions s') request = Some x \<and>
      su_initial_input x = input \<and> su_intent x = intent"
    using steps
  proof (elim disjE exE conjE)
    assume "d' = d" "bt_get (se_submissions s) request = Some x" "su_initial_input x = input" "su_intent x = intent"
    with ok show ?thesis by blast
  next
    fix d1 s' h'
    assume x: "x = new_submission request input intent (se_revision s + 1) at_ms"
      and part: "submit_continuation c st s request input intent d = Inr d1"
      and app: "append_session_command c now (submitted_operation c request) (Submitted x) (s, h, d1) = Inr (s', h', d')"
    have "session_ok c d' i s' h'"
      by (rule append_kept(2) [OF inv ok submit_continuation_sessions [OF part] app]) (simp add: call_owned_def)
    moreover from app obtain s1 where "session_arm c (submitted_operation c request) (Submitted x) s = Inr s1"
      and "se_submissions s' = se_submissions s1"
      by (rule append_queue_command) (simp_all add: queue_command_def)
    then have "bt_get (se_submissions s') request = Some x"
      by (auto simp: session_arm_def x bt_get_insert new_submission_def)
    ultimately show ?thesis
      by (auto simp: x new_submission_def)
  qed
  then obtain s' h' where "load_session_state c d' i None = Inr (s', h')" "bt_get (se_submissions s') request = Some x"
    "su_initial_input x = input" "su_intent x = intent"
    using load_session_state_ok by blast
  then show ?thesis
    by (simp add: submit_def load_session_def prepared intent submit_transaction_def bt_contains_def)
qed

section \<open>A queue\<close>

definition qx_store :: "session_wire ArtifactStore" where
  "qx_store = \<lparr>as_files = [artifact_path (bytes32 5) \<mapsto> RegularFile (TextWire ''hello'')], as_max = 100\<rparr>"

definition qx_codec :: "session_wire admission_codec" where
  "qx_codec = \<lparr>derive_uuid = (\<lambda>u _. u), dec_program = (\<lambda>_. Inl ''program''), enc_snapshot = (\<lambda>_. Inl ''snapshot''),
     enc_report = (\<lambda>_. Inl ''report''), enc_probe_reports = (\<lambda>_. Inl ''reports''), dec_policy = (\<lambda>_. Inl ''policy''),
     enc_profile = (\<lambda>_. Inl ''profile''), enc_program = (\<lambda>_. Inl ''program''), enc_receipt = (\<lambda>_. Inl ''receipt'')\<rparr>"

definition qx_intent :: WorkIntent where
  "qx_intent = AuxiliaryWork ordinary_conversation_spec"

definition qx_submission :: Submission where
  "qx_submission = new_submission (Uuid 7) (bytes32 5) qx_intent 2 3000"

definition qx_submitted :: "session_wire SessionState" where
  "qx_submitted = sx_created\<lparr>se_submissions := [(Uuid 7, qx_submission)], se_queue_order := [Uuid 7],
     se_operations := [(Uuid 17, bytes32 113)], se_revision := 2, se_settled_revision := 2\<rparr>"

lemma qx_input: "\<exists>prepared. load_input session_wire_codec qx_store (bytes32 5) = Inr prepared"
proof -
  have "read_artifact session_wire_codec qx_store (bytes32 5) = Inr (TextWire ''hello'')"
    by (simp add: read_artifact_def qx_store_def session_wire_codec_def)
  moreover have "dec_messages session_wire_codec (TextWire ''hello'') = Inr [text_message ''hello'']"
    by (simp add: session_wire_codec_def)
  ultimately show ?thesis
    by (simp add: load_input_def text_message_def json_index_def as_array_def as_str_def bt_get_def)
qed

lemma sx_append_command:
  assumes "session_ok session_wire_codec d i s h" and "session_apply session_wire_codec operation command s = Inr s'"
    and one: "\<not> (\<exists>request call out. command = ToolResult request call out)"
    and "call_owned s command" and "unat (se_revision s') < 2 ^ 63"
  shows "\<exists>d'. append_session_command session_wire_codec now operation command (s, h, d) = Inr (s', bytes32 103, d')"
proof -
  obtain d' where d': "append_event session_wire_codec now operation command (s, h, d) = Inr (s', bytes32 103, d')"
    using sx_append [OF assms, of now] by blast
  obtain b where b: "session_bytes session_wire_codec (SessionCommandEvent operation command (now command)) b"
    using sx_bytes [OF one] by blast
  with d' show ?thesis
    using one by (auto simp: append_session_command_def append_event_def session_bytes_def not_less)
qed

lemma qx_apply: "session_apply session_wire_codec (Uuid 17) (Submitted qx_submission) sx_created = Inr qx_submitted"
  by (simp add: sx_steps qx_submitted_def qx_submission_def new_submission_def sx_created_def session_create_def
      sx_creation_def)

lemma qx_created:
  "\<exists>d h. create_session_seeded session_wire_codec sx_store 1000 sx_id (profile_config sx_profile) sx_profile None None
      False empty_db = Inr (sx_created, d) \<and> sessions_inv session_wire_codec d \<and>
    session_ok session_wire_codec d sx_id sx_created h \<and> session_ids d = [sx_id]"
proof -
  obtain d where cr: "create_session_seeded session_wire_codec sx_store 1000 sx_id (profile_config sx_profile)
      sx_profile None None False empty_db = Inr (sx_created, d)"
    using sx_create by (auto simp: create_bound_session_def sx_validate)
  note k = create_session_seeded_ok(1,2) [OF session_wire_codec_ok empty_sessions cr]
  have "session_ids d = [sx_id]"
    using cr
  proof (cases rule: create_session_seeded_cases)
    case existing
    then show ?thesis
      by (auto simp: load_session_def load_session_state_def empty_db_def result_simps)
  next
    case (new history imported workspace)
    from new(2) show ?thesis
      by (rule insert_created_Inr) (simp add: session_ids_def empty_db_def session_row_def)
  qed
  with cr k show ?thesis by blast
qed

lemma qx_submit:
  assumes inv: "sessions_inv session_wire_codec d" and ok: "session_ok session_wire_codec d sx_id sx_created h"
    and ids: "session_ids d = [sx_id]"
  shows "\<exists>d'. submit session_wire_codec qx_codec qx_store sx_now 3000 sx_id (Uuid 7) (bytes32 5) qx_intent d =
      Inr (qx_submission, d') \<and> session_ok session_wire_codec d' sx_id qx_submitted (bytes32 103)"
proof -
  have load: "load_session_state session_wire_codec d sx_id None = Inr (sx_created, h)"
    by (rule load_session_state_ok [OF ok])
  have fields: "se_submissions sx_created = []" "se_operations sx_created = []" "se_revision sx_created = 1"
    by (simp_all add: sx_created_def session_create_def sx_creation_def)
  have pending: "pending_submissions session_wire_codec d = Inr 0"
    by (simp add: pending_submissions_def ids pending_pages.simps load_each_def load_session_def load pending_in_def
        fields bt_values_def)
  have intent: "check_intent session_wire_codec qx_codec qx_store prepared qx_intent = Inr ()" for prepared
    by (simp add: check_intent_def qx_intent_def aux_validate_def ordinary_conversation_spec_def
        AuxiliaryLimits_default_def Let_def)
  have op: "submitted_operation session_wire_codec (Uuid 7) = Uuid 17"
    by (simp add: submitted_operation_def session_wire_codec_def)
  obtain d' where app: "append_session_command session_wire_codec sx_now (Uuid 17) (Submitted qx_submission) (sx_created, h, d) =
      Inr (qx_submitted, bytes32 103, d')"
    using sx_append_command [OF ok qx_apply, of sx_now] by (auto simp: call_owned_def qx_submitted_def)
  have "submit_continuation session_wire_codec qx_store sx_created (Uuid 7) (bytes32 5) qx_intent d = Inr d"
    by (simp add: submit_continuation_def qx_intent_def)
  then have "submit_transaction session_wire_codec qx_store sx_now 3000 sx_id (Uuid 7) (bytes32 5) qx_intent d =
      Inr (qx_submission, d')"
    using app by (simp add: submit_transaction_def load fields pending_in_def bt_values_def bt_contains_def
        op qx_submission_def)
  then have "submit session_wire_codec qx_codec qx_store sx_now 3000 sx_id (Uuid 7) (bytes32 5) qx_intent d =
      Inr (qx_submission, d')"
    using qx_input by (auto simp: submit_def load_session_def load fields bt_contains_def pending intent)
  moreover have "session_ok session_wire_codec d' sx_id qx_submitted (bytes32 103)"
    by (rule append_kept(2) [OF inv ok session_part_eq_refl app]) (simp add: call_owned_def)
  ultimately show ?thesis by blast
qed

lemma qx_reachable_created:
  "\<exists>d h. submission_reachable session_wire_codec qx_codec d \<and> sessions_inv session_wire_codec d \<and>
    session_ok session_wire_codec d sx_id sx_created h \<and> session_ids d = [sx_id]"
proof -
  obtain d h where cr: "create_session_seeded session_wire_codec sx_store 1000 sx_id (profile_config sx_profile)
      sx_profile None None False empty_db = Inr (sx_created, d)"
    and rest: "sessions_inv session_wire_codec d" "session_ok session_wire_codec d sx_id sx_created h" "session_ids d = [sx_id]"
    using qx_created by blast
  have "submission_reachable session_wire_codec qx_codec (empty_db :: session_wire db)"
    by (rule submission_reachable.start) (simp add: session_absent_def empty_db_def session_rows_def)
  then have "submission_reachable session_wire_codec qx_codec d"
    by (rule submission_reachable.step [OF _ submission_step.create [OF cr]])
  with rest show ?thesis by blast
qed

lemma qx_run:
  "\<exists>d d' h. submission_reachable session_wire_codec qx_codec d \<and> sessions_inv session_wire_codec d \<and>
    session_ok session_wire_codec d sx_id sx_created h \<and>
    submit session_wire_codec qx_codec qx_store sx_now 3000 sx_id (Uuid 7) (bytes32 5) qx_intent d = Inr (qx_submission, d') \<and>
    session_ok session_wire_codec d' sx_id qx_submitted (bytes32 103)"
  using qx_reachable_created qx_submit by metis


theorem queue_lists_pending_submissions_witness:
  "\<exists>d. submission_reachable session_wire_codec qx_codec d \<and> load_session session_wire_codec d sx_id = Inr qx_submitted \<and>
     (\<exists>x. bt_get (se_submissions qx_submitted) (Uuid 7) = Some x \<and> sub_pending (su_status x))"
proof -
  obtain d d' h where d: "submission_reachable session_wire_codec qx_codec d"
    and run: "submit session_wire_codec qx_codec qx_store sx_now 3000 sx_id (Uuid 7) (bytes32 5) qx_intent d = Inr (qx_submission, d')"
    and ok: "session_ok session_wire_codec d' sx_id qx_submitted (bytes32 103)"
    using qx_run by blast
  have r: "submission_reachable session_wire_codec qx_codec d'"
    by (rule submission_reachable.step [OF d submission_step.submit [OF run]])
  have load: "load_session session_wire_codec d' sx_id = Inr qx_submitted"
    using load_session_state_ok [OF ok] by (simp add: load_session_def)
  have "Uuid 7 \<in> set (se_queue_order qx_submitted)"
    by (simp add: qx_submitted_def)
  with queue_lists_pending_submissions [OF session_wire_codec_ok r load] r load show ?thesis
    by blast
qed

theorem submit_is_idempotent_witness:
  "\<exists>d d'. submit session_wire_codec qx_codec qx_store sx_now 3000 sx_id (Uuid 7) (bytes32 5) qx_intent d = Inr (qx_submission, d') \<and>
     submit session_wire_codec qx_codec qx_store sx_now 9000 sx_id (Uuid 7) (bytes32 5) qx_intent d' = Inr (qx_submission, d')"
  using qx_run submit_is_idempotent [where c = session_wire_codec] by metis

text \<open>The queued submission is cancelled and stays so.\<close>

definition qx_cancelled :: "session_wire SessionState" where
  "qx_cancelled = qx_submitted\<lparr>se_submissions := [(Uuid 7, qx_submission\<lparr>su_status := SubCancelled\<rparr>)], se_queue_order := [],
     se_operations := [(Uuid 17, bytes32 113), (Uuid 30, bytes32 113)], se_revision := 3, se_settled_revision := 3\<rparr>"

lemma qx_cancel:
  assumes inv: "sessions_inv session_wire_codec d" and ok: "session_ok session_wire_codec d sx_id qx_submitted h"
  shows "\<exists>d' h'. set_submission_status session_wire_codec qx_store sx_now (Uuid 30) sx_id (Uuid 7) SubCancelled d =
      Inr (qx_submission\<lparr>su_status := SubCancelled\<rparr>, d') \<and> sessions_inv session_wire_codec d' \<and>
    session_ok session_wire_codec d' sx_id qx_cancelled h'"
proof -
  have applied: "session_apply session_wire_codec (Uuid 30) (SubmissionChanged (Uuid 7) SubCancelled) qx_submitted = Inr qx_cancelled"
    by (simp add: sx_steps qx_cancelled_def qx_submitted_def dequeue_def bt_adjust_def sx_created_def session_create_def
        sx_creation_def)
  have fields: "bt_get (se_submissions qx_submitted) (Uuid 7) = Some qx_submission" "se_revision qx_submitted = 2"
      "bt_get (se_operations qx_submitted) (Uuid 30) = None" "su_status qx_submission = Queued"
      "bt_get (se_submissions qx_cancelled) (Uuid 7) = Some (qx_submission\<lparr>su_status := SubCancelled\<rparr>)"
      "se_revision qx_cancelled = 3"
    by (simp_all add: qx_submitted_def qx_cancelled_def bt_get_def qx_submission_def new_submission_def)
  obtain d' where cmd: "session_command session_wire_codec qx_store sx_now sx_id 2 (Uuid 30)
      (SubmissionChanged (Uuid 7) SubCancelled) d = Inr (qx_cancelled, d')"
    using sx_command [OF ok fields(3) _ _ applied, of qx_store sx_now] fields(2,6)
    by (auto simp: reporting_request_def session_guard_def)
  obtain h' where ok': "session_ok session_wire_codec d' sx_id qx_cancelled h'"
    using session_command_ok(2) [OF inv ok cmd] by blast
  have "set_submission_status session_wire_codec qx_store sx_now (Uuid 30) sx_id (Uuid 7) SubCancelled d =
      Inr (qx_submission\<lparr>su_status := SubCancelled\<rparr>, d')"
    using load_session_state_ok [OF ok] load_session_state_ok [OF ok'] cmd
    by (simp add: set_submission_status_def load_session_def fields allowed_transition_def submission_def)
  with ok' session_command_ok(1) [OF inv ok cmd] show ?thesis by blast
qed

theorem settled_submission_is_final_witness:
  "\<exists>d d' s' x'. load_session session_wire_codec d sx_id = Inr qx_cancelled \<and>
     submission_step session_wire_codec qx_codec sx_id d d' \<and>
     load_session session_wire_codec d' sx_id = Inr s' \<and> bt_get (se_submissions s') (Uuid 7) = Some x' \<and>
     su_status x' = SubCancelled"
proof -
  obtain d0 d1 h where "sessions_inv session_wire_codec d0"
    "submit session_wire_codec qx_codec qx_store sx_now 3000 sx_id (Uuid 7) (bytes32 5) qx_intent d0 = Inr (qx_submission, d1)"
    "session_ok session_wire_codec d1 sx_id qx_submitted (bytes32 103)"
    using qx_run by blast
  then obtain d h' where inv: "sessions_inv session_wire_codec d" and ok: "session_ok session_wire_codec d sx_id qx_cancelled h'"
    using qx_cancel submit_moved unfolding queue_moved_def by metis
  have load: "load_session session_wire_codec d sx_id = Inr qx_cancelled"
    using load_session_state_ok [OF ok] by (simp add: load_session_def)
  have x: "bt_get (se_submissions qx_cancelled) (Uuid 7) = Some (qx_submission\<lparr>su_status := SubCancelled\<rparr>)"
    by (simp add: qx_cancelled_def bt_get_def)
  have "set_submission_status session_wire_codec qx_store sx_now (Uuid 31) sx_id (Uuid 7) SubCancelled d =
      Inr (qx_submission\<lparr>su_status := SubCancelled\<rparr>, d)"
    by (simp add: set_submission_status_def load x)
  then have step: "submission_step session_wire_codec qx_codec sx_id d d"
    by (rule submission_step.status)
  from settled_submission_is_final [OF session_wire_codec_ok inv step load x] load step show ?thesis
    by auto
qed

end
