(* ===== verification/Submission_Recovery.thy ===== *)
theory Submission_Recovery
  imports Submission_Properties
begin

text \<open>
  Recovery of the submission queue after a restart: what it changes, and that a submission whose input was
  recorded is never queued again.
\<close>

section \<open>Every session once\<close>

lemma distinct_map_filter_once:
  "(\<And>y. length (filter (\<lambda>r. P r \<and> f r = y) xs) \<le> 1) \<Longrightarrow> distinct (map f (filter P xs))"
proof (induction xs)
  case Nil
  then show ?case by simp
next
  case (Cons x xs)
  have "length (filter (\<lambda>r. P r \<and> f r = y) xs) \<le> 1" for y
    using Cons.prems [of y] by (simp split: if_splits)
  then have ih: "distinct (map f (filter P xs))" by (rule Cons.IH)
  moreover have "f x \<notin> f ` set (filter P xs)" if "P x"
  proof
    assume "f x \<in> f ` set (filter P xs)"
    then have "filter (\<lambda>r. P r \<and> f r = f x) xs \<noteq> []"
      by (auto simp: filter_empty_conv)
    with Cons.prems [of "f x"] that show False by simp
  qed
  ultimately show ?case by auto
qed

lemma journal_first_row:
  "session_journal c i rows s h \<Longrightarrow> length (filter (\<lambda>r. er_revision r = 1) rows) \<le> 1"
proof (induction rule: session_journal.induct)
  case (start creation b h)
  then show ?case by simp
next
  case (step rows s h operation command at_ms b s' h')
  have "session_journal c i (rows @ [session_row i (se_revision s') b h']) s' h'"
    by (rule session_journal.step [OF step.hyps])
  from session_journal_facts [OF this] session_journal_facts [OF step.hyps(1)]
  have "unat (se_revision s') > 1" by (cases rows) auto
  then have "uint (se_revision s') \<noteq> 1"
    using uint_nat_eq [of "se_revision s'"] by linarith
  with step.IH show ?case by (simp add: session_row_def)
qed

lemma session_ids_distinct:
  assumes "sessions_inv c d"
  shows "distinct (session_ids d)"
proof -
  have "length (filter (\<lambda>r. (er_kind r = SessionAggregate \<and> er_revision r = 1) \<and> SessionId (er_aggregate r) = i) (db_events d)) \<le> 1" for i
  proof -
    have "filter (\<lambda>r. (er_kind r = SessionAggregate \<and> er_revision r = 1) \<and> SessionId (er_aggregate r) = i) (db_events d) =
        filter (\<lambda>r. er_revision r = 1) (session_rows i d)"
      by (auto simp: session_rows_def SessionId.expand intro!: filter_cong)
    moreover have "length (filter (\<lambda>r. er_revision r = 1) (session_rows i d)) \<le> 1"
    proof (cases "session_absent d i")
      case True
      then show ?thesis by (simp add: session_absent_def)
    next
      case False
      with assms obtain s h where "session_ok c d i s h"
        by (auto simp: sessions_inv_def)
      then show ?thesis
        using journal_first_row unfolding session_ok_def by blast
    qed
    ultimately show ?thesis by simp
  qed
  from distinct_map_filter_once [OF this] show ?thesis
    by (simp add: session_ids_def)
qed

section \<open>Submissions are stored under their identifiers\<close>

definition submissions_keyed :: "'b SessionState \<Rightarrow> bool" where
  "submissions_keyed s \<longleftrightarrow> (\<forall>r x. bt_get (se_submissions s) r = Some x \<longrightarrow> su_id x = r)"

lemma session_arm_keyed:
  assumes "session_arm c operation command s = Inr s'" and "submissions_keyed s"
  shows "submissions_keyed s'"
  using assms
  by (cases command)
    (auto simp: session_arms submissions_keyed_def bt_get_adjust bt_get_insert result_simps
      split: option.splits if_splits)

lemma session_apply_keyed:
  assumes "session_apply c operation command s = Inr s'" and "submissions_keyed s"
  shows "submissions_keyed s'"
proof -
  from assms(1) obtain s0 command' s1 d where arm: "session_arm c operation command' s0 = Inr s1"
    and s': "s' = session_tail operation d s1"
    and s0: "s0 = s\<lparr>se_tool_output_buffers := se_tool_output_buffers s0\<rparr>"
    by (rule session_apply_step)
  have "se_submissions s0 = se_submissions s" by (subst s0) simp
  with assms(2) have "submissions_keyed s0" by (simp add: submissions_keyed_def)
  from session_arm_keyed [OF arm this] show ?thesis
    by (simp add: s' submissions_keyed_def)
qed

lemma session_ok_keyed:
  assumes "session_ok c d i s h"
  shows "submissions_keyed s"
proof -
  have "session_journal c i (session_rows i d) s h"
    using assms by (simp add: session_ok_def)
  then show ?thesis
    by induction (auto simp: submissions_keyed_def session_create_def dest: session_apply_keyed [unfolded submissions_keyed_def])
qed

section \<open>Recovery\<close>

text \<open>
  What a recovery step may do to the submissions of a session whose state was \<open>s\<close> before: nothing, or settle
  a running one as interrupted if its input was recorded and as queued otherwise.
\<close>

definition recovery_change :: "'b SessionState \<Rightarrow> 'b SessionState \<Rightarrow> bool" where
  "recovery_change s t \<longleftrightarrow>
     (\<forall>r. fst (queue_view t) r = fst (queue_view s) r \<or>
        fst (queue_view s) r = Some SubRunning \<and> fst (queue_view t) r = Some (recovered_status s r))"

definition queues_recovered ::
    "('b, 'z) session_codec_scheme \<Rightarrow> SessionId set \<Rightarrow> 'b db \<Rightarrow> 'b db \<Rightarrow> bool" where
  "queues_recovered c ids d d' \<longleftrightarrow> sessions_inv c d' \<and>
     (\<forall>j s h. session_ok c d j s h \<longrightarrow>
        (if j \<in> ids then \<exists>s' h'. session_ok c d' j s' h' \<and> recovery_change s s' else session_ok c d' j s h))"

lemma set_status_effect:
  assumes inv: "sessions_inv c d" and ok: "session_ok c d i t g"
    and "set_submission_status c st now fresh i request status d = Inr (x, d')"
  shows "sessions_inv c d'" and "j \<noteq> i \<Longrightarrow> session_ok c d j s h \<Longrightarrow> session_ok c d' j s h"
    and "\<exists>t' g'. session_ok c d' i t' g' \<and>
      (\<forall>r. fst (queue_view t') r = fst (queue_view t) r \<or> r = request \<and> fst (queue_view t') r = Some status)"
proof -
  have load: "load_session c d i = Inr t"
    using load_session_state_ok [OF ok] by (simp add: load_session_def)
  consider "d' = d" | t' where
    "session_command c st now i (se_revision t) fresh (SubmissionChanged request status) d = Inr (t', d')"
    using assms(3) by (auto simp: set_submission_status_def load result_simps split: if_splits)
  then have "sessions_inv c d' \<and> (\<forall>j s h. j \<noteq> i \<longrightarrow> session_ok c d j s h \<longrightarrow> session_ok c d' j s h) \<and>
    (\<exists>t' g'. session_ok c d' i t' g' \<and>
      (\<forall>r. fst (queue_view t') r = fst (queue_view t) r \<or> r = request \<and> fst (queue_view t') r = Some status))"
  proof cases
    case 1
    with inv ok show ?thesis by blast
  next
    case (2 t')
    from ok 2 show ?thesis
    proof (cases rule: session_command_cases)
      case retried
      with inv ok show ?thesis by blast
    next
      case (recorded g')
      note k = append_kept [OF inv ok session_part_eq_refl recorded(5) session_guard_owned [OF recorded(4)]]
      from recorded(5) obtain t1 where "session_arm c fresh (SubmissionChanged request status) t = Inr t1"
        and "queue_view t' = queue_view t1"
        by (rule append_queue_command) (simp_all add: queue_command_def)
      then have "fst (queue_view t') r = fst (queue_view t) r \<or> r = request \<and> fst (queue_view t') r = Some status" for r
        by (cases "r = request"; cases "bt_get (se_submissions t) r")
          (auto simp: session_arm_def adjust_submission_def queue_view_def Let_def bt_get_adjust)
      with k show ?thesis by blast
    qed
  qed
  then show "sessions_inv c d'" and "j \<noteq> i \<Longrightarrow> session_ok c d j s h \<Longrightarrow> session_ok c d' j s h"
    and "\<exists>t' g'. session_ok c d' i t' g' \<and>
      (\<forall>r. fst (queue_view t') r = fst (queue_view t) r \<or> r = request \<and> fst (queue_view t') r = Some status)"
    by blast+
qed

lemma recover_session_submissions_ok:
  assumes inv: "sessions_inv c d" and ok: "session_ok c d i s h"
    and run: "recover_session_submissions c st now fresh d s = Inr d'"
  shows "queues_recovered c {i} d d'"
proof -
  let ?running = "filter (\<lambda>x. su_status x = SubRunning) (bt_values (se_submissions s))"
  let ?P = "\<lambda>e. sessions_inv c e \<and> (\<forall>j t g. j \<noteq> i \<longrightarrow> session_ok c d j t g \<longrightarrow> session_ok c e j t g) \<and>
    (\<exists>t g. session_ok c e i t g \<and> recovery_change s t)"
  have i: "se_id s = i"
    by (rule session_ok_facts(3) [OF ok])
  have maps: "bt_ok (se_submissions s)"
    using session_ok_facts(5) [OF ok] by (simp add: session_inv_def session_maps_ok_def)
  have running: "fst (queue_view s) (su_id x) = Some SubRunning" if x: "x \<in> set ?running" for x
  proof -
    obtain r where r: "bt_get (se_submissions s) r = Some x"
      using x bt_value_get [OF maps, of x] by auto
    with session_ok_keyed [OF ok] have "su_id x = r"
      by (simp add: submissions_keyed_def)
    with r x show ?thesis by (simp add: queue_view_def)
  qed
  have "?P d'"
    using run unfolding recover_session_submissions_def
  proof (rule try_fold_invariant [where P = ?P])
    show "?P d"
      using inv ok by (auto simp: recovery_change_def)
  next
    fix e x e'
    assume P: "?P e" and x: "x \<in> set ?running"
      and step: "and_then (set_submission_status c st now (fresh (se_id s) (su_id x)) (se_id s) (su_id x)
         (recovered_status s (su_id x)) e) (\<lambda>(_, d'). Inr d') = Inr e'"
    from P obtain t g where t: "session_ok c e i t g" "recovery_change s t" by blast
    from step obtain y where set_status: "set_submission_status c st now (fresh (se_id s) (su_id x)) i (su_id x)
         (recovered_status s (su_id x)) e = Inr (y, e')"
      by (auto simp: result_simps i)
    note k = set_status_effect [OF conjunct1 [OF P] t(1) set_status]
    from k(3) obtain t' g' where t': "session_ok c e' i t' g'"
      and eff: "\<forall>r. fst (queue_view t') r = fst (queue_view t) r \<or>
        r = su_id x \<and> fst (queue_view t') r = Some (recovered_status s (su_id x))"
      by blast
    have "recovery_change s t'"
      using t(2) eff running [OF x] unfolding recovery_change_def by metis
    with t' k(1,2) P show "?P e'" by blast
  qed
  then show ?thesis
    using session_ok_unique [OF ok] by (auto simp: queues_recovered_def)
qed

lemma recovery_change_refl: "recovery_change s s"
  by (simp add: recovery_change_def)

lemma queues_recovered_trans:
  assumes "queues_recovered c A d d1" and "queues_recovered c B d1 d2" and "A \<inter> B = {}"
  shows "queues_recovered c (A \<union> B) d d2"
proof -
  have "if j \<in> A \<union> B then \<exists>s' h'. session_ok c d2 j s' h' \<and> recovery_change s s' else session_ok c d2 j s h"
    if ok: "session_ok c d j s h" for j s h
  proof (cases "j \<in> A")
    case True
    with assms(1) ok obtain s' h' where "session_ok c d1 j s' h'" "recovery_change s s'"
      unfolding queues_recovered_def by meson
    moreover have "j \<notin> B" using True assms(3) by blast
    ultimately show ?thesis
      using assms(2) True unfolding queues_recovered_def by (metis UnI1)
  next
    case False
    with assms(1) ok have "session_ok c d1 j s h"
      unfolding queues_recovered_def by meson
    with assms(2) False show ?thesis
      unfolding queues_recovered_def by (metis UnE UnI2)
  qed
  with assms(2) show ?thesis
    unfolding queues_recovered_def by blast
qed

lemma recover_states_submissions:
  assumes "sessions_inv c d" and "try_fold (recover_session_submissions c st now fresh) d states = Inr d'"
    and "list_all2 (\<lambda>i s. \<exists>h. session_ok c d i s h) ids states" and "distinct ids"
  shows "queues_recovered c (set ids) d d'"
  using assms
proof (induction ids arbitrary: states d)
  case Nil
  then show ?case by (simp add: queues_recovered_def)
next
  case (Cons i ids)
  then obtain s rest h where states: "states = s # rest" and ok: "session_ok c d i s h"
    and oks: "list_all2 (\<lambda>i s. \<exists>h. session_ok c d i s h) ids rest"
    by (auto simp: list_all2_Cons1)
  then obtain d1 where one: "recover_session_submissions c st now fresh d s = Inr d1"
    and fold: "try_fold (recover_session_submissions c st now fresh) d1 rest = Inr d'"
    using Cons.prems(2) by (auto simp: result_simps)
  note r = recover_session_submissions_ok [OF Cons.prems(1) ok one]
  have fresh_id: "i \<notin> set ids" and ids: "distinct ids" using Cons.prems(4) by simp_all
  have frame: "session_ok c d1 j t g" if "session_ok c d j t g" "j \<in> set ids" for j t g
    using r that fresh_id unfolding queues_recovered_def by (metis singletonD)
  have "list_all2 (\<lambda>i s. \<exists>h. session_ok c d1 i s h) ids rest"
    using oks by (rule list.rel_mono_strong) (use frame in blast)
  moreover have "sessions_inv c d1"
    using r by (simp add: queues_recovered_def)
  ultimately have "queues_recovered c (set ids) d1 d'"
    using Cons.IH fold ids by blast
  from queues_recovered_trans [OF r this] fresh_id show ?case by simp
qed

lemma recover_submission_pages_ok:
  assumes "sessions_inv c d" and "recover_submission_pages c st now fresh ids d = Inr d'" and "distinct ids"
  shows "queues_recovered c (set ids) d d'"
  using assms
proof (induction c st now fresh ids d rule: recover_submission_pages.induct)
  case (1 c st now fresh ids d)
  from 1(3) obtain states d1 where states: "load_each c d (take 64 ids) = Inr states"
    and fold: "try_fold (recover_session_submissions c st now fresh) d states = Inr d1"
    and rest: "(if length states < 64 \<or> length ids < 64 then Inr d1
      else recover_submission_pages c st now fresh (drop 64 ids) d1) = Inr d'"
    by (auto simp: recover_submission_pages.simps [of c st now fresh ids] result_simps)
  have dist: "distinct (take 64 ids)" "distinct (drop 64 ids)" "set (take 64 ids) \<inter> set (drop 64 ids) = {}"
      "set (take 64 ids) \<union> set (drop 64 ids) = set ids"
    using 1(4) by (simp_all add: set_take_disj_set_drop_if_distinct flip: set_append)
  note all = load_each_states [OF 1(2) states]
  have page: "queues_recovered c (set (take 64 ids)) d d1"
    by (rule recover_states_submissions [OF 1(2) fold all dist(1)])
  have len: "length states = length (take 64 ids)"
    using list_all2_lengthD [OF all] by simp
  show ?case
  proof (cases "length ids < 64")
    case True
    with page rest show ?thesis by simp
  next
    case False
    then have more_pages: "\<not> (length states < 64 \<or> length ids < 64)"
      using len by simp
    with rest have "recover_submission_pages c st now fresh (drop 64 ids) d1 = Inr d'"
      by auto
    moreover have "sessions_inv c d1"
      using page by (simp add: queues_recovered_def)
    ultimately have "queues_recovered c (set (drop 64 ids)) d1 d'"
      using 1(1) [OF states fold more_pages] dist(2) by blast
    from queues_recovered_trans [OF page this dist(3)] show ?thesis
      by (simp add: dist(4))
  qed
qed


section \<open>A restart\<close>

lemma append_ids:
  assumes "append_session_command c now operation command (s, h, d) = Inr (s', h', d')"
    and "\<not> (\<exists>r call out. command = ToolResult r call out)" and "se_revision s' \<noteq> 1"
  shows "session_ids d' = session_ids d"
  using assms(1)
proof (cases rule: append_session_command_cases)
  case (one b)
  from one(2) obtain row where "db_events d' = db_events d @ [row]" "er_revision row = uint (se_revision s')"
    by (rule append_framed_Inr) (simp add: session_row_def)
  moreover have "uint (se_revision s') \<noteq> 1"
    using assms(3) by (metis uint_1 word_uint_eq_iff)
  ultimately show ?thesis
    by (simp add: session_ids_def)
next
  case framed
  with assms(2) show ?thesis by blast
qed

text \<open>A command recorded on the fixture, with everything a next step needs.\<close>

lemma qx_step:
  assumes inv: "sessions_inv session_wire_codec d" and ok: "session_ok session_wire_codec d sx_id s h"
    and "bt_get (se_operations s) operation = None" and req: "reporting_request command = None"
    and guard: "session_guard session_wire_codec st d s command = Inr ()"
    and applied: "session_apply session_wire_codec operation command s = Inr s'"
    and one: "\<not> (\<exists>r call out. command = ToolResult r call out)"
    and small: "unat (se_revision s') < 2 ^ 63" and rev: "se_revision s' \<noteq> 1" and s: "s' \<noteq> s"
  shows "\<exists>d' h'. session_command session_wire_codec st sx_now sx_id (se_revision s) operation command d = Inr (s', d') \<and>
    sessions_inv session_wire_codec d' \<and> session_ok session_wire_codec d' sx_id s' h' \<and> session_ids d' = session_ids d"
proof -
  obtain d' where cmd: "session_command session_wire_codec st sx_now sx_id (se_revision s) operation command d = Inr (s', d')"
    using sx_command [OF ok assms(3) _ guard applied one small, of sx_now] req by auto
  from ok cmd have "session_ids d' = session_ids d"
    by (cases rule: session_command_cases) (use s append_ids [OF _ one rev] in auto)
  with cmd session_command_ok(1,2) [OF inv ok cmd] show ?thesis by blast
qed

definition qx_running :: "session_wire SessionState" where
  "qx_running = qx_submitted\<lparr>se_submissions := [(Uuid 7, qx_submission\<lparr>su_status := SubRunning\<rparr>)],
     se_operations := [(Uuid 17, bytes32 113), (Uuid 30, bytes32 113)], se_revision := 3, se_settled_revision := 3\<rparr>"

definition qx_started :: "session_wire SessionState" where
  "qx_started = qx_running\<lparr>se_active_request := Some (Uuid 7), se_kind := AuxiliaryRequest,
     se_operations := [(Uuid 7, bytes32 113), (Uuid 17, bytes32 113), (Uuid 30, bytes32 113)], se_revision := 4\<rparr>"

definition qx_interrupted :: "session_wire SessionState" where
  "qx_interrupted = qx_started\<lparr>se_submissions := [(Uuid 7, qx_submission\<lparr>su_status := SubInterrupted\<rparr>)], se_queue_order := [],
     se_operations := [(Uuid 7, bytes32 113), (Uuid 17, bytes32 113), (Uuid 30, bytes32 113), (Uuid 31, bytes32 113)],
     se_revision := 5\<rparr>"

lemmas qx_state_defs = qx_interrupted_def qx_started_def qx_running_def qx_submitted_def sx_created_def session_create_def
  sx_creation_def

lemma qx_applies:
  "session_apply session_wire_codec (Uuid 30) (SubmissionChanged (Uuid 7) SubRunning) qx_submitted = Inr qx_running"
  "session_apply session_wire_codec (Uuid 7) AuxiliaryStarted qx_running = Inr qx_started"
  "session_apply session_wire_codec (Uuid 31) (SubmissionChanged (Uuid 7) SubInterrupted) qx_started = Inr qx_interrupted"
  by (simp_all add: sx_steps qx_state_defs dequeue_def bt_adjust_def)

lemma qx_premises:
  "reporting_request (Submitted x) = None" "reporting_request (SubmissionChanged r status) = None"
  "reporting_request AuxiliaryStarted = None"
  "session_guard session_wire_codec st d s (Submitted x) = Inr ()"
  "session_guard session_wire_codec st d s (SubmissionChanged r status) = Inr ()"
  "session_guard session_wire_codec st d s AuxiliaryStarted = Inr ()"
  "se_revision sx_created = 1" "se_revision qx_submitted = 2" "se_revision qx_running = 3" "se_revision qx_started = 4"
  "se_revision qx_interrupted = 5"
  by (simp_all add: reporting_request_def session_guard_def qx_state_defs)

lemma qx_distinct: "qx_submitted \<noteq> sx_created" "qx_running \<noteq> qx_submitted" "qx_started \<noteq> qx_running"
  "qx_interrupted \<noteq> qx_started"
  by (auto dest: arg_cong [of _ _ se_revision] simp: qx_premises)

lemma qx_started_stored:
  "\<exists>d h. sessions_inv session_wire_codec d \<and> session_ok session_wire_codec d sx_id qx_started h \<and> session_ids d = [sx_id]"
proof -
  obtain d0 h0 where d0: "sessions_inv session_wire_codec d0" "session_ok session_wire_codec d0 sx_id sx_created h0"
      "session_ids d0 = [sx_id]"
    using qx_reachable_created by blast
  have none: "bt_get (se_operations sx_created) (Uuid 17) = None" "bt_get (se_operations qx_submitted) (Uuid 30) = None"
      "bt_get (se_operations qx_running) (Uuid 7) = None"
    by (simp_all add: sx_created_def session_create_def sx_creation_def qx_submitted_def qx_running_def bt_get_def)
  note step = qx_step [where command = "Submitted qx_submission" and st = qx_store]
    qx_step [where command = "SubmissionChanged (Uuid 7) SubRunning" and st = qx_store]
    qx_step [where command = AuxiliaryStarted and st = qx_store]
  obtain d1 h1 where d1: "sessions_inv session_wire_codec d1" "session_ok session_wire_codec d1 sx_id qx_submitted h1"
      "session_ids d1 = [sx_id]"
    using step(1) [OF d0(1,2) none(1) qx_premises(1,4) qx_apply _ _ _ qx_distinct(1)] d0(3) by (auto simp: qx_premises)
  obtain d2 h2 where d2: "sessions_inv session_wire_codec d2" "session_ok session_wire_codec d2 sx_id qx_running h2"
      "session_ids d2 = [sx_id]"
    using step(2) [OF d1(1,2) none(2) qx_premises(2,5) qx_applies(1) _ _ _ qx_distinct(2)] d1(3) by (auto simp: qx_premises)
  show ?thesis
    using step(3) [OF d2(1,2) none(3) qx_premises(3,6) qx_applies(2) _ _ _ qx_distinct(3)] d2(3) by (auto simp: qx_premises)
qed


end
