(* ===== verification/Auxiliary_Store.thy ===== *)
theory Auxiliary_Store
  imports Submission_Store
begin

text \<open>
  Read-only assistance in the store (\<^verbatim>\<open>store/auxiliary.rs\<close>): admission of an auxiliary request, the
  classification of ordinary requests, the records of model calls and tools, and the publication of the
  answer.
\<close>

record 'b auxiliary_codec =
  enc_aux_record :: "AuxiliaryRecord \<Rightarrow> string + 'b"
  dec_aux_record :: "'b \<Rightarrow> string + AuxiliaryRecord"
  enc_aux_report :: "AuxiliaryReport \<Rightarrow> string + 'b"

section \<open>Accounting\<close>

definition read_record ::
    "('b, 'z) codec_scheme \<Rightarrow> 'b auxiliary_codec \<Rightarrow> 'b ArtifactStore \<Rightarrow> digest \<Rightarrow> StoreError + AuxiliaryRecord" where
  "read_record c x st entry =
     and_then (map_err StoreArtifact (read_artifact c st entry)) (\<lambda>bytes. map_err StoreJson (dec_aux_record x bytes))"

definition replay_records ::
    "('b, 'z) codec_scheme \<Rightarrow> 'b auxiliary_codec \<Rightarrow> 'b ArtifactStore \<Rightarrow> digest list \<Rightarrow> StoreError + Accounting" where
  "replay_records c x st records =
     try_fold (\<lambda>a entry. and_then (read_record c x st entry) (\<lambda>r. accounting_apply r a)) Accounting_default records"

definition auxiliary_accounting ::
    "('b, 'z) session_codec_scheme \<Rightarrow> 'b auxiliary_codec \<Rightarrow> 'b ArtifactStore \<Rightarrow> SessionId \<Rightarrow> uuid \<Rightarrow> 'b db \<Rightarrow>
     StoreError + Accounting" where
  "auxiliary_accounting c x st session request d =
     and_then (submission c d session request) (\<lambda>u. replay_records c x st (su_records u))"

section \<open>Classification\<close>

definition ordinary_kind :: "string \<Rightarrow> OrdinaryKind option" where
  "ordinary_kind kind =
     (if kind = ''information'' then Some Information else if kind = ''action'' then Some Action else None)"

text \<open>One step of the loop over the records: a second completed classification is an error.\<close>

definition observe_classification ::
    "('b, 'z) codec_scheme \<Rightarrow> 'b auxiliary_codec \<Rightarrow> 'b ArtifactStore \<Rightarrow>
     (OrdinaryKind \<times> uuid \<times> ModelCallReceipt) option \<Rightarrow> digest \<Rightarrow>
     StoreError + (OrdinaryKind \<times> uuid \<times> ModelCallReceipt) option" where
  "observe_classification c x st observed entry =
     and_then (read_record c x st entry) (\<lambda>r.
     case r of
       ClassificationObserved call receipt kind \<Rightarrow>
         if mc_tokens receipt \<noteq> None \<and> mc_status receipt = CallCompleted then
           (case ordinary_kind kind of
              None \<Rightarrow> Inr observed
            | Some parsed \<Rightarrow>
                if observed \<noteq> None then Inl (Invalid ''multiple ordinary classifications'')
                else Inr (Some (parsed, call, receipt)))
         else Inr observed
     | _ \<Rightarrow> Inr observed)"

text \<open>The last error stands for the panic of \<open>expect\<close>.\<close>

definition ordinary_classification ::
    "('b, 'z) session_codec_scheme \<Rightarrow> 'b auxiliary_codec \<Rightarrow> 'b ArtifactStore \<Rightarrow> SessionId \<Rightarrow> uuid \<Rightarrow> 'b db \<Rightarrow>
     StoreError + (OrdinaryKind \<times> uuid \<times> ModelCallReceipt \<times> u64) option" where
  "ordinary_classification c x st session request d =
     and_then (submission c d session request) (\<lambda>u.
     if \<not> is_ordinary (su_intent u) then Inr None else
     and_then (auxiliary_accounting c x st session request d) (\<lambda>a.
     if acc_calls a = [] then Inr None else
     and_then (try_fold (observe_classification c x st) None (su_records u)) (\<lambda>observed.
     case observed of
       None \<Rightarrow> Inr None
     | Some (kind, call, receipt) \<Rightarrow>
         and_then (ok_or (acc_started_ms a) (Integrity ''an observed classification records a start''))
           (\<lambda>started_ms. Inr (Some (kind, call, receipt, started_ms))))))"

definition begin_classification ::
    "('b, 'z) context_codec_scheme \<Rightarrow> 'b ArtifactStore \<Rightarrow> ('b SessionCommand \<Rightarrow> u64) \<Rightarrow> SessionId \<Rightarrow> uuid \<Rightarrow> 'b db \<Rightarrow>
     StoreError + 'b db" where
  "begin_classification c st now session request d =
     and_then (load_session c d session) (\<lambda>s.
     and_then (ok_or (bt_get (se_submissions s) request) (Invalid ''unknown ordinary submission'')) (\<lambda>u.
     if \<not> is_ordinary (su_intent u) \<or> su_status u \<noteq> SubRunning \<or> se_active_request s \<noteq> None
        \<or> bt_contains (se_operations s) request
     then Inl (Invalid ''ordinary classification is cancelled, active or already admitted'') else
     and_then (session_command c st now session (se_revision s) request AuxiliaryStarted d) (\<lambda>(_, d'). Inr d')))"

definition settle_failed_classification ::
    "('b, 'z) context_codec_scheme \<Rightarrow> 'b ArtifactStore \<Rightarrow> ('b SessionCommand \<Rightarrow> u64) \<Rightarrow> SessionId \<Rightarrow> uuid \<Rightarrow> string \<Rightarrow>
     'b db \<Rightarrow> StoreError + 'b db" where
  "settle_failed_classification c st now session request err d =
     and_then (load_session c d session) (\<lambda>s.
     if se_active_request s \<noteq> Some request then Inr d else
     and_then (session_command c st now session (se_revision s) (new_v5 c request ''classification-settled'')
         (TurnSettled request None (Some err)) d) (\<lambda>(_, d'). Inr d'))"

definition account_ordinary_classification where
  "account_ordinary_classification c st now task request kind call receipt started_ms d =
     (if kind \<noteq> Action \<or> call = request \<or> started_ms = 0
      then Inl (Invalid ''ordinary classifier cannot be charged to a task'') else
      let operation = new_v5 c request ''ordinary-classifier'' in
      and_then (reserve_model_call c st task operation now d) (\<lambda>(_, d1).
      record_model_call c st task operation receipt d1))"

section \<open>Admission\<close>

definition begin_auxiliary ::
    "('b, 'z) context_codec_scheme \<Rightarrow> 'b auxiliary_codec \<Rightarrow> 'b ArtifactStore \<Rightarrow> ('b SessionCommand \<Rightarrow> u64) \<Rightarrow> SessionId \<Rightarrow>
     uuid \<Rightarrow> 'b db \<Rightarrow> StoreError + 'b SessionState \<times> 'b db" where
  "begin_auxiliary c x st now session request d =
     and_then (load_session c d session) (\<lambda>s.
     and_then (ok_or (bt_get (se_submissions s) request) (Invalid ''unknown auxiliary submission'')) (\<lambda>u.
     case su_intent u of
       AuxiliaryWork spec \<Rightarrow>
         and_then (if su_status u \<noteq> SubRunning \<or> se_active_request s \<noteq> None \<or> bt_contains (se_operations s) request
             then Inr True
             else and_then (ordinary_classification c x st session request d) (\<lambda>o'. Inr (o' \<noteq> None))) (\<lambda>refused.
         if refused then Inl (Invalid ''auxiliary request is cancelled, active or already admitted'') else
         and_then (if visible spec
             then and_then (load_input c st (su_input u)) (\<lambda>p. Inr (InputCommand AuxiliaryRequest (pi_messages p)))
             else Inr AuxiliaryStarted) (\<lambda>command.
         session_command c st now session (se_revision s) request command d))
     | OrdinaryWork _ _ _ \<Rightarrow>
         and_then (if su_status u \<noteq> SubRunning \<or> se_active_request s \<noteq> Some request then Inr True
             else and_then (ordinary_classification c x st session request d) (\<lambda>o'. Inr (o' = None))) (\<lambda>refused.
         if refused then Inl (Invalid ''ordinary request has no completed information classification'')
         else Inr (s, d))
     | _ \<Rightarrow> Inl (Invalid ''request is not auxiliary'')))"

section \<open>Records\<close>

definition classification_record :: "AuxiliaryRecord \<Rightarrow> bool" where
  "classification_record r =
     (case r of ClassificationIntended _ _ _ \<Rightarrow> True | ClassificationObserved _ _ _ \<Rightarrow> True | _ \<Rightarrow> False)"

definition intended_call :: "AuxiliaryRecord \<Rightarrow> uuid option" where
  "intended_call r =
     (case r of ModelIntended call _ \<Rightarrow> Some call | ClassificationIntended _ _ call \<Rightarrow> Some call | _ \<Rightarrow> None)"

definition record_artifacts :: "AuxiliaryRecord \<Rightarrow> digest list" where
  "record_artifacts r =
     (case r of
        ModelIntended _ input \<Rightarrow> [input]
      | ClassificationIntended _ input _ \<Rightarrow> [input]
      | ClassificationObserved _ receipt _ \<Rightarrow> [mc_report receipt]
      | ModelObserved _ receipt \<Rightarrow> [mc_report receipt]
      | ToolObserved _ _ input output' \<Rightarrow> [input, output']
      | AuxStarted _ source review \<Rightarrow> (case source of None \<Rightarrow> [] | Some y \<Rightarrow> [y]) @ (case review of None \<Rightarrow> [] | Some y \<Rightarrow> [y]))"

definition auxiliary_spec :: "WorkIntent \<Rightarrow> StoreError + AuxiliarySpec" where
  "auxiliary_spec intent =
     (case intent of
        AuxiliaryWork spec \<Rightarrow> Inr spec
      | OrdinaryWork _ _ _ \<Rightarrow> Inr ordinary_conversation_spec
      | _ \<Rightarrow> Inl (Invalid ''request is not auxiliary''))"

definition record_budget ::
    "AuxiliarySpec \<Rightarrow> u64 \<Rightarrow> Accounting \<Rightarrow> AuxiliaryRecord \<Rightarrow> nat \<Rightarrow> StoreError + unit" where
  "record_budget spec at_ms a r records =
     (case intended_call r of
        Some call \<Rightarrow>
          if call_over_budget (as_limits spec) at_ms a (\<not> bt_contains (acc_calls a) call)
          then Inl Budget else if records \<ge> 256 then Inl Budget else Inr ()
      | None \<Rightarrow> if records \<ge> 256 then Inl Budget else Inr ())"

definition record_auxiliary ::
    "('b, 'z) context_codec_scheme \<Rightarrow> 'b auxiliary_codec \<Rightarrow> 'b ArtifactStore \<Rightarrow> ('b SessionCommand \<Rightarrow> u64) \<Rightarrow> u64 \<Rightarrow>
     SessionId \<Rightarrow> uuid \<Rightarrow> uuid \<Rightarrow> AuxiliaryRecord \<Rightarrow> 'b db \<Rightarrow> StoreError + 'b ArtifactStore \<times> 'b db" where
  "record_auxiliary c x st now at_ms session request operation r d =
     and_then (load_session c d session) (\<lambda>s.
     and_then (ok_or (bt_get (se_submissions s) request) (Invalid ''unknown auxiliary submission'')) (\<lambda>u.
     and_then (auxiliary_spec (su_intent u)) (\<lambda>spec.
     if \<not> classification_record r \<and> se_active_request s \<noteq> Some request
     then Inl (Invalid ''auxiliary actor no longer owns this request'') else
     and_then (map_err StoreJson (enc_aux_record x r)) (\<lambda>bytes.
     and_then (map_err StoreArtifact (put_artifact c st bytes)) (\<lambda>(entry, st').
     let command = AuxiliaryRecorded request entry in
     case bt_get (se_operations s) operation of
       Some previous \<Rightarrow>
         and_then (map_err StoreJson (command_digest c command)) (\<lambda>fingerprint.
         if previous = fingerprint then Inr (st', d) else Inl (Invalid ''auxiliary operation ID reused''))
     | None \<Rightarrow>
         and_then (auxiliary_accounting c x st' session request d) (\<lambda>a.
         and_then (record_budget spec at_ms a r (length (su_records u))) (\<lambda>_.
         and_then (read_all c st' (record_artifacts r)) (\<lambda>_.
         and_then (accounting_apply r a) (\<lambda>_.
         and_then (session_command c st' now session (se_revision s) operation command d) (\<lambda>(_, d').
         Inr (st', d')))))))))))"

section \<open>Publication\<close>

definition unresolved_accounting :: "AuxiliaryStatus \<Rightarrow> AuxiliarySpec \<Rightarrow> Accounting \<Rightarrow> bool" where
  "unresolved_accounting status spec a =
     (status = AuxCompleted
      \<and> (acc_tokens a = None
         \<or> (case acc_tokens a of None \<Rightarrow> False | Some tokens \<Rightarrow> tokens > al_tokens (as_limits spec))
         \<or> acc_calls a = []))"

definition answer_report ::
    "AuxiliarySpec \<Rightarrow> AuxiliaryStatus \<Rightarrow> string \<Rightarrow> string option \<Rightarrow> Accounting \<Rightarrow> digest list \<Rightarrow> AuxiliaryReport" where
  "answer_report spec status txt err a records =
     \<lparr>ap_version = 1, ap_kind = as_kind spec, ap_status = status, ap_text = txt,
      ap_model_calls = length (acc_calls a), ap_tokens = acc_tokens a, ap_records = records, ap_error = err\<rparr>"

text \<open>The common tail of both paths: the report is stored, published, and the turn is settled.\<close>

definition publish_answer ::
    "('b, 'z) context_codec_scheme \<Rightarrow> 'b auxiliary_codec \<Rightarrow> 'b ArtifactStore \<Rightarrow> ('b SessionCommand \<Rightarrow> u64) \<Rightarrow> SessionId \<Rightarrow>
     uuid \<Rightarrow> 'b SessionState \<Rightarrow> digest list \<Rightarrow> AuxiliarySpec \<Rightarrow> AuxiliaryStatus \<Rightarrow> string \<Rightarrow> string option \<Rightarrow> 'b db \<Rightarrow>
     StoreError + digest \<times> 'b ArtifactStore \<times> 'b db" where
  "publish_answer c x st now session request s records spec status txt err d =
     and_then (auxiliary_accounting c x st session request d) (\<lambda>a.
     if unresolved_accounting status spec a
     then Inl (Invalid ''auxiliary answer has unresolved provider accounting'') else
     and_then (map_err StoreJson (enc_aux_report x (answer_report spec status txt err a records))) (\<lambda>bytes.
     and_then (map_err StoreArtifact (put_artifact c st bytes)) (\<lambda>(report, st').
     and_then (session_command c st' now session (se_revision s) (new_v5 c request ''auxiliary-published'')
         (AuxiliaryPublished request report (if visible spec then Some txt else None)) d) (\<lambda>(s', d1).
     and_then (session_command c st' now session (se_revision s') (new_v5 c request ''auxiliary-settled'')
         (TurnSettled request None err) d1) (\<lambda>(_, d2).
     Inr (report, st', d2))))))"

definition publish_auxiliary ::
    "('b, 'z) context_codec_scheme \<Rightarrow> 'b auxiliary_codec \<Rightarrow> 'b ArtifactStore \<Rightarrow> ('b SessionCommand \<Rightarrow> u64) \<Rightarrow> SessionId \<Rightarrow>
     uuid \<Rightarrow> AuxiliaryStatus \<Rightarrow> string \<Rightarrow> string option \<Rightarrow> 'b db \<Rightarrow> StoreError + digest \<times> 'b ArtifactStore \<times> 'b db" where
  "publish_auxiliary c x st now session request status txt err d =
     and_then (load_session c d session) (\<lambda>s.
     and_then (ok_or (bt_get (se_submissions s) request) (Invalid ''unknown auxiliary submission'')) (\<lambda>u.
     case su_intent u of
       OrdinaryWork _ _ _ \<Rightarrow>
         and_then (if se_active_request s \<noteq> Some request then Inr True
             else and_then (ordinary_classification c x st session request d) (\<lambda>o'. Inr (o' = None))) (\<lambda>refused.
         if refused then Inl (Invalid ''ordinary auxiliary actor mismatch'') else
         publish_answer c x st now session request s (su_records u) ordinary_conversation_spec status txt err d)
     | AuxiliaryWork spec \<Rightarrow>
         if se_active_request s \<noteq> Some request \<or> length txt > 256 * 1024
         then Inl (Invalid ''invalid auxiliary result or actor'')
         else publish_answer c x st now session request s (su_records u) spec status txt err d
     | _ \<Rightarrow> Inl (Invalid ''request is not auxiliary'')))"

section \<open>What is published\<close>

lemma publish_answer_Inr:
  assumes "publish_answer c x st now session request s records spec AuxCompleted txt err d = Inr (report, st', d')"
  obtains a n bytes where "auxiliary_accounting c x st session request d = Inr a" and "acc_tokens a = Some n"
    and "n \<le> al_tokens (as_limits spec)" and "acc_calls a \<noteq> []"
    and "enc_aux_report x (answer_report spec AuxCompleted txt err a records) = Inr bytes"
    and "put_artifact c st bytes = Inr (report, st')"
  using assms
  by (auto simp: publish_answer_def result_simps unresolved_accounting_def not_less split: option.splits)

text \<open>
  C22: An answer that is published as completed has its provider accounting closed: at least one model call
  was made, every call has a receipt with a token count, their sum is within the limit of the request, and
  the stored report states exactly that sum.
\<close>

theorem completed_answer_is_accounted:
  assumes "publish_auxiliary c x st now session request AuxCompleted txt err d = Inr (report, st', d')"
    and "submission c d session request = Inr u" and "auxiliary_spec (su_intent u) = Inr spec"
  shows "\<exists>a n. auxiliary_accounting c x st session request d = Inr a \<and> acc_calls a \<noteq> [] \<and>
    n \<le> al_tokens (as_limits spec) \<and>
    (\<forall>(call, r) \<in> set (acc_calls a). \<exists>receipt. r = Some receipt \<and> mc_tokens receipt \<noteq> None) \<and>
    unat n = sum_list (map (\<lambda>(call, r). unat (the (mc_tokens (the r)))) (acc_calls a)) \<and>
    ap_tokens (answer_report spec AuxCompleted txt err a (su_records u)) = Some n \<and>
    (\<exists>bytes. enc_aux_report x (answer_report spec AuxCompleted txt err a (su_records u)) = Inr bytes \<and> report = sha c bytes)"
proof -
  from assms(2) obtain s where s: "load_session c d session = Inr s" "bt_get (se_submissions s) request = Some u"
    by (auto simp: submission_def result_simps)
  have run: "publish_answer c x st now session request s (su_records u) spec AuxCompleted txt err d = Inr (report, st', d')"
    using assms(1,3) by (cases "su_intent u")
      (auto simp: publish_auxiliary_def s auxiliary_spec_def result_simps split: if_splits)
  from run obtain a n bytes where a: "auxiliary_accounting c x st session request d = Inr a" "acc_tokens a = Some n"
      "n \<le> al_tokens (as_limits spec)" "acc_calls a \<noteq> []"
    and bytes: "enc_aux_report x (answer_report spec AuxCompleted txt err a (su_records u)) = Inr bytes"
    and put: "put_artifact c st bytes = Inr (report, st')"
    by (rule publish_answer_Inr)
  let ?f = "\<lambda>receipt. case receipt of None \<Rightarrow> None | Some r \<Rightarrow> mc_tokens r"
  have total: "unat n = sum_list (map (\<lambda>r. unat (the (?f r))) (bt_values (acc_calls a)))"
    and known: "\<forall>r \<in> set (bt_values (acc_calls a)). ?f r \<noteq> None"
    using checked_total_Some [of ?f 0 "bt_values (acc_calls a)" n] a(2) by (simp_all add: acc_tokens_def)
  have each: "\<exists>receipt. r = Some receipt \<and> mc_tokens receipt \<noteq> None" if "(call, r) \<in> set (acc_calls a)" for call r
  proof -
    have "r \<in> set (bt_values (acc_calls a))"
      using that by (force simp: bt_values_def)
    with known have "?f r \<noteq> None" by blast
    then show ?thesis by (cases r) auto
  qed
  have same: "unat (the (?f (snd e))) = (\<lambda>(call, r). unat (the (mc_tokens (the r)))) e" if "e \<in> set (acc_calls a)" for e
    using each [of "fst e" "snd e"] that by (cases e) auto
  have "sum_list (map (\<lambda>r. unat (the (?f r))) (bt_values (acc_calls a))) =
      sum_list (map (\<lambda>(call, r). unat (the (mc_tokens (the r)))) (acc_calls a))"
    unfolding bt_values_def map_map o_def by (rule arg_cong [OF map_cong]) (simp_all add: same)
  then have "unat n = sum_list (map (\<lambda>(call, r). unat (the (mc_tokens (the r)))) (acc_calls a))"
    using total by simp
  moreover have "\<forall>(call, r) \<in> set (acc_calls a). \<exists>receipt. r = Some receipt \<and> mc_tokens receipt \<noteq> None"
    using each by blast
  ultimately show ?thesis
    using a bytes put_artifact_Inr(1) [OF put] by (intro exI [of _ a] exI [of _ n]) (simp add: answer_report_def)
qed

end
