(* ===== verification/Auxiliary_Properties.thy ===== *)
theory Auxiliary_Properties
  imports Auxiliary_Store Submission_Recovery
begin

text \<open>An auxiliary request that makes one model call and publishes its answer.\<close>

definition rx_store :: "session_wire ArtifactStore" where
  "rx_store = \<lparr>as_files = (\<lambda>p. case digest_from_str p of Inr d \<Rightarrow> Some (RegularFile (TaskWire (WBlob d))) | Inl _ \<Rightarrow> None),
     as_max = 100\<rparr>"

definition rx_receipt :: ModelCallReceipt where
  "rx_receipt = \<lparr>mc_status = CallCompleted, mc_tokens = Some 1200, mc_report = bytes32 62\<rparr>"

definition rx_codec :: "session_wire auxiliary_codec" where
  "rx_codec = \<lparr>enc_aux_record = (\<lambda>_. Inr (TaskWire (WBlob (bytes32 60)))),
     dec_aux_record = (\<lambda>b. if b = TaskWire (WBlob (bytes32 60)) then Inr (ModelIntended (Uuid 70) (bytes32 5))
       else Inr (ModelObserved (Uuid 70) rx_receipt)),
     enc_aux_report = (\<lambda>_. Inr (TaskWire (WBlob (bytes32 63))))\<rparr>"

lemma rx_read: "digest_ok x \<Longrightarrow> read_artifact session_wire_codec rx_store x = Inr (TaskWire (WBlob x))"
  by (simp add: read_artifact_def rx_store_def artifact_path_def digest_from_to_string session_wire_codec_def)

lemma rx_put: "digest_ok x \<Longrightarrow> put_artifact session_wire_codec rx_store (TaskWire (WBlob x)) = Inr (x, rx_store)"
proof -
  assume x: "digest_ok x"
  then have "try_exists rx_store x" and "sha session_wire_codec (TaskWire (WBlob x)) = x"
    and "blen session_wire_codec (TaskWire (WBlob x)) = 64"
    by (simp_all add: try_exists_def rx_store_def artifact_path_def digest_from_to_string session_wire_codec_def)
  then show ?thesis
    using rx_read [OF x] by (simp add: put_artifact_def put_racing_def rx_store_def)
qed

text \<open>The two records, the publication and the settled turn.\<close>

definition rx_submission :: "digest list \<Rightarrow> digest option \<Rightarrow> Submission" where
  "rx_submission records result = qx_submission\<lparr>su_status := SubRunning, su_records := records, su_result := result\<rparr>"

abbreviation rx_operations :: "(uuid \<times> digest) list" where
  "rx_operations \<equiv> [(Uuid 7, bytes32 113), (Uuid 17, bytes32 113)]"

definition rx_one :: "session_wire SessionState" where
  "rx_one = qx_started\<lparr>se_submissions := [(Uuid 7, rx_submission [bytes32 60] None)],
     se_operations := rx_operations @ [(Uuid 30, bytes32 113), (Uuid 40, bytes32 113)], se_revision := 5\<rparr>"

definition rx_two :: "session_wire SessionState" where
  "rx_two = rx_one\<lparr>se_submissions := [(Uuid 7, rx_submission [bytes32 60, bytes32 61] None)],
     se_operations := rx_operations @ [(Uuid 30, bytes32 113), (Uuid 40, bytes32 113), (Uuid 41, bytes32 113)], se_revision := 6\<rparr>"

definition rx_published :: "session_wire SessionState" where
  "rx_published = rx_two\<lparr>se_submissions := [(Uuid 7, rx_submission [bytes32 60, bytes32 61] (Some (bytes32 63)))],
     se_history := [message ''assistant'' ''yes''],
     se_operations := rx_operations @ [(Uuid 27, bytes32 113), (Uuid 30, bytes32 113), (Uuid 40, bytes32 113), (Uuid 41, bytes32 113)],
     se_revision := 7\<rparr>"

definition rx_settled :: "session_wire SessionState" where
  "rx_settled = rx_published\<lparr>se_interpreter := interrupt (Uuid 7) (se_interpreter rx_published), se_active_request := None,
     se_operations := rx_operations @ [(Uuid 25, bytes32 113), (Uuid 27, bytes32 113), (Uuid 30, bytes32 113), (Uuid 40, bytes32 113), (Uuid 41, bytes32 113)],
     se_revision := 8, se_settled_revision := 8, se_settled_history_items := 1\<rparr>"

lemmas rx_state_defs = rx_settled_def rx_published_def rx_two_def rx_one_def rx_submission_def qx_state_defs

lemma rx_applies:
  "session_apply session_wire_codec (Uuid 40) (AuxiliaryRecorded (Uuid 7) (bytes32 60)) qx_started = Inr rx_one"
  "session_apply session_wire_codec (Uuid 41) (AuxiliaryRecorded (Uuid 7) (bytes32 61)) rx_one = Inr rx_two"
  "session_apply session_wire_codec (Uuid 27) (AuxiliaryPublished (Uuid 7) (bytes32 63) (Some ''yes'')) rx_two = Inr rx_published"
  "session_apply session_wire_codec (Uuid 25) (TurnSettled (Uuid 7) None None) rx_published = Inr rx_settled"
  by (simp_all add: sx_steps rx_state_defs bt_adjust_def qx_submission_def new_submission_def)

lemma rx_premises:
  "reporting_request (AuxiliaryRecorded r x) = None" "reporting_request (AuxiliaryPublished r x y) = None"
  "session_guard session_wire_codec st d s (AuxiliaryRecorded r x) = Inr ()"
  "session_guard session_wire_codec st d s (AuxiliaryPublished r x y) = Inr ()"
  "session_guard session_wire_codec st d s (TurnSettled r None e) = Inr ()"
  "se_revision rx_one = 5" "se_revision rx_two = 6" "se_revision rx_published = 7" "se_revision rx_settled = 8"
  by (simp_all add: reporting_request_def session_guard_def rx_state_defs)

lemma rx_distinct: "rx_one \<noteq> qx_started" "rx_two \<noteq> rx_one" "rx_published \<noteq> rx_two"
  by (auto dest: arg_cong [of _ _ se_revision] simp: rx_premises qx_premises)

lemma rx_two_stored:
  "\<exists>d h. sessions_inv session_wire_codec d \<and> session_ok session_wire_codec d sx_id rx_two h"
proof -
  obtain d h where d: "sessions_inv session_wire_codec d" "session_ok session_wire_codec d sx_id qx_started h"
    using qx_started_stored by blast
  have none: "bt_get (se_operations qx_started) (Uuid 40) = None" "bt_get (se_operations rx_one) (Uuid 41) = None"
    by (simp_all add: rx_state_defs bt_get_def)
  note step = qx_step [where st = rx_store and command = "AuxiliaryRecorded (Uuid 7) (bytes32 60)"]
    qx_step [where st = rx_store and command = "AuxiliaryRecorded (Uuid 7) (bytes32 61)"]
  obtain d1 h1 where d1: "sessions_inv session_wire_codec d1" "session_ok session_wire_codec d1 sx_id rx_one h1"
    using step(1) [OF d none(1) rx_premises(1,3) rx_applies(1) _ _ _ rx_distinct(1)] by (auto simp: rx_premises)
  show ?thesis
    using step(2) [OF d1 none(2) rx_premises(1,3) rx_applies(2) _ _ _ rx_distinct(2)] by (auto simp: rx_premises)
qed

definition rx_accounting :: Accounting where
  "rx_accounting = Accounting_default\<lparr>acc_calls := [(Uuid 70, Some rx_receipt)]\<rparr>"

lemma rx_replay: "replay_records session_wire_codec rx_codec rx_store [bytes32 60, bytes32 61] = Inr rx_accounting"
proof -
  have "(bytes32 61 = bytes32 60) = False"
    by (simp add: bytes32_def)
  then have r: "read_record session_wire_codec rx_codec rx_store (bytes32 60) = Inr (ModelIntended (Uuid 70) (bytes32 5))"
      "read_record session_wire_codec rx_codec rx_store (bytes32 61) = Inr (ModelObserved (Uuid 70) rx_receipt)"
    by (simp_all add: read_record_def rx_read rx_codec_def)
  have a: "accounting_apply (ModelIntended (Uuid 70) (bytes32 5)) Accounting_default =
      Inr (Accounting_default\<lparr>acc_calls := [(Uuid 70, None)]\<rparr>)"
    "accounting_apply (ModelObserved (Uuid 70) rx_receipt) (Accounting_default\<lparr>acc_calls := [(Uuid 70, None)]\<rparr>) =
      Inr rx_accounting"
    by (simp_all add: accounting_apply_def Accounting_default_def rx_accounting_def bt_contains_def bt_get_def)
  show ?thesis
    by (simp add: replay_records_def r a)
qed

lemma rx_publish:
  assumes inv: "sessions_inv session_wire_codec d" and ok: "session_ok session_wire_codec d sx_id rx_two h"
  shows "\<exists>d'. publish_auxiliary session_wire_codec rx_codec rx_store sx_now sx_id (Uuid 7) AuxCompleted ''yes'' None d =
    Inr (bytes32 63, rx_store, d')"
proof -
  have load: "load_session session_wire_codec d sx_id = Inr rx_two"
    using load_session_state_ok [OF ok] by (simp add: load_session_def)
  have u: "bt_get (se_submissions rx_two) (Uuid 7) = Some (rx_submission [bytes32 60, bytes32 61] None)"
    by (simp add: rx_two_def bt_get_def)
  have fields: "se_active_request rx_two = Some (Uuid 7)" "bt_get (se_operations rx_two) (Uuid 27) = None"
      "se_active_request rx_published = Some (Uuid 7)" "bt_get (se_operations rx_published) (Uuid 25) = None"
    by (simp_all add: rx_state_defs bt_get_def)
  have intent: "su_intent (rx_submission records result) = qx_intent" "su_records (rx_submission records result) = records"
    for records result
    by (simp_all add: rx_submission_def qx_submission_def new_submission_def)
  have acc: "auxiliary_accounting session_wire_codec rx_codec rx_store sx_id (Uuid 7) d = Inr rx_accounting"
    by (simp add: auxiliary_accounting_def submission_def load u intent rx_replay)
  have v5: "new_v5 session_wire_codec (Uuid 7) ''auxiliary-published'' = Uuid 27"
      "new_v5 session_wire_codec (Uuid 7) ''auxiliary-settled'' = Uuid 25"
    by (simp_all add: session_wire_codec_def)
  obtain d1 h1 where one: "session_command session_wire_codec rx_store sx_now sx_id (se_revision rx_two) (Uuid 27)
      (AuxiliaryPublished (Uuid 7) (bytes32 63) (Some ''yes'')) d = Inr (rx_published, d1)"
    and ok1: "session_ok session_wire_codec d1 sx_id rx_published h1"
    using qx_step [where st = rx_store, OF inv ok fields(2) rx_premises(2,4) rx_applies(3) _ _ _ rx_distinct(3)]
    by (auto simp: rx_premises)
  obtain d2 where two: "session_command session_wire_codec rx_store sx_now sx_id (se_revision rx_published) (Uuid 25)
      (TurnSettled (Uuid 7) None None) d1 = Inr (rx_settled, d2)"
    using sx_command [OF ok1 fields(4) _ rx_premises(5) rx_applies(4), of rx_store sx_now] fields(3)
    by (auto simp: reporting_request_def rx_premises)
  have enc: "enc_aux_report rx_codec report = Inr (TaskWire (WBlob (bytes32 63)))" for report
    by (simp add: rx_codec_def)
  have spec: "visible ordinary_conversation_spec" "al_tokens (as_limits ordinary_conversation_spec) = 256000"
    by (simp_all add: visible_def ordinary_conversation_spec_def AuxiliaryLimits_default_def)
  have "acc_tokens rx_accounting = Some 1200" "acc_calls rx_accounting \<noteq> []"
    by (simp_all add: rx_accounting_def acc_tokens_def bt_values_def rx_receipt_def checked_add_def)
  then have "publish_answer session_wire_codec rx_codec rx_store sx_now sx_id (Uuid 7) rx_two [bytes32 60, bytes32 61]
      ordinary_conversation_spec AuxCompleted ''yes'' None d = Inr (bytes32 63, rx_store, d2)"
    using one two by (simp add: publish_answer_def acc unresolved_accounting_def spec enc rx_put v5)
  then show ?thesis
    by (simp add: publish_auxiliary_def load u intent qx_intent_def fields)
qed

theorem completed_answer_is_accounted_witness:
  "\<exists>d d' a n. publish_auxiliary session_wire_codec rx_codec rx_store sx_now sx_id (Uuid 7) AuxCompleted ''yes'' None d =
      Inr (bytes32 63, rx_store, d') \<and>
    auxiliary_accounting session_wire_codec rx_codec rx_store sx_id (Uuid 7) d = Inr a \<and>
    unat n = sum_list (map (\<lambda>(call, r). unat (the (mc_tokens (the r)))) (acc_calls a)) \<and> n \<le> (256000 :: u64)"
proof -
  obtain d h where inv: "sessions_inv session_wire_codec d" and ok: "session_ok session_wire_codec d sx_id rx_two h"
    using rx_two_stored by blast
  obtain d' where run: "publish_auxiliary session_wire_codec rx_codec rx_store sx_now sx_id (Uuid 7) AuxCompleted ''yes'' None d =
      Inr (bytes32 63, rx_store, d')"
    using rx_publish [OF inv ok] by blast
  have u: "submission session_wire_codec d sx_id (Uuid 7) = Inr (rx_submission [bytes32 60, bytes32 61] None)"
    using load_session_state_ok [OF ok] by (simp add: submission_def load_session_def rx_two_def bt_get_def)
  have spec: "auxiliary_spec (su_intent (rx_submission [bytes32 60, bytes32 61] None)) = Inr ordinary_conversation_spec"
    by (simp add: auxiliary_spec_def rx_submission_def qx_submission_def new_submission_def qx_intent_def)
  have "al_tokens (as_limits ordinary_conversation_spec) = 256000"
    by (simp add: ordinary_conversation_spec_def AuxiliaryLimits_default_def)
  moreover obtain a n where "auxiliary_accounting session_wire_codec rx_codec rx_store sx_id (Uuid 7) d = Inr a"
      "n \<le> al_tokens (as_limits ordinary_conversation_spec)"
      "unat n = sum_list (map (\<lambda>(call, r). unat (the (mc_tokens (the r)))) (acc_calls a))"
    using completed_answer_is_accounted [OF run u spec] by (elim exE conjE)
  ultimately show ?thesis
    using run by - (rule exI [of _ d], rule exI [of _ d'], rule exI [of _ a], rule exI [of _ n], simp)
qed

end
