(* ===== verification/Manual_Store.thy ===== *)
theory Manual_Store
  imports Submission_Store
begin

text \<open>
  Shell commands of the operator (\<^verbatim>\<open>store/manual.rs\<close>): claiming the workspace, settling the command, and
  adopting the source it left. The report's encoder is an argument.
\<close>

record ShellReport =
  sr_version :: u32
  sr_job :: ManualJob
  sr_status :: ExecutionStatus
  sr_stdout :: digest
  sr_stderr :: digest
  sr_elapsed_ms :: u64
  sr_receipt :: digest
  sr_after :: "digest option"
  sr_adopted :: bool
  sr_error :: "string option"

section \<open>Starting\<close>

text \<open>A further event of a task whose state is at hand; only the head is read again.\<close>

definition append_next ::
    "('b, 'z) codec_scheme \<Rightarrow> 'b ArtifactStore \<Rightarrow> TaskId \<Rightarrow> TaskState \<Rightarrow> TaskEvent \<Rightarrow> 'b db \<Rightarrow>
     StoreError + TaskState \<times> 'b db" where
  "append_next c st i task event d =
     and_then (load_state c d i) (\<lambda>(_, head). append_task_event c st task head event d)"

definition shell_effect :: "uuid \<Rightarrow> EffectStatus \<Rightarrow> Effect" where
  "shell_effect request status =
     \<lparr>eff_operation_id = request, eff_description = ''User shell source adoption'', eff_status = status,
      eff_idempotent = True\<rparr>"

definition shell_job :: "SessionId \<Rightarrow> uuid \<Rightarrow> digest \<Rightarrow> ShellSpec \<Rightarrow> ManualJob \<Rightarrow> TaskState \<Rightarrow> Job" where
  "shell_job session_id request input spec job task =
     \<lparr>j_id = mj_job job, j_generation = t_generation task + 1, j_status = Running, j_mutates_candidate = True,
      j_check = None, j_identity = None, j_started_ms = mj_started_ms job,
      j_deadline_ms = saturating_add (mj_started_ms job) (sh_timeout_ms spec),
      j_invocation = Some \<lparr>ji_session = session_id, ji_request = request, ji_call_id = None,
        ji_capability = ''human_shell'', ji_input = input, ji_environment = mj_environment job\<rparr>,
      j_fence_receipt = None, j_execution_receipt = None\<rparr>"

definition unfinished_operations :: "TaskState \<Rightarrow> bool" where
  "unfinished_operations task =
     (list_ex (\<lambda>job. unresolved (j_status job)) (bt_values (t_jobs task))
      \<or> list_ex (\<lambda>effect. eff_status effect = Intended \<or> eff_status effect = EffectUnknown) (bt_values (t_effects task)))"

definition claim_task ::
    "('b, 'z) codec_scheme \<Rightarrow> 'b ArtifactStore \<Rightarrow> SessionId \<Rightarrow> uuid \<Rightarrow> digest \<Rightarrow> ShellSpec \<Rightarrow> ManualJob \<Rightarrow> 'b db \<Rightarrow>
     StoreError + 'b db" where
  "claim_task c st session_id request input spec job d =
     (case mj_task job of
        None \<Rightarrow> Inr d
      | Some i \<Rightarrow>
          and_then (load_state c d i) (\<lambda>(task, task_head).
          if (case sh_scope_revision spec of None \<Rightarrow> False | Some scope \<Rightarrow> scope \<noteq> t_scope_revision task)
             \<or> mj_scope_revision job \<noteq> Some (t_scope_revision task + 1)
          then Inl (Invalid ''shell task scope changed'')
          else if unfinished_operations task
          then Inl (Invalid ''reconcile unfinished task operations before user shell execution'') else
          and_then (append_task_event c st task task_head
              (ManualStarted (shell_job session_id request input spec job task)) d) (\<lambda>(task1, d1).
          and_then (append_next c st i task1 (EffectRecorded (shell_effect request Intended)) d1)
            (\<lambda>(_, d2). Inr d2))))"

definition begin_shell ::
    "('b, 'z) session_codec_scheme \<Rightarrow> 'b ArtifactStore \<Rightarrow> ('b SessionCommand \<Rightarrow> u64) \<Rightarrow> SessionId \<Rightarrow> uuid \<Rightarrow>
     ManualJob \<Rightarrow> 'b db \<Rightarrow> StoreError + 'b db" where
  "begin_shell c st now session_id request job d =
     and_then (load_session_state c d session_id None) (\<lambda>(s, head).
     and_then (ok_or (bt_get (se_submissions s) request) (Invalid ''unknown shell submission'')) (\<lambda>u.
     case su_intent u of
       ShellWork spec \<Rightarrow>
         and_then (shell_validate spec) (\<lambda>_.
         if su_status u \<noteq> SubRunning \<or> se_active_request s \<noteq> None \<or> bt_contains (se_operations s) request
            \<or> br_pending_task (se_branch s) \<noteq> None \<or> br_pending_shell (se_branch s) \<noteq> None
         then Inl (Invalid ''shell source is active, unresolved or already claimed'')
         else if mj_task job \<noteq> se_current_task s
            \<or> (case sh_expected_task spec of None \<Rightarrow> False | Some i \<Rightarrow> mj_task job \<noteq> Some i)
         then Inl (Invalid ''shell target task changed'') else
         and_then (try_each (seed_available c st ''shell input snapshot is unavailable'') [mj_before job, mj_origin job]) (\<lambda>_.
         and_then (map_err StoreArtifact (read_artifact c st (mj_environment job))) (\<lambda>_.
         and_then (claim_task c st session_id request (su_input u) spec job d) (\<lambda>d1.
         and_then (append_session_command c now request (ShellStarted job) (s, head, d1)) (\<lambda>(_, _, d2). Inr d2)))))
     | _ \<Rightarrow> Inl (Invalid ''request is not a user shell command'')))"

section \<open>Settling\<close>

definition shell_status :: "ExecutionStatus \<Rightarrow> JobStatus" where
  "shell_status status =
     (case status of
        Exited code \<Rightarrow> if code = 0 then JobSucceeded else JobFailed
      | ExecutionUnknown _ \<Rightarrow> JobUnknown
      | ExecutionCancelled \<Rightarrow> JobCancelled
      | _ \<Rightarrow> JobFailed)"

definition shell_known :: "ShellReport \<Rightarrow> bool" where
  "shell_known report \<longleftrightarrow> shell_status (sr_status report) \<noteq> JobUnknown"

definition shell_seed ::
    "('b, 'z) codec_scheme \<Rightarrow> 'b ArtifactStore \<Rightarrow> ShellReport \<Rightarrow> StoreError + WorkspaceSeed option" where
  "shell_seed c st report =
     (case (if shell_known report then sr_after report else None) of
        None \<Rightarrow> Inr None
      | Some source \<Rightarrow>
          and_then (seed_available c st ''shell result source is unavailable'' source) (\<lambda>_.
          Inr (Some \<lparr>ws_origin = mj_origin (sr_job report), ws_source = source, ws_task = mj_task (sr_job report)\<rparr>)))"

definition adopted_candidate :: "ManualJob \<Rightarrow> WorkspaceSeed \<Rightarrow> Candidate" where
  "adopted_candidate job seed =
     \<lparr>cand_source = ws_source seed, cand_environment = mj_environment job, cand_artifact = ws_source seed,
      cand_frozen = True, cand_provenance = None\<rparr>"

definition adoption_status :: "bool \<Rightarrow> WorkspaceSeed option \<Rightarrow> EffectStatus" where
  "adoption_status known seed =
     (if \<not> known then EffectUnknown else if seed \<noteq> None then EffectSucceeded else EffectFailed)"

text \<open>The task's side: the job is settled, the source adopted unless the scope moved, and the task stopped.\<close>

definition settle_shell_task ::
    "('b, 'z) codec_scheme \<Rightarrow> 'b ArtifactStore \<Rightarrow> uuid \<Rightarrow> WorkspaceSeed option \<Rightarrow> ShellReport \<Rightarrow> 'b db \<Rightarrow>
     StoreError + WorkspaceSeed option \<times> ShellReport \<times> 'b db" where
  "settle_shell_task c st request seed report d =
     (case mj_task (sr_job report) of
        None \<Rightarrow> Inr (seed, report, d)
      | Some i \<Rightarrow>
          and_then (load_state c d i) (\<lambda>(task, task_head).
          if \<not> (case bt_get (t_jobs task) (mj_job (sr_job report)) of None \<Rightarrow> False | Some job \<Rightarrow> j_status job = Running)
          then Inl (Invalid ''shell job is already settled'') else
          and_then (append_task_event c st task task_head (JobSettled (mj_job (sr_job report))
              (shell_status (sr_status report)) (Some (sr_receipt report))) d) (\<lambda>(task1, d1).
          let moved = mj_scope_revision (sr_job report) \<noteq> Some (t_scope_revision task1);
              seed' = (if moved then None else seed);
              report' = (if moved then report\<lparr>sr_error :=
                Some ''User input superseded source adoption; the command result remains archived''\<rparr> else report)
          in
          and_then (case seed' of
              None \<Rightarrow> Inr (task1, d1)
            | Some w \<Rightarrow> append_next c st i task1 (ManualWorkspace (adopted_candidate (sr_job report) w) (ws_origin w)) d1)
            (\<lambda>(task2, d2).
          and_then (append_next c st i task2 (EffectRecorded
              (shell_effect request (adoption_status (shell_known report) seed'))) d2) (\<lambda>(task3, d3).
          and_then (append_next c st i task3
              (Stopped Blocked ''User shell settled; coding-task verification remains separate'') d3) (\<lambda>(_, d4).
          Inr (seed', report', d4)))))))"

definition finish_shell ::
    "('b, 'z) session_codec_scheme \<Rightarrow> (ShellReport \<Rightarrow> string + 'b) \<Rightarrow> 'b ArtifactStore \<Rightarrow> ('b SessionCommand \<Rightarrow> u64) \<Rightarrow>
     SessionId \<Rightarrow> uuid \<Rightarrow> ShellReport \<Rightarrow> 'b db \<Rightarrow> StoreError + digest \<times> 'b ArtifactStore \<times> 'b db" where
  "finish_shell c enc_shell st now session_id request report d =
     and_then (load_session_state c d session_id None) (\<lambda>(s, head).
     and_then (ok_or (bt_get (se_submissions s) request) (Invalid ''unknown shell submission'')) (\<lambda>u.
     if se_active_request s \<noteq> Some request \<or> su_manual_job u \<noteq> Some (sr_job report)
     then Inl (Invalid ''shell result has no matching active actor'') else
     and_then (read_all c st [sr_stdout report, sr_stderr report, sr_receipt report]) (\<lambda>_.
     and_then (shell_seed c st report) (\<lambda>seed.
     and_then (settle_shell_task c st request seed (report\<lparr>sr_adopted := False\<rparr>) d) (\<lambda>(seed', report', d1).
     let report'' = report'\<lparr>sr_adopted := (seed' \<noteq> None)\<rparr> in
     and_then (map_err StoreJson (enc_shell report'')) (\<lambda>bytes.
     and_then (map_err StoreArtifact (put_artifact c st bytes)) (\<lambda>(x, st').
     and_then (append_session_command c now (new_v5 c request ''shell-published'')
         (ShellPublished request x seed' (shell_known report)) (s, head, d1)) (\<lambda>(s1, head1, d2).
     and_then (append_session_command c now (new_v5 c request ''shell-settled'')
         (TurnSettled request None (sr_error report'')) (s1, head1, d2)) (\<lambda>(_, _, d3).
     Inr (x, st', d3))))))))))"

definition workspace_restored ::
    "('b, 'z) codec_scheme \<Rightarrow> 'b ArtifactStore \<Rightarrow> TaskId \<Rightarrow> u64 \<Rightarrow> digest \<Rightarrow> 'b db \<Rightarrow> StoreError + TaskState \<times> 'b db" where
  "workspace_restored c st i revision source =
     change c st i (Some revision) False (pure_operation (\<lambda>s.
       if t_workspace_override s \<noteq> Some source \<or> unresolved_jobs s \<noteq> []
       then Inl (Invalid ''workspace restore has no matching settled source'')
       else Inr (WorkspaceRestored source)))"

section \<open>What a settled command leaves behind\<close>

lemma append_next_stored:
  assumes "stored c d i s h" and "append_next c st i s e d = Inr (s', d')"
  shows "task_apply (contract_digest c) s e = Inr s' \<and> (\<exists>h'. stored c d' i s' h')"
proof -
  have app: "append_task_event c st s h e d = Inr (s', d')"
    using assms(2) tasks.load_ok [OF assms(1)] by (simp add: append_next_def)
  show ?thesis
    using tasks.append_applies [OF assms(1) app] tasks.append_ok [OF assms(1) app TrueI] by blast
qed

lemma append_session_command_tasks:
  assumes "append_session_command c now operation command (s, h, d) = Inr (s', h', d')"
    and "\<not> (\<exists>request call out. command = ToolResult request call out)"
  shows "task_part_eq d d'"
  using assms(1)
proof (cases rule: append_session_command_cases)
  case (one b)
  then show ?thesis by (blast dest: append_framed_frame(1))
next
  case (framed request call out shd1)
  with assms(2) show ?thesis by blast
qed

definition adopts_source :: "TaskState \<Rightarrow> ShellReport \<Rightarrow> bool" where
  "adopts_source s report \<longleftrightarrow>
     shell_known report \<and> sr_after report \<noteq> None \<and> mj_scope_revision (sr_job report) = Some (t_scope_revision s)"

lemma shell_seed_Inr:
  assumes "shell_seed c st report = Inr seed"
  shows "seed = (if shell_known report then map_option (\<lambda>source. \<lparr>ws_origin = mj_origin (sr_job report),
    ws_source = source, ws_task = mj_task (sr_job report)\<rparr>) (sr_after report) else None)"
  using assms by (auto simp: shell_seed_def result_simps split: option.splits if_splits)

lemma settle_shell_task_stored:
  assumes run: "settle_shell_task c st request seed report d = Inr (seed', report', d')"
    and task: "mj_task (sr_job report) = Some i" and stored: "stored c d i s h"
  shows "\<exists>s' h'. stored c d' i s' h' \<and> t_outcome s' = Some Blocked \<and> t_scope_revision s' = t_scope_revision s \<and>
    (\<exists>job. bt_get (t_jobs s') (mj_job (sr_job report)) = Some job \<and>
       j_status job = shell_status (sr_status report) \<and> j_execution_receipt job = Some (sr_receipt report)) \<and>
    bt_get (t_effects s') request = Some (shell_effect request (adoption_status (shell_known report) seed')) \<and>
    seed' = (if mj_scope_revision (sr_job report) = Some (t_scope_revision s) then seed else None) \<and>
    t_workspace_override s' = (case seed' of None \<Rightarrow> t_workspace_override s | Some w \<Rightarrow> Some (ws_source w))"
proof -
  let ?scope = "mj_scope_revision (sr_job report) = Some (t_scope_revision s)"
  have load: "load_state c d i = Inr (s, h)"
    by (rule tasks.load_ok [OF stored])
  let ?e1 = "JobSettled (mj_job (sr_job report)) (shell_status (sr_status report)) (Some (sr_receipt report))"
  obtain job s1 d1 where job: "bt_get (t_jobs s) (mj_job (sr_job report)) = Some job"
    and one: "append_task_event c st s h ?e1 d = Inr (s1, d1)"
    using run by (auto simp: settle_shell_task_def task load result_simps split: if_splits option.splits)
  have a1: "task_apply (contract_digest c) s ?e1 = Inr s1" and o1: "\<exists>h'. stored c d1 i s1 h'"
    using tasks.append_applies [OF stored one] tasks.append_ok [OF stored one TrueI] by blast+
  have scope: "t_scope_revision s1 = t_scope_revision s"
    using a1 by (auto simp: task_apply_def)
  define seed1 where "seed1 = (if ?scope then seed else None)"
  obtain s2 d2 s3 d3 s4 where
    two: "(case seed1 of None \<Rightarrow> Inr (s1, d1)
       | Some w \<Rightarrow> append_next c st i s1 (ManualWorkspace (adopted_candidate (sr_job report) w) (ws_origin w)) d1) =
       Inr (s2, d2)"
    and three: "append_next c st i s2 (EffectRecorded (shell_effect request (adoption_status (shell_known report) seed1))) d2 =
       Inr (s3, d3)"
    and four: "append_next c st i s3
       (Stopped Blocked ''User shell settled; coding-task verification remains separate'') d3 = Inr (s4, d')"
    and seed': "seed' = seed1"
    using run one by (auto simp: settle_shell_task_def task load result_simps Let_def scope seed1_def job
        split: if_splits)
  have ok2: "\<exists>h'. stored c d2 i s2 h'" and s2: "t_jobs s2 = t_jobs s1" "t_scope_revision s2 = t_scope_revision s1"
      "t_workspace_override s2 = (case seed1 of None \<Rightarrow> t_workspace_override s1 | Some w \<Rightarrow> Some (ws_source w))"
  proof -
    obtain h1 where h1: "stored c d1 i s1 h1"
      using o1 by blast
    have "(\<exists>h'. stored c d2 i s2 h') \<and> t_jobs s2 = t_jobs s1 \<and> t_scope_revision s2 = t_scope_revision s1 \<and>
        t_workspace_override s2 = (case seed1 of None \<Rightarrow> t_workspace_override s1 | Some w \<Rightarrow> Some (ws_source w))"
    proof (cases seed1)
      case None
      with two h1 show ?thesis by auto
    next
      case (Some w)
      with two have step: "append_next c st i s1 (ManualWorkspace (adopted_candidate (sr_job report) w) (ws_origin w)) d1 =
          Inr (s2, d2)"
        by simp
      show ?thesis
        using append_next_stored [OF h1 step] Some by (auto simp: task_apply_def adopted_candidate_def)
    qed
    then show "\<exists>h'. stored c d2 i s2 h'" "t_jobs s2 = t_jobs s1" "t_scope_revision s2 = t_scope_revision s1"
      "t_workspace_override s2 = (case seed1 of None \<Rightarrow> t_workspace_override s1 | Some w \<Rightarrow> Some (ws_source w))"
      by blast+
  qed
  from ok2 have a3: "task_apply (contract_digest c) s2 (EffectRecorded (shell_effect request
      (adoption_status (shell_known report) seed1))) = Inr s3" and o3: "\<exists>h'. stored c d3 i s3 h'"
    using append_next_stored [OF _ three] by blast+
  then have a4: "task_apply (contract_digest c) s3 (Stopped Blocked
      ''User shell settled; coding-task verification remains separate'') = Inr s4" and o4: "\<exists>h'. stored c d' i s4 h'"
    using append_next_stored [OF _ four] by blast+
  have f1: "t_jobs s1 = bt_adjust (mj_job (sr_job report)) (\<lambda>job. job\<lparr>j_status := shell_status (sr_status report),
      j_execution_receipt := Some (sr_receipt report)\<rparr>) (t_jobs s)" "t_workspace_override s1 = t_workspace_override s"
    using a1 by (auto simp: task_apply_def)
  have f4: "t_outcome s4 = Some Blocked" "t_scope_revision s4 = t_scope_revision s2" "t_jobs s4 = t_jobs s2"
      "t_workspace_override s4 = t_workspace_override s2"
      "bt_get (t_effects s4) request = Some (shell_effect request (adoption_status (shell_known report) seed1))"
    using a3 a4 by (auto simp: task_apply_def shell_effect_def bt_get_insert)
  have "\<exists>job. bt_get (t_jobs s4) (mj_job (sr_job report)) = Some job \<and>
      j_status job = shell_status (sr_status report) \<and> j_execution_receipt job = Some (sr_receipt report)"
    by (simp add: f4 s2 f1 job bt_get_adjust)
  with o4 f4 s2 f1 scope seed' show ?thesis
    unfolding seed1_def by (intro exI [of _ s4]) (auto split: option.split)
qed

text \<open>
  Settling a shell command records its outcome on the task whatever happens, leaves the task blocked for
  separate verification, and replaces the task's workspace exactly when the command has a known outcome, left
  a source, and no user input moved the scope meanwhile.
\<close>

theorem shell_adopts_only_current_scope:
  assumes run: "finish_shell c enc_shell st now session_id request report d = Inr (x, st', d')"
    and task: "mj_task (sr_job report) = Some i" and stored: "stored c d i s h"
  shows "\<exists>s' h'. load_state c d' i = Inr (s', h') \<and> t_outcome s' = Some Blocked \<and>
    (\<exists>job. bt_get (t_jobs s') (mj_job (sr_job report)) = Some job \<and>
       j_status job = shell_status (sr_status report) \<and> j_execution_receipt job = Some (sr_receipt report)) \<and>
    (\<exists>effect. bt_get (t_effects s') request = Some effect \<and>
       (eff_status effect = EffectSucceeded \<longleftrightarrow> adopts_source s report) \<and>
       (eff_status effect = EffectUnknown \<longleftrightarrow> \<not> shell_known report)) \<and>
    t_workspace_override s' = (if adopts_source s report then sr_after report else t_workspace_override s)"
proof -
  from run obtain seed seed' report' d1 d2 where seed: "shell_seed c st report = Inr seed"
    and settle: "settle_shell_task c st request seed (report\<lparr>sr_adopted := False\<rparr>) d = Inr (seed', report', d1)"
    and frames: "task_part_eq d1 d2" "task_part_eq d2 d'"
    by (auto simp: finish_shell_def result_simps Let_def split: if_splits dest!: append_session_command_tasks)
  note same = task_part_eq_trans [OF frames]
  obtain s' h' where s': "stored c d1 i s' h'" "t_outcome s' = Some Blocked"
      "\<exists>job. bt_get (t_jobs s') (mj_job (sr_job report)) = Some job \<and>
         j_status job = shell_status (sr_status report) \<and> j_execution_receipt job = Some (sr_receipt report)"
      "bt_get (t_effects s') request = Some (shell_effect request (adoption_status (shell_known report) seed'))"
      "seed' = (if mj_scope_revision (sr_job report) = Some (t_scope_revision s) then seed else None)"
      "t_workspace_override s' = (case seed' of None \<Rightarrow> t_workspace_override s | Some w \<Rightarrow> Some (ws_source w))"
    using settle_shell_task_stored [OF settle _ stored] task by (auto simp: shell_known_def)
  have "load_state c d' i = Inr (s', h')"
    using tasks.load_ok s'(1) task_part_eq_stored [OF same] by blast
  moreover have "seed' \<noteq> None \<longleftrightarrow> adopts_source s report"
      "adopts_source s report \<Longrightarrow> map_option ws_source seed' = sr_after report"
    using shell_seed_Inr [OF seed] s'(5) by (auto simp: adopts_source_def split: if_splits)
  ultimately show ?thesis
    using s' by (auto simp: shell_effect_def adoption_status_def adopts_source_def split: option.splits if_splits)
qed

end
