(* ===== verification/Reviews.thy ===== *)
theory Reviews
  imports Admission_Profile Session_State
begin

text \<open>
  Frozen review data and the notes on it (\<^verbatim>\<open>review.rs\<close>, \<^verbatim>\<open>review/files.rs\<close>, \<^verbatim>\<open>feedback.rs\<close>): the manifest of a
  review, the file trees it pins, their pages, and authenticated feedback. Capturing a review runs Git and is
  not part of this theory.
\<close>

datatype ReviewRange =
    Snapshots digest digest
  | WorkingTree "string option"
  | Staged "string option"
  | Commit string
  | Between string string

record ReviewLimits =
  rl_max_files :: nat
  rl_max_file_bytes :: nat
  rl_max_snapshot_bytes :: nat
  rl_max_output_bytes :: nat
  rl_max_metadata_bytes :: nat
  rl_timeout_ms :: nat

definition ReviewLimits_default :: ReviewLimits where
  "ReviewLimits_default =
     \<lparr>rl_max_files = 10000, rl_max_file_bytes = 16 * 1024 * 1024, rl_max_snapshot_bytes = 64 * 1024 * 1024,
      rl_max_output_bytes = 32 * 1024 * 1024, rl_max_metadata_bytes = 4 * 1024 * 1024, rl_timeout_ms = 30 * 1000\<rparr>"

datatype ReviewError =
    ReviewRangeError
  | ReviewLimitsError
  | ReviewLimit string
  | ReviewPath
  | ReviewIo
  | ReviewArtifact ArtifactError
  | Corrupt

datatype FileKind = DirectoryKind | FileKind | SymlinkKind | GitlinkKind

record FrozenFile =
  ff_kind :: FileKind
  ff_mode :: u32
  ff_permissions :: "u32 option"
  ff_content :: digest
  ff_bytes :: u64
  ff_git_object :: "string option"

record FrozenTree =
  ft_version :: u32
  ft_files :: "(string \<times> FrozenFile) list"

record ReviewManifest =
  rm_version :: u32
  rm_source_identity :: digest
  rm_repository :: string
  rm_range :: ReviewRange
  rm_base_revision :: "string option"
  rm_head_revision :: "string option"
  rm_before :: digest
  rm_after :: digest
  rm_patch :: digest
  rm_git_executable :: digest
  rm_metadata_changes :: "string list"

datatype Disposition = Approved | ChangesRequested | CommentOnly

record ReviewFeedback =
  rf_version :: u32
  rf_session :: SessionId
  rf_manifest :: digest
  rf_source_identity :: digest
  rf_disposition :: Disposition
  rf_body :: string

type_synonym source_identity =
  "u32 \<times> ReviewRange \<times> string option \<times> string option \<times> digest \<times> digest \<times> digest"

record 'b review_codec =
  dec_manifest :: "'b \<Rightarrow> string + ReviewManifest"
  dec_tree :: "'b \<Rightarrow> string + FrozenTree"
  enc_identity :: "source_identity \<Rightarrow> string + 'b"
  dec_feedback :: "'b \<Rightarrow> string + ReviewFeedback"

section \<open>Reading frozen data\<close>

definition validate_limits :: "ReviewLimits \<Rightarrow> ReviewError + unit" where
  "validate_limits l =
     (if rl_max_files l = 0 \<or> rl_max_files l > 100000
         \<or> rl_max_file_bytes l = 0 \<or> rl_max_file_bytes l > 64 * 1024 * 1024
         \<or> rl_max_snapshot_bytes l = 0 \<or> rl_max_snapshot_bytes l > 256 * 1024 * 1024
         \<or> rl_max_output_bytes l = 0 \<or> rl_max_output_bytes l > 64 * 1024 * 1024
         \<or> rl_max_metadata_bytes l = 0 \<or> rl_max_metadata_bytes l > 16 * 1024 * 1024
         \<or> rl_timeout_ms l = 0 \<or> rl_timeout_ms l > 120 * 1000
      then Inl ReviewLimitsError else Inr ())"

definition safe_part :: "string \<Rightarrow> bool" where
  "safe_part part \<longleftrightarrow> part \<noteq> '''' \<and> part \<noteq> ''.'' \<and> part \<noteq> ''..'' \<and> to_ascii_lowercase part \<noteq> ''.git''"

definition safe_path :: "string \<Rightarrow> bool" where
  "safe_path path \<longleftrightarrow>
     path \<noteq> '''' \<and> length path \<le> 4096 \<and> CHR 0x00 \<notin> set path \<and> \<not> starts_with path ''/''
     \<and> list_all safe_part (split_on slash path) \<and> list_all is_normal (components path)"

text \<open>
  The file is read through its path with the review's own bound. A file that is not regular is refused with
  the bound's error; concurrent changes of the file are outside the model.
\<close>

definition read_regular ::
    "('b, 'z) hashing_scheme \<Rightarrow> 'b ArtifactStore \<Rightarrow> digest \<Rightarrow> nat \<Rightarrow> ReviewError + 'b" where
  "read_regular h st x limit =
     (case as_files st (artifact_path x) of
        None \<Rightarrow> Inl ReviewIo
      | Some OtherFile \<Rightarrow> Inl (ReviewLimit ''file bytes or type'')
      | Some (RegularFile bytes) \<Rightarrow>
          if blen h bytes > limit then Inl (ReviewLimit ''file bytes or type'') else Inr bytes)"

definition read_json ::
    "('b, 'z) hashing_scheme \<Rightarrow> ('b \<Rightarrow> string + 't) \<Rightarrow> 'b ArtifactStore \<Rightarrow> digest \<Rightarrow> ReviewError + 't" where
  "read_json h decode st x =
     and_then (read_regular h st x (16 * 1024 * 1024)) (\<lambda>bytes.
     if sha h bytes \<noteq> x then Inl Corrupt else map_err (\<lambda>_. Corrupt) (decode bytes))"

definition manifest_identity :: "ReviewManifest \<Rightarrow> source_identity" where
  "manifest_identity m =
     (1, rm_range m, rm_base_revision m, rm_head_revision m, rm_before m, rm_after m, rm_patch m)"

definition review_manifest ::
    "('b, 'z) hashing_scheme \<Rightarrow> ('b, 'y) review_codec_scheme \<Rightarrow> 'b ArtifactStore \<Rightarrow> digest \<Rightarrow>
     ReviewError + ReviewManifest" where
  "review_manifest h r st x =
     and_then (read_json h (dec_manifest r) st x) (\<lambda>m.
     if rm_version m \<noteq> 1 then Inl Corrupt else
     and_then (map_err (\<lambda>_. Corrupt) (of_value (enc_identity r) (sha h) (manifest_identity m))) (\<lambda>identity.
     if rm_source_identity m \<noteq> identity then Inl Corrupt else Inr m))"

datatype ReviewSide = Before | After

definition frozen_mode :: "FileKind \<Rightarrow> u32 \<Rightarrow> bool" where
  "frozen_mode kind mode =
     (case kind of
        DirectoryKind \<Rightarrow> mode = 0x4000
      | FileKind \<Rightarrow> mode = 0x81A4 \<or> mode = 0x81ED
      | SymlinkKind \<Rightarrow> mode = 0xA000
      | GitlinkKind \<Rightarrow> mode = 0xE000)"

definition frozen_entry_ok :: "string \<times> FrozenFile \<Rightarrow> bool" where
  "frozen_entry_ok entry \<longleftrightarrow>
     safe_path (fst entry) \<and> frozen_mode (ff_kind (snd entry)) (ff_mode (snd entry))
     \<and> \<not> (case ff_permissions (snd entry) of None \<Rightarrow> False | Some mode \<Rightarrow> mode > 0xFFF)
     \<and> ff_bytes (snd entry) \<le> 64 * 1024 * 1024"

definition add_frozen :: "u64 \<Rightarrow> string \<times> FrozenFile \<Rightarrow> ReviewError + u64" where
  "add_frozen n entry =
     (if \<not> frozen_entry_ok entry then Inl Corrupt else
      let m = saturating_add n (ff_bytes (snd entry)) in
      if m > 256 * 1024 * 1024 then Inl Corrupt else Inr m)"

definition frozen_tree ::
    "('b, 'z) hashing_scheme \<Rightarrow> ('b, 'y) review_codec_scheme \<Rightarrow> 'b ArtifactStore \<Rightarrow> digest \<Rightarrow> ReviewSide \<Rightarrow>
     ReviewError + FrozenTree" where
  "frozen_tree h r st x side =
     and_then (review_manifest h r st x) (\<lambda>m.
     and_then (read_json h (dec_tree r) st (case side of Before \<Rightarrow> rm_before m | After \<Rightarrow> rm_after m)) (\<lambda>tree.
     if ft_version tree \<noteq> 1 \<or> length (ft_files tree) > 100000 then Inl Corrupt else
     and_then (try_fold add_frozen 0 (ft_files tree)) (\<lambda>_. Inr tree)))"

definition review_file ::
    "('b, 'z) hashing_scheme \<Rightarrow> ('b, 'y) review_codec_scheme \<Rightarrow> 'b ArtifactStore \<Rightarrow> digest \<Rightarrow> ReviewSide \<Rightarrow>
     string \<Rightarrow> ReviewError + FrozenFile option" where
  "review_file h r st x side path =
     (if \<not> safe_path path then Inl ReviewPath else
      and_then (frozen_tree h r st x side) (\<lambda>tree. Inr (bt_get (ft_files tree) path)))"

record ReviewFilePage =
  rp_files :: "(string \<times> FrozenFile) list"
  rp_total :: nat
  rp_next_offset :: "nat option"

definition review_page ::
    "('b, 'z) hashing_scheme \<Rightarrow> ('b, 'y) review_codec_scheme \<Rightarrow> 'b ArtifactStore \<Rightarrow> digest \<Rightarrow> ReviewSide \<Rightarrow>
     nat \<Rightarrow> nat \<Rightarrow> ReviewError + ReviewFilePage" where
  "review_page h r st x side offset limit =
     (if limit = 0 \<or> limit > 128 then Inl ReviewLimitsError else
      and_then (frozen_tree h r st x side) (\<lambda>tree.
      let n = length (ft_files tree) in
      if offset > n then Inl ReviewRangeError else
      let files = take limit (drop offset (ft_files tree)); following = offset + length files in
      Inr \<lparr>rp_files = files, rp_total = n, rp_next_offset = (if following < n then Some following else None)\<rparr>))"

section \<open>Feedback\<close>

definition feedback_read ::
    "('b, 'z) hashing_scheme \<Rightarrow> ('b, 'y) review_codec_scheme \<Rightarrow> 'b ArtifactStore \<Rightarrow> digest \<Rightarrow>
     StoreError + ReviewFeedback" where
  "feedback_read h r st x =
     and_then (map_err StoreArtifact (read_artifact h st x)) (\<lambda>bytes.
     if blen h bytes > 68 * 1024 then Inl (Invalid ''review feedback exceeds its bound'') else
     and_then (map_err StoreJson (dec_feedback r bytes)) (\<lambda>feedback.
     if rf_version feedback \<noteq> 1 \<or> length (rf_body feedback) > 64 * 1024
     then Inl (Invalid ''unsupported review feedback'') else
     and_then (map_err (\<lambda>_. Integrity ''review feedback has no valid source manifest'')
         (review_manifest h r st (rf_manifest feedback))) (\<lambda>m.
     if rm_source_identity m \<noteq> rf_source_identity feedback
     then Inl (Integrity ''review feedback source identity mismatch'') else Inr feedback)))"

section \<open>Pages\<close>

text \<open>Reading a tree page by page, each page from the offset the last one named.\<close>

fun all_pages ::
    "('b, 'z) hashing_scheme \<Rightarrow> ('b, 'y) review_codec_scheme \<Rightarrow> 'b ArtifactStore \<Rightarrow> digest \<Rightarrow> ReviewSide \<Rightarrow>
     nat \<Rightarrow> nat \<Rightarrow> nat \<Rightarrow> ReviewError + (string \<times> FrozenFile) list" where
  "all_pages h r st x side limit 0 offset = Inr []"
| "all_pages h r st x side limit (Suc fuel) offset =
     and_then (review_page h r st x side offset limit) (\<lambda>page.
     case rp_next_offset page of
       None \<Rightarrow> Inr (rp_files page)
     | Some following \<Rightarrow>
         and_then (all_pages h r st x side limit fuel following) (\<lambda>rest. Inr (rp_files page @ rest)))"

lemma all_pages_drop:
  assumes "frozen_tree h r st x side = Inr tree" and "0 < limit" and "limit \<le> 128"
    and "offset \<le> length (ft_files tree)" and "length (ft_files tree) - offset < fuel"
  shows "all_pages h r st x side limit fuel offset = Inr (drop offset (ft_files tree))"
  using assms(4,5)
proof (induction fuel arbitrary: offset)
  case 0
  then show ?case by simp
next
  case (Suc fuel)
  let ?n = "length (ft_files tree)"
  let ?following = "offset + min limit (?n - offset)"
  have "drop offset (ft_files tree) = take limit (drop offset (ft_files tree)) @ drop ?following (ft_files tree)"
    using append_take_drop_id [of limit "drop offset (ft_files tree)"]
    by (cases "limit \<le> ?n - offset") (simp_all add: min_def add.commute)
  moreover have "all_pages h r st x side limit fuel ?following = Inr (drop ?following (ft_files tree))" if "?following < ?n"
    by (rule Suc.IH) (use Suc.prems that assms(2) in auto)
  ultimately show ?case
    using Suc.prems assms(2,3) by (auto simp: review_page_def assms(1) Let_def min_def)
qed

text \<open>The files of one tree sum to at most 256 MiB, and no step of the sum is saturated.\<close>

lemma frozen_sum:
  assumes "try_fold add_frozen n files = Inr m"
  shows "list_all frozen_entry_ok files \<and> unat m = unat n + sum_list (map (\<lambda>f. unat (ff_bytes (snd f))) files)"
  using assms
proof (induction files arbitrary: n)
  case Nil
  then show ?case by simp
next
  case (Cons e files)
  let ?s = "saturating_add n (ff_bytes (snd e))"
  have step: "frozen_entry_ok e" "?s \<le> 256 * 1024 * 1024" "try_fold add_frozen ?s files = Inr m"
    using Cons.prems by (auto simp: add_frozen_def [of n e] Let_def result_simps not_less split: if_splits)
  have "\<not> (- 1 :: u64) \<le> 268435456"
    by (simp add: word_le_nat_alt unsigned_minus_1_eq_mask mask_eq_exp_minus_1)
  with step(2) have "unat ?s = unat n + unat (ff_bytes (snd e))"
    by (auto simp: saturating_add_def unat_word_ariths split: if_splits)
  with Cons.IH [OF step(3)] step(1) show ?case by simp
qed

end
