(* ===== verification/Inputs.thy ===== *)
theory Inputs
  imports Reviews
begin

text \<open>
  User input (\<^verbatim>\<open>input.rs\<close>): content parts are checked and normalised, media is stored as artifacts, and the one
  user message is stored under its digest. The base64 decoder, the JSON encoder and the parser of one part
  are arguments; \<open>raw\<close> lists the bytes of a byte string.
\<close>

datatype Content =
    ReviewContent digest
  | TextContent string
  | ImageContent string string

record 'b input_codec = "'b review_codec" +
  from_value :: "json \<Rightarrow> string + Content"
  base64_decode :: "string \<Rightarrow> 'b option"
  raw :: "'b \<Rightarrow> u8 list"
  enc_messages :: "json list \<Rightarrow> string + 'b"

section \<open>Parts\<close>

record preparation =
  pp_text :: string
  pp_normalized :: "json list"
  pp_media_bytes :: nat
  pp_images :: nat
  pp_review_bytes :: nat

definition preparation_start :: preparation where
  "preparation_start = \<lparr>pp_text = '''', pp_normalized = [], pp_media_bytes = 0, pp_images = 0, pp_review_bytes = 0\<rparr>"

definition review_part :: "digest \<Rightarrow> json" where
  "review_part x = JObject [(''digest'', JString (digest_to_string x)), (''type'', JString ''tact_review'')]"

definition text_part :: "string \<Rightarrow> json" where
  "text_part t = JObject [(''text'', JString t), (''type'', JString ''input_text'')]"

definition image_part :: "digest \<Rightarrow> string \<Rightarrow> string \<Rightarrow> json" where
  "image_part x mime detail =
     JObject [(''detail'', JString detail), (''digest'', JString (digest_to_string x)), (''mime'', JString mime),
       (''type'', JString ''tact_image'')]"

definition split_once :: "char \<Rightarrow> string \<Rightarrow> (string \<times> string) option" where
  "split_once c s =
     (let before = takeWhile (\<lambda>x. x \<noteq> c) s in
      if before = s then None else Some (before, drop (length before + 1) s))"

definition without_prefix :: "string \<Rightarrow> string \<Rightarrow> string option" where
  "without_prefix prefix s = (if take (length prefix) s = prefix then Some (drop (length prefix) s) else None)"

definition without_suffix :: "string \<Rightarrow> string \<Rightarrow> string option" where
  "without_suffix suffix s =
     (if length suffix \<le> length s \<and> drop (length s - length suffix) s = suffix
      then Some (take (length s - length suffix) s) else None)"

definition has_bytes :: "nat list \<Rightarrow> u8 list \<Rightarrow> bool" where
  "has_bytes signature bytes \<longleftrightarrow> take (length signature) bytes = map of_nat signature"

definition signature_ok :: "string \<Rightarrow> u8 list \<Rightarrow> bool" where
  "signature_ok mime bytes =
     (if mime = ''image/png'' then has_bytes [0x89, 0x50, 0x4E, 0x47, 0x0D, 0x0A, 0x1A, 0x0A] bytes
      else if mime = ''image/jpeg'' then has_bytes [0xFF, 0xD8, 0xFF] bytes
      else if mime = ''image/gif'' then
        has_bytes [0x47, 0x49, 0x46, 0x38, 0x37, 0x61] bytes \<or> has_bytes [0x47, 0x49, 0x46, 0x38, 0x39, 0x61] bytes
      else if mime = ''image/webp'' then
        has_bytes [0x52, 0x49, 0x46, 0x46] bytes \<and> 12 \<le> length bytes \<and>
        has_bytes [0x57, 0x45, 0x42, 0x50] (drop 8 bytes)
      else False)"

definition prepare_review ::
    "('b, 'z) hashing_scheme \<Rightarrow> ('b, 'y) input_codec_scheme \<Rightarrow> digest \<Rightarrow> preparation \<times> 'b ArtifactStore \<Rightarrow>
     StoreError + preparation \<times> 'b ArtifactStore" where
  "prepare_review h i x ps =
     (let (p, st) = ps in
      and_then (feedback_read h i st x) (\<lambda>feedback.
      let review = pp_review_bytes p + length (rf_body feedback) in
      if review + length (pp_text p) > 128 * 1024
      then Inl (Invalid ''input text and review attachments exceed 128 KiB'')
      else Inr (p\<lparr>pp_review_bytes := review, pp_normalized := pp_normalized p @ [review_part x]\<rparr>, st)))"

definition prepare_text ::
    "string \<Rightarrow> preparation \<times> 'b ArtifactStore \<Rightarrow> StoreError + preparation \<times> 'b ArtifactStore" where
  "prepare_text part ps =
     (let (p, st) = ps; txt = pp_text p @ part in
      if length txt + pp_review_bytes p > 128 * 1024 then Inl (Invalid ''input text exceeds 128 KiB'')
      else Inr (p\<lparr>pp_text := txt, pp_normalized := pp_normalized p @ [text_part part]\<rparr>, st))"

definition prepare_image ::
    "('b, 'z) hashing_scheme \<Rightarrow> ('b, 'y) input_codec_scheme \<Rightarrow> string \<Rightarrow> string \<Rightarrow> preparation \<times> 'b ArtifactStore \<Rightarrow>
     StoreError + preparation \<times> 'b ArtifactStore" where
  "prepare_image h i image_url detail ps =
     (let (p, st) = ps in
      if detail \<notin> {''auto'', ''low'', ''high''} then Inl (Invalid ''unsupported image detail'')
      else if pp_images p + 1 > 8 \<or> length image_url > 12 * 1024 * 1024
      then Inl (Invalid ''image input exceeds its bounds'') else
      and_then (ok_or (split_once (CHR '','') image_url) (Invalid ''image input must be an embedded data URL''))
        (\<lambda>(header, encoded).
      and_then (ok_or (Option.bind (without_prefix ''data:'' header) (without_suffix '';base64''))
          (Invalid ''image input must be base64 data'')) (\<lambda>mime.
      and_then (ok_or (base64_decode i encoded) (Invalid ''invalid image encoding'')) (\<lambda>bytes.
      let media = pp_media_bytes p + blen h bytes in
      if media > 4 * 1024 * 1024 then Inl (Invalid ''combined images exceed 4 MiB; resize before submission'')
      else if \<not> signature_ok mime (raw i bytes) then Inl (Invalid ''unsupported image media type or signature'') else
      and_then (map_err StoreArtifact (put_artifact h st bytes)) (\<lambda>(x, st').
      Inr (p\<lparr>pp_images := pp_images p + 1, pp_media_bytes := media,
             pp_normalized := pp_normalized p @ [image_part x mime detail]\<rparr>, st'))))))"

definition prepare_part ::
    "('b, 'z) hashing_scheme \<Rightarrow> ('b, 'y) input_codec_scheme \<Rightarrow> preparation \<times> 'b ArtifactStore \<Rightarrow> Content \<Rightarrow>
     StoreError + preparation \<times> 'b ArtifactStore" where
  "prepare_part h i ps part =
     (case part of
        ReviewContent x \<Rightarrow> prepare_review h i x ps
      | TextContent t \<Rightarrow> prepare_text t ps
      | ImageContent image_url detail \<Rightarrow> prepare_image h i image_url detail ps)"

definition parse_parts :: "('b, 'y) input_codec_scheme \<Rightarrow> json list \<Rightarrow> StoreError + Content list" where
  "parse_parts i content =
     try_fold (\<lambda>parts v. and_then (map_err StoreJson (from_value i v)) (\<lambda>part. Inr (parts @ [part]))) [] content"

definition user_message :: "json list \<Rightarrow> json" where
  "user_message parts = JObject [(''content'', JArray parts), (''role'', JString ''user'')]"

definition prepare_input ::
    "('b, 'z) hashing_scheme \<Rightarrow> ('b, 'y) input_codec_scheme \<Rightarrow> json list \<Rightarrow> 'b ArtifactStore \<Rightarrow>
     StoreError + PreparedInput \<times> 'b ArtifactStore" where
  "prepare_input h i content st =
     (if content = [] \<or> length content > 64 then Inl (Invalid ''input requires 1..64 ordered content parts'') else
      and_then (parse_parts i content) (\<lambda>parts.
      and_then (try_fold (prepare_part h i) (preparation_start, st) parts) (\<lambda>(p, st1).
      let messages = [user_message (pp_normalized p)] in
      and_then (map_err StoreJson (enc_messages i messages)) (\<lambda>bytes.
      and_then (map_err StoreArtifact (put_artifact h st1 bytes)) (\<lambda>(artifact, st2).
      Inr (\<lparr>pi_text = pp_text p, pi_messages = messages, pi_artifact = artifact\<rparr>, st2))))))"

section \<open>Prepared input can be loaded\<close>

text \<open>The parts written so far carry the accumulated text, and their artifacts are in the store.\<close>

definition part_text :: "json \<Rightarrow> string option" where
  "part_text part = as_str (json_index part ''text'')"

definition preparation_ok :: "preparation \<Rightarrow> bool" where
  "preparation_ok p \<longleftrightarrow>
     pp_text p = concat (List.map_filter part_text (pp_normalized p)) \<and>
     (\<forall>part \<in> set (pp_normalized p).
        as_str (json_index part ''type'') \<in> {Some ''input_text'', Some ''tact_image'', Some ''tact_review''}) \<and>
     length (pp_text p) + pp_review_bytes p \<le> 128 * 1024 \<and> pp_images p \<le> 8 \<and> pp_media_bytes p \<le> 4 * 1024 * 1024"

lemma part_fields:
  "json_index (text_part t) ''type'' = JString ''input_text''" "part_text (text_part t) = Some t"
  "json_index (review_part x) ''type'' = JString ''tact_review''" "part_text (review_part x) = None"
  "json_index (image_part x m e) ''type'' = JString ''tact_image''" "part_text (image_part x m e) = None"
  by (simp_all add: json_index_def part_text_def text_part_def review_part_def image_part_def as_str_def)

lemma prepare_part_ok:
  assumes "prepare_part h i (p, st) part = Inr (p', st')" and "preparation_ok p"
  shows "preparation_ok p' \<and> length (pp_normalized p') = Suc (length (pp_normalized p))"
proof (cases part)
  case (ReviewContent x)
  with assms show ?thesis
    by (auto simp: prepare_part_def prepare_review_def Let_def result_simps preparation_ok_def part_fields
        List.map_filter_def as_str_def split: if_splits)
next
  case (TextContent t)
  with assms show ?thesis
    by (auto simp: prepare_part_def prepare_text_def preparation_ok_def part_fields List.map_filter_def as_str_def
        split: if_splits)
next
  case (ImageContent image_url detail)
  with assms(1) obtain bytes x mime where "pp_images p + 1 \<le> 8"
    and "pp_media_bytes p + blen h bytes \<le> 4 * 1024 * 1024"
    and "p' = p\<lparr>pp_images := pp_images p + 1, pp_media_bytes := pp_media_bytes p + blen h bytes,
      pp_normalized := pp_normalized p @ [image_part x mime detail]\<rparr>"
    by (auto simp: prepare_part_def prepare_image_def Let_def and_then_Inr_iff not_less split: if_splits)
  with assms(2) show ?thesis
    by (auto simp: preparation_ok_def part_fields List.map_filter_def as_str_def)
qed

lemma prepare_parts_ok:
  assumes "try_fold (prepare_part h i) (p, st) parts = Inr (p', st')" and "preparation_ok p"
  shows "preparation_ok p' \<and> length (pp_normalized p') = length (pp_normalized p) + length parts"
  using assms
proof (induction parts arbitrary: p st)
  case Nil
  then show ?case by simp
next
  case (Cons part parts)
  then obtain p1 st1 where one: "prepare_part h i (p, st) part = Inr (p1, st1)"
    and rest: "try_fold (prepare_part h i) (p1, st1) parts = Inr (p', st')"
    by (auto simp: result_simps)
  show ?case
    using Cons.IH [OF rest] prepare_part_ok [OF one Cons.prems(2)] by simp
qed

lemma parse_parts_length:
  assumes "parse_parts i content = Inr parts"
  shows "length parts = length content"
proof -
  have "length parts = length before + length content"
    if "try_fold (\<lambda>parts v. and_then (map_err StoreJson (from_value i v)) (\<lambda>part. Inr (parts @ [part]))) before content =
      Inr parts" for before
    using that
  proof (induction content arbitrary: before)
    case Nil
    then show ?case by simp
  next
    case (Cons v content)
    then obtain part where "try_fold (\<lambda>parts v. and_then (map_err StoreJson (from_value i v))
        (\<lambda>part. Inr (parts @ [part]))) (before @ [part]) content = Inr parts"
      by (auto simp: result_simps)
    from Cons.IH [OF this] show ?case by simp
  qed
  from this [of "[]"] assms show ?thesis
    by (simp add: parse_parts_def)
qed

lemma user_message_fields:
  "json_index (user_message parts) ''role'' = JString ''user''"
  "json_index (user_message parts) ''content'' = JArray parts"
  by (simp_all add: user_message_def json_index_def)

lemma load_prepared:
  assumes "read_artifact c st x = Inr bytes" and "dec_messages c bytes = Inr [user_message (pp_normalized p)]"
    and "preparation_ok p" and "pp_normalized p \<noteq> []"
  shows "load_input c st x = Inr \<lparr>pi_text = pp_text p, pi_messages = [user_message (pp_normalized p)], pi_artifact = x\<rparr>"
proof -
  have "part_text = (\<lambda>part. as_str (json_index part ''text''))"
    by (simp add: fun_eq_iff part_text_def)
  with assms show ?thesis
    by (auto simp: load_input_def user_message_fields as_array_def preparation_ok_def list_ex_iff)
qed

text \<open>
  C33: Input that was accepted can be loaded again from the artifact its identity names, with the same message
  and the same text; the message has one part for each part of the input, at most 64, and at most 128 KiB of
  text. The JSON encoding must decode to what was encoded, and the hash must not collide on it.
\<close>

theorem prepared_input_loads:
  assumes run: "prepare_input c i content st = Inr (p, st')"
    and codec: "\<And>messages bytes. enc_messages i messages = Inr bytes \<Longrightarrow> dec_messages c bytes = Inr messages"
    and collision: "\<And>bytes other. enc_messages i (pi_messages p) = Inr bytes \<Longrightarrow> sha c other = sha c bytes \<Longrightarrow> other = bytes"
  shows "load_input c st' (pi_artifact p) = Inr p \<and> length (pi_text p) \<le> 128 * 1024 \<and>
    (\<exists>parts. json_index (hd (pi_messages p)) ''content'' = JArray parts \<and>
      length parts = length content \<and> parts \<noteq> [] \<and> length parts \<le> 64)"
proof -
  obtain parts q st1 bytes artifact where parts: "content \<noteq> []" "length content \<le> 64" "parse_parts i content = Inr parts"
    and fold: "try_fold (prepare_part c i) (preparation_start, st) parts = Inr (q, st1)"
    and bytes: "enc_messages i [user_message (pp_normalized q)] = Inr bytes"
    and put: "put_artifact c st1 bytes = Inr (artifact, st')"
    and p: "p = \<lparr>pi_text = pp_text q, pi_messages = [user_message (pp_normalized q)], pi_artifact = artifact\<rparr>"
    using run by (auto simp: prepare_input_def result_simps Let_def not_less split: if_splits)
  have "preparation_ok preparation_start"
    by (simp add: preparation_ok_def preparation_start_def List.map_filter_def)
  then have q: "preparation_ok q" "length (pp_normalized q) = length content"
    using prepare_parts_ok [OF fold] parse_parts_length [OF parts(3)] by (simp_all add: preparation_start_def)
  have some: "pp_normalized q \<noteq> []"
    using q(2) parts(1) by auto
  have "length (pp_text q) \<le> 128 * 1024"
    using q(1) unfolding preparation_ok_def by linarith
  have "read_artifact c st' artifact = Inr bytes"
    by (rule artifacts.keep_round_trip [OF put]) (use collision [OF _] bytes in \<open>simp add: p\<close>)
  then have "load_input c st' artifact = Inr p"
    using load_prepared [OF _ codec [OF bytes] q(1) some] by (simp add: p)
  with \<open>length (pp_text q) \<le> _\<close> show ?thesis
    using q(2) some parts(2) by (simp add: p user_message_fields)
qed

end
