(* ===== verification/Intake_Invariant.thy ===== *)
theory Intake_Invariant
  imports Event_Intake
begin

text \<open>
  The invariant of the intake tables: every row decodes to the record it indexes, keys are unique, at most 128
  events are unsettled, and an interval source has at most one unsettled event. The step relation has one rule for
  each way the host changes the tables; a saved event is one that was read, changed in its receipt fields.
\<close>

definition intake_codec_ok :: "('b, 'y) intake_codec_scheme \<Rightarrow> bool" where
  "intake_codec_ok x \<longleftrightarrow>
     (\<forall>s b. enc_source x s = Inr b \<longrightarrow> dec_source x b = Inr s) \<and>
     (\<forall>e b. enc_intake x e = Inr b \<longrightarrow> dec_intake x b = Inr e)"

definition saved_from :: "EventRecord \<Rightarrow> EventRecord \<Rightarrow> bool" where
  "saved_from e e' \<longleftrightarrow>
     (\<exists>cancel receipt final err.
        e' = e\<lparr>er_cancel_requested := cancel, er_submission := receipt, er_settled := final, er_error := err\<rparr> \<and>
        (er_settled e \<longrightarrow> final))"

inductive intake_step ::
    "('b, 'z) context_codec_scheme \<Rightarrow> ('b, 'y) intake_codec_scheme \<Rightarrow> 'b intake_db \<Rightarrow> 'b intake_db \<Rightarrow> bool"
  for c :: "('b, 'z) context_codec_scheme" and x :: "('b, 'y) intake_codec_scheme" where
  register: "register_event_source c x config authority d = Inr (s, d') \<Longrightarrow> intake_step c x d d'"
| admission: "find_event_source x d i = Inr (Some s) \<Longrightarrow> record_event_source_admission x s err d = Inr d' \<Longrightarrow>
    intake_step c x d d'"
| disable: "disable_event_source x i d = Inr (s, d') \<Longrightarrow> intake_step c x d d'"
| receive: "receive_event c x i key payload now (st, d) = Inr (e, st', d') \<Longrightarrow> intake_step c x d d'"
| tick: "tick_event_source c x i now (st, d) = Inr (fired, st', d') \<Longrightarrow> intake_step c x d d'"
| save: "event x d i key = Inr (Some e) \<Longrightarrow> saved_from e e' \<Longrightarrow> save_event x e' d = Inr d' \<Longrightarrow> intake_step c x d d'"

definition empty_intake :: "'b intake_db" where
  "empty_intake = \<lparr>in_sources = [], in_events = []\<rparr>"

inductive intake_reachable ::
    "('b, 'z) context_codec_scheme \<Rightarrow> ('b, 'y) intake_codec_scheme \<Rightarrow> 'b intake_db \<Rightarrow> bool"
  for c :: "('b, 'z) context_codec_scheme" and x :: "('b, 'y) intake_codec_scheme" where
  start: "intake_reachable c x empty_intake"
| step: "intake_reachable c x d \<Longrightarrow> intake_step c x d d' \<Longrightarrow> intake_reachable c x d'"

section \<open>The invariant\<close>

definition source_wf :: "SourceRecord \<Rightarrow> bool" where
  "source_wf s \<longleftrightarrow>
     (case ev_trigger (so_config s) of Webhook \<Rightarrow> True | Interval _ ms \<Rightarrow> 1000 \<le> ms \<and> so_next_due_ms s \<noteq> None)"

definition source_row_ok :: "('b, 'y) intake_codec_scheme \<Rightarrow> 'b source_row \<Rightarrow> SourceRecord \<Rightarrow> bool" where
  "source_row_ok x r s \<longleftrightarrow>
     dec_source x (sw_record r) = Inr s \<and> ev_id (so_config s) = sw_id r \<and> so_disabled s = sw_disabled r \<and> source_wf s"

definition intake_row_ok :: "('b, 'y) intake_codec_scheme \<Rightarrow> 'b intake_row \<Rightarrow> EventRecord \<Rightarrow> bool" where
  "intake_row_ok x r e \<longleftrightarrow>
     dec_intake x (iw_record r) = Inr e \<and> er_request e = iw_request r \<and> er_source e = iw_source r \<and>
     er_key e = iw_key r \<and> er_settled e = iw_settled r"

definition sources_inv :: "('b, 'y) intake_codec_scheme \<Rightarrow> 'b intake_db \<Rightarrow> bool" where
  "sources_inv x d \<longleftrightarrow>
     distinct (map sw_id (in_sources d)) \<and> (\<forall>r \<in> set (in_sources d). \<exists>s. source_row_ok x r s)"

definition events_inv :: "('b, 'y) intake_codec_scheme \<Rightarrow> 'b intake_db \<Rightarrow> bool" where
  "events_inv x d \<longleftrightarrow>
     distinct (map iw_request (in_events d)) \<and> distinct (map (\<lambda>r. (iw_source r, iw_key r)) (in_events d)) \<and>
     (\<forall>r \<in> set (in_events d). \<exists>e. intake_row_ok x r e)"

definition open_events :: "uuid \<Rightarrow> 'b intake_db \<Rightarrow> 'b intake_row list" where
  "open_events i d = filter (\<lambda>r. iw_source r = i) (unsettled d)"

definition single_tick :: "('b, 'y) intake_codec_scheme \<Rightarrow> 'b intake_db \<Rightarrow> bool" where
  "single_tick x d \<longleftrightarrow>
     (\<forall>i s. find_event_source x d i = Inr (Some s) \<longrightarrow> ev_trigger (so_config s) \<noteq> Webhook \<longrightarrow>
        length (open_events i d) \<le> 1)"

definition intake_inv :: "('b, 'y) intake_codec_scheme \<Rightarrow> 'b intake_db \<Rightarrow> bool" where
  "intake_inv x d \<longleftrightarrow>
     sources_inv x d \<and> events_inv x d \<and> (\<forall>r \<in> set (in_events d). iw_source r \<in> sw_id ` set (in_sources d)) \<and>
     length (unsettled d) \<le> 128 \<and> single_tick x d"

section \<open>Finding rows\<close>

lemma find_distinct:
  assumes "distinct (map f xs)" and "y \<in> set xs"
  shows "List.find (\<lambda>z. f z = f y) xs = Some y"
  using assms by (induction xs) (auto simp: rev_image_eqI)

lemma find_key:
  "List.find (\<lambda>z. f z = k) xs = Some y \<Longrightarrow> y \<in> set xs \<and> f y = k"
  by (auto simp: find_Some_iff)

lemma source_found:
  assumes "find_event_source x d i = Inr (Some s)" and "sources_inv x d"
  obtains r where "r \<in> set (in_sources d)" and "sw_id r = i" and "source_row_ok x r s"
proof -
  from assms(1) obtain r where r: "List.find (\<lambda>r. sw_id r = i) (in_sources d) = Some r"
      "dec_source x (sw_record r) = Inr s"
    by (auto simp: find_event_source_def result_simps split: option.splits)
  note row = find_key [OF r(1)]
  from assms(2) row obtain s' where "source_row_ok x r s'"
    unfolding sources_inv_def by blast
  with r(2) row that show thesis
    by (auto simp: source_row_ok_def)
qed

lemma source_of_row:
  assumes "sources_inv x d" and "r \<in> set (in_sources d)" and "dec_source x (sw_record r) = Inr s"
  shows "find_event_source x d (sw_id r) = Inr (Some s)"
  using find_distinct [of sw_id "in_sources d" r] assms by (simp add: find_event_source_def sources_inv_def)

lemma event_found:
  assumes "event x d i key = Inr (Some e)" and "events_inv x d"
  obtains r where "r \<in> set (in_events d)" and "iw_source r = i" and "iw_key r = key" and "intake_row_ok x r e"
proof -
  from assms(1) obtain r where r: "List.find (intake_event_row i key) (in_events d) = Some r" "dec_intake x (iw_record r) = Inr e"
    by (auto simp: event_def result_simps split: option.splits)
  then have row: "r \<in> set (in_events d)" "iw_source r = i" "iw_key r = key"
    by (auto simp: find_Some_iff intake_event_row_def)
  from assms(2) row(1) obtain e' where "intake_row_ok x r e'"
    unfolding events_inv_def by blast
  with r(2) row that show thesis
    by (auto simp: intake_row_ok_def)
qed

lemma event_of_row:
  assumes "events_inv x d" and "r \<in> set (in_events d)" and "dec_intake x (iw_record r) = Inr e"
  shows "event x d (iw_source r) (iw_key r) = Inr (Some e)"
proof -
  have row: "intake_event_row (iw_source r) (iw_key r) = (\<lambda>z. (iw_source z, iw_key z) = (iw_source r, iw_key r))"
    by (auto simp: intake_event_row_def fun_eq_iff)
  have "distinct (map (\<lambda>r. (iw_source r, iw_key r)) (in_events d))"
    using assms(1) by (simp add: events_inv_def)
  from find_distinct [OF this assms(2)]
  have "List.find (intake_event_row (iw_source r) (iw_key r)) (in_events d) = Some r"
    unfolding row .
  then show ?thesis
    using assms(3) by (simp add: event_def)
qed

section \<open>Changes of the tables\<close>

lemma update_source_inv:
  assumes inv: "intake_inv x d" and codec: "intake_codec_ok x" and old: "find_event_source x d i = Inr (Some s)"
    and run: "update_source x i s' f d = Inr d'" and config: "so_config s' = so_config s" and wf: "source_wf s'"
    and f: "\<And>r. sw_id (f r) = sw_id r \<and> sw_record (f r) = sw_record r"
    and flag: "\<And>r. sw_disabled r = so_disabled s \<Longrightarrow> sw_disabled (f r) = so_disabled s'"
  shows "intake_inv x d'"
proof -
  let ?up = "\<lambda>bytes r. if sw_id r = i then f (r\<lparr>sw_record := bytes\<rparr>) else r"
  from run obtain bytes where bytes: "enc_source x s' = Inr bytes"
    and d': "d' = d\<lparr>in_sources := map (?up bytes) (in_sources d)\<rparr>"
    by (auto simp: update_source_def result_simps)
  have dec: "dec_source x bytes = Inr s'"
    using codec bytes unfolding intake_codec_ok_def by blast
  have ids: "map sw_id (in_sources d') = map sw_id (in_sources d)"
    by (auto simp: d' f)
  have sources: "sources_inv x d"
    using inv by (simp add: intake_inv_def)
  obtain r0 where r0: "r0 \<in> set (in_sources d)" "sw_id r0 = i" "source_row_ok x r0 s"
    by (rule source_found [OF old sources])
  have row: "source_row_ok x (?up bytes r) (if sw_id r = i then s' else t)"
    if r: "r \<in> set (in_sources d)" "source_row_ok x r t" for r t
  proof (cases "sw_id r = i")
    case True
    then have "r = r0"
      using sources r(1) r0 by (auto simp: sources_inv_def distinct_map dest: inj_onD)
    then show ?thesis
      using r0 dec config wf f flag [of "r0\<lparr>sw_record := bytes\<rparr>"] by (simp add: source_row_ok_def)
  qed (use r in simp)
  have sources': "sources_inv x d'"
    unfolding sources_inv_def
  proof
    show "distinct (map sw_id (in_sources d'))"
      using sources by (simp only: ids sources_inv_def)
    show "\<forall>r \<in> set (in_sources d'). \<exists>t. source_row_ok x r t"
    proof
      fix r'
      assume "r' \<in> set (in_sources d')"
      then obtain r where r: "r \<in> set (in_sources d)" "r' = ?up bytes r"
        by (auto simp: d')
      from sources r(1) obtain t where "source_row_ok x r t"
        unfolding sources_inv_def by blast
      from row [OF r(1) this] r(2) show "\<exists>t. source_row_ok x r' t"
        by blast
    qed
  qed
  have "ev_trigger (so_config t') = ev_trigger (so_config t)"
    if found': "find_event_source x d' j = Inr (Some t')" and found: "find_event_source x d j = Inr (Some t)" for j t t'
  proof -
    obtain r where r: "r \<in> set (in_sources d)" "sw_id r = j" "source_row_ok x r t"
      by (rule source_found [OF found sources])
    have "find_event_source x d' (sw_id (?up bytes r)) = Inr (Some (if sw_id r = i then s' else t))"
      using source_of_row [OF sources', of "?up bytes r"] r(1) row [OF r(1,3)] by (auto simp: d' source_row_ok_def)
    moreover have "sw_id (?up bytes r) = j"
      using r(2) f by simp
    ultimately show ?thesis
      using found found' old r(2) config by (auto split: if_splits)
  qed
  moreover have "\<exists>t. find_event_source x d j = Inr (Some t)" if found': "find_event_source x d' j = Inr (Some t')" for j t'
  proof -
    obtain r' where r': "r' \<in> set (in_sources d')" "sw_id r' = j"
      by (rule source_found [OF found' sources'])
    then obtain r where r: "r \<in> set (in_sources d)" "sw_id r = j"
      using f by (auto simp: d' split: if_splits)
    with sources obtain t where "source_row_ok x r t"
      unfolding sources_inv_def by blast
    with source_of_row [OF sources r(1)] r(2) show ?thesis
      by (auto simp: source_row_ok_def)
  qed
  moreover have "open_events j d' = open_events j d" for j
    by (simp add: open_events_def unsettled_def d')
  ultimately have "single_tick x d'"
    using inv unfolding intake_inv_def single_tick_def by metis
  moreover have "sw_id ` set (in_sources d') = sw_id ` set (in_sources d)"
    using arg_cong [OF ids, of set] by simp
  ultimately show ?thesis
    using inv sources' by (simp add: intake_inv_def events_inv_def d' unsettled_def)
qed

lemma insert_intake_inv:
  assumes inv: "intake_inv x d" and codec: "intake_codec_ok x" and run: "insert_intake x e d = Inr d'"
    and fresh: "\<not> er_settled e" and room: "length (unsettled d) < 128"
    and free: "\<And>s. find_event_source x d (er_source e) = Inr (Some s) \<Longrightarrow> ev_trigger (so_config s) \<noteq> Webhook \<Longrightarrow>
      open_events (er_source e) d = []"
  shows "intake_inv x d'"
proof -
  from run obtain bytes where bytes: "enc_intake x e = Inr bytes"
    and new: "\<forall>r \<in> set (in_events d). iw_request r \<noteq> er_request e \<and> (iw_source r, iw_key r) \<noteq> (er_source e, er_key e)"
    and known: "er_source e \<in> sw_id ` set (in_sources d)"
    and d': "d' = d\<lparr>in_events := in_events d @ [\<lparr>iw_request = er_request e, iw_source = er_source e, iw_key = er_key e,
      iw_record = bytes, iw_settled = False\<rparr>]\<rparr>"
    by (auto simp: insert_intake_def result_simps intake_event_row_def list_ex_iff image_iff split: if_splits) metis
  have "dec_intake x bytes = Inr e"
    using codec bytes unfolding intake_codec_ok_def by blast
  then have "events_inv x d'"
    using inv new fresh by (auto simp: intake_inv_def events_inv_def d' intake_row_ok_def)
  moreover have "find_event_source x d' i = find_event_source x d i" for i
    by (simp add: find_event_source_def d')
  moreover have "length (open_events i d') = (if i = er_source e then Suc (length (open_events i d)) else length (open_events i d))" for i
    by (simp add: open_events_def unsettled_def d')
  ultimately have "single_tick x d'" and "events_inv x d'"
    using inv free unfolding intake_inv_def single_tick_def by fastforce+
  moreover have "sources_inv x d'" "length (unsettled d') = Suc (length (unsettled d))"
    using inv by (simp_all add: intake_inv_def sources_inv_def d' unsettled_def)
  ultimately show ?thesis
    using inv room known by (auto simp: intake_inv_def d')
qed

lemma saved_from_fields:
  "saved_from e e' \<Longrightarrow> er_request e' = er_request e \<and> er_source e' = er_source e \<and> er_key e' = er_key e \<and>
     er_input e' = er_input e \<and> er_payload_digest e' = er_payload_digest e \<and> er_session e' = er_session e \<and>
     (er_settled e \<longrightarrow> er_settled e')"
  by (auto simp: saved_from_def)

text \<open>Saving replaces exactly the row that was read.\<close>

lemma save_event_row:
  assumes inv: "events_inv x d" and read: "event x d i key = Inr (Some e)" and saved: "saved_from e e'"
    and run: "save_event x e' d = Inr d'"
  obtains bytes r0 where "r0 \<in> set (in_events d)" and "intake_row_ok x r0 e" and "enc_intake x e' = Inr bytes"
    and "in_events d' = map (\<lambda>r. if r = r0 then r\<lparr>iw_record := bytes, iw_settled := er_settled e'\<rparr> else r) (in_events d)"
    and "in_sources d' = in_sources d"
proof -
  from run obtain bytes where bytes: "enc_intake x e' = Inr bytes"
    and d': "d' = d\<lparr>in_events := map (\<lambda>r. if iw_request r = er_request e'
        then r\<lparr>iw_record := bytes, iw_settled := er_settled e'\<rparr> else r) (in_events d)\<rparr>"
    by (auto simp: save_event_def result_simps)
  obtain r0 where r0: "r0 \<in> set (in_events d)" "intake_row_ok x r0 e"
    by (rule event_found [OF read inv])
  have "iw_request r = er_request e' \<longleftrightarrow> r = r0" if "r \<in> set (in_events d)" for r
    using inv that r0 saved_from_fields [OF saved]
    by (auto simp: events_inv_def intake_row_ok_def distinct_map dest: inj_onD)
  then have "in_events d' = map (\<lambda>r. if r = r0 then r\<lparr>iw_record := bytes, iw_settled := er_settled e'\<rparr> else r) (in_events d)"
    by (auto simp: d' intro!: map_cong)
  with that r0 bytes show thesis
    by (simp add: d')
qed

lemma filter_map_length:
  assumes "\<And>r. r \<in> set rows \<Longrightarrow> Q (g r) \<Longrightarrow> Q r"
  shows "length (filter Q (map g rows)) \<le> length (filter Q rows)"
  using assms by (induction rows) auto

lemma save_event_inv:
  assumes inv: "intake_inv x d" and codec: "intake_codec_ok x" and read: "event x d i key = Inr (Some e)"
    and saved: "saved_from e e'" and run: "save_event x e' d = Inr d'"
  shows "intake_inv x d'"
proof -
  have ev: "events_inv x d"
    using inv by (simp add: intake_inv_def)
  obtain bytes r0 where r0: "r0 \<in> set (in_events d)" "intake_row_ok x r0 e" and bytes: "enc_intake x e' = Inr bytes"
    and rows: "in_events d' = map (\<lambda>r. if r = r0 then r\<lparr>iw_record := bytes, iw_settled := er_settled e'\<rparr> else r) (in_events d)"
    and sources: "in_sources d' = in_sources d"
    by (rule save_event_row [OF ev read saved run])
  let ?g = "\<lambda>r. if r = r0 then r\<lparr>iw_record := bytes, iw_settled := er_settled e'\<rparr> else r"
  note fields = saved_from_fields [OF saved]
  have dec: "dec_intake x bytes = Inr e'"
    using codec bytes unfolding intake_codec_ok_def by blast
  have keys: "map iw_request (in_events d') = map iw_request (in_events d)"
      "map (\<lambda>r. (iw_source r, iw_key r)) (in_events d') = map (\<lambda>r. (iw_source r, iw_key r)) (in_events d)"
    by (auto simp: rows)
  have each: "\<exists>t. intake_row_ok x (?g r) t" if "r \<in> set (in_events d)" for r
    using ev that r0 dec fields unfolding events_inv_def by (auto simp: intake_row_ok_def)
  have "\<forall>r \<in> set (in_events d'). \<exists>t. intake_row_ok x r t"
  proof
    fix r'
    assume "r' \<in> set (in_events d')"
    then obtain r where "r \<in> set (in_events d)" "r' = ?g r"
      unfolding rows by auto
    with each show "\<exists>t. intake_row_ok x r' t" by blast
  qed
  moreover have "distinct (map iw_request (in_events d'))" "distinct (map (\<lambda>r. (iw_source r, iw_key r)) (in_events d'))"
    unfolding keys using ev by (simp_all add: events_inv_def)
  ultimately have ev': "events_inv x d'"
    by (simp add: events_inv_def)
  have keep: "\<not> iw_settled (?g r) \<Longrightarrow> \<not> iw_settled r" "iw_source (?g r) = iw_source r" for r
    using r0(2) fields by (auto simp: intake_row_ok_def split: if_splits)
  have "length (unsettled d') \<le> length (unsettled d)"
    unfolding unsettled_def rows by (rule filter_map_length) (use keep in blast)
  moreover have "length (open_events j d') \<le> length (open_events j d)" for j
    unfolding unsettled_def open_events_def rows filter_filter by (rule filter_map_length) (use keep in metis)
  moreover have "find_event_source x d' j = find_event_source x d j" for j
    by (simp add: find_event_source_def sources)
  moreover have "iw_source r \<in> sw_id ` set (in_sources d')" if "r \<in> set (in_events d')" for r
  proof -
    have "iw_source r \<in> iw_source ` set (in_events d)"
      using that keep(2) unfolding rows by auto
    then show ?thesis
      using inv by (auto simp: intake_inv_def sources)
  qed
  ultimately show ?thesis
    using inv sources ev' unfolding intake_inv_def single_tick_def sources_inv_def
    by (metis (no_types, lifting) order_trans)
qed

section \<open>Steps keep the invariant\<close>

lemma config_validate_interval:
  assumes "config_validate h x config = Inr ()" and "ev_trigger config = Interval first_ms ms"
  shows "1000 \<le> ms"
  using assms by (auto simp: config_validate_def result_simps not_less split: if_splits)

lemma find_append:
  "List.find P (xs @ ys) = (case List.find P xs of None \<Rightarrow> List.find P ys | Some y \<Rightarrow> Some y)"
  by (induction xs) auto

lemma source_absent: "find_event_source x d i = Inr None \<Longrightarrow> i \<notin> sw_id ` set (in_sources d)"
  by (auto simp: find_event_source_def result_simps find_None_iff split: option.splits)

lemma register_inv:
  assumes inv: "intake_inv x d" and codec: "intake_codec_ok x"
    and run: "register_event_source c x config authority d = Inr (s, d')"
  shows "intake_inv x d'"
proof (cases "d' = d")
  case True
  then show ?thesis using inv by simp
next
  case False
  let ?s = "\<lparr>so_config = config, so_authority = authority, so_disabled = False,
    so_next_due_ms = first_due (ev_trigger config), so_last_key = None, so_admission_error = None\<rparr>"
  from run False obtain bytes where valid: "config_validate c x config = Inr ()"
    and none: "find_event_source x d (ev_id config) = Inr None" and bytes: "enc_source x ?s = Inr bytes"
    and d': "d' = d\<lparr>in_sources := in_sources d @ [\<lparr>sw_id = ev_id config, sw_record = bytes, sw_disabled = False\<rparr>]\<rparr>"
    by (auto simp: register_event_source_def result_simps Let_def split: option.splits if_splits)
  have dec: "dec_source x bytes = Inr ?s"
    using codec bytes unfolding intake_codec_ok_def by blast
  have "source_wf ?s"
    using config_validate_interval [OF valid] by (auto simp: source_wf_def first_due_def split: TriggerKind.splits)
  then have row: "source_row_ok x \<lparr>sw_id = ev_id config, sw_record = bytes, sw_disabled = False\<rparr> ?s"
    by (simp add: source_row_ok_def dec)
  have sources: "sources_inv x d'"
    using inv row source_absent [OF none] by (auto simp: intake_inv_def sources_inv_def d')
  have idle: "open_events (ev_id config) d' = []"
    using inv source_absent [OF none]
    by (simp add: open_events_def unsettled_def d' intake_inv_def filter_empty_conv) metis
  have "length (open_events i d') \<le> 1"
    if found: "find_event_source x d' i = Inr (Some t)" and t: "ev_trigger (so_config t) \<noteq> Webhook" for i t
  proof (cases "i = ev_id config")
    case True
    with idle show ?thesis by simp
  next
    case False
    then have "find_event_source x d i = Inr (Some t)"
      using found by (simp add: find_event_source_def d' find_append split: option.splits)
    with inv t show ?thesis
      by (simp add: intake_inv_def single_tick_def open_events_def unsettled_def d')
  qed
  then have "single_tick x d'"
    by (simp add: single_tick_def)
  with inv sources show ?thesis
    by (simp add: intake_inv_def events_inv_def unsettled_def d')
qed

lemma insert_intake_event_inv:
  assumes inv: "intake_inv x d" and codec: "intake_codec_ok x"
    and run: "insert_intake_event c x s key payload now (st, d) = Inr (e, st', d')"
    and source: "find_event_source x d (ev_id (so_config s)) = Inr (Some s)"
    and free: "ev_trigger (so_config s) \<noteq> Webhook \<Longrightarrow> open_events (ev_id (so_config s)) d = []"
  shows "intake_inv x d'"
proof (cases "d' = d")
  case True
  then show ?thesis using inv by simp
next
  case False
  from run False obtain input where room: "length (unsettled d) < 128"
    and put: "insert_intake x (new_event c s key (text_digest c payload) input now) d = Inr d'"
    by (auto simp: insert_intake_event_def result_simps Let_def MAX_PENDING_EVENTS_def not_le split: option.splits if_splits)
  show ?thesis
    by (rule insert_intake_inv [OF inv codec put]) (use room source free in \<open>auto simp: new_event_def\<close>)
qed

lemma event_source_found: "event_source x d i = Inr s \<Longrightarrow> find_event_source x d i = Inr (Some s)"
  by (auto simp: event_source_def result_simps)

lemma receive_inv:
  assumes inv: "intake_inv x d" and codec: "intake_codec_ok x"
    and run: "receive_event c x i key payload now (st, d) = Inr (e, st', d')"
  shows "intake_inv x d'"
proof -
  from run obtain s where s: "event_source x d i = Inr s" "ev_trigger (so_config s) = Webhook"
    and ins: "insert_intake_event c x s key payload now (st, d) = Inr (e, st', d')"
    by (auto simp: receive_event_def result_simps split: if_splits)
  note found = event_source_found [OF s(1)]
  have "ev_id (so_config s) = i"
    by (rule source_found [OF found]) (use inv in \<open>auto simp: intake_inv_def source_row_ok_def\<close>)
  then show ?thesis
    using insert_intake_event_inv [OF inv codec ins] found s(2) by simp
qed

lemma source_busy_iff: "source_busy i d \<longleftrightarrow> open_events i d \<noteq> []"
  by (auto simp: source_busy_def open_events_def unsettled_def list_ex_iff filter_empty_conv)

text \<open>A tick that fires: the parts of the transaction.\<close>

lemma tick_fires:
  assumes "tick_event_source c x i now (st, d) = Inr (fired, st', d')" and "d' \<noteq> d \<or> fired \<noteq> None"
  obtains s first_ms ms next_ms latest following occurrences payload e d1 where "event_source x d i = Inr s"
    and "\<not> so_disabled s" and "ev_trigger (so_config s) = Interval first_ms ms" and "\<not> source_busy i d"
    and "so_next_due_ms s = Some next_ms" and "latest_due next_ms ms now = Some (latest, following, occurrences)"
    and "insert_intake_event c x s (''interval:'' @ u64_text c latest) payload now (st, d) = Inr (e, st', d1)"
    and "update_source x i (s\<lparr>so_next_due_ms := Some following, so_last_key := Some (er_key e)\<rparr>) id d1 = Inr d'"
    and "fired = Some e"
  using assms
  by (auto simp: tick_event_source_def result_simps Let_def split: if_splits TriggerKind.splits option.splits)

lemma insert_intake_event_sources:
  "insert_intake_event c x s key payload now (st, d) = Inr (e, st', d') \<Longrightarrow> in_sources d' = in_sources d"
  by (auto simp: insert_intake_event_def insert_intake_def result_simps Let_def split: option.splits if_splits)

lemma tick_inv:
  assumes inv: "intake_inv x d" and codec: "intake_codec_ok x"
    and run: "tick_event_source c x i now (st, d) = Inr (fired, st', d')"
  shows "intake_inv x d'"
proof (cases "d' = d")
  case True
  then show ?thesis using inv by simp
next
  case False
  then have changed: "d' \<noteq> d \<or> fired \<noteq> None" by simp
  obtain s first_ms ms next_ms latest following occurrences payload e d1 where s: "event_source x d i = Inr s"
    and trigger: "ev_trigger (so_config s) = Interval first_ms ms" and idle: "\<not> source_busy i d"
    and ins: "insert_intake_event c x s (''interval:'' @ u64_text c latest) payload now (st, d) = Inr (e, st', d1)"
    and up: "update_source x i (s\<lparr>so_next_due_ms := Some following, so_last_key := Some (er_key e)\<rparr>) id d1 = Inr d'"
    by (rule tick_fires [OF run changed])
  note found = event_source_found [OF s]
  obtain r where r: "sw_id r = i" "source_row_ok x r s"
    by (rule source_found [OF found]) (use inv in \<open>auto simp: intake_inv_def\<close>)
  have inv1: "intake_inv x d1"
    by (rule insert_intake_event_inv [OF inv codec ins]) (use found r idle in \<open>auto simp: source_row_ok_def source_busy_iff\<close>)
  have "find_event_source x d1 i = Inr (Some s)"
    using found insert_intake_event_sources [OF ins] by (simp add: find_event_source_def)
  from update_source_inv [OF inv1 codec this up] r(2) trigger show ?thesis
    by (simp add: source_row_ok_def source_wf_def)
qed

lemma admission_inv:
  assumes inv: "intake_inv x d" and codec: "intake_codec_ok x" and found: "find_event_source x d i = Inr (Some s)"
    and run: "record_event_source_admission x s err d = Inr d'"
  shows "intake_inv x d'"
proof (cases "so_admission_error s = err")
  case True
  then show ?thesis using run inv by (simp add: record_event_source_admission_def)
next
  case False
  obtain r where r: "sw_id r = i" "source_row_ok x r s"
    by (rule source_found [OF found]) (use inv in \<open>auto simp: intake_inv_def\<close>)
  from run False have "update_source x i (s\<lparr>so_admission_error := err\<rparr>) id d = Inr d'"
    using r by (simp add: record_event_source_admission_def source_row_ok_def)
  from update_source_inv [OF inv codec found this] r(2) show ?thesis
    by (simp add: source_row_ok_def source_wf_def split: TriggerKind.splits)
qed

lemma disable_inv:
  assumes inv: "intake_inv x d" and codec: "intake_codec_ok x" and run: "disable_event_source x i d = Inr (s', d')"
  shows "intake_inv x d'"
proof -
  from run obtain s where s: "event_source x d i = Inr s"
    and up: "update_source x i (s\<lparr>so_disabled := True\<rparr>) (\<lambda>r. r\<lparr>sw_disabled := True\<rparr>) d = Inr d'"
    by (auto simp: disable_event_source_def result_simps Let_def)
  note found = event_source_found [OF s]
  obtain r where r: "source_row_ok x r s"
    by (rule source_found [OF found]) (use inv in \<open>auto simp: intake_inv_def\<close>)
  from update_source_inv [OF inv codec found up] r show ?thesis
    by (simp add: source_row_ok_def source_wf_def split: TriggerKind.splits)
qed

lemma intake_step_inv:
  assumes "intake_step c x d d'" and "intake_codec_ok x" and "intake_inv x d"
  shows "intake_inv x d'"
  using assms
  by (induction rule: intake_step.induct)
    (blast intro: register_inv admission_inv disable_inv receive_inv tick_inv save_event_inv)+

lemma empty_intake_inv: "intake_inv x empty_intake"
  by (simp add: empty_intake_def intake_inv_def sources_inv_def events_inv_def single_tick_def unsettled_def open_events_def)

lemma intake_reachable_inv: "intake_reachable c x d \<Longrightarrow> intake_codec_ok x \<Longrightarrow> intake_inv x d"
  by (induction rule: intake_reachable.induct) (blast intro: empty_intake_inv intake_step_inv)+

end
