(* ===== verification/Intake_Properties.thy ===== *)
theory Intake_Properties
  imports Intake_Invariant Session_Fixture Admission_Properties
begin

text \<open>What event intake promises: bounded tables, one request for each delivery, and exact due times.\<close>

section \<open>Events keep their identity\<close>

lemma saved_from_refl: "saved_from e e"
  by (rule saved_from_def [THEN iffD2])
    (intro exI [of _ "er_cancel_requested e"] exI [of _ "er_submission e"] exI [of _ "er_settled e"] exI [of _ "er_error e"], simp)

lemma saved_from_trans:
  assumes "saved_from a b" and "saved_from b e"
  shows "saved_from a e"
proof -
  from assms(1) obtain c1 r1 f1 x1 where b: "er_settled a \<longrightarrow> f1"
      "b = a\<lparr>er_cancel_requested := c1, er_submission := r1, er_settled := f1, er_error := x1\<rparr>"
    unfolding saved_from_def by blast
  from assms(2) obtain c2 r2 f2 x2 where "er_settled b \<longrightarrow> f2"
      "e = b\<lparr>er_cancel_requested := c2, er_submission := r2, er_settled := f2, er_error := x2\<rparr>"
    unfolding saved_from_def by blast
  with b have "er_settled a \<longrightarrow> f2"
      "e = a\<lparr>er_cancel_requested := c2, er_submission := r2, er_settled := f2, er_error := x2\<rparr>"
    by simp_all
  then show ?thesis
    unfolding saved_from_def by blast
qed

lemma same_rows_event: "in_events d' = in_events d \<Longrightarrow> event x d' i key = event x d i key"
  by (simp add: event_def)

lemma more_rows_event:
  assumes "in_events d' = in_events d @ rows" and "event x d i key = Inr (Some e)"
  shows "event x d' i key = Inr (Some e)"
  using assms by (auto simp: event_def find_append split: option.splits)

lemma insert_intake_event_rows:
  assumes "insert_intake_event c x s key payload now (st, d) = Inr (e, st', d')"
  shows "\<exists>rows. in_events d' = in_events d @ rows"
proof (cases "d' = d")
  case False
  with assms show ?thesis
    by (auto simp: insert_intake_event_def insert_intake_def result_simps Let_def split: option.splits if_splits)
qed simp

lemma update_source_rows: "update_source x i s f d = Inr d' \<Longrightarrow> in_events d' = in_events d"
  by (auto simp: update_source_def result_simps)

lemma step_rows:
  assumes "intake_step c x d d'"
  shows "(\<exists>rows. in_events d' = in_events d @ rows) \<or>
    (\<exists>i key e e'. event x d i key = Inr (Some e) \<and> saved_from e e' \<and> save_event x e' d = Inr d')"
  using assms
proof cases
  case (register config authority s)
  then show ?thesis
    by (auto simp: register_event_source_def result_simps Let_def split: option.splits if_splits)
next
  case (admission i s err)
  then show ?thesis
    by (auto simp: record_event_source_admission_def dest: update_source_rows split: if_splits)
next
  case (disable i s)
  then show ?thesis
    by (auto simp: disable_event_source_def result_simps Let_def dest: update_source_rows)
next
  case (receive i key payload now st e st')
  then show ?thesis
    by (auto simp: receive_event_def result_simps split: if_splits dest: insert_intake_event_rows)
next
  case (tick i now st fired st')
  show ?thesis
  proof (cases "d' = d")
    case False
    then have "d' \<noteq> d \<or> fired \<noteq> None" by simp
    then show ?thesis
      by (rule tick_fires [OF tick]) (metis insert_intake_event_rows update_source_rows)
  qed simp
next
  case (save i key e e')
  then show ?thesis by blast
qed

lemma step_event:
  assumes inv: "intake_inv x d" and codec: "intake_codec_ok x" and step: "intake_step c x d d'"
    and read: "event x d i key = Inr (Some e)"
  shows "\<exists>e'. event x d' i key = Inr (Some e') \<and> saved_from e e'"
  using step_rows [OF step]
proof (elim disjE exE conjE)
  fix rows
  assume "in_events d' = in_events d @ rows"
  from more_rows_event [OF this read] show ?thesis
    using saved_from_refl by blast
next
  fix j k a b
  assume a: "event x d j k = Inr (Some a)" and b: "saved_from a b" "save_event x b d = Inr d'"
  have ev: "events_inv x d" and ev': "events_inv x d'"
    using inv save_event_inv [OF inv codec a b] by (simp_all add: intake_inv_def)
  obtain bytes r0 where r0: "r0 \<in> set (in_events d)" "intake_row_ok x r0 a" and bytes: "enc_intake x b = Inr bytes"
    and rows: "in_events d' = map (\<lambda>r. if r = r0 then r\<lparr>iw_record := bytes, iw_settled := er_settled b\<rparr> else r) (in_events d)"
    by (rule save_event_row [OF ev a b])
  obtain r where r: "r \<in> set (in_events d)" "iw_source r = i" "iw_key r = key" "intake_row_ok x r e"
    by (rule event_found [OF read ev])
  let ?r = "if r = r0 then r\<lparr>iw_record := bytes, iw_settled := er_settled b\<rparr> else r"
  have dec: "dec_intake x bytes = Inr b"
    using codec bytes unfolding intake_codec_ok_def by blast
  have mem: "?r \<in> set (in_events d')"
    using r(1) unfolding rows by auto
  show ?thesis
  proof (cases "r = r0")
    case True
    with r(4) r0(2) have "e = a" by (simp add: intake_row_ok_def)
    with event_of_row [OF ev' mem, of b] True dec r b(1) show ?thesis by auto
  next
    case False
    with event_of_row [OF ev' mem, of e] r saved_from_refl show ?thesis by (auto simp: intake_row_ok_def)
  qed
qed

lemma steps_event:
  assumes "(intake_step c x)\<^sup>*\<^sup>* d d'" and "intake_inv x d" and "intake_codec_ok x" and "event x d i key = Inr (Some e)"
  shows "intake_inv x d' \<and> (\<exists>e'. event x d' i key = Inr (Some e') \<and> saved_from e e')"
  using assms(1)
proof (induction rule: rtranclp_induct)
  case base
  then show ?case using assms(2,4) saved_from_refl by blast
next
  case (step d1 d2)
  then show ?case
    using intake_step_inv [OF step.hyps(2) assms(3)] step_event [OF _ assms(3) step.hyps(2)] saved_from_trans by blast
qed

text \<open>
  C23: A delivery is deduplicated for good: once an event is stored under a source and a key, then after any further
  steps of the host it is still stored there with the same request identifier, input and payload, a settled event is
  still settled, a repeated delivery returns that event and changes nothing, and a delivery of another payload under
  the key is refused.
\<close>

theorem delivery_is_deduplicated:
  assumes "intake_codec_ok x" and "intake_reachable c x d" and "event x d i key = Inr (Some e)"
    and "(intake_step c x)\<^sup>*\<^sup>* d d'"
    and "validate_delivery key payload = Inr ()" and "event_source x d' i = Inr s" and "ev_trigger (so_config s) = Webhook"
  shows "\<exists>e'. event x d' i key = Inr (Some e') \<and>
    er_request e' = er_request e \<and> er_input e' = er_input e \<and> er_payload_digest e' = er_payload_digest e \<and>
    (er_settled e \<longrightarrow> er_settled e') \<and>
    receive_event c x i key payload now (st, d') =
      (if text_digest c payload = er_payload_digest e then Inr (e', st, d')
       else Inl (Invalid ''event key reused with a different payload''))"
proof -
  have "intake_inv x d"
    by (rule intake_reachable_inv [OF assms(2,1)])
  from steps_event [OF assms(4) this assms(1,3)] obtain e' where inv: "intake_inv x d'"
    and e': "event x d' i key = Inr (Some e')" "saved_from e e'"
    by blast
  have "ev_id (so_config s) = i"
    by (rule source_found [OF event_source_found [OF assms(6)]]) (use inv in \<open>auto simp: intake_inv_def source_row_ok_def\<close>)
  then have "receive_event c x i key payload now (st, d') =
      (if text_digest c payload = er_payload_digest e' then Inr (e', st, d')
       else Inl (Invalid ''event key reused with a different payload''))"
    using assms(5,6,7) e'(1) by (simp add: receive_event_def insert_intake_event_def)
  then show ?thesis
    using e'(1) saved_from_fields [OF e'(2)] by auto
qed

text \<open>
  C24: However the host drives its event sources, the intake stays bounded: at most 128 events are unsettled, an
  interval source has at most one unsettled event, requests and delivery keys are unique, and an interval source
  always has its durable cursor.
\<close>

theorem intake_is_bounded:
  assumes "intake_codec_ok x" and "intake_reachable c x d"
  shows "length (unsettled d) \<le> 128 \<and> distinct (map iw_request (in_events d)) \<and>
    distinct (map (\<lambda>r. (iw_source r, iw_key r)) (in_events d)) \<and>
    (\<forall>i s. event_source x d i = Inr s \<longrightarrow> ev_trigger (so_config s) \<noteq> Webhook \<longrightarrow>
       length (open_events i d) \<le> 1 \<and> so_next_due_ms s \<noteq> None)"
proof -
  have inv: "intake_inv x d"
    by (rule intake_reachable_inv [OF assms(2,1)])
  have "length (open_events i d) \<le> 1 \<and> so_next_due_ms s \<noteq> None"
    if s: "event_source x d i = Inr s" and t: "ev_trigger (so_config s) \<noteq> Webhook" for i s
  proof -
    note found = event_source_found [OF s]
    obtain r where "source_row_ok x r s"
      by (rule source_found [OF found]) (use inv in \<open>auto simp: intake_inv_def\<close>)
    then have "so_next_due_ms s \<noteq> None"
      using t by (cases "ev_trigger (so_config s)") (auto simp: source_row_ok_def source_wf_def)
    moreover have "length (open_events i d) \<le> 1"
      using inv found t unfolding intake_inv_def single_tick_def by blast
    ultimately show ?thesis by blast
  qed
  with inv show ?thesis
    by (simp add: intake_inv_def events_inv_def)
qed

section \<open>Due times\<close>

text \<open>
  C32: The due time of an interval is computed exactly: with an interval of at least 1000 ms, the latest due time is
  the last multiple of the interval after the cursor that has passed, the following one lies in the future, the count
  is the number of occurrences that were coalesced, and there is no result only before the cursor or when the
  following time is not representable. No intermediate value wraps around.
\<close>

theorem latest_due_is_exact:
  assumes "1000 \<le> interval"
  shows "case latest_due next_ms interval now of
      None \<Rightarrow> now < next_ms \<or>
        unat next_ms + ((unat now - unat next_ms) div unat interval) * unat interval + unat interval \<ge> 2 ^ 64
    | Some (latest, following, occurrences) \<Rightarrow>
        latest \<le> now \<and> now < following \<and> 1 \<le> occurrences \<and>
        unat latest = unat next_ms + (unat occurrences - 1) * unat interval \<and>
        unat following = unat latest + unat interval"
proof (cases "now < next_ms")
  case True
  then show ?thesis by (simp add: latest_due_def)
next
  case False
  then have le: "unat next_ms \<le> unat now"
    by (simp add: word_less_nat_alt)
  have i: "1000 \<le> unat interval"
    using assms by (simp add: word_le_nat_alt)
  define q where "q = (now - next_ms) div interval"
  define k where "k = (unat now - unat next_ms) div unat interval"
  have q: "unat q = k"
    using le by (simp add: q_def k_def unat_div unat_sub word_le_nat_alt)
  have k: "k * unat interval \<le> unat now - unat next_ms" "unat now - unat next_ms < k * unat interval + unat interval"
    using i div_mult_mod_eq [of "unat now - unat next_ms" "unat interval"]
      mod_less_divisor [of "unat interval" "unat now - unat next_ms"] unfolding k_def by linarith+
  have bound: "unat now < 2 ^ 64"
    using unsigned_less [of now] by simp
  have "k + 1 < 2 ^ 64"
  proof -
    have "k * 1000 \<le> k * unat interval" using i by simp
    moreover have "unat now < 18446744073709551616" using bound by simp
    ultimately have "k + 1 < 18446744073709551616" using k(1) by linarith
    then show ?thesis by simp
  qed
  then have count: "unat (q + 1) = k + 1"
    using q by (simp add: unat_word_ariths)
  have mul: "unat (q * interval) = k * unat interval"
    using k(1) bound by (simp add: unat_word_ariths q)
  have latest: "unat (next_ms + q * interval) = unat next_ms + k * unat interval"
    using k(1) bound le by (simp add: unat_word_ariths mul q)
  have eval: "latest_due next_ms interval now =
      (case checked_add (next_ms + q * interval) interval of None \<Rightarrow> None
       | Some following \<Rightarrow> Some (next_ms + q * interval, following, q + 1))"
    using False by (simp add: latest_due_def Let_def q_def split: option.split)
  show ?thesis
  proof (cases "unat next_ms + k * unat interval + unat interval < 2 ^ 64")
    case True
    then have sum: "unat (next_ms + q * interval + interval) = unat next_ms + k * unat interval + unat interval"
      using latest by (simp add: unat_word_ariths)
    have "checked_add (next_ms + q * interval) interval = Some (next_ms + q * interval + interval)"
      using True latest by (simp add: checked_add_def)
    moreover have "unat next_ms + k * unat interval \<le> unat now"
        "unat now < unat next_ms + k * unat interval + unat interval"
      using k le by linarith+
    ultimately show ?thesis
      using latest sum count by (simp add: eval word_le_nat_alt word_less_nat_alt)
  next
    case no: False
    then have "checked_add (next_ms + q * interval) interval = None"
      using latest by (simp add: checked_add_def)
    with no show ?thesis
      by (simp add: eval flip: k_def)
  qed
qed

theorem latest_due_is_exact_witness:
  "latest_due 1000 1000 1000999 = Some (1000000, 1001000, 1000) \<and> (1000000 :: u64) \<le> 1000999"
  using latest_due_is_exact [of 1000 1000 1000999] by (simp add: latest_due_def checked_add_def)

section \<open>A webhook source\<close>

definition ix_limits :: Limits where
  "ix_limits = \<lparr>l_model_calls = 8, l_tokens = 1000, l_elapsed_ms = 60000, l_concurrent_jobs = 1, l_artifact_bytes = 4096\<rparr>"

definition ix_config :: SourceConfig where
  "ix_config = \<lparr>ev_id = Uuid 1, ev_session = sx_id, ev_objective = ''review'', ev_policy = ax_policy,
     ev_limits = ix_limits, ev_trigger = Webhook\<rparr>"

definition ix_source :: SourceRecord where
  "ix_source = \<lparr>so_config = ix_config, so_authority = bytes32 1, so_disabled = False, so_next_due_ms = None,
     so_last_key = None, so_admission_error = None\<rparr>"

definition ix_event :: EventRecord where
  "ix_event = new_event session_wire_codec ix_source ''k'' (bytes32 4) (bytes32 40) 5"

abbreviation ix_done :: EventRecord where
  "ix_done \<equiv> ix_event\<lparr>er_settled := True\<rparr>"

text \<open>The encoder knows the three records that are written.\<close>

definition ix_codec :: "session_wire intake_codec" where
  "ix_codec = \<lparr>dec_manifest = (\<lambda>_. Inl ''manifest''), dec_tree = (\<lambda>_. Inl ''tree''), enc_identity = (\<lambda>_. Inl ''identity''),
     dec_feedback = (\<lambda>_. Inl ''feedback''), from_value = (\<lambda>_. Inr (TextContent ''t'')), base64_decode = (\<lambda>_. None),
     raw = (\<lambda>_. []), enc_messages = (\<lambda>_. Inr (TaskWire (WBlob (bytes32 40)))),
     enc_source_config = (\<lambda>_. Inr (TextWire ''config'')),
     enc_source = (\<lambda>s. if s = ix_source then Inr (TextWire ''s'') else Inl ''source''),
     dec_source = (\<lambda>b. if b = TextWire ''s'' then Inr ix_source else Inl ''source''),
     enc_intake = (\<lambda>e. if e = ix_event then Inr (TextWire ''e'') else if e = ix_done then Inr (TextWire ''f'') else Inl ''event''),
     dec_intake = (\<lambda>b. if b = TextWire ''e'' then Inr ix_event else if b = TextWire ''f'' then Inr ix_done else Inl ''event'')\<rparr>"

definition ix_store :: "session_wire ArtifactStore" where
  "ix_store = \<lparr>as_files = (\<lambda>p. case digest_from_str p of Inr d \<Rightarrow> Some (RegularFile (TaskWire (WBlob d))) | Inl _ \<Rightarrow> None),
     as_max = 100\<rparr>"

definition ix_registered :: "session_wire intake_db" where
  "ix_registered = \<lparr>in_sources = [\<lparr>sw_id = Uuid 1, sw_record = TextWire ''s'', sw_disabled = False\<rparr>], in_events = []\<rparr>"

definition ix_row :: "string \<Rightarrow> bool \<Rightarrow> session_wire intake_row" where
  "ix_row b final = \<lparr>iw_request = er_request ix_event, iw_source = Uuid 1, iw_key = ''k'', iw_record = TextWire b,
     iw_settled = final\<rparr>"

lemma ix_codec_ok: "intake_codec_ok ix_codec"
  by (auto simp: intake_codec_ok_def ix_codec_def split: if_splits)

lemma ix_event_fields:
  "er_source ix_event = Uuid 1" "er_key ix_event = ''k''" "er_settled ix_event = False" "er_payload_digest ix_event = bytes32 4"
  by (simp_all add: ix_event_def new_event_def ix_source_def ix_config_def)

lemma ix_limits_valid: "limits_validate ix_limits = Inr ()"
  by (simp add: limits_validate_def ix_limits_def)

lemma ix_register:
  "register_event_source session_wire_codec ix_codec ix_config (bytes32 1) empty_intake = Inr (ix_source, ix_registered)"
proof -
  have "\<not> blank ''review''"
    by code_simp
  then have "config_validate session_wire_codec ix_codec ix_config = Inr ()"
    by (simp del: blank.simps add: config_validate_def ix_config_def ax_policy_valid ix_limits_valid ix_codec_def session_wire_codec_def)
  then show ?thesis
    by (simp add: register_event_source_def find_event_source_def empty_intake_def ix_registered_def ix_source_def first_due_def
        ix_config_def ix_codec_def)
qed

lemma ix_found: "event_source ix_codec \<lparr>in_sources = in_sources ix_registered, in_events = rows\<rparr> (Uuid 1) = Inr ix_source"
  by (simp add: event_source_def find_event_source_def ix_registered_def ix_codec_def)

lemma ix_put:
  assumes "session_blen b \<le> 100"
  shows "put_artifact session_wire_codec ix_store b = Inr (session_sha b, ix_store)"
proof -
  have "\<exists>e. read_artifact session_wire_codec ix_store (session_sha b) = Inr e"
    using session_sha_ok [of b]
    by (simp add: read_artifact_def ix_store_def artifact_path_def digest_from_to_string session_wire_codec_def)
  moreover have "try_exists ix_store (session_sha b)"
    using session_sha_ok [of b] by (simp add: try_exists_def ix_store_def artifact_path_def digest_from_to_string)
  moreover have "sha session_wire_codec b = session_sha b" "blen session_wire_codec b = session_blen b" "as_max ix_store = 100"
    by (simp_all add: session_wire_codec_def ix_store_def)
  ultimately show ?thesis
    using assms by (auto simp: put_artifact_def put_racing_def)
qed

lemma ix_prepare:
  "\<exists>p. prepare_input session_wire_codec ix_codec [v] ix_store = Inr (p, ix_store) \<and> pi_artifact p = bytes32 40"
proof -
  have "put_artifact session_wire_codec ix_store (TaskWire (WBlob (bytes32 40))) = Inr (bytes32 40, ix_store)"
    by (simp add: ix_put)
  moreover have "from_value ix_codec v = Inr (TextContent ''t'')" "enc_messages ix_codec m = Inr (TaskWire (WBlob (bytes32 40)))" for m
    by (simp_all add: ix_codec_def)
  ultimately show ?thesis
    by (simp add: prepare_input_def parse_parts_def prepare_part_def prepare_text_def preparation_start_def)
qed

lemma ix_receive:
  "receive_event session_wire_codec ix_codec (Uuid 1) ''k'' ''load'' 5 (ix_store, ix_registered) =
    Inr (ix_event, ix_store, ix_registered\<lparr>in_events := [ix_row ''e'' False]\<rparr>)"
proof -
  have found: "event_source ix_codec ix_registered (Uuid 1) = Inr ix_source"
    using ix_found [of "[]"] by (simp add: ix_registered_def)
  have none: "event ix_codec ix_registered (Uuid 1) ''k'' = Inr None" "unsettled ix_registered = []"
    by (simp_all add: event_def unsettled_def ix_registered_def)
  have put: "put_artifact session_wire_codec ix_store (TextWire ''load'') = Inr (bytes32 4, ix_store)"
    by (simp add: ix_put)
  have wire: "text_digest session_wire_codec ''load'' = bytes32 4" "str_bytes session_wire_codec ''load'' = TextWire ''load''"
      "json_text session_wire_codec v = Inr ''json''" for v
    by (simp_all add: text_digest_def session_wire_codec_def)
  have insert': "insert_intake ix_codec ix_event ix_registered = Inr (ix_registered\<lparr>in_events := [ix_row ''e'' False]\<rparr>)"
    by (simp add: insert_intake_def ix_registered_def ix_event_fields ix_row_def) (simp add: ix_codec_def)
  have source: "ev_id (so_config ix_source) = Uuid 1" "so_disabled ix_source = False" "ev_trigger (so_config ix_source) = Webhook"
    by (simp_all add: ix_source_def ix_config_def)
  obtain p where p: "prepare_input session_wire_codec ix_codec [text_part (event_text (ev_objective (so_config ix_source))
      ''json'' ''load'')] ix_store = Inr (p, ix_store)" "pi_artifact p = bytes32 40"
    using ix_prepare by blast
  have "insert_intake_event session_wire_codec ix_codec ix_source ''k'' ''load'' 5 (ix_store, ix_registered) =
      Inr (ix_event, ix_store, ix_registered\<lparr>in_events := [ix_row ''e'' False]\<rparr>)"
    by (simp add: insert_intake_event_def none source put wire p MAX_PENDING_EVENTS_def insert' flip: ix_event_def)
  then show ?thesis
    by (simp add: receive_event_def validate_delivery_def MAX_PAYLOAD_BYTES_def found source)
qed

abbreviation ix_delivered :: "session_wire intake_db" where
  "ix_delivered \<equiv> ix_registered\<lparr>in_events := [ix_row ''e'' False]\<rparr>"

abbreviation ix_final :: "session_wire intake_db" where
  "ix_final \<equiv> ix_registered\<lparr>in_events := [ix_row ''f'' True]\<rparr>"

lemma ix_reachable: "intake_reachable session_wire_codec ix_codec ix_delivered"
  by (rule intake_reachable.step [OF intake_reachable.step [OF intake_reachable.start
        intake_step.register [OF ix_register]] intake_step.receive [OF ix_receive]])

lemma ix_read: "event ix_codec ix_delivered (Uuid 1) ''k'' = Inr (Some ix_event)"
  by (simp add: event_def intake_event_row_def ix_row_def) (simp add: ix_codec_def)

lemma ix_save: "save_event ix_codec ix_done ix_delivered = Inr ix_final"
  by (simp add: save_event_def ix_row_def)
    (auto simp: ix_codec_def dest: arg_cong [of _ _ er_settled] simp: ix_event_fields)

theorem delivery_is_deduplicated_witness:
  "\<exists>e'. event ix_codec ix_final (Uuid 1) ''k'' = Inr (Some e') \<and> er_request e' = er_request ix_event \<and>
    receive_event session_wire_codec ix_codec (Uuid 1) ''k'' ''load'' 9 (ix_store, ix_final) = Inr (e', ix_store, ix_final)"
proof -
  have "saved_from ix_event ix_done"
    unfolding saved_from_def
    by (intro exI [of _ "er_cancel_requested ix_event"] exI [of _ "er_submission ix_event"] exI [of _ True]
        exI [of _ "er_error ix_event"]) simp
  then have step: "(intake_step session_wire_codec ix_codec)\<^sup>*\<^sup>* ix_delivered ix_final"
    using intake_step.save [OF ix_read _ ix_save] by blast
  have valid: "validate_delivery ''k'' ''load'' = Inr ()"
    by (simp add: validate_delivery_def MAX_PAYLOAD_BYTES_def)
  have found: "event_source ix_codec ix_final (Uuid 1) = Inr ix_source"
    using ix_found [of "[ix_row ''f'' True]"] by (simp add: ix_registered_def)
  have "text_digest session_wire_codec ''load'' = er_payload_digest ix_event" "ev_trigger (so_config ix_source) = Webhook"
    by (simp_all add: text_digest_def session_wire_codec_def ix_event_fields ix_source_def ix_config_def)
  with delivery_is_deduplicated [OF ix_codec_ok ix_reachable ix_read step valid found, of 9 ix_store] show ?thesis
    by auto
qed

theorem intake_is_bounded_witness:
  "length (unsettled ix_delivered) \<le> 128 \<and> length (unsettled ix_delivered) = 1"
  using intake_is_bounded [OF ix_codec_ok ix_reachable] by (simp add: unsettled_def ix_row_def)

section \<open>An input that is loaded again\<close>

definition px_codec :: "session_wire context_codec" where
  "px_codec = session_wire_codec\<lparr>sha := (\<lambda>b. if b = TextWire ''hi'' then bytes32 50 else bytes32 0)\<rparr>"

definition px_input :: "session_wire intake_codec" where
  "px_input = ix_codec\<lparr>from_value := (\<lambda>_. Inr (TextContent ''hi'')),
     enc_messages := (\<lambda>m. if m = [text_message ''hi''] then Inr (TextWire ''hi'') else Inl ''json'')\<rparr>"

definition px_store :: "session_wire ArtifactStore" where
  "px_store = \<lparr>as_files = (\<lambda>_. None), as_max = 100\<rparr>"

theorem prepared_input_loads_witness:
  "\<exists>p st. prepare_input px_codec px_input [JNull] px_store = Inr (p, st) \<and> pi_text p = ''hi'' \<and>
    load_input px_codec st (pi_artifact p) = Inr p"
proof -
  let ?p = "\<lparr>pi_text = ''hi'', pi_messages = [text_message ''hi''], pi_artifact = bytes32 50\<rparr>"
  have sha: "sha px_codec b = (if b = TextWire ''hi'' then bytes32 50 else bytes32 0)" "blen px_codec b = session_blen b"
      "dec_messages px_codec b = (case b of TextWire t \<Rightarrow> Inr [text_message t] | _ \<Rightarrow> Inr [])" for b
    by (simp_all add: px_codec_def session_wire_codec_def)
  have input: "from_value px_input v = Inr (TextContent ''hi'')"
      "enc_messages px_input m = (if m = [text_message ''hi''] then Inr (TextWire ''hi'') else Inl ''json'')" for v m
    by (simp_all add: px_input_def)
  obtain st where put: "put_artifact px_codec px_store (TextWire ''hi'') = Inr (bytes32 50, st)"
    using put_artifact_total [of px_codec "TextWire ''hi''" px_store] by (auto simp: sha px_store_def)
  have "user_message [text_part ''hi''] = text_message ''hi''"
    by (simp add: user_message_def text_part_def text_message_def)
  then have run: "prepare_input px_codec px_input [JNull] px_store = Inr (?p, st)"
    by (simp add: prepare_input_def parse_parts_def prepare_part_def prepare_text_def preparation_start_def input put)
  have ne: "bytes32 50 \<noteq> bytes32 0"
    by (simp add: bytes32_def)
  have codec: "dec_messages px_codec bytes = Inr m" if "enc_messages px_input m = Inr bytes" for m bytes
    using that by (auto simp: input sha split: if_splits)
  have collision: "other = bytes" if "enc_messages px_input (pi_messages ?p) = Inr bytes" "sha px_codec other = sha px_codec bytes"
    for bytes other
    using that ne by (auto simp: input sha split: if_splits)
  have "load_input px_codec st (pi_artifact ?p) = Inr ?p"
    using prepared_input_loads [OF run codec collision] by blast
  with run show ?thesis by auto
qed

end
