(* ===== verification/Memory_Secrets.thy ===== *)
theory Memory_Secrets
  imports Utf8 Paths
begin

text \<open>
  The credential screen of the memory service (\<^verbatim>\<open>crates/memory/src/secrets.rs\<close>): the recognisers of
  private keys, authorization headers, credential URLs, prefixed tokens, JWTs and secret
  assignments, over the parts of \<open>str\<close> they use. Strings are lists of UTF-8 bytes; the recognisers
  look for ASCII patterns only, so a byte is a character wherever they classify one.
\<close>

section \<open>Searching and splitting\<close>

text \<open>A character with the property White\_Space, by its encoding.\<close>

definition is_whitespace :: "string \<Rightarrow> bool" where
  "is_whitespace ch =
     (case ch of [a] \<Rightarrow> ws1 a | [a, b] \<Rightarrow> ws2 a b | [a, b, c] \<Rightarrow> ws3 a b c | _ \<Rightarrow> False)"

text \<open>\<open>xs.split(p)\<close>: the segments between the elements that satisfy \<open>p\<close>, empty ones included.\<close>

fun split_where :: "('a \<Rightarrow> bool) \<Rightarrow> 'a list \<Rightarrow> 'a list list" where
  "split_where p [] = [[]]"
| "split_where p (x # xs) =
     (if p x then [] # split_where p xs
      else case split_where p xs of [] \<Rightarrow> [[x]] | seg # segs \<Rightarrow> (x # seg) # segs)"

definition split_whitespace :: "string \<Rightarrow> string list" where
  "split_whitespace s =
     map concat (filter (\<lambda>seg. seg \<noteq> []) (split_where is_whitespace (utf8_chars s)))"

definition trim_end :: "string \<Rightarrow> string" where
  "trim_end s = concat (rev (dropWhile is_whitespace (rev (utf8_chars s))))"

definition str_trim :: "string \<Rightarrow> string" where
  "str_trim s = trim_end (trim_start s)"

text \<open>\<open>str::lines\<close>: lines end at a line feed, which a carriage return may precede.\<close>

definition strip_cr :: "string \<Rightarrow> string" where
  "strip_cr l = (if l \<noteq> [] \<and> last l = CHR 0x0D then butlast l else l)"

definition str_lines :: "string \<Rightarrow> string list" where
  "str_lines s =
     (let ps = split_on (CHR 0x0A) s in
      map strip_cr (if last ps = [] then butlast ps else ps))"

definition ends_with :: "string \<Rightarrow> string \<Rightarrow> bool" where
  "ends_with s p = starts_with (rev s) (rev p)"

text \<open>
  \<open>s.match_indices(p)\<close>: the positions of the matches of a non-empty \<open>p\<close> from the left, each search
  starting after the previous match. \<open>skip\<close> counts the bytes of the last match still to pass.
\<close>

fun match_from :: "string \<Rightarrow> nat \<Rightarrow> nat \<Rightarrow> string \<Rightarrow> nat list" where
  "match_from p i skip [] = []"
| "match_from p i (Suc k) (c # s) = match_from p (Suc i) k s"
| "match_from p i 0 (c # s) =
     (if starts_with (c # s) p then i # match_from p (Suc i) (length p - 1) s
      else match_from p (Suc i) 0 s)"

definition match_indices :: "string \<Rightarrow> string \<Rightarrow> nat list" where
  "match_indices s p = match_from p 0 0 s"

text \<open>\<open>s.split_once(p)\<close> and \<open>s.rsplit_once(c)\<close>.\<close>

definition split_once_str :: "string \<Rightarrow> string \<Rightarrow> (string \<times> string) option" where
  "split_once_str s p =
     (case match_indices s p of
        [] \<Rightarrow> None
      | i # _ \<Rightarrow> Some (take i s, drop (i + length p) s))"

definition rsplit_once :: "string \<Rightarrow> char \<Rightarrow> (string \<times> string) option" where
  "rsplit_once s c =
     (case match_indices (rev s) [c] of
        [] \<Rightarrow> None
      | i # _ \<Rightarrow> Some (take (length s - i - 1) s, drop (length s - i) s))"

definition is_ascii_alphabetic :: "char \<Rightarrow> bool" where
  "is_ascii_alphabetic c = (is_ascii_alphanumeric c \<and> \<not> is_ascii_digit c)"

section \<open>The recognisers\<close>

definition SECRET_PREFIXES :: "string list" where
  "SECRET_PREFIXES =
     [''sk-'', ''sk_'', ''ghp_'', ''gho_'', ''ghu_'', ''ghs_'', ''github_pat_'', ''xoxb-'',
      ''xoxp-'', ''xoxa-'', ''xoxr-'', ''akia'']"

definition ASSIGNMENT_NAMES :: "string list" where
  "ASSIGNMENT_NAMES =
     [''password'', ''passwd'', ''secret'', ''token'', ''private_key'', ''private-key'',
      ''api_key'', ''api-key'', ''apikey'']"

definition contains_private_key :: "string \<Rightarrow> bool" where
  "contains_private_key content =
     list_ex (\<lambda>line.
       let line = str_trim line in
       starts_with line ''-----begin '' \<and> ends_with line ''private key-----'')
     (str_lines content)"

definition bearer_token_char :: "char \<Rightarrow> bool" where
  "bearer_token_char c = (is_ascii_alphanumeric c \<or> c \<in> set ''-_.~+/'')"

definition has_bearer_token :: "string \<Rightarrow> bool" where
  "has_bearer_token content =
     list_ex (\<lambda>index.
       let token = take 128 (takeWhile bearer_token_char (drop (index + 7) content)) in
       length token \<ge> 12 \<and> list_ex (\<lambda>c. \<not> is_ascii_alphabetic c) token)
     (match_indices content ''bearer '')"

definition contains_authorization :: "string \<Rightarrow> bool" where
  "contains_authorization content =
     list_ex (\<lambda>line.
       let line = trim_start line in
       starts_with line ''authorization:'' \<or> starts_with line ''authorization='' \<or>
       has_bearer_token line)
     (str_lines content)"

definition contains_credential_url :: "string \<Rightarrow> bool" where
  "contains_credential_url content =
     list_ex (\<lambda>word.
       case split_once_str word ''://'' of
         None \<Rightarrow> False
       | Some (_, remainder) \<Rightarrow>
           (let authority = takeWhile (\<lambda>c. c \<notin> set ''/?#'') remainder in
            case rsplit_once authority (CHR ''@'') of
              None \<Rightarrow> False
            | Some (credentials, _) \<Rightarrow>
                (case split_once_str credentials '':'' of
                   None \<Rightarrow> False
                 | Some (username, password) \<Rightarrow> username \<noteq> [] \<and> password \<noteq> [])))
     (split_whitespace content)"

definition contains_prefixed_secret :: "string \<Rightarrow> bool" where
  "contains_prefixed_secret content =
     list_ex (\<lambda>prefix.
       list_ex (\<lambda>index.
         if index > 0 \<and>
            (is_ascii_alphanumeric (content ! (index - 1)) \<or> content ! (index - 1) = CHR ''_'')
         then False
         else length (take 16 (takeWhile (\<lambda>c. is_ascii_alphanumeric c \<or> c \<in> set ''_-'')
                (drop (index + length prefix) content))) \<ge> 12)
       (match_indices content prefix))
     SECRET_PREFIXES"

definition is_base64_url_character :: "char \<Rightarrow> bool" where
  "is_base64_url_character c = (is_ascii_alphanumeric c \<or> c \<in> set ''-_'')"

definition jwt_char :: "char \<Rightarrow> bool" where
  "jwt_char c = (is_ascii_alphanumeric c \<or> c \<in> set ''-_.'')"

text \<open>\<open>word.trim_matches(..)\<close> strips on both sides the characters that are not in the alphabet.\<close>

definition trim_to_jwt :: "string \<Rightarrow> string" where
  "trim_to_jwt word =
     rev (dropWhile (\<lambda>c. \<not> jwt_char c) (rev (dropWhile (\<lambda>c. \<not> jwt_char c) word)))"

definition contains_jwt :: "string \<Rightarrow> bool" where
  "contains_jwt content =
     list_ex (\<lambda>word.
       case split_on (CHR ''.'') (trim_to_jwt word) of
         [header, payload, signature] \<Rightarrow>
           starts_with header ''eyJ'' \<and> length header \<ge> 8 \<and> length payload \<ge> 8 \<and>
           length signature \<ge> 8 \<and>
           list_all (list_all is_base64_url_character) [header, payload, signature]
       | _ \<Rightarrow> False)
     (split_whitespace content)"

definition assigned_value :: "string \<Rightarrow> string option" where
  "assigned_value remainder =
     (case remainder of
        [] \<Rightarrow> None
      | c # v \<Rightarrow> if c = CHR ''='' \<or> c = CHR '':'' then Some v else None)"

definition contains_secret_assignment :: "string \<Rightarrow> bool" where
  "contains_secret_assignment content =
     list_ex (\<lambda>name.
       list_ex (\<lambda>index.
         case assigned_value (trim_start (drop (index + length name) content)) of
           None \<Rightarrow> False
         | Some v \<Rightarrow> trim_start v \<noteq> [])
       (match_indices content name))
     ASSIGNMENT_NAMES"

definition contains_likely_secret :: "string \<Rightarrow> bool" where
  "contains_likely_secret content =
     (let lowercase = to_ascii_lowercase content in
      contains_private_key lowercase \<or> contains_authorization lowercase \<or>
      contains_credential_url content \<or> contains_prefixed_secret lowercase \<or>
      contains_jwt content \<or> contains_secret_assignment lowercase)"

section \<open>What the assignment recogniser finds\<close>

text \<open>
  A pattern no proper suffix of which is one of its prefixes cannot overlap itself, so the
  non-overlapping search finds every occurrence of it.
\<close>

definition borderless :: "string \<Rightarrow> bool" where
  "borderless p = (p \<noteq> [] \<and> list_all (\<lambda>k. take (length p - k) p \<noteq> drop k p) [1..<length p])"

lemma match_from_occurrence:
  assumes "borderless p"
  shows "skip \<le> length xs \<Longrightarrow> i + length xs \<in> set (match_from p i skip (xs @ p @ ys))"
proof (induction xs arbitrary: i skip)
  case Nil
  then show ?case
    using assms by (cases p) (auto simp: borderless_def starts_with_iff)
next
  case (Cons c xs)
  show ?case
  proof (cases skip)
    case (Suc k)
    with Cons.IH [of k "Suc i"] Cons.prems show ?thesis by simp
  next
    case 0
    show ?thesis
    proof (cases "starts_with (c # xs @ p @ ys) p")
      case False
      with 0 Cons.IH [of 0 "Suc i"] show ?thesis by simp
    next
      case True
      then obtain r where r: "c # xs @ p @ ys = p @ r"
        by (auto simp: starts_with_iff)
      let ?k = "Suc (length xs)"
      have "length p - 1 \<le> length xs"
      proof (rule ccontr)
        assume "\<not> length p - 1 \<le> length xs"
        then have less: "?k < length p" by simp
        from r have "drop ?k (c # xs @ p @ ys) = drop ?k (p @ r)" by simp
        then have "p @ ys = drop ?k p @ r"
          using less by simp
        then have "take (length p - ?k) p = drop ?k p"
          by (metis (no_types, lifting) append_eq_conv_conj diff_le_self length_drop take_append
              take_all_iff append_Nil2 diff_is_0_eq take_0)
        with assms less show False
          by (auto simp: borderless_def list_all_iff)
      qed
      from Cons.IH [OF this, of "Suc i"] True 0 show ?thesis by simp
    qed
  qed
qed

lemma match_indices_occurrence: "borderless p \<Longrightarrow> length xs \<in> set (match_indices (xs @ p @ ys) p)"
  using match_from_occurrence [of p 0 xs 0 ys] by (simp add: match_indices_def)

lemma assignment_names_borderless: "list_all borderless ASSIGNMENT_NAMES"
  by code_simp

definition lower_char :: "char \<Rightarrow> char" where
  "lower_char c = (if 65 \<le> byte_of c \<and> byte_of c \<le> 90 then char_of (byte_of c + 32) else c)"

lemma to_ascii_lowercase_map: "to_ascii_lowercase s = map lower_char s"
  by (simp add: to_ascii_lowercase_def lower_char_def)

lemma byte_of_lower_char:
  "byte_of (lower_char c) = (if 65 \<le> byte_of c \<and> byte_of c \<le> 90 then byte_of c + 32 else byte_of c)"
  by (simp add: lower_char_def byte_of_def)

lemma ws_lower_char [simp]:
  "ws1 (lower_char a) = ws1 a" "ws2 (lower_char a) (lower_char b) = ws2 a b"
  "ws3 (lower_char a) (lower_char b) (lower_char c) = ws3 a b c"
  by (auto simp: ws1_def ws2_def ws3_def byte_of_lower_char)

lemma trim_start_lower: "trim_start (map lower_char s) = map lower_char (trim_start s)"
  by (induction s rule: trim_start.induct) auto

lemma trim_start_sign: "c = CHR ''='' \<or> c = CHR '':'' \<Longrightarrow> trim_start (c # v) = c # v"
proof -
  assume "c = CHR ''='' \<or> c = CHR '':''"
  then have "byte_of c = 61 \<or> byte_of c = 58"
    by (auto simp: byte_of_def)
  then have w: "\<not> ws1 c" "\<not> ws2 c a" "\<not> ws3 c a b" for a b
    by (auto simp: ws1_def ws2_def ws3_def)
  show ?thesis
  proof (cases v)
    case (Cons a u)
    with w show ?thesis by (cases u) simp_all
  qed (simp add: w)
qed

text \<open>
  Text that assigns a value to a name such as password, token or api\_key is recognised as a likely
  secret, whatever the case of the name and whatever stands before it, also as the end of a longer name.
\<close>

theorem secret_assignment_is_recognised:
  assumes "to_ascii_lowercase name \<in> set ASSIGNMENT_NAMES" and "sign = CHR ''='' \<or> sign = CHR '':''"
    and "trim_start v \<noteq> []"
  shows "contains_likely_secret (before @ name @ [sign] @ v)"
proof -
  let ?lower = "to_ascii_lowercase (before @ name @ [sign] @ v)"
  have sign: "lower_char sign = sign"
    using assms(2) by (auto simp: lower_char_def byte_of_def)
  then have low: "?lower = map lower_char before @ to_ascii_lowercase name @ sign # map lower_char v"
    by (simp add: to_ascii_lowercase_map)
  have "borderless (to_ascii_lowercase name)"
    using assignment_names_borderless assms(1) by (simp add: list_all_iff)
  then have index: "length before \<in> set (match_indices ?lower (to_ascii_lowercase name))"
    unfolding low using match_indices_occurrence [of "to_ascii_lowercase name" "map lower_char before"] by simp
  have "assigned_value (trim_start (drop (length before + length (to_ascii_lowercase name)) ?lower)) =
      Some (map lower_char v)"
    unfolding low using assms(2) by (auto simp: trim_start_sign assigned_value_def)
  moreover have "trim_start (map lower_char v) \<noteq> []"
    using assms(3) by (simp add: trim_start_lower)
  ultimately have "contains_secret_assignment ?lower"
    using index assms(1) unfolding contains_secret_assignment_def list_ex_iff by force
  then show ?thesis
    by (simp add: contains_likely_secret_def Let_def)
qed

theorem secret_assignment_is_recognised_witness:
  "contains_likely_secret (''use DB_'' @ ''Password'' @ [CHR ''=''] @ '' hunter2'')"
  by (rule secret_assignment_is_recognised) code_simp+

end
