(* ===== verification/Memory_Model.thy ===== *)
theory Memory_Model
  imports Memory_Secrets
begin

text \<open>
  The data of the memory service: keys, provenance metadata, records, limits and errors
  (\<^verbatim>\<open>crates/memory/src/model.rs\<close>, \<^verbatim>\<open>evidence.rs\<close>, \<^verbatim>\<open>server/protocol.rs\<close>, the errors and content checks
  of \<^verbatim>\<open>store/mod.rs\<close>), the validation of metadata and records, the identities used for duplicate
  detection and the selection of lessons. The JSON encoder, SHA-256 and Unicode lower-casing are the
  fields of \<open>memory_env\<close>, an argument of the definitions that use them. An \<open>i64\<close> is an \<open>int\<close> with the
  bounds written out, a \<open>u64\<close> counter a word.
\<close>

section \<open>Keys, evidence and metadata\<close>

record MemoryKey =
  mk_id :: int
  mk_version :: u64
  mk_namespace :: "string option"

definition key_local :: "int \<Rightarrow> u64 \<Rightarrow> MemoryKey" where
  "key_local i v = \<lparr>mk_id = i, mk_version = v, mk_namespace = None\<rparr>"

definition key_remote :: "string \<Rightarrow> int \<Rightarrow> u64 \<Rightarrow> MemoryKey" where
  "key_remote ns i v = \<lparr>mk_id = i, mk_version = v, mk_namespace = Some ns\<rparr>"

definition is_local_key :: "MemoryKey \<Rightarrow> bool" where
  "is_local_key k = (mk_namespace k = None)"

datatype MemoryScope = LegacyUnscoped | GlobalScope | RepositoryScope string

datatype ProposalState = ProposalPending | ProposalProposed

record LineRange =
  lr_start :: u32
  lr_end :: u32

datatype SourceEvidence =
    FileEvidence (fe_repository: string) (fe_path: string) (fe_range: "LineRange option")
      (fe_checked_revision: string) (fe_content_digest: string)
  | ArtifactEvidence (ae_digest: string) (ae_source: string)

datatype MemoryKind = Unverified | Preference | Procedure | CodeClaim
  | LessonProposal SourceEvidence ProposalState

datatype MemoryOrigin = LegacyUnknown | UserOrigin | ModelOrigin

record TraceReference =
  tr_session :: string
  tr_request :: string
  tr_task :: string

record OwnershipReference =
  or_ownership_id :: string
  or_key :: MemoryKey

record MemoryMetadata =
  md_scope :: MemoryScope
  md_kind :: MemoryKind
  md_origin :: MemoryOrigin
  md_evidence :: "SourceEvidence list"
  md_producing_traces :: "TraceReference list"
  md_imported_from :: "MemoryKey list"
  md_ownership_id :: "string option"
  md_transferred_from :: "OwnershipReference list"
  md_pending_run :: "TraceReference option"
  md_historical_evidence :: "SourceEvidence list"

definition metadata_default :: MemoryMetadata where
  "metadata_default =
     \<lparr>md_scope = LegacyUnscoped, md_kind = Unverified, md_origin = LegacyUnknown, md_evidence = [],
      md_producing_traces = [], md_imported_from = [], md_ownership_id = None,
      md_transferred_from = [], md_pending_run = None, md_historical_evidence = []\<rparr>"

section \<open>Records, limits and errors\<close>

record MemoryRecord =
  mr_metadata :: MemoryMetadata
  mr_key :: MemoryKey
  mr_content :: string
  mr_created_at_ms :: int
  mr_updated_at_ms :: int
  mr_last_scanned_at_ms :: "int option"
  mr_scan_count :: u64
  mr_last_used_at_ms :: "int option"
  mr_use_count :: u64
  mr_probation_until_ms :: "int option"

datatype MemoryRecordScope = ScopeLocal | ScopeRemote string | ScopeAnyRemote | ScopePortable

record MemoryLimits =
  ml_content_bytes :: nat
  ml_records :: nat
  ml_total_content_bytes :: nat
  ml_database_bytes :: nat
  ml_scan_results :: nat
  ml_query_bytes :: nat
  ml_probation_duration_ms :: int

definition PROBATION_DURATION_MS :: int where
  "PROBATION_DURATION_MS = 7 * 24 * 60 * 60 * 1000"

definition PRODUCTION :: MemoryLimits where
  "PRODUCTION =
     \<lparr>ml_content_bytes = 1024, ml_records = 512, ml_total_content_bytes = 256 * 1024,
      ml_database_bytes = 4 * 1024 * 1024, ml_scan_results = 5, ml_query_bytes = 512,
      ml_probation_duration_ms = PROBATION_DURATION_MS\<rparr>"

datatype MemoryError =
    InvalidMetadata | MetadataUnsupported | EmptyContent | ContentTooLarge nat | QueryTooLarge nat
  | RecordCapacity nat | ContentCapacity nat | StorageCapacity | SecretRejected | Duplicate
  | MemNotFound | MemConflict | RemoteReadOnly | InvalidPagination
  | UnsupportedSchemaVersion int int | MemBackend | MemUnavailable

definition is_retryable :: "MemoryError \<Rightarrow> bool" where
  "is_retryable e = (e = MemUnavailable)"

record MemoryImportReport =
  ir_inserted :: nat
  ir_skipped :: nat

record SyncReport =
  sr_inserted :: nat
  sr_replaced :: nat
  sr_unchanged :: nat
  sr_deleted :: nat

record ExportCursor =
  ec_namespace :: string
  ec_id :: int

datatype RemoteRole = Reader | Writer

definition MAX_NAMESPACE_BYTES :: nat where
  "MAX_NAMESPACE_BYTES = 128"

definition MAX_EXPORT_PAGE_RECORDS :: nat where
  "MAX_EXPORT_PAGE_RECORDS = 128"

section \<open>External functions\<close>

text \<open>
  \<open>me_metadata_json\<close>, \<open>me_scope_json\<close>, \<open>me_transfer_json\<close> and \<open>me_record_json\<close> are
  \<open>serde_json::to_string\<close> at the types used; the first can fail and is handled, the others are
  unwrapped. \<open>me_sha_hex\<close> is the hexadecimal SHA-256 digest, \<open>me_lowercase\<close> is \<open>str::to_lowercase\<close>,
  a table of the Unicode standard.
\<close>

record memory_env =
  me_metadata_json :: "MemoryMetadata \<Rightarrow> string option"
  me_scope_json :: "MemoryScope \<Rightarrow> string"
  me_transfer_json :: "string option \<Rightarrow> string option \<Rightarrow> string \<Rightarrow> MemoryMetadata \<Rightarrow> string"
  me_record_json :: "MemoryKey \<Rightarrow> string \<Rightarrow> MemoryMetadata \<Rightarrow> int \<Rightarrow> string"
  me_sha_hex :: "string \<Rightarrow> string"
  me_lowercase :: "string \<Rightarrow> string"

section \<open>Validation\<close>

definition I64_MAX :: int where
  "I64_MAX = 2 ^ 63 - 1"

definition I64_MIN :: int where
  "I64_MIN = - (2 ^ 63)"

definition checked_add_i64 :: "int \<Rightarrow> int \<Rightarrow> int option" where
  "checked_add_i64 a b = (if I64_MIN \<le> a + b \<and> a + b \<le> I64_MAX then Some (a + b) else None)"

definition saturating_add_i64 :: "int \<Rightarrow> int \<Rightarrow> int" where
  "saturating_add_i64 a b = max I64_MIN (min I64_MAX (a + b))"

text \<open>\<open>i64::try_from(n).is_ok()\<close> and the casts \<open>n as i64\<close>, \<open>n as u64\<close>.\<close>

definition fits_i64 :: "u64 \<Rightarrow> bool" where
  "fits_i64 n = (uint n \<le> I64_MAX)"

definition as_i64 :: "u64 \<Rightarrow> int" where
  "as_i64 n = (if uint n \<le> I64_MAX then uint n else uint n - 2 ^ 64)"

definition as_u64 :: "int \<Rightarrow> u64" where
  "as_u64 n = of_int n"

definition valid_ownership :: "string \<Rightarrow> bool" where
  "valid_ownership v = (length v = 32 \<and> list_all is_ascii_hexdigit v)"

definition valid_digest :: "string \<Rightarrow> bool" where
  "valid_digest v = (length v = 64 \<and> list_all is_ascii_hexdigit v)"

definition is_valid_namespace :: "string \<Rightarrow> bool" where
  "is_valid_namespace ns =
     (ns \<noteq> [] \<and> length ns \<le> MAX_NAMESPACE_BYTES \<and>
      list_all (\<lambda>b. is_ascii_alphanumeric b \<or> b \<in> set ''-_.'') ns)"

definition empty_trace :: "TraceReference \<Rightarrow> bool" where
  "empty_trace t = (tr_session t = [] \<or> tr_request t = [] \<or> tr_task t = [])"

fun lesson_pending :: "MemoryKind \<Rightarrow> bool" where
  "lesson_pending (LessonProposal _ ProposalPending) = True"
| "lesson_pending _ = False"

fun is_lesson :: "MemoryKind \<Rightarrow> bool" where
  "is_lesson (LessonProposal _ _) = True"
| "is_lesson _ = False"

fun behavior_test :: "MemoryKind \<Rightarrow> SourceEvidence list" where
  "behavior_test (LessonProposal t _) = [t]"
| "behavior_test _ = []"

fun evidence_valid :: "SourceEvidence \<Rightarrow> bool" where
  "evidence_valid (FileEvidence repository path range_opt revision dg) =
     (\<not> (repository = [] \<or> revision = [] \<or> path = [] \<or> has_root path \<or>
         list_ex (\<lambda>c. \<not> is_normal c) (components path) \<or>
         (case range_opt of None \<Rightarrow> False | Some r \<Rightarrow> lr_start r = 0 \<or> lr_end r < lr_start r) \<or>
         \<not> valid_digest dg))"
| "evidence_valid (ArtifactEvidence dg source) = (\<not> (source = [] \<or> \<not> valid_digest dg))"

definition metadata_validate :: "memory_env \<Rightarrow> MemoryMetadata \<Rightarrow> MemoryError + unit" where
  "metadata_validate E m =
     (case me_metadata_json E m of
        None \<Rightarrow> Inl MemBackend
      | Some bytes \<Rightarrow>
          if length bytes + (if md_ownership_id m = None then 32 else 0) > 16 * 1024 \<or>
             length (md_evidence m) > 16 \<or>
             length (md_producing_traces m) > 32 \<or>
             length (md_imported_from m) > 32 \<or>
             length (md_transferred_from m) > 32 \<or>
             length (md_historical_evidence m) > 64 \<or>
             (case md_ownership_id m of None \<Rightarrow> False | Some i \<Rightarrow> \<not> valid_ownership i) \<or>
             list_ex (\<lambda>s. \<not> valid_ownership (or_ownership_id s) \<or> mk_id (or_key s) \<le> 0 \<or>
                         mk_version (or_key s) = 0) (md_transferred_from m) \<or>
             (case md_pending_run m of
                None \<Rightarrow> False
              | Some t \<Rightarrow> empty_trace t \<or> t \<notin> set (md_producing_traces m) \<or>
                         \<not> lesson_pending (md_kind m))
          then Inl InvalidMetadata
          else if md_scope m = RepositoryScope [] \<or>
             (md_kind m = CodeClaim \<or> is_lesson (md_kind m)) \<and> md_evidence m = [] \<or>
             (md_kind m = CodeClaim \<or> is_lesson (md_kind m)) \<and> md_origin m = ModelOrigin \<and>
               md_producing_traces m = [] \<or>
             list_ex empty_trace (md_producing_traces m) \<or>
             list_ex (\<lambda>k. mk_id k \<le> 0 \<or> mk_version k = 0 \<or>
               (case mk_namespace k of None \<Rightarrow> False | Some ns \<Rightarrow> \<not> is_valid_namespace ns))
               (md_imported_from m)
          then Inl InvalidMetadata
          else if list_ex (\<lambda>e. \<not> evidence_valid e)
             (md_evidence m @ md_historical_evidence m @ behavior_test (md_kind m))
          then Inl InvalidMetadata
          else Inr ())"

definition reject_likely_secret :: "memory_env \<Rightarrow> MemoryMetadata \<Rightarrow> MemoryError + unit" where
  "reject_likely_secret E m =
     (case me_metadata_json E m of
        None \<Rightarrow> Inl MemBackend
      | Some s \<Rightarrow> if contains_likely_secret s then Inl SecretRejected else Inr ())"

definition opt_all :: "('a \<Rightarrow> bool) \<Rightarrow> 'a option \<Rightarrow> bool" where
  "opt_all p x = (case x of None \<Rightarrow> True | Some v \<Rightarrow> p v)"

definition scope_matches :: "MemoryRecordScope \<Rightarrow> string option \<Rightarrow> bool" where
  "scope_matches scope ns =
     (case scope of
        ScopeLocal \<Rightarrow> ns = None
      | ScopeRemote expected \<Rightarrow> ns = Some expected
      | ScopeAnyRemote \<Rightarrow> ns \<noteq> None
      | ScopePortable \<Rightarrow> True)"

definition times_valid :: "MemoryRecord \<Rightarrow> bool" where
  "times_valid r =
     (mr_created_at_ms r \<ge> 0 \<and> mr_updated_at_ms r \<ge> mr_created_at_ms r \<and>
      opt_all (\<lambda>v. v \<ge> mr_updated_at_ms r) (mr_last_scanned_at_ms r) \<and>
      opt_all (\<lambda>v. v \<ge> mr_updated_at_ms r) (mr_last_used_at_ms r) \<and>
      opt_all (\<lambda>v. v \<ge> mr_updated_at_ms r) (mr_probation_until_ms r))"

definition record_validate ::
  "memory_env \<Rightarrow> MemoryRecordScope \<Rightarrow> MemoryLimits \<Rightarrow> MemoryRecord \<Rightarrow> MemoryError + unit" where
  "record_validate E scope L r =
     (if mk_id (mr_key r) \<le> 0 \<or> mk_version (mr_key r) = 0 \<or> \<not> fits_i64 (mk_version (mr_key r)) \<or>
         \<not> fits_i64 (mr_scan_count r) \<or> \<not> fits_i64 (mr_use_count r) \<or>
         \<not> opt_all is_valid_namespace (mk_namespace (mr_key r)) \<or>
         \<not> scope_matches scope (mk_namespace (mr_key r)) \<or>
         blank (mr_content r) \<or> length (mr_content r) > ml_content_bytes L \<or>
         \<not> times_valid r \<or>
         (mr_scan_count r = 0) \<noteq> (mr_last_scanned_at_ms r = None) \<or>
         (mr_use_count r = 0) \<noteq> (mr_last_used_at_ms r = None) \<or>
         \<not> (mr_probation_until_ms r = None \<or> mr_use_count r = 0) \<or>
         metadata_validate E (mr_metadata r) \<noteq> Inr ()
      then Inl InvalidMetadata else Inr ())"

definition validate_content :: "MemoryLimits \<Rightarrow> string \<Rightarrow> MemoryError + unit" where
  "validate_content L content =
     (if blank content then Inl EmptyContent
      else if length content > ml_content_bytes L then Inl (ContentTooLarge (ml_content_bytes L))
      else Inr ())"

definition validate_authored_content ::
  "memory_env \<Rightarrow> MemoryLimits \<Rightarrow> string \<Rightarrow> MemoryMetadata \<Rightarrow> MemoryError + unit" where
  "validate_authored_content E L content m =
     and_then (validate_content L content) (\<lambda>_.
     and_then (metadata_validate E m) (\<lambda>_.
     and_then (reject_likely_secret E m) (\<lambda>_.
     if contains_likely_secret content then Inl SecretRejected else Inr ())))"

section \<open>Identities\<close>

fun join_space :: "string list \<Rightarrow> string" where
  "join_space [] = []"
| "join_space [w] = w"
| "join_space (w # ws) = w @ '' '' @ join_space ws"

definition normalize_identity :: "memory_env \<Rightarrow> string \<Rightarrow> string" where
  "normalize_identity E content = join_space (map (me_lowercase E) (split_whitespace content))"

definition transfer_identity ::
  "memory_env \<Rightarrow> MemoryMetadata \<Rightarrow> string \<Rightarrow> string option \<Rightarrow> string" where
  "transfer_identity E m content namespace =
     (let origin = (case md_transferred_from m of
                      [] \<Rightarrow> md_ownership_id m | s # _ \<Rightarrow> Some (or_ownership_id s));
          namespace = (case md_transferred_from m of
                      [] \<Rightarrow> namespace | s # _ \<Rightarrow> mk_namespace (or_key s));
          payload = m\<lparr>md_ownership_id := None, md_transferred_from := [], md_imported_from := []\<rparr>
      in me_transfer_json E origin namespace content payload)"

definition metadata_identity :: "memory_env \<Rightarrow> MemoryMetadata \<Rightarrow> string \<Rightarrow> string" where
  "metadata_identity E m content =
     (if md_transferred_from m \<noteq> [] \<or> md_imported_from m \<noteq> []
      then ''import:'' @ transfer_identity E m content None
      else if md_scope m = LegacyUnscoped then normalize_identity E content
      else me_scope_json E (md_scope m) @ '':'' @ normalize_identity E content)"

definition visible_in :: "MemoryMetadata \<Rightarrow> string option \<Rightarrow> bool" where
  "visible_in m repository =
     (case md_scope m of
        RepositoryScope i \<Rightarrow> Some i = repository
      | GlobalScope \<Rightarrow> True
      | LegacyUnscoped \<Rightarrow> True)"

section \<open>Lesson selection\<close>

datatype LessonQuery = MatchingLesson MemoryScope string | PendingLesson TraceReference

definition query_matches :: "memory_env \<Rightarrow> LessonQuery \<Rightarrow> MemoryRecord \<Rightarrow> bool" where
  "query_matches E q r =
     (is_lesson (md_kind (mr_metadata r)) \<and>
      (case q of
         MatchingLesson scope identity \<Rightarrow>
           md_scope (mr_metadata r) = scope \<and> normalize_identity E (mr_content r) = identity
       | PendingLesson t \<Rightarrow>
           md_pending_run (mr_metadata r) = Some t \<and> lesson_pending (md_kind (mr_metadata r))))"

section \<open>Snapshots\<close>

text \<open>
  The fold of \<open>validate_authored_snapshot\<close>: the ids and identities seen so far and the content
  bytes, whose sum is a \<open>usize\<close> with checked addition.
\<close>

definition MEM_USIZE_MAX :: nat where
  "MEM_USIZE_MAX = 2 ^ 64 - 1"

definition snapshot_step ::
  "memory_env \<Rightarrow> MemoryLimits \<Rightarrow> int list \<times> string list \<times> nat \<Rightarrow> MemoryRecord
    \<Rightarrow> MemoryError + int list \<times> string list \<times> nat" where
  "snapshot_step E L = (\<lambda>(ids, identities, bytes) r.
     and_then (record_validate E ScopeLocal L r) (\<lambda>_.
     if mk_id (mr_key r) \<in> set ids then Inl InvalidMetadata
     else let identity = metadata_identity E (mr_metadata r) (mr_content r) in
     if identity \<in> set identities then Inl Duplicate
     else and_then (reject_likely_secret E (mr_metadata r)) (\<lambda>_.
     if contains_likely_secret (mr_content r) then Inl SecretRejected
     else if bytes + length (mr_content r) > MEM_USIZE_MAX
     then Inl (ContentCapacity (ml_total_content_bytes L))
     else Inr (mk_id (mr_key r) # ids, identity # identities, bytes + length (mr_content r)))))"

definition validate_authored_snapshot ::
  "memory_env \<Rightarrow> MemoryLimits \<Rightarrow> MemoryRecord list \<Rightarrow> MemoryError + unit" where
  "validate_authored_snapshot E L memories =
     (if length memories > ml_records L then Inl (RecordCapacity (ml_records L))
      else and_then (try_fold (snapshot_step E L) ([], [], 0) memories) (\<lambda>(_, _, bytes).
        if bytes > ml_total_content_bytes L then Inl (ContentCapacity (ml_total_content_bytes L))
        else Inr ()))"

section \<open>What a valid snapshot is\<close>

lemma validate_authored_content_ok_iff:
  "validate_authored_content E L content m = Inr () \<longleftrightarrow>
     \<not> blank content \<and> length content \<le> ml_content_bytes L \<and> metadata_validate E m = Inr () \<and>
     reject_likely_secret E m = Inr () \<and> \<not> contains_likely_secret content"
  by (auto simp: validate_authored_content_def validate_content_def result_simps)

lemma snapshot_step_ok_iff:
  "snapshot_step E L (ids, identities, bytes) r = Inr s \<longleftrightarrow>
     record_validate E ScopeLocal L r = Inr () \<and> mk_id (mr_key r) \<notin> set ids \<and>
     metadata_identity E (mr_metadata r) (mr_content r) \<notin> set identities \<and>
     reject_likely_secret E (mr_metadata r) = Inr () \<and> \<not> contains_likely_secret (mr_content r) \<and>
     bytes + length (mr_content r) \<le> MEM_USIZE_MAX \<and>
     s = (mk_id (mr_key r) # ids, metadata_identity E (mr_metadata r) (mr_content r) # identities,
          bytes + length (mr_content r))"
  by (auto simp: snapshot_step_def Let_def result_simps)

lemma snapshot_fold_ok:
  assumes "try_fold (snapshot_step E L) (ids, identities, bytes) rs = Inr (ids', identities', bytes')"
    and "distinct ids" and "distinct identities"
  shows "(\<forall>r \<in> set rs. record_validate E ScopeLocal L r = Inr () \<and>
            reject_likely_secret E (mr_metadata r) = Inr () \<and> \<not> contains_likely_secret (mr_content r))
       \<and> distinct (map (\<lambda>r. mk_id (mr_key r)) rs @ ids)
       \<and> distinct (map (\<lambda>r. metadata_identity E (mr_metadata r) (mr_content r)) rs @ identities)
       \<and> bytes' = bytes + sum_list (map (\<lambda>r. length (mr_content r)) rs)"
  using assms
proof (induction rs arbitrary: ids identities bytes)
  case Nil
  then show ?case by simp
next
  case (Cons r rs)
  from Cons.prems(1) obtain s where step: "snapshot_step E L (ids, identities, bytes) r = Inr s"
    and rest: "try_fold (snapshot_step E L) s rs = Inr (ids', identities', bytes')"
    by (auto simp: and_then_Inr_iff)
  note r = step [unfolded snapshot_step_ok_iff]
  from r rest have "try_fold (snapshot_step E L)
      (mk_id (mr_key r) # ids, metadata_identity E (mr_metadata r) (mr_content r) # identities,
       bytes + length (mr_content r)) rs = Inr (ids', identities', bytes')"
    by simp
  from Cons.IH [OF this] show ?case
    using r Cons.prems(2,3) by auto
qed

lemma valid_snapshot:
  assumes "validate_authored_snapshot E L rs = Inr ()"
  shows "length rs \<le> ml_records L"
    and "r \<in> set rs \<Longrightarrow> record_validate E ScopeLocal L r = Inr ()"
    and "r \<in> set rs \<Longrightarrow> reject_likely_secret E (mr_metadata r) = Inr ()"
    and "r \<in> set rs \<Longrightarrow> \<not> contains_likely_secret (mr_content r)"
    and "distinct (map (\<lambda>r. mk_id (mr_key r)) rs)"
    and "distinct (map (\<lambda>r. metadata_identity E (mr_metadata r) (mr_content r)) rs)"
    and "sum_list (map (\<lambda>r. length (mr_content r)) rs) \<le> ml_total_content_bytes L"
proof -
  from assms obtain ids' identities' bytes' where
    fold: "try_fold (snapshot_step E L) ([], [], 0) rs = Inr (ids', identities', bytes')"
    and bytes: "bytes' \<le> ml_total_content_bytes L" and len: "length rs \<le> ml_records L"
    by (auto simp: validate_authored_snapshot_def result_simps split: if_splits)
  note facts = snapshot_fold_ok [OF fold, simplified]
  from len show "length rs \<le> ml_records L" .
  show "r \<in> set rs \<Longrightarrow> record_validate E ScopeLocal L r = Inr ()"
    and "r \<in> set rs \<Longrightarrow> reject_likely_secret E (mr_metadata r) = Inr ()"
    and "r \<in> set rs \<Longrightarrow> \<not> contains_likely_secret (mr_content r)"
    using facts by blast+
  show "distinct (map (\<lambda>r. mk_id (mr_key r)) rs)"
    and "distinct (map (\<lambda>r. metadata_identity E (mr_metadata r) (mr_content r)) rs)"
    using facts by blast+
  show "sum_list (map (\<lambda>r. length (mr_content r)) rs) \<le> ml_total_content_bytes L"
    using facts bytes by simp
qed

lemma as_i64_as_u64: "0 \<le> n \<Longrightarrow> n \<le> I64_MAX \<Longrightarrow> uint (as_u64 n) = n"
  by (simp add: as_u64_def I64_MAX_def unsigned_of_int take_bit_int_eq_self)

end
