(* ===== verification/Memory_Retrieval.thy ===== *)
theory Memory_Retrieval
  imports Memory_Model
begin

text \<open>
  Retrieval over the bounded memory corpus (\<^verbatim>\<open>crates/memory/src/retrieval.rs\<close>): the tokenizer for
  prose and code identifiers, the ranking of the documents that match a query, and previews. A
  string is processed as the list of its characters' encodings. The Unicode character classes and
  the floating-point BM25 arithmetic are the fields of \<open>retrieval_env\<close>; a score is the bit pattern of
  an \<open>f64\<close>, compared as \<open>f64::total_cmp\<close> does.
\<close>

record retrieval_env =
  re_alphanumeric :: "string \<Rightarrow> bool"
  re_uppercase :: "string \<Rightarrow> bool"
  re_lowercase :: "string \<Rightarrow> bool"
  re_to_lowercase :: "string \<Rightarrow> string"
  re_bm25 :: "string list \<Rightarrow> string list list \<Rightarrow> string list \<Rightarrow> u64"

definition PREVIEW_MAX_BYTES :: nat where
  "PREVIEW_MAX_BYTES = 64"

section \<open>Tokens\<close>

text \<open>
  \<open>split_camel_case\<close>: \<open>current\<close> is the component from \<open>start\<close> on and \<open>prev\<close> is
  \<open>previous_was_lowercase_or_digit\<close>; a component ends before an upper-case letter that follows a
  lower-case letter or a digit.
\<close>

fun camel_from :: "retrieval_env \<Rightarrow> string list \<Rightarrow> bool \<Rightarrow> string list \<Rightarrow> string list" where
  "camel_from R current prev [] = [concat current]"
| "camel_from R current prev (ch # chs) =
     (let prev' = re_lowercase R ch \<or> (case ch of [c] \<Rightarrow> is_ascii_digit c | _ \<Rightarrow> False) in
      if current \<noteq> [] \<and> re_uppercase R ch \<and> prev
      then concat current # camel_from R [ch] prev' chs
      else camel_from R (current @ [ch]) prev' chs)"

definition split_camel_case :: "retrieval_env \<Rightarrow> string \<Rightarrow> string list" where
  "split_camel_case R identifier = camel_from R [] False (utf8_chars identifier)"

text \<open>The components pushed so far are those in \<open>seen\<close>, the \<open>HashSet\<close> of the source.\<close>

fun push_components :: "retrieval_env \<Rightarrow> string \<Rightarrow> string list \<Rightarrow> string list \<Rightarrow> string list" where
  "push_components R whole seen [] = []"
| "push_components R whole seen (c # cs) =
     (let component = re_to_lowercase R c in
      if component \<noteq> whole \<and> component \<notin> set seen
      then component # push_components R whole (component # seen) cs
      else push_components R whole seen cs)"

definition append_identifier_tokens :: "retrieval_env \<Rightarrow> string \<Rightarrow> string list \<Rightarrow> string list" where
  "append_identifier_tokens R identifier tokens =
     (if identifier = [] then tokens
      else let lowercase = re_to_lowercase R identifier;
               parts = filter (\<lambda>c. c \<noteq> []) (split_on (CHR ''_'') identifier)
           in tokens @ [lowercase] @
              push_components R lowercase [] (concat (map (split_camel_case R) parts)))"

definition identifier_char :: "retrieval_env \<Rightarrow> string \<Rightarrow> bool" where
  "identifier_char R ch = (re_alphanumeric R ch \<or> ch = ''_'')"

definition tokenize :: "retrieval_env \<Rightarrow> string \<Rightarrow> string list" where
  "tokenize R content =
     (case foldl (\<lambda>(identifier, tokens) ch.
             if identifier_char R ch then (identifier @ ch, tokens)
             else ([], append_identifier_tokens R identifier tokens)) ([], []) (utf8_chars content) of
        (identifier, tokens) \<Rightarrow> append_identifier_tokens R identifier tokens)"

section \<open>Ranking\<close>

record MemoryCandidate =
  mc_metadata :: MemoryMetadata
  mc_key :: MemoryKey
  mc_preview :: string
  mc_score :: u64

definition preview :: "string \<Rightarrow> string" where
  "preview content =
     (if length content \<le> PREVIEW_MAX_BYTES then content
      else take (boundary_below content PREVIEW_MAX_BYTES) content)"

text \<open>\<open>score == 0.0\<close> holds of both zeros; \<open>total_key\<close> orders the bit patterns as \<open>total_cmp\<close>.\<close>

definition score_is_zero :: "u64 \<Rightarrow> bool" where
  "score_is_zero s = (s = 0 \<or> s = 2 ^ 63)"

definition total_key :: "u64 \<Rightarrow> int" where
  "total_key s = (if uint s < 2 ^ 63 then uint s else 2 ^ 63 - 1 - uint s)"

definition namespace_key :: "string option \<Rightarrow> nat \<times> string" where
  "namespace_key ns = (case ns of None \<Rightarrow> (0, []) | Some s \<Rightarrow> (1, s))"

definition candidate_key :: "MemoryCandidate \<Rightarrow> int \<times> (nat \<times> string) \<times> int" where
  "candidate_key c = (- total_key (mc_score c), namespace_key (mk_namespace (mc_key c)), mk_id (mc_key c))"

definition candidate_of :: "MemoryRecord \<Rightarrow> u64 \<Rightarrow> MemoryCandidate" where
  "candidate_of r s =
     \<lparr>mc_metadata = mr_metadata r, mc_key = mr_key r, mc_preview = preview (mr_content r), mc_score = s\<rparr>"

definition rank :: "retrieval_env \<Rightarrow> string \<Rightarrow> MemoryRecord list \<Rightarrow> nat \<Rightarrow> MemoryCandidate list" where
  "rank R query memories limit =
     (if limit = 0 \<or> memories = [] then []
      else let terms = bs_collect (tokenize R query) in
        if terms = [] then []
        else let documents = map (\<lambda>r. tokenize R (mr_content r)) memories;
                 scored = map (\<lambda>r. candidate_of r
                   (re_bm25 R terms documents (tokenize R (mr_content r)))) memories
             in take limit (sort_key candidate_key (filter (\<lambda>c. \<not> score_is_zero (mc_score c)) scored)))"

record MemoryScan =
  ms_abstained :: bool
  ms_candidates :: "MemoryCandidate list"

definition scan_rank :: "retrieval_env \<Rightarrow> string \<Rightarrow> MemoryRecord list \<Rightarrow> nat \<Rightarrow> MemoryScan" where
  "scan_rank R query memories limit =
     (let candidates = rank R query memories limit in
      \<lparr>ms_abstained = (candidates = []), ms_candidates = candidates\<rparr>)"

section \<open>What a ranking returns\<close>

lemma length_rank: "length (rank R q ms n) \<le> n"
  by (simp add: rank_def Let_def)

lemma rank_sorted: "sorted (map candidate_key (rank R q ms n))"
  by (simp add: rank_def Let_def sorted_wrt_take flip: take_map)

lemma rank_candidate:
  assumes "c \<in> set (rank R q ms n)"
  shows "\<exists>r \<in> set ms. mc_key c = mr_key r \<and> mc_metadata c = mr_metadata r \<and>
           mc_preview c = preview (mr_content r) \<and> \<not> score_is_zero (mc_score c)"
  using assms
  by (auto simp: rank_def Let_def candidate_of_def split: if_splits dest!: in_set_takeD)
    blast

lemma rank_keys_distinct:
  assumes "distinct (map (\<lambda>r. mk_id (mr_key r)) ms)"
  shows "distinct (map (\<lambda>c. mk_id (mc_key c)) (rank R q ms n))"
proof -
  define scored where "scored = map (\<lambda>r. candidate_of r
      (re_bm25 R (bs_collect (tokenize R q)) (map (\<lambda>r. tokenize R (mr_content r)) ms)
        (tokenize R (mr_content r)))) ms"
  let ?hits = "filter (\<lambda>c. \<not> score_is_zero (mc_score c)) scored"
  have "map (\<lambda>c. mk_id (mc_key c)) scored = map (\<lambda>r. mk_id (mr_key r)) ms"
    by (simp add: scored_def candidate_of_def)
  then have "distinct (map (\<lambda>c. mk_id (mc_key c)) ?hits)"
    using assms by (simp add: distinct_map_filter)
  then have "distinct (map (\<lambda>c. mk_id (mc_key c)) (sort_key candidate_key ?hits))"
    by (simp add: distinct_map)
  then have "distinct (take n (map (\<lambda>c. mk_id (mc_key c)) (sort_key candidate_key ?hits)))"
    by (rule distinct_take)
  then show ?thesis
    by (simp add: rank_def Let_def take_map flip: scored_def)
qed

lemma length_preview: "length (preview s) \<le> PREVIEW_MAX_BYTES"
  using boundary_below_le [of s PREVIEW_MAX_BYTES] by (auto simp: preview_def)

lemma preview_prefix: "\<exists>t. s = preview s @ t"
  by (metis append.right_neutral append_take_drop_id preview_def)

lemma preview_boundary: "is_char_boundary s (length (preview s))"
  using boundary_below_boundary [of s PREVIEW_MAX_BYTES] boundary_below_le [of s PREVIEW_MAX_BYTES]
  by (auto simp: preview_def min_def is_char_boundary_def)

text \<open>Camel-case splitting and token lists lose no character of an identifier.\<close>

lemma concat_camel_from: "concat (camel_from R current prev chs) = concat current @ concat chs"
  by (induction R current prev chs rule: camel_from.induct) (auto simp: Let_def)

lemma concat_split_camel_case: "concat (split_camel_case R s) = s"
  by (simp add: split_camel_case_def concat_camel_from concat_utf8_chars)

end
