(* ===== verification/Memory_Local.thy ===== *)
theory Memory_Local
  imports Memory_Retrieval
begin

text \<open>
  The private SQLite store of the memory service (\<^verbatim>\<open>crates/memory/src/store/local.rs\<close>): the tables with
  their constraints and the identifier allocator, and the whole of every operation: opening with
  schema migration, scan, read, put with compare-and-swap replacement, delete, list, import,
  snapshot synchronisation and paged export. A transaction is a function that returns an error or
  a value with the new tables; an error leaves the tables as opening left them. Failures of the
  file system and of SQLite itself other than constraint violations are not modelled.
\<close>

section \<open>Tables\<close>

text \<open>
  A row of \<open>memories\<close>. The integer columns are \<open>i64\<close>; the metadata column holds the JSON of the
  metadata, kept here as the value it decodes to.
\<close>

record mem_row =
  row_id :: int
  row_content :: string
  row_identity :: string
  row_created_at_ms :: int
  row_updated_at_ms :: int
  row_last_scanned_at_ms :: "int option"
  row_scan_count :: int
  row_last_used_at_ms :: "int option"
  row_use_count :: int
  row_probation_until_ms :: "int option"
  row_version :: int
  row_metadata :: MemoryMetadata

text \<open>
  The database: \<open>user_version\<close>, the rows in primary-key order, \<open>next_id\<close> of the single row of
  \<open>memory_metadata\<close> when it exists, and whether the allocator trigger is installed.
\<close>

record mem_db =
  db_schema :: int
  db_rows :: "mem_row list"
  db_next_id :: "int option"
  db_trigger :: bool

definition MEMORY_SCHEMA_VERSION :: int where
  "MEMORY_SCHEMA_VERSION = 3"

text \<open>Column checks, the unique identity and the primary key.\<close>

definition row_checks :: "mem_row \<Rightarrow> bool" where
  "row_checks r = (row_scan_count r \<ge> 0 \<and> row_use_count r \<ge> 0 \<and> row_version r > 0)"

definition table_constraints :: "mem_row list \<Rightarrow> bool" where
  "table_constraints rows =
     (list_all row_checks rows \<and> distinct (map row_identity rows) \<and> distinct (map row_id rows))"

text \<open>The values of \<open>lower(hex(randomblob(16)))\<close>: per migrated row, and per draw of an operation.\<close>

record mem_draws =
  dr_migration :: "int \<Rightarrow> string"
  dr_ownership :: "nat \<Rightarrow> string"

section \<open>Statements\<close>

text \<open>\<open>UPDATE memories SET .. WHERE id = i\<close>\<close>

definition update_row :: "int \<Rightarrow> (mem_row \<Rightarrow> mem_row) \<Rightarrow> mem_db \<Rightarrow> MemoryError + mem_db" where
  "update_row i f db =
     (let rows = map (\<lambda>r. if row_id r = i then f r else r) (db_rows db) in
      if table_constraints rows then Inr (db\<lparr>db_rows := rows\<rparr>) else Inl MemBackend)"

text \<open>
  \<open>INSERT INTO memories\<close>, after which the trigger, when installed, refuses an identifier below
  \<open>next_id\<close> and raises \<open>next_id\<close> above the inserted one.
\<close>

definition allocator_trigger :: "int \<Rightarrow> mem_db \<Rightarrow> MemoryError + mem_db" where
  "allocator_trigger i db =
     (if \<not> db_trigger db then Inr db
      else case db_next_id db of
        None \<Rightarrow> Inr db
      | Some n \<Rightarrow> if i < n then Inl MemBackend else Inr (db\<lparr>db_next_id := Some (i + 1)\<rparr>))"

definition insert_row :: "mem_row \<Rightarrow> mem_db \<Rightarrow> MemoryError + mem_db" where
  "insert_row r db =
     (let rows = insort_key row_id r (db_rows db) in
      if table_constraints rows then allocator_trigger (row_id r) (db\<lparr>db_rows := rows\<rparr>)
      else Inl MemBackend)"

definition find_row :: "int \<Rightarrow> mem_db \<Rightarrow> mem_row option" where
  "find_row i db = find (\<lambda>r. row_id r = i) (db_rows db)"

definition content_total :: "mem_row list \<Rightarrow> nat" where
  "content_total rows = sum_list (map (\<lambda>r. length (row_content r)) rows)"

definition totals :: "mem_db \<Rightarrow> nat \<times> nat" where
  "totals db = (length (db_rows db), content_total (db_rows db))"

definition identity_exists :: "mem_db \<Rightarrow> string \<Rightarrow> int option \<Rightarrow> bool" where
  "identity_exists db identity excluded =
     list_ex (\<lambda>r. row_identity r = identity \<and> (excluded = None \<or> Some (row_id r) \<noteq> excluded)) (db_rows db)"

definition expired :: "int \<Rightarrow> mem_row \<Rightarrow> bool" where
  "expired now r =
     (case row_probation_until_ms r of
        None \<Rightarrow> False
      | Some p \<Rightarrow> p \<le> now \<and> row_use_count r = 0)"

definition prune_expired :: "int \<Rightarrow> mem_db \<Rightarrow> mem_db" where
  "prune_expired now db = db\<lparr>db_rows := filter (\<lambda>r. \<not> expired now r) (db_rows db)\<rparr>"

definition max_id :: "mem_row list \<Rightarrow> int" where
  "max_id rows = (case map row_id rows of [] \<Rightarrow> 0 | i # is \<Rightarrow> foldl max i is)"

definition allocate_id :: "mem_db \<Rightarrow> MemoryError + int" where
  "allocate_id db =
     and_then (ok_or (db_next_id db) MemBackend) (\<lambda>recorded.
     and_then (ok_or (checked_add_i64 (max_id (db_rows db)) 1) StorageCapacity) (\<lambda>above.
     let i = max recorded above in
     and_then (ok_or (checked_add_i64 i 1) StorageCapacity) (\<lambda>_. Inr i)))"

definition observe_id :: "int \<Rightarrow> mem_db \<Rightarrow> MemoryError + mem_db" where
  "observe_id i db =
     and_then (ok_or (checked_add_i64 i 1) StorageCapacity) (\<lambda>n.
     Inr (db\<lparr>db_next_id := map_option (\<lambda>m. max m n) (db_next_id db)\<rparr>))"

definition save_metadata :: "memory_env \<Rightarrow> int \<Rightarrow> MemoryMetadata \<Rightarrow> mem_db \<Rightarrow> MemoryError + mem_db" where
  "save_metadata E i m db =
     (case me_metadata_json E m of
        None \<Rightarrow> Inl MemBackend
      | Some _ \<Rightarrow> update_row i (\<lambda>r. r\<lparr>row_metadata := m\<rparr>) db)"

definition row_to_memory :: "mem_row \<Rightarrow> MemoryRecord" where
  "row_to_memory r =
     \<lparr>mr_metadata = row_metadata r, mr_key = key_local (row_id r) (as_u64 (row_version r)),
      mr_content = row_content r, mr_created_at_ms = row_created_at_ms r,
      mr_updated_at_ms = row_updated_at_ms r, mr_last_scanned_at_ms = row_last_scanned_at_ms r,
      mr_scan_count = as_u64 (row_scan_count r), mr_last_used_at_ms = row_last_used_at_ms r,
      mr_use_count = as_u64 (row_use_count r), mr_probation_until_ms = row_probation_until_ms r\<rparr>"

definition validate_loaded ::
  "memory_env \<Rightarrow> MemoryLimits \<Rightarrow> mem_row \<Rightarrow> MemoryError + MemoryRecord" where
  "validate_loaded E L r =
     and_then (record_validate E ScopeLocal L (row_to_memory r)) (\<lambda>_. Inr (row_to_memory r))"

fun try_map :: "('a \<Rightarrow> 'e + 'b) \<Rightarrow> 'a list \<Rightarrow> 'e + 'b list" where
  "try_map f [] = Inr []"
| "try_map f (x # xs) = and_then (f x) (\<lambda>y. and_then (try_map f xs) (\<lambda>ys. Inr (y # ys)))"

definition load_all :: "memory_env \<Rightarrow> MemoryLimits \<Rightarrow> mem_db \<Rightarrow> MemoryError + MemoryRecord list" where
  "load_all E L db = try_map (validate_loaded E L) (db_rows db)"

definition load_one ::
  "memory_env \<Rightarrow> MemoryLimits \<Rightarrow> int \<Rightarrow> mem_db \<Rightarrow> MemoryError + MemoryRecord option" where
  "load_one E L i db =
     (case find_row i db of
        None \<Rightarrow> Inr None
      | Some r \<Rightarrow> and_then (validate_loaded E L r) (\<lambda>m. Inr (Some m)))"

section \<open>Opening and transactions\<close>

definition open_db :: "mem_draws \<Rightarrow> mem_db \<Rightarrow> MemoryError + mem_db" where
  "open_db D db =
     (let schema = db_schema db in
      if schema < 0 \<or> schema > MEMORY_SCHEMA_VERSION
      then Inl (UnsupportedSchemaVersion schema MEMORY_SCHEMA_VERSION)
      else let rows = (if schema < 2
              then map (\<lambda>r. r\<lparr>row_metadata := metadata_default\<rparr>) (db_rows db) else db_rows db) in
      and_then (ok_or (checked_add_i64 (max_id rows) 1) StorageCapacity) (\<lambda>next_id.
      if next_id \<le> 0 then Inl MemBackend
      else let recorded = (case db_next_id db of
                None \<Rightarrow> next_id | Some n \<Rightarrow> if n < next_id then next_id else n);
               rows' = (if schema < 3
                then map (\<lambda>r. if md_ownership_id (row_metadata r) = None
                       then r\<lparr>row_metadata := (row_metadata r)\<lparr>md_ownership_id := Some (dr_migration D (row_id r))\<rparr>\<rparr>
                       else r) rows
                else rows)
      in Inr \<lparr>db_schema = MEMORY_SCHEMA_VERSION, db_rows = rows', db_next_id = Some recorded,
              db_trigger = True\<rparr>))"

definition transact ::
  "mem_draws \<Rightarrow> (mem_db \<Rightarrow> MemoryError + 'a \<times> mem_db) \<Rightarrow> mem_db \<Rightarrow> (MemoryError + 'a) \<times> mem_db" where
  "transact D f db =
     (case open_db D db of
        Inl e \<Rightarrow> (Inl e, db)
      | Inr opened \<Rightarrow>
          (case f opened of
             Inl e \<Rightarrow> (Inl e, opened)
           | Inr (v, db') \<Rightarrow> (Inr v, db')))"

section \<open>Scan\<close>

definition safe_record :: "memory_env \<Rightarrow> MemoryRecord \<Rightarrow> bool" where
  "safe_record E r =
     (is_ok (reject_likely_secret E (mr_metadata r)) \<and> \<not> contains_likely_secret (mr_content r))"

definition scope_shows :: "string option option \<Rightarrow> MemoryRecord \<Rightarrow> bool" where
  "scope_shows scope r = opt_all (visible_in (mr_metadata r)) scope"

text \<open>
  \<open>UPDATE .. SET last_scanned_at_ms = MAX(now, updated_at_ms, COALESCE(last_scanned_at_ms, now)),
  scan_count = scan_count + 1 WHERE id = ? AND scan_count < i64::MAX\<close>; it must change one row.
\<close>

definition record_scan :: "int \<Rightarrow> mem_db \<Rightarrow> MemoryCandidate \<Rightarrow> MemoryError + mem_db" where
  "record_scan now db c =
     (case find_row (mk_id (mc_key c)) db of
        None \<Rightarrow> Inl InvalidMetadata
      | Some r \<Rightarrow>
          if row_scan_count r < I64_MAX
          then update_row (mk_id (mc_key c)) (\<lambda>r. r\<lparr>
            row_last_scanned_at_ms := Some (max now (max (row_updated_at_ms r)
              (case row_last_scanned_at_ms r of None \<Rightarrow> now | Some t \<Rightarrow> t))),
            row_scan_count := row_scan_count r + 1\<rparr>) db
          else Inl InvalidMetadata)"

definition scan_tx ::
  "memory_env \<Rightarrow> retrieval_env \<Rightarrow> MemoryLimits \<Rightarrow> string \<Rightarrow> nat \<Rightarrow> int \<Rightarrow> string option option
    \<Rightarrow> mem_db \<Rightarrow> MemoryError + MemoryScan \<times> mem_db" where
  "scan_tx E R L query limit now scope db =
     (let db = prune_expired now db in
      and_then (load_all E L db) (\<lambda>loaded.
      let memories = filter (scope_shows scope) (filter (safe_record E) loaded);
          scan = scan_rank R query memories (min limit (ml_scan_results L))
      in and_then (try_fold (record_scan now) db (ms_candidates scan)) (\<lambda>db'. Inr (scan, db'))))"

definition scan_filtered ::
  "memory_env \<Rightarrow> retrieval_env \<Rightarrow> MemoryLimits \<Rightarrow> mem_draws \<Rightarrow> string \<Rightarrow> nat \<Rightarrow> int
    \<Rightarrow> string option option \<Rightarrow> mem_db \<Rightarrow> (MemoryError + MemoryScan) \<times> mem_db" where
  "scan_filtered E R L D query limit now scope db =
     (if length query > ml_query_bytes L then (Inl (QueryTooLarge (ml_query_bytes L)), db)
      else transact D (scan_tx E R L query limit now scope) db)"

definition scan_local ::
  "memory_env \<Rightarrow> retrieval_env \<Rightarrow> MemoryLimits \<Rightarrow> mem_draws \<Rightarrow> string \<Rightarrow> nat \<Rightarrow> int
    \<Rightarrow> mem_db \<Rightarrow> (MemoryError + MemoryScan) \<times> mem_db" where
  "scan_local E R L D query limit now db =
     scan_filtered E R L D query (min limit (ml_scan_results L)) now None db"

section \<open>Read\<close>

definition record_use :: "int \<Rightarrow> mem_row \<Rightarrow> mem_row" where
  "record_use at r = r\<lparr>row_last_used_at_ms := Some at, row_use_count := row_use_count r + 1,
     row_probation_until_ms := None\<rparr>"

definition last_used_at :: "int \<Rightarrow> MemoryRecord \<Rightarrow> int" where
  "last_used_at now m =
     max (max now (mr_updated_at_ms m))
       (case mr_last_used_at_ms m of None \<Rightarrow> I64_MIN | Some t \<Rightarrow> t)"

definition read_step ::
  "memory_env \<Rightarrow> MemoryLimits \<Rightarrow> int \<Rightarrow> string option option
    \<Rightarrow> mem_db \<times> int list \<times> MemoryRecord list \<Rightarrow> int \<times> u64 option
    \<Rightarrow> MemoryError + mem_db \<times> int list \<times> MemoryRecord list" where
  "read_step E L now scope = (\<lambda>(db, seen, records) (i, version).
     and_then (load_one E L i db) (\<lambda>loaded.
     case loaded of
       None \<Rightarrow> Inr (db, seen, records)
     | Some m \<Rightarrow>
         if \<not> scope_shows scope m \<or> \<not> opt_all (\<lambda>v. v = mk_version (mr_key m)) version \<or>
            \<not> safe_record E m \<or> i \<in> set seen
         then Inr (db, seen, records)
         else case find_row i db of
           None \<Rightarrow> Inl InvalidMetadata
         | Some r \<Rightarrow>
             if row_use_count r < I64_MAX
             then let at = last_used_at now m in
               and_then (update_row i (record_use at) db) (\<lambda>db'.
               and_then (ok_or (checked_add (mr_use_count m) 1) InvalidMetadata) (\<lambda>uses.
               Inr (db', i # seen, records @ [m\<lparr>mr_last_used_at_ms := Some at, mr_use_count := uses,
                                              mr_probation_until_ms := None\<rparr>])))
             else Inl InvalidMetadata))"

definition read_tx ::
  "memory_env \<Rightarrow> MemoryLimits \<Rightarrow> (int \<times> u64 option) list \<Rightarrow> int \<Rightarrow> string option option
    \<Rightarrow> mem_db \<Rightarrow> MemoryError + MemoryRecord list \<times> mem_db" where
  "read_tx E L references now scope db =
     and_then (try_fold (read_step E L now scope) (prune_expired now db, [], []) references)
       (\<lambda>(db', _, records). Inr (records, db'))"

definition distinct_ids :: "int list \<Rightarrow> int list" where
  "distinct_ids is = rev (foldl (\<lambda>seen i. if i \<in> set seen then seen else i # seen) [] is)"

definition key_references :: "MemoryKey list \<Rightarrow> (int \<times> u64 option) list" where
  "key_references keys = map (\<lambda>k. (mk_id k, Some (mk_version k))) (filter is_local_key keys)"

definition read_local ::
  "memory_env \<Rightarrow> MemoryLimits \<Rightarrow> mem_draws \<Rightarrow> int list \<Rightarrow> MemoryKey list \<Rightarrow> int
    \<Rightarrow> mem_db \<Rightarrow> (MemoryError + MemoryRecord list) \<times> mem_db" where
  "read_local E L D ids keys now db =
     transact D (read_tx E L (key_references keys @ map (\<lambda>i. (i, None)) (distinct_ids ids)) now None) db"

definition read_scoped ::
  "memory_env \<Rightarrow> MemoryLimits \<Rightarrow> mem_draws \<Rightarrow> int list \<Rightarrow> MemoryKey list \<Rightarrow> string option \<Rightarrow> int
    \<Rightarrow> mem_db \<Rightarrow> (MemoryError + MemoryRecord list) \<times> mem_db" where
  "read_scoped E L D ids keys repository now db =
     transact D (read_tx E L (key_references keys @ map (\<lambda>i. (i, None)) ids) now (Some repository)) db"

section \<open>Put and delete\<close>

definition check_content_capacity :: "MemoryLimits \<Rightarrow> nat \<Rightarrow> nat \<Rightarrow> nat \<Rightarrow> MemoryError + unit" where
  "check_content_capacity L current replaced new =
     (if min (current - replaced + new) MEM_USIZE_MAX > ml_total_content_bytes L
      then Inl (ContentCapacity (ml_total_content_bytes L)) else Inr ())"

definition mem_insert ::
  "memory_env \<Rightarrow> MemoryLimits \<Rightarrow> string \<Rightarrow> string \<Rightarrow> int \<Rightarrow> mem_db \<Rightarrow> MemoryError + MemoryRecord \<times> mem_db" where
  "mem_insert E L content identity now db =
     (if identity_exists db identity None then Inl Duplicate
      else case totals db of (records, bytes) \<Rightarrow>
      if records \<ge> ml_records L then Inl (RecordCapacity (ml_records L))
      else and_then (check_content_capacity L bytes 0 (length content)) (\<lambda>_.
      and_then (allocate_id db) (\<lambda>i.
      and_then (insert_row \<lparr>row_id = i, row_content = content, row_identity = identity,
          row_created_at_ms = now, row_updated_at_ms = now, row_last_scanned_at_ms = None,
          row_scan_count = 0, row_last_used_at_ms = None, row_use_count = 0,
          row_probation_until_ms = Some (saturating_add_i64 now (ml_probation_duration_ms L)),
          row_version = 1, row_metadata = metadata_default\<rparr> db) (\<lambda>db'.
      and_then (load_one E L i db') (\<lambda>loaded.
      and_then (ok_or loaded MemNotFound) (\<lambda>m. Inr (m, db')))))))"

definition mem_replace ::
  "memory_env \<Rightarrow> MemoryLimits \<Rightarrow> string \<Rightarrow> string \<Rightarrow> MemoryKey \<Rightarrow> int \<Rightarrow> mem_db
    \<Rightarrow> MemoryError + MemoryRecord \<times> mem_db" where
  "mem_replace E L content identity key now db =
     (case find_row (mk_id key) db of
        None \<Rightarrow> Inl MemNotFound
      | Some current \<Rightarrow>
          if as_u64 (row_version current) \<noteq> mk_version key then Inl MemConflict
          else if identity_exists db identity (Some (mk_id key)) then Inl Duplicate
          else case totals db of (_, bytes) \<Rightarrow>
          and_then (check_content_capacity L bytes (length (row_content current)) (length content)) (\<lambda>_.
          and_then (ok_or (checked_add_i64 (row_version current) 1) MemConflict) (\<lambda>next_version.
          and_then (update_row (mk_id key) (\<lambda>r. r\<lparr>
              row_content := content, row_identity := identity, row_updated_at_ms := now,
              row_last_scanned_at_ms := None, row_scan_count := 0,
              row_last_used_at_ms := None, row_use_count := 0,
              row_probation_until_ms := Some (saturating_add_i64 now (ml_probation_duration_ms L)),
              row_version := next_version\<rparr>) db) (\<lambda>db'.
          and_then (load_one E L (mk_id key) db') (\<lambda>loaded.
          and_then (ok_or loaded MemNotFound) (\<lambda>m. Inr (m, db')))))))"

text \<open>A replacement keeps the ownership of the record it replaces; an insertion draws a new one.\<close>

definition put_ownership ::
  "memory_env \<Rightarrow> MemoryLimits \<Rightarrow> mem_draws \<Rightarrow> MemoryKey option \<Rightarrow> mem_db \<Rightarrow> MemoryError + string" where
  "put_ownership E L D replacement db =
     (case replacement of
        None \<Rightarrow> Inr (dr_ownership D 0)
      | Some key \<Rightarrow> and_then (load_one E L (mk_id key) db) (\<lambda>loaded.
          case loaded of
            None \<Rightarrow> Inr (dr_ownership D 0)
          | Some m \<Rightarrow> (case md_ownership_id (mr_metadata m) of
                None \<Rightarrow> Inr (dr_ownership D 0) | Some identity \<Rightarrow> Inr identity)))"

definition put_tx ::
  "memory_env \<Rightarrow> MemoryLimits \<Rightarrow> mem_draws \<Rightarrow> string \<Rightarrow> MemoryMetadata \<Rightarrow> MemoryKey option \<Rightarrow> int
    \<Rightarrow> mem_db \<Rightarrow> MemoryError + MemoryRecord \<times> mem_db" where
  "put_tx E L D content metadata replacement now db =
     (let db = prune_expired now db in
      and_then (put_ownership E L D replacement db) (\<lambda>ownership.
      let metadata = metadata\<lparr>md_ownership_id := Some ownership\<rparr> in
      and_then (metadata_validate E metadata) (\<lambda>_.
      let identity = metadata_identity E metadata content in
      and_then (case replacement of
          Some key \<Rightarrow> mem_replace E L content identity key now db
        | None \<Rightarrow> mem_insert E L content identity now db) (\<lambda>(m, db).
      and_then (save_metadata E (mk_id (mr_key m)) metadata db) (\<lambda>db.
      and_then (load_one E L (mk_id (mr_key m)) db) (\<lambda>loaded.
      and_then (ok_or loaded MemNotFound) (\<lambda>m. Inr (m, db))))))))"

definition put_metadata_local ::
  "memory_env \<Rightarrow> MemoryLimits \<Rightarrow> mem_draws \<Rightarrow> string \<Rightarrow> MemoryMetadata \<Rightarrow> MemoryKey option \<Rightarrow> int
    \<Rightarrow> mem_db \<Rightarrow> (MemoryError + MemoryRecord) \<times> mem_db" where
  "put_metadata_local E L D content metadata replacement now db =
     (case validate_authored_content E L content metadata of
        Inl e \<Rightarrow> (Inl e, db)
      | Inr _ \<Rightarrow> transact D (put_tx E L D content metadata replacement now) db)"

definition put_with_metadata ::
  "memory_env \<Rightarrow> MemoryLimits \<Rightarrow> mem_draws \<Rightarrow> string \<Rightarrow> MemoryMetadata \<Rightarrow> MemoryKey option \<Rightarrow> int
    \<Rightarrow> mem_db \<Rightarrow> (MemoryError + MemoryRecord) \<times> mem_db" where
  "put_with_metadata E L D content metadata replacement now db =
     (if \<not> opt_all is_local_key replacement then (Inl RemoteReadOnly, db)
      else put_metadata_local E L D content metadata replacement now db)"

definition put_local ::
  "memory_env \<Rightarrow> MemoryLimits \<Rightarrow> mem_draws \<Rightarrow> string \<Rightarrow> MemoryKey option \<Rightarrow> int
    \<Rightarrow> mem_db \<Rightarrow> (MemoryError + MemoryRecord) \<times> mem_db" where
  "put_local E L D content replacement now db =
     put_with_metadata E L D content metadata_default replacement now db"

definition delete_tx :: "MemoryKey \<Rightarrow> mem_db \<Rightarrow> MemoryError + unit \<times> mem_db" where
  "delete_tx key db =
     (case find_row (mk_id key) db of
        None \<Rightarrow> Inr ((), db)
      | Some r \<Rightarrow>
          if as_u64 (row_version r) \<noteq> mk_version key then Inl MemConflict
          else Inr ((), db\<lparr>db_rows := filter (\<lambda>r. row_id r \<noteq> mk_id key) (db_rows db)\<rparr>))"

definition delete_local ::
  "mem_draws \<Rightarrow> MemoryKey \<Rightarrow> mem_db \<Rightarrow> (MemoryError + unit) \<times> mem_db" where
  "delete_local D key db =
     (if \<not> is_local_key key then (Inl RemoteReadOnly, db) else transact D (delete_tx key) db)"

section \<open>List and export\<close>

definition list_tx ::
  "memory_env \<Rightarrow> MemoryLimits \<Rightarrow> int \<Rightarrow> mem_db \<Rightarrow> MemoryError + MemoryRecord list \<times> mem_db" where
  "list_tx E L now db =
     (let db = prune_expired now db in
      and_then (load_all E L db) (\<lambda>loaded. Inr (filter (safe_record E) loaded, db)))"

definition list_local ::
  "memory_env \<Rightarrow> MemoryLimits \<Rightarrow> mem_draws \<Rightarrow> int \<Rightarrow> mem_db \<Rightarrow> (MemoryError + MemoryRecord list) \<times> mem_db" where
  "list_local E L D now db = transact D (list_tx E L now) db"

definition page_of ::
  "ExportCursor option \<Rightarrow> nat \<Rightarrow> MemoryRecord list \<Rightarrow> MemoryRecord list \<times> ExportCursor option" where
  "page_of cursor limit records =
     (let after = (case cursor of None \<Rightarrow> 0 | Some c \<Rightarrow> ec_id c);
          rest = filter (\<lambda>r. mk_id (mr_key r) > after) records;
          limit = max 1 (min limit MAX_EXPORT_PAGE_RECORDS);
          page = take limit rest
      in (page, if length rest > limit
                then Some \<lparr>ec_namespace = [], ec_id = mk_id (mr_key (last page))\<rparr> else None))"

definition export_local_page ::
  "memory_env \<Rightarrow> MemoryLimits \<Rightarrow> mem_draws \<Rightarrow> ExportCursor option \<Rightarrow> nat \<Rightarrow> int
    \<Rightarrow> mem_db \<Rightarrow> (MemoryError + MemoryRecord list \<times> ExportCursor option) \<times> mem_db" where
  "export_local_page E L D cursor limit now db =
     (case list_local E L D now db of
        (Inl e, db') \<Rightarrow> (Inl e, db')
      | (Inr records, db') \<Rightarrow> (Inr (page_of cursor limit records), db'))"

definition lesson_page ::
  "memory_env \<Rightarrow> MemoryLimits \<Rightarrow> mem_draws \<Rightarrow> LessonQuery \<Rightarrow> int \<Rightarrow> int
    \<Rightarrow> mem_db \<Rightarrow> (MemoryError + MemoryRecord list) \<times> mem_db" where
  "lesson_page E L D q after now db =
     (case list_local E L D now db of
        (Inl e, db') \<Rightarrow> (Inl e, db')
      | (Inr records, db') \<Rightarrow>
          (Inr (take MAX_EXPORT_PAGE_RECORDS
             (filter (\<lambda>r. mk_id (mr_key r) > after \<and> query_matches E q r) records)), db'))"

section \<open>Import\<close>

text \<open>\<open>if !xs.contains(&x) { xs.push(x) }\<close>\<close>

definition push_new :: "'a list \<Rightarrow> 'a \<Rightarrow> 'a list" where
  "push_new xs x = (if x \<in> set xs then xs else xs @ [x])"

definition source_ownership :: "memory_env \<Rightarrow> MemoryRecord \<Rightarrow> string" where
  "source_ownership E memory =
     (case md_ownership_id (mr_metadata memory) of
        Some i \<Rightarrow> i
      | None \<Rightarrow> take 32 (me_sha_hex E (me_record_json E (mr_key memory) (mr_content memory)
                   (mr_metadata memory) (mr_created_at_ms memory))))"

definition imported_metadata :: "memory_env \<Rightarrow> MemoryRecord \<Rightarrow> MemoryMetadata" where
  "imported_metadata E memory =
     (let m = (mr_metadata memory)\<lparr>md_ownership_id := Some (source_ownership E memory)\<rparr> in
      m\<lparr>md_imported_from := push_new (md_imported_from m) (mr_key memory),
        md_transferred_from := push_new (md_transferred_from m)
          \<lparr>or_ownership_id = source_ownership E memory, or_key = mr_key memory\<rparr>\<rparr>)"

definition merge_provenance :: "MemoryMetadata \<Rightarrow> MemoryMetadata \<Rightarrow> MemoryMetadata" where
  "merge_provenance current incoming =
     current\<lparr>md_imported_from := foldl push_new (md_imported_from current) (md_imported_from incoming),
       md_transferred_from := foldl push_new (md_transferred_from current) (md_transferred_from incoming)\<rparr>"

definition merge_step ::
  "memory_env \<Rightarrow> MemoryRecord \<Rightarrow> MemoryMetadata \<Rightarrow> mem_db \<Rightarrow> MemoryError + MemoryRecord \<times> mem_db" where
  "merge_step E current metadata db =
     (let merged = merge_provenance (mr_metadata current) metadata in
      and_then (metadata_validate E merged) (\<lambda>_.
      if merged = mr_metadata current then Inr (current, db)
      else and_then (ok_or (checked_add (mk_version (mr_key current)) 1) MemConflict) (\<lambda>version.
        and_then (update_row (mk_id (mr_key current)) (\<lambda>r. r\<lparr>row_version := as_i64 version,
            row_identity := metadata_identity E merged (mr_content current)\<rparr>) db) (\<lambda>db.
        and_then (save_metadata E (mk_id (mr_key current)) merged db) (\<lambda>db.
        Inr (current\<lparr>mr_key := (mr_key current)\<lparr>mk_version := version\<rparr>, mr_metadata := merged\<rparr>, db))))))"

definition import_new ::
  "memory_env \<Rightarrow> MemoryLimits \<Rightarrow> string \<Rightarrow> MemoryRecord \<Rightarrow> MemoryMetadata \<Rightarrow> int \<Rightarrow> mem_db
    \<Rightarrow> MemoryError + MemoryRecord \<times> mem_db" where
  "import_new E L ownership memory metadata now db =
     (let metadata = metadata\<lparr>md_ownership_id := Some ownership\<rparr> in
      and_then (metadata_validate E metadata) (\<lambda>_.
      and_then (mem_insert E L (mr_content memory)
          (metadata_identity E metadata (mr_content memory)) now db) (\<lambda>(inserted, db).
      and_then (update_row (mk_id (mr_key inserted)) (\<lambda>r. r\<lparr>
          row_version := as_i64 (mk_version (mr_key memory)),
          row_created_at_ms := mr_created_at_ms memory, row_updated_at_ms := mr_updated_at_ms memory,
          row_last_scanned_at_ms := mr_last_scanned_at_ms memory,
          row_scan_count := as_i64 (mr_scan_count memory),
          row_last_used_at_ms := mr_last_used_at_ms memory,
          row_use_count := as_i64 (mr_use_count memory),
          row_probation_until_ms := mr_probation_until_ms memory\<rparr>) db) (\<lambda>db.
      and_then (save_metadata E (mk_id (mr_key inserted)) metadata db) (\<lambda>db.
      and_then (load_one E L (mk_id (mr_key inserted)) db) (\<lambda>loaded.
      and_then (ok_or loaded MemNotFound) (\<lambda>m. Inr (m, db))))))))"

text \<open>
  One record of an import: \<open>existing\<close> are the loaded records, kept current, and \<open>draws\<close> counts the
  ownership identifiers drawn. The first existing record with the same transfer identity absorbs
  the provenance of the incoming one.
\<close>

definition transfer_match :: "memory_env \<Rightarrow> string \<Rightarrow> MemoryRecord \<Rightarrow> bool" where
  "transfer_match E identity r = (transfer_identity E (mr_metadata r) (mr_content r) None = identity)"

fun replace_first :: "('a \<Rightarrow> bool) \<Rightarrow> 'a \<Rightarrow> 'a list \<Rightarrow> 'a list" where
  "replace_first p y [] = []"
| "replace_first p y (x # xs) = (if p x then y # xs else x # replace_first p y xs)"

definition import_step ::
  "memory_env \<Rightarrow> MemoryLimits \<Rightarrow> mem_draws \<Rightarrow> int
    \<Rightarrow> mem_db \<times> MemoryRecord list \<times> nat \<times> MemoryImportReport \<Rightarrow> MemoryRecord
    \<Rightarrow> MemoryError + mem_db \<times> MemoryRecord list \<times> nat \<times> MemoryImportReport" where
  "import_step E L D now = (\<lambda>(db, existing, draws, report) memory.
     (let metadata = imported_metadata E memory;
          identity = transfer_identity E
            ((mr_metadata memory)\<lparr>md_ownership_id := Some (source_ownership E memory)\<rparr>)
            (mr_content memory) (mk_namespace (mr_key memory))
      in case find (transfer_match E identity) existing of
           Some current \<Rightarrow>
             and_then (merge_step E current metadata db) (\<lambda>(current', db).
             Inr (db, replace_first (transfer_match E identity) current' existing, draws,
                  report\<lparr>ir_skipped := ir_skipped report + 1\<rparr>))
         | None \<Rightarrow>
             and_then (import_new E L (dr_ownership D draws) memory metadata now db) (\<lambda>(m, db).
             Inr (db, existing @ [m], draws + 1, report\<lparr>ir_inserted := ir_inserted report + 1\<rparr>))))"

definition import_tx ::
  "memory_env \<Rightarrow> MemoryLimits \<Rightarrow> mem_draws \<Rightarrow> MemoryRecord list \<Rightarrow> int \<Rightarrow> mem_db
    \<Rightarrow> MemoryError + MemoryImportReport \<times> mem_db" where
  "import_tx E L D memories now db =
     (let db = prune_expired now db in
      and_then (load_all E L db) (\<lambda>existing.
      and_then (try_fold (import_step E L D now)
          (db, existing, 0, \<lparr>ir_inserted = 0, ir_skipped = 0\<rparr>) memories) (\<lambda>(db, _, _, report).
      Inr (report, db))))"

definition import_records_local ::
  "memory_env \<Rightarrow> MemoryLimits \<Rightarrow> mem_draws \<Rightarrow> MemoryRecord list \<Rightarrow> int
    \<Rightarrow> mem_db \<Rightarrow> (MemoryError + MemoryImportReport) \<times> mem_db" where
  "import_records_local E L D memories now db =
     (case try_each (\<lambda>memory. and_then (record_validate E ScopePortable L memory) (\<lambda>_.
             validate_authored_content E L (mr_content memory) (mr_metadata memory))) memories of
        Inl e \<Rightarrow> (Inl e, db)
      | Inr _ \<Rightarrow> transact D (import_tx E L D memories now) db)"

definition merge_remote_export ::
  "memory_env \<Rightarrow> MemoryLimits \<Rightarrow> mem_draws \<Rightarrow> MemoryRecord list \<Rightarrow> int
    \<Rightarrow> mem_db \<Rightarrow> (MemoryError + MemoryImportReport) \<times> mem_db" where
  "merge_remote_export E L D memories now db =
     (if memories = [] then (Inr \<lparr>ir_inserted = 0, ir_skipped = 0\<rparr>, db)
      else case try_each (record_validate E ScopeAnyRemote L) memories of
        Inl e \<Rightarrow> (Inl e, db)
      | Inr _ \<Rightarrow> import_records_local E L D memories now db)"

section \<open>Snapshot synchronisation\<close>

definition snapshot_row :: "memory_env \<Rightarrow> MemoryRecord \<Rightarrow> mem_row" where
  "snapshot_row E m =
     \<lparr>row_id = mk_id (mr_key m), row_content = mr_content m,
      row_identity = metadata_identity E (mr_metadata m) (mr_content m),
      row_created_at_ms = mr_created_at_ms m, row_updated_at_ms = mr_updated_at_ms m,
      row_last_scanned_at_ms = mr_last_scanned_at_ms m, row_scan_count = as_i64 (mr_scan_count m),
      row_last_used_at_ms = mr_last_used_at_ms m, row_use_count = as_i64 (mr_use_count m),
      row_probation_until_ms = mr_probation_until_ms m, row_version = as_i64 (mk_version (mr_key m)),
      row_metadata = metadata_default\<rparr>"

definition count_sync :: "MemoryRecord list \<Rightarrow> MemoryRecord \<Rightarrow> SyncReport \<Rightarrow> SyncReport" where
  "count_sync previous m report =
     (case find (\<lambda>p. mk_id (mr_key p) = mk_id (mr_key m)) previous of
        Some p \<Rightarrow> if p = m then report\<lparr>sr_unchanged := sr_unchanged report + 1\<rparr>
                  else report\<lparr>sr_replaced := sr_replaced report + 1\<rparr>
      | None \<Rightarrow> report\<lparr>sr_inserted := sr_inserted report + 1\<rparr>)"

definition sync_step ::
  "memory_env \<Rightarrow> mem_draws \<Rightarrow> MemoryRecord list \<Rightarrow> mem_db \<times> nat \<times> SyncReport \<Rightarrow> MemoryRecord
    \<Rightarrow> MemoryError + mem_db \<times> nat \<times> SyncReport" where
  "sync_step E D previous = (\<lambda>(db, draws, report) m.
     and_then (observe_id (mk_id (mr_key m)) db) (\<lambda>db.
     let report = count_sync previous m report in
     and_then (insert_row (snapshot_row E m) db) (\<lambda>db.
     let fresh = (md_ownership_id (mr_metadata m) = None);
         metadata = (if fresh
           then (mr_metadata m)\<lparr>md_ownership_id := Some (dr_ownership D draws)\<rparr> else mr_metadata m)
     in and_then (save_metadata E (mk_id (mr_key m)) metadata db) (\<lambda>db.
     Inr (db, if fresh then draws + 1 else draws, report)))))"

definition sync_tx ::
  "memory_env \<Rightarrow> MemoryLimits \<Rightarrow> mem_draws \<Rightarrow> MemoryRecord list \<Rightarrow> int \<Rightarrow> mem_db
    \<Rightarrow> MemoryError + SyncReport \<times> mem_db" where
  "sync_tx E L D memories now db =
     (let db = prune_expired now db in
      and_then (load_all E L db) (\<lambda>existing.
      let incoming = map (\<lambda>m. mk_id (mr_key m)) memories;
          deleted = length (filter (\<lambda>m. mk_id (mr_key m) \<notin> set incoming) existing);
          db = db\<lparr>db_rows := [], db_trigger := False\<rparr>
      in and_then (try_fold (sync_step E D existing)
          (db, 0, \<lparr>sr_inserted = 0, sr_replaced = 0, sr_unchanged = 0, sr_deleted = deleted\<rparr>) memories)
        (\<lambda>(db, _, report). Inr (report, db\<lparr>db_trigger := True\<rparr>))))"

definition sync_local_snapshot ::
  "memory_env \<Rightarrow> MemoryLimits \<Rightarrow> mem_draws \<Rightarrow> MemoryRecord list \<Rightarrow> int
    \<Rightarrow> mem_db \<Rightarrow> (MemoryError + SyncReport) \<times> mem_db" where
  "sync_local_snapshot E L D memories now db =
     (case validate_authored_snapshot E L memories of
        Inl e \<Rightarrow> (Inl e, db)
      | Inr _ \<Rightarrow> transact D (sync_tx E L D memories now) db)"

end
