(* ===== verification/Memory_Invariant.thy ===== *)
theory Memory_Invariant
  imports Memory_Local
begin

text \<open>
  The invariant of the private memory store and its preservation by every operation: rows in
  strictly ascending identifier order below the allocator, every row valid, identities unique, the
  record and content limits kept, and an allocator that never goes back. The contract of a
  transaction is the locale \<open>store_transaction\<close>, interpreted on every transaction of
  \<open>Memory_Local\<close>.
\<close>

section \<open>Rows\<close>

definition i64_nat :: "int \<Rightarrow> bool" where
  "i64_nat n = (0 \<le> n \<and> n \<le> I64_MAX)"

definition row_times :: "mem_row \<Rightarrow> bool" where
  "row_times r =
     (row_created_at_ms r \<ge> 0 \<and> row_updated_at_ms r \<ge> row_created_at_ms r \<and>
      opt_all (\<lambda>v. v \<ge> row_updated_at_ms r) (row_last_scanned_at_ms r) \<and>
      opt_all (\<lambda>v. v \<ge> row_updated_at_ms r) (row_last_used_at_ms r) \<and>
      opt_all (\<lambda>v. v \<ge> row_updated_at_ms r) (row_probation_until_ms r))"

text \<open>The validity of a row, over its integer columns.\<close>

definition row_ok :: "memory_env \<Rightarrow> MemoryLimits \<Rightarrow> mem_row \<Rightarrow> bool" where
  "row_ok E L r =
     (0 < row_id r \<and> row_id r < I64_MAX \<and>
      0 < row_version r \<and> row_version r \<le> I64_MAX \<and>
      i64_nat (row_scan_count r) \<and> i64_nat (row_use_count r) \<and>
      \<not> blank (row_content r) \<and> length (row_content r) \<le> ml_content_bytes L \<and> row_times r \<and>
      (row_scan_count r = 0) = (row_last_scanned_at_ms r = None) \<and>
      (row_use_count r = 0) = (row_last_used_at_ms r = None) \<and>
      (row_probation_until_ms r = None \<or> row_use_count r = 0) \<and>
      metadata_validate E (row_metadata r) = Inr ())"

lemma as_u64_zero: "i64_nat n \<Longrightarrow> as_u64 n = 0 \<longleftrightarrow> n = 0"
  using as_i64_as_u64 [of n] by (simp add: i64_nat_def flip: uint_0_iff)

lemma fits_as_u64: "i64_nat n \<Longrightarrow> fits_i64 (as_u64 n)"
  by (simp add: fits_i64_def as_i64_as_u64 i64_nat_def)

lemma as_i64_of_as_u64: "i64_nat n \<Longrightarrow> as_i64 (as_u64 n) = n"
  by (simp add: as_i64_def as_i64_as_u64 i64_nat_def)

lemma as_i64_fits: "fits_i64 n \<Longrightarrow> as_i64 n = uint n \<and> i64_nat (as_i64 n)"
  by (simp add: as_i64_def fits_i64_def i64_nat_def)

lemma as_u64_as_i64: "as_u64 (as_i64 n) = n"
proof (cases "uint n \<le> I64_MAX")
  case True
  then show ?thesis by (simp add: as_u64_def as_i64_def)
next
  case False
  have "(of_int (2 ^ 64) :: u64) = 0"
    by simp
  with False show ?thesis
    by (simp add: as_u64_def as_i64_def)
qed

lemma as_u64_inj: "i64_nat a \<Longrightarrow> i64_nat b \<Longrightarrow> as_u64 a = as_u64 b \<longleftrightarrow> a = b"
  by (metis as_i64_of_as_u64)

lemma row_to_memory_fields [simp]:
  "mr_metadata (row_to_memory r) = row_metadata r"
  "mr_key (row_to_memory r) = key_local (row_id r) (as_u64 (row_version r))"
  "mr_content (row_to_memory r) = row_content r"
  "mr_created_at_ms (row_to_memory r) = row_created_at_ms r"
  "mr_updated_at_ms (row_to_memory r) = row_updated_at_ms r"
  "mr_last_scanned_at_ms (row_to_memory r) = row_last_scanned_at_ms r"
  "mr_scan_count (row_to_memory r) = as_u64 (row_scan_count r)"
  "mr_last_used_at_ms (row_to_memory r) = row_last_used_at_ms r"
  "mr_use_count (row_to_memory r) = as_u64 (row_use_count r)"
  "mr_probation_until_ms (row_to_memory r) = row_probation_until_ms r"
  by (simp_all add: row_to_memory_def)

lemma key_local_fields [simp]:
  "mk_id (key_local i v) = i" "mk_version (key_local i v) = v" "mk_namespace (key_local i v) = None"
  by (simp_all add: key_local_def)

lemma times_valid_row [simp]: "times_valid (row_to_memory r) = row_times r"
  by (simp add: times_valid_def row_times_def)

lemma row_validate_iff:
  assumes "0 < row_version r" and "row_version r \<le> I64_MAX" and "i64_nat (row_scan_count r)"
    and "i64_nat (row_use_count r)" and "row_id r < I64_MAX"
  shows "record_validate E ScopeLocal L (row_to_memory r) = Inr () \<longleftrightarrow> row_ok E L r"
proof -
  have v: "i64_nat (row_version r)"
    using assms by (simp add: i64_nat_def)
  show ?thesis
    using assms v
    by (auto simp: record_validate_def row_ok_def scope_matches_def opt_all_def as_u64_zero
        fits_as_u64)
qed

lemma row_okD:
  assumes "row_ok E L r"
  shows "record_validate E ScopeLocal L (row_to_memory r) = Inr ()" and "row_checks r"
    and "i64_nat (row_version r)" and "i64_nat (row_scan_count r)" and "i64_nat (row_use_count r)"
proof -
  note ok = assms [unfolded row_ok_def]
  show "record_validate E ScopeLocal L (row_to_memory r) = Inr ()"
    using ok assms by (subst row_validate_iff) simp_all
  show "row_checks r" and "i64_nat (row_version r)" and "i64_nat (row_scan_count r)"
    and "i64_nat (row_use_count r)"
    using ok by (simp_all add: row_checks_def i64_nat_def)
qed

lemma row_ok_fields: "row_ok E L r \<Longrightarrow> 0 < row_id r \<and> row_id r < I64_MAX"
  by (simp add: row_ok_def)

lemma validate_loaded_ok: "row_ok E L r \<Longrightarrow> validate_loaded E L r = Inr (row_to_memory r)"
  by (simp add: validate_loaded_def row_okD)

lemma validate_loaded_Inr:
  "validate_loaded E L r = Inr m \<longleftrightarrow>
     record_validate E ScopeLocal L (row_to_memory r) = Inr () \<and> m = row_to_memory r"
  by (auto simp: validate_loaded_def and_then_Inr_iff)

section \<open>Tables\<close>

definition rows_valid :: "memory_env \<Rightarrow> MemoryLimits \<Rightarrow> mem_row list \<Rightarrow> bool" where
  "rows_valid E L rows =
     (sorted_wrt (<) (map row_id rows) \<and> distinct (map row_identity rows) \<and>
      list_all (row_ok E L) rows)"

text \<open>The content limit is one the saturating capacity arithmetic can exceed, as 256 KiB is.\<close>

definition within_memory_limits :: "MemoryLimits \<Rightarrow> mem_row list \<Rightarrow> bool" where
  "within_memory_limits L rows =
     (length rows \<le> ml_records L \<and> content_total rows \<le> ml_total_content_bytes L \<and>
      ml_total_content_bytes L < MEM_USIZE_MAX)"

definition table_ok :: "memory_env \<Rightarrow> MemoryLimits \<Rightarrow> mem_row list \<Rightarrow> bool" where
  "table_ok E L rows = (rows_valid E L rows \<and> within_memory_limits L rows)"

text \<open>
  A database whose allocator is ahead of its rows. Files written by older schema versions have no
  allocator yet, and before version 2 no metadata column.
\<close>

definition mem_ok :: "memory_env \<Rightarrow> MemoryLimits \<Rightarrow> mem_db \<Rightarrow> bool" where
  "mem_ok E L db =
     (0 \<le> db_schema db \<and> db_schema db \<le> MEMORY_SCHEMA_VERSION \<and> table_ok E L (db_rows db) \<and>
      opt_all (\<lambda>n. 0 < n \<and> n \<le> I64_MAX) (db_next_id db) \<and>
      (db_schema db < 2 \<longrightarrow> list_all (\<lambda>r. row_metadata r = metadata_default) (db_rows db)) \<and>
      (db_schema db = MEMORY_SCHEMA_VERSION \<longrightarrow> db_trigger db \<and>
         (\<exists>n. db_next_id db = Some n \<and> list_all (\<lambda>r. row_id r < n) (db_rows db))))"

text \<open>
  Inside a transaction: \<open>allocated\<close> is what holds while a snapshot is being rebuilt, \<open>opened\<close> what
  holds between transactions once the file has been opened.
\<close>

definition allocated :: "memory_env \<Rightarrow> MemoryLimits \<Rightarrow> int \<Rightarrow> mem_db \<Rightarrow> bool" where
  "allocated E L n db =
     (db_schema db = MEMORY_SCHEMA_VERSION \<and> rows_valid E L (db_rows db) \<and>
      db_next_id db = Some n \<and> 0 < n \<and> n \<le> I64_MAX \<and> list_all (\<lambda>r. row_id r < n) (db_rows db))"

definition opened :: "memory_env \<Rightarrow> MemoryLimits \<Rightarrow> int \<Rightarrow> mem_db \<Rightarrow> bool" where
  "opened E L n db = (allocated E L n db \<and> db_trigger db \<and> within_memory_limits L (db_rows db))"

lemma opened_allocated: "opened E L n db \<Longrightarrow> allocated E L n db"
  by (simp add: opened_def)

lemma opened_mem_ok: "opened E L n db \<Longrightarrow> mem_ok E L db"
  by (simp add: opened_def allocated_def mem_ok_def table_ok_def MEMORY_SCHEMA_VERSION_def opt_all_def)

lemma mem_ok_opened: "mem_ok E L db \<Longrightarrow> db_schema db = MEMORY_SCHEMA_VERSION \<Longrightarrow> \<exists>n. opened E L n db"
  by (auto simp: opened_def allocated_def mem_ok_def table_ok_def MEMORY_SCHEMA_VERSION_def opt_all_def)

lemma rows_valid_Nil [simp]: "rows_valid E L []"
  by (simp add: rows_valid_def)

lemma sorted_ids_distinct: "sorted_wrt (<) (map row_id rows) \<Longrightarrow> distinct (map row_id rows)"
  by (simp add: strict_sorted_iff)

lemma rows_valid_constraints: "rows_valid E L rows \<Longrightarrow> table_constraints rows"
  by (auto simp: rows_valid_def table_constraints_def list_all_iff sorted_ids_distinct row_okD(2))

lemma content_total_contents: "content_total rows = sum_list (map length (map row_content rows))"
  by (simp add: content_total_def comp_def)

lemma content_total_filter: "content_total (filter p rows) \<le> content_total rows"
  by (induction rows) (auto simp: content_total_def)

lemma sorted_ids_filter:
  "sorted_wrt (<) (map row_id rows) \<Longrightarrow> sorted_wrt (<) (map row_id (filter p rows))"
  by (simp add: sorted_wrt_map sorted_wrt_filter)

lemma rows_valid_filter: "rows_valid E L rows \<Longrightarrow> rows_valid E L (filter p rows)"
  by (auto simp: rows_valid_def sorted_ids_filter distinct_map_filter list_all_iff)

lemma within_memory_limits_filter: "within_memory_limits L rows \<Longrightarrow> within_memory_limits L (filter p rows)"
  using content_total_filter [of p rows]
  by (auto simp: within_memory_limits_def intro: le_trans [OF length_filter_le])

lemma opened_filter:
  "opened E L n db \<Longrightarrow> opened E L n (db\<lparr>db_rows := filter p (db_rows db)\<rparr>)"
  by (auto simp: opened_def allocated_def rows_valid_filter within_memory_limits_filter list_all_iff)

lemma opened_prune: "opened E L n db \<Longrightarrow> opened E L n (prune_expired now db)"
  by (simp add: prune_expired_def opened_filter)

lemma find_row_Some:
  "find_row i db = Some r \<Longrightarrow> r \<in> set (db_rows db) \<and> row_id r = i"
  by (auto simp: find_row_def find_Some_iff)

lemma find_by_key: "distinct (map f xs) \<Longrightarrow> x \<in> set xs \<Longrightarrow> find (\<lambda>y. f y = f x) xs = Some x"
  by (induction xs) (auto simp: image_iff)

lemma find_row_iff:
  assumes "allocated E L n db"
  shows "find_row i db = Some r \<longleftrightarrow> r \<in> set (db_rows db) \<and> row_id r = i"
proof -
  have "distinct (map row_id (db_rows db))"
    using assms by (simp add: allocated_def rows_valid_def sorted_ids_distinct)
  then have "r \<in> set (db_rows db) \<Longrightarrow> row_id r = i \<Longrightarrow> find_row i db = Some r"
    unfolding find_row_def using find_by_key [of row_id "db_rows db" r] by simp
  then show ?thesis
    using find_row_Some by blast
qed

lemma allocated_row:
  "allocated E L n db \<Longrightarrow> find_row i db = Some r \<Longrightarrow> row_ok E L r \<and> row_id r = i \<and> i < n"
  using find_row_Some [of i db r] by (auto simp: allocated_def rows_valid_def list_all_iff)

lemmas opened_row = allocated_row [OF opened_allocated]

lemma load_all_ok:
  assumes "allocated E L n db"
  shows "load_all E L db = Inr (map row_to_memory (db_rows db))"
proof -
  have "list_all (row_ok E L) rows \<Longrightarrow> try_map (validate_loaded E L) rows = Inr (map row_to_memory rows)"
    for rows
    by (induction rows) (simp_all add: validate_loaded_ok)
  with assms show ?thesis
    by (simp add: load_all_def allocated_def rows_valid_def)
qed

lemma load_one_ok:
  "allocated E L n db \<Longrightarrow> load_one E L i db = Inr (map_option row_to_memory (find_row i db))"
  by (auto simp: load_one_def validate_loaded_ok dest: allocated_row split: option.split)

section \<open>Statements\<close>

lemma update_row_Inr:
  "update_row i f db = Inr db' \<Longrightarrow>
     db' = db\<lparr>db_rows := map (\<lambda>r. if row_id r = i then f r else r) (db_rows db)\<rparr> \<and>
     table_constraints (db_rows db')"
  by (auto simp: update_row_def Let_def split: if_splits)

lemma find_map_update:
  assumes "\<And>r. row_id (f r) = row_id r"
  shows "find (\<lambda>r. row_id r = j) (map (\<lambda>r. if row_id r = i then f r else r) rows) =
     (if j = i then map_option f (find (\<lambda>r. row_id r = i) rows) else find (\<lambda>r. row_id r = j) rows)"
  by (induction rows) (auto simp: assms)

lemma find_row_update:
  assumes "update_row i f db = Inr db'" and "\<And>r. row_id (f r) = row_id r"
  shows "find_row j db' = (if j = i then map_option f (find_row i db) else find_row j db)"
  using find_map_update [of f j i "db_rows db", OF assms(2)] update_row_Inr [OF assms(1)]
  by (simp add: find_row_def)

lemma update_row_allocated:
  assumes db: "allocated E L n db" and up: "update_row i f db = Inr db'"
    and ids: "\<And>r. row_id (f r) = row_id r"
    and ok: "\<And>r. find_row i db = Some r \<Longrightarrow> row_ok E L (f r)"
  shows "allocated E L n db'"
proof -
  note d = update_row_Inr [OF up]
  have rows: "db_rows db' = map (\<lambda>r. if row_id r = i then f r else r) (db_rows db)"
    using d by simp
  then have same_ids: "map row_id (db_rows db') = map row_id (db_rows db)"
    by (simp add: ids)
  have "row_ok E L r'" if in_rows: "r' \<in> set (db_rows db')" for r'
  proof -
    from in_rows rows obtain r where r: "r \<in> set (db_rows db)" and r': "r' = (if row_id r = i then f r else r)"
      by auto
    show ?thesis
      using r' r ok [of r] find_row_iff [OF db, of i r] db
      by (auto simp: allocated_def rows_valid_def list_all_iff)
  qed
  moreover have "distinct (map row_identity (db_rows db'))"
    using d unfolding table_constraints_def by blast
  moreover have "\<forall>j \<in> set (map row_id (db_rows db')). j < n"
    using db unfolding same_ids by (simp add: allocated_def list_all_iff)
  moreover have "sorted_wrt (<) (map row_id (db_rows db'))"
    using db by (simp add: same_ids allocated_def rows_valid_def)
  moreover have "db_schema db' = db_schema db" and "db_next_id db' = db_next_id db"
    using d by simp_all
  ultimately show ?thesis
    using db by (simp add: allocated_def rows_valid_def list_all_iff)
qed

lemma content_total_update:
  assumes "\<And>r. row_content (f r) = row_content r"
  shows "content_total (map (\<lambda>r. if row_id r = i then f r else r) rows) = content_total rows"
  unfolding content_total_def map_map by (rule arg_cong [where f = sum_list], rule map_cong) (simp_all add: assms)

lemma update_row_opened:
  assumes "opened E L n db" and "update_row i f db = Inr db'" and "\<And>r. row_id (f r) = row_id r"
    and "\<And>r. row_content (f r) = row_content r"
    and "\<And>r. find_row i db = Some r \<Longrightarrow> row_ok E L (f r)"
  shows "opened E L n db'"
proof -
  have "allocated E L n db'"
    using opened_allocated [OF assms(1)] assms(2,3,5) by (rule update_row_allocated)
  with assms(1) update_row_Inr [OF assms(2)] show ?thesis
    by (simp add: opened_def within_memory_limits_def content_total_update [of f, OF assms(4)])
qed

lemma insort_at_end:
  "list_all (\<lambda>r. row_id r < i) rows \<Longrightarrow> row_id r = i \<Longrightarrow> insort_key row_id r rows = rows @ [r]"
  by (induction rows) auto

lemma allocate_id_Inr:
  assumes "allocate_id db = Inr i" and "allocated E L n db"
  shows "n \<le> i" and "0 < i" and "i < I64_MAX" and "list_all (\<lambda>r. row_id r < i) (db_rows db)"
proof -
  from assms show "n \<le> i" and "i < I64_MAX" and "0 < i"
    by (auto simp: allocate_id_def allocated_def result_simps Let_def checked_add_i64_def split: if_splits)
  with assms(2) show "list_all (\<lambda>r. row_id r < i) (db_rows db)"
    by (fastforce simp: allocated_def list_all_iff)
qed

lemma load_one_Some:
  "load_one E L i db = Inr (Some m) \<Longrightarrow>
     \<exists>r. find_row i db = Some r \<and> record_validate E ScopeLocal L (row_to_memory r) = Inr () \<and>
         m = row_to_memory r"
  by (auto simp: load_one_def validate_loaded_Inr and_then_Inr_iff split: option.splits)

lemma insert_row_Inr:
  assumes db: "opened E L n db" and ins: "insert_row r db = Inr db'"
    and above: "list_all (\<lambda>q. row_id q < row_id r) (db_rows db)"
  shows "db' = db\<lparr>db_rows := db_rows db @ [r], db_next_id := Some (row_id r + 1)\<rparr>"
    and "row_checks r" and "row_identity r \<notin> row_identity ` set (db_rows db)"
  using ins db unfolding insert_row_def insort_at_end [OF above refl]
  by (auto simp: opened_def allocated_def allocator_trigger_def Let_def table_constraints_def
      split: if_splits option.splits)

lemma find_row_append:
  "list_all (\<lambda>q. row_id q < row_id r) (db_rows db) \<Longrightarrow>
     find_row j (db\<lparr>db_rows := db_rows db @ [r], db_next_id := x\<rparr>) =
       (if j = row_id r then Some r else find_row j db)"
proof -
  have "list_all (\<lambda>q. row_id q < row_id r) rows \<Longrightarrow>
      find (\<lambda>q. row_id q = j) (rows @ [r]) =
        (if j = row_id r then Some r else find (\<lambda>q. row_id q = j) rows)" for rows
    by (induction rows) auto
  then show "list_all (\<lambda>q. row_id q < row_id r) (db_rows db) \<Longrightarrow> ?thesis"
    by (simp add: find_row_def)
qed

text \<open>
  A successful insertion appends one fresh row under an identifier no smaller than the allocator's,
  and moves the allocator past it.
\<close>

definition fresh_row :: "MemoryLimits \<Rightarrow> int \<Rightarrow> string \<Rightarrow> string \<Rightarrow> int \<Rightarrow> mem_row" where
  "fresh_row L i content identity now =
     \<lparr>row_id = i, row_content = content, row_identity = identity,
      row_created_at_ms = now, row_updated_at_ms = now, row_last_scanned_at_ms = None,
      row_scan_count = 0, row_last_used_at_ms = None, row_use_count = 0,
      row_probation_until_ms = Some (saturating_add_i64 now (ml_probation_duration_ms L)),
      row_version = 1, row_metadata = metadata_default\<rparr>"

lemma mem_insert_Inr:
  assumes db: "opened E L n db" and ins: "mem_insert E L content identity now db = Inr (m, db')"
  obtains i where "n \<le> i" and "list_all (\<lambda>q. row_id q < i) (db_rows db)"
    and "m = row_to_memory (fresh_row L i content identity now)"
    and "db' = db\<lparr>db_rows := db_rows db @ [fresh_row L i content identity now], db_next_id := Some (i + 1)\<rparr>"
    and "opened E L (i + 1) db'"
proof -
  from ins obtain i where dup: "\<not> identity_exists db identity None"
    and room: "length (db_rows db) < ml_records L"
    and bytes: "check_content_capacity L (content_total (db_rows db)) 0 (length content) = Inr ()"
    and alloc: "allocate_id db = Inr i"
    and row: "insert_row (fresh_row L i content identity now) db = Inr db'"
    and loaded: "load_one E L i db' = Inr (Some m)"
    by (auto simp: mem_insert_def totals_def fresh_row_def result_simps split: if_splits)
  let ?r = "fresh_row L i content identity now"
  note i = allocate_id_Inr [OF alloc opened_allocated [OF db]]
  have rid: "row_id ?r = i"
    by (simp add: fresh_row_def)
  note ins' = insert_row_Inr [OF db row, unfolded rid, OF i(4)]
  from ins'(1) have "find_row i db' = Some ?r"
    using find_row_append [of ?r db i] i(4) rid by simp
  with load_one_Some [OF loaded] have m: "m = row_to_memory ?r"
    and valid: "record_validate E ScopeLocal L (row_to_memory ?r) = Inr ()"
    by auto
  have "row_ok E L ?r"
    using valid i(3) by (subst (asm) row_validate_iff) (simp_all add: fresh_row_def i64_nat_def I64_MAX_def)
  then have "rows_valid E L (db_rows db @ [?r])"
    using db ins'(3) i(4)
    by (auto simp: opened_def allocated_def rows_valid_def sorted_wrt_append list_all_iff fresh_row_def)
  moreover have "content_total (db_rows db @ [?r]) = content_total (db_rows db) + length content"
    by (simp add: content_total_def fresh_row_def)
  then have "within_memory_limits L (db_rows db @ [?r])"
    using room bytes db
    by (auto simp: opened_def within_memory_limits_def check_content_capacity_def min_def split: if_splits)
  moreover have "list_all (\<lambda>q. row_id q < i + 1) (db_rows db @ [?r])"
    using i(4) by (auto simp: list_all_iff fresh_row_def)
  ultimately have "opened E L (i + 1) db'"
    using db ins'(1) i(2,3) by (simp add: opened_def allocated_def)
  then show thesis
    using that i(1,4) m ins'(1) by blast
qed

lemma mem_insert_opened:
  assumes "opened E L n db" and "mem_insert E L content identity now db = Inr (m, db')"
  shows "\<exists>n' \<ge> n. opened E L n' db'"
  using assms
proof (rule mem_insert_Inr)
  fix i
  assume "n \<le> i" and "opened E L (i + 1) db'"
  then show ?thesis
    by (intro exI [of _ "i + 1"]) simp
qed

lemma row_ok_metadata: "row_ok E L r \<Longrightarrow> metadata_validate E m = Inr () \<Longrightarrow> row_ok E L (r\<lparr>row_metadata := m\<rparr>)"
  by (auto simp: row_ok_def row_times_def)

lemma save_metadata_Inr:
  "save_metadata E i m db = Inr db' \<Longrightarrow> update_row i (\<lambda>r. r\<lparr>row_metadata := m\<rparr>) db = Inr db'"
  by (simp add: save_metadata_def split: option.splits)

lemma save_metadata_opened:
  assumes "opened E L n db" and "save_metadata E i m db = Inr db'" and "metadata_validate E m = Inr ()"
  shows "opened E L n db'"
  using assms(1) save_metadata_Inr [OF assms(2)]
  by (rule update_row_opened)
    (use assms(1,3) in \<open>auto intro: row_ok_metadata dest: opened_row\<close>)

section \<open>Put and delete\<close>

definition replaced_row :: "MemoryLimits \<Rightarrow> string \<Rightarrow> string \<Rightarrow> int \<Rightarrow> int \<Rightarrow> mem_row \<Rightarrow> mem_row" where
  "replaced_row L content identity now v r = r\<lparr>
     row_content := content, row_identity := identity, row_updated_at_ms := now,
     row_last_scanned_at_ms := None, row_scan_count := 0,
     row_last_used_at_ms := None, row_use_count := 0,
     row_probation_until_ms := Some (saturating_add_i64 now (ml_probation_duration_ms L)),
     row_version := v\<rparr>"

lemma content_total_replace:
  assumes "distinct (map row_id rows)" and "r \<in> set rows" and "row_id r = i"
  shows "content_total (map (\<lambda>r. if row_id r = i then f r else r) rows) + length (row_content r) =
     content_total rows + length (row_content (f r))"
  using assms
proof (induction rows)
  case Nil
  then show ?case by simp
next
  case (Cons q rows)
  show ?case
  proof (cases "row_id q = i")
    case True
    with Cons.prems have "q = r" and "i \<notin> row_id ` set rows"
      by (auto simp: image_iff)
    then have "map (\<lambda>r. if row_id r = i then f r else r) rows = rows"
      by (intro map_idI) auto
    with True \<open>q = r\<close> show ?thesis
      by (simp add: content_total_def)
  next
    case False
    with Cons show ?thesis
      by (auto simp: content_total_def)
  qed
qed

lemma mem_replace_Inr:
  assumes db: "opened E L n db" and rep: "mem_replace E L content identity key now db = Inr (m, db')"
  obtains current where "find_row (mk_id key) db = Some current"
    and "as_u64 (row_version current) = mk_version key"
    and "row_version current < I64_MAX"
    and "m = row_to_memory (replaced_row L content identity now (row_version current + 1) current)"
    and "update_row (mk_id key)
           (replaced_row L content identity now (row_version current + 1)) db = Inr db'"
    and "opened E L n db'"
proof -
  from rep obtain current next_version where cur: "find_row (mk_id key) db = Some current"
    and ver: "as_u64 (row_version current) = mk_version key"
    and bytes: "check_content_capacity L (content_total (db_rows db)) (length (row_content current))
      (length content) = Inr ()"
    and nx: "checked_add_i64 (row_version current) 1 = Some next_version"
    and up: "update_row (mk_id key) (replaced_row L content identity now next_version) db = Inr db'"
    and loaded: "load_one E L (mk_id key) db' = Inr (Some m)"
    unfolding replaced_row_def [abs_def]
    by (auto simp: mem_replace_def totals_def result_simps split: option.splits if_splits)
  let ?f = "replaced_row L content identity now next_version"
  note row = opened_row [OF db cur]
  have nv: "next_version = row_version current + 1" and small: "row_version current < I64_MAX"
    using nx by (auto simp: checked_add_i64_def split: if_splits)
  have ids: "row_id (?f r) = row_id r" for r
    by (simp add: replaced_row_def)
  from find_row_update [OF up ids] cur have "find_row (mk_id key) db' = Some (?f current)"
    by simp
  with load_one_Some [OF loaded] have m: "m = row_to_memory (?f current)"
    and valid: "record_validate E ScopeLocal L (row_to_memory (?f current)) = Inr ()"
    by auto
  have ok: "row_ok E L (?f current)"
    using valid row nv small
    by (subst (asm) row_validate_iff) (simp_all add: replaced_row_def i64_nat_def I64_MAX_def row_ok_def)
  have alloc: "allocated E L n db'"
    using opened_allocated [OF db] up ids by (rule update_row_allocated) (use ok cur in simp)
  have mem: "current \<in> set (db_rows db)" and id: "row_id current = mk_id key"
    using find_row_Some [OF cur] by auto
  have "distinct (map row_id (db_rows db))"
    using db by (simp add: opened_def allocated_def rows_valid_def sorted_ids_distinct)
  from content_total_replace [OF this mem id, of ?f]
  have "content_total (db_rows db') + length (row_content current) =
      content_total (db_rows db) + length content"
    using update_row_Inr [OF up] by (simp add: replaced_row_def)
  moreover have "length (db_rows db') = length (db_rows db)" and "db_trigger db'"
    using update_row_Inr [OF up] db by (simp_all add: opened_def)
  ultimately have "opened E L n db'"
    using alloc bytes db
    by (auto simp: opened_def within_memory_limits_def check_content_capacity_def min_def split: if_splits)
  then show thesis
    using that [OF cur ver small] m up nv by blast
qed

text \<open>What a successful put leaves, for an insertion and for a replacement.\<close>

definition stored_metadata :: "MemoryMetadata \<Rightarrow> string \<Rightarrow> MemoryMetadata" where
  "stored_metadata metadata ownership = metadata\<lparr>md_ownership_id := Some ownership\<rparr>"

lemma put_tx_Inr:
  assumes db: "opened E L n db" and put: "put_tx E L D content metadata replacement now db = Inr (m, db')"
  obtains n' ownership r mid where "n \<le> n'" and "opened E L n' db'"
    and "m = row_to_memory r" and "find_row (row_id r) db' = Some r"
    and "row_content r = content" and "row_metadata r = stored_metadata metadata ownership"
    and "save_metadata E (row_id r) (stored_metadata metadata ownership) mid = Inr db'"
    and "case replacement of
           None \<Rightarrow> \<exists>m'. mem_insert E L content
             (metadata_identity E (stored_metadata metadata ownership) content) now
             (prune_expired now db) = Inr (m', mid) \<and> mk_id (mr_key m') = row_id r
         | Some key \<Rightarrow> row_id r = mk_id key \<and> (\<exists>m'. mem_replace E L content
             (metadata_identity E (stored_metadata metadata ownership) content) key now
             (prune_expired now db) = Inr (m', mid))"
proof -
  note pruned = opened_prune [OF db, of now]
  from put obtain ownership m' mid where valid: "metadata_validate E (stored_metadata metadata ownership) = Inr ()"
    and step: "(case replacement of
        Some key \<Rightarrow> mem_replace E L content
          (metadata_identity E (stored_metadata metadata ownership) content) key now (prune_expired now db)
      | None \<Rightarrow> mem_insert E L content
          (metadata_identity E (stored_metadata metadata ownership) content) now (prune_expired now db))
      = Inr (m', mid)"
    and save: "save_metadata E (mk_id (mr_key m')) (stored_metadata metadata ownership) mid = Inr db'"
    and loaded: "load_one E L (mk_id (mr_key m')) db' = Inr (Some m)"
    unfolding stored_metadata_def by (auto simp: put_tx_def Let_def result_simps)
  let ?i = "mk_id (mr_key m')"
  obtain n' q where n': "n \<le> n'" "opened E L n' mid" and q: "find_row ?i mid = Some q" "row_content q = content"
    and shape: "\<forall>key. replacement = Some key \<longrightarrow> ?i = mk_id key"
  proof (cases replacement)
    case None
    with step have ins: "mem_insert E L content
        (metadata_identity E (stored_metadata metadata ownership) content) now (prune_expired now db) = Inr (m', mid)"
      by simp
    from pruned this show ?thesis
    proof (rule mem_insert_Inr)
      fix i
      assume i: "n \<le> i" "list_all (\<lambda>q. row_id q < i) (db_rows (prune_expired now db))"
        "m' = row_to_memory (fresh_row L i content
           (metadata_identity E (stored_metadata metadata ownership) content) now)"
        "mid = prune_expired now db\<lparr>db_rows := db_rows (prune_expired now db) @ [fresh_row L i content
           (metadata_identity E (stored_metadata metadata ownership) content) now],
           db_next_id := Some (i + 1)\<rparr>" "opened E L (i + 1) mid"
      let ?r = "fresh_row L i content (metadata_identity E (stored_metadata metadata ownership) content) now"
      have rid: "row_id ?r = i" "row_content ?r = content"
        by (simp_all add: fresh_row_def)
      have "find_row i mid = Some ?r"
        unfolding i(4) using find_row_append [of ?r "prune_expired now db" i] i(2) by (simp add: rid)
      then show ?thesis
        using that [of "i + 1" ?r] i(1,3,5) None rid by simp
    qed
  next
    case (Some key)
    with step have rep: "mem_replace E L content
        (metadata_identity E (stored_metadata metadata ownership) content) key now (prune_expired now db) = Inr (m', mid)"
      by simp
    from pruned this show ?thesis
    proof (rule mem_replace_Inr)
      fix current :: mem_row
      let ?f = "replaced_row L content (metadata_identity E (stored_metadata metadata ownership) content)
        now (row_version current + 1)"
      assume c: "find_row (mk_id key) (prune_expired now db) = Some current"
        "as_u64 (row_version current) = mk_version key" "row_version current < I64_MAX"
        "m' = row_to_memory (?f current)"
        "update_row (mk_id key) ?f (prune_expired now db) = Inr mid" "opened E L n mid"
      have "find_row (mk_id key) mid = Some (?f current)"
        using find_row_update [OF c(5)] c(1) by (simp add: replaced_row_def)
      moreover have "row_id current = mk_id key"
        using find_row_Some [OF c(1)] by simp
      ultimately show ?thesis
        using that [of n "?f current"] c(4,6) Some by (simp add: replaced_row_def)
    qed
  qed
  let ?r = "q\<lparr>row_metadata := stored_metadata metadata ownership\<rparr>"
  have qid: "row_id q = ?i"
    using find_row_Some [OF q(1)] by simp
  have found: "find_row ?i db' = Some ?r"
    using find_row_update [OF save_metadata_Inr [OF save]] q(1) by simp
  then have m: "m = row_to_memory ?r"
    using load_one_Some [OF loaded] by auto
  show thesis
  proof (rule that)
    show "n \<le> n'" and "opened E L n' db'"
      using n' save_metadata_opened [OF n'(2) save valid] by simp_all
    show "m = row_to_memory ?r" and "find_row (row_id ?r) db' = Some ?r"
      using m found qid by simp_all
    show "row_content ?r = content" and "row_metadata ?r = stored_metadata metadata ownership"
      using q(2) by simp_all
    show "save_metadata E (row_id ?r) (stored_metadata metadata ownership) mid = Inr db'"
      using save qid by simp
    show "case replacement of
           None \<Rightarrow> \<exists>m'. mem_insert E L content
             (metadata_identity E (stored_metadata metadata ownership) content) now
             (prune_expired now db) = Inr (m', mid) \<and> mk_id (mr_key m') = row_id ?r
         | Some key \<Rightarrow> row_id ?r = mk_id key \<and> (\<exists>m'. mem_replace E L content
             (metadata_identity E (stored_metadata metadata ownership) content) key now
             (prune_expired now db) = Inr (m', mid))"
      using step shape qid by (auto split: option.splits)
  qed
qed

section \<open>Telemetry\<close>

lemma record_scan_opened:
  assumes db: "opened E L n db" and rec: "record_scan now db c = Inr db'"
  shows "opened E L n db'"
proof -
  let ?f = "\<lambda>r. r\<lparr>row_last_scanned_at_ms := Some (max now (max (row_updated_at_ms r)
      (case row_last_scanned_at_ms r of None \<Rightarrow> now | Some t \<Rightarrow> t))),
      row_scan_count := row_scan_count r + 1\<rparr>"
  from rec obtain r where r: "find_row (mk_id (mc_key c)) db = Some r" and small: "row_scan_count r < I64_MAX"
    and up: "update_row (mk_id (mc_key c)) ?f db = Inr db'"
    by (auto simp: record_scan_def split: option.splits if_splits)
  have ok: "row_ok E L (?f r)"
    using opened_row [OF db r] small by (auto simp: row_ok_def row_times_def opt_all_def i64_nat_def)
  from db up show ?thesis
    by (rule update_row_opened) (use r ok in auto)
qed

lemma scan_tx_opened:
  assumes db: "opened E L n db" and scan: "scan_tx E R L query limit now scope db = Inr (s, db')"
  shows "opened E L n db'"
proof -
  from scan have "try_fold (record_scan now) (prune_expired now db) (ms_candidates s) = Inr db'"
    by (auto simp: scan_tx_def Let_def result_simps)
  then show ?thesis
    using opened_prune [OF db] by (rule try_fold_invariant) (rule record_scan_opened)
qed

lemma record_use_ok:
  assumes "row_ok E L r" and "row_use_count r < I64_MAX" and "row_updated_at_ms r \<le> at"
  shows "row_ok E L (record_use at r)"
  using assms by (auto simp: record_use_def row_ok_def row_times_def opt_all_def i64_nat_def)

text \<open>One reference of a read: it is skipped, or its row is marked used and returned.\<close>

lemma read_step_cases:
  assumes db: "opened E L n db"
    and step: "read_step E L now scope (db, seen, records) (i, version) = Inr (db', seen', records')"
  obtains "db' = db" and "seen' = seen" and "records' = records"
  | r where "find_row i db = Some r" and "scope_shows scope (row_to_memory r)"
      and "opt_all (\<lambda>v. v = as_u64 (row_version r)) version" and "safe_record E (row_to_memory r)"
      and "i \<notin> set seen" and "seen' = i # seen"
      and "update_row i (record_use (last_used_at now (row_to_memory r))) db = Inr db'"
      and "records' = records @ [row_to_memory (record_use (last_used_at now (row_to_memory r)) r)]"
      and "opened E L n db'"
proof (cases "find_row i db")
  case None
  with step that(1) show thesis
    by (simp add: read_step_def load_one_ok [OF opened_allocated [OF db]])
next
  case (Some r)
  note row = opened_row [OF db Some]
  show thesis
  proof (cases "\<not> scope_shows scope (row_to_memory r) \<or> \<not> opt_all (\<lambda>v. v = as_u64 (row_version r)) version \<or>
      \<not> safe_record E (row_to_memory r) \<or> i \<in> set seen")
    case True
    with step that(1) Some show thesis
      by (simp add: read_step_def load_one_ok [OF opened_allocated [OF db]])
  next
    case False
    let ?at = "last_used_at now (row_to_memory r)"
    from False step Some obtain uses where small: "row_use_count r < I64_MAX"
      and up: "update_row i (record_use ?at) db = Inr db'"
      and uses: "checked_add (as_u64 (row_use_count r)) 1 = Some uses"
      and rest: "seen' = i # seen" "records' = records @ [(row_to_memory r)\<lparr>mr_last_used_at_ms := Some ?at,
        mr_use_count := uses, mr_probation_until_ms := None\<rparr>]"
      by (auto simp: read_step_def load_one_ok [OF opened_allocated [OF db]] Let_def result_simps
          split: if_splits)
    have "i64_nat (row_use_count r)"
      using row by (simp add: row_ok_def)
    with small uses have "uses = as_u64 (row_use_count r + 1)"
      by (simp add: checked_add_def as_u64_def split: if_splits)
    then have "(row_to_memory r)\<lparr>mr_last_used_at_ms := Some ?at, mr_use_count := uses,
        mr_probation_until_ms := None\<rparr> = row_to_memory (record_use ?at r)"
      by (simp add: row_to_memory_def record_use_def)
    moreover have "opened E L n db'"
      using db up
      by (rule update_row_opened)
        (use row small Some in \<open>auto simp: record_use_def last_used_at_def intro!: record_use_ok [unfolded record_use_def]\<close>)
    ultimately show thesis
      using that(2) [OF Some] False rest up by simp
  qed
qed

lemma read_step_opened:
  assumes "opened E L n (fst s)" and "read_step E L now scope s x = Inr s'"
  shows "opened E L n (fst s')"
proof -
  obtain db seen records i version db' seen' records' where
    "s = (db, seen, records)" "x = (i, version)" "s' = (db', seen', records')"
    by (metis prod_cases3 surj_pair)
  with assms show ?thesis
    using read_step_cases [of E L n db now scope seen records i version db' seen' records']
    by (metis fst_conv)
qed

lemma read_tx_opened:
  assumes db: "opened E L n db" and read: "read_tx E L references now scope db = Inr (records, db')"
  shows "opened E L n db'"
proof -
  from read obtain seen where
    "try_fold (read_step E L now scope) (prune_expired now db, [], []) references = Inr (db', seen, records)"
    by (auto simp: read_tx_def result_simps)
  then have "opened E L n (fst (db', seen, records))"
    by (rule try_fold_invariant) (use opened_prune [OF db] in \<open>auto dest: read_step_opened\<close>)
  then show ?thesis by simp
qed

section \<open>Import\<close>

text \<open>The casts of an imported record land in the range of their columns or break a check.\<close>

lemma as_i64_range: "as_i64 n \<le> I64_MAX" and as_i64_pos: "0 \<le> as_i64 n \<Longrightarrow> i64_nat (as_i64 n)"
proof -
  have "uint n < 2 ^ 64"
    using unsigned_less [of n, where 'a = int] by simp
  then show "as_i64 n \<le> I64_MAX"
    by (simp add: as_i64_def I64_MAX_def)
  then show "0 \<le> as_i64 n \<Longrightarrow> i64_nat (as_i64 n)"
    by (simp add: i64_nat_def)
qed

lemma updated_row_checks:
  assumes "update_row i f db = Inr db'" and "find_row i db = Some r" and "\<And>r. row_id (f r) = row_id r"
  shows "row_checks (f r)"
  using update_row_Inr [OF assms(1)] find_row_Some [OF assms(2)]
  by (auto simp: table_constraints_def list_all_iff split: if_splits)

definition provenance_row :: "int \<Rightarrow> string \<Rightarrow> mem_row \<Rightarrow> mem_row" where
  "provenance_row v identity r = r\<lparr>row_version := v, row_identity := identity\<rparr>"

lemma merge_step_opened:
  assumes db: "opened E L n db" and merge: "merge_step E current metadata db = Inr (current', db')"
  shows "opened E L n db'"
proof -
  let ?merged = "merge_provenance (mr_metadata current) metadata"
  let ?i = "mk_id (mr_key current)"
  from merge have valid: "metadata_validate E ?merged = Inr ()"
    and cases: "db' = db \<or> (\<exists>version mid. update_row ?i (provenance_row (as_i64 version)
      (metadata_identity E ?merged (mr_content current))) db = Inr mid \<and> save_metadata E ?i ?merged mid = Inr db')"
    unfolding provenance_row_def [abs_def]
    by (auto simp: merge_step_def Let_def result_simps split: if_splits)
  from cases show ?thesis
  proof
    assume "db' = db"
    with db show ?thesis by simp
  next
    assume "\<exists>version mid. update_row ?i (provenance_row (as_i64 version)
      (metadata_identity E ?merged (mr_content current))) db = Inr mid \<and> save_metadata E ?i ?merged mid = Inr db'"
    then obtain version mid where up: "update_row ?i (provenance_row (as_i64 version)
        (metadata_identity E ?merged (mr_content current))) db = Inr mid"
      and save: "save_metadata E ?i ?merged mid = Inr db'"
      by blast
    have ok: "row_ok E L (provenance_row (as_i64 version) (metadata_identity E ?merged (mr_content current)) r)"
      if found: "find_row ?i db = Some r" for r
      using updated_row_checks [OF up found] opened_row [OF db found] as_i64_range [of version]
      by (auto simp: provenance_row_def row_checks_def row_ok_def row_times_def)
    from db up have "opened E L n mid"
      by (rule update_row_opened) (rule ok | simp add: provenance_row_def)+
    then show ?thesis
      using save valid by (rule save_metadata_opened)
  qed
qed

definition carried_row :: "MemoryRecord \<Rightarrow> mem_row \<Rightarrow> mem_row" where
  "carried_row memory r = r\<lparr>
     row_version := as_i64 (mk_version (mr_key memory)),
     row_created_at_ms := mr_created_at_ms memory, row_updated_at_ms := mr_updated_at_ms memory,
     row_last_scanned_at_ms := mr_last_scanned_at_ms memory,
     row_scan_count := as_i64 (mr_scan_count memory),
     row_last_used_at_ms := mr_last_used_at_ms memory,
     row_use_count := as_i64 (mr_use_count memory),
     row_probation_until_ms := mr_probation_until_ms memory\<rparr>"

lemma import_new_opened:
  assumes db: "opened E L n db"
    and new: "import_new E L ownership memory metadata now db = Inr (m, db')"
  shows "\<exists>n' \<ge> n. opened E L n' db'"
proof -
  let ?md = "metadata\<lparr>md_ownership_id := Some ownership\<rparr>"
  from new obtain inserted mid mid' where valid: "metadata_validate E ?md = Inr ()"
    and ins: "mem_insert E L (mr_content memory) (metadata_identity E ?md (mr_content memory)) now db
      = Inr (inserted, mid)"
    and up: "update_row (mk_id (mr_key inserted)) (carried_row memory) mid = Inr mid'"
    and save: "save_metadata E (mk_id (mr_key inserted)) ?md mid' = Inr db'"
    and loaded: "load_one E L (mk_id (mr_key inserted)) db' = Inr (Some m)"
    unfolding carried_row_def [abs_def]
    by (auto simp: import_new_def Let_def result_simps)
  let ?i = "mk_id (mr_key inserted)"
  from mem_insert_opened [OF db ins] obtain n' where n': "n \<le> n'" "opened E L n' mid"
    by blast
  have ids: "row_id (carried_row memory r) = row_id r" "row_content (carried_row memory r) = row_content r" for r
    by (simp_all add: carried_row_def)
  have ok: "row_ok E L (carried_row memory r)" if found: "find_row ?i mid = Some r" for r
  proof -
    let ?r = "(carried_row memory r)\<lparr>row_metadata := ?md\<rparr>"
    have "find_row ?i db' = Some ?r"
      using find_row_update [OF save_metadata_Inr [OF save]] find_row_update [OF up ids(1)] found by simp
    then have rv: "record_validate E ScopeLocal L (row_to_memory ?r) = Inr ()"
      using load_one_Some [OF loaded] by auto
    have "row_checks (carried_row memory r)"
      using up found ids(1) by (rule updated_row_checks)
    then have "0 < row_version ?r \<and> row_version ?r \<le> I64_MAX \<and> i64_nat (row_scan_count ?r) \<and> i64_nat (row_use_count ?r)"
      by (auto simp: row_checks_def carried_row_def as_i64_range intro: as_i64_pos)
    moreover have "row_id ?r < I64_MAX"
      using opened_row [OF n'(2) found] by (simp add: carried_row_def row_ok_def)
    ultimately have "row_ok E L ?r"
      using rv by (subst (asm) row_validate_iff) auto
    then have "row_ok E L (?r\<lparr>row_metadata := row_metadata r\<rparr>)"
      by (rule row_ok_metadata) (use opened_row [OF n'(2) found] in \<open>simp add: row_ok_def\<close>)
    then show ?thesis
      by (simp add: carried_row_def)
  qed
  from n'(2) up have "opened E L n' mid'"
    by (rule update_row_opened) (rule ok | simp add: ids)+
  then have "opened E L n' db'"
    using save valid by (rule save_metadata_opened)
  with n'(1) show ?thesis by blast
qed

lemma import_step_opened:
  assumes "\<exists>n' \<ge> n. opened E L n' (fst s)" and "import_step E L D now s memory = Inr s'"
  shows "\<exists>n' \<ge> n. opened E L n' (fst s')"
proof -
  obtain db existing draws report where s: "s = (db, existing, draws, report)"
    by (metis prod_cases4)
  with assms(1) obtain m where m: "n \<le> m" "opened E L m db"
    by auto
  from assms(2) s consider
    current metadata current' where "merge_step E current metadata db = Inr (current', fst s')"
  | ownership metadata r where "import_new E L ownership memory metadata now db = Inr (r, fst s')"
    by (auto simp: import_step_def Let_def result_simps split: option.splits)
  then show ?thesis
  proof cases
    case 1
    with merge_step_opened [OF m(2)] m(1) show ?thesis by blast
  next
    case 2
    with import_new_opened [OF m(2)] m(1) show ?thesis by (meson order_trans)
  qed
qed

lemma import_tx_opened:
  assumes db: "opened E L n db" and imp: "import_tx E L D memories now db = Inr (report, db')"
  shows "\<exists>n' \<ge> n. opened E L n' db'"
proof -
  from imp obtain existing existing' draws where
    "try_fold (import_step E L D now)
      (prune_expired now db, existing, 0, \<lparr>ir_inserted = 0, ir_skipped = 0\<rparr>) memories
      = Inr (db', existing', draws, report)"
    by (auto simp: import_tx_def Let_def result_simps)
  then have "\<exists>n' \<ge> n. opened E L n' (fst (db', existing', draws, report))"
  proof (rule try_fold_invariant)
    show "\<exists>n' \<ge> n. opened E L n' (fst (prune_expired now db, existing, 0 :: nat,
        \<lparr>ir_inserted = 0, ir_skipped = 0\<rparr>))"
      using opened_prune [OF db, of now] by auto
  qed (rule import_step_opened)
  then show ?thesis by simp
qed

lemma put_tx_opened:
  assumes "opened E L n db" and "put_tx E L D content metadata replacement now db = Inr (m, db')"
  shows "\<exists>n' \<ge> n. opened E L n' db'"
  using assms by (rule put_tx_Inr) blast

lemma delete_tx_opened:
  assumes "opened E L n db" and "delete_tx key db = Inr (u, db')"
  shows "opened E L n db'"
  using assms by (auto simp: delete_tx_def opened_filter split: option.splits if_splits)

lemma list_tx_opened:
  assumes "opened E L n db" and "list_tx E L now db = Inr (records, db')"
  shows "opened E L n db'"
  using assms by (auto simp: list_tx_def Let_def result_simps opened_prune)

section \<open>Snapshots\<close>

text \<open>
  What the code relies on outside itself: a drawn identifier is 32 hexadecimal digits, and writing
  it into metadata that had none lengthens the JSON by at most the 32 bytes the validation reserves.
\<close>

definition draws_ok :: "mem_draws \<Rightarrow> bool" where
  "draws_ok D = ((\<forall>i. valid_ownership (dr_migration D i)) \<and> (\<forall>k. valid_ownership (dr_ownership D k)))"

definition json_room :: "memory_env \<Rightarrow> bool" where
  "json_room E = (\<forall>m i s. md_ownership_id m = None \<and> valid_ownership i \<and> me_metadata_json E m = Some s \<longrightarrow>
     (\<exists>t. me_metadata_json E (m\<lparr>md_ownership_id := Some i\<rparr>) = Some t \<and> length t \<le> length s + 32))"

lemma metadata_validate_ownership:
  assumes "json_room E" and "md_ownership_id m = None" and "metadata_validate E m = Inr ()"
    and "valid_ownership i"
  shows "metadata_validate E (m\<lparr>md_ownership_id := Some i\<rparr>) = Inr ()"
proof -
  from assms(3) obtain s where s: "me_metadata_json E m = Some s" "length s + 32 \<le> 16 * 1024"
    using assms(2) by (auto simp: metadata_validate_def split: option.splits if_splits)
  with assms(1,2,4) obtain t where t: "me_metadata_json E (m\<lparr>md_ownership_id := Some i\<rparr>) = Some t"
    and "length t \<le> length s + 32"
    unfolding json_room_def by meson
  with s(2) have "length t \<le> 16 * 1024"
    by simp
  then show ?thesis
    using assms(2,3,4) s(1) t
    by (simp add: metadata_validate_def cong: option.case_cong split: if_splits)
qed

lemma insort_update:
  assumes "row_id r \<notin> row_id ` set rows"
  shows "map (\<lambda>q. if row_id q = row_id r then q\<lparr>row_metadata := m\<rparr> else q) (insort_key row_id r rows) =
     insort_key row_id (r\<lparr>row_metadata := m\<rparr>) rows"
  using assms
proof (induction rows)
  case Nil
  then show ?case by simp
next
  case (Cons q rows)
  have "map (\<lambda>q. if row_id q = row_id r then q\<lparr>row_metadata := m\<rparr> else q) rows = rows"
    using Cons.prems by (intro map_idI) (auto simp: image_iff)
  with Cons show ?case by auto
qed

lemma insort_distinct_head:
  "distinct (map row_id (insort_key row_id r rows)) \<Longrightarrow> row_id r \<notin> row_id ` set rows"
  by (induction rows) (auto simp: set_insort_key split: if_splits)

lemma content_total_insort: "content_total (insort_key row_id r rows) = content_total rows + length (row_content r)"
  by (induction rows) (auto simp: content_total_def)

text \<open>The row a synchronised record ends as: the snapshot's columns with an owner.\<close>

definition synced_metadata :: "mem_draws \<Rightarrow> nat \<Rightarrow> MemoryMetadata \<Rightarrow> MemoryMetadata" where
  "synced_metadata D k m =
     (if md_ownership_id m = None then m\<lparr>md_ownership_id := Some (dr_ownership D k)\<rparr> else m)"

lemma record_validate_ok_iff:
  "record_validate E scope L r = Inr () \<longleftrightarrow>
     0 < mk_id (mr_key r) \<and> mk_version (mr_key r) \<noteq> 0 \<and> fits_i64 (mk_version (mr_key r)) \<and>
     fits_i64 (mr_scan_count r) \<and> fits_i64 (mr_use_count r) \<and>
     opt_all is_valid_namespace (mk_namespace (mr_key r)) \<and>
     scope_matches scope (mk_namespace (mr_key r)) \<and>
     \<not> blank (mr_content r) \<and> length (mr_content r) \<le> ml_content_bytes L \<and> times_valid r \<and>
     (mr_scan_count r = 0) = (mr_last_scanned_at_ms r = None) \<and>
     (mr_use_count r = 0) = (mr_last_used_at_ms r = None) \<and>
     (mr_probation_until_ms r = None \<or> mr_use_count r = 0) \<and>
     metadata_validate E (mr_metadata r) = Inr ()"
  by (auto simp: record_validate_def)

lemma synced_row_ok:
  assumes valid: "record_validate E ScopeLocal L m = Inr ()" and id: "mk_id (mr_key m) < I64_MAX"
    and "json_room E" and "draws_ok D"
  shows "row_ok E L ((snapshot_row E m)\<lparr>row_metadata := synced_metadata D k (mr_metadata m)\<rparr>)"
proof -
  note v = valid [unfolded record_validate_ok_iff]
  have md: "metadata_validate E (synced_metadata D k (mr_metadata m)) = Inr ()"
    using v assms(3,4) metadata_validate_ownership [of E "mr_metadata m"]
    by (simp add: synced_metadata_def draws_ok_def)
  have zero: "uint n = 0 \<longleftrightarrow> n = 0" for n :: u64
    by (rule uint_0_iff)
  have casts: "as_i64 n = uint n" "uint n \<le> I64_MAX" if "fits_i64 n" for n
    using that by (simp_all add: as_i64_fits fits_i64_def)
  have "0 < uint (mk_version (mr_key m))"
    using v zero [of "mk_version (mr_key m)"] unsigned_greater_eq [of "mk_version (mr_key m)"]
    by (metis order_le_less)
  moreover have "row_times ((snapshot_row E m)\<lparr>row_metadata := synced_metadata D k (mr_metadata m)\<rparr>)"
    using v by (simp add: row_times_def times_valid_def snapshot_row_def)
  ultimately show ?thesis
    using v id md casts by (auto simp: row_ok_def snapshot_row_def i64_nat_def zero)
qed

definition rebuilding :: "memory_env \<Rightarrow> MemoryLimits \<Rightarrow> int \<Rightarrow> MemoryRecord list \<Rightarrow> mem_db \<Rightarrow> bool" where
  "rebuilding E L n synced db =
     (\<not> db_trigger db \<and> (\<exists>n' \<ge> n. allocated E L n' db) \<and> length (db_rows db) = length synced \<and>
      content_total (db_rows db) = sum_list (map (\<lambda>m. length (mr_content m)) synced))"

lemma sync_step_rebuilds:
  assumes env: "json_room E" "draws_ok D" and valid: "record_validate E ScopeLocal L m = Inr ()"
    and part: "rebuilding E L n synced db"
    and step: "sync_step E D previous (db, k, report) m = Inr (db', k', report')"
  shows "rebuilding E L n (synced @ [m]) db'"
proof -
  let ?i = "mk_id (mr_key m)" and ?md = "synced_metadata D k (mr_metadata m)"
  let ?r = "(snapshot_row E m)\<lparr>row_metadata := ?md\<rparr>"
  from part obtain n0 where n0: "n \<le> n0" "allocated E L n0 db" and trig: "\<not> db_trigger db"
    by (auto simp: rebuilding_def)
  from step obtain seen mid where obs: "observe_id ?i db = Inr seen"
    and ins: "insert_row (snapshot_row E m) seen = Inr mid"
    and save: "save_metadata E ?i ?md mid = Inr db'"
    by (auto simp: sync_step_def synced_metadata_def Let_def result_simps split: if_splits)
  have small: "?i < I64_MAX" and seen: "seen = db\<lparr>db_next_id := Some (max n0 (?i + 1))\<rparr>"
    using obs n0(2) by (auto simp: observe_id_def allocated_def result_simps checked_add_i64_def split: if_splits)
  have sid: "row_id (snapshot_row E m) = ?i"
    by (simp add: snapshot_row_def)
  have mid: "mid = seen\<lparr>db_rows := insort_key row_id (snapshot_row E m) (db_rows db)\<rparr>"
    and con: "table_constraints (insort_key row_id (snapshot_row E m) (db_rows db))"
    using ins trig unfolding insert_row_def seen by (auto simp: allocator_trigger_def Let_def split: if_splits)
  have new: "?i \<notin> row_id ` set (db_rows db)"
    using con sid insort_distinct_head [of "snapshot_row E m" "db_rows db"] by (simp add: table_constraints_def)
  then have rows: "db_rows db' = insort_key row_id ?r (db_rows db)"
    using update_row_Inr [OF save_metadata_Inr [OF save]] insort_update [of "snapshot_row E m" "db_rows db" ?md] sid
    by (simp add: mid)
  have ids: "row_id ?r = ?i" "row_content ?r = mr_content m"
    by (simp_all add: snapshot_row_def)
  have ok: "row_ok E L ?r"
    using synced_row_ok [OF valid small env] .
  have "table_constraints (db_rows db')"
    using update_row_Inr [OF save_metadata_Inr [OF save]] by blast
  then have distinct: "distinct (map row_identity (db_rows db'))" "distinct (map row_id (db_rows db'))"
    by (simp_all add: table_constraints_def)
  have "sorted (map row_id (db_rows db))"
    using n0(2) by (simp add: allocated_def rows_valid_def strict_sorted_iff)
  then have "sorted (map row_id (db_rows db'))"
    unfolding rows by (simp add: sorted_insort_key)
  then have "rows_valid E L (db_rows db')"
    using distinct ok n0(2) unfolding rows_valid_def strict_sorted_iff
    by (auto simp: rows allocated_def rows_valid_def list_all_iff set_insort_key)
  moreover have "list_all (\<lambda>q. row_id q < max n0 (?i + 1)) (db_rows db')"
    using n0(2) ids(1) by (fastforce simp: rows allocated_def list_all_iff set_insort_key less_max_iff_disj)
  moreover have "db_schema db' = db_schema db" "db_next_id db' = Some (max n0 (?i + 1))" "\<not> db_trigger db'"
    using update_row_Inr [OF save_metadata_Inr [OF save]] trig by (simp_all add: mid seen)
  ultimately have "allocated E L (max n0 (?i + 1)) db'" and "\<not> db_trigger db'"
    using n0(2) small by (simp_all add: allocated_def less_max_iff_disj)
  moreover have "length (db_rows db') = length (synced @ [m])"
    "content_total (db_rows db') = sum_list (map (\<lambda>m. length (mr_content m)) (synced @ [m]))"
    using part by (simp_all add: rows content_total_insort ids(2) rebuilding_def)
  ultimately show ?thesis
    using n0(1) unfolding rebuilding_def by (metis max.coboundedI1)
qed

lemma sync_fold_rebuilds:
  assumes env: "json_room E" "draws_ok D"
  shows "rebuilding E L n synced db \<Longrightarrow> (\<forall>m \<in> set ms. record_validate E ScopeLocal L m = Inr ()) \<Longrightarrow>
    try_fold (sync_step E D previous) (db, k, report) ms = Inr (db', k', report') \<Longrightarrow>
    rebuilding E L n (synced @ ms) db'"
proof (induction ms arbitrary: synced db k report)
  case Nil
  then show ?case by simp
next
  case (Cons m ms)
  from Cons.prems(3) obtain db1 k1 report1 where
    step: "sync_step E D previous (db, k, report) m = Inr (db1, k1, report1)"
    and rest: "try_fold (sync_step E D previous) (db1, k1, report1) ms = Inr (db', k', report')"
    by (auto simp: and_then_Inr_iff)
  have "rebuilding E L n (synced @ [m]) db1"
    using sync_step_rebuilds [OF env _ Cons.prems(1) step] Cons.prems(2) by simp
  from Cons.IH [OF this _ rest] Cons.prems(2) show ?case
    by simp
qed

lemma sync_tx_opened:
  assumes env: "json_room E" "draws_ok D" and db: "opened E L n db"
    and valid: "validate_authored_snapshot E L memories = Inr ()"
    and sync: "sync_tx E L D memories now db = Inr (report, db')"
  shows "\<exists>n' \<ge> n. opened E L n' db'"
proof -
  note pruned = opened_prune [OF db, of now]
  from sync obtain existing k r1 db1 where
    fold: "try_fold (sync_step E D existing) ((prune_expired now db)\<lparr>db_rows := [], db_trigger := False\<rparr>, 0, r1)
      memories = Inr (db1, k, report)" and db': "db' = db1\<lparr>db_trigger := True\<rparr>"
    by (auto simp: sync_tx_def Let_def result_simps)
  have "rebuilding E L n [] ((prune_expired now db)\<lparr>db_rows := [], db_trigger := False\<rparr>)"
    using pruned by (auto simp: rebuilding_def opened_def allocated_def content_total_def)
  from sync_fold_rebuilds [OF env this _ fold] valid_snapshot(2) [OF valid]
  have "rebuilding E L n memories db1"
    by simp
  moreover have "ml_total_content_bytes L < MEM_USIZE_MAX"
    using db by (simp add: opened_def within_memory_limits_def)
  ultimately show ?thesis
    using valid_snapshot(1,7) [OF valid]
    by (auto simp: rebuilding_def db' opened_def allocated_def within_memory_limits_def)
qed

section \<open>Opening\<close>

lemma max_id_ge: "r \<in> set rows \<Longrightarrow> row_id r \<le> max_id rows"
  and max_id_in: "rows \<noteq> [] \<Longrightarrow> max_id rows \<in> row_id ` set rows"
proof -
  have start: "i \<le> foldl max i is" for i :: int and "is"
    by (induction "is" arbitrary: i) (auto intro: order_trans [OF max.cobounded1])
  have ge: "j \<in> set (i # is) \<Longrightarrow> j \<le> foldl max i is" for i j :: int and "is"
  proof (induction "is" arbitrary: i)
    case Nil
    then show ?case by simp
  next
    case (Cons k "is")
    then consider "j = i \<or> j = k" | "j \<in> set is" by auto
    then show ?case
    proof cases
      case 1
      then have "j \<le> max i k" by auto
      also have "\<dots> \<le> foldl max (max i k) is" by (rule start)
      finally show ?thesis by simp
    next
      case 2
      with Cons.IH [of "max i k"] show ?thesis by simp
    qed
  qed
  have mem: "foldl max i is \<in> set (i # is)" for i :: int and "is"
  proof (induction "is" arbitrary: i)
    case Nil
    then show ?case by simp
  next
    case (Cons k "is")
    from Cons [of "max i k"] show ?case by (auto simp: max_def split: if_splits)
  qed
  show "r \<in> set rows \<Longrightarrow> row_id r \<le> max_id rows"
    using ge [of "row_id r"] by (cases rows) (auto simp: max_id_def)
  show "rows \<noteq> [] \<Longrightarrow> max_id rows \<in> row_id ` set rows"
    using mem [of "row_id (hd rows)" "map row_id (tl rows)"] by (cases rows) (auto simp: max_id_def)
qed

lemma max_id_Nil [simp]: "max_id [] = 0"
  by (simp add: max_id_def)

definition migrated_row :: "mem_draws \<Rightarrow> mem_row \<Rightarrow> mem_row" where
  "migrated_row D r =
     (if md_ownership_id (row_metadata r) = None
      then r\<lparr>row_metadata := (row_metadata r)\<lparr>md_ownership_id := Some (dr_migration D (row_id r))\<rparr>\<rparr>
      else r)"

lemma migrated_row_ok:
  assumes "json_room E" and "draws_ok D" and "row_ok E L r"
  shows "row_ok E L (migrated_row D r)"
proof (cases "md_ownership_id (row_metadata r) = None")
  case True
  have "metadata_validate E ((row_metadata r)\<lparr>md_ownership_id := Some (dr_migration D (row_id r))\<rparr>) = Inr ()"
    using assms True by (intro metadata_validate_ownership) (simp_all add: row_ok_def draws_ok_def)
  with assms(3) True show ?thesis
    by (simp add: migrated_row_def row_ok_metadata)
next
  case False
  with assms(3) show ?thesis by (auto simp: migrated_row_def)
qed

text \<open>The first identifier that no row has and the allocator has not handed out.\<close>

definition id_floor :: "mem_db \<Rightarrow> int" where
  "id_floor db =
     (let above = max_id (db_rows db) + 1 in
      case db_next_id db of None \<Rightarrow> above | Some n \<Rightarrow> max n above)"

lemma id_floor_row: "r \<in> set (db_rows db) \<Longrightarrow> row_id r < id_floor db"
  using max_id_ge [of r "db_rows db"] by (auto simp: id_floor_def Let_def split: option.splits)

lemma id_floor_opened: "opened E L n db \<Longrightarrow> id_floor db = n"
proof (cases "db_rows db = []")
  case True
  then show "opened E L n db \<Longrightarrow> ?thesis"
    by (simp add: id_floor_def opened_def allocated_def)
next
  case False
  then show "opened E L n db \<Longrightarrow> ?thesis"
    using max_id_in [OF False] by (auto simp: id_floor_def opened_def allocated_def list_all_iff)
qed

lemma open_db_ok:
  assumes env: "json_room E" "draws_ok D" and ok: "mem_ok E L db"
  shows "\<exists>db'. open_db D db = Inr db' \<and> opened E L (id_floor db) db' \<and>
     map row_id (db_rows db') = map row_id (db_rows db) \<and>
     map row_content (db_rows db') = map row_content (db_rows db) \<and>
     map row_version (db_rows db') = map row_version (db_rows db)"
proof -
  let ?rows = "if db_schema db < 3 then map (migrated_row D) (db_rows db) else db_rows db"
  have legacy: "(if db_schema db < 2 then map (\<lambda>r. r\<lparr>row_metadata := metadata_default\<rparr>) (db_rows db)
      else db_rows db) = db_rows db"
    using ok by (auto simp: mem_ok_def list_all_iff intro!: map_idI)
  have rows: "list_all (row_ok E L) (db_rows db)"
    using ok by (simp add: mem_ok_def table_ok_def rows_valid_def)
  have top: "0 \<le> max_id (db_rows db) \<and> max_id (db_rows db) < I64_MAX"
  proof (cases "db_rows db = []")
    case True
    then show ?thesis by (simp add: I64_MAX_def)
  next
    case False
    from max_id_in [OF this] rows show ?thesis
      by (auto simp: list_all_iff row_ok_def)
  qed
  let ?db' = "\<lparr>db_schema = MEMORY_SCHEMA_VERSION, db_rows = ?rows, db_next_id = Some (id_floor db), db_trigger = True\<rparr>"
  have "open_db D db = Inr ?db'"
    unfolding open_db_def legacy Let_def migrated_row_def [abs_def]
    using ok top
    by (auto simp: mem_ok_def checked_add_i64_def I64_MIN_def id_floor_def Let_def max_def
        split: option.splits)
  moreover have same: "map row_id ?rows = map row_id (db_rows db)"
    "map row_content ?rows = map row_content (db_rows db)"
    "map row_version ?rows = map row_version (db_rows db)"
    "map row_identity ?rows = map row_identity (db_rows db)"
    by (auto simp: migrated_row_def)
  moreover have "opened E L (id_floor db) ?db'"
  proof -
    have "list_all (row_ok E L) ?rows"
      using rows migrated_row_ok [OF env] by (auto simp: list_all_iff)
    then have "rows_valid E L ?rows"
      using ok same(1,4) by (simp only: rows_valid_def mem_ok_def table_ok_def)
    moreover have "within_memory_limits L ?rows"
      using ok same(2) length_map [of row_id ?rows] length_map [of row_id "db_rows db"] same(1)
      by (simp only: mem_ok_def table_ok_def within_memory_limits_def content_total_contents)
    moreover have "0 < id_floor db \<and> id_floor db \<le> I64_MAX"
      using top ok by (auto simp: id_floor_def Let_def mem_ok_def opt_all_def split: option.splits)
    moreover have "\<forall>j \<in> set (map row_id ?rows). j < id_floor db"
      unfolding same(1) using id_floor_row by auto
    ultimately show ?thesis
      by (simp only: opened_def allocated_def mem_db.simps list_all_iff) auto
  qed
  ultimately show ?thesis
    by auto
qed

end
