(* ===== verification/Memory_Properties.thy ===== *)
theory Memory_Properties
  imports Memory_Invariant
begin

text \<open>
  The private memory store as a whole: the contract of a transaction and what it gives to an
  operation, sequences of operations, and the properties of the store over them: the limits, the
  identifiers, compare-and-swap, and what reading, listing and scanning return.
\<close>

section \<open>Transactions\<close>

text \<open>
  What every transaction of the store promises: it leaves an opened store opened and never moves
  the allocator back. An operation that opens the file and runs such a transaction then keeps the
  invariant, whether the transaction commits or fails.
\<close>

lemma transact_opened:
  "open_db D db = Inr d \<Longrightarrow>
     transact D f db = (case f d of Inl e \<Rightarrow> (Inl e, d) | Inr (v, d') \<Rightarrow> (Inr v, d'))"
  by (simp add: transact_def)

lemma transact_keeps:
  assumes env: "json_room E" "draws_ok D" and ok: "mem_ok E L db"
    and tx: "\<And>d v d'. opened E L (id_floor db) d \<Longrightarrow> f d = Inr (v, d') \<Longrightarrow>
      \<exists>n' \<ge> id_floor db. opened E L n' d'"
  shows "mem_ok E L (snd (transact D f db)) \<and> id_floor db \<le> id_floor (snd (transact D f db))"
proof -
  from open_db_ok [OF env ok] obtain d where o: "open_db D db = Inr d" and d: "opened E L (id_floor db) d"
    by blast
  show ?thesis
  proof (cases "f d")
    case (Inl e)
    with d show ?thesis
      by (simp add: transact_opened [OF o] id_floor_opened opened_mem_ok)
  next
    case (Inr x)
    then obtain v d' where x: "f d = Inr (v, d')"
      by (cases x) auto
    from tx [OF d x] obtain n' where "id_floor db \<le> n'" and "opened E L n' d'"
      by blast
    with x show ?thesis
      by (simp add: transact_opened [OF o] id_floor_opened opened_mem_ok)
  qed
qed

text \<open>A transaction that committed ran on the opened file.\<close>

lemma transact_committed:
  assumes env: "json_room E" "draws_ok D" and ok: "mem_ok E L db"
    and run: "transact D f db = (Inr v, db')"
  obtains d where "opened E L (id_floor db) d" and "f d = Inr (v, db')"
    and "map row_id (db_rows d) = map row_id (db_rows db)"
    and "map row_content (db_rows d) = map row_content (db_rows db)"
    and "map row_version (db_rows d) = map row_version (db_rows db)"
proof -
  from open_db_ok [OF env ok] obtain d where o: "open_db D db = Inr d" and d: "opened E L (id_floor db) d"
    "map row_id (db_rows d) = map row_id (db_rows db)"
    "map row_content (db_rows d) = map row_content (db_rows db)"
    "map row_version (db_rows d) = map row_version (db_rows db)"
    by blast
  moreover from run have "f d = Inr (v, db')"
    by (auto simp: transact_opened [OF o] split: sum.splits)
  ultimately show thesis
    using that by blast
qed

locale store_transaction =
  fixes E :: memory_env and L :: MemoryLimits
    and tx :: "mem_db \<Rightarrow> MemoryError + 'a \<times> mem_db"
  assumes keeps: "opened E L n db \<Longrightarrow> tx db = Inr (v, db') \<Longrightarrow> \<exists>n' \<ge> n. opened E L n' db'"
begin

lemma operation_keeps:
  assumes "json_room E" and "draws_ok D" and "mem_ok E L db"
  shows "mem_ok E L (snd (transact D tx db))" and "id_floor db \<le> id_floor (snd (transact D tx db))"
  using transact_keeps [OF assms, of tx] keeps by blast+

end

interpretation scan_op: store_transaction E L "scan_tx E R L query limit now scope"
  for E R L query limit now scope
  by unfold_locales (use scan_tx_opened in blast)

interpretation read_op: store_transaction E L "read_tx E L references now scope"
  for E L references now scope
  by unfold_locales (use read_tx_opened in blast)

interpretation put_op: store_transaction E L "put_tx E L D content metadata replacement now"
  for E L D content metadata replacement now
  by unfold_locales (use put_tx_opened in blast)

interpretation delete_op: store_transaction E L "delete_tx key"
  for E L key
  by unfold_locales (use delete_tx_opened in blast)

interpretation list_op: store_transaction E L "list_tx E L now"
  for E L now
  by unfold_locales (use list_tx_opened in blast)

interpretation import_op: store_transaction E L "import_tx E L D memories now"
  for E L D memories now
  by unfold_locales (use import_tx_opened in blast)

section \<open>Sequences of operations\<close>

text \<open>The calls of the \<open>MemoryStore\<close> trait, and the two imports, on the private store.\<close>

datatype mem_op =
    OpScan string nat
  | OpScanScoped string nat "string option"
  | OpRead "int list" "MemoryKey list"
  | OpReadScoped "int list" "MemoryKey list" "string option"
  | OpPut string MemoryMetadata "MemoryKey option"
  | OpDelete MemoryKey
  | OpList
  | OpImport "MemoryRecord list"
  | OpMergeRemote "MemoryRecord list"
  | OpSync "MemoryRecord list"

fun after_op ::
  "memory_env \<Rightarrow> retrieval_env \<Rightarrow> MemoryLimits \<Rightarrow> mem_draws \<Rightarrow> int \<Rightarrow> mem_op \<Rightarrow> mem_db \<Rightarrow> mem_db" where
  "after_op E R L D now (OpScan q k) db = snd (scan_local E R L D q k now db)"
| "after_op E R L D now (OpScanScoped q k repo) db = snd (scan_filtered E R L D q k now (Some repo) db)"
| "after_op E R L D now (OpRead ids keys) db = snd (read_local E L D ids keys now db)"
| "after_op E R L D now (OpReadScoped ids keys repo) db = snd (read_scoped E L D ids keys repo now db)"
| "after_op E R L D now (OpPut content m replacement) db =
     snd (put_with_metadata E L D content m replacement now db)"
| "after_op E R L D now (OpDelete key) db = snd (delete_local D key db)"
| "after_op E R L D now OpList db = snd (list_local E L D now db)"
| "after_op E R L D now (OpImport ms) db = snd (import_records_local E L D ms now db)"
| "after_op E R L D now (OpMergeRemote ms) db = snd (merge_remote_export E L D ms now db)"
| "after_op E R L D now (OpSync ms) db = snd (sync_local_snapshot E L D ms now db)"

inductive mem_reach :: "memory_env \<Rightarrow> retrieval_env \<Rightarrow> MemoryLimits \<Rightarrow> mem_db \<Rightarrow> mem_db \<Rightarrow> bool"
  for E R L db0 where
  mem_reach_start: "mem_reach E R L db0 db0"
| mem_reach_op: "mem_reach E R L db0 db \<Longrightarrow> draws_ok D \<Longrightarrow>
     mem_reach E R L db0 (after_op E R L D now op db)"

definition empty_file :: mem_db where
  "empty_file = \<lparr>db_schema = 0, db_rows = [], db_next_id = None, db_trigger = False\<rparr>"

lemma empty_file_ok: "ml_total_content_bytes L < MEM_USIZE_MAX \<Longrightarrow> mem_ok E L empty_file"
  by (simp add: mem_ok_def empty_file_def table_ok_def within_memory_limits_def content_total_def opt_all_def
      MEMORY_SCHEMA_VERSION_def)

lemma import_keeps:
  assumes "json_room E" and "draws_ok D" and "mem_ok E L db"
  shows "mem_ok E L (snd (import_records_local E L D ms now db)) \<and>
    id_floor db \<le> id_floor (snd (import_records_local E L D ms now db))"
  using assms import_op.operation_keeps [OF assms] by (simp add: import_records_local_def split: sum.split)

lemma sync_keeps:
  assumes "json_room E" and "draws_ok D" and "mem_ok E L db"
  shows "mem_ok E L (snd (sync_local_snapshot E L D ms now db)) \<and>
    id_floor db \<le> id_floor (snd (sync_local_snapshot E L D ms now db))"
proof (cases "validate_authored_snapshot E L ms")
  case (Inl e)
  with assms show ?thesis by (simp add: sync_local_snapshot_def)
next
  case (Inr u)
  then have valid: "validate_authored_snapshot E L ms = Inr ()"
    by simp
  have "mem_ok E L (snd (transact D (sync_tx E L D ms now) db)) \<and>
      id_floor db \<le> id_floor (snd (transact D (sync_tx E L D ms now) db))"
    by (rule transact_keeps [OF assms]) (rule sync_tx_opened [OF assms(1,2) _ valid])
  with valid show ?thesis by (simp add: sync_local_snapshot_def)
qed

text \<open>Every operation keeps the invariant and the identifiers handed out.\<close>

lemma after_op_keeps:
  assumes "json_room E" and "draws_ok D" and "mem_ok E L db"
  shows "mem_ok E L (after_op E R L D now op db) \<and> id_floor db \<le> id_floor (after_op E R L D now op db)"
  using assms scan_op.operation_keeps [OF assms] read_op.operation_keeps [OF assms]
    put_op.operation_keeps [OF assms] delete_op.operation_keeps [OF assms]
    list_op.operation_keeps [OF assms] import_keeps [OF assms] sync_keeps [OF assms]
  by (cases op)
    (simp_all add: scan_local_def scan_filtered_def read_local_def read_scoped_def put_with_metadata_def
      put_metadata_local_def delete_local_def list_local_def merge_remote_export_def split: sum.split)

lemma reach_keeps:
  assumes "json_room E" and "mem_ok E L db0" and "mem_reach E R L db0 db"
  shows "mem_ok E L db \<and> id_floor db0 \<le> id_floor db"
  using assms(3)
proof (induction rule: mem_reach.induct)
  case mem_reach_start
  with assms(2) show ?case by simp
next
  case (mem_reach_op db D now op)
  then show ?case
    using after_op_keeps [OF assms(1), of D L db R now op] by force
qed

section \<open>Limits\<close>

lemma list_local_ok:
  assumes "json_room E" and "draws_ok D" and "mem_ok E L db"
  obtains d where "opened E L (id_floor db) d"
    and "list_local E L D now db =
      (Inr (filter (safe_record E) (map row_to_memory (db_rows (prune_expired now d)))), prune_expired now d)"
proof -
  from open_db_ok [OF assms] obtain d where d: "open_db D db = Inr d" "opened E L (id_floor db) d"
    by blast
  note pruned = opened_prune [OF d(2), of now]
  have "list_local E L D now db =
      (Inr (filter (safe_record E) (map row_to_memory (db_rows (prune_expired now d)))), prune_expired now d)"
    by (simp add: list_local_def transact_opened [OF d(1)] list_tx_def Let_def
        load_all_ok [OF opened_allocated [OF pruned]])
  with d(2) show thesis
    using that by blast
qed

text \<open>
  C25: after any sequence of operations on a new memory file, the store holds at most 512 records and
  256 KiB of content, with strictly increasing identifiers and no two records of the same identity,
  every record is valid, and listing it succeeds.
\<close>

theorem memory_store_is_bounded:
  assumes "json_room E" and "draws_ok D" and "mem_reach E R PRODUCTION empty_file db"
  shows "length (db_rows db) \<le> 512 \<and> content_total (db_rows db) \<le> 262144 \<and>
    sorted_wrt (<) (map row_id (db_rows db)) \<and> distinct (map row_identity (db_rows db)) \<and>
    (\<forall>r \<in> set (db_rows db). record_validate E ScopeLocal PRODUCTION (row_to_memory r) = Inr ()) \<and>
    is_ok (fst (list_local E PRODUCTION D now db))"
proof -
  have "mem_ok E PRODUCTION empty_file"
    by (rule empty_file_ok) (simp add: PRODUCTION_def MEM_USIZE_MAX_def)
  from reach_keeps [OF assms(1) this assms(3)] have ok: "mem_ok E PRODUCTION db"
    by simp
  then have rows: "rows_valid E PRODUCTION (db_rows db)" "within_memory_limits PRODUCTION (db_rows db)"
    by (simp_all add: mem_ok_def table_ok_def)
  from assms(1,2) ok have "is_ok (fst (list_local E PRODUCTION D now db))"
    by (rule list_local_ok [where now = now]) simp
  with rows show ?thesis
    by (auto simp: rows_valid_def within_memory_limits_def PRODUCTION_def list_all_iff dest: row_okD(1))
qed

section \<open>Identifiers\<close>

lemma put_committed:
  assumes "json_room E" and "draws_ok D" and "mem_ok E L db"
    and "put_with_metadata E L D content m replacement now db = (Inr r, db')"
  obtains d where "opened E L (id_floor db) d" and "put_tx E L D content m replacement now d = Inr (r, db')"
    and "map row_id (db_rows d) = map row_id (db_rows db)"
    and "map row_version (db_rows d) = map row_version (db_rows db)"
    and "validate_authored_content E L content m = Inr ()" and "opt_all is_local_key replacement"
proof -
  from assms(4) have run: "transact D (put_tx E L D content m replacement now) db = (Inr r, db')"
    and pre: "validate_authored_content E L content m = Inr ()" "opt_all is_local_key replacement"
    by (auto simp: put_with_metadata_def put_metadata_local_def split: if_splits sum.splits)
  from transact_committed [OF assms(1-3) run] that pre show thesis
    by blast
qed

text \<open>
  C26: an identifier given to a new record was never the identifier of a record before, also when that
  record has since been deleted, pruned or dropped by a snapshot: the new one is above every identifier
  of every earlier state.
\<close>

theorem retired_memory_id_is_never_reused:
  assumes "json_room E" and "mem_ok E L db0" and "mem_reach E R L db0 db" and "draws_ok D"
    and "put_with_metadata E L D content m None now db = (Inr r, db')" and "old \<in> set (db_rows db0)"
  shows "row_id old < mk_id (mr_key r)"
proof -
  from reach_keeps [OF assms(1-3)] have ok: "mem_ok E L db" and floor: "id_floor db0 \<le> id_floor db"
    by simp_all
  from assms(1,4) ok assms(5) obtain d where d: "opened E L (id_floor db) d"
    and put: "put_tx E L D content m None now d = Inr (r, db')"
    by (rule put_committed)
  from d put show ?thesis
  proof (rule put_tx_Inr)
    fix n' ownership row mid
    assume "r = row_to_memory row" and "case None of
           None \<Rightarrow> \<exists>m'. mem_insert E L content
             (metadata_identity E (stored_metadata m ownership) content) now
             (prune_expired now d) = Inr (m', mid) \<and> mk_id (mr_key m') = row_id row
         | Some key \<Rightarrow> row_id row = mk_id key \<and> (\<exists>m'. mem_replace E L content
             (metadata_identity E (stored_metadata m ownership) content) key now
             (prune_expired now d) = Inr (m', mid))"
    then obtain m' where ins: "mem_insert E L content (metadata_identity E (stored_metadata m ownership) content)
        now (prune_expired now d) = Inr (m', mid)" and id: "mk_id (mr_key m') = mk_id (mr_key r)"
      by auto
    from opened_prune [OF d] ins have "id_floor db \<le> mk_id (mr_key m')"
      by (rule mem_insert_Inr) (simp add: fresh_row_def)
    with id floor id_floor_row [OF assms(6)] show ?thesis
      by simp
  qed
qed

section \<open>Compare and swap\<close>

text \<open>The version a store holds under an identifier.\<close>

definition version_of :: "mem_db \<Rightarrow> int \<Rightarrow> u64 option" where
  "version_of db i = map_option (\<lambda>r. as_u64 (row_version r)) (find_row i db)"

lemma find_same_columns:
  assumes "map row_id rows = map row_id rows'" and "map row_version rows = map row_version rows'"
  shows "map_option row_version (find (\<lambda>r. row_id r = i) rows) =
    map_option row_version (find (\<lambda>r. row_id r = i) rows')"
  using assms
proof (induction rows arbitrary: rows')
  case Nil
  then show ?case by simp
next
  case (Cons r rows)
  then show ?case by (cases rows') auto
qed

lemma version_of_same_columns:
  assumes "map row_id (db_rows d) = map row_id (db_rows db)"
    and "map row_version (db_rows d) = map row_version (db_rows db)"
  shows "version_of d i = version_of db i"
proof -
  have "version_of x i = map_option as_u64 (map_option row_version (find_row i x))" for x
    by (simp add: version_of_def option.map_comp comp_def)
  with find_same_columns [OF assms, of i] show ?thesis
    by (simp add: find_row_def)
qed

lemma find_row_prune:
  assumes "find_row i (prune_expired now db) = Some r" and "allocated E L n db"
  shows "find_row i db = Some r"
  using find_row_Some [OF assms(1)] find_row_iff [OF assms(2)] by (simp add: prune_expired_def)

lemma as_u64_Suc: "as_u64 (v + 1) = as_u64 v + 1"
  by (simp add: as_u64_def)

text \<open>The rows of a transaction's result, seen through \<open>find_row\<close>.\<close>

lemma put_replacement_rows:
  assumes d: "opened E L n d" and put: "put_tx E L D content m (Some key) now d = Inr (r, db')"
  shows "\<exists>current. find_row (mk_id key) (prune_expired now d) = Some current \<and>
      as_u64 (row_version current) = mk_version key \<and>
      mk_id (mr_key r) = mk_id key \<and> mk_version (mr_key r) = mk_version key + 1 \<and>
      mr_content r = content \<and> version_of db' (mk_id key) = Some (mk_version key + 1) \<and>
      (\<exists>row ownership. find_row (mk_id key) db' = Some row \<and> row_metadata row = stored_metadata m ownership \<and>
         row_probation_until_ms row = Some (saturating_add_i64 now (ml_probation_duration_ms L))) \<and>
      (\<forall>j. j \<noteq> mk_id key \<longrightarrow> find_row j db' = find_row j (prune_expired now d))"
  using d put
proof (rule put_tx_Inr)
  fix n' ownership row mid
  assume r: "r = row_to_memory row" and found: "find_row (row_id row) db' = Some row"
    and content: "row_content row = content"
    and save: "save_metadata E (row_id row) (stored_metadata m ownership) mid = Inr db'"
    and "case Some key of
           None \<Rightarrow> \<exists>m'. mem_insert E L content
             (metadata_identity E (stored_metadata m ownership) content) now
             (prune_expired now d) = Inr (m', mid) \<and> mk_id (mr_key m') = row_id row
         | Some key \<Rightarrow> row_id row = mk_id key \<and> (\<exists>m'. mem_replace E L content
             (metadata_identity E (stored_metadata m ownership) content) key now
             (prune_expired now d) = Inr (m', mid))"
  then obtain m' where id: "row_id row = mk_id key"
    and rep: "mem_replace E L content (metadata_identity E (stored_metadata m ownership) content) key now
      (prune_expired now d) = Inr (m', mid)"
    by auto
  from opened_prune [OF d] rep show ?thesis
  proof (rule mem_replace_Inr)
    fix current :: mem_row
    let ?f = "replaced_row L content (metadata_identity E (stored_metadata m ownership) content) now
      (row_version current + 1)"
    assume cur: "find_row (mk_id key) (prune_expired now d) = Some current"
      and ver: "as_u64 (row_version current) = mk_version key"
      and up: "update_row (mk_id key) ?f (prune_expired now d) = Inr mid"
    have mid: "find_row j mid =
        (if j = mk_id key then Some (?f current) else find_row j (prune_expired now d))" for j
      using find_row_update [OF up] cur by (simp add: replaced_row_def)
    have db': "find_row j db' = (if j = mk_id key
        then Some ((?f current)\<lparr>row_metadata := stored_metadata m ownership\<rparr>)
        else find_row j (prune_expired now d))" for j
      using find_row_update [OF save_metadata_Inr [OF save]] mid id by simp
    then have "row_version row = row_version current + 1"
      using found id by (auto simp: replaced_row_def)
    then have "as_u64 (row_version row) = mk_version key + 1"
      using ver by (simp add: as_u64_Suc)
    moreover have "row_metadata row = stored_metadata m ownership"
      and "row_probation_until_ms row = Some (saturating_add_i64 now (ml_probation_duration_ms L))"
      using found id db' by (auto simp: replaced_row_def)
    ultimately show ?thesis
      using cur ver r id content db' found by (auto simp: version_of_def)
  qed
qed


end
