(* ===== verification/Memory_Paging.thy ===== *)
theory Memory_Paging
  imports Memory_Properties
begin

text \<open>
  Paged transfer: the collector \<open>export_all\<close> of the \<open>MemoryStore\<close> trait
  (\<^verbatim>\<open>crates/memory/src/store/mod.rs\<close>) and the server's \<open>export_visible_page\<close>
  (\<^verbatim>\<open>crates/memory/src/server/router.rs\<close>), which hides records that look like secrets. Both are loops over
  a store they do not trust; they are total functions here because each round keeps at least one
  record within the record limit. \<open>page_source\<close> is the contract of a well-behaved store, interpreted on
  the private one.
\<close>

type_synonym 's page_op =
  "ExportCursor option \<Rightarrow> nat \<Rightarrow> 's \<Rightarrow> (MemoryError + MemoryRecord list \<times> ExportCursor option) \<times> 's"

definition cursor_pos :: "ExportCursor \<Rightarrow> string \<times> int" where
  "cursor_pos c = (ec_namespace c, ec_id c)"

definition page_bytes :: "MemoryRecord list \<Rightarrow> nat" where
  "page_bytes rs = sum_list (map (\<lambda>r. length (mr_content r)) rs)"

lemma page_bytes_append: "page_bytes (xs @ ys) = page_bytes xs + page_bytes ys"
  by (simp add: page_bytes_def)

section \<open>The collector\<close>

text \<open>
  The checked additions of the source fail with the same error as the limits they are compared to
  next, so the limits cover them.
\<close>

definition export_rejected ::
  "ExportCursor option \<Rightarrow> MemoryRecord list \<Rightarrow> nat \<Rightarrow> MemoryRecord list \<Rightarrow> ExportCursor option \<Rightarrow> bool" where
  "export_rejected cursor records bytes page next_cursor =
     (length records + length page > ml_records PRODUCTION \<or>
      bytes + page_bytes page > ml_total_content_bytes PRODUCTION \<or>
      (case (next_cursor, cursor) of
         (Some n, Some c) \<Rightarrow> cursor_pos n \<le> cursor_pos c
       | _ \<Rightarrow> False) \<or>
      page = [] \<and> next_cursor \<noteq> None)"

function export_from ::
  "'s page_op \<Rightarrow> ExportCursor option \<Rightarrow> MemoryRecord list \<Rightarrow> nat \<Rightarrow> 's \<Rightarrow> (MemoryError + MemoryRecord list) \<times> 's" where
  "export_from export_page cursor records bytes s =
     (case export_page cursor MAX_EXPORT_PAGE_RECORDS s of
        (Inl e, s') \<Rightarrow> (Inl e, s')
      | (Inr (page, next_cursor), s') \<Rightarrow>
          if export_rejected cursor records bytes page next_cursor then (Inl InvalidPagination, s')
          else case next_cursor of
            None \<Rightarrow> (Inr (records @ page), s')
          | Some n \<Rightarrow> export_from export_page (Some n) (records @ page) (bytes + page_bytes page) s')"
  by pat_completeness auto

termination
proof (relation "measure (\<lambda>(export_page, cursor, records, bytes, s). 513 - length records)")
  show "wf (measure (\<lambda>(export_page, cursor, records, bytes, s). 513 - length records))"
    by simp
  fix export_page :: "'s page_op" and cursor records bytes s x s' y page next_cursor n
  assume "\<not> export_rejected cursor records bytes page next_cursor" and "next_cursor = Some n"
  then have "page \<noteq> []" and "length records + length page \<le> 512"
    by (auto simp: export_rejected_def PRODUCTION_def)
  then have "513 - length (records @ page) < 513 - length records"
    by (cases page) auto
  then show "((export_page, Some n, records @ page, bytes + page_bytes page, s'),
      export_page, cursor, records, bytes, s) \<in>
      measure (\<lambda>(export_page, cursor, records, bytes, s). 513 - length records)"
    by simp
qed

declare export_from.simps [simp del]

definition export_all :: "'s page_op \<Rightarrow> 's \<Rightarrow> (MemoryError + MemoryRecord list) \<times> 's" where
  "export_all export_page s = export_from export_page None [] 0 s"

section \<open>A store that pages a corpus\<close>

locale page_source =
  fixes export_page :: "'s page_op"
    and stable :: "'s \<Rightarrow> bool"
    and corpus :: "'s \<Rightarrow> MemoryRecord list"
  assumes pages: "stable s \<Longrightarrow> export_page cursor limit s = (Inr (page_of cursor limit (corpus s)), s)"
    and ordered: "stable s \<Longrightarrow> sorted_wrt (<) (0 # map (\<lambda>r. mk_id (mr_key r)) (corpus s))"
    and limited: "stable s \<Longrightarrow> length (corpus s) \<le> 512 \<and> page_bytes (corpus s) \<le> 262144"
begin

text \<open>The loop collects a prefix of the corpus and asks for the rest after its last record.\<close>

lemma rest_after:
  assumes "sorted_wrt (<) (0 # map (\<lambda>r. mk_id (mr_key r)) (done_part @ rest))" and "done_part \<noteq> []"
  shows "filter (\<lambda>r. mk_id (mr_key r) > mk_id (mr_key (last done_part))) (done_part @ rest) = rest"
proof -
  have "filter (\<lambda>r. mk_id (mr_key r) > mk_id (mr_key (last done_part))) done_part = []"
    using assms by (induction done_part rule: rev_induct) (auto simp: filter_empty_conv sorted_wrt_append)
  moreover have "filter (\<lambda>r. mk_id (mr_key r) > mk_id (mr_key (last done_part))) rest = rest"
    using assms by (cases done_part rule: rev_cases) (auto simp: filter_id_conv sorted_wrt_append)
  ultimately show ?thesis by simp
qed

definition position :: "MemoryRecord list \<Rightarrow> ExportCursor option" where
  "position done_part = (if done_part = [] then None
     else Some \<lparr>ec_namespace = [], ec_id = mk_id (mr_key (last done_part))\<rparr>)"

lemma page_at:
  assumes "stable s" and "corpus s = done_part @ rest"
  shows "page_of (position done_part) MAX_EXPORT_PAGE_RECORDS (corpus s) =
    (take 128 rest, if length rest > 128 then position (done_part @ take 128 rest) else None)"
proof -
  have flt: "filter (\<lambda>r. mk_id (mr_key r) > (case position done_part of None \<Rightarrow> 0 | Some c \<Rightarrow> ec_id c))
      (corpus s) = rest"
  proof (cases "done_part = []")
    case True
    with assms ordered [OF assms(1)] show ?thesis
      by (auto simp: position_def filter_id_conv)
  next
    case False
    with assms ordered [OF assms(1)] rest_after [of done_part rest] show ?thesis
      by (simp add: position_def)
  qed
  show ?thesis
    unfolding page_of_def Let_def flt
    by (auto simp: MAX_EXPORT_PAGE_RECORDS_def position_def last_append)
qed

lemma collects:
  assumes "stable s" and "corpus s = done_part @ rest"
  shows "export_from export_page (position done_part) done_part (page_bytes done_part) s = (Inr (corpus s), s)"
  using assms(2)
proof (induction "length rest" arbitrary: done_part rest rule: less_induct)
  case less
  let ?page = "take 128 rest"
  let ?next = "if length rest > 128 then position (done_part @ ?page) else None"
  have split: "corpus s = (done_part @ ?page) @ drop 128 rest"
    using less.prems by simp
  have bytes: "page_bytes (corpus s) = page_bytes done_part + page_bytes ?page + page_bytes (drop 128 rest)"
    unfolding split by (simp only: page_bytes_append)
  have order: "cursor_pos c' > cursor_pos c"
    if "position done_part = Some c" and "position (done_part @ ?page) = Some c'" and "?page \<noteq> []" for c c'
  proof -
    from that have "done_part \<noteq> []" and "last (done_part @ ?page) \<in> set ?page"
      by (auto simp: position_def split: if_splits)
    moreover have "sorted_wrt (<) (map (\<lambda>r. mk_id (mr_key r)) (done_part @ ?page))"
      using ordered [OF assms(1)] unfolding split map_append [of _ "done_part @ take 128 rest"]
      by (simp only: sorted_wrt_append sorted_wrt.simps)
    ultimately have "mk_id (mr_key (last done_part)) < mk_id (mr_key (last (done_part @ ?page)))"
      unfolding map_append sorted_wrt_append by (metis (no_types, lifting) imageI image_set last_in_set)
    with that show ?thesis
      by (auto simp: position_def cursor_pos_def split: if_splits)
  qed
  have accepted: "\<not> export_rejected (position done_part) done_part (page_bytes done_part) ?page ?next"
  proof -
    have "length (corpus s) = length done_part + length ?page + length (drop 128 rest)"
      unfolding split by (simp only: length_append)
    then have "length done_part + length ?page \<le> 512" and "page_bytes done_part + page_bytes ?page \<le> 262144"
      using limited [OF assms(1)] bytes by linarith+
    moreover have "?page \<noteq> []" if "length rest > 128"
      using that by auto
    moreover have "\<not> (case (?next, position done_part) of
        (Some n, Some c) \<Rightarrow> cursor_pos n \<le> cursor_pos c | _ \<Rightarrow> False)"
      using order calculation(3) by (auto simp: not_le split: option.splits)
    ultimately show ?thesis
      by (simp add: export_rejected_def PRODUCTION_def)
  qed
  show ?case
  proof (cases "length rest > 128")
    case True
    then obtain c where c: "position (done_part @ ?page) = Some c"
      by (cases "done_part @ ?page = []") (auto simp: position_def)
    with True accepted have "export_from export_page (position done_part) done_part (page_bytes done_part) s =
        export_from export_page (position (done_part @ ?page)) (done_part @ ?page)
          (page_bytes (done_part @ ?page)) s"
      by (subst export_from.simps)
        (simp add: pages [OF assms(1)] page_at [OF assms(1) less.prems] page_bytes_append)
    also have "\<dots> = (Inr (corpus s), s)"
      by (rule less.hyps [OF _ split]) (use True in simp)
    finally show ?thesis .
  next
    case False
    with accepted have "export_from export_page (position done_part) done_part (page_bytes done_part) s =
        (Inr (done_part @ rest), s)"
      by (subst export_from.simps) (simp add: pages [OF assms(1)] page_at [OF assms(1) less.prems])
    then show ?thesis
      by (simp add: less.prems)
  qed
qed

lemma export_all_corpus: "stable s \<Longrightarrow> export_all export_page s = (Inr (corpus s), s)"
  using collects [of s "[]" "corpus s"] by (simp add: export_all_def position_def page_bytes_def)

end

section \<open>The private store\<close>

text \<open>The private store at a time when nothing it holds has expired.\<close>

definition settled :: "memory_env \<Rightarrow> int \<Rightarrow> mem_db \<Rightarrow> bool" where
  "settled E now db = ((\<exists>n. opened E PRODUCTION n db) \<and> prune_expired now db = db)"

definition shown :: "memory_env \<Rightarrow> mem_db \<Rightarrow> MemoryRecord list" where
  "shown E db = filter (safe_record E) (map row_to_memory (db_rows db))"

lemma open_opened:
  assumes "opened E L n db"
  shows "open_db D db = Inr db"
proof -
  have rec: "db_next_id db = Some n" "db_schema db = 3" "db_trigger db" and floor: "id_floor db = n"
    using assms id_floor_opened [OF assms] by (auto simp: opened_def allocated_def MEMORY_SCHEMA_VERSION_def)
  then have top: "max_id (db_rows db) < n"
    by (simp add: id_floor_def)
  have "0 \<le> max_id (db_rows db)"
  proof (cases "db_rows db = []")
    case True
    then show ?thesis by simp
  next
    case False
    from max_id_in [OF this] assms show ?thesis
      by (auto simp: opened_def allocated_def rows_valid_def list_all_iff row_ok_def)
  qed
  moreover have "n \<le> I64_MAX"
    using assms by (simp add: opened_def allocated_def)
  ultimately show ?thesis
    using rec top
    by (simp add: open_db_def Let_def MEMORY_SCHEMA_VERSION_def checked_add_i64_def I64_MIN_def)
qed

lemma prune_idem: "prune_expired now (prune_expired now db) = prune_expired now db"
  by (simp add: prune_expired_def)

lemma list_settled:
  assumes "settled E now db"
  shows "list_local E PRODUCTION D now db = (Inr (shown E db), db)"
proof -
  from assms obtain n where o: "opened E PRODUCTION n db" and p: "prune_expired now db = db"
    by (auto simp: settled_def)
  then show ?thesis
    by (simp add: list_local_def transact_opened [OF open_opened [OF o]] list_tx_def Let_def shown_def
        load_all_ok [OF opened_allocated [OF o]])
qed

lemma shown_bytes: "page_bytes (shown E db) \<le> content_total (db_rows db)"
proof -
  have "page_bytes (filter (safe_record E) (map row_to_memory rows)) \<le> content_total rows" for rows
    by (induction rows) (auto simp: page_bytes_def content_total_def)
  then show ?thesis by (simp add: shown_def)
qed

interpretation private_pages: page_source
  "\<lambda>cursor limit. export_local_page E PRODUCTION D cursor limit now" "settled E now" "shown E"
  for E D now
proof
  fix s cursor limit
  assume s: "settled E now s"
  then show "export_local_page E PRODUCTION D cursor limit now s = (Inr (page_of cursor limit (shown E s)), s)"
    by (simp add: export_local_page_def list_settled)
next
  fix s
  assume "settled E now s"
  then have "sorted_wrt (<) (map row_id (db_rows s))" and pos: "\<forall>r \<in> set (db_rows s). 0 < row_id r"
    by (auto simp: settled_def opened_def allocated_def rows_valid_def list_all_iff row_ok_def)
  then have "sorted_wrt (<) (map (\<lambda>r. mk_id (mr_key r)) (shown E s))"
    by (auto simp: shown_def sorted_wrt_map intro!: sorted_wrt_filter)
  with pos show "sorted_wrt (<) (0 # map (\<lambda>r. mk_id (mr_key r)) (shown E s))"
    by (auto simp: shown_def)
next
  fix s
  assume "settled E now s"
  then have "within_memory_limits PRODUCTION (db_rows s)"
    by (auto simp: settled_def opened_def)
  then have "length (db_rows s) \<le> 512" and "content_total (db_rows s) \<le> 262144"
    by (simp_all add: within_memory_limits_def PRODUCTION_def)
  then show "length (shown E s) \<le> 512 \<and> page_bytes (shown E s) \<le> 262144"
    using shown_bytes [of E s] length_filter_le [of "safe_record E" "map row_to_memory (db_rows s)"]
    by (simp add: shown_def del: length_filter_le)
qed

text \<open>
  C28: collecting the private store page by page gives exactly what one listing gives, and leaves the
  store in the same state: no record is lost, repeated or reordered at a page boundary, the collector
  rejects nothing, and it ends.
\<close>

theorem paged_export_is_the_listing:
  assumes "json_room E" and "draws_ok D" and "mem_ok E PRODUCTION db"
  shows "export_all (\<lambda>cursor limit. export_local_page E PRODUCTION D cursor limit now) db =
    list_local E PRODUCTION D now db"
proof -
  from assms obtain d where d: "opened E PRODUCTION (id_floor db) d"
    and list: "list_local E PRODUCTION D now db =
      (Inr (filter (safe_record E) (map row_to_memory (db_rows (prune_expired now d)))), prune_expired now d)"
    by (rule list_local_ok)
  let ?d = "prune_expired now d"
  have settled: "settled E now ?d"
    using opened_prune [OF d, of now] by (auto simp: settled_def prune_idem)
  have listed: "list_local E PRODUCTION D now db = list_local E PRODUCTION D now ?d"
    unfolding list_settled [OF settled] list by (simp add: shown_def)
  then have "export_local_page E PRODUCTION D cursor limit now db = export_local_page E PRODUCTION D cursor limit now ?d"
    for cursor limit
    by (simp add: export_local_page_def)
  then have "export_all (\<lambda>cursor limit. export_local_page E PRODUCTION D cursor limit now) db =
      export_all (\<lambda>cursor limit. export_local_page E PRODUCTION D cursor limit now) ?d"
    unfolding export_all_def by (subst (1 2) export_from.simps) simp
  also have "\<dots> = (Inr (shown E ?d), ?d)"
    by (rule private_pages.export_all_corpus [OF settled])
  finally show ?thesis
    by (simp add: listed list_settled [OF settled])
qed

end
