(* ===== verification/Memory_Server.thy ===== *)
theory Memory_Server
  imports Memory_Paging
begin

text \<open>
  The authenticated memory server (\<^verbatim>\<open>crates/memory/src/server/router.rs\<close>, \<^verbatim>\<open>credential.rs\<close>): building the
  table of principals, authenticating a request, the handler of every route with its checks on the
  way in and out, and the visible export page. A handler runs over any store: the operations the
  namespace factory returns are the record \<open>store_ops\<close>, whose state is threaded. SHA-256 is the argument
  \<open>hash\<close>. The HTTP framework's decoding of a body is its result, a rejection status or the request.
  Tracing, the body limit and the store timeout are not modelled.
\<close>

section \<open>Credentials\<close>

datatype CredentialError = InvalidNamespaceCredential | InvalidBearerToken

datatype ServerBuildError = NoCredentials | DuplicateBearerToken

record Principal =
  pr_namespace :: string
  pr_role :: RemoteRole

record Credential =
  cr_namespace :: string
  cr_role :: RemoteRole
  cr_token :: string

definition MAX_BEARER_TOKEN_BYTES :: nat where
  "MAX_BEARER_TOKEN_BYTES = 4096"

definition is_bearer_token_byte :: "char \<Rightarrow> bool" where
  "is_bearer_token_byte b = (is_ascii_alphanumeric b \<or> b \<in> set ''-._~+/='')"

definition bearer_token_new :: "string \<Rightarrow> CredentialError + string" where
  "bearer_token_new token =
     (if token = [] \<or> length token > MAX_BEARER_TOKEN_BYTES \<or> \<not> list_all is_bearer_token_byte token
      then Inl InvalidBearerToken else Inr token)"

definition credential_new :: "string \<Rightarrow> RemoteRole \<Rightarrow> string \<Rightarrow> CredentialError + Credential" where
  "credential_new namespace role bearer_token =
     and_then (bearer_token_new bearer_token) (\<lambda>token.
     if \<not> is_valid_namespace namespace then Inl InvalidNamespaceCredential
     else Inr \<lparr>cr_namespace = namespace, cr_role = role, cr_token = token\<rparr>)"

definition into_hashed_principal :: "(string \<Rightarrow> 'h) \<Rightarrow> Credential \<Rightarrow> 'h \<times> Principal" where
  "into_hashed_principal hash c =
     (hash (cr_token c), \<lparr>pr_namespace = cr_namespace c, pr_role = cr_role c\<rparr>)"

definition add_principal ::
  "(string \<Rightarrow> 'h) \<Rightarrow> ('h \<rightharpoonup> Principal) \<Rightarrow> Credential \<Rightarrow> ServerBuildError + ('h \<rightharpoonup> Principal)" where
  "add_principal hash principals c =
     (case into_hashed_principal hash c of (h, p) \<Rightarrow>
        if principals h \<noteq> None then Inl DuplicateBearerToken else Inr (principals(h \<mapsto> p)))"

definition server_new ::
  "(string \<Rightarrow> 'h) \<Rightarrow> Credential list \<Rightarrow> ServerBuildError + ('h \<rightharpoonup> Principal)" where
  "server_new hash credentials =
     and_then (try_fold (add_principal hash) Map.empty credentials) (\<lambda>principals.
     if credentials = [] then Inl NoCredentials else Inr principals)"

section \<open>Errors\<close>

datatype RemoteErrorCode =
    RcBadRequest | RcUnauthorized | RcForbidden | RcNamespaceMismatch | RcUnsupportedProtocol
  | RcQueryTooLarge | RcContentTooLarge | RcRecordCapacity | RcContentCapacity | RcDuplicate
  | RcNotFound | RcConflict | RcUnavailable | RcInternal

record ApiError =
  ae_status :: nat
  ae_code :: RemoteErrorCode

definition api :: "nat \<Rightarrow> RemoteErrorCode \<Rightarrow> ApiError" where
  "api status code = \<lparr>ae_status = status, ae_code = code\<rparr>"

definition bad_request :: ApiError where "bad_request = api 400 RcBadRequest"
definition unauthorized :: ApiError where "unauthorized = api 401 RcUnauthorized"
definition namespace_mismatch :: ApiError where "namespace_mismatch = api 403 RcNamespaceMismatch"
definition forbidden :: ApiError where "forbidden = api 403 RcForbidden"
definition unavailable_error :: ApiError where "unavailable_error = api 503 RcUnavailable"
definition internal_error :: ApiError where "internal_error = api 500 RcInternal"

fun api_error_of :: "MemoryError \<Rightarrow> ApiError" where
  "api_error_of InvalidMetadata = bad_request"
| "api_error_of MetadataUnsupported = bad_request"
| "api_error_of EmptyContent = bad_request"
| "api_error_of (ContentTooLarge _) = api 413 RcContentTooLarge"
| "api_error_of (QueryTooLarge _) = api 413 RcQueryTooLarge"
| "api_error_of (RecordCapacity _) = api 507 RcRecordCapacity"
| "api_error_of (ContentCapacity _) = api 507 RcContentCapacity"
| "api_error_of StorageCapacity = api 507 RcContentCapacity"
| "api_error_of SecretRejected = bad_request"
| "api_error_of Duplicate = api 409 RcDuplicate"
| "api_error_of MemNotFound = api 404 RcNotFound"
| "api_error_of MemConflict = api 409 RcConflict"
| "api_error_of RemoteReadOnly = forbidden"
| "api_error_of (UnsupportedSchemaVersion _ _) = internal_error"
| "api_error_of InvalidPagination = internal_error"
| "api_error_of MemBackend = internal_error"
| "api_error_of MemUnavailable = unavailable_error"

section \<open>Requests\<close>

text \<open>The two headers the server reads, when they are present and visible ASCII.\<close>

record request_headers =
  rh_authorization :: "string option"
  rh_namespace :: "string option"

definition eq_ignore_ascii_case :: "string \<Rightarrow> string \<Rightarrow> bool" where
  "eq_ignore_ascii_case a b = (to_ascii_lowercase a = to_ascii_lowercase b)"

definition bearer_of :: "string \<Rightarrow> string option" where
  "bearer_of authorization =
     (case split_once_str authorization '' '' of
        None \<Rightarrow> None
      | Some (scheme, token) \<Rightarrow>
          if eq_ignore_ascii_case scheme ''bearer'' \<and> token \<noteq> [] \<and> list_all is_bearer_token_byte token
          then Some token else None)"

definition authenticate ::
  "(string \<Rightarrow> 'h) \<Rightarrow> ('h \<rightharpoonup> Principal) \<Rightarrow> request_headers \<Rightarrow> ApiError + Principal" where
  "authenticate hash principals headers =
     and_then (ok_or (rh_authorization headers) unauthorized) (\<lambda>authorization.
     and_then (ok_or (bearer_of authorization) unauthorized) (\<lambda>token.
     and_then (ok_or (principals (hash token)) unauthorized) (\<lambda>principal.
     and_then (ok_or (rh_namespace headers) namespace_mismatch) (\<lambda>asserted.
     if asserted \<noteq> pr_namespace principal then Inl namespace_mismatch else Inr principal))))"

text \<open>A decoded body, or the status with which the framework rejected it.\<close>

type_synonym 'a payload = "nat + 'a"

definition json_payload :: "'a payload \<Rightarrow> ApiError + 'a" where
  "json_payload payload =
     map_err (\<lambda>status. api (if status = 413 then 413 else 400) RcBadRequest) payload"

definition valid_key :: "MemoryKey \<Rightarrow> bool" where
  "valid_key k =
     (mk_id k > 0 \<and> mk_version k \<noteq> 0 \<and> fits_i64 (mk_version k) \<and> opt_all is_valid_namespace (mk_namespace k))"

section \<open>Stores\<close>

text \<open>The operations of the trait \<open>MemoryStore\<close> bound to one namespace, over a shared state.\<close>

record 's store_ops =
  so_scan :: "string \<Rightarrow> nat \<Rightarrow> 's \<Rightarrow> (MemoryError + MemoryScan) \<times> 's"
  so_scan_scoped :: "string \<Rightarrow> nat \<Rightarrow> string option \<Rightarrow> 's \<Rightarrow> (MemoryError + MemoryScan) \<times> 's"
  so_read :: "int list \<Rightarrow> MemoryKey list \<Rightarrow> 's \<Rightarrow> (MemoryError + MemoryRecord list) \<times> 's"
  so_read_scoped :: "int list \<Rightarrow> MemoryKey list \<Rightarrow> string option \<Rightarrow> 's \<Rightarrow> (MemoryError + MemoryRecord list) \<times> 's"
  so_list :: "'s \<Rightarrow> (MemoryError + MemoryRecord list) \<times> 's"
  so_lesson_page :: "LessonQuery \<Rightarrow> int \<Rightarrow> 's \<Rightarrow> (MemoryError + MemoryRecord list) \<times> 's"
  so_put :: "string \<Rightarrow> MemoryMetadata \<Rightarrow> MemoryKey option \<Rightarrow> 's \<Rightarrow> (MemoryError + MemoryRecord) \<times> 's"
  so_delete :: "MemoryKey \<Rightarrow> 's \<Rightarrow> (MemoryError + unit) \<times> 's"
  so_sync :: "MemoryRecord list \<Rightarrow> 's \<Rightarrow> (MemoryError + SyncReport) \<times> 's"
  so_export_page :: "string list option \<Rightarrow> 's page_op"

text \<open>What a handler has at hand: the hash, the principals and the namespace factory.\<close>

record ('h, 's) server =
  sv_env :: memory_env
  sv_hash :: "string \<Rightarrow> 'h"
  sv_principals :: "'h \<rightharpoonup> Principal"
  sv_factory :: "string \<Rightarrow> 's store_ops"
  sv_query_json :: "LessonQuery \<Rightarrow> string option"

definition sv_authenticate :: "('h, 's) server \<Rightarrow> request_headers \<Rightarrow> ApiError + Principal" where
  "sv_authenticate sv = authenticate (sv_hash sv) (sv_principals sv)"

text \<open>\<open>run_store\<close>, then the check of what the store returned.\<close>

definition run_store ::
  "(MemoryError + 'a) \<times> 's \<Rightarrow> ('a \<Rightarrow> ApiError + 'b) \<Rightarrow> (ApiError + 'b) \<times> 's" where
  "run_store result check = (and_then (map_err api_error_of (fst result)) check, snd result)"

section \<open>Checks on what a store returns\<close>

definition validate_output ::
  "memory_env \<Rightarrow> string \<Rightarrow> MemoryRecord \<Rightarrow> ApiError + MemoryRecord option" where
  "validate_output E namespace m =
     and_then (map_err (\<lambda>_. internal_error) (record_validate E (ScopeRemote namespace) PRODUCTION m)) (\<lambda>_.
     Inr (if safe_record E m then Some m else None))"

definition validate_outputs ::
  "memory_env \<Rightarrow> string \<Rightarrow> MemoryRecord list \<Rightarrow> ApiError + MemoryRecord list" where
  "validate_outputs E namespace ms =
     and_then (try_map (validate_output E namespace) ms) (\<lambda>rs. Inr (List.map_filter id rs))"

definition validate_outputs_any_remote ::
  "memory_env \<Rightarrow> MemoryRecord list \<Rightarrow> ApiError + MemoryRecord list" where
  "validate_outputs_any_remote E ms =
     try_fold (\<lambda>out m.
       and_then (map_err (\<lambda>_. internal_error) (record_validate E ScopeAnyRemote PRODUCTION m)) (\<lambda>_.
       Inr (if safe_record E m then out @ [m] else out))) [] ms"

text \<open>\<open>score.is_finite()\<close>: the exponent bits are not all ones; \<open>score < 0.0\<close>: the sign bit, not minus zero.\<close>

definition score_finite :: "u64 \<Rightarrow> bool" where
  "score_finite s = (uint s mod 2 ^ 63 < 0x7FF * 2 ^ 52)"

definition score_negative :: "u64 \<Rightarrow> bool" where
  "score_negative s = (uint s > 2 ^ 63)"

definition validate_candidates ::
  "memory_env \<Rightarrow> MemoryCandidate list \<Rightarrow> ApiError + MemoryCandidate list" where
  "validate_candidates E cs =
     try_fold (\<lambda>out c.
       if metadata_validate E (mc_metadata c) \<noteq> Inr () \<or> mk_namespace (mc_key c) = None \<or>
          \<not> valid_key (mc_key c) \<or> length (mc_preview c) > 64 \<or> \<not> score_finite (mc_score c) \<or>
          score_negative (mc_score c)
       then Inl internal_error
       else Inr (if is_ok (reject_likely_secret E (mc_metadata c)) \<and> \<not> contains_likely_secret (mc_preview c)
                 then out @ [c] else out)) [] cs"

definition validate_snapshot :: "memory_env \<Rightarrow> MemoryRecord list \<Rightarrow> MemoryError + unit" where
  "validate_snapshot E ms =
     (if length ms > ml_records PRODUCTION then Inl InvalidMetadata
      else and_then (try_fold (\<lambda>(ids, bytes) m.
          and_then (record_validate E ScopeLocal PRODUCTION m) (\<lambda>_.
          if mk_id (mr_key m) \<in> set ids \<or> \<not> safe_record E m \<or> bytes + length (mr_content m) > MEM_USIZE_MAX
          then Inl InvalidMetadata
          else Inr (mk_id (mr_key m) # ids, bytes + length (mr_content m)))) ([], 0) ms) (\<lambda>(_, bytes).
        if bytes > ml_total_content_bytes PRODUCTION then Inl InvalidMetadata else Inr ()))"

section \<open>Handlers\<close>

record ScanRequest =
  sq_scope :: "string option option"
  sq_query :: string
  sq_limit :: nat

record ReadRequest =
  rq_scope :: "string option option"
  rq_ids :: "int list"
  rq_keys :: "MemoryKey list"

record PutRequest =
  pq_metadata :: MemoryMetadata
  pq_content :: string
  pq_replacement :: "MemoryKey option"

record ExportRequest =
  eq_namespaces :: "string list option"
  eq_cursor :: "ExportCursor option"
  eq_limit :: nat

record SessionResponse =
  sn_protocol_version :: nat
  sn_namespace :: string
  sn_role :: RemoteRole

definition PROTOCOL_VERSION :: nat where
  "PROTOCOL_VERSION = 2"

definition server_session ::
  "('h, 's) server \<Rightarrow> request_headers \<Rightarrow> 's \<Rightarrow> (ApiError + SessionResponse) \<times> 's" where
  "server_session sv headers s =
     (and_then (sv_authenticate sv headers) (\<lambda>p.
        Inr \<lparr>sn_protocol_version = PROTOCOL_VERSION, sn_namespace = pr_namespace p, sn_role = pr_role p\<rparr>), s)"

text \<open>\<open>guard_request\<close>: the authentication and early returns of a handler before it calls the store.\<close>

definition guard_request :: "ApiError + 'q \<Rightarrow> ('q \<Rightarrow> 's \<Rightarrow> (ApiError + 'r) \<times> 's) \<Rightarrow> 's \<Rightarrow> (ApiError + 'r) \<times> 's" where
  "guard_request checked k s = (case checked of Inl e \<Rightarrow> (Inl e, s) | Inr q \<Rightarrow> k q s)"

definition scan_checked ::
  "('h, 's) server \<Rightarrow> request_headers \<Rightarrow> ScanRequest payload \<Rightarrow> ApiError + Principal \<times> ScanRequest" where
  "scan_checked sv headers payload =
     and_then (sv_authenticate sv headers) (\<lambda>p.
     and_then (json_payload payload) (\<lambda>q.
     if length (sq_query q) > ml_query_bytes PRODUCTION \<or> sq_limit q = 0 \<or>
        sq_limit q > ml_scan_results PRODUCTION
     then Inl (if length (sq_query q) > ml_query_bytes PRODUCTION then api 413 RcQueryTooLarge
               else bad_request)
     else Inr (p, q)))"

definition server_scan ::
  "('h, 's) server \<Rightarrow> request_headers \<Rightarrow> ScanRequest payload \<Rightarrow> 's \<Rightarrow> (ApiError + MemoryCandidate list) \<times> 's" where
  "server_scan sv headers payload =
     guard_request (scan_checked sv headers payload) (\<lambda>(p, q) s.
       let store = sv_factory sv (pr_namespace p) in
       run_store (case sq_scope q of
           Some repository \<Rightarrow> so_scan_scoped store (sq_query q) (sq_limit q) repository s
         | None \<Rightarrow> so_scan store (sq_query q) (sq_limit q) s)
         (\<lambda>scan. validate_candidates (sv_env sv) (ms_candidates scan)))"

definition read_checked ::
  "('h, 's) server \<Rightarrow> request_headers \<Rightarrow> ReadRequest payload \<Rightarrow> ApiError + Principal \<times> ReadRequest" where
  "read_checked sv headers payload =
     and_then (sv_authenticate sv headers) (\<lambda>p.
     and_then (json_payload payload) (\<lambda>q.
     if length (rq_ids q) + length (rq_keys q) > ml_records PRODUCTION \<or>
        list_ex (\<lambda>i. i \<le> 0) (rq_ids q) \<or> list_ex (\<lambda>k. \<not> valid_key k) (rq_keys q)
     then Inl bad_request else Inr (p, q)))"

definition server_read ::
  "('h, 's) server \<Rightarrow> request_headers \<Rightarrow> ReadRequest payload \<Rightarrow> 's \<Rightarrow> (ApiError + MemoryRecord list) \<times> 's" where
  "server_read sv headers payload =
     guard_request (read_checked sv headers payload) (\<lambda>(p, q) s.
       let store = sv_factory sv (pr_namespace p) in
       run_store (case rq_scope q of
           Some repository \<Rightarrow> so_read_scoped store (rq_ids q) (rq_keys q) repository s
         | None \<Rightarrow> so_read store (rq_ids q) (rq_keys q) s)
         (validate_outputs_any_remote (sv_env sv)))"

definition server_list ::
  "('h, 's) server \<Rightarrow> request_headers \<Rightarrow> 's \<Rightarrow> (ApiError + MemoryRecord list) \<times> 's" where
  "server_list sv headers =
     guard_request (sv_authenticate sv headers) (\<lambda>p s.
       run_store (so_list (sv_factory sv (pr_namespace p)) s) (validate_outputs_any_remote (sv_env sv)))"

definition require_writer :: "('h, 's) server \<Rightarrow> request_headers \<Rightarrow> ApiError + Principal" where
  "require_writer sv headers =
     and_then (sv_authenticate sv headers) (\<lambda>p.
     if pr_role p \<noteq> Writer then Inl forbidden else Inr p)"

definition lessons_checked ::
  "('h, 's) server \<Rightarrow> request_headers \<Rightarrow> (LessonQuery \<times> int) payload \<Rightarrow> ApiError + Principal \<times> LessonQuery \<times> int" where
  "lessons_checked sv headers payload =
     and_then (require_writer sv headers) (\<lambda>p.
     and_then (json_payload payload) (\<lambda>(q, after).
     if after < 0 \<or> (case sv_query_json sv q of None \<Rightarrow> True | Some bytes \<Rightarrow> length bytes > 4096)
     then Inl bad_request else Inr (p, q, after)))"

definition server_lessons ::
  "('h, 's) server \<Rightarrow> request_headers \<Rightarrow> (LessonQuery \<times> int) payload \<Rightarrow> 's \<Rightarrow> (ApiError + MemoryRecord list) \<times> 's" where
  "server_lessons sv headers payload =
     guard_request (lessons_checked sv headers payload) (\<lambda>(p, q, after) s.
       run_store (so_lesson_page (sv_factory sv (pr_namespace p)) q after s)
         (validate_outputs (sv_env sv) (pr_namespace p)))"

definition put_checked ::
  "('h, 's) server \<Rightarrow> request_headers \<Rightarrow> PutRequest payload \<Rightarrow> ApiError + Principal \<times> PutRequest" where
  "put_checked sv headers payload =
     and_then (require_writer sv headers) (\<lambda>p.
     and_then (json_payload payload) (\<lambda>q.
     if blank (pq_content q) then Inl bad_request
     else if length (pq_content q) > ml_content_bytes PRODUCTION then Inl (api 413 RcContentTooLarge)
     else if metadata_validate (sv_env sv) (pq_metadata q) \<noteq> Inr () \<or>
             contains_likely_secret (pq_content q) \<or>
             reject_likely_secret (sv_env sv) (pq_metadata q) \<noteq> Inr ()
     then Inl bad_request
     else if \<not> opt_all (\<lambda>k. valid_key k \<and> mk_namespace k = Some (pr_namespace p)) (pq_replacement q)
     then Inl forbidden
     else Inr (p, q)))"

definition server_put ::
  "('h, 's) server \<Rightarrow> request_headers \<Rightarrow> PutRequest payload \<Rightarrow> 's \<Rightarrow> (ApiError + MemoryRecord) \<times> 's" where
  "server_put sv headers payload =
     guard_request (put_checked sv headers payload) (\<lambda>(p, q) s.
       run_store (so_put (sv_factory sv (pr_namespace p)) (pq_content q) (pq_metadata q) (pq_replacement q) s)
         (\<lambda>m. case validate_output (sv_env sv) (pr_namespace p) m of
            Inr (Some m) \<Rightarrow> Inr m
          | _ \<Rightarrow> Inl internal_error))"

definition delete_checked ::
  "('h, 's) server \<Rightarrow> request_headers \<Rightarrow> MemoryKey payload \<Rightarrow> ApiError + Principal \<times> MemoryKey" where
  "delete_checked sv headers payload =
     and_then (require_writer sv headers) (\<lambda>p.
     and_then (json_payload payload) (\<lambda>k.
     if \<not> valid_key k \<or> mk_namespace k \<noteq> Some (pr_namespace p) then Inl forbidden else Inr (p, k)))"

definition server_delete ::
  "('h, 's) server \<Rightarrow> request_headers \<Rightarrow> MemoryKey payload \<Rightarrow> 's \<Rightarrow> (ApiError + unit) \<times> 's" where
  "server_delete sv headers payload =
     guard_request (delete_checked sv headers payload) (\<lambda>(p, k) s.
       run_store (so_delete (sv_factory sv (pr_namespace p)) k s) Inr)"

definition sync_checked ::
  "('h, 's) server \<Rightarrow> request_headers \<Rightarrow> MemoryRecord list payload \<Rightarrow> ApiError + Principal \<times> MemoryRecord list" where
  "sync_checked sv headers payload =
     and_then (require_writer sv headers) (\<lambda>p.
     and_then (json_payload payload) (\<lambda>ms.
     if validate_snapshot (sv_env sv) ms \<noteq> Inr () then Inl bad_request else Inr (p, ms)))"

definition server_sync ::
  "('h, 's) server \<Rightarrow> request_headers \<Rightarrow> MemoryRecord list payload \<Rightarrow> 's \<Rightarrow> (ApiError + SyncReport) \<times> 's" where
  "server_sync sv headers payload =
     guard_request (sync_checked sv headers payload) (\<lambda>(p, ms) s.
       run_store (so_sync (sv_factory sv (pr_namespace p)) ms s) Inr)"

section \<open>The visible export page\<close>

definition visible_step ::
  "memory_env \<Rightarrow> string list option \<Rightarrow> ExportCursor option \<times> MemoryRecord list \<times> nat \<Rightarrow> MemoryRecord
    \<Rightarrow> MemoryError + ExportCursor option \<times> MemoryRecord list \<times> nat" where
  "visible_step E namespaces = (\<lambda>(previous, visible, bytes) m.
     if record_validate E ScopeAnyRemote PRODUCTION m \<noteq> Inr () then Inl InvalidPagination
     else case mk_namespace (mr_key m) of
       None \<Rightarrow> Inl InvalidPagination
     | Some ns \<Rightarrow>
         if \<not> opt_all (\<lambda>selected. ns \<in> set selected) namespaces \<or>
            \<not> opt_all (\<lambda>p. (ns, mk_id (mr_key m)) > cursor_pos p) previous
         then Inl InvalidPagination
         else if bytes + length (mr_content m) > ml_total_content_bytes PRODUCTION
         then Inl InvalidPagination
         else Inr (Some \<lparr>ec_namespace = ns, ec_id = mk_id (mr_key m)\<rparr>,
                   if safe_record E m then visible @ [m] else visible,
                   bytes + length (mr_content m)))"

definition last_visible_is :: "MemoryRecord list \<Rightarrow> ExportCursor \<Rightarrow> bool" where
  "last_visible_is visible c =
     (visible \<noteq> [] \<and> mk_namespace (mr_key (last visible)) = Some (ec_namespace c) \<and>
      mk_id (mr_key (last visible)) = ec_id c)"

text \<open>
  The subtraction \<open>limit - visible.len()\<close> is on \<open>usize\<close>: an underflow is the value \<open>None\<close>. The loop
  ends because every further round has a non-empty page within the record limit.
\<close>

function visible_from ::
  "memory_env \<Rightarrow> 's page_op \<Rightarrow> string list option \<Rightarrow> nat \<Rightarrow> ExportCursor option \<Rightarrow> MemoryRecord list \<Rightarrow> nat \<Rightarrow> nat
    \<Rightarrow> 's \<Rightarrow> ((MemoryError + MemoryRecord list \<times> ExportCursor option) \<times> 's) option" where
  "visible_from E export_page namespaces limit cursor visible raw_records raw_bytes s =
     (if length visible > limit then None
      else case export_page cursor (limit - length visible) s of
        (Inl e, s') \<Rightarrow> Some (Inl e, s')
      | (Inr (page, next_cursor), s') \<Rightarrow>
          if length page > limit - length visible \<or> page = [] \<and> next_cursor \<noteq> None
          then Some (Inl InvalidPagination, s')
          else if raw_records + length page > ml_records PRODUCTION
          then Some (Inl InvalidPagination, s')
          else case try_fold (visible_step E namespaces) (cursor, visible, raw_bytes) page of
            Inl e \<Rightarrow> Some (Inl e, s')
          | Inr (previous, visible', raw_bytes') \<Rightarrow>
              (case next_cursor of
                 None \<Rightarrow> Some (Inr (visible', None), s')
               | Some n \<Rightarrow>
                   if previous \<noteq> Some n then Some (Inl InvalidPagination, s')
                   else if last_visible_is visible' n then Some (Inr (visible', Some n), s')
                   else visible_from E export_page namespaces limit (Some n) visible'
                     (raw_records + length page) raw_bytes' s'))"
  by pat_completeness auto

termination
  by (relation "measure (\<lambda>(E, export_page, namespaces, limit, cursor, visible, raw_records, raw_bytes, s).
        513 - raw_records)")
    (auto simp: PRODUCTION_def neq_Nil_conv)

declare visible_from.simps [simp del]

definition export_visible_page ::
  "memory_env \<Rightarrow> 's page_op \<Rightarrow> string list option \<Rightarrow> ExportCursor option \<Rightarrow> nat
    \<Rightarrow> 's \<Rightarrow> ((MemoryError + MemoryRecord list \<times> ExportCursor option) \<times> 's) option" where
  "export_visible_page E export_page namespaces cursor limit s =
     visible_from E export_page namespaces limit cursor [] 0 0 s"

definition export_checked ::
  "('h, 's) server \<Rightarrow> request_headers \<Rightarrow> ExportRequest payload \<Rightarrow> ApiError + Principal \<times> ExportRequest" where
  "export_checked sv headers payload =
     and_then (sv_authenticate sv headers) (\<lambda>p.
     and_then (json_payload payload) (\<lambda>q.
     if eq_limit q = 0 \<or> eq_limit q > MAX_EXPORT_PAGE_RECORDS \<or>
        \<not> opt_all (\<lambda>ns. ns \<noteq> [] \<and> length ns \<le> ml_records PRODUCTION \<and> list_all is_valid_namespace ns)
            (eq_namespaces q) \<or>
        \<not> opt_all (\<lambda>c. is_valid_namespace (ec_namespace c) \<and> ec_id c > 0) (eq_cursor q)
     then Inl bad_request else Inr (p, q)))"

definition server_export ::
  "('h, 's) server \<Rightarrow> request_headers \<Rightarrow> ExportRequest payload \<Rightarrow> 's
    \<Rightarrow> ((ApiError + MemoryRecord list \<times> ExportCursor option) \<times> 's) option" where
  "server_export sv headers payload s =
     (case export_checked sv headers payload of
        Inl e \<Rightarrow> Some (Inl e, s)
      | Inr (p, q) \<Rightarrow>
          map_option (\<lambda>r. run_store r Inr)
            (export_visible_page (sv_env sv)
              (so_export_page (sv_factory sv (pr_namespace p)) (eq_namespaces q))
              (eq_namespaces q) (eq_cursor q) (eq_limit q) s))"

section \<open>What leaves the server\<close>

definition record_pos :: "MemoryRecord \<Rightarrow> string \<times> int" where
  "record_pos m = ((case mk_namespace (mr_key m) of None \<Rightarrow> [] | Some ns \<Rightarrow> ns), mk_id (mr_key m))"

definition cursor_list :: "ExportCursor option \<Rightarrow> (string \<times> int) list" where
  "cursor_list c = (case c of None \<Rightarrow> [] | Some c \<Rightarrow> [cursor_pos c])"

definition exportable :: "memory_env \<Rightarrow> string list option \<Rightarrow> MemoryRecord \<Rightarrow> bool" where
  "exportable E namespaces m =
     (record_validate E ScopeAnyRemote PRODUCTION m = Inr () \<and> mk_namespace (mr_key m) \<noteq> None \<and>
      opt_all (\<lambda>selected. fst (record_pos m) \<in> set selected) namespaces)"

lemma visible_step_Inr:
  "visible_step E namespaces (previous, visible, bytes) m = Inr (previous', visible', bytes') \<longleftrightarrow>
     exportable E namespaces m \<and> opt_all (\<lambda>p. cursor_pos p < record_pos m) previous \<and>
     bytes + length (mr_content m) \<le> ml_total_content_bytes PRODUCTION \<and>
     previous' = Some \<lparr>ec_namespace = fst (record_pos m), ec_id = snd (record_pos m)\<rparr> \<and>
     visible' = visible @ filter (safe_record E) [m] \<and> bytes' = bytes + length (mr_content m)"
  by (auto simp: visible_step_def exportable_def record_pos_def split: option.splits if_splits)

lemma visible_fold_Inr:
  assumes "try_fold (visible_step E namespaces) (previous, visible, bytes) page = Inr (previous', visible', bytes')"
  shows "(\<forall>m \<in> set page. exportable E namespaces m) \<and> visible' = visible @ filter (safe_record E) page \<and>
    sorted_wrt (<) (cursor_list previous @ map record_pos page) \<and>
    (page \<noteq> [] \<longrightarrow> cursor_list previous' = [record_pos (last page)])"
  using assms
proof (induction page arbitrary: previous visible bytes)
  case Nil
  then show ?case by (auto simp: cursor_list_def split: option.splits)
next
  case (Cons m page)
  let ?c = "\<lparr>ec_namespace = fst (record_pos m), ec_id = snd (record_pos m)\<rparr>"
  from Cons.prems have step: "exportable E namespaces m" "opt_all (\<lambda>p. cursor_pos p < record_pos m) previous"
    and rest: "try_fold (visible_step E namespaces) (Some ?c, visible @ filter (safe_record E) [m],
      bytes + length (mr_content m)) page = Inr (previous', visible', bytes')"
    by (auto simp: and_then_Inr_iff visible_step_Inr)
  have pos: "cursor_list (Some ?c) = [record_pos m]"
    by (simp add: cursor_list_def cursor_pos_def)
  note IH = Cons.IH [OF rest, unfolded pos]
  have "previous' = Some ?c" if "page = []"
    using rest that by simp
  with IH step pos show ?case
    by (auto simp: cursor_list_def opt_all_def split: option.splits dest: less_trans)
qed

text \<open>
  The state of the loop: fewer records are visible than asked for, and all of them lie after the
  request's cursor and at or before the loop's, in order.
\<close>

definition visible_ok ::
  "memory_env \<Rightarrow> string list option \<Rightarrow> ExportCursor option \<Rightarrow> ExportCursor option \<Rightarrow> MemoryRecord list \<Rightarrow> bool" where
  "visible_ok E namespaces start cursor visible =
     ((\<forall>m \<in> set visible. exportable E namespaces m \<and> safe_record E m) \<and>
      sorted_wrt (<) (cursor_list start @ map record_pos visible) \<and>
      (\<forall>p \<in> set (cursor_list start @ map record_pos visible). \<exists>c. cursor = Some c \<and> p \<le> cursor_pos c))"

lemma visible_round:
  assumes ok: "visible_ok E namespaces start cursor visible"
    and fold: "try_fold (visible_step E namespaces) (cursor, visible, bytes) page = Inr (previous, visible', bytes')"
  shows "(\<forall>m \<in> set visible'. exportable E namespaces m \<and> safe_record E m)"
    and "sorted_wrt (<) (cursor_list start @ map record_pos visible')"
    and "page \<noteq> [] \<Longrightarrow> visible_ok E namespaces start previous visible'"
    and "length visible' = length visible + length page \<Longrightarrow> page \<noteq> [] \<Longrightarrow> previous = Some n \<Longrightarrow>
      last_visible_is visible' n"
proof -
  note f = visible_fold_Inr [OF fold]
  then have v': "visible' = visible @ filter (safe_record E) page"
    by blast
  show all: "\<forall>m \<in> set visible'. exportable E namespaces m \<and> safe_record E m"
    using ok f by (auto simp: visible_ok_def)
  have later: "p < record_pos m"
    if "p \<in> set (cursor_list start @ map record_pos visible)" and "m \<in> set page" for p m
  proof -
    from ok that(1) obtain c where "cursor = Some c" and "p \<le> cursor_pos c"
      by (auto simp: visible_ok_def)
    with f that(2) show ?thesis
      by (auto simp: cursor_list_def dest: le_less_trans)
  qed
  have page: "sorted_wrt (<) (map record_pos page)"
    using f by (auto simp: sorted_wrt_append)
  then have "sorted_wrt (<) (map record_pos (filter (safe_record E) page))"
    by (simp add: sorted_wrt_map sorted_wrt_filter)
  then have sorted: "sorted_wrt (<) ((cursor_list start @ map record_pos visible) @
      map record_pos (filter (safe_record E) page))"
    unfolding sorted_wrt_append [of _ "cursor_list start @ map record_pos visible"]
    using ok later by (auto simp: visible_ok_def)
  then show s: "sorted_wrt (<) (cursor_list start @ map record_pos visible')"
    by (simp add: v')
  show "visible_ok E namespaces start previous visible'" if "page \<noteq> []"
  proof -
    from f that obtain c where c: "previous = Some c" "cursor_pos c = record_pos (last page)"
      by (auto simp: cursor_list_def split: option.splits)
    have on_page: "record_pos m \<le> record_pos (last page)" if "m \<in> set page" for m
      using page that by (cases page rule: rev_cases) (auto simp: sorted_wrt_append less_imp_le)
    have before: "p < record_pos (last page)"
      if "p \<in> set (cursor_list start @ map record_pos visible)" for p
      using later [OF that] \<open>page \<noteq> []\<close> by simp
    have "\<forall>p \<in> set (cursor_list start @ map record_pos visible'). p \<le> cursor_pos c"
    proof
      fix p
      assume "p \<in> set (cursor_list start @ map record_pos visible')"
      then consider "p \<in> set (cursor_list start @ map record_pos visible)"
        | m where "m \<in> set page" and "p = record_pos m"
        by (auto simp: v')
      then show "p \<le> cursor_pos c"
        unfolding c(2) by cases (rule less_imp_le, erule before, simp add: on_page)
    qed
    then show ?thesis
      using all s c(1) unfolding visible_ok_def by blast
  qed
  show "last_visible_is visible' n"
    if "length visible' = length visible + length page" and "page \<noteq> []" and "previous = Some n"
  proof -
    from that(1) have "length (filter (safe_record E) page) = length page"
      by (simp add: v')
    then have "filter (safe_record E) page = page"
      by (metis filter_id_conv length_filter_less linorder_neq_iff)
    then have "last visible' = last page"
      using that(2) by (simp add: v')
    moreover have "record_pos (last page) = cursor_pos n"
      using f that(2,3) by (simp add: cursor_list_def)
    moreover have "exportable E namespaces (last page)"
      using f that(2) by simp
    ultimately show ?thesis
      using that(2) v' \<open>filter (safe_record E) page = page\<close>
      by (auto simp: last_visible_is_def record_pos_def cursor_pos_def exportable_def)
  qed
qed

definition page_result_ok ::
  "memory_env \<Rightarrow> string list option \<Rightarrow> ExportCursor option \<Rightarrow> nat \<Rightarrow> MemoryRecord list \<Rightarrow> ExportCursor option \<Rightarrow> bool" where
  "page_result_ok E namespaces start limit page next_cursor =
     (length page \<le> limit \<and> (\<forall>m \<in> set page. exportable E namespaces m \<and> safe_record E m) \<and>
      sorted_wrt (<) (cursor_list start @ map record_pos page) \<and>
      (\<forall>n. next_cursor = Some n \<longrightarrow> last_visible_is page n))"

lemma visible_from_ok:
  assumes "visible_ok E namespaces start cursor visible" and "length visible < limit"
  shows "\<exists>r s'. visible_from E export_page namespaces limit cursor visible raw_records raw_bytes s = Some (r, s') \<and>
    (\<forall>page next_cursor. r = Inr (page, next_cursor) \<longrightarrow> page_result_ok E namespaces start limit page next_cursor)"
  using assms
proof (induction E export_page namespaces limit cursor visible raw_records raw_bytes s rule: visible_from.induct)
  case (1 E export_page namespaces limit cursor visible raw_records raw_bytes s)
  note IH = "1.IH" and prems = "1.prems"
  obtain out s' where call: "export_page cursor (limit - length visible) s = (out, s')"
    by (cases "export_page cursor (limit - length visible) s")
  show ?case
  proof (cases out)
    case (Inl e)
    with call prems(2) show ?thesis
      by (subst visible_from.simps) simp
  next
    case (Inr x)
    then obtain page next_cursor where x: "out = Inr (page, next_cursor)"
      by (cases x) auto
    show ?thesis
    proof (cases "length page > limit - length visible \<or> page = [] \<and> next_cursor \<noteq> None \<or>
        raw_records + length page > ml_records PRODUCTION")
      case True
      with call x prems(2) show ?thesis
        by (subst visible_from.simps) auto
    next
      case False
      show ?thesis
      proof (cases "try_fold (visible_step E namespaces) (cursor, visible, raw_bytes) page")
        case (Inl e)
        with call x False prems(2) show ?thesis
          by (subst visible_from.simps) simp
      next
        case fold: (Inr y)
        obtain previous visible' raw_bytes' where y: "y = (previous, visible', raw_bytes')"
          by (metis prod_cases3)
        note round = visible_round [OF prems(1) fold [unfolded y]]
        have len: "length visible' \<le> limit"
          using visible_fold_Inr [OF fold [unfolded y]] False prems(2)
          by (auto intro: le_trans [OF add_left_mono [OF length_filter_le]])
        show ?thesis
        proof (cases next_cursor)
          case None
          with call x False prems(2) fold y round(1,2) len show ?thesis
            by (subst visible_from.simps) (simp add: page_result_ok_def)
        next
          case (Some n)
          show ?thesis
          proof (cases "previous \<noteq> Some n \<or> last_visible_is visible' n")
            case True
            with Some call x False prems(2) fold y round(1,2) len show ?thesis
              by (subst visible_from.simps) (auto simp: page_result_ok_def)
          next
            case go: False
            from False Some have page: "page \<noteq> []" by auto
            have v': "length visible' = length visible + length (filter (safe_record E) page)"
              using visible_fold_Inr [OF fold [unfolded y]] by simp
            moreover have "length visible' \<noteq> length visible + length page"
              using round(4) [OF _ page, of n] go by auto
            ultimately have "length (filter (safe_record E) page) < length page"
              by (metis le_neq_implies_less length_filter_le)
            then have short: "length visible' < limit"
              using v' False prems(2) by linarith
            have eq: "visible_from E export_page namespaces limit cursor visible raw_records raw_bytes s =
                visible_from E export_page namespaces limit (Some n) visible' (raw_records + length page) raw_bytes' s'"
              using Some call x False prems(2) fold y go by (subst visible_from.simps) simp
            have "visible_ok E namespaces start (Some n) visible'"
              using round(3) [OF page] go by simp
            then show ?thesis
              unfolding eq using IH Some call x False prems(2) fold y go short by simp
          qed
        qed
      qed
    qed
  qed
qed

text \<open>
  C29: whatever the store behind it returns, an export page of the server is computed in finitely many
  rounds without underflow; if it succeeds it has at most the requested number of records, all valid,
  of the selected namespaces and free of likely secrets, in strictly increasing order after the
  request's cursor, and a next cursor is the position of its last record.
\<close>

theorem export_page_is_safe_for_any_store:
  assumes "limit > 0"
  shows "\<exists>r s'. export_visible_page E export_page namespaces cursor limit s = Some (r, s') \<and>
    (\<forall>page next_cursor. r = Inr (page, next_cursor) \<longrightarrow> page_result_ok E namespaces cursor limit page next_cursor)"
  unfolding export_visible_page_def
  by (rule visible_from_ok) (use assms in \<open>auto simp: visible_ok_def cursor_list_def split: option.split\<close>)

section \<open>Who can change the store\<close>

lemma authenticate_Inr:
  "authenticate hash principals headers = Inr p \<longleftrightarrow>
     (\<exists>authorization token. rh_authorization headers = Some authorization \<and> bearer_of authorization = Some token \<and>
        principals (hash token) = Some p \<and> rh_namespace headers = Some (pr_namespace p))"
  by (auto simp: authenticate_def result_simps)

lemma require_writer_Inr:
  "require_writer sv headers = Inr p \<longleftrightarrow> sv_authenticate sv headers = Inr p \<and> pr_role p = Writer"
  by (auto simp: require_writer_def result_simps)

text \<open>The mutations a server can carry out in a store.\<close>

datatype mutation =
    MutPut string MemoryMetadata "MemoryKey option"
  | MutDelete MemoryKey
  | MutSync "MemoryRecord list"

fun mutate :: "'s store_ops \<Rightarrow> mutation \<Rightarrow> 's \<Rightarrow> 's" where
  "mutate ops (MutPut content m replacement) s = snd (so_put ops content m replacement s)"
| "mutate ops (MutDelete k) s = snd (so_delete ops k s)"
| "mutate ops (MutSync ms) s = snd (so_sync ops ms s)"

fun request_of :: "('h, 's) server \<Rightarrow> request_headers \<Rightarrow> mutation \<Rightarrow> 's \<Rightarrow> 's" where
  "request_of sv headers (MutPut content m replacement) s =
     snd (server_put sv headers (Inr \<lparr>pq_metadata = m, pq_content = content, pq_replacement = replacement\<rparr>) s)"
| "request_of sv headers (MutDelete k) s = snd (server_delete sv headers (Inr k) s)"
| "request_of sv headers (MutSync ms) s = snd (server_sync sv headers (Inr ms) s)"

definition targets :: "string \<Rightarrow> mutation \<Rightarrow> bool" where
  "targets namespace m =
     (case m of
        MutPut content _ replacement \<Rightarrow>
          \<not> contains_likely_secret content \<and> opt_all (\<lambda>k. mk_namespace k = Some namespace) replacement
      | MutDelete k \<Rightarrow> mk_namespace k = Some namespace
      | MutSync ms \<Rightarrow> list_all (\<lambda>r. \<not> contains_likely_secret (mr_content r)) ms)"

lemma validate_snapshot_safe:
  assumes "validate_snapshot E ms = Inr ()"
  shows "list_all (safe_record E) ms"
proof -
  have "try_fold (\<lambda>(ids, bytes) m.
          and_then (record_validate E ScopeLocal PRODUCTION m) (\<lambda>_.
          if mk_id (mr_key m) \<in> set ids \<or> \<not> safe_record E m \<or> bytes + length (mr_content m) > MEM_USIZE_MAX
          then Inl InvalidMetadata
          else Inr (mk_id (mr_key m) # ids, bytes + length (mr_content m)))) t ms = Inr u \<Longrightarrow>
      list_all (safe_record E) ms" for t u
    by (induction ms arbitrary: t) (auto simp: result_simps split: if_splits prod.splits)
  with assms show ?thesis
    by (auto simp: validate_snapshot_def result_simps split: if_splits)
qed

text \<open>
  C30: a put, delete or sync request that changes the store carries the bearer token of a writer and that writer's own
  namespace, and the change is the mutation it asked for, applied through the store of that namespace
  only; the record it replaces or deletes is in that namespace and the content it writes is not a
  likely secret. Such a request of a reader, of another namespace or without a known token changes nothing.
\<close>

theorem only_a_writer_changes_its_own_namespace:
  assumes "request_of sv headers m s \<noteq> s"
  shows "\<exists>p authorization token. rh_authorization headers = Some authorization \<and>
    bearer_of authorization = Some token \<and> sv_principals sv (sv_hash sv token) = Some p \<and>
    pr_role p = Writer \<and> rh_namespace headers = Some (pr_namespace p) \<and> targets (pr_namespace p) m \<and>
    request_of sv headers m s = mutate (sv_factory sv (pr_namespace p)) m s"
proof -
  have auth: "\<exists>authorization token. rh_authorization headers = Some authorization \<and>
      bearer_of authorization = Some token \<and> sv_principals sv (sv_hash sv token) = Some p \<and>
      pr_role p = Writer \<and> rh_namespace headers = Some (pr_namespace p)" if "require_writer sv headers = Inr p" for p
    using that by (auto simp: require_writer_Inr sv_authenticate_def authenticate_Inr)
  show ?thesis
  proof (cases m)
    case (MutPut content md replacement)
    with assms obtain p q where "put_checked sv headers
        (Inr \<lparr>pq_metadata = md, pq_content = content, pq_replacement = replacement\<rparr>) = Inr (p, q)"
      by (auto simp: server_put_def guard_request_def split: sum.splits)
    then have "require_writer sv headers = Inr p" and "targets (pr_namespace p) m"
      and "request_of sv headers m s = mutate (sv_factory sv (pr_namespace p)) m s"
      using MutPut
      by (auto simp: put_checked_def json_payload_def result_simps targets_def opt_all_def server_put_def
          guard_request_def run_store_def split: if_splits option.splits)
    with auth show ?thesis by blast
  next
    case (MutDelete k)
    with assms obtain p q where "delete_checked sv headers (Inr k) = Inr (p, q)"
      by (auto simp: server_delete_def guard_request_def split: sum.splits)
    then have "require_writer sv headers = Inr p" and "targets (pr_namespace p) m"
      and "request_of sv headers m s = mutate (sv_factory sv (pr_namespace p)) m s"
      using MutDelete
      by (auto simp: delete_checked_def json_payload_def result_simps targets_def server_delete_def
          guard_request_def run_store_def split: if_splits)
    with auth show ?thesis by blast
  next
    case (MutSync ms)
    with assms obtain p q where "sync_checked sv headers (Inr ms) = Inr (p, q)"
      by (auto simp: server_sync_def guard_request_def split: sum.splits)
    then have "require_writer sv headers = Inr p" and "validate_snapshot (sv_env sv) ms = Inr ()"
      and "request_of sv headers m s = mutate (sv_factory sv (pr_namespace p)) m s"
      using MutSync
      by (auto simp: sync_checked_def json_payload_def result_simps server_sync_def
          guard_request_def run_store_def split: if_splits)
    with auth validate_snapshot_safe MutSync show ?thesis
      by (auto simp: targets_def list_all_iff safe_record_def)
  qed
qed

end
