(* ===== verification/Memory_Lessons.thy ===== *)
theory Memory_Lessons
  imports Memory_Server
begin

text \<open>
  Lessons nominated by a run (\<^verbatim>\<open>crates/memory/src/lessons.rs\<close>): proposing a lesson merges it into the
  matching record of the writer, finalizing turns the pending lessons of a run into proposals, page by
  page. Both run over any store. The loop of \<open>finalize_lessons\<close> has no bound of its own, so it is a
  partial function whose termination is proved: identifiers are \<open>i64\<close> and every round moves past one.
\<close>

section \<open>Pages\<close>

fun validate_after :: "memory_env \<Rightarrow> LessonQuery \<Rightarrow> int \<Rightarrow> MemoryRecord list \<Rightarrow> MemoryError + unit" where
  "validate_after E q after [] = Inr ()"
| "validate_after E q after (r # rs) =
     (if mk_id (mr_key r) \<le> after \<or> \<not> query_matches E q r then Inl InvalidPagination
      else validate_after E q (mk_id (mr_key r)) rs)"

definition validate_page :: "memory_env \<Rightarrow> LessonQuery \<Rightarrow> int \<Rightarrow> MemoryRecord list \<Rightarrow> MemoryError + unit" where
  "validate_page E q after records =
     (if length records > MAX_EXPORT_PAGE_RECORDS then Inl InvalidPagination
      else validate_after E q after records)"

section \<open>Proposing\<close>

definition merge_lesson :: "MemoryMetadata \<Rightarrow> MemoryMetadata \<Rightarrow> MemoryMetadata" where
  "merge_lesson metadata previous =
     metadata\<lparr>
       md_historical_evidence := foldl push_new (md_historical_evidence previous)
         (md_evidence previous @ behavior_test (md_kind previous)),
       md_producing_traces := foldl push_new (md_producing_traces metadata) (md_producing_traces previous),
       md_imported_from := md_imported_from previous,
       md_transferred_from := md_transferred_from previous,
       md_ownership_id := md_ownership_id previous\<rparr>"

definition propose_lesson ::
  "memory_env \<Rightarrow> 's store_ops \<Rightarrow> string \<Rightarrow> MemoryMetadata \<Rightarrow> 's \<Rightarrow> (MemoryError + MemoryRecord) \<times> 's" where
  "propose_lesson E ops content metadata s =
     (case (lesson_pending (md_kind metadata), md_producing_traces metadata) of
        (True, [run]) \<Rightarrow>
          (let metadata = metadata\<lparr>md_pending_run := Some run\<rparr>;
               q = MatchingLesson (md_scope metadata) (normalize_identity E content)
           in case so_lesson_page ops q 0 s of
                (Inl e, s') \<Rightarrow> (Inl e, s')
              | (Inr records, s') \<Rightarrow>
                  (case validate_page E q 0 records of
                     Inl e \<Rightarrow> (Inl e, s')
                   | Inr _ \<Rightarrow>
                       (case records of
                          [] \<Rightarrow> so_put ops content metadata None s'
                        | r # _ \<Rightarrow> so_put ops content (merge_lesson metadata (mr_metadata r)) (Some (mr_key r)) s')))
      | _ \<Rightarrow> (Inl InvalidMetadata, s))"

section \<open>Finalizing\<close>

fun proposed_kind :: "MemoryKind \<Rightarrow> MemoryKind" where
  "proposed_kind (LessonProposal t _) = LessonProposal t ProposalProposed"
| "proposed_kind k = k"

definition finalized_metadata :: "MemoryMetadata \<Rightarrow> MemoryMetadata" where
  "finalized_metadata m = m\<lparr>md_kind := proposed_kind (md_kind m), md_pending_run := None\<rparr>"

text \<open>One page: the count so far and the cursor, or the error that ends the loop.\<close>

fun finalize_page ::
  "'s store_ops \<Rightarrow> nat \<Rightarrow> int \<Rightarrow> MemoryRecord list \<Rightarrow> 's \<Rightarrow> (MemoryError + nat \<times> int) \<times> 's" where
  "finalize_page ops count after [] s = (Inr (count, after), s)"
| "finalize_page ops count after (r # rs) s =
     (if is_lesson (md_kind (mr_metadata r))
      then case so_put ops (mr_content r) (finalized_metadata (mr_metadata r)) (Some (mr_key r)) s of
          (Inr _, s') \<Rightarrow> finalize_page ops (count + 1) (mk_id (mr_key r)) rs s'
        | (Inl MemConflict, s') \<Rightarrow> finalize_page ops count (mk_id (mr_key r)) rs s'
        | (Inl MemNotFound, s') \<Rightarrow> finalize_page ops count (mk_id (mr_key r)) rs s'
        | (Inl e, s') \<Rightarrow> (Inl e, s')
      else finalize_page ops count (mk_id (mr_key r)) rs s)"

partial_function (option) finalize_from ::
  "memory_env \<Rightarrow> 's store_ops \<Rightarrow> LessonQuery \<Rightarrow> nat \<Rightarrow> int \<Rightarrow> 's \<Rightarrow> ((MemoryError + nat) \<times> 's) option" where
  "finalize_from E ops q count after s =
     (case so_lesson_page ops q after s of
        (Inl e, s') \<Rightarrow> Some (Inl e, s')
      | (Inr records, s') \<Rightarrow>
          (case validate_page E q after records of
             Inl e \<Rightarrow> Some (Inl e, s')
           | Inr _ \<Rightarrow>
               if records = [] then Some (Inr count, s')
               else case finalize_page ops count after records s' of
                 (Inl e, s'') \<Rightarrow> Some (Inl e, s'')
               | (Inr (count', after'), s'') \<Rightarrow> finalize_from E ops q count' after' s''))"

definition finalize_lessons ::
  "memory_env \<Rightarrow> 's store_ops \<Rightarrow> TraceReference \<Rightarrow> 's \<Rightarrow> ((MemoryError + nat) \<times> 's) option" where
  "finalize_lessons E ops trace s = finalize_from E ops (PendingLesson trace) 0 0 s"

section \<open>Termination\<close>

lemma finalize_page_cursor:
  "finalize_page ops count after rs s = (Inr (count', after'), s') \<Longrightarrow> rs \<noteq> [] \<Longrightarrow>
     after' = mk_id (mr_key (last rs))"
proof (induction rs arbitrary: count after s)
  case Nil
  then show ?case by simp
next
  case (Cons r rs)
  from Cons.prems(1) obtain c t where "finalize_page ops c (mk_id (mr_key r)) rs t = (Inr (count', after'), s')"
    by (auto split: if_splits prod.splits sum.splits MemoryError.splits)
  with Cons.IH show ?case
    by (cases rs) auto
qed

lemma validate_after_bound:
  "validate_after E q after rs = Inr () \<Longrightarrow> r \<in> set rs \<Longrightarrow> after < mk_id (mr_key r) \<and> query_matches E q r"
  by (induction rs arbitrary: after) (force split: if_splits)+

text \<open>What the type \<open>i64\<close> of an identifier says of a store.\<close>

definition typed_pages :: "'s store_ops \<Rightarrow> bool" where
  "typed_pages ops = (\<forall>q after s rs s'. so_lesson_page ops q after s = (Inr rs, s') \<longrightarrow>
     (\<forall>r \<in> set rs. mk_id (mr_key r) \<le> I64_MAX))"

text \<open>
  C31: finalizing the lessons of a run ends on every store, also on one that keeps returning records:
  a page that does not move past the last identifier is refused, and there are finitely many identifiers.
\<close>

theorem finalize_lessons_terminates:
  assumes "typed_pages ops"
  shows "\<exists>r s'. finalize_lessons E ops trace s = Some (r, s')"
proof -
  have "\<exists>r s'. finalize_from E ops q count after s = Some (r, s')" for q count after s
  proof (induction "nat (I64_MAX - after)" arbitrary: count after s rule: less_induct)
    case less
    obtain out s1 where page: "so_lesson_page ops q after s = (out, s1)"
      by (cases "so_lesson_page ops q after s")
    show ?case
    proof (cases "\<exists>rs. out = Inr rs \<and> validate_page E q after rs = Inr () \<and> rs \<noteq> []")
      case False
      with page show ?thesis
        by (subst finalize_from.simps) (auto split: sum.split)
    next
      case True
      then obtain rs where rs: "out = Inr rs" "validate_page E q after rs = Inr ()" "rs \<noteq> []"
        by blast
      obtain res s2 where step: "finalize_page ops count after rs s1 = (res, s2)"
        by (cases "finalize_page ops count after rs s1")
      show ?thesis
      proof (cases res)
        case (Inl e)
        with page rs step show ?thesis
          by (subst finalize_from.simps) simp
      next
        case (Inr x)
        then obtain count' after' where x: "res = Inr (count', after')"
          by (cases x) auto
        have after': "after' = mk_id (mr_key (last rs))"
          using finalize_page_cursor [OF step [unfolded x] rs(3)] .
        have "after < after'"
          using validate_after_bound [of E q after rs "last rs"] rs(2,3)
          by (simp add: after' validate_page_def split: if_splits)
        moreover have "after' \<le> I64_MAX"
          using assms page rs(1,3) unfolding typed_pages_def after' by (metis last_in_set)
        ultimately have "nat (I64_MAX - after') < nat (I64_MAX - after)"
          by simp
        from less [OF this, of count' s2] page rs step x show ?thesis
          by (subst finalize_from.simps) simp
      qed
    qed
  qed
  then show ?thesis
    by (simp add: finalize_lessons_def)
qed

end
