(* ===== verification/Memory_Fixture.thy ===== *)
theory Memory_Fixture
  imports Memory_Lessons
begin

text \<open>
  Concrete inputs at which the hypotheses of the memory properties hold: external functions, drawn
  identifiers, a small store after a few operations, and a server over a list of records.
\<close>

section \<open>External functions\<close>

definition mx_env :: memory_env where
  "mx_env =
     \<lparr>me_metadata_json = (\<lambda>m. Some ''{}''), me_scope_json = (\<lambda>_. ''scope''),
      me_transfer_json = (\<lambda>_ _ content _. content), me_record_json = (\<lambda>_ content _ _. content),
      me_sha_hex = (\<lambda>_. replicate 64 (CHR ''0'')), me_lowercase = to_ascii_lowercase\<rparr>"

definition mx_retrieval :: retrieval_env where
  "mx_retrieval =
     \<lparr>re_alphanumeric = list_all is_ascii_alphanumeric, re_uppercase = (\<lambda>_. False),
      re_lowercase = (\<lambda>_. True), re_to_lowercase = to_ascii_lowercase, re_bm25 = (\<lambda>_ _ _. 1)\<rparr>"

definition mx_draws :: mem_draws where
  "mx_draws = \<lparr>dr_migration = (\<lambda>_. replicate 32 (CHR ''a'')), dr_ownership = (\<lambda>_. replicate 32 (CHR ''b''))\<rparr>"

lemma mx_json_room: "json_room mx_env"
  by (simp add: json_room_def mx_env_def)

lemma mx_draws_ok: "draws_ok mx_draws"
  by (simp add: draws_ok_def mx_draws_def valid_ownership_def list_all_iff is_ascii_hexdigit_def
      is_ascii_digit_def byte_of_def)

section \<open>A store\<close>

definition mx_put :: "string \<Rightarrow> MemoryKey option \<Rightarrow> int \<Rightarrow> mem_db \<Rightarrow> (MemoryError + MemoryRecord) \<times> mem_db" where
  "mx_put content replacement now db =
     put_with_metadata mx_env PRODUCTION mx_draws content metadata_default replacement now db"

text \<open>The texts put into the store pass every check on content.\<close>

definition mx_texts :: "string list" where
  "mx_texts = [''tabs'', ''lint'', ''docs'']"

lemma mx_texts_clean: "c \<in> set mx_texts \<Longrightarrow> \<not> contains_likely_secret c \<and> \<not> blank c \<and> length c \<le> 1024"
proof -
  have "list_all (\<lambda>c. \<not> contains_likely_secret c) mx_texts" and "list_all (\<lambda>c. \<not> blank c) mx_texts"
    by code_simp+
  moreover have "\<forall>c \<in> set mx_texts. length c \<le> 1024"
    by (simp add: mx_texts_def)
  ultimately show "c \<in> set mx_texts \<Longrightarrow> ?thesis"
    by (simp add: list_all_iff)
qed

definition mx_metadata :: MemoryMetadata where
  "mx_metadata = metadata_default\<lparr>md_ownership_id := Some (replicate 32 (CHR ''b''))\<rparr>"

lemma mx_metadata_of: "metadata_default\<lparr>md_ownership_id := Some (replicate 32 (CHR ''b''))\<rparr> = mx_metadata"
  by (simp add: mx_metadata_def)

lemma mx_hex: "valid_ownership (replicate 32 (CHR ''b''))"
  using mx_draws_ok by (simp add: draws_ok_def mx_draws_def)

lemma mx_metadata_ok:
  "metadata_validate mx_env metadata_default = Inr ()" "metadata_validate mx_env mx_metadata = Inr ()"
  "reject_likely_secret mx_env m = Inr ()"
proof -
  have "\<not> contains_likely_secret ''{}''"
    by code_simp
  then show "reject_likely_secret mx_env m = Inr ()"
    by (simp add: reject_likely_secret_def mx_env_def)
qed (simp_all add: metadata_validate_def mx_env_def metadata_default_def mx_metadata_def mx_hex)

definition mx_row :: "int \<Rightarrow> int \<Rightarrow> string \<Rightarrow> int \<Rightarrow> mem_row" where
  "mx_row i v c now =
     \<lparr>row_id = i, row_content = c, row_identity = normalize_identity mx_env c, row_created_at_ms = 1000,
      row_updated_at_ms = now, row_last_scanned_at_ms = None, row_scan_count = 0, row_last_used_at_ms = None,
      row_use_count = 0, row_probation_until_ms = Some (now + 604800000), row_version = v,
      row_metadata = mx_metadata\<rparr>"

definition mx_db :: "mem_row list \<Rightarrow> int \<Rightarrow> mem_db" where
  "mx_db rows n = \<lparr>db_schema = 3, db_rows = rows, db_next_id = Some n, db_trigger = True\<rparr>"

lemma mx_fields [simp]:
  "db_rows (mx_db rows n) = rows" "db_next_id (mx_db rows n) = Some n" "db_trigger (mx_db rows n)"
  "row_id (mx_row i v c now) = i" "row_content (mx_row i v c now) = c" "row_version (mx_row i v c now) = v"
  "row_metadata (mx_row i v c now) = mx_metadata"
  "ml_records PRODUCTION = 512" "ml_content_bytes PRODUCTION = 1024"
  by (simp_all add: mx_db_def mx_row_def PRODUCTION_def)

lemma mx_identity: "metadata_identity mx_env mx_metadata c = normalize_identity mx_env c"
  by (simp add: metadata_identity_def mx_metadata_def metadata_default_def)

lemma mx_row_valid:
  assumes "c \<in> set mx_texts" and "0 < i" and "0 < v" and "v \<le> 10" and "m = metadata_default \<or> m = mx_metadata"
    and "1000 \<le> now" and "i < 10"
  shows "record_validate mx_env ScopeLocal PRODUCTION (row_to_memory ((mx_row i v c now)\<lparr>row_metadata := m\<rparr>)) = Inr ()"
  using assms mx_texts_clean [OF assms(1)] mx_metadata_ok
  by (subst row_validate_iff)
    (auto simp: row_ok_def mx_row_def i64_nat_def I64_MAX_def row_times_def opt_all_def PRODUCTION_def)

lemma mx_texts_in: "''tabs'' \<in> set mx_texts" "''lint'' \<in> set mx_texts"
  "''docs'' \<in> set mx_texts"
  by (simp_all add: mx_texts_def)

lemma mx_content_ok:
  "c \<in> set mx_texts \<Longrightarrow> validate_authored_content mx_env PRODUCTION c metadata_default = Inr ()"
  using mx_texts_clean [of c] mx_metadata_ok by (simp add: validate_authored_content_ok_iff PRODUCTION_def)

lemma mx_insert:
  assumes "c \<in> set mx_texts" and "n = 1 \<or> n = 2" and "open_db mx_draws db = Inr (mx_db [] n)"
  shows "mx_put c None 1000 db = (Inr (row_to_memory (mx_row n 1 c 1000)), mx_db [mx_row n 1 c 1000] (n + 1))"
proof -
  let ?r = "mx_row n 1 c 1000"
  have valid: "validate_loaded mx_env PRODUCTION (?r\<lparr>row_metadata := m\<rparr>) = Inr (row_to_memory (?r\<lparr>row_metadata := m\<rparr>))"
    if "m = metadata_default \<or> m = mx_metadata" for m
    using mx_row_valid [OF assms(1), of n 1 m 1000] assms(2) that by (auto simp: validate_loaded_def)
  have same: "?r\<lparr>row_metadata := mx_metadata\<rparr> = ?r"
    by (simp add: mx_row_def)
  have alloc: "allocate_id (mx_db [] n) = Inr n"
    using assms(2) by (auto simp: allocate_id_def mx_db_def checked_add_i64_def I64_MIN_def I64_MAX_def Let_def)
  have row: "\<lparr>row_id = n, row_content = c, row_identity = normalize_identity mx_env c, row_created_at_ms = 1000,
      row_updated_at_ms = 1000, row_last_scanned_at_ms = None, row_scan_count = 0, row_last_used_at_ms = None,
      row_use_count = 0,
      row_probation_until_ms = Some (saturating_add_i64 1000 (ml_probation_duration_ms PRODUCTION)),
      row_version = 1, row_metadata = metadata_default\<rparr> = ?r\<lparr>row_metadata := metadata_default\<rparr>"
    by (simp add: mx_row_def saturating_add_i64_def I64_MAX_def I64_MIN_def PRODUCTION_def PROBATION_DURATION_MS_def)
  have ins: "insert_row (?r\<lparr>row_metadata := metadata_default\<rparr>) (mx_db [] n) =
      Inr (mx_db [?r\<lparr>row_metadata := metadata_default\<rparr>] (n + 1))"
    by (simp add: insert_row_def Let_def table_constraints_def row_checks_def allocator_trigger_def mx_db_def mx_row_def)
  have cap: "check_content_capacity PRODUCTION 0 0 (length c) = Inr ()"
    using mx_texts_clean [OF assms(1)] by (simp add: check_content_capacity_def PRODUCTION_def min_def)
  have step: "mem_insert mx_env PRODUCTION c (normalize_identity mx_env c) 1000 (mx_db [] n) =
      Inr (row_to_memory (?r\<lparr>row_metadata := metadata_default\<rparr>), mx_db [?r\<lparr>row_metadata := metadata_default\<rparr>] (n + 1))"
    unfolding mem_insert_def alloc and_then.simps row ins
    by (simp add: identity_exists_def totals_def content_total_def cap load_one_def find_row_def valid)
  have save: "save_metadata mx_env n mx_metadata (mx_db [?r\<lparr>row_metadata := metadata_default\<rparr>] (n + 1)) =
      Inr (mx_db [?r] (n + 1))"
    by (simp add: save_metadata_def update_row_def mx_db_def Let_def mx_env_def table_constraints_def
        row_checks_def mx_row_def)
  have pruned: "prune_expired 1000 (mx_db [] n) = mx_db [] n"
    by (simp add: prune_expired_def mx_db_def)
  have load: "load_one mx_env PRODUCTION n (mx_db [?r] (n + 1)) = Inr (Some (row_to_memory ?r))"
    using valid [of mx_metadata] by (simp add: load_one_def find_row_def same)
  have own: "put_ownership mx_env PRODUCTION mx_draws None db = Inr (replicate 32 (CHR ''b''))" for db
    by (simp add: put_ownership_def mx_draws_def)
  have rid: "row_id ?r = n"
    by (simp add: mx_row_def)
  have "put_tx mx_env PRODUCTION mx_draws c metadata_default None 1000 (mx_db [] n) =
      Inr (row_to_memory ?r, mx_db [?r] (n + 1))"
    unfolding put_tx_def Let_def pruned own and_then.simps mx_metadata_def [symmetric] mx_metadata_ok(2)
      mx_identity option.case step
    by (simp add: rid save load)
  with assms(3) show ?thesis
    by (simp add: mx_put_def put_with_metadata_def put_metadata_local_def mx_content_ok [OF assms(1)]
        transact_def opt_all_def)
qed

definition mx_one :: mem_db where
  "mx_one = snd (mx_put ''tabs'' None 1000 empty_file)"

definition mx_deleted :: mem_db where
  "mx_deleted = snd (delete_local mx_draws (key_local 1 1) mx_one)"

lemma mx_open_empty: "open_db mx_draws empty_file = Inr (mx_db [] 1)"
  by (simp add: open_db_def empty_file_def mx_db_def MEMORY_SCHEMA_VERSION_def checked_add_i64_def I64_MIN_def
      I64_MAX_def)

lemma mx_one_eq: "mx_one = mx_db [mx_row 1 1 ''tabs'' 1000] 2"
  by (simp add: mx_one_def mx_insert [OF mx_texts_in(1) _ mx_open_empty])

lemma mx_empty_ok: "mem_ok mx_env PRODUCTION empty_file"
  by (rule empty_file_ok) (simp add: PRODUCTION_def MEM_USIZE_MAX_def)

lemma mx_one_reached: "mem_reach mx_env mx_retrieval PRODUCTION empty_file mx_one"
  using mem_reach_op [OF mem_reach_start mx_draws_ok, of mx_env mx_retrieval PRODUCTION empty_file 1000
      "OpPut ''tabs'' metadata_default None"]
  by (simp add: mx_one_def mx_put_def)

lemma mx_one_ok: "mem_ok mx_env PRODUCTION mx_one"
  using reach_keeps [OF mx_json_room mx_empty_ok mx_one_reached] by simp

lemma mx_open_one: "open_db mx_draws mx_one = Inr mx_one"
  using mem_ok_opened [OF mx_one_ok] open_opened by (auto simp: mx_one_eq mx_db_def MEMORY_SCHEMA_VERSION_def)

lemma mx_deleted_eq: "mx_deleted = mx_db [] 2"
proof -
  have "delete_tx (key_local 1 1) mx_one = Inr ((), mx_db [] 2)"
    by (simp add: delete_tx_def mx_one_eq find_row_def as_u64_def) (simp add: mx_db_def)
  then show ?thesis
    by (simp add: mx_deleted_def delete_local_def is_local_key_def transact_opened [OF mx_open_one])
qed

lemma mx_deleted_reached: "mem_reach mx_env mx_retrieval PRODUCTION mx_one mx_deleted"
  using mem_reach_op [OF mem_reach_start mx_draws_ok, of mx_env mx_retrieval PRODUCTION mx_one 0
      "OpDelete (key_local 1 1)"]
  by (simp add: mx_deleted_def)

lemma mx_open_deleted: "open_db mx_draws mx_deleted = Inr (mx_db [] 2)"
  by (simp add: mx_deleted_eq open_db_def mx_db_def MEMORY_SCHEMA_VERSION_def checked_add_i64_def I64_MIN_def I64_MAX_def)

lemma mx_replace:
  assumes "c \<in> set mx_texts"
  shows "mx_put c (Some (key_local 1 1)) 2000 mx_one = (Inr (row_to_memory (mx_row 1 2 c 2000)), mx_db [mx_row 1 2 c 2000] 2)"
proof -
  let ?old = "mx_row 1 1 ''tabs'' 1000" and ?new = "mx_row 1 2 c 2000"
  have valid: "validate_loaded mx_env PRODUCTION ?new = Inr (row_to_memory ?new)"
    "validate_loaded mx_env PRODUCTION ?old = Inr (row_to_memory ?old)"
    using mx_row_valid [OF assms, of 1 2 mx_metadata 2000] mx_row_valid [OF mx_texts_in(1), of 1 1 mx_metadata 1000]
    by (simp_all add: validate_loaded_def mx_row_def)
  have pruned: "prune_expired 2000 mx_one = mx_one"
    by (simp add: prune_expired_def mx_one_eq mx_db_def expired_def mx_row_def)
  have own: "put_ownership mx_env PRODUCTION mx_draws (Some (key_local 1 1)) mx_one = Inr (replicate 32 (CHR ''b''))"
    by (simp add: put_ownership_def load_one_def find_row_def mx_one_eq valid(2)) (simp add: mx_metadata_def)
  have cap: "check_content_capacity PRODUCTION k k (length c) = Inr ()" for k
    using mx_texts_clean [OF assms] by (simp add: check_content_capacity_def PRODUCTION_def min_def)
  have row: "?old\<lparr>row_content := c, row_identity := normalize_identity mx_env c, row_updated_at_ms := 2000,
      row_last_scanned_at_ms := None, row_scan_count := 0, row_last_used_at_ms := None, row_use_count := 0,
      row_probation_until_ms := Some (saturating_add_i64 2000 (ml_probation_duration_ms PRODUCTION)),
      row_version := 2\<rparr> = ?new"
    by (simp add: mx_row_def saturating_add_i64_def I64_MAX_def I64_MIN_def PRODUCTION_def PROBATION_DURATION_MS_def)
  have checks: "table_constraints [?new]"
    by (simp add: table_constraints_def row_checks_def mx_row_def)
  have set_rows: "mx_db rows n\<lparr>db_rows := rows'\<rparr> = mx_db rows' n" for rows rows' n
    by (simp add: mx_db_def)
  have "mem_replace mx_env PRODUCTION c (normalize_identity mx_env c) (key_local 1 1) 2000 mx_one =
      Inr (row_to_memory ?new, mx_db [?new] 2)"
    by (simp add: mem_replace_def mx_one_eq find_row_def as_u64_def identity_exists_def totals_def content_total_def
        cap checked_add_i64_def I64_MAX_def I64_MIN_def update_row_def row checks set_rows load_one_def valid(1))
  moreover have "save_metadata mx_env 1 mx_metadata (mx_db [?new] 2) = Inr (mx_db [?new] 2)"
    by (simp add: save_metadata_def mx_env_def update_row_def Let_def set_rows)
      (simp add: mx_row_def table_constraints_def row_checks_def)
  moreover have "load_one mx_env PRODUCTION 1 (mx_db [?new] 2) = Inr (Some (row_to_memory ?new))"
    by (simp add: load_one_def find_row_def valid(1))
  ultimately have "put_tx mx_env PRODUCTION mx_draws c metadata_default (Some (key_local 1 1)) 2000 mx_one =
      Inr (row_to_memory ?new, mx_db [?new] 2)"
    by (simp add: put_tx_def Let_def pruned own mx_metadata_ok(2) mx_identity mx_metadata_of)
  then show ?thesis
    by (simp add: mx_put_def put_with_metadata_def put_metadata_local_def mx_content_ok [OF assms]
        transact_opened [OF mx_open_one] opt_all_def is_local_key_def)
qed

lemma ok_pair: "is_ok (fst p) \<Longrightarrow> p = (Inr (projr (fst p)), snd p)"
  by (metis is_ok_iff prod.collapse sum.sel(2))

section \<open>Witnesses\<close>

theorem memory_store_is_bounded_witness:
  "length (db_rows mx_one) = 1 \<and> length (db_rows mx_one) \<le> 512 \<and> content_total (db_rows mx_one) \<le> 262144 \<and>
   is_ok (fst (list_local mx_env PRODUCTION mx_draws 2000 mx_one))"
  using memory_store_is_bounded [OF mx_json_room mx_draws_ok mx_one_reached, of 2000]
    by (simp add: mx_one_eq)

theorem retired_memory_id_is_never_reused_witness:
  "db_rows mx_deleted = [] \<and> 1 < mk_id (mr_key (projr (fst (mx_put ''docs'' None 1000 mx_deleted))))"
proof -
  have "is_ok (fst (mx_put ''docs'' None 1000 mx_deleted))"
    using mx_insert [OF mx_texts_in(3), of 2 mx_deleted] mx_open_deleted by simp
  from ok_pair [OF this, unfolded mx_put_def] show ?thesis
    using retired_memory_id_is_never_reused [OF mx_json_room mx_one_ok mx_deleted_reached mx_draws_ok,
        of "''docs''" metadata_default 1000]
    by (simp add: mx_one_eq mx_deleted_eq mx_put_def)
qed


theorem paged_export_is_the_listing_witness:
  "export_all (\<lambda>cursor limit. export_local_page mx_env PRODUCTION mx_draws cursor limit 2000) mx_one =
    list_local mx_env PRODUCTION mx_draws 2000 mx_one"
  by (rule paged_export_is_the_listing [OF mx_json_room mx_draws_ok mx_one_ok])

section \<open>A server\<close>

text \<open>A store that counts its deletions, and a server with one writer.\<close>

definition mx_ops :: "string \<Rightarrow> nat store_ops" where
  "mx_ops namespace =
     \<lparr>so_scan = (\<lambda>_ _ s. (Inl MetadataUnsupported, s)), so_scan_scoped = (\<lambda>_ _ _ s. (Inl MetadataUnsupported, s)),
      so_read = (\<lambda>_ _ s. (Inr [], s)), so_read_scoped = (\<lambda>_ _ _ s. (Inr [], s)), so_list = (\<lambda>s. (Inr [], s)),
      so_lesson_page = (\<lambda>_ _ s. (Inr [], s)), so_put = (\<lambda>_ _ _ s. (Inl MetadataUnsupported, s)),
      so_delete = (\<lambda>_ s. (Inr (), s + 1)), so_sync = (\<lambda>_ s. (Inl MetadataUnsupported, s)),
      so_export_page = (\<lambda>_ _ _ s. (Inr ([], None), s))\<rparr>"

definition mx_server :: "(string, nat) server" where
  "mx_server =
     \<lparr>sv_env = mx_env, sv_hash = (\<lambda>t. t), sv_principals = [''t0'' \<mapsto> \<lparr>pr_namespace = ''team'', pr_role = Writer\<rparr>],
      sv_factory = mx_ops, sv_query_json = (\<lambda>_. Some [])\<rparr>"

definition mx_headers :: request_headers where
  "mx_headers = \<lparr>rh_authorization = Some ''Bearer t0'', rh_namespace = Some ''team''\<rparr>"

lemma mx_bearer: "bearer_of ''Bearer t0'' = Some ''t0''"
  by code_simp

lemma mx_team: "is_valid_namespace ''team''"
  by code_simp

lemma mx_delete: "request_of mx_server mx_headers (MutDelete (key_remote ''team'' 1 1)) 0 = 1"
proof -
  have "sv_authenticate mx_server mx_headers = Inr \<lparr>pr_namespace = ''team'', pr_role = Writer\<rparr>"
    by (simp add: sv_authenticate_def authenticate_def mx_server_def mx_headers_def mx_bearer)
  moreover have "valid_key (key_remote ''team'' 1 1)"
    by (simp add: valid_key_def key_remote_def fits_i64_def I64_MAX_def opt_all_def mx_team)
  ultimately show ?thesis
    by (simp add: server_delete_def guard_request_def delete_checked_def require_writer_def json_payload_def run_store_def
        mx_server_def mx_ops_def) (simp add: key_remote_def)
qed

theorem only_a_writer_changes_its_own_namespace_witness:
  "request_of mx_server mx_headers (MutDelete (key_remote ''team'' 1 1)) 0 \<noteq> 0 \<and>
   (\<exists>p :: Principal. pr_role p = Writer \<and> rh_namespace mx_headers = Some (pr_namespace p) \<and>
     request_of mx_server mx_headers (MutDelete (key_remote ''team'' 1 1)) 0 =
       mutate (sv_factory mx_server (pr_namespace p)) (MutDelete (key_remote ''team'' 1 1)) 0)"
proof -
  have changed: "request_of mx_server mx_headers (MutDelete (key_remote ''team'' 1 1)) 0 \<noteq> 0"
    by (simp only: mx_delete)
  show ?thesis
    using only_a_writer_changes_its_own_namespace [OF changed] changed by blast
qed

theorem export_page_is_safe_for_any_store_witness:
  "\<exists>r s'. export_visible_page mx_env (so_export_page (mx_ops ''team'') None) None None 5 0 = Some (r, s') \<and>
    (\<forall>page next_cursor. r = Inr (page, next_cursor) \<longrightarrow> page_result_ok mx_env None None 5 page next_cursor)"
  using export_page_is_safe_for_any_store [of 5 mx_env "so_export_page (mx_ops ''team'') None" None None 0] by simp

theorem finalize_lessons_terminates_witness:
  "\<exists>r s'. finalize_lessons mx_env (mx_ops ''team'')
     \<lparr>tr_session = ''s'', tr_request = ''r'', tr_task = ''t''\<rparr> 0 = Some (r, s')"
  by (rule finalize_lessons_terminates) (simp add: typed_pages_def mx_ops_def)

end
