(* ===== verification/Spec2Isabelle.thy ===== *)
theory Spec2Isabelle
  imports Store_Properties Session_Properties Context_Properties Admission_Properties Submission_Recovery
    Auxiliary_Properties Manual_Store Intake_Properties
    Memory_Fixture
begin

text \<open>
  A verification library for the task harness of orvek (\<^verbatim>\<open>src/crates/harness\<close>) and for its memory
  service (\<^verbatim>\<open>src/crates/memory\<close>).

  \<^bold>\<open>The program.\<close> The harness runs coding tasks for a user with a language model. A task has a contract
  that says what must be checked; the harness, not the model, decides whether the task is complete. A
  session is the conversation that starts and drives tasks. Both are aggregates of an append-only,
  hash-chained journal in one database: a command loads an aggregate by replaying its events from the
  latest checkpoint, tests its guards, appends an event and updates the cached row, in one transaction.

  \<^bold>\<open>Foundations.\<close> \<open>Prelude\<close> has the result type (a sum, the error on the left), ordered maps and sets as the
  code's \<open>BTreeMap\<close> and \<open>BTreeSet\<close>, saturating and checked arithmetic on words and the white-space and
  path helpers. \<open>Utf8\<close> has character boundaries. \<open>Digests\<close> (\<^verbatim>\<open>digest.rs\<close>) has digests and identifiers.

  \<^bold>\<open>Tasks.\<close> \<open>Contracts\<close> (\<^verbatim>\<open>contract.rs\<close>) models contracts and their validator, shown to accept exactly the
  well-formed ones. \<open>Task_State\<close> (\<^verbatim>\<open>state.rs\<close>) models the task, its events and their application.
  \<open>Completion\<close> (\<^verbatim>\<open>completion.rs\<close>) models the evaluator; it issues a certificate exactly when the task is
  completable in a declarative sense.

  \<^bold>\<open>Files.\<close> \<open>Artifacts\<close> (\<^verbatim>\<open>artifacts.rs\<close>) models the content-addressed store over a map of files; what it
  returns always has the requested digest. \<open>Paths\<close> and \<open>Workspaces\<close> (\<^verbatim>\<open>workspace.rs\<close>,
  \<^verbatim>\<open>workspace/reconcile.rs\<close>) model snapshots and the three-way merge.

  \<^bold>\<open>The task store.\<close> \<open>Store_Base\<close>, \<open>Artifact_Graph\<close>, \<open>Task_Journal\<close> and \<open>Task_Store\<close> (\<^verbatim>\<open>store.rs\<close>) model the
  database as a record of tables, the journal with its checkpoints and hash chain, the artifact budget
  and every task command. The locale \<open>event_log\<close> of \<open>Task_Journal\<close> states what a journaled aggregate
  promises (what is loaded after an append, what an append leaves alone) and derives what its clients
  use; it is interpreted for tasks there and for sessions in \<open>Session_Journal\<close>. \<open>Store_Invariant\<close> shows
  that every command keeps the database well formed, \<open>Store_Fixture\<close> runs one task to completion on a
  concrete codec, and \<open>Store_Properties\<close> has the results: the store refines the task machine, a complete
  task is certified, the journal is tamper evident.

  \<^bold>\<open>Sessions.\<close> \<open>Admission_Profile\<close> (\<^verbatim>\<open>admission_profile.rs\<close>, \<^verbatim>\<open>session.rs\<close>), \<open>Tool_Outputs\<close>
  (\<^verbatim>\<open>session/tool_output.rs\<close>), \<open>Notifications\<close> (\<^verbatim>\<open>controller/notification.rs\<close>), \<open>Interpreter\<close>
  (\<^verbatim>\<open>interpreter.rs\<close>), \<open>Auxiliary\<close> (\<^verbatim>\<open>auxiliary.rs\<close>) and \<open>Submissions\<close> (\<^verbatim>\<open>submission.rs\<close>, \<^verbatim>\<open>manual.rs\<close>) model
  the parts of a session; \<open>Session_State\<close> and \<open>Session_Apply\<close> (\<^verbatim>\<open>session.rs\<close>) the session, its 31 commands
  and \<open>SessionState::apply\<close>, with the invariant each command keeps. \<open>Context\<close> (\<^verbatim>\<open>context.rs\<close>,
  \<^verbatim>\<open>context/transitions.rs\<close>) models what the model is shown of a session; \<open>Context_Properties\<close> shows that it
  fits the window and leaves out only whole, marked blocks.

  \<^bold>\<open>The session store.\<close> \<open>Session_Journal\<close> models appending and loading with checkpoints and legacy events,
  \<open>Session_Framing\<close> that a long tool result framed in parts is that result, \<open>Session_Store\<close> the session side
  of \<^verbatim>\<open>store.rs\<close>: creation and forks, pinned admissions, guarded commands, task starts and resumption,
  scoped history, recovery, cost and journal pages. \<open>Session_Commands\<close> has what the commands keep and
  when they succeed, \<open>Session_Recovery\<close> that recovery settles every session, \<open>Session_Fixture\<close> a concrete
  codec and a session on it, \<open>Session_Properties\<close> the results.

  \<^bold>\<open>Requests.\<close> \<open>Admission\<close> (\<^verbatim>\<open>admission.rs\<close>) models intake policies and the compilation of a model's proposal
  into a contract; the operator's profile cannot be weakened by the proposal. \<open>Verification\<close>
  (\<^verbatim>\<open>verification.rs\<close>) models preparing, executing and finishing a check; a passed check was observed, with its
  negative control. \<open>Submission_Store\<close> (\<^verbatim>\<open>store/submissions.rs\<close>) models the queue of a session,
  \<open>Submission_Queue\<close> an abstract queue machine that \<open>Submission_Properties\<close> shows it to refine, and
  \<open>Submission_Recovery\<close> that recovery never repeats work that had begun. \<open>Auxiliary_Store\<close>
  (\<^verbatim>\<open>store/auxiliary.rs\<close>) models read-only assistance with its accounting, \<open>Manual_Store\<close> (\<^verbatim>\<open>store/manual.rs\<close>)
  shell commands of the operator, whose source is adopted only within its scope. \<open>Reviews\<close> (\<^verbatim>\<open>review.rs\<close>,
  \<^verbatim>\<open>feedback.rs\<close>) and \<open>Inputs\<close> (\<^verbatim>\<open>input.rs\<close>) model frozen review data and user input, which can be loaded again
  as it was prepared. \<open>Event_Intake\<close> (\<^verbatim>\<open>event_intake.rs\<close>, \<^verbatim>\<open>store/event_intake.rs\<close>) models sources, deliveries
  and interval ticks; \<open>Intake_Invariant\<close> and \<open>Intake_Properties\<close> show that the tables stay bounded, deliveries are
  deduplicated and due times are exact. The fixtures are in the theories named \<open>_Properties\<close>.

  \<^bold>\<open>Memory.\<close> The memory service keeps short notes across sessions, in a private SQLite file or behind an
  authenticated server. \<open>Memory_Secrets\<close> (\<^verbatim>\<open>secrets.rs\<close>) models the detection of likely secrets,
  \<open>Memory_Model\<close> (\<^verbatim>\<open>model.rs\<close>, \<^verbatim>\<open>evidence.rs\<close>, \<^verbatim>\<open>store/mod.rs\<close>) records, metadata and their validation,
  \<open>Memory_Retrieval\<close> (\<^verbatim>\<open>retrieval.rs\<close>) tokenizing and ranking, \<open>Memory_Local\<close> (\<^verbatim>\<open>store/local.rs\<close>) the tables
  with their constraints and the allocator, and every operation. \<open>Memory_Invariant\<close> shows what the
  transactions keep; the locale \<open>store_transaction\<close> of \<open>Memory_Properties\<close> states that contract of a
  transaction and is interpreted for each of them, which gives the results: the store stays bounded, a
  retired identifier is never given out again, replacement is compare-and-swap. \<open>Memory_Paging\<close> has the
  paged collector, whose locale \<open>page_source\<close> states what a store that pages a corpus promises;
  interpreted for the private store it gives the listing. \<open>Memory_Server\<close> (\<^verbatim>\<open>server/router.rs\<close>,
  \<^verbatim>\<open>server/credential.rs\<close>) models every route over an arbitrary store, so that its results hold also for a
  store that answers wrongly, and \<open>Memory_Lessons\<close> (\<^verbatim>\<open>lessons.rs\<close>) the lessons of a run, whose loop ends on
  every store. \<open>Memory_Fixture\<close> has a concrete store and server.

  \<^bold>\<open>Parameters.\<close> SHA-256, the JSON encoders and decoders, name-based identifiers, base64 and the existence
  of a directory are fields of a codec record; the executor, the comparison of a directory with a snapshot and
  the cancellation token of a check run are fields of a host record. What the theorems need of them are named hypotheses,
  \<open>codec_ok\<close> and \<open>session_codec_ok\<close>: decoding gives back what was encoded, digests have 32 bytes, links
  of the hash chain are encoded injectively. In the memory theories, the JSON of a record or of its metadata,
  Unicode case tables and the floating-point score of a document are fields of \<open>memory_env\<close> and
  \<open>retrieval_env\<close>; \<open>json_room\<close> says that an ownership identifier of 32 characters adds what the code
  reserves for it, and \<open>draws_ok\<close> that drawn identifiers have that form. Collisions of the hash are an explicit alternative in the
  theorems that compare journals. The fixtures give codecs that meet these hypotheses.
  The clock is an argument: a number, or \<open>now command\<close> where several events are written. Random
  identifiers are arguments of the commands that draw them.

  \<^bold>\<open>Bounds.\<close> Revisions, counters and times are 64-bit words that wrap, saturate or are checked as in the code;
  database integers are \<open>int\<close> with the conversions written out; \<open>usize\<close> is \<open>nat\<close> where no overflow is
  reachable and saturates at \<open>2 ^ 64 - 1\<close> where the code saturates. Loops are structural or have a
  measure, except three walks with fuel: the walk to the root of a branch (\<open>lineage_walk_ends\<close>: more
  rounds than events are enough), the artifact walk and the ancestors of a link (enough fuel is computed
  from the input and shown to be enough). \<open>scoped_history\<close> has the bound 128 of the code.

  \<^bold>\<open>Not modelled.\<close> SQL errors other than constraint failures, disk faults, file modes and locks, schema
  creation and migrations; recent inputs, imports and monitoring in the store; capturing reviews; the asynchronous
  controller, subagents, inference, delivery, the executor, the remote client, tool, archive files and source
  assessment of the memory service, and the user interface.
  The last group acts on state only through the store commands modelled here, or not at all on it.
\<close>

end
